(* ===== verification/Prelude.thy ===== *)
theory Prelude
  imports Main "HOL-Library.Word"
begin

text \<open>
  What every component of the model shares: the named collections of rewrite rules, C's notion
  of a nullable string, the character classes of \<^verbatim>\<open><ctype.h>\<close> in the C locale (the programs never call
  \<open>setlocale\<close>), faults, return codes, flag words, and the list lemmas behind the
  tail-inserting linked lists.

  Conventions. A \<open>char *\<close> that the code may leave at \<open>NULL\<close> is a \<^typ>\<open>string option\<close>; one
  that the code dereferences at once is a \<^typ>\<open>string\<close>. A \<open>string\<close> holds the bytes before
  the terminating zero. A function of the code that returns 0 or -1 and writes through
  a pointer returns the pair of its return code and the object after the call, on the error
  paths too. Memory allocation does not fail in the model.
\<close>

named_theorems flag_simps \<open>rules that read, set and clear the bits of a flag word\<close>
named_theorems frame_simps \<open>what an operation leaves unchanged\<close>

unbundle bit_operations_syntax

section \<open>Faults\<close>

text \<open>
  What the C standard leaves undefined, and the failing \<open>assert\<close>s. A function that can run into one of them
  returns \<open>Inl\<close> of the fault.
\<close>

datatype fault = Null_Deref | Division_By_Zero | Assertion_Failed | Out_Of_Bounds

type_synonym 'a outcome = "fault + 'a"

definition ok :: "'a outcome \<Rightarrow> bool" where
  "ok r \<longleftrightarrow> (case r of Inl _ \<Rightarrow> False | Inr _ \<Rightarrow> True)"

lemma ok_simps [simp]: "ok (Inr x)" "\<not> ok (Inl e)"
  by (simp_all add: ok_def)

lemma ok_iff: "ok r \<longleftrightarrow> (\<exists>x. r = Inr x)"
  by (cases r) simp_all

text \<open>Going on after a step that may fault, over one value and over a list.\<close>

definition obind :: "'a outcome \<Rightarrow> ('a \<Rightarrow> 'b outcome) \<Rightarrow> 'b outcome" where
  "obind r f = (case r of Inl e \<Rightarrow> Inl e | Inr x \<Rightarrow> f x)"

lemma obind_simps [simp]: "obind (Inl e) f = Inl e" "obind (Inr x) f = f x"
  by (simp_all add: obind_def)

lemma obind_Inr: "obind r f = Inr y \<longleftrightarrow> (\<exists>x. r = Inr x \<and> f x = Inr y)"
  by (cases r) simp_all

fun omap :: "('a \<Rightarrow> 's \<Rightarrow> ('b \<times> 's) outcome) \<Rightarrow> 'a list \<Rightarrow> 's \<Rightarrow> ('b list \<times> 's) outcome" where
  "omap f [] s = Inr ([], s)"
| "omap f (x # xs) s = obind (f x s) (\<lambda>(y, s'). obind (omap f xs s') (\<lambda>(ys, s''). Inr (y # ys, s'')))"

fun ofold :: "('a \<Rightarrow> 's \<Rightarrow> 's outcome) \<Rightarrow> 'a list \<Rightarrow> 's \<Rightarrow> 's outcome" where
  "ofold f [] s = Inr s"
| "ofold f (x # xs) s = obind (f x s) (ofold f xs)"

section \<open>Characters\<close>

definition code :: "char \<Rightarrow> nat" where
  "code c = of_char c"

definition isdigit :: "char \<Rightarrow> bool" where
  "isdigit c \<longleftrightarrow> 48 \<le> code c \<and> code c \<le> 57"

definition isalpha :: "char \<Rightarrow> bool" where
  "isalpha c \<longleftrightarrow> (65 \<le> code c \<and> code c \<le> 90) \<or> (97 \<le> code c \<and> code c \<le> 122)"

definition isalnum :: "char \<Rightarrow> bool" where
  "isalnum c \<longleftrightarrow> isalpha c \<or> isdigit c"

definition isxdigit :: "char \<Rightarrow> bool" where
  "isxdigit c \<longleftrightarrow> isdigit c \<or> (65 \<le> code c \<and> code c \<le> 70) \<or> (97 \<le> code c \<and> code c \<le> 102)"

definition isspace :: "char \<Rightarrow> bool" where
  "isspace c \<longleftrightarrow> code c = 32 \<or> (9 \<le> code c \<and> code c \<le> 13)"

abbreviation newline :: char where
  "newline \<equiv> CHR 0x0A"

abbreviation quote_char :: char where
  "quote_char \<equiv> CHR 0x22"

lemma code_less [simp]: "code c < 256"
  by (simp add: code_def)

lemma code_inj [simp]: "code c = code d \<longleftrightarrow> c = d"
  by (simp add: code_def)

lemma code_char_of [simp]: "n < 256 \<Longrightarrow> code (char_of n) = n"
  by (simp add: code_def)

lemma isspace_not_digit: "isspace c \<Longrightarrow> \<not> isdigit c"
  by (auto simp: isspace_def isdigit_def)

section \<open>Flag words\<close>

type_synonym flags = "32 word"

definition flag_on :: "flags \<Rightarrow> flags \<Rightarrow> bool" where
  "flag_on f m \<longleftrightarrow> f AND m \<noteq> 0"

definition flag_set :: "flags \<Rightarrow> flags \<Rightarrow> flags" where
  "flag_set f m = f OR m"

definition flag_clear :: "flags \<Rightarrow> flags \<Rightarrow> flags" where
  "flag_clear f m = f AND NOT m"

lemma flag_on_zero [flag_simps]: "\<not> flag_on 0 m"
  by (simp add: flag_on_def)

lemma flag_on_set_same [flag_simps]: "m \<noteq> 0 \<Longrightarrow> flag_on (flag_set f m) m"
  by (simp add: flag_on_def flag_set_def bit.conj_disj_distrib2)

lemma flag_on_set_other [flag_simps]: "m AND k = 0 \<Longrightarrow> flag_on (flag_set f m) k = flag_on f k"
  by (simp add: flag_on_def flag_set_def bit.conj_disj_distrib2)

lemma flag_on_set_mono: "flag_on f k \<Longrightarrow> flag_on (flag_set f m) k"
  by (auto simp: flag_on_def flag_set_def bit.conj_disj_distrib2 or_eq_0_iff)

lemma flag_on_clear_same [flag_simps]: "\<not> flag_on (flag_clear f m) m"
  by (simp add: flag_on_def flag_clear_def and.assoc)

lemma flag_on_clear_other [flag_simps]: "m AND k = 0 \<Longrightarrow> flag_on (flag_clear f m) k = flag_on f k"
proof -
  assume disj: "m AND k = 0"
  have "NOT m AND k = k"
  proof (rule bit_eqI)
    fix n
    have "\<not> (bit m n \<and> bit k n)"
      using disj by (metis bit_and_iff bit_0_eq bot_apply bot_bool_def)
    then show "bit (NOT m AND k) n = bit k n"
      by (auto simp: bit_simps dest: bit_imp_le_length)
  qed
  then show ?thesis
    by (simp add: flag_on_def flag_clear_def and.assoc)
qed

section \<open>Lists\<close>

lemma takeWhile_all: "(\<forall>x\<in>set xs. P x) \<Longrightarrow> takeWhile P (xs @ ys) = xs @ takeWhile P ys"
  by (induction xs) auto

lemma dropWhile_all: "(\<forall>x\<in>set xs. P x) \<Longrightarrow> dropWhile P (xs @ ys) = dropWhile P ys"
  by (induction xs) auto

lemma find_Some_mem: "find P xs = Some x \<Longrightarrow> x \<in> set xs \<and> P x"
  by (induction xs) (auto split: if_splits)

lemma find_None_all: "find P xs = None \<longleftrightarrow> (\<forall>x\<in>set xs. \<not> P x)"
  by (induction xs) auto

lemma find_append: "find P (xs @ ys) = (case find P xs of None \<Rightarrow> find P ys | Some x \<Rightarrow> Some x)"
  by (induction xs) auto

lemma find_unique:
  assumes "x \<in> set xs" "P x" "\<And>y. y \<in> set xs \<Longrightarrow> P y \<Longrightarrow> y = x"
  shows "find P xs = Some x"
proof (cases "find P xs")
  case None
  with assms(1,2) show ?thesis by (simp add: find_None_all)
next
  case (Some y)
  with assms(3) find_Some_mem [OF Some] show ?thesis by simp
qed

end
