(* ===== verification/Model.thy ===== *)
theory Model
  imports Prelude
begin

text \<open>
  The data model of \<^verbatim>\<open>src/lmap.h.in\<close> and \<^verbatim>\<open>src/lmapd.h.in\<close>: one record per C structure, with
  the structure's fields in its order. A linked list (a \<open>next\<close> pointer) is a HOL list in
  the same order. Unsigned fields keep their width as words. \<open>time_t\<close> and the signed
  fields are \<^typ>\<open>int\<close>, and the setters that write them prove the bounds of their C types.
  The status constants are datatypes: every object starts in a state of
  the enumeration and is only ever set to another. The \<open>*_new\<close> functions are the
  initial values.
\<close>

section \<open>Tags, options, registries\<close>

text \<open>A \<open>struct tag\<close> holds one \<open>char *\<close>, which is \<open>NULL\<close> in a fresh tag.\<close>

type_synonym tag = "string option"

definition lmap_tag_new :: tag where
  "lmap_tag_new = None"

record lmap_option =
  opt_id :: "string option"
  opt_name :: "string option"
  opt_value :: "string option"

definition lmap_option_new :: lmap_option where
  "lmap_option_new = \<lparr>opt_id = None, opt_name = None, opt_value = None\<rparr>"

record registry =
  reg_uri :: "string option"
  reg_roles :: "tag list"

definition lmap_registry_new :: registry where
  "lmap_registry_new = \<lparr>reg_uri = None, reg_roles = []\<rparr>"

section \<open>Agent\<close>

record agent =
  ag_agent_id :: "string option"
  ag_group_id :: "string option"
  ag_measurement_point :: "string option"
  ag_report_agent_id :: int
  ag_report_group_id :: int
  ag_report_measurement_point :: int
  ag_controller_timeout :: "32 word"
  ag_flags :: flags
  ag_report_date :: int
  ag_last_started :: int

definition LMAP_AGENT_FLAG_REPORT_AGENT_ID_SET :: flags where
  "LMAP_AGENT_FLAG_REPORT_AGENT_ID_SET = 0x01"

definition LMAP_AGENT_FLAG_REPORT_GROUP_ID_SET :: flags where
  "LMAP_AGENT_FLAG_REPORT_GROUP_ID_SET = 0x02"

definition LMAP_AGENT_FLAG_REPORT_MEASUREMENT_POINT_SET :: flags where
  "LMAP_AGENT_FLAG_REPORT_MEASUREMENT_POINT_SET = 0x04"

definition LMAP_AGENT_FLAG_CONTROLLER_TIMEOUT_SET :: flags where
  "LMAP_AGENT_FLAG_CONTROLLER_TIMEOUT_SET = 0x08"

definition lmap_agent_new :: agent where
  "lmap_agent_new =
     \<lparr>ag_agent_id = None, ag_group_id = None, ag_measurement_point = None,
      ag_report_agent_id = 0, ag_report_group_id = 0, ag_report_measurement_point = 0,
      ag_controller_timeout = 604800, ag_flags = 0, ag_report_date = 0, ag_last_started = 0\<rparr>"

section \<open>Suppressions\<close>

datatype supp_state = Supp_Enabled | Supp_Disabled | Supp_Active

record supp =
  supp_name :: "string option"
  supp_start :: "string option"
  supp_end :: "string option"
  supp_match :: "tag list"
  supp_stop_running :: int
  supp_flags :: flags
  supp_state :: supp_state

definition LMAP_SUPP_FLAG_STOP_RUNNING_SET :: flags where
  "LMAP_SUPP_FLAG_STOP_RUNNING_SET = 0x01"

definition lmap_supp_new :: supp where
  "lmap_supp_new =
     \<lparr>supp_name = None, supp_start = None, supp_end = None, supp_match = [],
      supp_stop_running = 0, supp_flags = 0, supp_state = Supp_Enabled\<rparr>"

section \<open>Actions\<close>

text \<open>Actions and schedules have the same four states.\<close>

datatype run_state = Enabled | Disabled | Running | Suppressed

record action =
  act_name :: "string option"
  act_task :: "string option"
  act_destinations :: "tag list"
  act_options :: "lmap_option list"
  act_tags :: "tag list"
  act_suppression_tags :: "tag list"
  act_state :: run_state
  act_flags :: flags
  act_storage :: "64 word"
  act_last_invocation :: int
  act_last_completion :: int
  act_last_status :: int
  act_last_message :: "string option"
  act_last_failed_completion :: int
  act_last_failed_status :: int
  act_last_failed_message :: "string option"
  act_cnt_invocations :: "32 word"
  act_cnt_failures :: "32 word"
  act_cnt_suppressions :: "32 word"
  act_cnt_overlaps :: "32 word"
  act_pid :: int
  act_workspace :: "string option"
  act_cnt_active_suppressions :: "32 word"

definition LMAP_ACTION_FLAG_MOVEDEFERRED :: flags where
  "LMAP_ACTION_FLAG_MOVEDEFERRED = 0x01"

definition lmap_action_new :: action where
  "lmap_action_new =
     \<lparr>act_name = None, act_task = None, act_destinations = [], act_options = [],
      act_tags = [], act_suppression_tags = [], act_state = Enabled, act_flags = 0,
      act_storage = 0, act_last_invocation = 0, act_last_completion = 0,
      act_last_status = 0, act_last_message = None, act_last_failed_completion = 0,
      act_last_failed_status = 0, act_last_failed_message = None, act_cnt_invocations = 0,
      act_cnt_failures = 0, act_cnt_suppressions = 0, act_cnt_overlaps = 0, act_pid = 0,
      act_workspace = None, act_cnt_active_suppressions = 0\<rparr>"

section \<open>Schedules\<close>

datatype exec_mode = Sequential | Parallel | Pipelined

record schedule =
  sched_name :: "string option"
  sched_start :: "string option"
  sched_end :: "string option"
  sched_cycle_number :: int
  sched_duration :: "64 word"
  sched_mode :: exec_mode
  sched_flags :: flags
  sched_tags :: "tag list"
  sched_suppression_tags :: "tag list"
  sched_actions :: "action list"
  sched_state :: run_state
  sched_storage :: "64 word"
  sched_cnt_invocations :: "32 word"
  sched_cnt_failures :: "32 word"
  sched_cnt_suppressions :: "32 word"
  sched_cnt_overlaps :: "32 word"
  sched_last_invocation :: int
  sched_workspace :: "string option"
  sched_cnt_active_suppressions :: "32 word"

definition LMAP_SCHEDULE_FLAG_END_SET :: flags where
  "LMAP_SCHEDULE_FLAG_END_SET = 0x01"

definition LMAP_SCHEDULE_FLAG_DURATION_SET :: flags where
  "LMAP_SCHEDULE_FLAG_DURATION_SET = 0x02"

definition LMAP_SCHEDULE_FLAG_EXEC_MODE_SET :: flags where
  "LMAP_SCHEDULE_FLAG_EXEC_MODE_SET = 0x04"

definition LMAP_SCHEDULE_FLAG_STOP_RUNNING :: flags where
  "LMAP_SCHEDULE_FLAG_STOP_RUNNING = 0x08"

definition lmap_schedule_new :: schedule where
  "lmap_schedule_new =
     \<lparr>sched_name = None, sched_start = None, sched_end = None, sched_cycle_number = 0,
      sched_duration = 0, sched_mode = Pipelined, sched_flags = 0, sched_tags = [],
      sched_suppression_tags = [], sched_actions = [], sched_state = Enabled,
      sched_storage = 0, sched_cnt_invocations = 0, sched_cnt_failures = 0,
      sched_cnt_suppressions = 0, sched_cnt_overlaps = 0, sched_last_invocation = 0,
      sched_workspace = None, sched_cnt_active_suppressions = 0\<rparr>"

section \<open>Tasks and capabilities\<close>

text \<open>
  The fields \<open>tool\<close>, \<open>option_count\<close>, \<open>list\<close> and \<open>flags\<close> of \<open>struct task\<close> are never read or
  written by any function.
\<close>

record task =
  task_name :: "string option"
  task_registries :: "registry list"
  task_version :: "string option"
  task_program :: "string option"
  task_options :: "lmap_option list"
  task_tags :: "tag list"

definition lmap_task_new :: task where
  "lmap_task_new =
     \<lparr>task_name = None, task_registries = [], task_version = None, task_program = None,
      task_options = [], task_tags = []\<rparr>"

record capability =
  cap_tasks :: "task list"
  cap_version :: "string option"
  cap_tags :: "tag list"

definition lmap_capability_new :: capability where
  "lmap_capability_new = \<lparr>cap_tasks = [], cap_version = None, cap_tags = []\<rparr>"

section \<open>Events\<close>

text \<open>\<open>No_Type\<close> is the 0 of a fresh event, which is none of the seven type constants.\<close>

datatype event_type =
  No_Type | Periodic | Calendar | One_Off | Immediate | Startup | Controller_Lost
  | Controller_Connected

text \<open>
  The timers an event owns while the event loop runs. A pending libevent timer is its
  callback, whether it repeats, and its delay in seconds.
\<close>

datatype callback = Startup_Cb | Trigger_Periodic_Cb | Trigger_Calendar_Cb | Fire_Cb

record timer =
  tmr_callback :: callback
  tmr_persist :: bool
  tmr_delay :: int

record event =
  ev_name :: "string option"
  ev_type :: event_type
  ev_flags :: flags
  ev_last_invocation :: int
  ev_interval :: "32 word"
  ev_start :: int
  ev_end :: int
  ev_random_spread :: "32 word"
  ev_cycle_interval :: "32 word"
  ev_months :: "16 word"
  ev_days_of_month :: "32 word"
  ev_days_of_week :: "8 word"
  ev_hours :: "32 word"
  ev_minutes :: "64 word"
  ev_seconds :: "64 word"
  ev_timezone_offset :: int
  ev_start_event :: "timer option"
  ev_trigger_event :: "timer option"
  ev_fire_event :: "timer option"

definition LMAP_EVENT_FLAG_INTERVAL_SET :: flags where
  "LMAP_EVENT_FLAG_INTERVAL_SET = 0x01"

definition LMAP_EVENT_FLAG_START_SET :: flags where
  "LMAP_EVENT_FLAG_START_SET = 0x02"

definition LMAP_EVENT_FLAG_END_SET :: flags where
  "LMAP_EVENT_FLAG_END_SET = 0x04"

definition LMAP_EVENT_FLAG_RANDOM_SPREAD_SET :: flags where
  "LMAP_EVENT_FLAG_RANDOM_SPREAD_SET = 0x08"

definition LMAP_EVENT_FLAG_CYCLE_INTERVAL_SET :: flags where
  "LMAP_EVENT_FLAG_CYCLE_INTERVAL_SET = 0x10"

definition LMAP_EVENT_FLAG_TIMEZONE_OFFSET_SET :: flags where
  "LMAP_EVENT_FLAG_TIMEZONE_OFFSET_SET = 0x20"

definition lmap_event_new :: event where
  "lmap_event_new =
     \<lparr>ev_name = None, ev_type = No_Type, ev_flags = 0, ev_last_invocation = 0,
      ev_interval = 0, ev_start = 0, ev_end = 0, ev_random_spread = 0,
      ev_cycle_interval = 0, ev_months = 0, ev_days_of_month = 0, ev_days_of_week = 0,
      ev_hours = 0, ev_minutes = 0, ev_seconds = 0, ev_timezone_offset = 0,
      ev_start_event = None, ev_trigger_event = None, ev_fire_event = None\<rparr>"

section \<open>Results\<close>

text \<open>A \<open>struct value\<close> holds one \<open>char *\<close>.\<close>

type_synonym val = "string option"

definition lmap_value_new :: val where
  "lmap_value_new = None"

record row =
  row_values :: "val list"

definition lmap_row_new :: row where
  "lmap_row_new = \<lparr>row_values = []\<rparr>"

record table =
  tab_registries :: "registry list"
  tab_columns :: "val list"
  tab_rows :: "row list"

definition lmap_table_new :: table where
  "lmap_table_new = \<lparr>tab_registries = [], tab_columns = [], tab_rows = []\<rparr>"

record result =
  res_schedule :: "string option"
  res_action :: "string option"
  res_task :: "string option"
  res_options :: "lmap_option list"
  res_tags :: "tag list"
  res_event :: int
  res_start :: int
  res_end :: int
  res_cycle_number :: "string option"
  res_status :: int
  res_tables :: "table list"
  res_flags :: flags

definition LMAP_RESULT_FLAG_STATUS_SET :: flags where
  "LMAP_RESULT_FLAG_STATUS_SET = 0x01"

definition lmap_result_new :: result where
  "lmap_result_new =
     \<lparr>res_schedule = None, res_action = None, res_task = None, res_options = [],
      res_tags = [], res_event = 0, res_start = 0, res_end = 0, res_cycle_number = None,
      res_status = 0, res_tables = [], res_flags = 0\<rparr>"

section \<open>The agent's whole state\<close>

record lmap =
  lm_agent :: "agent option"
  lm_capabilities :: "capability option"
  lm_schedules :: "schedule list"
  lm_supps :: "supp list"
  lm_events :: "event list"
  lm_tasks :: "task list"
  lm_results :: "result list"

definition lmap_new :: lmap where
  "lmap_new =
     \<lparr>lm_agent = None, lm_capabilities = None, lm_schedules = [], lm_supps = [],
      lm_events = [], lm_tasks = [], lm_results = []\<rparr>"

record lmapd =
  ld_lmap :: "lmap option"
  ld_config_paths :: "string list"
  ld_capability_path :: "string option"
  ld_queue_path :: "string option"
  ld_run_path :: "string option"
  ld_flags :: flags

definition LMAPD_FLAG_RESTART :: flags where
  "LMAPD_FLAG_RESTART = 0x01"

definition LMAPD_FLAG_SKIPSTARTUP :: flags where
  "LMAPD_FLAG_SKIPSTARTUP = 0x02"

definition LMAPD_FLAG_STARTUPDONE :: flags where
  "LMAPD_FLAG_STARTUPDONE = 0x04"

definition lmapd_new :: lmapd where
  "lmapd_new =
     \<lparr>ld_lmap = None, ld_config_paths = [], ld_capability_path = None,
      ld_queue_path = None, ld_run_path = None, ld_flags = 0\<rparr>"

lemmas agent_flag_defs =
  LMAP_AGENT_FLAG_REPORT_AGENT_ID_SET_def LMAP_AGENT_FLAG_REPORT_GROUP_ID_SET_def
  LMAP_AGENT_FLAG_REPORT_MEASUREMENT_POINT_SET_def LMAP_AGENT_FLAG_CONTROLLER_TIMEOUT_SET_def

lemmas schedule_flag_defs =
  LMAP_SCHEDULE_FLAG_END_SET_def LMAP_SCHEDULE_FLAG_DURATION_SET_def
  LMAP_SCHEDULE_FLAG_EXEC_MODE_SET_def LMAP_SCHEDULE_FLAG_STOP_RUNNING_def

lemmas event_flag_defs =
  LMAP_EVENT_FLAG_INTERVAL_SET_def LMAP_EVENT_FLAG_START_SET_def LMAP_EVENT_FLAG_END_SET_def
  LMAP_EVENT_FLAG_RANDOM_SPREAD_SET_def LMAP_EVENT_FLAG_CYCLE_INTERVAL_SET_def
  LMAP_EVENT_FLAG_TIMEZONE_OFFSET_SET_def

lemmas lmapd_flag_defs =
  LMAPD_FLAG_RESTART_def LMAPD_FLAG_SKIPSTARTUP_def LMAPD_FLAG_STARTUPDONE_def

lemmas new_defs =
  lmap_tag_new_def lmap_option_new_def lmap_registry_new_def lmap_agent_new_def
  lmap_supp_new_def lmap_action_new_def lmap_schedule_new_def lmap_task_new_def
  lmap_capability_new_def lmap_event_new_def lmap_value_new_def lmap_row_new_def
  lmap_table_new_def lmap_result_new_def lmap_new_def lmapd_new_def

end
