(* ===== verification/Scalars.thy ===== *)
theory Scalars
  imports Model
begin

text \<open>
  The value parsers at the top of \<^verbatim>\<open>src/data.c\<close> (\<open>set_string\<close> to \<open>set_dateandtime\<close>) with the
  functions of the C library they call. Each parser takes the old value of the field it writes and returns
  its return code and the new value.
\<close>

section \<open>Decimal numerals and the C library's number parsers\<close>

definition digits_value :: "string \<Rightarrow> nat" where
  "digits_value ds = foldl (\<lambda>a c. 10 * a + (code c - 48)) 0 ds"

fun dec :: "nat \<Rightarrow> string" where
  "dec n = (if n < 10 then [char_of (48 + n)] else dec (n div 10) @ [char_of (48 + n mod 10)])"

declare dec.simps [simp del]

definition dec_int :: "int \<Rightarrow> string" where
  "dec_int i = (if i < 0 then CHR ''-'' # dec (nat (- i)) else dec (nat i))"

definition UINTMAX_MAX :: nat where
  "UINTMAX_MAX = 2 ^ 64 - 1"

definition INT32_MAX :: int where
  "INT32_MAX = 2 ^ 31 - 1"

definition INT32_MIN :: int where
  "INT32_MIN = - (2 ^ 31)"

definition UINT32_MAX :: nat where
  "UINT32_MAX = 2 ^ 32 - 1"

text \<open>
  An optional sign in front of the digits: whether it is a minus, and what follows it.
\<close>

definition split_sign :: "string \<Rightarrow> bool \<times> string" where
  "split_sign s =
     (case s of
        [] \<Rightarrow> (False, [])
      | c # r \<Rightarrow> if c = CHR ''-'' then (True, r) else if c = CHR ''+'' then (False, r) else (False, s))"

text \<open>
  \<open>strtoumax(s, &end, 10)\<close>: the value and the rest of the string at \<open>end\<close>, which is all of
  \<open>s\<close> when there are no digits. A minus negates in the unsigned type; a value
  out of range is \<open>UINTMAX_MAX\<close>.
\<close>

definition strtoumax :: "string \<Rightarrow> nat \<times> string" where
  "strtoumax s =
     (let (neg, u) = split_sign (dropWhile isspace s);
          ds = takeWhile isdigit u;
          n = digits_value ds
      in if ds = [] then (0, s)
         else (if UINTMAX_MAX < n then UINTMAX_MAX
               else if neg then (2 ^ 64 - n) mod 2 ^ 64 else n,
               dropWhile isdigit u))"

definition strtoimax :: "string \<Rightarrow> int \<times> string" where
  "strtoimax s =
     (let (neg, u) = split_sign (dropWhile isspace s);
          ds = takeWhile isdigit u;
          n = int (digits_value ds)
      in if ds = [] then (0, s)
         else (if neg then max (- n) (- (2 ^ 63)) else min n (2 ^ 63 - 1),
               dropWhile isdigit u))"

section \<open>The parsers\<close>

definition set_string :: "string option \<Rightarrow> string option \<Rightarrow> int \<times> string option" where
  "set_string old s = (0, s)"

text \<open>The warning about unsafe characters does not change what is stored.\<close>

definition set_lmap_identifier :: "string option \<Rightarrow> string option \<Rightarrow> int \<times> string option" where
  "set_lmap_identifier old s = (if s = Some [] then (-1, old) else set_string old s)"

definition set_boolean :: "int \<Rightarrow> string \<Rightarrow> int \<times> int" where
  "set_boolean old v =
     (if v = ''true'' then (0, 1) else if v = ''false'' then (0, 0) else (-1, old))"

definition set_tag :: "string option \<Rightarrow> string option \<Rightarrow> int \<times> string option" where
  "set_tag old s =
     (case s of Some v \<Rightarrow> if length v = 0 then (-1, old) else set_string old s
      | None \<Rightarrow> set_string old s)"

definition set_int32 :: "int \<Rightarrow> string \<Rightarrow> int \<times> int" where
  "set_int32 old s =
     (let (i, end) = strtoimax s
      in if end \<noteq> [] \<or> INT32_MAX < i \<or> i < INT32_MIN then (-1, old) else (0, i))"

definition set_uint32 :: "32 word \<Rightarrow> string \<Rightarrow> int \<times> 32 word" where
  "set_uint32 old s =
     (let (u, end) = strtoumax s
      in if end \<noteq> [] \<or> UINT32_MAX < u then (-1, old) else (0, of_nat u))"

definition set_uint64 :: "64 word \<Rightarrow> string \<Rightarrow> int \<times> 64 word" where
  "set_uint64 old s =
     (let (u, end) = strtoumax s
      in if end \<noteq> [] \<or> UINTMAX_MAX < u then (-1, old) else (0, of_nat u))"

text \<open>
  \<open>isdigit (s[k])\<close> and the others read within the string: the length has been
  checked.
\<close>

definition digit_at :: "string \<Rightarrow> nat \<Rightarrow> int" where
  "digit_at s k = int (code (s ! k)) - 48"

definition set_timezoneoffset :: "int \<Rightarrow> string \<Rightarrow> int \<times> int" where
  "set_timezoneoffset old s =
     (if length s = 1 \<and> s ! 0 = CHR ''Z'' then (0, 0)
      else if length s \<noteq> 6
              \<or> (s ! 0 \<noteq> CHR ''-'' \<and> s ! 0 \<noteq> CHR ''+'') \<or> \<not> isdigit (s ! 1) \<or> \<not> isdigit (s ! 2)
              \<or> s ! 3 \<noteq> CHR '':'' \<or> \<not> isdigit (s ! 4) \<or> \<not> isdigit (s ! 5)
      then (-1, old)
      else
        (let hours = digit_at s 1 * 10 + digit_at s 2;
             minutes = digit_at s 4 * 10 + digit_at s 5
         in if hours < -23 \<or> 23 < hours \<or> minutes < 0 \<or> 59 < minutes then (-1, old)
            else
              (let tzo = hours * 60 + minutes
               in (0, if s ! 0 = CHR ''-'' then - tzo else tzo))))"

section \<open>Calendar time\<close>

text \<open>
  The broken-down time and the functions of the C library that the code takes it from. They
  are parameters: \<open>lc_strptime\<close> is \<open>strptime(s, "%Y-%m-%dT%T", &tm)\<close> with the rest of the
  string, \<open>lc_timegm\<close> and \<open>lc_mktime\<close> give -1 on error, \<open>lc_fnmatch\<close> tells whether
  \<open>fnmatch(pattern, string, 0)\<close> is 0, and \<open>lc_have_timegm\<close> is the build's \<open>HAVE_TIMEGM\<close>.
\<close>

record tm =
  tm_sec :: int
  tm_min :: int
  tm_hour :: int
  tm_mday :: int
  tm_mon :: int
  tm_year :: int
  tm_wday :: int

record libc =
  lc_strptime :: "string \<Rightarrow> (tm \<times> string) option"
  lc_have_timegm :: bool
  lc_timegm :: "tm \<Rightarrow> int"
  lc_mktime :: "tm \<Rightarrow> int"
  lc_timezone :: int
  lc_localtime :: "int \<Rightarrow> tm option"
  lc_gmtime :: "int \<Rightarrow> tm option"
  lc_fnmatch :: "string \<Rightarrow> string \<Rightarrow> bool"

definition set_dateandtime :: "libc \<Rightarrow> int \<Rightarrow> string \<Rightarrow> int \<times> int" where
  "set_dateandtime lc old s =
     (case lc_strptime lc s of
        None \<Rightarrow> (-1, old)
      | Some (tm, end) \<Rightarrow>
          (case set_timezoneoffset 0 end of
             (r, offset) \<Rightarrow>
               if r \<noteq> 0 then (-1, old)
               else if lc_have_timegm lc then
                 (let t = lc_timegm lc tm
                  in if t = -1 then (-1, old) else (0, t - offset * 60))
               else
                 (let t = lc_mktime lc tm
                  in if t = -1 then (-1, old) else (0, t - lc_timezone lc - offset * 60))))"

section \<open>What the number parsers accept\<close>

lemma digits_value_Nil [simp]: "digits_value [] = 0"
  by (simp add: digits_value_def)

lemma digits_value_snoc: "digits_value (ds @ [c]) = 10 * digits_value ds + (code c - 48)"
  by (simp add: digits_value_def)

lemma isdigit_char_of [simp]: "(d::nat) < 10 \<Longrightarrow> isdigit (char_of (48 + d))"
  by (simp add: isdigit_def)

lemma digits_value_dec [simp]: "digits_value (dec n) = n"
proof (induction n rule: dec.induct)
  case (1 n)
  show ?case
  proof (cases "n < 10")
    case True
    then show ?thesis by (simp add: dec.simps [of n] digits_value_def)
  next
    case False
    with 1 show ?thesis by (simp add: dec.simps [of n] digits_value_snoc)
  qed
qed

lemma dec_digits: "\<forall>c\<in>set (dec n). isdigit c"
proof (induction n rule: dec.induct)
  case (1 n)
  then show ?case by (cases "n < 10") (simp_all add: dec.simps [of n])
qed

lemma dec_nonempty [simp]: "dec n \<noteq> []"
  by (simp add: dec.simps [of n])

text \<open>
  What \<^const>\<open>strtoumax\<close> and \<^const>\<open>strtoimax\<close> read as a number: white space, at most one
  sign, and digits.
\<close>

definition numeral_form :: "string \<Rightarrow> bool \<Rightarrow> string \<Rightarrow> bool" where
  "numeral_form s neg ds \<longleftrightarrow>
     (\<exists>ws sg. s = ws @ sg @ ds \<and> (\<forall>c\<in>set ws. isspace c) \<and> ds \<noteq> [] \<and> (\<forall>c\<in>set ds. isdigit c)
        \<and> (if neg then sg = ''-'' else sg = [] \<or> sg = ''+''))"

lemma sign_not_space [simp]: "\<not> isspace (CHR ''-'')" "\<not> isspace (CHR ''+'')"
  by (simp_all add: isspace_def code_def)

lemma sign_not_digit [simp]: "\<not> isdigit (CHR ''-'')" "\<not> isdigit (CHR ''+'')"
  by (simp_all add: isdigit_def code_def)

lemma takeWhile_eq_all: "takeWhile P xs = xs \<longleftrightarrow> (\<forall>x\<in>set xs. P x)"
  by (induction xs) auto

lemma numeral_form_split:
  assumes "numeral_form s neg ds"
  shows "split_sign (dropWhile isspace s) = (neg, ds)"
proof -
  obtain ws sg where s: "s = ws @ sg @ ds" and ws: "\<forall>c\<in>set ws. isspace c"
    and ds: "ds \<noteq> []" "\<forall>c\<in>set ds. isdigit c"
    and sg: "if neg then sg = ''-'' else sg = [] \<or> sg = ''+''"
    using assms by (auto simp: numeral_form_def)
  obtain d r where d: "ds = d # r" and dd: "isdigit d" using ds by (cases ds) auto
  have nsp: "\<not> isspace d" using dd isspace_not_digit by blast
  have nsg: "d \<noteq> CHR ''-''" "d \<noteq> CHR ''+''" using dd by auto
  have "dropWhile isspace s = sg @ ds"
    using ws sg d nsp by (cases neg) (auto simp: s dropWhile_all)
  then show ?thesis
    using sg d nsg by (cases neg) (auto simp: split_sign_def)
qed

lemma split_numeral_form:
  assumes "split_sign (dropWhile isspace s) = (neg, u)" "u \<noteq> []" "\<forall>c\<in>set u. isdigit c"
  shows "numeral_form s neg u"
proof -
  let ?ws = "takeWhile isspace s" and ?r = "dropWhile isspace s"
  have s: "s = ?ws @ ?r" by simp
  have ws: "\<forall>c\<in>set ?ws. isspace c" by (auto dest: set_takeWhileD)
  obtain sg where "?r = sg @ u" "if neg then sg = ''-'' else sg = [] \<or> sg = ''+''"
    using assms(1) that by (fastforce simp: split_sign_def split: list.splits if_splits)
  with s ws assms(2,3) show ?thesis
    unfolding numeral_form_def by (intro exI [of _ ?ws] exI [of _ sg]) auto
qed

lemma split_sign_Nil: "split_sign [] = (False, [])"
  by (simp add: split_sign_def)

text \<open>Accepting means that the whole string has been read.\<close>

lemma number_read_cases:
  fixes s :: string
  defines "p \<equiv> split_sign (dropWhile isspace s)"
  shows "(if takeWhile isdigit (snd p) = [] then s = [] else dropWhile isdigit (snd p) = []) \<longleftrightarrow>
    (if s = [] then True else numeral_form s (fst p) (snd p))"
proof (cases "s = []")
  case True
  then show ?thesis by (simp add: p_def split_sign_def)
next
  case False
  show ?thesis
  proof (cases "takeWhile isdigit (snd p) = []")
    case True
    have "\<not> numeral_form s (fst p) (snd p)"
    proof
      assume "numeral_form s (fst p) (snd p)"
      then have "snd p \<noteq> []" "\<forall>c\<in>set (snd p). isdigit c"
        by (auto simp: numeral_form_def)
      with True show False by (cases "snd p") auto
    qed
    with True False show ?thesis by simp
  next
    case ne: False
    have "dropWhile isdigit (snd p) = [] \<longleftrightarrow> (\<forall>c\<in>set (snd p). isdigit c)"
      by (simp add: dropWhile_eq_Nil_conv)
    moreover have "snd p \<noteq> []" using ne by auto
    moreover have "numeral_form s (fst p) (snd p) \<Longrightarrow> \<forall>c\<in>set (snd p). isdigit c"
      by (auto simp: numeral_form_def)
    ultimately show ?thesis
      using ne False split_numeral_form [of s "fst p" "snd p"] by (auto simp: p_def)
  qed
qed

definition umax_value :: "bool \<Rightarrow> nat \<Rightarrow> nat" where
  "umax_value neg n =
     (if UINTMAX_MAX < n then UINTMAX_MAX else if neg then (2 ^ 64 - n) mod 2 ^ 64 else n)"

definition imax_value :: "bool \<Rightarrow> int \<Rightarrow> int" where
  "imax_value neg n = (if neg then max (- n) (- (2 ^ 63)) else min n (2 ^ 63 - 1))"

lemma strtoumax_numeral:
  "numeral_form s neg ds \<Longrightarrow> strtoumax s = (umax_value neg (digits_value ds), [])"
  using numeral_form_split [of s neg ds]
  by (auto simp: strtoumax_def umax_value_def numeral_form_def takeWhile_eq_all
      dropWhile_eq_Nil_conv takeWhile_eq_all [THEN iffD2])

lemma strtoimax_numeral:
  "numeral_form s neg ds \<Longrightarrow> strtoimax s = (imax_value neg (int (digits_value ds)), [])"
  using numeral_form_split [of s neg ds]
  by (auto simp: strtoimax_def imax_value_def numeral_form_def takeWhile_eq_all
      dropWhile_eq_Nil_conv takeWhile_eq_all [THEN iffD2])

lemma strtoumax_complete:
  "strtoumax s = (u, []) \<longleftrightarrow>
     (s = [] \<and> u = 0) \<or> (\<exists>neg ds. numeral_form s neg ds \<and> u = umax_value neg (digits_value ds))"
proof
  assume *: "strtoumax s = (u, [])"
  show "(s = [] \<and> u = 0) \<or> (\<exists>neg ds. numeral_form s neg ds \<and> u = umax_value neg (digits_value ds))"
  proof (cases "s = []")
    case True
    with * show ?thesis by (simp add: strtoumax_def split_sign_Nil)
  next
    case False
    obtain neg v where p: "split_sign (dropWhile isspace s) = (neg, v)" by fastforce
    from * p False have "numeral_form s neg v"
      using number_read_cases [of s]
      by (auto simp: strtoumax_def Let_def split: if_splits)
    with * show ?thesis using strtoumax_numeral by (metis prod.inject)
  qed
next
  assume "(s = [] \<and> u = 0) \<or> (\<exists>neg ds. numeral_form s neg ds \<and> u = umax_value neg (digits_value ds))"
  then show "strtoumax s = (u, [])"
    by (auto simp: strtoumax_numeral) (simp add: strtoumax_def split_sign_Nil)
qed

lemma strtoimax_complete:
  "strtoimax s = (i, []) \<longleftrightarrow>
     (s = [] \<and> i = 0) \<or> (\<exists>neg ds. numeral_form s neg ds \<and> i = imax_value neg (int (digits_value ds)))"
proof
  assume *: "strtoimax s = (i, [])"
  show "(s = [] \<and> i = 0) \<or>
    (\<exists>neg ds. numeral_form s neg ds \<and> i = imax_value neg (int (digits_value ds)))"
  proof (cases "s = []")
    case True
    with * show ?thesis by (simp add: strtoimax_def split_sign_Nil)
  next
    case False
    obtain neg v where p: "split_sign (dropWhile isspace s) = (neg, v)" by fastforce
    from * p False have "numeral_form s neg v"
      using number_read_cases [of s]
      by (auto simp: strtoimax_def Let_def split: if_splits)
    with * show ?thesis using strtoimax_numeral by (metis prod.inject)
  qed
next
  assume "(s = [] \<and> i = 0) \<or>
    (\<exists>neg ds. numeral_form s neg ds \<and> i = imax_value neg (int (digits_value ds)))"
  then show "strtoimax s = (i, [])"
    by (auto simp: strtoimax_numeral) (simp add: strtoimax_def split_sign_Nil)
qed

lemma numeral_form_dec: "numeral_form (dec n) False (dec n)"
  unfolding numeral_form_def using dec_digits by (intro exI [of _ "[]"]) auto

lemma numeral_form_minus_dec: "numeral_form (CHR ''-'' # dec n) True (dec n)"
  unfolding numeral_form_def using dec_digits
  by (intro exI [of _ "[]"] exI [of _ "''-''"]) auto

text \<open>The unsigned value that \<^const>\<open>strtoumax\<close> reads from the whole of a string.\<close>

definition unsigned_reading :: "string \<Rightarrow> nat \<Rightarrow> bool" where
  "unsigned_reading s u \<longleftrightarrow>
     (s = [] \<and> u = 0) \<or> (\<exists>neg ds. numeral_form s neg ds \<and> u = umax_value neg (digits_value ds))"

lemma strtoumax_reading: "strtoumax s = (u, []) \<longleftrightarrow> unsigned_reading s u"
  by (simp add: strtoumax_complete unsigned_reading_def)

text \<open>
  \<^const>\<open>set_uint32\<close> accepts exactly the empty string (as 0) and the strings of white space,
  an optional sign and digits whose unsigned 64-bit value fits 32 bits; it then stores that value,
  and otherwise returns -1 and leaves the field as it was. The unsigned value of a
  negative numeral is its wrap-around, so \<open>-18446744073709551615\<close> is accepted as 1.
\<close>

theorem set_uint32_accepts:
  "set_uint32 old s = (r, w) \<longleftrightarrow>
     (\<exists>u. unsigned_reading s u \<and> u \<le> UINT32_MAX \<and> r = 0 \<and> w = of_nat u)
     \<or> (\<nexists>u. unsigned_reading s u \<and> u \<le> UINT32_MAX) \<and> r = -1 \<and> w = old"
proof -
  obtain u e where p: "strtoumax s = (u, e)" by fastforce
  show ?thesis
  proof (cases "e = []")
    case True
    then have "unsigned_reading s v \<longleftrightarrow> v = u" for v
      using p strtoumax_reading [of s v] by auto
    with p True show ?thesis by (auto simp: set_uint32_def)
  next
    case False
    then have "\<not> unsigned_reading s v" for v
      using p strtoumax_reading [of s v] by auto
    with p False show ?thesis by (auto simp: set_uint32_def)
  qed
qed

lemma set_int32_dec_int:
  "set_int32 old (dec_int i) = (if INT32_MIN \<le> i \<and> i \<le> INT32_MAX then (0, i) else (-1, old))"
proof (cases "i < 0")
  case True
  then have "strtoimax (dec_int i) = (max i (- (2 ^ 63)), [])"
    using strtoimax_numeral [OF numeral_form_minus_dec, of "nat (- i)"]
    by (simp add: dec_int_def imax_value_def)
  with True show ?thesis by (auto simp: set_int32_def INT32_MAX_def INT32_MIN_def max_def)
next
  case False
  then have "strtoimax (dec_int i) = (min i (2 ^ 63 - 1), [])"
    using strtoimax_numeral [OF numeral_form_dec, of "nat i"]
    by (simp add: dec_int_def imax_value_def)
  with False show ?thesis by (auto simp: set_int32_def INT32_MAX_def INT32_MIN_def min_def)
qed

text \<open>
  On every decimal integer \<^const>\<open>set_int32\<close> stores exactly that integer when it lies in
  the range of \<open>int32_t\<close>, and otherwise returns -1 and keeps the old value.
\<close>

theorem set_int32_decimal:
  "set_int32 old (dec_int i) = (if INT32_MIN \<le> i \<and> i \<le> INT32_MAX then (0, i) else (-1, old))"
  by (rule set_int32_dec_int)

lemma set_uint32_decimal:
  "set_uint32 old (dec n) = (if n \<le> UINT32_MAX then (0, of_nat n) else (-1, old))"
  using strtoumax_numeral [OF numeral_form_dec, of n]
  by (auto simp: set_uint32_def umax_value_def UINT32_MAX_def UINTMAX_MAX_def)

text \<open>
  \<^const>\<open>set_uint64\<close> accepts every decimal integer: the code's range check compares with the
  largest value \<open>strtoumax\<close> can return, so a numeral above the range is stored as the
  largest 64-bit value and a negative one as its wrap-around.
\<close>

theorem set_uint64_accepts_all:
  "set_uint64 old (dec_int i) =
     (0, if int UINTMAX_MAX < \<bar>i\<bar> then of_nat UINTMAX_MAX else word_of_int i)"
proof (cases "i < 0")
  case True
  define n where "n = nat (- i)"
  have i: "i = - int n" and n: "0 < n" using True by (simp_all add: n_def)
  have "strtoumax (dec_int i) = (umax_value True n, [])"
    using strtoumax_numeral [OF numeral_form_minus_dec, of n] True by (simp add: dec_int_def n_def)
  then have *: "set_uint64 old (dec_int i) = (0, of_nat (umax_value True n))"
    by (auto simp: set_uint64_def umax_value_def UINTMAX_MAX_def)
  show ?thesis
  proof (cases "UINTMAX_MAX < n")
    case True
    with * i show ?thesis by (simp add: umax_value_def)
  next
    case False
    then have "umax_value True n = 2 ^ 64 - n"
      using n by (simp add: umax_value_def UINTMAX_MAX_def)
    moreover have "(of_nat (2 ^ 64 - n) :: 64 word) = word_of_int (- int n)"
    proof -
      have "n \<le> 2 ^ 64" using False by (simp add: UINTMAX_MAX_def)
      then have "(of_nat (2 ^ 64 - n) :: 64 word) = of_nat (2 ^ 64) - of_nat n"
        by (rule of_nat_diff)
      also have "(of_nat (2 ^ 64) :: 64 word) = 0" by simp
      finally show ?thesis by simp
    qed
    ultimately show ?thesis using * i False by simp
  qed
next
  case False
  define n where "n = nat i"
  have i: "i = int n" using False by (simp add: n_def)
  have "strtoumax (dec_int i) = (umax_value False n, [])"
    using strtoumax_numeral [OF numeral_form_dec, of n] False by (simp add: dec_int_def n_def)
  then show ?thesis
    by (auto simp: set_uint64_def umax_value_def UINTMAX_MAX_def i)
qed

section \<open>Time zone offsets and instants\<close>

lemma digit_at_range: "isdigit (s ! k) \<Longrightarrow> 0 \<le> digit_at s k \<and> digit_at s k \<le> 9"
  by (auto simp: isdigit_def digit_at_def)

lemma set_timezoneoffset_range:
  assumes "set_timezoneoffset old s = (0, t)"
  shows "-1440 < t \<and> t < 1440"
  using assms digit_at_range [of s 1] digit_at_range [of s 2] digit_at_range [of s 4]
    digit_at_range [of s 5]
  by (auto simp: set_timezoneoffset_def Let_def split: if_splits)

lemma set_timezoneoffset_code: "fst (set_timezoneoffset old s) = 0 \<or> set_timezoneoffset old s = (-1, old)"
  by (auto simp: set_timezoneoffset_def Let_def)

lemma set_timezoneoffset_old: "fst (set_timezoneoffset old s) = 0 \<Longrightarrow> set_timezoneoffset old' s = set_timezoneoffset old s"
  by (auto simp: set_timezoneoffset_def Let_def split: if_splits)

text \<open>The text of an offset, as RFC 3339 writes it.\<close>

definition two_digits :: "nat \<Rightarrow> string" where
  "two_digits n = [char_of (48 + n div 10), char_of (48 + n mod 10)]"

definition offset_text :: "int \<Rightarrow> string" where
  "offset_text t =
     (let a = nat \<bar>t\<bar> in (if t < 0 then CHR ''-'' else CHR ''+'') #
        two_digits (a div 60) @ '':'' @ two_digits (a mod 60))"

lemma digit_at_two:
  assumes "n < 60"
  shows "isdigit (two_digits n ! 0)" "isdigit (two_digits n ! 1)"
    "digit_at (two_digits n) 0 * 10 + digit_at (two_digits n) 1 = int n"
proof -
  have "n div 10 < 10" using assms by simp
  moreover have "int (n div 10) * 10 + int (n mod 10) = int n" by presburger
  ultimately show "isdigit (two_digits n ! 0)" "isdigit (two_digits n ! 1)"
    "digit_at (two_digits n) 0 * 10 + digit_at (two_digits n) 1 = int n"
    by (simp_all add: two_digits_def digit_at_def)
qed

lemma set_timezoneoffset_hhmm:
  assumes "h < 24" "m < 60" "c = CHR ''-'' \<or> c = CHR ''+''"
  shows "set_timezoneoffset old (c # two_digits h @ '':'' @ two_digits m) =
    (0, if c = CHR ''-'' then - (int h * 60 + int m) else int h * 60 + int m)"
proof -
  obtain a b where ab: "two_digits h = [a, b]" by (simp add: two_digits_def)
  obtain d e where de: "two_digits m = [d, e]" by (simp add: two_digits_def)
  have "isdigit a" "isdigit b" "digit_at [a, b] 0 * 10 + digit_at [a, b] 1 = int h"
    using digit_at_two [of h] assms(1) ab by simp_all
  moreover have "isdigit d" "isdigit e" "digit_at [d, e] 0 * 10 + digit_at [d, e] 1 = int m"
    using digit_at_two [of m] assms(2) de by simp_all
  ultimately show ?thesis
    using assms unfolding ab de
    by (auto simp: set_timezoneoffset_def digit_at_def Let_def eval_nat_numeral)
qed

lemma timezoneoffset_text:
  assumes "\<bar>t\<bar> < 1440"
  shows "set_timezoneoffset old (offset_text t) = (0, t)"
proof -
  define h m where "h = nat \<bar>t\<bar> div 60" and "m = nat \<bar>t\<bar> mod 60"
  have hm: "h < 24" "m < 60" using assms by (simp_all add: h_def m_def)
  have "nat \<bar>t\<bar> = h * 60 + m" by (simp add: h_def m_def)
  then have tot: "int h * 60 + int m = \<bar>t\<bar>" by linarith
  have "offset_text t = (if t < 0 then CHR ''-'' else CHR ''+'') # two_digits h @ '':'' @ two_digits m"
    by (simp add: offset_text_def h_def m_def Let_def)
  then have "set_timezoneoffset old (offset_text t) =
    (0, if t < 0 then - (int h * 60 + int m) else int h * 60 + int m)"
    using hm set_timezoneoffset_hhmm [of h m "CHR ''-''" old]
      set_timezoneoffset_hhmm [of h m "CHR ''+''" old] by simp
  then show ?thesis using tot by auto
qed

text \<open>
  \<^const>\<open>set_timezoneoffset\<close> reads every offset of less than a day in the RFC 3339
  notation \<open>+hh:mm\<close> back to its number of minutes, so the sign, the hours and the minutes all
  count.
\<close>

theorem set_timezoneoffset_reads:
  assumes "\<bar>t\<bar> < 1440"
  shows "set_timezoneoffset old (offset_text t) = (0, t)"
  using assms by (rule timezoneoffset_text)

theorem set_timezoneoffset_reads_witness: "set_timezoneoffset 0 ''-03:30'' = (0, -210)"
proof -
  have "offset_text (-210) = ''-03:30''" by code_simp
  then show ?thesis using set_timezoneoffset_reads [of "-210" 0] by simp
qed

text \<open>
  An instant does not depend on the offset it is written with: shifting the offset by
  \<open>d\<close> minutes moves the instant by \<open>-60 * d\<close> seconds.
\<close>

lemma set_dateandtime_offset:
  assumes "lc_strptime lc s = Some (tm, offset_text t)" "\<bar>t\<bar> < 1440"
    "lc_have_timegm lc" "lc_timegm lc tm \<noteq> -1"
  shows "set_dateandtime lc old s = (0, lc_timegm lc tm - t * 60)"
  using assms timezoneoffset_text [of t] by (simp add: set_dateandtime_def)

text \<open>What evaluates the number parsers on closed strings.\<close>

lemmas number_eval =
  set_int32_def set_uint32_def set_uint64_def strtoumax_def strtoimax_def split_sign_def
  isspace_def isdigit_def code_def digits_value_def UINTMAX_MAX_def UINT32_MAX_def
  INT32_MAX_def INT32_MIN_def

end
