(* ===== verification/Store.thy ===== *)
theory Store
  imports Scalars
begin

text \<open>
  The linked lists of \<^verbatim>\<open>src/data.c\<close>: \<open>add_tag\<close>, \<open>add_option\<close>, the lookups by name and the eleven
  functions that append a named object unless its name is missing or taken. The locale
  \<open>named_store\<close> is the contract these functions share; it is interpreted for each of them.
\<close>

section \<open>Tags\<close>

text \<open>
  The loop of \<open>add_tag\<close> compares each tag with the new value: \<open>True\<close> when it meets an equal
  one. A tag whose \<open>char *\<close> is \<open>NULL\<close> is passed to \<open>strcmp\<close>.
\<close>

fun tag_scan :: "tag list \<Rightarrow> string \<Rightarrow> bool outcome" where
  "tag_scan [] v = Inr False"
| "tag_scan (t # ts) v =
     (case t of None \<Rightarrow> Inl Null_Deref | Some s \<Rightarrow> if s = v then Inr True else tag_scan ts v)"

definition lmap_tag_set_tag :: "tag \<Rightarrow> string option \<Rightarrow> int \<times> tag" where
  "lmap_tag_set_tag tag v = set_tag tag v"

text \<open>The result of \<open>lmap_tag_set_tag\<close> is not looked at.\<close>

definition add_tag :: "tag list \<Rightarrow> string option \<Rightarrow> (int \<times> tag list) outcome" where
  "add_tag tags v =
     (let tag = snd (lmap_tag_set_tag lmap_tag_new v)
      in if tags = [] then Inr (0, [tag])
         else case v of None \<Rightarrow> Inl Null_Deref
           | Some s \<Rightarrow>
               (case tag_scan tags s of
                  Inl e \<Rightarrow> Inl e
                | Inr True \<Rightarrow> Inr (-1, tags)
                | Inr False \<Rightarrow> Inr (0, tags @ [tag])))"

section \<open>Named objects\<close>

text \<open>
  The loop that the appending functions have in common: \<open>strcmp\<close> of each element's name with the new one's.
\<close>

fun key_scan :: "('a \<Rightarrow> string option) \<Rightarrow> 'a list \<Rightarrow> string \<Rightarrow> bool outcome" where
  "key_scan key [] k = Inr False"
| "key_scan key (x # xs) k =
     (case key x of None \<Rightarrow> Inl Null_Deref | Some j \<Rightarrow> if j = k then Inr True else key_scan key xs k)"

definition append_named ::
  "('a \<Rightarrow> string option) \<Rightarrow> 'a list \<Rightarrow> 'a \<Rightarrow> (int \<times> 'a list) outcome" where
  "append_named key xs x =
     (case key x of
        None \<Rightarrow> Inr (-1, xs)
      | Some k \<Rightarrow>
          (case key_scan key xs k of
             Inl e \<Rightarrow> Inl e
           | Inr True \<Rightarrow> Inr (-1, xs)
           | Inr False \<Rightarrow> Inr (0, xs @ [x])))"

text \<open>Writing the list back into the object that owns it.\<close>

definition put :: "('a list \<Rightarrow> 's) \<Rightarrow> (int \<times> 'a list) outcome \<Rightarrow> (int \<times> 's) outcome" where
  "put f r = (case r of Inl e \<Rightarrow> Inl e | Inr (c, xs) \<Rightarrow> Inr (c, f xs))"

lemma put_simps [simp]: "put f (Inl e) = Inl e" "put f (Inr (c, xs)) = Inr (c, f xs)"
  by (simp_all add: put_def)

definition add_option :: "lmap_option list \<Rightarrow> lmap_option \<Rightarrow> (int \<times> lmap_option list) outcome" where
  "add_option opts opt = append_named opt_id opts opt"

definition lmap_add_schedule :: "lmap \<Rightarrow> schedule \<Rightarrow> (int \<times> lmap) outcome" where
  "lmap_add_schedule l s =
     put (\<lambda>xs. l\<lparr>lm_schedules := xs\<rparr>) (append_named sched_name (lm_schedules l) s)"

definition lmap_add_supp :: "lmap \<Rightarrow> supp \<Rightarrow> (int \<times> lmap) outcome" where
  "lmap_add_supp l s = put (\<lambda>xs. l\<lparr>lm_supps := xs\<rparr>) (append_named supp_name (lm_supps l) s)"

definition lmap_add_task :: "lmap \<Rightarrow> task \<Rightarrow> (int \<times> lmap) outcome" where
  "lmap_add_task l t = put (\<lambda>xs. l\<lparr>lm_tasks := xs\<rparr>) (append_named task_name (lm_tasks l) t)"

definition lmap_add_event :: "lmap \<Rightarrow> event \<Rightarrow> (int \<times> lmap) outcome" where
  "lmap_add_event l e = put (\<lambda>xs. l\<lparr>lm_events := xs\<rparr>) (append_named ev_name (lm_events l) e)"

definition lmap_add_result :: "lmap \<Rightarrow> result \<Rightarrow> int \<times> lmap" where
  "lmap_add_result l r = (0, l\<lparr>lm_results := lm_results l @ [r]\<rparr>)"

definition lmap_capability_add_task :: "capability \<Rightarrow> task \<Rightarrow> (int \<times> capability) outcome" where
  "lmap_capability_add_task c t =
     put (\<lambda>xs. c\<lparr>cap_tasks := xs\<rparr>) (append_named task_name (cap_tasks c) t)"

definition lmap_task_add_registry :: "task \<Rightarrow> registry \<Rightarrow> (int \<times> task) outcome" where
  "lmap_task_add_registry t r =
     put (\<lambda>xs. t\<lparr>task_registries := xs\<rparr>) (append_named reg_uri (task_registries t) r)"

definition lmap_task_add_option :: "task \<Rightarrow> lmap_option \<Rightarrow> (int \<times> task) outcome" where
  "lmap_task_add_option t opt = put (\<lambda>xs. t\<lparr>task_options := xs\<rparr>) (add_option (task_options t) opt)"

definition lmap_schedule_add_action :: "schedule \<Rightarrow> action \<Rightarrow> (int \<times> schedule) outcome" where
  "lmap_schedule_add_action s a =
     put (\<lambda>xs. s\<lparr>sched_actions := xs\<rparr>) (append_named act_name (sched_actions s) a)"

definition lmap_action_add_option :: "action \<Rightarrow> lmap_option \<Rightarrow> (int \<times> action) outcome" where
  "lmap_action_add_option a opt = put (\<lambda>xs. a\<lparr>act_options := xs\<rparr>) (add_option (act_options a) opt)"

definition lmap_table_add_registry :: "table \<Rightarrow> registry \<Rightarrow> (int \<times> table) outcome" where
  "lmap_table_add_registry t r =
     put (\<lambda>xs. t\<lparr>tab_registries := xs\<rparr>) (append_named reg_uri (tab_registries t) r)"

definition lmap_result_add_option :: "result \<Rightarrow> lmap_option \<Rightarrow> (int \<times> result) outcome" where
  "lmap_result_add_option r opt = put (\<lambda>xs. r\<lparr>res_options := xs\<rparr>) (add_option (res_options r) opt)"

section \<open>Lookup by name\<close>

text \<open>The first element with the name; a \<open>NULL\<close> name finds nothing.\<close>

definition find_named :: "('a \<Rightarrow> string option) \<Rightarrow> 'a list \<Rightarrow> string option \<Rightarrow> 'a option" where
  "find_named key xs k = (case k of None \<Rightarrow> None | Some j \<Rightarrow> find (\<lambda>x. key x = Some j) xs)"

definition lmap_find_event :: "lmap \<Rightarrow> string option \<Rightarrow> event option" where
  "lmap_find_event l name = find_named ev_name (lm_events l) name"

definition lmap_find_task :: "lmap \<Rightarrow> string option \<Rightarrow> task option" where
  "lmap_find_task l name = find_named task_name (lm_tasks l) name"

definition lmap_find_schedule :: "lmap \<Rightarrow> string option \<Rightarrow> schedule option" where
  "lmap_find_schedule l name = find_named sched_name (lm_schedules l) name"

section \<open>The contract of the named lists\<close>

text \<open>Every element has a name and no two have the same.\<close>

definition named_distinct :: "('a \<Rightarrow> string option) \<Rightarrow> 'a list \<Rightarrow> bool" where
  "named_distinct key xs \<longleftrightarrow> None \<notin> set (map key xs) \<and> distinct (map key xs)"

lemma named_distinct_Nil [simp]: "named_distinct key []"
  by (simp add: named_distinct_def)

lemma named_distinct_snoc:
  "named_distinct key (xs @ [x]) \<longleftrightarrow>
     named_distinct key xs \<and> key x \<noteq> None \<and> key x \<notin> key ` set xs"
  by (auto simp: named_distinct_def)

text \<open>What is left of a list of objects when each is appended in turn to an empty list.\<close>

fun keep_first :: "('a \<Rightarrow> string option) \<Rightarrow> 'a list \<Rightarrow> 'a list \<Rightarrow> 'a list" where
  "keep_first key acc [] = acc"
| "keep_first key acc (x # xs) =
     keep_first key (if key x = None \<or> key x \<in> key ` set acc then acc else acc @ [x]) xs"

text \<open>Appending a list of objects, whatever each return code is, up to a fault.\<close>

fun add_all :: "('s \<Rightarrow> 'a \<Rightarrow> (int \<times> 's) outcome) \<Rightarrow> 's \<Rightarrow> 'a list \<Rightarrow> 's outcome" where
  "add_all add s [] = Inr s"
| "add_all add s (x # xs) =
     (case add s x of Inl e \<Rightarrow> Inl e | Inr (r, s') \<Rightarrow> add_all add s' xs)"

locale named_store =
  fixes key :: "'a \<Rightarrow> string option"
    and items :: "'s \<Rightarrow> 'a list"
    and add :: "'s \<Rightarrow> 'a \<Rightarrow> (int \<times> 's) outcome"
  assumes add_unnamed: "key x = None \<Longrightarrow> add s x = Inr (-1, s)"
    and add_taken:
      "\<lbrakk>named_distinct key (items s); key x \<noteq> None; key x \<in> key ` set (items s)\<rbrakk>
         \<Longrightarrow> add s x = Inr (-1, s)"
    and add_fresh:
      "\<lbrakk>named_distinct key (items s); key x \<noteq> None; key x \<notin> key ` set (items s)\<rbrakk>
         \<Longrightarrow> \<exists>s'. add s x = Inr (0, s') \<and> items s' = items s @ [x]"
begin

lemma store_add_cases:
  assumes "named_distinct key (items s)"
  obtains "key x = None \<or> key x \<in> key ` set (items s)" "add s x = Inr (-1, s)"
  | s' where "key x \<noteq> None" "key x \<notin> key ` set (items s)" "add s x = Inr (0, s')"
      "items s' = items s @ [x]"
  using assms add_unnamed add_taken add_fresh by metis

lemma store_add_wf:
  assumes "named_distinct key (items s)" "add s x = Inr (r, s')"
  shows "named_distinct key (items s')"
  by (rule store_add_cases [OF assms(1), of x]) (use assms in \<open>auto simp: named_distinct_snoc\<close>)

lemma store_add_result:
  assumes "named_distinct key (items s)"
  shows "\<exists>r s'. add s x = Inr (r, s') \<and>
    (if key x = None \<or> key x \<in> key ` set (items s) then r = -1 \<and> s' = s
     else r = 0 \<and> items s' = items s @ [x])"
  by (rule store_add_cases [OF assms, of x]) auto

lemma store_find:
  assumes "named_distinct key (items s)" "add s x = Inr (0, s')"
  shows "find_named key (items s') k =
    (if k = key x then Some x else find_named key (items s) k)"
proof (rule store_add_cases [OF assms(1), of x])
  assume "add s x = Inr (-1, s)"
  with assms(2) show ?thesis by simp
next
  fix s''
  assume x: "key x \<noteq> None" "key x \<notin> key ` set (items s)" and "add s x = Inr (0, s'')"
    and items: "items s'' = items s @ [x]"
  with assms(2) have "s'' = s'" by simp
  show ?thesis
  proof (cases "k = key x")
    case True
    with x obtain j where j: "key x = Some j" by auto
    with x have "find (\<lambda>y. key y = Some j) (items s) = None"
      by (auto simp: find_None_all image_iff)
    with j True items \<open>s'' = s'\<close> show ?thesis
      by (simp add: find_named_def find_append)
  next
    case False
    then show ?thesis
      using items \<open>s'' = s'\<close>
      by (cases k) (auto simp: find_named_def find_append split: option.split)
  qed
qed

lemma store_add_all:
  assumes "named_distinct key (items s)"
  shows "\<exists>s'. add_all add s xs = Inr s' \<and> items s' = keep_first key (items s) xs
    \<and> named_distinct key (items s')"
  using assms
proof (induction xs arbitrary: s)
  case Nil
  then show ?case by simp
next
  case (Cons x xs)
  show ?case
  proof (rule store_add_cases [OF Cons.prems, of x])
    assume "key x = None \<or> key x \<in> key ` set (items s)" "add s x = Inr (-1, s)"
    with Cons show ?thesis by auto
  next
    fix s'
    assume s': "key x \<noteq> None" "key x \<notin> key ` set (items s)" "add s x = Inr (0, s')"
      "items s' = items s @ [x]"
    with Cons.prems have "named_distinct key (items s')" by (simp add: named_distinct_snoc)
    from Cons.IH [OF this] s' show ?thesis by auto
  qed
qed

end

section \<open>The code's lists keep the contract\<close>

lemma key_scan_distinct:
  "None \<notin> set (map key xs) \<Longrightarrow> key_scan key xs k = Inr (Some k \<in> key ` set xs)"
  by (induction xs) (auto split: option.splits)

lemma append_named_cases:
  assumes "named_distinct key xs"
  shows "append_named key xs x =
    (if key x = None \<or> key x \<in> key ` set xs then Inr (-1, xs) else Inr (0, xs @ [x]))"
  using assms by (auto simp: append_named_def named_distinct_def key_scan_distinct split: option.split)

lemma append_named_unnamed: "key x = None \<Longrightarrow> append_named key xs x = Inr (-1, xs)"
  by (simp add: append_named_def)

lemmas named_store_intro = append_named_cases append_named_unnamed

interpretation sch: named_store sched_name lm_schedules lmap_add_schedule
  by unfold_locales (simp_all add: lmap_add_schedule_def named_store_intro)

interpretation spp: named_store supp_name lm_supps lmap_add_supp
  by unfold_locales (simp_all add: lmap_add_supp_def named_store_intro)

interpretation tsk: named_store task_name lm_tasks lmap_add_task
  by unfold_locales (simp_all add: lmap_add_task_def named_store_intro)

interpretation evt: named_store ev_name lm_events lmap_add_event
  by unfold_locales (simp_all add: lmap_add_event_def named_store_intro)

interpretation cpt: named_store task_name cap_tasks lmap_capability_add_task
  by unfold_locales (simp_all add: lmap_capability_add_task_def named_store_intro)

interpretation trg: named_store reg_uri task_registries lmap_task_add_registry
  by unfold_locales (simp_all add: lmap_task_add_registry_def named_store_intro)

interpretation top: named_store opt_id task_options lmap_task_add_option
  by unfold_locales (simp_all add: lmap_task_add_option_def add_option_def named_store_intro)

interpretation sac: named_store act_name sched_actions lmap_schedule_add_action
  by unfold_locales (simp_all add: lmap_schedule_add_action_def named_store_intro)

interpretation aop: named_store opt_id act_options lmap_action_add_option
  by unfold_locales (simp_all add: lmap_action_add_option_def add_option_def named_store_intro)

interpretation trr: named_store reg_uri tab_registries lmap_table_add_registry
  by unfold_locales (simp_all add: lmap_table_add_registry_def named_store_intro)

interpretation rop: named_store opt_id res_options lmap_result_add_option
  by unfold_locales (simp_all add: lmap_result_add_option_def add_option_def named_store_intro)

section \<open>Properties\<close>

lemma find_keep_first:
  "find (\<lambda>x. key x = Some j) (keep_first key acc xs) =
     (case find (\<lambda>x. key x = Some j) acc of
        None \<Rightarrow> find (\<lambda>x. key x = Some j) xs | Some x \<Rightarrow> Some x)"
proof (induction xs arbitrary: acc)
  case Nil
  then show ?case by (simp split: option.split)
next
  case (Cons x xs)
  have "key x = Some j \<Longrightarrow> find (\<lambda>y. key y = Some j) acc = None \<Longrightarrow> key x \<notin> key ` set acc"
    by (auto simp: find_None_all image_iff)
  with Cons show ?case
    by (auto simp: find_append find_None_all split: option.split dest: find_Some_mem)
qed

lemma find_named_keep_first: "find_named key (keep_first key [] xs) k = find_named key xs k"
  by (simp add: find_named_def find_keep_first split: option.split)

text \<open>
  C30. Whatever schedules are appended to a fresh configuration, in whatever order and with
  whatever names, no step dereferences a missing name, the stored schedules are all
  named and pairwise different in name, and a lookup finds the first schedule that was offered
  under the name.
\<close>

theorem lmap_find_schedule_after_adds:
  "\<exists>l. add_all lmap_add_schedule lmap_new ss = Inr l \<and> named_distinct sched_name (lm_schedules l)
     \<and> lm_schedules l = keep_first sched_name [] ss
     \<and> (\<forall>n. lmap_find_schedule l n = find_named sched_name ss n)"
  using sch.store_add_all [of lmap_new ss]
  by (auto simp: lmap_new_def lmap_find_schedule_def find_named_keep_first)

text \<open>
  The same for the task and event lists, on any configuration that already holds named lists.
\<close>

lemma lmap_find_task_after_add:
  "named_distinct task_name (lm_tasks l) \<Longrightarrow> lmap_add_task l t = Inr (0, l') \<Longrightarrow>
     lmap_find_task l' n = (if n = task_name t then Some t else lmap_find_task l n)"
  by (simp add: lmap_find_task_def tsk.store_find)

lemma lmap_find_event_after_add:
  "named_distinct ev_name (lm_events l) \<Longrightarrow> lmap_add_event l e = Inr (0, l') \<Longrightarrow>
     lmap_find_event l' n = (if n = ev_name e then Some e else lmap_find_event l n)"
  by (simp add: lmap_find_event_def evt.store_find)

text \<open>A list of tags as the header describes it: no tag is missing or empty, none occurs twice.\<close>

definition tags_ok :: "tag list \<Rightarrow> bool" where
  "tags_ok ts \<longleftrightarrow> None \<notin> set ts \<and> Some [] \<notin> set ts \<and> distinct ts"

lemma tag_scan_ok: "None \<notin> set ts \<Longrightarrow> tag_scan ts v = Inr (Some v \<in> set ts)"
  by (induction ts) (auto split: option.splits intro: option.exhaust)

lemma tag_scan_null: "None \<in> set ts \<Longrightarrow> Some v \<notin> set ts \<Longrightarrow> tag_scan ts v = Inl Null_Deref"
  by (induction ts) (auto split: option.splits)

lemma add_tag_value:
  "v \<noteq> [] \<Longrightarrow> snd (lmap_tag_set_tag lmap_tag_new (Some v)) = Some v"
  by (simp add: lmap_tag_set_tag_def set_tag_def set_string_def)

lemma add_tag_empty_value: "snd (lmap_tag_set_tag lmap_tag_new (Some [])) = None"
  by (simp add: lmap_tag_set_tag_def set_tag_def lmap_tag_new_def)

lemma add_tag_ok:
  assumes "tags_ok ts" "v \<noteq> []"
  shows "\<exists>r ts'. add_tag ts (Some v) = Inr (r, ts') \<and> tags_ok ts' \<and> Some v \<in> set ts' \<and>
    (if Some v \<in> set ts then r = -1 \<and> ts' = ts else r = 0 \<and> ts' = ts @ [Some v])"
  using assms
  by (cases "ts = []"; cases "Some v \<in> set ts")
    (simp_all add: add_tag_def add_tag_value tags_ok_def tag_scan_ok)

text \<open>
  On a well-formed list \<^const>\<open>add_tag\<close> appends a non-empty tag at the end unless the list
  has it, in which case it returns -1 and changes nothing; either way the list stays
  well-formed.
\<close>

theorem add_tag_wf:
  assumes "tags_ok ts" "v \<noteq> []"
  shows "\<exists>r ts'. add_tag ts (Some v) = Inr (r, ts') \<and> tags_ok ts' \<and> Some v \<in> set ts' \<and>
    (if Some v \<in> set ts then r = -1 \<and> ts' = ts else r = 0 \<and> ts' = ts @ [Some v])"
  using assms by (rule add_tag_ok)

theorem add_tag_wf_witness:
  "add_tag [Some ''a''] (Some ''b'') = Inr (0, [Some ''a'', Some ''b''])"
  using add_tag_wf [of "[Some ''a'']" "''b''"] by (auto simp: tags_ok_def)

text \<open>
  The empty tag, which \<open>set_tag\<close> refuses, is stored all the same: \<^const>\<open>add_tag\<close> ignores the
  refusal and appends a tag that is \<open>NULL\<close>, and the next addition of a new tag to that list passes the \<open>NULL\<close> to
  \<open>strcmp\<close>.
\<close>

theorem add_tag_empty_then_fault:
  assumes "tags_ok ts" "v \<noteq> []" "Some v \<notin> set ts"
  shows "add_tag ts (Some []) = Inr (0, ts @ [None])
    \<and> add_tag (ts @ [None]) (Some v) = Inl Null_Deref"
  using assms
  by (auto simp: add_tag_def add_tag_empty_value tag_scan_ok tag_scan_null tags_ok_def)

theorem add_tag_empty_then_fault_witness:
  "add_tag [] (Some []) = Inr (0, [None]) \<and> add_tag [None] (Some ''x'') = Inl Null_Deref"
  using add_tag_empty_then_fault [of "[]" "''x''"] by (simp add: tags_ok_def)

end
