(* ===== verification/Objects.thy ===== *)
theory Objects
  imports Store
begin

text \<open>
  The setters of \<^verbatim>\<open>src/data.c\<close> for agents, capabilities, registries, options, suppressions,
  tasks, schedules, actions and the daemon's paths, in the order of the file; those of events and
  results are in \<open>Events\<close> and \<open>Results\<close>. Each returns its code and the object, which on an
  error is what the code leaves behind.
\<close>

section \<open>Agent\<close>

text \<open>
  The loop of \<open>lmap_agent_set_agent_id\<close> runs over the positions 0 to 36. The end of the string reads as
  the zero byte, which only position 36 accepts.
\<close>

fun uuid_scan :: "nat \<Rightarrow> string \<Rightarrow> bool" where
  "uuid_scan i [] = (36 \<le> i)"
| "uuid_scan i (c # p) =
     (if 36 < i then True
      else if i = 8 \<or> i = 13 \<or> i = 18 \<or> i = 23 then c = CHR ''-'' \<and> uuid_scan (Suc i) p
      else isxdigit c \<and> uuid_scan (Suc i) p)"

definition lmap_agent_set_agent_id :: "agent \<Rightarrow> string option \<Rightarrow> int \<times> agent" where
  "lmap_agent_set_agent_id a v =
     (if (case v of None \<Rightarrow> False | Some s \<Rightarrow> \<not> uuid_scan 0 s) then (-1, a)
      else case set_string (ag_agent_id a) v of (r, x) \<Rightarrow> (r, a\<lparr>ag_agent_id := x\<rparr>))"

definition lmap_agent_set_group_id :: "agent \<Rightarrow> string option \<Rightarrow> int \<times> agent" where
  "lmap_agent_set_group_id a v =
     (case set_string (ag_group_id a) v of (r, x) \<Rightarrow> (r, a\<lparr>ag_group_id := x\<rparr>))"

definition lmap_agent_set_measurement_point :: "agent \<Rightarrow> string option \<Rightarrow> int \<times> agent" where
  "lmap_agent_set_measurement_point a v =
     (case set_string (ag_measurement_point a) v of (r, x) \<Rightarrow> (r, a\<lparr>ag_measurement_point := x\<rparr>))"

definition lmap_agent_set_report_agent_id :: "agent \<Rightarrow> string \<Rightarrow> int \<times> agent" where
  "lmap_agent_set_report_agent_id a v =
     (case set_boolean (ag_report_agent_id a) v of
        (r, x) \<Rightarrow>
          (r, if r = 0
              then a\<lparr>ag_report_agent_id := x, ag_flags := flag_set (ag_flags a) LMAP_AGENT_FLAG_REPORT_AGENT_ID_SET\<rparr>
              else a\<lparr>ag_report_agent_id := x\<rparr>))"

definition lmap_agent_set_report_group_id :: "agent \<Rightarrow> string \<Rightarrow> int \<times> agent" where
  "lmap_agent_set_report_group_id a v =
     (case set_boolean (ag_report_group_id a) v of
        (r, x) \<Rightarrow>
          (r, if r = 0
              then a\<lparr>ag_report_group_id := x, ag_flags := flag_set (ag_flags a) LMAP_AGENT_FLAG_REPORT_GROUP_ID_SET\<rparr>
              else a\<lparr>ag_report_group_id := x\<rparr>))"

definition lmap_agent_set_report_measurement_point :: "agent \<Rightarrow> string \<Rightarrow> int \<times> agent" where
  "lmap_agent_set_report_measurement_point a v =
     (case set_boolean (ag_report_measurement_point a) v of
        (r, x) \<Rightarrow>
          (r, if r = 0
              then a\<lparr>ag_report_measurement_point := x, ag_flags := flag_set (ag_flags a) LMAP_AGENT_FLAG_REPORT_MEASUREMENT_POINT_SET\<rparr>
              else a\<lparr>ag_report_measurement_point := x\<rparr>))"

definition lmap_agent_set_controller_timeout :: "agent \<Rightarrow> string \<Rightarrow> int \<times> agent" where
  "lmap_agent_set_controller_timeout a v =
     (case set_uint32 (ag_controller_timeout a) v of
        (r, x) \<Rightarrow>
          (r, if r = 0
              then a\<lparr>ag_controller_timeout := x, ag_flags := flag_set (ag_flags a) LMAP_AGENT_FLAG_CONTROLLER_TIMEOUT_SET\<rparr>
              else a\<lparr>ag_controller_timeout := x\<rparr>))"

definition lmap_agent_set_last_started :: "libc \<Rightarrow> agent \<Rightarrow> string \<Rightarrow> int \<times> agent" where
  "lmap_agent_set_last_started lc a v =
     (case set_dateandtime lc (ag_last_started a) v of (r, x) \<Rightarrow> (r, a\<lparr>ag_last_started := x\<rparr>))"

definition lmap_agent_set_report_date :: "libc \<Rightarrow> agent \<Rightarrow> string \<Rightarrow> int \<times> agent" where
  "lmap_agent_set_report_date lc a v =
     (case set_dateandtime lc (ag_report_date a) v of (r, x) \<Rightarrow> (r, a\<lparr>ag_report_date := x\<rparr>))"

section \<open>Capabilities, registries, options\<close>

definition lmap_capability_set_version :: "capability \<Rightarrow> string option \<Rightarrow> int \<times> capability" where
  "lmap_capability_set_version c v =
     (case set_string (cap_version c) v of (r, x) \<Rightarrow> (r, c\<lparr>cap_version := x\<rparr>))"

definition lmap_capability_add_tag :: "capability \<Rightarrow> string option \<Rightarrow> (int \<times> capability) outcome" where
  "lmap_capability_add_tag c v = put (\<lambda>ts. c\<lparr>cap_tags := ts\<rparr>) (add_tag (cap_tags c) v)"

text \<open>Whether a socket of the family can be opened is up to the system.\<close>

definition lmap_capability_add_system_tags ::
  "bool \<Rightarrow> bool \<Rightarrow> capability option \<Rightarrow> capability option outcome" where
  "lmap_capability_add_system_tags has_inet has_inet6 cap =
     (case cap of
        None \<Rightarrow> Inr None
      | Some c \<Rightarrow>
          (case (if has_inet then lmap_capability_add_tag c (Some ''system-ipv4-capable'') else Inr (0, c)) of
             Inl e \<Rightarrow> Inl e
           | Inr (r, c1) \<Rightarrow>
               (case (if has_inet6 then lmap_capability_add_tag c1 (Some ''system-ipv6-capable'')
                      else Inr (0, c1)) of
                  Inl e \<Rightarrow> Inl e
                | Inr (r, c2) \<Rightarrow> Inr (Some c2))))"

definition lmap_registry_set_uri :: "registry \<Rightarrow> string option \<Rightarrow> int \<times> registry" where
  "lmap_registry_set_uri g v =
     (case set_string (reg_uri g) v of (r, x) \<Rightarrow> (r, g\<lparr>reg_uri := x\<rparr>))"

definition lmap_registry_add_role :: "registry \<Rightarrow> string option \<Rightarrow> (int \<times> registry) outcome" where
  "lmap_registry_add_role g v = put (\<lambda>ts. g\<lparr>reg_roles := ts\<rparr>) (add_tag (reg_roles g) v)"

definition lmap_option_set_id :: "lmap_option \<Rightarrow> string option \<Rightarrow> int \<times> lmap_option" where
  "lmap_option_set_id p v =
     (case set_lmap_identifier (opt_id p) v of (r, x) \<Rightarrow> (r, p\<lparr>opt_id := x\<rparr>))"

definition lmap_option_set_name :: "lmap_option \<Rightarrow> string option \<Rightarrow> int \<times> lmap_option" where
  "lmap_option_set_name p v =
     (case set_string (opt_name p) v of (r, x) \<Rightarrow> (r, p\<lparr>opt_name := x\<rparr>))"

definition lmap_option_set_value :: "lmap_option \<Rightarrow> string option \<Rightarrow> int \<times> lmap_option" where
  "lmap_option_set_value p v =
     (case set_string (opt_value p) v of (r, x) \<Rightarrow> (r, p\<lparr>opt_value := x\<rparr>))"

section \<open>Suppressions\<close>

definition lmap_supp_set_name :: "supp \<Rightarrow> string option \<Rightarrow> int \<times> supp" where
  "lmap_supp_set_name u v =
     (case set_lmap_identifier (supp_name u) v of (r, x) \<Rightarrow> (r, u\<lparr>supp_name := x\<rparr>))"

definition lmap_supp_set_start :: "supp \<Rightarrow> string option \<Rightarrow> int \<times> supp" where
  "lmap_supp_set_start u v =
     (case set_lmap_identifier (supp_start u) v of (r, x) \<Rightarrow> (r, u\<lparr>supp_start := x\<rparr>))"

definition lmap_supp_set_end :: "supp \<Rightarrow> string option \<Rightarrow> int \<times> supp" where
  "lmap_supp_set_end u v =
     (case set_lmap_identifier (supp_end u) v of (r, x) \<Rightarrow> (r, u\<lparr>supp_end := x\<rparr>))"

definition lmap_supp_add_match :: "supp \<Rightarrow> string option \<Rightarrow> (int \<times> supp) outcome" where
  "lmap_supp_add_match u v = put (\<lambda>ts. u\<lparr>supp_match := ts\<rparr>) (add_tag (supp_match u) v)"

definition lmap_supp_set_stop_running :: "supp \<Rightarrow> string \<Rightarrow> int \<times> supp" where
  "lmap_supp_set_stop_running u v =
     (case set_boolean (supp_stop_running u) v of
        (r, x) \<Rightarrow>
          (r, if r = 0
              then u\<lparr>supp_stop_running := x, supp_flags := flag_set (supp_flags u) LMAP_SUPP_FLAG_STOP_RUNNING_SET\<rparr>
              else u\<lparr>supp_stop_running := x\<rparr>))"

definition lmap_supp_set_state :: "supp \<Rightarrow> string \<Rightarrow> int \<times> supp" where
  "lmap_supp_set_state u v =
     (if v = ''enabled'' then (0, u\<lparr>supp_state := Supp_Enabled\<rparr>)
      else if v = ''disabled'' then (0, u\<lparr>supp_state := Supp_Disabled\<rparr>)
      else if v = ''active'' then (0, u\<lparr>supp_state := Supp_Active\<rparr>)
      else (-1, u))"

section \<open>Tasks\<close>

definition lmap_task_set_name :: "task \<Rightarrow> string option \<Rightarrow> int \<times> task" where
  "lmap_task_set_name t v =
     (case set_lmap_identifier (task_name t) v of (r, x) \<Rightarrow> (r, t\<lparr>task_name := x\<rparr>))"

definition lmap_task_set_version :: "task \<Rightarrow> string option \<Rightarrow> int \<times> task" where
  "lmap_task_set_version t v =
     (case set_string (task_version t) v of (r, x) \<Rightarrow> (r, t\<lparr>task_version := x\<rparr>))"

definition lmap_task_set_program :: "task \<Rightarrow> string option \<Rightarrow> int \<times> task" where
  "lmap_task_set_program t v =
     (case set_string (task_program t) v of (r, x) \<Rightarrow> (r, t\<lparr>task_program := x\<rparr>))"

definition lmap_task_add_tag :: "task \<Rightarrow> string option \<Rightarrow> (int \<times> task) outcome" where
  "lmap_task_add_tag t v = put (\<lambda>ts. t\<lparr>task_tags := ts\<rparr>) (add_tag (task_tags t) v)"

section \<open>Schedules\<close>

definition lmap_schedule_set_name :: "schedule \<Rightarrow> string option \<Rightarrow> int \<times> schedule" where
  "lmap_schedule_set_name s v =
     (case set_lmap_identifier (sched_name s) v of (r, x) \<Rightarrow> (r, s\<lparr>sched_name := x\<rparr>))"

definition lmap_schedule_set_start :: "schedule \<Rightarrow> string option \<Rightarrow> int \<times> schedule" where
  "lmap_schedule_set_start s v =
     (case set_lmap_identifier (sched_start s) v of (r, x) \<Rightarrow> (r, s\<lparr>sched_start := x\<rparr>))"

text \<open>Setting an end removes a duration first, and the other way round.\<close>

definition lmap_schedule_set_end :: "schedule \<Rightarrow> string option \<Rightarrow> int \<times> schedule" where
  "lmap_schedule_set_end s v =
     (let s1 = (if flag_on (sched_flags s) LMAP_SCHEDULE_FLAG_DURATION_SET
                then s\<lparr>sched_duration := 0,
                       sched_flags := flag_clear (sched_flags s) LMAP_SCHEDULE_FLAG_DURATION_SET\<rparr>
                else s)
      in case set_lmap_identifier (sched_end s1) v of
           (r, x) \<Rightarrow>
             (r, if r = 0
                 then s1\<lparr>sched_end := x,
                         sched_flags := flag_set (sched_flags s1) LMAP_SCHEDULE_FLAG_END_SET\<rparr>
                 else s1\<lparr>sched_end := x\<rparr>))"

definition lmap_schedule_set_duration :: "schedule \<Rightarrow> string \<Rightarrow> int \<times> schedule" where
  "lmap_schedule_set_duration s v =
     (let s1 = (if flag_on (sched_flags s) LMAP_SCHEDULE_FLAG_END_SET
                then s\<lparr>sched_end := None,
                       sched_flags := flag_clear (sched_flags s) LMAP_SCHEDULE_FLAG_END_SET\<rparr>
                else s)
      in case set_uint64 (sched_duration s1) v of
           (r, x) \<Rightarrow>
             (r, if r = 0
                 then s1\<lparr>sched_duration := x,
                         sched_flags := flag_set (sched_flags s1) LMAP_SCHEDULE_FLAG_DURATION_SET\<rparr>
                 else s1\<lparr>sched_duration := x\<rparr>))"

definition lmap_schedule_set_exec_mode :: "schedule \<Rightarrow> string \<Rightarrow> int \<times> schedule" where
  "lmap_schedule_set_exec_mode s v =
     (let done = (\<lambda>m. (0, s\<lparr>sched_mode := m,
        sched_flags := flag_set (sched_flags s) LMAP_SCHEDULE_FLAG_EXEC_MODE_SET\<rparr>))
      in if v = ''sequential'' then done Sequential
         else if v = ''parallel'' then done Parallel
         else if v = ''pipelined'' then done Pipelined
         else (-1, s))"

definition run_state_of :: "string \<Rightarrow> run_state option" where
  "run_state_of v =
     (if v = ''enabled'' then Some Enabled
      else if v = ''disabled'' then Some Disabled
      else if v = ''running'' then Some Running
      else if v = ''suppressed'' then Some Suppressed
      else None)"

definition lmap_schedule_set_state :: "schedule \<Rightarrow> string \<Rightarrow> int \<times> schedule" where
  "lmap_schedule_set_state s v =
     (case run_state_of v of None \<Rightarrow> (-1, s) | Some st \<Rightarrow> (0, s\<lparr>sched_state := st\<rparr>))"

definition lmap_schedule_set_storage :: "schedule \<Rightarrow> string \<Rightarrow> int \<times> schedule" where
  "lmap_schedule_set_storage s v =
     (case set_uint64 (sched_storage s) v of (r, x) \<Rightarrow> (r, s\<lparr>sched_storage := x\<rparr>))"

definition lmap_schedule_set_invocations :: "schedule \<Rightarrow> string \<Rightarrow> int \<times> schedule" where
  "lmap_schedule_set_invocations s v =
     (case set_uint32 (sched_cnt_invocations s) v of (r, x) \<Rightarrow> (r, s\<lparr>sched_cnt_invocations := x\<rparr>))"

definition lmap_schedule_set_suppressions :: "schedule \<Rightarrow> string \<Rightarrow> int \<times> schedule" where
  "lmap_schedule_set_suppressions s v =
     (case set_uint32 (sched_cnt_suppressions s) v of (r, x) \<Rightarrow> (r, s\<lparr>sched_cnt_suppressions := x\<rparr>))"

definition lmap_schedule_set_overlaps :: "schedule \<Rightarrow> string \<Rightarrow> int \<times> schedule" where
  "lmap_schedule_set_overlaps s v =
     (case set_uint32 (sched_cnt_overlaps s) v of (r, x) \<Rightarrow> (r, s\<lparr>sched_cnt_overlaps := x\<rparr>))"

definition lmap_schedule_set_failures :: "schedule \<Rightarrow> string \<Rightarrow> int \<times> schedule" where
  "lmap_schedule_set_failures s v =
     (case set_uint32 (sched_cnt_failures s) v of (r, x) \<Rightarrow> (r, s\<lparr>sched_cnt_failures := x\<rparr>))"

definition lmap_schedule_set_last_invocation :: "libc \<Rightarrow> schedule \<Rightarrow> string \<Rightarrow> int \<times> schedule" where
  "lmap_schedule_set_last_invocation lc s v =
     (case set_dateandtime lc (sched_last_invocation s) v of (r, x) \<Rightarrow> (r, s\<lparr>sched_last_invocation := x\<rparr>))"

definition lmap_schedule_add_tag :: "schedule \<Rightarrow> string option \<Rightarrow> (int \<times> schedule) outcome" where
  "lmap_schedule_add_tag s v = put (\<lambda>ts. s\<lparr>sched_tags := ts\<rparr>) (add_tag (sched_tags s) v)"

definition lmap_schedule_add_suppression_tag :: "schedule \<Rightarrow> string option \<Rightarrow> (int \<times> schedule) outcome" where
  "lmap_schedule_add_suppression_tag s v = put (\<lambda>ts. s\<lparr>sched_suppression_tags := ts\<rparr>) (add_tag (sched_suppression_tags s) v)"

definition lmap_schedule_set_workspace :: "schedule \<Rightarrow> string option \<Rightarrow> int \<times> schedule" where
  "lmap_schedule_set_workspace s v =
     (case set_string (sched_workspace s) v of (r, x) \<Rightarrow> (r, s\<lparr>sched_workspace := x\<rparr>))"

section \<open>Actions\<close>

definition lmap_action_set_name :: "action \<Rightarrow> string option \<Rightarrow> int \<times> action" where
  "lmap_action_set_name a v =
     (case set_lmap_identifier (act_name a) v of (r, x) \<Rightarrow> (r, a\<lparr>act_name := x\<rparr>))"

definition lmap_action_set_task :: "action \<Rightarrow> string option \<Rightarrow> int \<times> action" where
  "lmap_action_set_task a v =
     (case set_string (act_task a) v of (r, x) \<Rightarrow> (r, a\<lparr>act_task := x\<rparr>))"

definition lmap_action_add_destination :: "action \<Rightarrow> string option \<Rightarrow> (int \<times> action) outcome" where
  "lmap_action_add_destination a v = put (\<lambda>ts. a\<lparr>act_destinations := ts\<rparr>) (add_tag (act_destinations a) v)"

definition lmap_action_add_tag :: "action \<Rightarrow> string option \<Rightarrow> (int \<times> action) outcome" where
  "lmap_action_add_tag a v = put (\<lambda>ts. a\<lparr>act_tags := ts\<rparr>) (add_tag (act_tags a) v)"

definition lmap_action_add_suppression_tag :: "action \<Rightarrow> string option \<Rightarrow> (int \<times> action) outcome" where
  "lmap_action_add_suppression_tag a v = put (\<lambda>ts. a\<lparr>act_suppression_tags := ts\<rparr>) (add_tag (act_suppression_tags a) v)"

definition lmap_action_set_state :: "action \<Rightarrow> string \<Rightarrow> int \<times> action" where
  "lmap_action_set_state a v =
     (case run_state_of v of None \<Rightarrow> (-1, a) | Some st \<Rightarrow> (0, a\<lparr>act_state := st\<rparr>))"

definition lmap_action_set_storage :: "action \<Rightarrow> string \<Rightarrow> int \<times> action" where
  "lmap_action_set_storage a v =
     (case set_uint64 (act_storage a) v of (r, x) \<Rightarrow> (r, a\<lparr>act_storage := x\<rparr>))"

definition lmap_action_set_invocations :: "action \<Rightarrow> string \<Rightarrow> int \<times> action" where
  "lmap_action_set_invocations a v =
     (case set_uint32 (act_cnt_invocations a) v of (r, x) \<Rightarrow> (r, a\<lparr>act_cnt_invocations := x\<rparr>))"

definition lmap_action_set_suppressions :: "action \<Rightarrow> string \<Rightarrow> int \<times> action" where
  "lmap_action_set_suppressions a v =
     (case set_uint32 (act_cnt_suppressions a) v of (r, x) \<Rightarrow> (r, a\<lparr>act_cnt_suppressions := x\<rparr>))"

definition lmap_action_set_overlaps :: "action \<Rightarrow> string \<Rightarrow> int \<times> action" where
  "lmap_action_set_overlaps a v =
     (case set_uint32 (act_cnt_overlaps a) v of (r, x) \<Rightarrow> (r, a\<lparr>act_cnt_overlaps := x\<rparr>))"

definition lmap_action_set_failures :: "action \<Rightarrow> string \<Rightarrow> int \<times> action" where
  "lmap_action_set_failures a v =
     (case set_uint32 (act_cnt_failures a) v of (r, x) \<Rightarrow> (r, a\<lparr>act_cnt_failures := x\<rparr>))"

definition lmap_action_set_last_invocation :: "libc \<Rightarrow> action \<Rightarrow> string \<Rightarrow> int \<times> action" where
  "lmap_action_set_last_invocation lc a v =
     (case set_dateandtime lc (act_last_invocation a) v of (r, x) \<Rightarrow> (r, a\<lparr>act_last_invocation := x\<rparr>))"

definition lmap_action_set_last_completion :: "libc \<Rightarrow> action \<Rightarrow> string \<Rightarrow> int \<times> action" where
  "lmap_action_set_last_completion lc a v =
     (case set_dateandtime lc (act_last_completion a) v of (r, x) \<Rightarrow> (r, a\<lparr>act_last_completion := x\<rparr>))"

definition lmap_action_set_last_status :: "action \<Rightarrow> string \<Rightarrow> int \<times> action" where
  "lmap_action_set_last_status a v =
     (case set_int32 (act_last_status a) v of (r, x) \<Rightarrow> (r, a\<lparr>act_last_status := x\<rparr>))"

definition lmap_action_set_last_message :: "action \<Rightarrow> string option \<Rightarrow> int \<times> action" where
  "lmap_action_set_last_message a v =
     (case set_string (act_last_message a) v of (r, x) \<Rightarrow> (r, a\<lparr>act_last_message := x\<rparr>))"

definition lmap_action_set_last_failed_completion :: "libc \<Rightarrow> action \<Rightarrow> string \<Rightarrow> int \<times> action" where
  "lmap_action_set_last_failed_completion lc a v =
     (case set_dateandtime lc (act_last_failed_completion a) v of (r, x) \<Rightarrow> (r, a\<lparr>act_last_failed_completion := x\<rparr>))"

definition lmap_action_set_last_failed_status :: "action \<Rightarrow> string \<Rightarrow> int \<times> action" where
  "lmap_action_set_last_failed_status a v =
     (case set_int32 (act_last_failed_status a) v of (r, x) \<Rightarrow> (r, a\<lparr>act_last_failed_status := x\<rparr>))"

definition lmap_action_set_last_failed_message :: "action \<Rightarrow> string option \<Rightarrow> int \<times> action" where
  "lmap_action_set_last_failed_message a v =
     (case set_string (act_last_failed_message a) v of (r, x) \<Rightarrow> (r, a\<lparr>act_last_failed_message := x\<rparr>))"

definition lmap_action_set_workspace :: "action \<Rightarrow> string option \<Rightarrow> int \<times> action" where
  "lmap_action_set_workspace a v =
     (case set_string (act_workspace a) v of (r, x) \<Rightarrow> (r, a\<lparr>act_workspace := x\<rparr>))"

section \<open>The daemon's paths\<close>

text \<open>
  What \<open>stat\<close> says of a path is up to the file system: \<open>is_reg\<close> and \<open>is_dir\<close> tell whether the path names a
  regular file or a directory.
\<close>

definition lmapd_flush_config_paths :: "lmapd \<Rightarrow> lmapd" where
  "lmapd_flush_config_paths d = d\<lparr>ld_config_paths := []\<rparr>"

definition lmapd_add_config_path ::
  "(string \<Rightarrow> bool) \<Rightarrow> (string \<Rightarrow> bool) \<Rightarrow> lmapd \<Rightarrow> string option \<Rightarrow> int \<times> lmapd" where
  "lmapd_add_config_path is_reg is_dir d v =
     (case v of
        None \<Rightarrow> (-1, d)
      | Some p \<Rightarrow> if is_reg p \<or> is_dir p then (0, d\<lparr>ld_config_paths := ld_config_paths d @ [p]\<rparr>)
                  else (-1, d))"

definition lmapd_set_capability_path ::
  "(string \<Rightarrow> bool) \<Rightarrow> (string \<Rightarrow> bool) \<Rightarrow> lmapd \<Rightarrow> string \<Rightarrow> int \<times> lmapd" where
  "lmapd_set_capability_path is_reg is_dir d p =
     (if is_reg p \<or> is_dir p
      then case set_string (ld_capability_path d) (Some p) of (r, x) \<Rightarrow> (r, d\<lparr>ld_capability_path := x\<rparr>)
      else (-1, d))"

definition lmapd_set_queue_path :: "(string \<Rightarrow> bool) \<Rightarrow> lmapd \<Rightarrow> string \<Rightarrow> int \<times> lmapd" where
  "lmapd_set_queue_path is_dir d p =
     (if \<not> is_dir p then (-1, d)
      else case set_string (ld_queue_path d) (Some p) of (r, x) \<Rightarrow> (r, d\<lparr>ld_queue_path := x\<rparr>))"

definition lmapd_set_run_path :: "(string \<Rightarrow> bool) \<Rightarrow> lmapd \<Rightarrow> string \<Rightarrow> int \<times> lmapd" where
  "lmapd_set_run_path is_dir d p =
     (if \<not> is_dir p then (-1, d)
      else case set_string (ld_run_path d) (Some p) of (r, x) \<Rightarrow> (r, d\<lparr>ld_run_path := x\<rparr>))"

section \<open>Properties\<close>

text \<open>What position \<open>j\<close> of a UUID may hold.\<close>

definition uuid_char :: "nat \<Rightarrow> char \<Rightarrow> bool" where
  "uuid_char j c = (if j \<in> {8, 13, 18, 23} then c = CHR ''-'' else isxdigit c)"

lemma uuid_scan_chars:
  "i \<le> 37 \<Longrightarrow> uuid_scan i s \<longleftrightarrow>
     36 - i \<le> length s \<and> (\<forall>j<min (37 - i) (length s). uuid_char (i + j) (s ! j))"
proof (induction s arbitrary: i)
  case Nil
  then show ?case by auto
next
  case (Cons c s)
  show ?case
  proof (cases "i = 37")
    case True
    then show ?thesis by simp
  next
    case False
    with Cons.prems have i: "i \<le> 36" by simp
    have "uuid_scan i (c # s) \<longleftrightarrow> uuid_char i c \<and> uuid_scan (Suc i) s"
      using i by (auto simp: uuid_char_def)
    also have "\<dots> \<longleftrightarrow> uuid_char i c \<and> 36 - Suc i \<le> length s \<and>
      (\<forall>j<min (37 - Suc i) (length s). uuid_char (Suc i + j) (s ! j))"
      using Cons.IH [of "Suc i"] i by simp
    also have "\<dots> \<longleftrightarrow> 36 - i \<le> length (c # s) \<and>
      (\<forall>j<min (37 - i) (length (c # s)). uuid_char (i + j) ((c # s) ! j))"
    proof -
      have m: "min (37 - i) (length (c # s)) = Suc (min (37 - Suc i) (length s))"
        using i by simp
      have "36 - i \<le> length (c # s) \<longleftrightarrow> 36 - Suc i \<le> length s" by auto
      then show ?thesis unfolding m All_less_Suc2 by auto
    qed
    finally show ?thesis .
  qed
qed

definition uuid_format :: "string \<Rightarrow> bool" where
  "uuid_format s \<longleftrightarrow> length s = 36 \<and> (\<forall>j<36. uuid_char j (s ! j))"

text \<open>
  \<^const>\<open>lmap_agent_set_agent_id\<close> accepts exactly the strings whose first 36 characters have the
  form of a UUID and that either end there or go on with a hexadecimal digit: after
  such a digit anything may follow. An accepted value is stored, a refused one leaves
  the agent as it was.
\<close>

theorem lmap_agent_set_agent_id_accepts:
  "lmap_agent_set_agent_id a (Some s) =
     (if uuid_format (take 36 s) \<and> (length s = 36 \<or> isxdigit (s ! 36))
      then (0, a\<lparr>ag_agent_id := Some s\<rparr>) else (-1, a))"
proof -
  have "uuid_scan 0 s \<longleftrightarrow> 36 \<le> length s \<and> (\<forall>j<min 37 (length s). uuid_char j (s ! j))"
    using uuid_scan_chars [of 0 s] by simp
  also have "\<dots> \<longleftrightarrow> uuid_format (take 36 s) \<and> (length s = 36 \<or> isxdigit (s ! 36))"
  proof (cases "36 < length s")
    case True
    then have m: "min 37 (length s) = Suc 36" by simp
    have "(\<forall>j<Suc 36. uuid_char j (s ! j)) \<longleftrightarrow> (\<forall>j<36. uuid_char j (s ! j)) \<and> isxdigit (s ! 36)"
      by (subst All_less_Suc) (auto simp: uuid_char_def [of 36])
    then show ?thesis
      using True unfolding m by (auto simp: uuid_format_def)
  next
    case False
    then show ?thesis by (cases "length s = 36") (auto simp: uuid_format_def)
  qed
  finally show ?thesis
    by (auto simp: lmap_agent_set_agent_id_def set_string_def)
qed

text \<open>
  What the setters of a schedule can be asked to do; \<open>schedule_call\<close> is the schedule afterwards,
  whatever the return code. Tags cannot be added to a list that holds a
  \<open>NULL\<close> tag, where the code crashes.
\<close>

datatype sched_op =
  Set_Name "string option" | Set_Start "string option" | Set_End "string option"
| Set_Duration string | Set_Exec_Mode string | Set_State string | Set_Storage string
| Set_Invocations string | Set_Suppressions string | Set_Overlaps string | Set_Failures string
| Set_Last_Invocation string | Set_Workspace "string option"
| Add_Tag "string option" | Add_Suppression_Tag "string option" | Add_Action action

fun schedule_call :: "libc \<Rightarrow> sched_op \<Rightarrow> schedule \<Rightarrow> (int \<times> schedule) outcome" where
  "schedule_call lc (Set_Name v) s = Inr (lmap_schedule_set_name s v)"
| "schedule_call lc (Set_Start v) s = Inr (lmap_schedule_set_start s v)"
| "schedule_call lc (Set_End v) s = Inr (lmap_schedule_set_end s v)"
| "schedule_call lc (Set_Duration v) s = Inr (lmap_schedule_set_duration s v)"
| "schedule_call lc (Set_Exec_Mode v) s = Inr (lmap_schedule_set_exec_mode s v)"
| "schedule_call lc (Set_State v) s = Inr (lmap_schedule_set_state s v)"
| "schedule_call lc (Set_Storage v) s = Inr (lmap_schedule_set_storage s v)"
| "schedule_call lc (Set_Invocations v) s = Inr (lmap_schedule_set_invocations s v)"
| "schedule_call lc (Set_Suppressions v) s = Inr (lmap_schedule_set_suppressions s v)"
| "schedule_call lc (Set_Overlaps v) s = Inr (lmap_schedule_set_overlaps s v)"
| "schedule_call lc (Set_Failures v) s = Inr (lmap_schedule_set_failures s v)"
| "schedule_call lc (Set_Last_Invocation v) s = Inr (lmap_schedule_set_last_invocation lc s v)"
| "schedule_call lc (Set_Workspace v) s = Inr (lmap_schedule_set_workspace s v)"
| "schedule_call lc (Add_Tag v) s = lmap_schedule_add_tag s v"
| "schedule_call lc (Add_Suppression_Tag v) s = lmap_schedule_add_suppression_tag s v"
| "schedule_call lc (Add_Action a) s = lmap_schedule_add_action s a"

text \<open>The schedule after a sequence of calls, up to the first fault.\<close>

fun schedule_calls :: "libc \<Rightarrow> sched_op list \<Rightarrow> schedule \<Rightarrow> schedule outcome" where
  "schedule_calls lc [] s = Inr s"
| "schedule_calls lc (c # cs) s =
     (case schedule_call lc c s of Inl e \<Rightarrow> Inl e | Inr (r, s') \<Rightarrow> schedule_calls lc cs s')"

text \<open>A schedule has an end event or a duration, and the flags say which.\<close>

definition end_or_duration :: "schedule \<Rightarrow> bool" where
  "end_or_duration s \<longleftrightarrow>
     \<not> (flag_on (sched_flags s) LMAP_SCHEDULE_FLAG_END_SET
        \<and> flag_on (sched_flags s) LMAP_SCHEDULE_FLAG_DURATION_SET)
     \<and> (flag_on (sched_flags s) LMAP_SCHEDULE_FLAG_END_SET \<or> sched_end s = None)
     \<and> (flag_on (sched_flags s) LMAP_SCHEDULE_FLAG_DURATION_SET \<or> sched_duration s = 0)"

lemmas schedule_setter_defs =
  lmap_schedule_set_name_def lmap_schedule_set_start_def lmap_schedule_set_end_def
  lmap_schedule_set_duration_def lmap_schedule_set_exec_mode_def lmap_schedule_set_state_def
  lmap_schedule_set_storage_def lmap_schedule_set_invocations_def
  lmap_schedule_set_suppressions_def lmap_schedule_set_overlaps_def
  lmap_schedule_set_failures_def lmap_schedule_set_last_invocation_def
  lmap_schedule_set_workspace_def lmap_schedule_add_tag_def
  lmap_schedule_add_suppression_tag_def lmap_schedule_add_action_def

lemma put_Inr: "put f r = Inr (c, s') \<Longrightarrow> \<exists>xs. s' = f xs"
  by (auto simp: put_def split: sum.splits)

lemma end_or_duration_set_end:
  "end_or_duration s \<Longrightarrow> end_or_duration (snd (lmap_schedule_set_end s v))"
  by (auto simp: end_or_duration_def lmap_schedule_set_end_def set_lmap_identifier_def
      set_string_def Let_def flag_simps schedule_flag_defs)

lemma end_or_duration_set_duration:
  "end_or_duration s \<Longrightarrow> end_or_duration (snd (lmap_schedule_set_duration s v))"
  by (auto simp: end_or_duration_def lmap_schedule_set_duration_def set_uint64_def
      Let_def flag_simps schedule_flag_defs split: prod.splits if_splits)

lemma end_or_duration_call:
  assumes "end_or_duration s" "schedule_call lc c s = Inr (r, s')"
  shows "end_or_duration s'"
proof (cases c)
  case (Set_End v)
  with assms show ?thesis using end_or_duration_set_end [of s v] by simp
next
  case (Set_Duration v)
  with assms show ?thesis using end_or_duration_set_duration [of s v] by simp
qed (use assms in \<open>auto simp: schedule_setter_defs end_or_duration_def Let_def flag_simps
      schedule_flag_defs split: prod.splits option.splits if_splits dest!: put_Inr\<close>)

text \<open>
  C40. Whatever setters are called on a fresh schedule, in any order and with any values, also
  refused ones: it never has both an end event and a duration, an end event without its flag,
  or a duration without its flag.
\<close>

theorem schedule_end_or_duration:
  assumes "schedule_calls lc cs lmap_schedule_new = Inr s"
  shows "end_or_duration s"
proof -
  have "end_or_duration s0 \<Longrightarrow> schedule_calls lc cs s0 = Inr s \<Longrightarrow> end_or_duration s" for s0
    by (induction cs arbitrary: s0) (auto split: sum.splits dest: end_or_duration_call)
  moreover have "end_or_duration lmap_schedule_new"
    by (simp add: end_or_duration_def lmap_schedule_new_def flag_simps)
  ultimately show ?thesis using assms by blast
qed

theorem schedule_end_or_duration_witness:
  "\<forall>lc. \<exists>s. schedule_calls lc [Set_End (Some ''stop''), Set_Duration ''60'', Set_Duration ''x'']
     lmap_schedule_new = Inr s \<and> end_or_duration s \<and> sched_end s = None \<and> sched_duration s = 60"
proof
  fix lc
  have u: "set_uint64 0 ''60'' = (0, 60)" "set_uint64 60 ''x'' = (-1, 60)"
    by (simp_all add: number_eval)
  have "\<exists>s. schedule_calls lc [Set_End (Some ''stop''), Set_Duration ''60'', Set_Duration ''x'']
    lmap_schedule_new = Inr s \<and> sched_end s = None \<and> sched_duration s = 60"
    by (simp add: lmap_schedule_set_end_def lmap_schedule_set_duration_def lmap_schedule_new_def
        set_lmap_identifier_def set_string_def u Let_def flag_simps schedule_flag_defs)
  then show "\<exists>s. schedule_calls lc [Set_End (Some ''stop''), Set_Duration ''60'', Set_Duration ''x'']
     lmap_schedule_new = Inr s \<and> end_or_duration s \<and> sched_end s = None \<and> sched_duration s = 60"
    using schedule_end_or_duration by blast
qed

end
