(* ===== verification/Libc_Instance.thy ===== *)
theory Libc_Instance
  imports Scalars
begin

text \<open>
  A concrete C library for evaluating the model, with UTC as the local time zone: \<open>strptime\<close>
  on fixed-width fields, \<open>timegm\<close> and \<open>localtime\<close> on the proleptic Gregorian calendar, and a \<open>fnmatch\<close>
  with \<open>*\<close> and \<open>?\<close>. The model itself takes these functions as a parameter; the witnesses instantiate them here.
\<close>

definition days_from_civil :: "int \<Rightarrow> int \<Rightarrow> int \<Rightarrow> int" where
  "days_from_civil y m d =
     (let y' = (if m \<le> 2 then y - 1 else y);
          yoe = y' mod 400;
          doy = (153 * (if 2 < m then m - 3 else m + 9) + 2) div 5 + d - 1;
          doe = yoe * 365 + yoe div 4 - yoe div 100 + doy
      in y' div 400 * 146097 + doe - 719468)"

definition utc_timegm :: "tm \<Rightarrow> int" where
  "utc_timegm tm =
     days_from_civil (tm_year tm + 1900) (tm_mon tm + 1) (tm_mday tm) * 86400
       + tm_hour tm * 3600 + tm_min tm * 60 + tm_sec tm"

definition utc_localtime :: "int \<Rightarrow> tm option" where
  "utc_localtime t =
     (let days = t div 86400; secs = t mod 86400;
          z = days + 719468;
          doe = z mod 146097;
          yoe = (doe - doe div 1460 + doe div 36524 - doe div 146096) div 365;
          doy = doe - (365 * yoe + yoe div 4 - yoe div 100);
          mp = (5 * doy + 2) div 153;
          m = (if mp < 10 then mp + 3 else mp - 9);
          y = yoe + z div 146097 * 400 + (if m \<le> 2 then 1 else 0)
      in Some \<lparr>tm_sec = secs mod 60, tm_min = secs div 60 mod 60, tm_hour = secs div 3600,
               tm_mday = doy - (153 * mp + 2) div 5 + 1, tm_mon = m - 1, tm_year = y - 1900,
               tm_wday = (days + 4) mod 7\<rparr>)"

definition utc_strptime :: "string \<Rightarrow> (tm \<times> string) option" where
  "utc_strptime s =
     (let num = (\<lambda>i n. int (digits_value (take n (drop i s))))
      in if 19 \<le> length s
            \<and> list_all isdigit (take 4 s @ take 2 (drop 5 s) @ take 2 (drop 8 s)
                @ take 2 (drop 11 s) @ take 2 (drop 14 s) @ take 2 (drop 17 s))
            \<and> s ! 4 = CHR ''-'' \<and> s ! 7 = CHR ''-'' \<and> s ! 10 = CHR ''T''
            \<and> s ! 13 = CHR '':'' \<and> s ! 16 = CHR '':''
         then Some (\<lparr>tm_sec = num 17 2, tm_min = num 14 2, tm_hour = num 11 2, tm_mday = num 8 2,
                     tm_mon = num 5 2 - 1, tm_year = num 0 4 - 1900, tm_wday = 0\<rparr>, drop 19 s)
         else None)"

fun glob :: "string \<Rightarrow> string \<Rightarrow> bool" where
  "glob [] s = (s = [])"
| "glob (p # ps) [] = (p = CHR ''*'' \<and> glob ps [])"
| "glob (p # ps) (c # s) =
     (if p = CHR ''*'' then glob ps (c # s) \<or> glob (p # ps) s
      else (p = CHR ''?'' \<or> p = c) \<and> glob ps s)"

definition utc_libc :: libc where
  "utc_libc =
     \<lparr>lc_strptime = utc_strptime, lc_have_timegm = True, lc_timegm = utc_timegm,
      lc_mktime = utc_timegm, lc_timezone = 0, lc_localtime = utc_localtime,
      lc_gmtime = utc_localtime, lc_fnmatch = glob\<rparr>"

lemma utc_example: "set_dateandtime utc_libc 0 ''2023-11-14T23:13:20+01:00'' = (0, 1700000000)"
  by code_simp

end
