(* ===== verification/Events.thy ===== *)
theory Events
  imports Objects Libc_Instance
begin

text \<open>
  The event functions of \<^verbatim>\<open>src/data.c\<close>: the setters, the six functions that add a value to
  a calendar bit set, and \<open>lmap_event_calendar_match\<close>. The locale \<open>calendar_field\<close> is what
  the six bit sets have in common; its lemma says what a bit set matches after any list of
  additions, and the property on the whole match follows from its six interpretations.
\<close>

section \<open>Setters\<close>

definition lmap_event_set_name :: "event \<Rightarrow> string option \<Rightarrow> int \<times> event" where
  "lmap_event_set_name e v =
     (case set_lmap_identifier (ev_name e) v of (r, x) \<Rightarrow> (r, e\<lparr>ev_name := x\<rparr>))"

definition event_type_tab :: "(string \<times> event_type) list" where
  "event_type_tab =
     [(''periodic'', Periodic), (''calendar'', Calendar), (''one-off'', One_Off),
      (''immediate'', Immediate), (''startup'', Startup), (''controller-lost'', Controller_Lost),
      (''controller-connected'', Controller_Connected)]"

definition lmap_event_set_type :: "event \<Rightarrow> string \<Rightarrow> int \<times> event" where
  "lmap_event_set_type e v =
     (case map_of event_type_tab v of None \<Rightarrow> (-1, e) | Some t \<Rightarrow> (0, e\<lparr>ev_type := t\<rparr>))"

text \<open>A zero interval is refused after it has been stored.\<close>

definition lmap_event_set_interval :: "event \<Rightarrow> string \<Rightarrow> int \<times> event" where
  "lmap_event_set_interval e v =
     (case set_uint32 (ev_interval e) v of
        (r, x) \<Rightarrow>
          (let e1 = e\<lparr>ev_interval := x\<rparr>
           in if r = 0
              then if x < 1 then (-1, e1)
                   else (r, e1\<lparr>ev_flags := flag_set (ev_flags e1) LMAP_EVENT_FLAG_INTERVAL_SET\<rparr>)
              else (r, e1)))"

definition lmap_event_set_start :: "libc \<Rightarrow> event \<Rightarrow> string \<Rightarrow> int \<times> event" where
  "lmap_event_set_start lc e v =
     (case set_dateandtime lc (ev_start e) v of
        (r, x) \<Rightarrow>
          (r, if r = 0
              then e\<lparr>ev_start := x, ev_flags := flag_set (ev_flags e) LMAP_EVENT_FLAG_START_SET\<rparr>
              else e\<lparr>ev_start := x\<rparr>))"

definition lmap_event_set_end :: "libc \<Rightarrow> event \<Rightarrow> string \<Rightarrow> int \<times> event" where
  "lmap_event_set_end lc e v =
     (case set_dateandtime lc (ev_end e) v of
        (r, x) \<Rightarrow>
          (r, if r = 0
              then e\<lparr>ev_end := x, ev_flags := flag_set (ev_flags e) LMAP_EVENT_FLAG_END_SET\<rparr>
              else e\<lparr>ev_end := x\<rparr>))"

text \<open>glibc's \<open>RAND_MAX\<close>.\<close>

definition RAND_MAX :: "32 word" where
  "RAND_MAX = 0x7FFFFFFF"

definition lmap_event_set_random_spread :: "event \<Rightarrow> string \<Rightarrow> int \<times> event" where
  "lmap_event_set_random_spread e v =
     (case set_uint32 (ev_random_spread e) v of
        (r, x) \<Rightarrow>
          (let e1 = e\<lparr>ev_random_spread := x\<rparr>
           in if r = 0
              then if RAND_MAX \<le> x then (-1, e1)
                   else (r, e1\<lparr>ev_flags := flag_set (ev_flags e1) LMAP_EVENT_FLAG_RANDOM_SPREAD_SET\<rparr>)
              else (r, e1)))"

definition lmap_event_set_cycle_interval :: "event \<Rightarrow> string \<Rightarrow> int \<times> event" where
  "lmap_event_set_cycle_interval e v =
     (case set_uint32 (ev_cycle_interval e) v of
        (r, x) \<Rightarrow>
          (r, if r = 0
              then e\<lparr>ev_cycle_interval := x,
                     ev_flags := flag_set (ev_flags e) LMAP_EVENT_FLAG_CYCLE_INTERVAL_SET\<rparr>
              else e\<lparr>ev_cycle_interval := x\<rparr>))"

definition lmap_event_set_timezone_offset :: "event \<Rightarrow> string \<Rightarrow> int \<times> event" where
  "lmap_event_set_timezone_offset e v =
     (case set_timezoneoffset (ev_timezone_offset e) v of
        (r, x) \<Rightarrow>
          (if r \<noteq> 0 then (-1, e)
           else (0, e\<lparr>ev_timezone_offset := x,
                     ev_flags := flag_set (ev_flags e) LMAP_EVENT_FLAG_TIMEZONE_OFFSET_SET\<rparr>)))"

section \<open>Calendar bit sets\<close>

definition month_tab :: "(string \<times> 16 word) list" where
  "month_tab =
     [(''*'', -1), (''january'', push_bit 0 1), (''february'', push_bit 1 1),
      (''march'', push_bit 2 1), (''april'', push_bit 3 1), (''may'', push_bit 4 1),
      (''june'', push_bit 5 1), (''july'', push_bit 6 1), (''august'', push_bit 7 1),
      (''september'', push_bit 8 1), (''october'', push_bit 9 1), (''november'', push_bit 10 1),
      (''december'', push_bit 11 1)]"

definition lmap_event_add_month :: "event \<Rightarrow> string \<Rightarrow> int \<times> event" where
  "lmap_event_add_month e v =
     (case map_of month_tab v of
        None \<Rightarrow> (-1, e) | Some w \<Rightarrow> (0, e\<lparr>ev_months := ev_months e OR w\<rparr>))"

definition lmap_event_add_day_of_month :: "event \<Rightarrow> string \<Rightarrow> int \<times> event" where
  "lmap_event_add_day_of_month e v =
     (if v = ''*'' then (0, e\<lparr>ev_days_of_month := -1\<rparr>)
      else case set_int32 0 v of
        (r, i) \<Rightarrow>
          if r = -1 \<or> i < 1 \<or> 31 < i then (-1, e)
          else (0, e\<lparr>ev_days_of_month := ev_days_of_month e OR push_bit (nat i) 1\<rparr>))"

definition day_of_week_tab :: "(string \<times> 8 word) list" where
  "day_of_week_tab =
     [(''*'', -1), (''monday'', push_bit 0 1), (''tuesday'', push_bit 1 1),
      (''wednesday'', push_bit 2 1), (''thursday'', push_bit 3 1), (''friday'', push_bit 4 1),
      (''saturday'', push_bit 5 1), (''sunday'', push_bit 6 1)]"

definition lmap_event_add_day_of_week :: "event \<Rightarrow> string \<Rightarrow> int \<times> event" where
  "lmap_event_add_day_of_week e v =
     (case map_of day_of_week_tab v of
        None \<Rightarrow> (-1, e) | Some w \<Rightarrow> (0, e\<lparr>ev_days_of_week := ev_days_of_week e OR w\<rparr>))"

definition lmap_event_add_hour :: "event \<Rightarrow> string \<Rightarrow> int \<times> event" where
  "lmap_event_add_hour e v =
     (if v = ''*'' then (0, e\<lparr>ev_hours := -1\<rparr>)
      else case set_int32 0 v of
        (r, i) \<Rightarrow>
          if r = -1 \<or> i < 0 \<or> 23 < i then (-1, e)
          else (0, e\<lparr>ev_hours := ev_hours e OR push_bit (nat i) 1\<rparr>))"

definition lmap_event_add_minute :: "event \<Rightarrow> string \<Rightarrow> int \<times> event" where
  "lmap_event_add_minute e v =
     (if v = ''*'' then (0, e\<lparr>ev_minutes := -1\<rparr>)
      else case set_int32 0 v of
        (r, i) \<Rightarrow>
          if r = -1 \<or> i < 0 \<or> 59 < i then (-1, e)
          else (0, e\<lparr>ev_minutes := ev_minutes e OR push_bit (nat i) 1\<rparr>))"

definition lmap_event_add_second :: "event \<Rightarrow> string \<Rightarrow> int \<times> event" where
  "lmap_event_add_second e v =
     (if v = ''*'' then (0, e\<lparr>ev_seconds := -1\<rparr>)
      else case set_int32 0 v of
        (r, i) \<Rightarrow>
          if r = -1 \<or> i < 0 \<or> 59 < i then (-1, e)
          else (0, e\<lparr>ev_seconds := ev_seconds e OR push_bit (nat i) 1\<rparr>))"

text \<open>
  The match is 1 or 0, and -1 for an event of another type or when \<open>localtime\<close> fails. A field
  of all ones matches anything; otherwise the bit of the broken-down time's field decides.
\<close>

definition bit_field_match :: "'w::len word \<Rightarrow> nat \<Rightarrow> bool" where
  "bit_field_match w i \<longleftrightarrow> w = -1 \<or> push_bit i 1 AND w \<noteq> 0"

definition lmap_week_day :: "tm \<Rightarrow> nat" where
  "lmap_week_day tm = nat (if tm_wday tm = 0 then 6 else tm_wday tm - 1)"

definition lmap_event_calendar_match :: "libc \<Rightarrow> event \<Rightarrow> int \<Rightarrow> int" where
  "lmap_event_calendar_match lc e now =
     (if ev_type e \<noteq> Calendar then -1
      else case lc_localtime lc now of
        None \<Rightarrow> -1
      | Some tm \<Rightarrow>
          if \<not> bit_field_match (ev_months e) (nat (tm_mon tm)) then 0
          else if \<not> bit_field_match (ev_days_of_month e) (nat (tm_mday tm)) then 0
          else if \<not> bit_field_match (ev_days_of_week e) (lmap_week_day tm) then 0
          else if \<not> bit_field_match (ev_hours e) (nat (tm_hour tm)) then 0
          else if \<not> bit_field_match (ev_minutes e) (nat (tm_min tm)) then 0
          else if \<not> bit_field_match (ev_seconds e) (nat (tm_sec tm)) then 0
          else 1)"

section \<open>What a bit set matches\<close>

lemma bit_field_match_bit:
  "i < LENGTH('w::len) \<Longrightarrow> bit_field_match (w :: 'w word) i \<longleftrightarrow> bit w i"
proof -
  assume i: "i < LENGTH('w)"
  have "push_bit i 1 AND w \<noteq> 0 \<longleftrightarrow> bit w i"
    by (simp add: push_bit_of_1 and.commute and_exp_eq_0_iff_not_bit)
  then show ?thesis
    using i by (auto simp: bit_field_match_def)
qed

text \<open>The event after a list of additions.\<close>

definition add_each :: "(event \<Rightarrow> string \<Rightarrow> int \<times> event) \<Rightarrow> string list \<Rightarrow> event \<Rightarrow> event" where
  "add_each add vs e = fold (\<lambda>v e. snd (add e v)) vs e"

text \<open>
  A bit set of events: \<open>bit_of\<close> is the bit that a value other than the star stands for. The
  star sets all bits, an unknown value changes nothing.
\<close>

locale calendar_field =
  fixes add :: "event \<Rightarrow> string \<Rightarrow> int \<times> event"
    and fld :: "event \<Rightarrow> 'w::len word"
    and bit_of :: "string \<Rightarrow> nat option"
  assumes add_star: "fld (snd (add e ''*'')) = -1"
    and add_value: "v \<noteq> ''*'' \<Longrightarrow> bit_of v = Some b \<Longrightarrow> fld (snd (add e v)) = fld e OR push_bit b 1"
    and add_unknown: "v \<noteq> ''*'' \<Longrightarrow> bit_of v = None \<Longrightarrow> snd (add e v) = e"
begin

lemma adds_bit:
  "i < LENGTH('w) \<Longrightarrow> bit (fld (add_each add vs e)) i \<longleftrightarrow>
     bit (fld e) i \<or> ''*'' \<in> set vs \<or> (\<exists>v\<in>set vs. v \<noteq> ''*'' \<and> bit_of v = Some i)"
proof (induction vs arbitrary: e)
  case Nil
  then show ?case by (simp add: add_each_def)
next
  case (Cons v vs)
  have "bit (fld (snd (add e v))) i \<longleftrightarrow> bit (fld e) i \<or> v = ''*'' \<or> (v \<noteq> ''*'' \<and> bit_of v = Some i)"
  proof (cases "v = ''*''")
    case True
    then show ?thesis using Cons.prems by (simp add: add_star)
  next
    case False
    then show ?thesis
      using Cons.prems add_value [of v] add_unknown [of v]
      by (cases "bit_of v") (auto simp: bit_simps)
  qed
  then show ?case
    using Cons by (auto simp: add_each_def)
qed

lemma adds_match:
  assumes "i < LENGTH('w)" "fld e = 0"
  shows "bit_field_match (fld (add_each add vs e)) i \<longleftrightarrow>
    ''*'' \<in> set vs \<or> (\<exists>v\<in>set vs. v \<noteq> ''*'' \<and> bit_of v = Some i)"
  using assms adds_bit [of i vs e] by (simp add: bit_field_match_bit)

end

text \<open>The position of a name in a table, which is the bit that the table gives it.\<close>

definition month_names :: "string list" where
  "month_names =
     [''january'', ''february'', ''march'', ''april'', ''may'', ''june'', ''july'', ''august'',
      ''september'', ''october'', ''november'', ''december'']"

definition day_names :: "string list" where
  "day_names =
     [''monday'', ''tuesday'', ''wednesday'', ''thursday'', ''friday'', ''saturday'', ''sunday'']"

definition name_index :: "string list \<Rightarrow> string \<Rightarrow> nat option" where
  "name_index names v = map_of (zip names [0..<length names]) v"

definition number_in :: "int \<Rightarrow> int \<Rightarrow> string \<Rightarrow> nat option" where
  "number_in lo hi v =
     (case set_int32 0 v of (r, i) \<Rightarrow> if r = -1 \<or> i < lo \<or> hi < i then None else Some (nat i))"

lemma month_tab_names:
  "month_tab = (''*'', -1) # map (\<lambda>(n, i). (n, push_bit i 1)) (zip month_names [0..<length month_names])"
  by (simp add: month_tab_def month_names_def upt_rec)

lemma day_of_week_tab_names:
  "day_of_week_tab = (''*'', -1) # map (\<lambda>(n, i). (n, push_bit i 1)) (zip day_names [0..<length day_names])"
  by (simp add: day_of_week_tab_def day_names_def upt_rec)

lemma add_month_names:
  "v \<noteq> ''*'' \<Longrightarrow> lmap_event_add_month e v =
     (case name_index month_names v of
        None \<Rightarrow> (-1, e) | Some i \<Rightarrow> (0, e\<lparr>ev_months := ev_months e OR push_bit i 1\<rparr>))"
  unfolding lmap_event_add_month_def month_tab_names name_index_def
  by (cases "map_of (zip month_names [0..<length month_names]) v")
    (simp_all add: map_of_map del: map_of_zip_is_None)

lemma add_day_of_week_names:
  "v \<noteq> ''*'' \<Longrightarrow> lmap_event_add_day_of_week e v =
     (case name_index day_names v of
        None \<Rightarrow> (-1, e) | Some i \<Rightarrow> (0, e\<lparr>ev_days_of_week := ev_days_of_week e OR push_bit i 1\<rparr>))"
  unfolding lmap_event_add_day_of_week_def day_of_week_tab_names name_index_def
  by (cases "map_of (zip day_names [0..<length day_names]) v")
    (simp_all add: map_of_map del: map_of_zip_is_None)

lemma add_star_names:
  "ev_months (snd (lmap_event_add_month e ''*'')) = -1"
  "ev_days_of_week (snd (lmap_event_add_day_of_week e ''*'')) = -1"
  by (simp_all add: lmap_event_add_month_def month_tab_names lmap_event_add_day_of_week_def
      day_of_week_tab_names)

interpretation mon: calendar_field lmap_event_add_month ev_months "name_index month_names"
  by unfold_locales (simp_all add: add_month_names add_star_names)

interpretation dow: calendar_field lmap_event_add_day_of_week ev_days_of_week "name_index day_names"
  by unfold_locales (simp_all add: add_day_of_week_names add_star_names)

lemma number_in_Some:
  "number_in lo hi v = Some b \<longleftrightarrow>
     (\<exists>r i. set_int32 0 v = (r, i) \<and> \<not> (r = -1 \<or> i < lo \<or> hi < i) \<and> b = nat i)"
  by (cases "set_int32 0 v") (auto simp: number_in_def)

lemma number_in_None:
  "number_in lo hi v = None \<longleftrightarrow> (\<exists>r i. set_int32 0 v = (r, i) \<and> (r = -1 \<or> i < lo \<or> hi < i))"
  by (cases "set_int32 0 v") (simp add: number_in_def)

lemmas number_in_iff = number_in_Some number_in_None

interpretation dom: calendar_field lmap_event_add_day_of_month ev_days_of_month "number_in 1 31"
  by unfold_locales (auto simp: lmap_event_add_day_of_month_def number_in_iff)

interpretation hou: calendar_field lmap_event_add_hour ev_hours "number_in 0 23"
  by unfold_locales (auto simp: lmap_event_add_hour_def number_in_iff)

interpretation min: calendar_field lmap_event_add_minute ev_minutes "number_in 0 59"
  by unfold_locales (auto simp: lmap_event_add_minute_def number_in_iff)

interpretation sec: calendar_field lmap_event_add_second ev_seconds "number_in 0 59"
  by unfold_locales (auto simp: lmap_event_add_second_def number_in_iff)

section \<open>Properties\<close>

text \<open>Each bit set is written by its own function only.\<close>

lemma add_month_frame:
  "snd (lmap_event_add_month e v) = e\<lparr>ev_months := ev_months (snd (lmap_event_add_month e v))\<rparr>"
  by (simp add: lmap_event_add_month_def split: option.split)

lemma add_day_of_month_frame:
  "snd (lmap_event_add_day_of_month e v) =
     e\<lparr>ev_days_of_month := ev_days_of_month (snd (lmap_event_add_day_of_month e v))\<rparr>"
  by (simp add: lmap_event_add_day_of_month_def split: prod.split)

lemma add_day_of_week_frame:
  "snd (lmap_event_add_day_of_week e v) =
     e\<lparr>ev_days_of_week := ev_days_of_week (snd (lmap_event_add_day_of_week e v))\<rparr>"
  by (simp add: lmap_event_add_day_of_week_def split: option.split)

lemma add_hour_frame:
  "snd (lmap_event_add_hour e v) = e\<lparr>ev_hours := ev_hours (snd (lmap_event_add_hour e v))\<rparr>"
  by (simp add: lmap_event_add_hour_def split: prod.split)

lemma add_minute_frame:
  "snd (lmap_event_add_minute e v) = e\<lparr>ev_minutes := ev_minutes (snd (lmap_event_add_minute e v))\<rparr>"
  by (simp add: lmap_event_add_minute_def split: prod.split)

lemma add_second_frame:
  "snd (lmap_event_add_second e v) = e\<lparr>ev_seconds := ev_seconds (snd (lmap_event_add_second e v))\<rparr>"
  by (simp add: lmap_event_add_second_def split: prod.split)

lemma add_each_frame:
  assumes "\<And>e v. upd (fld (snd (add e v))) e = snd (add e v)"
    "\<And>x y e. upd x (upd y e) = upd x e" "\<And>e. upd (fld e) e = e"
  shows "\<exists>w. add_each add vs e = upd w e"
proof (induction vs arbitrary: e)
  case Nil
  then show ?case using assms(3) by (metis add_each_def fold_simps(1))
next
  case (Cons v vs)
  obtain w where "add_each add vs (snd (add e v)) = upd w (snd (add e v))"
    using Cons by blast
  then show ?case
    by (metis assms(1,2) add_each_def fold_simps(2))
qed

lemma add_each_frames:
  "\<exists>w. add_each lmap_event_add_month vs e = e\<lparr>ev_months := w\<rparr>"
  "\<exists>w. add_each lmap_event_add_day_of_month vs e = e\<lparr>ev_days_of_month := w\<rparr>"
  "\<exists>w. add_each lmap_event_add_day_of_week vs e = e\<lparr>ev_days_of_week := w\<rparr>"
  "\<exists>w. add_each lmap_event_add_hour vs e = e\<lparr>ev_hours := w\<rparr>"
  "\<exists>w. add_each lmap_event_add_minute vs e = e\<lparr>ev_minutes := w\<rparr>"
  "\<exists>w. add_each lmap_event_add_second vs e = e\<lparr>ev_seconds := w\<rparr>"
  by (rule add_each_frame [where fld = ev_months], simp_all flip: add_month_frame)
    (rule add_each_frame [where fld = ev_days_of_month], simp_all flip: add_day_of_month_frame,
     rule add_each_frame [where fld = ev_days_of_week], simp_all flip: add_day_of_week_frame,
     rule add_each_frame [where fld = ev_hours], simp_all flip: add_hour_frame,
     rule add_each_frame [where fld = ev_minutes], simp_all flip: add_minute_frame,
     rule add_each_frame [where fld = ev_seconds], simp_all flip: add_second_frame)

text \<open>A calendar event as a configuration builds it, field by field.\<close>

definition calendar_event ::
  "string list \<Rightarrow> string list \<Rightarrow> string list \<Rightarrow> string list \<Rightarrow> string list \<Rightarrow> string list \<Rightarrow> event"
where
  "calendar_event months days week hours minutes seconds =
     add_each lmap_event_add_second seconds
       (add_each lmap_event_add_minute minutes
         (add_each lmap_event_add_hour hours
           (add_each lmap_event_add_day_of_week week
             (add_each lmap_event_add_day_of_month days
               (add_each lmap_event_add_month months
                 (lmap_event_new\<lparr>ev_type := Calendar\<rparr>))))))"

text \<open>The values of a field that were given: the star, or one that stands for \<open>i\<close>.\<close>

definition given :: "(string \<Rightarrow> nat option) \<Rightarrow> string list \<Rightarrow> nat \<Rightarrow> bool" where
  "given bit_of vs i \<longleftrightarrow> ''*'' \<in> set vs \<or> (\<exists>v\<in>set vs. v \<noteq> ''*'' \<and> bit_of v = Some i)"

lemma calendar_event_fields:
  fixes ms ds ws hs mis ss :: "string list"
  defines "e \<equiv> calendar_event ms ds ws hs mis ss"
  shows "ev_type e = Calendar"
    "ev_months e = ev_months (add_each lmap_event_add_month ms (lmap_event_new\<lparr>ev_type := Calendar\<rparr>))"
    "\<exists>e0. ev_days_of_month e0 = 0 \<and> ev_days_of_month e = ev_days_of_month (add_each lmap_event_add_day_of_month ds e0)"
    "\<exists>e0. ev_days_of_week e0 = 0 \<and> ev_days_of_week e = ev_days_of_week (add_each lmap_event_add_day_of_week ws e0)"
    "\<exists>e0. ev_hours e0 = 0 \<and> ev_hours e = ev_hours (add_each lmap_event_add_hour hs e0)"
    "\<exists>e0. ev_minutes e0 = 0 \<and> ev_minutes e = ev_minutes (add_each lmap_event_add_minute mis e0)"
    "\<exists>e0. ev_seconds e0 = 0 \<and> ev_seconds e = ev_seconds (add_each lmap_event_add_second ss e0)"
proof -
  let ?e0 = "lmap_event_new\<lparr>ev_type := Calendar\<rparr>"
  obtain m where m: "add_each lmap_event_add_month ms ?e0 = ?e0\<lparr>ev_months := m\<rparr>"
    using add_each_frames(1) by blast
  let ?e1 = "?e0\<lparr>ev_months := m\<rparr>"
  obtain d where d: "add_each lmap_event_add_day_of_month ds ?e1 = ?e1\<lparr>ev_days_of_month := d\<rparr>"
    using add_each_frames(2) by blast
  let ?e2 = "?e1\<lparr>ev_days_of_month := d\<rparr>"
  obtain w where w: "add_each lmap_event_add_day_of_week ws ?e2 = ?e2\<lparr>ev_days_of_week := w\<rparr>"
    using add_each_frames(3) by blast
  let ?e3 = "?e2\<lparr>ev_days_of_week := w\<rparr>"
  obtain h where h: "add_each lmap_event_add_hour hs ?e3 = ?e3\<lparr>ev_hours := h\<rparr>"
    using add_each_frames(4) by blast
  let ?e4 = "?e3\<lparr>ev_hours := h\<rparr>"
  obtain i where i: "add_each lmap_event_add_minute mis ?e4 = ?e4\<lparr>ev_minutes := i\<rparr>"
    using add_each_frames(5) by blast
  let ?e5 = "?e4\<lparr>ev_minutes := i\<rparr>"
  obtain s where s: "add_each lmap_event_add_second ss ?e5 = ?e5\<lparr>ev_seconds := s\<rparr>"
    using add_each_frames(6) by blast
  have e: "e = ?e5\<lparr>ev_seconds := s\<rparr>"
    unfolding e_def calendar_event_def m d w h i s by (rule refl)
  show "ev_type e = Calendar" by (simp add: e)
  show "ev_months e = ev_months (add_each lmap_event_add_month ms ?e0)" by (simp add: e m)
  show "\<exists>e0. ev_days_of_month e0 = 0 \<and>
      ev_days_of_month e = ev_days_of_month (add_each lmap_event_add_day_of_month ds e0)"
    by (intro exI [of _ ?e1], unfold d e) (simp add: lmap_event_new_def)
  show "\<exists>e0. ev_days_of_week e0 = 0 \<and>
      ev_days_of_week e = ev_days_of_week (add_each lmap_event_add_day_of_week ws e0)"
    by (intro exI [of _ ?e2], unfold w e) (simp add: lmap_event_new_def)
  show "\<exists>e0. ev_hours e0 = 0 \<and> ev_hours e = ev_hours (add_each lmap_event_add_hour hs e0)"
    by (intro exI [of _ ?e3], unfold h e) (simp add: lmap_event_new_def)
  show "\<exists>e0. ev_minutes e0 = 0 \<and> ev_minutes e = ev_minutes (add_each lmap_event_add_minute mis e0)"
    by (intro exI [of _ ?e4], unfold i e) (simp add: lmap_event_new_def)
  show "\<exists>e0. ev_seconds e0 = 0 \<and> ev_seconds e = ev_seconds (add_each lmap_event_add_second ss e0)"
    by (intro exI [of _ ?e5], unfold s e) (simp add: lmap_event_new_def)
qed

text \<open>The ranges of \<open>struct tm\<close> that \<open>localtime\<close> keeps to, with a leap second.\<close>

definition tm_ok :: "tm \<Rightarrow> bool" where
  "tm_ok tm \<longleftrightarrow> 0 \<le> tm_mon tm \<and> tm_mon tm \<le> 11 \<and> 1 \<le> tm_mday tm \<and> tm_mday tm \<le> 31
     \<and> 0 \<le> tm_wday tm \<and> tm_wday tm \<le> 6 \<and> 0 \<le> tm_hour tm \<and> tm_hour tm \<le> 23
     \<and> 0 \<le> tm_min tm \<and> tm_min tm \<le> 59 \<and> 0 \<le> tm_sec tm \<and> tm_sec tm \<le> 60"

text \<open>
  C28. A calendar event built from lists of values matches an instant exactly when in each of the
  six fields the star or a value that stands for the field of the local time was given; names and
  numbers that the setters refuse do not count. Sunday, which is day 0 for \<open>localtime\<close>, is the last day of
  the event's week.
\<close>

theorem lmap_event_calendar_match_iff:
  assumes "lc_localtime lc now = Some tm" "tm_ok tm"
  shows "lmap_event_calendar_match lc (calendar_event ms ds ws hs mis ss) now =
    (if given (name_index month_names) ms (nat (tm_mon tm))
        \<and> given (number_in 1 31) ds (nat (tm_mday tm))
        \<and> given (name_index day_names) ws (nat ((tm_wday tm + 6) mod 7))
        \<and> given (number_in 0 23) hs (nat (tm_hour tm))
        \<and> given (number_in 0 59) mis (nat (tm_min tm))
        \<and> given (number_in 0 59) ss (nat (tm_sec tm))
     then 1 else 0)"
proof -
  let ?e = "calendar_event ms ds ws hs mis ss"
  note f = calendar_event_fields [of ms ds ws hs mis ss]
  have t: "nat (tm_mon tm) < 16" "nat (tm_mday tm) < 32" "nat (tm_hour tm) < 32"
    "nat (tm_min tm) < 64" "nat (tm_sec tm) < 64"
    using assms(2) by (auto simp: tm_ok_def)
  have wd: "lmap_week_day tm = nat ((tm_wday tm + 6) mod 7)" "lmap_week_day tm < 8"
  proof -
    have "tm_wday tm \<in> {0, 1, 2, 3, 4, 5, 6}" using assms(2) by (auto simp: tm_ok_def)
    then show "lmap_week_day tm = nat ((tm_wday tm + 6) mod 7)" "lmap_week_day tm < 8"
      by (auto simp: lmap_week_day_def)
  qed
  have "bit_field_match (ev_months ?e) (nat (tm_mon tm)) \<longleftrightarrow> given (name_index month_names) ms (nat (tm_mon tm))"
    unfolding f(2) given_def by (rule mon.adds_match) (use t in \<open>simp_all add: lmap_event_new_def\<close>)
  moreover have "bit_field_match (ev_days_of_month ?e) (nat (tm_mday tm)) \<longleftrightarrow>
    given (number_in 1 31) ds (nat (tm_mday tm))"
    using f(3) t dom.adds_match by (auto simp: given_def)
  moreover have "bit_field_match (ev_days_of_week ?e) (lmap_week_day tm) \<longleftrightarrow>
    given (name_index day_names) ws (lmap_week_day tm)"
    using f(4) wd(2) dow.adds_match by (auto simp: given_def)
  moreover have "bit_field_match (ev_hours ?e) (nat (tm_hour tm)) \<longleftrightarrow>
    given (number_in 0 23) hs (nat (tm_hour tm))"
    using f(5) t hou.adds_match by (auto simp: given_def)
  moreover have "bit_field_match (ev_minutes ?e) (nat (tm_min tm)) \<longleftrightarrow>
    given (number_in 0 59) mis (nat (tm_min tm))"
    using f(6) t min.adds_match by (auto simp: given_def)
  moreover have "bit_field_match (ev_seconds ?e) (nat (tm_sec tm)) \<longleftrightarrow>
    given (number_in 0 59) ss (nat (tm_sec tm))"
    using f(7) t sec.adds_match by (auto simp: given_def)
  ultimately show ?thesis
    using assms(1) f(1) wd(1) by (simp add: lmap_event_calendar_match_def)
qed

theorem lmap_event_calendar_match_iff_witness:
  "lmap_event_calendar_match utc_libc
     (calendar_event [''november''] [''*''] [''tuesday''] [''22''] [''13'', ''99''] [''20'']) 1700000000 = 1"
proof -
  have t: "lc_localtime utc_libc 1700000000 =
    Some \<lparr>tm_sec = 20, tm_min = 13, tm_hour = 22, tm_mday = 14, tm_mon = 10, tm_year = 123, tm_wday = 2\<rparr>"
    by code_simp
  have ok: "tm_ok \<lparr>tm_sec = 20, tm_min = 13, tm_hour = 22, tm_mday = 14, tm_mon = 10, tm_year = 123, tm_wday = 2\<rparr>"
    by (simp add: tm_ok_def)
  have m: "name_index month_names ''november'' = Some 10" "name_index day_names ''tuesday'' = Some 1"
    by (simp_all add: name_index_def month_names_def day_names_def upt_rec)
  have n: "number_in 0 23 ''22'' = Some 22" "number_in 0 59 ''13'' = Some 13" "number_in 0 59 ''20'' = Some 20"
    by (simp_all add: number_in_def number_eval)
  show ?thesis
    using lmap_event_calendar_match_iff [OF t ok] by (simp add: given_def m n)
qed

text \<open>
  A refused value can stay in the event: the interval 0 is stored before it is refused, and the
  flag of an earlier accepted interval remains.
\<close>

definition interval_ok :: "event \<Rightarrow> bool" where
  "interval_ok e \<longleftrightarrow> (flag_on (ev_flags e) LMAP_EVENT_FLAG_INTERVAL_SET \<longrightarrow> 1 \<le> ev_interval e)"

text \<open>
  A first call of \<^const>\<open>lmap_event_set_interval\<close> on a fresh event leaves a flagged interval of
  at least one second or no flag at all; a second call can undo that: after any accepted interval the value
  \<open>0\<close> is refused but leaves an event whose interval is flagged as set and is zero.
\<close>

theorem lmap_event_set_interval_zero:
  "interval_ok (snd (lmap_event_set_interval lmap_event_new v)) \<and>
   fst (lmap_event_set_interval e ''0'') = -1 \<and>
   ev_interval (snd (lmap_event_set_interval e ''0'')) = 0 \<and>
   ev_flags (snd (lmap_event_set_interval e ''0'')) = ev_flags e"
proof -
  have "set_uint32 (ev_interval e) ''0'' = (0, 0)" by (simp add: number_eval)
  moreover have "interval_ok (snd (lmap_event_set_interval lmap_event_new v))"
  proof -
    obtain r x where rx: "set_uint32 0 v = (r, x)" by fastforce
    have "x \<noteq> 0 \<Longrightarrow> 1 \<le> x" by (metis leI word_less_1)
    with rx show ?thesis
      by (simp add: interval_ok_def lmap_event_set_interval_def lmap_event_new_def Let_def flag_on_zero)
  qed
  ultimately show ?thesis by (simp add: lmap_event_set_interval_def)
qed

end
