(* ===== verification/Results.thy ===== *)
theory Results
  imports Store
begin

text \<open>
  The result part of \<^verbatim>\<open>src/data.c\<close>: values, rows, tables and results, their construction and
  their validity.
\<close>

section \<open>Construction\<close>

definition lmap_value_set_value :: "val \<Rightarrow> string option \<Rightarrow> int \<times> val" where
  "lmap_value_set_value x v = set_string x v"

definition lmap_row_add_value :: "row \<Rightarrow> val \<Rightarrow> int \<times> row" where
  "lmap_row_add_value r x = (0, r\<lparr>row_values := row_values r @ [x]\<rparr>)"

definition lmap_table_add_column :: "table \<Rightarrow> string option \<Rightarrow> int \<times> table" where
  "lmap_table_add_column t v =
     (case lmap_value_set_value lmap_value_new v of
        (r, x) \<Rightarrow> (r, if r \<noteq> 0 then t else t\<lparr>tab_columns := tab_columns t @ [x]\<rparr>))"

definition lmap_table_add_row :: "table \<Rightarrow> row \<Rightarrow> int \<times> table" where
  "lmap_table_add_row t r = (0, t\<lparr>tab_rows := tab_rows t @ [r]\<rparr>)"

definition lmap_result_add_table :: "result \<Rightarrow> table \<Rightarrow> int \<times> result" where
  "lmap_result_add_table r t = (0, r\<lparr>res_tables := res_tables r @ [t]\<rparr>)"

definition lmap_result_set_schedule :: "result \<Rightarrow> string option \<Rightarrow> int \<times> result" where
  "lmap_result_set_schedule r v =
     (case set_lmap_identifier (res_schedule r) v of (c, x) \<Rightarrow> (c, r\<lparr>res_schedule := x\<rparr>))"

definition lmap_result_set_action :: "result \<Rightarrow> string option \<Rightarrow> int \<times> result" where
  "lmap_result_set_action r v =
     (case set_lmap_identifier (res_action r) v of (c, x) \<Rightarrow> (c, r\<lparr>res_action := x\<rparr>))"

definition lmap_result_set_task :: "result \<Rightarrow> string option \<Rightarrow> int \<times> result" where
  "lmap_result_set_task r v =
     (case set_lmap_identifier (res_task r) v of (c, x) \<Rightarrow> (c, r\<lparr>res_task := x\<rparr>))"

definition lmap_result_add_tag :: "result \<Rightarrow> string option \<Rightarrow> (int \<times> result) outcome" where
  "lmap_result_add_tag r v = put (\<lambda>ts. r\<lparr>res_tags := ts\<rparr>) (add_tag (res_tags r) v)"

definition lmap_result_set_event :: "libc \<Rightarrow> result \<Rightarrow> string \<Rightarrow> int \<times> result" where
  "lmap_result_set_event lc r v =
     (case set_dateandtime lc (res_event r) v of (c, x) \<Rightarrow> (c, r\<lparr>res_event := x\<rparr>))"

definition lmap_result_set_event_epoch :: "result \<Rightarrow> string \<Rightarrow> int \<times> result" where
  "lmap_result_set_event_epoch r v =
     (case set_uint32 0 v of (c, u) \<Rightarrow> (c, if c = 0 then r\<lparr>res_event := uint u\<rparr> else r))"

definition lmap_result_set_start :: "libc \<Rightarrow> result \<Rightarrow> string \<Rightarrow> int \<times> result" where
  "lmap_result_set_start lc r v =
     (case set_dateandtime lc (res_start r) v of (c, x) \<Rightarrow> (c, r\<lparr>res_start := x\<rparr>))"

definition lmap_result_set_start_epoch :: "result \<Rightarrow> string \<Rightarrow> int \<times> result" where
  "lmap_result_set_start_epoch r v =
     (case set_uint32 0 v of (c, u) \<Rightarrow> (c, if c = 0 then r\<lparr>res_start := uint u\<rparr> else r))"

definition lmap_result_set_end :: "libc \<Rightarrow> result \<Rightarrow> string \<Rightarrow> int \<times> result" where
  "lmap_result_set_end lc r v =
     (case set_dateandtime lc (res_end r) v of (c, x) \<Rightarrow> (c, r\<lparr>res_end := x\<rparr>))"

definition lmap_result_set_end_epoch :: "result \<Rightarrow> string \<Rightarrow> int \<times> result" where
  "lmap_result_set_end_epoch r v =
     (case set_uint32 0 v of (c, u) \<Rightarrow> (c, if c = 0 then r\<lparr>res_end := uint u\<rparr> else r))"

definition lmap_result_set_cycle_number :: "result \<Rightarrow> string option \<Rightarrow> int \<times> result" where
  "lmap_result_set_cycle_number r v =
     (case set_string (res_cycle_number r) v of (c, x) \<Rightarrow> (c, r\<lparr>res_cycle_number := x\<rparr>))"

definition lmap_result_set_status :: "result \<Rightarrow> string \<Rightarrow> int \<times> result" where
  "lmap_result_set_status r v =
     (case set_int32 0 v of
        (c, i) \<Rightarrow>
          (c, if c = 0
              then r\<lparr>res_status := i, res_flags := flag_set (res_flags r) LMAP_RESULT_FLAG_STATUS_SET\<rparr>
              else r))"

section \<open>Validity\<close>

definition lmap_value_valid :: "val \<Rightarrow> bool" where
  "lmap_value_valid x \<longleftrightarrow> x \<noteq> None"

text \<open>The accumulated \<open>valid &= ...\<close> of the loops, over 0 and 1.\<close>

fun row_values_valid :: "val list \<Rightarrow> bool \<Rightarrow> bool" where
  "row_values_valid [] valid = valid"
| "row_values_valid (x # xs) valid = row_values_valid xs (valid \<and> lmap_value_valid x)"

definition lmap_row_valid :: "row \<Rightarrow> bool" where
  "lmap_row_valid r = row_values_valid (row_values r) True"

fun lmap_value_length :: "val list \<Rightarrow> nat" where
  "lmap_value_length [] = 0"
| "lmap_value_length (x # xs) = Suc (lmap_value_length xs)"

definition lmap_registry_valid :: "registry \<Rightarrow> bool" where
  "lmap_registry_valid g \<longleftrightarrow> reg_uri g \<noteq> None"

text \<open>
  The loop over the rows: without columns, the first row with values sets the number of columns.
\<close>

fun table_rows_valid :: "row list \<Rightarrow> nat \<Rightarrow> bool \<Rightarrow> bool" where
  "table_rows_valid [] n valid = valid"
| "table_rows_valid (r # rs) n valid =
     (if n \<noteq> 0
      then table_rows_valid rs n (valid \<and> lmap_row_valid r \<and> lmap_value_length (row_values r) = n)
      else table_rows_valid rs (lmap_value_length (row_values r)) (valid \<and> lmap_row_valid r))"

text \<open>Only the head of the registry list and of the column list is looked at.\<close>

definition lmap_table_valid :: "table \<Rightarrow> bool" where
  "lmap_table_valid t =
     (let v1 = (case tab_registries t of [] \<Rightarrow> True | g # _ \<Rightarrow> lmap_registry_valid g);
          v2 = (case tab_columns t of [] \<Rightarrow> v1 | c # _ \<Rightarrow> v1 \<and> lmap_value_valid c);
          n = (case tab_columns t of [] \<Rightarrow> 0 | c # _ \<Rightarrow> lmap_value_length (tab_columns t))
      in table_rows_valid (tab_rows t) n v2)"

fun result_tables_valid :: "table list \<Rightarrow> bool \<Rightarrow> bool" where
  "result_tables_valid [] valid = valid"
| "result_tables_valid (t # ts) valid = result_tables_valid ts (valid \<and> lmap_table_valid t)"

definition lmap_result_valid :: "result \<Rightarrow> bool" where
  "lmap_result_valid r =
     (let v1 = (res_schedule r \<noteq> None); v2 = (v1 \<and> res_action r \<noteq> None)
      in result_tables_valid (res_tables r) v2)"

section \<open>Properties\<close>

lemma lmap_value_length_length [simp]: "lmap_value_length xs = length xs"
  by (induction xs) simp_all

lemma row_values_valid_iff: "row_values_valid xs b \<longleftrightarrow> b \<and> None \<notin> set xs"
  by (induction xs arbitrary: b) (auto simp: lmap_value_valid_def intro: option.exhaust)

lemma lmap_row_valid_iff: "lmap_row_valid r \<longleftrightarrow> None \<notin> set (row_values r)"
  by (simp add: lmap_row_valid_def row_values_valid_iff)

lemma table_rows_valid_fixed:
  "n \<noteq> 0 \<Longrightarrow> table_rows_valid rs n b \<longleftrightarrow>
     b \<and> (\<forall>r\<in>set rs. None \<notin> set (row_values r) \<and> length (row_values r) = n)"
  by (induction rs arbitrary: b) (auto simp: lmap_row_valid_iff)

text \<open>
  A rectangle: leading empty rows aside, every row has as many values as the first that has any.
\<close>

definition rectangular :: "row list \<Rightarrow> nat \<Rightarrow> bool" where
  "rectangular rs n \<longleftrightarrow>
     (let body = (if n = 0 then dropWhile (\<lambda>r. row_values r = []) rs else rs);
          width = (if n = 0 then (case body of [] \<Rightarrow> 0 | r # _ \<Rightarrow> length (row_values r)) else n)
      in \<forall>r\<in>set body. length (row_values r) = width)"

lemma table_rows_valid_iff:
  "table_rows_valid rs n b \<longleftrightarrow>
     b \<and> (\<forall>r\<in>set rs. None \<notin> set (row_values r)) \<and> rectangular rs n"
proof (induction rs arbitrary: b)
  case Nil
  then show ?case by (simp add: rectangular_def)
next
  case (Cons r rs)
  show ?case
  proof (cases "n = 0")
    case False
    then have "rectangular (r # rs) n \<longleftrightarrow> (\<forall>x\<in>set (r # rs). length (row_values x) = n)"
      by (simp add: rectangular_def Let_def)
    then show ?thesis using False table_rows_valid_fixed [of n "r # rs" b] by blast
  next
    case n: True
    show ?thesis
    proof (cases "row_values r = []")
      case True
      then have "rectangular (r # rs) 0 = rectangular rs 0"
        by (simp add: rectangular_def)
      with n True Cons show ?thesis by (simp add: lmap_row_valid_iff)
    next
      case False
      then have "rectangular (r # rs) 0 \<longleftrightarrow> (\<forall>x\<in>set rs. length (row_values x) = length (row_values r))"
        by (auto simp: rectangular_def Let_def)
      moreover have "table_rows_valid (r # rs) n b \<longleftrightarrow>
        (b \<and> lmap_row_valid r) \<and>
        (\<forall>x\<in>set rs. None \<notin> set (row_values x) \<and> length (row_values x) = length (row_values r))"
        using False n table_rows_valid_fixed [of "length (row_values r)" rs "b \<and> lmap_row_valid r"]
        by simp
      ultimately show ?thesis using n by (auto simp: lmap_row_valid_iff)
    qed
  qed
qed

text \<open>
  \<^const>\<open>lmap_table_valid\<close> accepts exactly the tables whose rows hold no missing value and have as
  many values as the table has columns or, without columns, as the first non-empty row; of the
  registries and the columns it checks the first one only.
\<close>

theorem lmap_table_valid_iff:
  "lmap_table_valid t \<longleftrightarrow>
     (case tab_registries t of [] \<Rightarrow> True | r # _ \<Rightarrow> reg_uri r \<noteq> None)
     \<and> (case tab_columns t of [] \<Rightarrow> True | c # _ \<Rightarrow> c \<noteq> None)
     \<and> None \<notin> \<Union> (set ` row_values ` set (tab_rows t))
     \<and> rectangular (tab_rows t) (length (tab_columns t))"
  by (cases "tab_registries t"; cases "tab_columns t")
    (auto simp: lmap_table_valid_def table_rows_valid_iff lmap_registry_valid_def lmap_value_valid_def)

lemma result_tables_valid_iff: "result_tables_valid ts b \<longleftrightarrow> b \<and> (\<forall>t\<in>set ts. lmap_table_valid t)"
  by (induction ts arbitrary: b) auto

lemma lmap_result_valid_iff:
  "lmap_result_valid r \<longleftrightarrow>
     res_schedule r \<noteq> None \<and> res_action r \<noteq> None \<and> (\<forall>t\<in>set (res_tables r). lmap_table_valid t)"
  by (auto simp: lmap_result_valid_def result_tables_valid_iff)

end
