(* ===== verification/Validity.thy ===== *)
theory Validity
  imports Events Results
begin

text \<open>
  The \<open>*_valid\<close> functions of \<^verbatim>\<open>src/data.c\<close> and \<open>lmap_valid\<close>, which the daemon calls on a new
  configuration before it runs it. \<open>well_referenced\<close> is the specification: what is named where, and which
  references must resolve.
\<close>

section \<open>The checks\<close>

definition lmap_agent_valid :: "agent \<Rightarrow> bool" where
  "lmap_agent_valid a =
     (let v1 = \<not> (ag_report_agent_id a \<noteq> 0 \<and> ag_agent_id a = None);
          v2 = (v1 \<and> \<not> (ag_report_group_id a \<noteq> 0 \<and> ag_group_id a = None))
      in v2 \<and> \<not> (ag_report_measurement_point a \<noteq> 0 \<and> ag_measurement_point a = None))"

definition lmap_capability_valid :: "capability \<Rightarrow> bool" where
  "lmap_capability_valid c = True"

definition lmap_option_valid :: "lmap_option \<Rightarrow> bool" where
  "lmap_option_valid p \<longleftrightarrow> opt_id p \<noteq> None"

definition lmap_tag_valid :: "tag \<Rightarrow> bool" where
  "lmap_tag_valid t \<longleftrightarrow> t \<noteq> None"

definition lmap_supp_valid :: "lmap \<Rightarrow> supp \<Rightarrow> bool" where
  "lmap_supp_valid l u =
     (let v1 = (supp_name u \<noteq> None);
          v2 = (v1 \<and> \<not> (supp_start u \<noteq> None \<and> lmap_find_event l (supp_start u) = None))
      in v2 \<and> \<not> (supp_end u \<noteq> None \<and> lmap_find_event l (supp_end u) = None))"

definition lmap_event_valid :: "event \<Rightarrow> bool" where
  "lmap_event_valid e =
     (let v1 = (ev_name e \<noteq> None);
          v2 = (v1 \<and> ev_type e \<noteq> No_Type);
          v3 = (if ev_type e = Periodic
                then if \<not> flag_on (ev_flags e) LMAP_EVENT_FLAG_INTERVAL_SET then False
                     else if flag_on (ev_flags e) LMAP_EVENT_FLAG_RANDOM_SPREAD_SET
                             \<and> ev_interval e \<le> ev_random_spread e then False
                     else v2
                else v2);
          v4 = (if ev_type e = Calendar
                then v3 \<and> ev_months e \<noteq> 0 \<and> ev_days_of_month e \<noteq> 0 \<and> ev_days_of_week e \<noteq> 0
                     \<and> ev_hours e \<noteq> 0 \<and> ev_minutes e \<noteq> 0 \<and> ev_seconds e \<noteq> 0
                else v3);
          v5 = (if ev_type e = One_Off \<and> \<not> flag_on (ev_flags e) LMAP_EVENT_FLAG_START_SET
                then False else v4)
      in if flag_on (ev_flags e) LMAP_EVENT_FLAG_START_SET
            \<and> flag_on (ev_flags e) LMAP_EVENT_FLAG_END_SET \<and> ev_end e < ev_start e
         then False else v5)"

definition lmap_task_valid :: "task \<Rightarrow> bool" where
  "lmap_task_valid t = (let v1 = (task_name t \<noteq> None) in v1 \<and> task_program t \<noteq> None)"

fun destinations_valid :: "lmap \<Rightarrow> tag list \<Rightarrow> bool \<Rightarrow> bool" where
  "destinations_valid l [] valid = valid"
| "destinations_valid l (t # ts) valid =
     destinations_valid l ts (if lmap_find_schedule l t = None then False else valid)"

definition lmap_action_valid :: "lmap \<Rightarrow> action \<Rightarrow> bool" where
  "lmap_action_valid l a =
     (let v1 = (act_name a \<noteq> None);
          v2 = (v1 \<and> act_task a \<noteq> None);
          v3 = (v2 \<and> \<not> (act_task a \<noteq> None \<and> lmap_find_task l (act_task a) = None))
      in destinations_valid l (act_destinations a) v3)"

fun actions_valid :: "lmap \<Rightarrow> action list \<Rightarrow> bool \<Rightarrow> bool" where
  "actions_valid l [] valid = valid"
| "actions_valid l (a # as) valid = actions_valid l as (if \<not> lmap_action_valid l a then False else valid)"

definition lmap_schedule_valid :: "lmap \<Rightarrow> schedule \<Rightarrow> bool" where
  "lmap_schedule_valid l s =
     (let v1 = (sched_name s \<noteq> None);
          v2 = (v1 \<and> sched_start s \<noteq> None);
          v3 = (v2 \<and> \<not> (sched_start s \<noteq> None \<and> lmap_find_event l (sched_start s) = None));
          v4 = (v3 \<and> \<not> (sched_end s \<noteq> None \<and> lmap_find_event l (sched_end s) = None))
      in actions_valid l (sched_actions s) v4)"

text \<open>The \<open>valid &=\<close> loops over the lists of the configuration.\<close>

fun all_valid :: "('a \<Rightarrow> bool) \<Rightarrow> 'a list \<Rightarrow> bool \<Rightarrow> bool" where
  "all_valid p [] valid = valid"
| "all_valid p (x # xs) valid = all_valid p xs (valid \<and> p x)"

definition lmap_valid :: "lmap \<Rightarrow> bool" where
  "lmap_valid l =
     (let v0 = (case lm_agent l of None \<Rightarrow> True | Some a \<Rightarrow> lmap_agent_valid a);
          v1 = all_valid (lmap_supp_valid l) (lm_supps l) v0;
          v2 = all_valid lmap_task_valid (lm_tasks l) v1;
          v3 = all_valid lmap_event_valid (lm_events l) v2
      in all_valid (lmap_schedule_valid l) (lm_schedules l) v3)"

section \<open>The specification\<close>

definition event_names :: "lmap \<Rightarrow> string option set" where
  "event_names l = ev_name ` set (lm_events l) - {None}"

definition task_names :: "lmap \<Rightarrow> string option set" where
  "task_names l = task_name ` set (lm_tasks l) - {None}"

definition schedule_names :: "lmap \<Rightarrow> string option set" where
  "schedule_names l = sched_name ` set (lm_schedules l) - {None}"

definition agent_ok :: "agent \<Rightarrow> bool" where
  "agent_ok a \<longleftrightarrow> (ag_report_agent_id a \<noteq> 0 \<longrightarrow> ag_agent_id a \<noteq> None)
     \<and> (ag_report_group_id a \<noteq> 0 \<longrightarrow> ag_group_id a \<noteq> None)
     \<and> (ag_report_measurement_point a \<noteq> 0 \<longrightarrow> ag_measurement_point a \<noteq> None)"

definition event_ok :: "event \<Rightarrow> bool" where
  "event_ok e \<longleftrightarrow> ev_name e \<noteq> None \<and> ev_type e \<noteq> No_Type
     \<and> (ev_type e = Periodic \<longrightarrow> flag_on (ev_flags e) LMAP_EVENT_FLAG_INTERVAL_SET \<and>
          (flag_on (ev_flags e) LMAP_EVENT_FLAG_RANDOM_SPREAD_SET \<longrightarrow> ev_random_spread e < ev_interval e))
     \<and> (ev_type e = Calendar \<longrightarrow> ev_months e \<noteq> 0 \<and> ev_days_of_month e \<noteq> 0 \<and> ev_days_of_week e \<noteq> 0
          \<and> ev_hours e \<noteq> 0 \<and> ev_minutes e \<noteq> 0 \<and> ev_seconds e \<noteq> 0)
     \<and> (ev_type e = One_Off \<longrightarrow> flag_on (ev_flags e) LMAP_EVENT_FLAG_START_SET)
     \<and> (flag_on (ev_flags e) LMAP_EVENT_FLAG_START_SET \<and> flag_on (ev_flags e) LMAP_EVENT_FLAG_END_SET
          \<longrightarrow> ev_start e \<le> ev_end e)"

definition action_ok :: "lmap \<Rightarrow> action \<Rightarrow> bool" where
  "action_ok l a \<longleftrightarrow> act_name a \<noteq> None \<and> act_task a \<in> task_names l
     \<and> set (act_destinations a) \<subseteq> schedule_names l"

definition schedule_ok :: "lmap \<Rightarrow> schedule \<Rightarrow> bool" where
  "schedule_ok l s \<longleftrightarrow> sched_name s \<noteq> None \<and> sched_start s \<in> event_names l
     \<and> (sched_end s = None \<or> sched_end s \<in> event_names l) \<and> (\<forall>a\<in>set (sched_actions s). action_ok l a)"

definition supp_ok :: "lmap \<Rightarrow> supp \<Rightarrow> bool" where
  "supp_ok l u \<longleftrightarrow> supp_name u \<noteq> None \<and> (supp_start u = None \<or> supp_start u \<in> event_names l)
     \<and> (supp_end u = None \<or> supp_end u \<in> event_names l)"

definition well_referenced :: "lmap \<Rightarrow> bool" where
  "well_referenced l \<longleftrightarrow> (\<forall>a. lm_agent l = Some a \<longrightarrow> agent_ok a)
     \<and> (\<forall>u\<in>set (lm_supps l). supp_ok l u)
     \<and> (\<forall>t\<in>set (lm_tasks l). task_name t \<noteq> None \<and> task_program t \<noteq> None)
     \<and> (\<forall>e\<in>set (lm_events l). event_ok e)
     \<and> (\<forall>s\<in>set (lm_schedules l). schedule_ok l s)"

section \<open>Properties\<close>

lemma find_named_None: "find_named key xs k = None \<longleftrightarrow> k \<notin> key ` set xs - {None}"
  by (cases k) (auto simp: find_named_def find_None_all image_iff)

lemma find_None_names:
  "lmap_find_event l n = None \<longleftrightarrow> n \<notin> event_names l"
  "lmap_find_task l n = None \<longleftrightarrow> n \<notin> task_names l"
  "lmap_find_schedule l n = None \<longleftrightarrow> n \<notin> schedule_names l"
  by (simp_all only: lmap_find_event_def lmap_find_task_def lmap_find_schedule_def find_named_None
      event_names_def task_names_def schedule_names_def)

lemma names_Some:
  "n \<in> event_names l \<Longrightarrow> \<exists>y. n = Some y" "n \<in> task_names l \<Longrightarrow> \<exists>y. n = Some y"
  by (auto simp: event_names_def task_names_def)

lemma lmap_agent_valid_iff: "lmap_agent_valid a \<longleftrightarrow> agent_ok a"
  by (auto simp: lmap_agent_valid_def agent_ok_def Let_def)

lemma lmap_supp_valid_iff: "lmap_supp_valid l u \<longleftrightarrow> supp_ok l u"
  by (auto simp: lmap_supp_valid_def supp_ok_def find_None_names Let_def)

lemma lmap_task_valid_iff: "lmap_task_valid t \<longleftrightarrow> task_name t \<noteq> None \<and> task_program t \<noteq> None"
  by (simp add: lmap_task_valid_def Let_def)

lemma lmap_event_valid_iff: "lmap_event_valid e \<longleftrightarrow> event_ok e"
  by (cases "ev_type e") (auto simp: lmap_event_valid_def event_ok_def Let_def not_less)

lemma destinations_valid_iff: "destinations_valid l ts b \<longleftrightarrow> b \<and> set ts \<subseteq> schedule_names l"
  by (induction ts arbitrary: b) (auto simp: find_None_names)

lemma lmap_action_valid_iff: "lmap_action_valid l a \<longleftrightarrow> action_ok l a"
  by (auto simp: lmap_action_valid_def action_ok_def destinations_valid_iff find_None_names Let_def
      intro: names_Some)

lemma actions_valid_iff: "actions_valid l as b \<longleftrightarrow> b \<and> (\<forall>a\<in>set as. action_ok l a)"
  by (induction as arbitrary: b) (auto simp: lmap_action_valid_iff)

lemma lmap_schedule_valid_iff: "lmap_schedule_valid l s \<longleftrightarrow> schedule_ok l s"
  by (auto simp: lmap_schedule_valid_def schedule_ok_def actions_valid_iff find_None_names Let_def
      intro: names_Some)

lemma all_valid_iff: "all_valid p xs b \<longleftrightarrow> b \<and> (\<forall>x\<in>set xs. p x)"
  by (induction xs arbitrary: b) auto

lemmas valid_iffs =
  lmap_agent_valid_iff lmap_supp_valid_iff lmap_task_valid_iff lmap_event_valid_iff
  lmap_schedule_valid_iff all_valid_iff

text \<open>
  C27. \<^const>\<open>lmap_valid\<close> accepts exactly the configurations in which every object has the names and
  values it needs and every reference resolves: schedule starts and ends and
  suppression starts and ends to events, actions to tasks, destinations to schedules.
\<close>

theorem lmap_valid_well_referenced: "lmap_valid l \<longleftrightarrow> well_referenced l"
  by (auto simp: lmap_valid_def well_referenced_def valid_iffs Let_def split: option.split)

lemma valid_action_task:
  assumes "lmap_valid l" "s \<in> set (lm_schedules l)" "a \<in> set (sched_actions s)"
  shows "\<exists>t. lmap_find_task l (act_task a) = Some t \<and> t \<in> set (lm_tasks l) \<and> task_program t \<noteq> None"
proof -
  have wr: "well_referenced l"
    using assms(1) by (auto simp: lmap_valid_def well_referenced_def valid_iffs Let_def split: option.splits)
  with assms(2,3) have "act_task a \<in> task_names l"
    by (auto simp: well_referenced_def schedule_ok_def action_ok_def)
  then obtain t where t: "lmap_find_task l (act_task a) = Some t"
    by (metis find_None_names(2) option.exhaust)
  then have "t \<in> set (lm_tasks l)"
    by (auto simp: lmap_find_task_def find_named_def dest: find_Some_mem split: option.splits)
  with t wr show ?thesis by (auto simp: well_referenced_def)
qed

end
