(* ===== verification/Filesystem.thy ===== *)
theory Filesystem
  imports Prelude "HOL-Library.Sublist"
begin

text \<open>
  The POSIX calls the workspace code makes, over a file system that maps the path of a directory to
  its entries. A regular file is an inode number, so that \<open>link\<close> makes two names for one file and
  the contents are kept per inode. The order of the entries of a directory is the order \<open>readdir\<close> returns
  them in; any order is allowed. Every call takes a predicate \<open>R\<close> on calls, which says
  which of them the system refuses for a reason the model does not show (permissions, quota, I/O
  errors); the properties hold for every \<open>R\<close> unless they say otherwise.
\<close>

section \<open>Directories\<close>

datatype node = Regular nat | Directory | Special

record fs =
  fs_dirs :: "string \<Rightarrow> (string \<times> node) list option"
  fs_data :: "nat \<Rightarrow> string"
  fs_next :: nat

datatype syscall =
    Opendir string
  | Fstatat string string
  | Linkat string string
  | Unlinkat string string
  | Remove string string
  | Mkdir string
  | Open string

type_synonym refusals = "syscall \<Rightarrow> bool"

abbreviation slash :: char where
  "slash \<equiv> CHR 0x2F"

definition join :: "string \<Rightarrow> string \<Rightarrow> string" where
  "join d n = d @ slash # n"

text \<open>A path is resolved at its last slash.\<close>

definition split_path :: "string \<Rightarrow> string \<times> string" where
  "split_path p =
     (rev (tl (dropWhile (\<lambda>c. c \<noteq> slash) (rev p))), rev (takeWhile (\<lambda>c. c \<noteq> slash) (rev p)))"

text \<open>\<open>snprintf\<close> into a buffer of \<open>PATH_MAX\<close> bytes.\<close>

definition PATH_MAX :: nat where
  "PATH_MAX = 4096"

definition path_buf :: "string \<Rightarrow> string" where
  "path_buf s = take (PATH_MAX - 1) s"

definition dot_name :: "string \<Rightarrow> bool" where
  "dot_name n \<longleftrightarrow> n = ''.'' \<or> n = ''..''"

definition entries :: "fs \<Rightarrow> string \<Rightarrow> (string \<times> node) list" where
  "entries fs d = (case fs_dirs fs d of None \<Rightarrow> [] | Some es \<Rightarrow> es)"

definition lookup :: "fs \<Rightarrow> string \<Rightarrow> string \<Rightarrow> node option" where
  "lookup fs d n =
     (if fs_dirs fs d = None then None
      else if dot_name n then Some Directory
      else map_of (entries fs d) n)"

definition add_entry :: "fs \<Rightarrow> string \<Rightarrow> string \<Rightarrow> node \<Rightarrow> fs" where
  "add_entry fs d n x = fs\<lparr>fs_dirs := (fs_dirs fs)(d \<mapsto> entries fs d @ [(n, x)])\<rparr>"

definition remove_entry :: "fs \<Rightarrow> string \<Rightarrow> string \<Rightarrow> fs" where
  "remove_entry fs d n =
     fs\<lparr>fs_dirs := (fs_dirs fs)(d \<mapsto> filter (\<lambda>e. fst e \<noteq> n) (entries fs d))\<rparr>"

section \<open>System calls\<close>

text \<open>The names \<open>readdir\<close> returns between \<open>opendir\<close> and \<open>closedir\<close>; \<open>None\<close> if \<open>opendir\<close> fails.\<close>

definition opendir :: "refusals \<Rightarrow> fs \<Rightarrow> string \<Rightarrow> string list option" where
  "opendir R fs d =
     (if R (Opendir d) \<or> fs_dirs fs d = None then None
      else Some (''.'' # ''..'' # map fst (entries fs d)))"

definition open_directory :: "refusals \<Rightarrow> fs \<Rightarrow> string \<Rightarrow> bool" where
  "open_directory R fs d \<longleftrightarrow> \<not> R (Open d) \<and> fs_dirs fs d \<noteq> None"

definition fstatat :: "refusals \<Rightarrow> fs \<Rightarrow> string \<Rightarrow> string \<Rightarrow> node option" where
  "fstatat R fs d n = (if R (Fstatat d n) then None else lookup fs d n)"

definition is_regular :: "node option \<Rightarrow> bool" where
  "is_regular x \<longleftrightarrow> (case x of Some (Regular i) \<Rightarrow> True | _ \<Rightarrow> False)"

definition linkat :: "refusals \<Rightarrow> fs \<Rightarrow> string \<Rightarrow> string \<Rightarrow> string \<Rightarrow> string \<Rightarrow> int \<times> fs" where
  "linkat R fs d n d' n' =
     (case lookup fs d n of
        None \<Rightarrow> (-1, fs)
      | Some Directory \<Rightarrow> (-1, fs)
      | Some x \<Rightarrow>
          if R (Linkat d' n') \<or> fs_dirs fs d' = None \<or> lookup fs d' n' \<noteq> None then (-1, fs)
          else (0, add_entry fs d' n' x))"

definition link :: "refusals \<Rightarrow> fs \<Rightarrow> string \<Rightarrow> string \<Rightarrow> int \<times> fs" where
  "link R fs p q =
     (case split_path p of (d, n) \<Rightarrow> case split_path q of (d', n') \<Rightarrow> linkat R fs d n d' n')"

definition unlinkat :: "refusals \<Rightarrow> fs \<Rightarrow> string \<Rightarrow> string \<Rightarrow> int \<times> fs" where
  "unlinkat R fs d n =
     (if R (Unlinkat d n) \<or> lookup fs d n = None \<or> lookup fs d n = Some Directory then (-1, fs)
      else (0, remove_entry fs d n))"

definition new_directory :: "fs \<Rightarrow> string \<Rightarrow> fs" where
  "new_directory fs p = (if fs_dirs fs p = None then fs\<lparr>fs_dirs := (fs_dirs fs)(p \<mapsto> [])\<rparr> else fs)"

datatype mkdir_result = Made | Exists | Failed

definition mkdir :: "refusals \<Rightarrow> fs \<Rightarrow> string \<Rightarrow> mkdir_result \<times> fs" where
  "mkdir R fs p =
     (case split_path p of
        (d, n) \<Rightarrow>
          if lookup fs d n \<noteq> None then (Exists, fs)
          else if R (Mkdir p) \<or> fs_dirs fs d = None then (Failed, fs)
          else (Made, new_directory (add_entry fs d n Directory) p))"

text \<open>\<open>remove\<close>: \<open>unlink\<close> for a file and \<open>rmdir\<close>, which wants an empty directory, for a directory.\<close>

definition remove_node :: "refusals \<Rightarrow> fs \<Rightarrow> string \<Rightarrow> string \<Rightarrow> fs" where
  "remove_node R fs d n =
     (case lookup fs d n of
        None \<Rightarrow> fs
      | Some Directory \<Rightarrow>
          if R (Remove d n) \<or> dot_name n \<or> entries fs (join d n) \<noteq> [] then fs
          else (remove_entry fs d n)\<lparr>fs_dirs := (fs_dirs (remove_entry fs d n))(join d n := None)\<rparr>
      | Some x \<Rightarrow> if R (Remove d n) then fs else remove_entry fs d n)"

text \<open>
  The walk of \<open>nftw\<close> with \<open>FTW_DEPTH\<close> and \<open>FTW_PHYS\<close>, calling \<open>remove\<close> on every node after its children. A
  directory that cannot be read has no children to visit. The first argument bounds the depth:
  each level adds at least two characters to a path of less than \<open>PATH_MAX\<close>.
\<close>

fun remove_tree :: "nat \<Rightarrow> refusals \<Rightarrow> string \<Rightarrow> string \<Rightarrow> fs \<Rightarrow> fs" where
  "remove_tree 0 R d n fs = fs"
| "remove_tree (Suc k) R d n fs =
     (let fs' = (if lookup fs d n = Some Directory \<and> \<not> R (Opendir (join d n))
                 then fold (\<lambda>m fs. remove_tree k R (join d n) m fs) (map fst (entries fs (join d n))) fs
                 else fs)
      in remove_node R fs' d n)"

text \<open>\<open>nftw\<close> fails only when the node itself cannot be examined: the callback always returns 0.\<close>

definition remove_path :: "refusals \<Rightarrow> fs \<Rightarrow> string \<Rightarrow> int \<times> fs" where
  "remove_path R fs p =
     (case split_path p of
        (d, n) \<Rightarrow>
          if fstatat R fs d n = None then (-1, fs) else (0, remove_tree PATH_MAX R d n fs))"

text \<open>\<open>open\<close> with \<open>O_CREAT | O_TRUNC\<close> for writing, and without \<open>O_CREAT\<close> for appending and for reading.\<close>

definition open_create_trunc :: "refusals \<Rightarrow> fs \<Rightarrow> string \<Rightarrow> nat option \<times> fs" where
  "open_create_trunc R fs p =
     (case split_path p of
        (d, n) \<Rightarrow>
          if R (Open p) \<or> fs_dirs fs d = None then (None, fs)
          else (case lookup fs d n of
                  Some (Regular i) \<Rightarrow> (Some i, fs\<lparr>fs_data := (fs_data fs)(i := [])\<rparr>)
                | None \<Rightarrow>
                    (Some (fs_next fs),
                     (add_entry fs d n (Regular (fs_next fs)))
                       \<lparr>fs_data := (fs_data fs)(fs_next fs := []), fs_next := Suc (fs_next fs)\<rparr>)
                | _ \<Rightarrow> (None, fs)))"

definition open_existing :: "refusals \<Rightarrow> fs \<Rightarrow> string \<Rightarrow> nat option" where
  "open_existing R fs p =
     (case split_path p of
        (d, n) \<Rightarrow>
          if R (Open p) then None
          else (case lookup fs d n of Some (Regular i) \<Rightarrow> Some i | _ \<Rightarrow> None))"

definition write_file :: "fs \<Rightarrow> nat \<Rightarrow> string \<Rightarrow> fs" where
  "write_file fs i s = fs\<lparr>fs_data := (fs_data fs)(i := fs_data fs i @ s)\<rparr>"

section \<open>Facts about the calls\<close>

definition fs_wf :: "fs \<Rightarrow> bool" where
  "fs_wf fs \<longleftrightarrow>
     (\<forall>d es. fs_dirs fs d = Some es \<longrightarrow>
        distinct (map fst es) \<and> (\<forall>n\<in>set (map fst es). n \<noteq> [] \<and> slash \<notin> set n \<and> \<not> dot_name n))"

lemma split_join [simp]: "slash \<notin> set n \<Longrightarrow> split_path (join d n) = (d, n)"
proof -
  assume n: "slash \<notin> set n"
  have "takeWhile (\<lambda>c. c \<noteq> slash) (rev (join d n)) = rev n"
    and "dropWhile (\<lambda>c. c \<noteq> slash) (rev (join d n)) = slash # rev d"
    using n takeWhile_all [of "rev n" "\<lambda>c. c \<noteq> slash" "slash # rev d"]
      dropWhile_all [of "rev n" "\<lambda>c. c \<noteq> slash" "slash # rev d"]
    by (auto simp: join_def)
  then show ?thesis by (simp add: split_path_def)
qed

lemma path_buf_short [simp]: "length s < PATH_MAX \<Longrightarrow> path_buf s = s"
  by (simp add: path_buf_def PATH_MAX_def)

lemma join_neq [simp]: "join d n \<noteq> d" "d \<noteq> join d n"
  by (simp_all add: join_def)

lemma lookup_add_entry:
  "fs_dirs fs d' \<noteq> None \<Longrightarrow> lookup fs d' n' = None \<Longrightarrow>
     lookup (add_entry fs d' n' x) d n = (if d = d' \<and> n = n' then Some x else lookup fs d n)"
  by (auto simp: lookup_def add_entry_def entries_def map_add_def split: option.splits if_splits)

lemma map_of_filter_neq: "map_of (filter (\<lambda>e. fst e \<noteq> n') es) n = (if n = n' then None else map_of es n)"
  by (induction es) auto

lemma lookup_remove_entry:
  "fs_dirs fs d' \<noteq> None \<Longrightarrow> \<not> dot_name n' \<Longrightarrow>
     lookup (remove_entry fs d' n') d n = (if d = d' \<and> n = n' then None else lookup fs d n)"
  by (auto simp: lookup_def remove_entry_def entries_def map_of_filter_neq split: option.splits)

lemma dirs_add_entry [simp]: "fs_dirs (add_entry fs d n x) p = None \<longleftrightarrow> p \<noteq> d \<and> fs_dirs fs p = None"
  by (simp add: add_entry_def)

lemma dirs_remove_entry [simp]: "fs_dirs (remove_entry fs d n) p = None \<longleftrightarrow> p \<noteq> d \<and> fs_dirs fs p = None"
  by (simp add: remove_entry_def)

lemma data_entry [simp]:
  "fs_data (add_entry fs d n x) = fs_data fs" "fs_data (remove_entry fs d n) = fs_data fs"
  by (simp_all add: add_entry_def remove_entry_def)

lemma lookup_dirs: "lookup fs d n \<noteq> None \<Longrightarrow> fs_dirs fs d \<noteq> None"
  by (auto simp: lookup_def split: if_splits)

lemma lookup_dot: "dot_name n \<Longrightarrow> lookup fs d n = None \<or> lookup fs d n = Some Directory"
  by (simp add: lookup_def)

lemma linkat_cases:
  obtains (refused) "linkat R fs d n d' n' = (-1, fs)"
  | (linked) x where "lookup fs d n = Some x" "x \<noteq> Directory" "fs_dirs fs d' \<noteq> None"
      "lookup fs d' n' = None" "linkat R fs d n d' n' = (0, add_entry fs d' n' x)"
proof (cases "linkat R fs d n d' n' = (-1, fs)")
  case True
  then show ?thesis by (rule refused)
next
  case False
  then obtain x where "lookup fs d n = Some x" "x \<noteq> Directory" "fs_dirs fs d' \<noteq> None"
      "lookup fs d' n' = None" "linkat R fs d n d' n' = (0, add_entry fs d' n' x)"
    by (auto simp: linkat_def split: option.splits node.splits if_splits)
  then show ?thesis by (rule linked)
qed

lemma unlinkat_cases:
  obtains (refused) "unlinkat R fs d n = (-1, fs)" "R (Unlinkat d n) \<or> lookup fs d n = None \<or> lookup fs d n = Some Directory"
  | (removed) x where "lookup fs d n = Some x" "x \<noteq> Directory" "fs_dirs fs d \<noteq> None" "\<not> dot_name n"
      "unlinkat R fs d n = (0, remove_entry fs d n)"
proof (cases "unlinkat R fs d n = (-1, fs)")
  case True
  then show ?thesis using refused by (auto simp: unlinkat_def split: if_splits)
next
  case False
  then obtain x where x: "lookup fs d n = Some x" "x \<noteq> Directory"
      "unlinkat R fs d n = (0, remove_entry fs d n)"
    by (auto simp: unlinkat_def split: if_splits)
  then show ?thesis
    using removed [OF x(1,2)] lookup_dirs [of fs d n] lookup_dot [of n fs d] by auto
qed

section \<open>Removing only what is there\<close>

text \<open>Names and files may disappear, in the region \<open>Q\<close> only; nothing else changes.\<close>

definition pruned :: "(string \<Rightarrow> string \<Rightarrow> bool) \<Rightarrow> fs \<Rightarrow> fs \<Rightarrow> bool" where
  "pruned Q fs fs' \<longleftrightarrow>
     fs_wf fs' \<and> fs_data fs' = fs_data fs
     \<and> (\<forall>p m. lookup fs' p m = lookup fs p m \<or> (lookup fs' p m = None \<and> Q p m))"

lemma pruned_refl: "fs_wf fs \<Longrightarrow> pruned Q fs fs"
  by (simp add: pruned_def)

lemma pruned_trans: "pruned Q fs fs' \<Longrightarrow> pruned Q fs' fs'' \<Longrightarrow> pruned Q fs fs''"
  unfolding pruned_def by (metis (no_types))

lemma pruned_mono: "pruned Q fs fs' \<Longrightarrow> (\<And>p m. Q p m \<Longrightarrow> Q' p m) \<Longrightarrow> pruned Q' fs fs'"
  unfolding pruned_def by blast

lemma pruned_lookup: "pruned Q fs fs' \<Longrightarrow> lookup fs' p m = lookup fs p m \<or> (lookup fs' p m = None \<and> Q p m)"
  by (simp add: pruned_def)

lemma pruned_wf: "pruned Q fs fs' \<Longrightarrow> fs_wf fs'"
  by (simp add: pruned_def)

text \<open>The directory \<open>q\<close> and the directories below it, component by component.\<close>

definition inside :: "string \<Rightarrow> string \<Rightarrow> bool" where
  "inside q p \<longleftrightarrow> p = q \<or> prefix (q @ [slash]) p"

definition below :: "string \<Rightarrow> string \<Rightarrow> string \<Rightarrow> string \<Rightarrow> bool" where
  "below d n p m \<longleftrightarrow> (p = d \<and> m = n) \<or> inside (join d n) p"

lemma below_child: "below (join d n) c p m \<Longrightarrow> below d n p m"
  by (auto simp: below_def inside_def join_def prefix_def)

definition entries_wf :: "(string \<times> node) list \<Rightarrow> bool" where
  "entries_wf es \<longleftrightarrow>
     distinct (map fst es) \<and> (\<forall>n\<in>set (map fst es). n \<noteq> [] \<and> slash \<notin> set n \<and> \<not> dot_name n)"

lemma fs_wf_entries: "fs_wf fs \<longleftrightarrow> (\<forall>d es. fs_dirs fs d = Some es \<longrightarrow> entries_wf es)"
  by (simp add: fs_wf_def entries_wf_def)

lemma entries_wf_filter: "entries_wf es \<Longrightarrow> entries_wf (filter P es)"
  by (auto simp: entries_wf_def distinct_map_filter)

lemma entries_wf_entries: "fs_wf fs \<Longrightarrow> entries_wf (entries fs d)"
  by (cases "fs_dirs fs d") (simp_all add: fs_wf_entries entries_def, simp add: entries_wf_def)

lemma fs_wf_remove_entry: "fs_wf fs \<Longrightarrow> fs_wf (remove_entry fs d n)"
  using entries_wf_filter [OF entries_wf_entries] by (simp add: fs_wf_entries remove_entry_def)

lemma fs_wf_remove_dir: "fs_wf fs \<Longrightarrow> fs_wf (fs\<lparr>fs_dirs := (fs_dirs fs)(p := None)\<rparr>)"
  by (simp add: fs_wf_def)

lemma lookup_remove_dir:
  "lookup (fs\<lparr>fs_dirs := (fs_dirs fs)(p := None)\<rparr>) d n = (if d = p then None else lookup fs d n)"
  by (simp add: lookup_def entries_def)

lemma remove_node_pruned: "fs_wf fs \<Longrightarrow> pruned (below d n) fs (remove_node R fs d n)"
proof (cases "remove_node R fs d n = fs")
  case False
  assume wf: "fs_wf fs"
  have dirs: "fs_dirs fs d \<noteq> None" "\<not> dot_name n"
    using False lookup_dirs [of fs d n] lookup_dot [of n fs d]
    by (auto simp: remove_node_def split: option.splits node.splits if_splits)
  consider "remove_node R fs d n = remove_entry fs d n"
    | "remove_node R fs d n = (remove_entry fs d n)\<lparr>fs_dirs := (fs_dirs (remove_entry fs d n))(join d n := None)\<rparr>"
    using False by (auto simp: remove_node_def split: option.splits node.splits if_splits)
  then show ?thesis
    using wf dirs
    by cases (auto simp: pruned_def below_def inside_def fs_wf_remove_entry fs_wf_remove_dir lookup_remove_dir lookup_remove_entry)
qed (simp add: pruned_refl)

lemma fold_pruned:
  assumes "\<And>m fs. m \<in> set ms \<Longrightarrow> fs_wf fs \<Longrightarrow> pruned Q fs (f m fs)" "fs_wf fs"
  shows "pruned Q fs (fold f ms fs)"
  using assms
proof (induction ms arbitrary: fs)
  case (Cons m ms)
  have "pruned Q fs (f m fs)" using Cons.prems by simp
  moreover have "pruned Q (f m fs) (fold f ms (f m fs))"
    using Cons.prems pruned_wf [OF calculation] by (intro Cons.IH) auto
  ultimately show ?case by (simp add: pruned_trans)
qed (simp add: pruned_refl)

lemma remove_tree_pruned: "fs_wf fs \<Longrightarrow> pruned (below d n) fs (remove_tree k R d n fs)"
proof (induction k arbitrary: d n fs)
  case (Suc k)
  let ?fs = "if lookup fs d n = Some Directory \<and> \<not> R (Opendir (join d n))
             then fold (\<lambda>m fs. remove_tree k R (join d n) m fs) (map fst (entries fs (join d n))) fs else fs"
  have "pruned (below d n) fs (fold (\<lambda>m fs. remove_tree k R (join d n) m fs) ms fs)" for ms
    using Suc.prems pruned_mono [OF Suc.IH below_child] by (intro fold_pruned)
  then have "pruned (below d n) fs ?fs"
    using Suc.prems by (simp add: pruned_refl)
  moreover have "pruned (below d n) ?fs (remove_node R ?fs d n)"
    using remove_node_pruned pruned_wf calculation by blast
  ultimately have "pruned (below d n) fs (remove_node R ?fs d n)" by (rule pruned_trans)
  then show ?case by (simp only: remove_tree.simps Let_def)
qed (simp add: pruned_refl)

text \<open>Without refusals a tree of bounded depth goes away.\<close>

fun deep_ok :: "nat \<Rightarrow> fs \<Rightarrow> string \<Rightarrow> string \<Rightarrow> bool" where
  "deep_ok 0 fs d n = False"
| "deep_ok (Suc k) fs d n =
     (lookup fs d n = Some Directory \<longrightarrow> (\<forall>m\<in>fst ` set (entries fs (join d n)). deep_ok k fs (join d n) m))"

lemma entries_iff: "fs_wf fs \<Longrightarrow> n \<in> fst ` set (entries fs d) \<longleftrightarrow> lookup fs d n \<noteq> None \<and> \<not> dot_name n"
proof (cases "fs_dirs fs d")
  case (Some es)
  assume "fs_wf fs"
  with Some have "\<forall>n\<in>fst ` set es. \<not> dot_name n" by (auto simp: fs_wf_def)
  moreover have "n \<in> fst ` set es \<longleftrightarrow> map_of es n \<noteq> None" by (simp add: map_of_eq_None_iff)
  ultimately show ?thesis
    using Some by (cases "dot_name n") (auto simp: lookup_def entries_def simp del: set_map)
qed (simp add: lookup_def entries_def)

lemma deep_ok_pruned: "deep_ok k fs d n \<Longrightarrow> fs_wf fs \<Longrightarrow> pruned Q fs fs' \<Longrightarrow> deep_ok k fs' d n"
proof (induction k arbitrary: d n)
  case (Suc k)
  have "deep_ok k fs' (join d n) m"
    if dir: "lookup fs' d n = Some Directory" and m: "m \<in> fst ` set (entries fs' (join d n))" for m
  proof (rule Suc.IH [OF _ Suc.prems(2,3)])
    have "lookup fs d n = Some Directory"
      using dir pruned_lookup [OF Suc.prems(3), of d n] by auto
    moreover have "m \<in> fst ` set (entries fs (join d n))"
      using m pruned_lookup [OF Suc.prems(3), of "join d n" m] entries_iff [OF Suc.prems(2)]
        entries_iff [OF pruned_wf [OF Suc.prems(3)]] by auto
    ultimately show "deep_ok k fs (join d n) m" using Suc.prems(1) by auto
  qed
  then show ?case by simp
qed simp

lemma fold_removes:
  assumes "\<And>m fs. fs_wf fs \<Longrightarrow> pruned (Q m) fs (f m fs)"
    "\<And>m fs. m \<in> set ms \<Longrightarrow> fs_wf fs \<Longrightarrow> P m fs \<Longrightarrow> lookup (f m fs) d m = None"
    "\<And>m fs fs' Q. P m fs \<Longrightarrow> fs_wf fs \<Longrightarrow> pruned Q fs fs' \<Longrightarrow> P m fs'"
    "fs_wf fs" "\<And>m. m \<in> set ms \<Longrightarrow> P m fs" "m \<in> set ms"
  shows "lookup (fold f ms fs) d m = None"
  using assms(2,4-)
proof (induction ms arbitrary: fs)
  case (Cons k ms)
  have step: "pruned (Q k) fs (f k fs)" using assms(1) Cons.prems by simp
  have rest: "pruned (\<lambda>_ _. True) (f k fs) (fold f ms (f k fs))"
    using assms(1) pruned_wf [OF step] by (intro fold_pruned) (auto intro: pruned_mono)
  show ?case
  proof (cases "m = k")
    case True
    then have "lookup (f k fs) d m = None" using Cons.prems by simp
    then show ?thesis using pruned_lookup [OF rest, of d m] by simp
  next
    case False
    then have "lookup (fold f ms (f k fs)) d m = None"
      using Cons.prems assms(3) [OF _ _ step] pruned_wf [OF step] by (intro Cons.IH) auto
    then show ?thesis by simp
  qed
qed simp

lemma remove_node_gone:
  "\<not> dot_name n \<Longrightarrow> lookup fs d n = Some Directory \<longrightarrow> entries fs (join d n) = [] \<Longrightarrow>
     lookup (remove_node (\<lambda>_. False) fs d n) d n = None"
  using lookup_dirs [of fs d n]
  by (auto simp: remove_node_def lookup_remove_dir lookup_remove_entry split: option.splits node.splits)

lemma remove_tree_removes:
  "fs_wf fs \<Longrightarrow> \<not> dot_name n \<Longrightarrow> deep_ok k fs d n \<Longrightarrow> lookup (remove_tree k (\<lambda>_. False) d n fs) d n = None"
proof (induction k arbitrary: d n fs)
  case (Suc k)
  let ?R = "\<lambda>_. False" and ?f = "\<lambda>m fs. remove_tree k (\<lambda>_. False) (join d n) m fs"
    and ?ms = "map fst (entries fs (join d n))"
  show ?case
  proof (cases "lookup fs d n = Some Directory")
    case False
    then show ?thesis
      using remove_node_gone [OF Suc.prems(2)] by simp
  next
    case True
    let ?fs = "fold ?f ?ms fs"
    have gone: "lookup ?fs (join d n) m = None" if "m \<in> set ?ms" for m
    proof (rule fold_removes [where Q = "below (join d n)" and P = "\<lambda>m fs. deep_ok k fs (join d n) m"])
      show "lookup (?f m' fs') (join d n) m' = None"
        if "m' \<in> set ?ms" "fs_wf fs'" "deep_ok k fs' (join d n) m'" for m' fs'
        using that Suc.IH entries_iff [OF Suc.prems(1)] by auto
      show "deep_ok k fs (join d n) m'" if "m' \<in> set ?ms" for m'
        using that Suc.prems(3) True by auto
      show "pruned (below (join d n) m') fs' (?f m' fs')" if "fs_wf fs'" for m' fs'
        using that by (rule remove_tree_pruned)
      show "deep_ok k fs'' (join d n) m'" if "deep_ok k fs' (join d n) m'" "fs_wf fs'" "pruned Q fs' fs''"
        for m' fs' fs'' Q
        using that by (rule deep_ok_pruned)
    qed (use that Suc.prems(1) in simp_all)
    have pr: "pruned (below d n) fs ?fs"
      using Suc.prems(1) pruned_mono [OF remove_tree_pruned below_child] by (intro fold_pruned)
    have "entries ?fs (join d n) = []"
    proof (rule ccontr)
      assume "entries ?fs (join d n) \<noteq> []"
      then obtain m where m: "m \<in> fst ` set (entries ?fs (join d n))" by (cases "entries ?fs (join d n)") auto
      then have look: "lookup ?fs (join d n) m \<noteq> None" "\<not> dot_name m" using entries_iff pruned_wf [OF pr] by auto
      then have "m \<in> set ?ms"
        using pruned_lookup [OF pr, of "join d n" m] entries_iff [OF Suc.prems(1)] by auto
      from gone [OF this] look(1) show False by simp
    qed
    then have "lookup (remove_node ?R ?fs d n) d n = None"
      using Suc.prems(2) by (intro remove_node_gone) simp_all
    then show ?thesis using True by simp
  qed
qed simp

end
