(* ===== verification/Workspace.thy ===== *)
theory Workspace
  imports Filesystem Objects
begin

text \<open>
  The directories of \<^verbatim>\<open>src/workspace.c\<close>: safe file names, creating and cleaning the workspaces of schedules
  and actions, and moving results from an action to a schedule and from a schedule's incoming
  queue to its active one.
\<close>

section \<open>Safe file names\<close>

definition NAME_MAX :: nat where
  "NAME_MAX = 255"

definition hex_digit :: "nat \<Rightarrow> char" where
  "hex_digit n = ''0123456789ABCDEF'' ! n"

definition safe_char :: "nat \<Rightarrow> char \<Rightarrow> bool" where
  "safe_char i c \<longleftrightarrow> isalnum c \<or> (0 < i \<and> c \<in> set ''-.,_'')"

fun mksafe_loop :: "nat \<Rightarrow> nat \<Rightarrow> nat \<Rightarrow> string \<Rightarrow> string" where
  "mksafe_loop buflen i j [] = []"
| "mksafe_loop buflen i j (c # r) =
     (if \<not> j < buflen - 1 then []
      else if safe_char i c then c # mksafe_loop buflen (i + 1) (j + 1) r
      else if j < NAME_MAX - 4
        then CHR ''%'' # hex_digit (code c div 16) # hex_digit (code c mod 16)
               # mksafe_loop buflen (i + 1) (j + 3) r
        else [])"

definition mksafe :: "string option \<Rightarrow> string" where
  "mksafe name = (case name of None \<Rightarrow> [] | Some s \<Rightarrow> mksafe_loop NAME_MAX 0 0 s)"

section \<open>Removing what is in a workspace\<close>

definition LMAPD_QUEUE_INCOMING_NAME :: string where
  "LMAPD_QUEUE_INCOMING_NAME = ''_incoming''"

definition starts_with :: "char \<Rightarrow> string \<Rightarrow> bool" where
  "starts_with c n \<longleftrightarrow> n \<noteq> [] \<and> hd n = c"

text \<open>The loop over the entries that \<open>lmapd_workspace_clean\<close> and \<open>lmapd_workspace_action_clean\<close> share, up to what they skip.\<close>

fun clean_entries ::
  "(string \<Rightarrow> bool) \<Rightarrow> refusals \<Rightarrow> string \<Rightarrow> string list \<Rightarrow> int \<times> fs \<Rightarrow> int \<times> fs" where
  "clean_entries skip R d [] (ret, fs) = (ret, fs)"
| "clean_entries skip R d (n # ns) (ret, fs) =
     (if skip n then clean_entries skip R d ns (ret, fs)
      else (case remove_path R fs (path_buf (join d n)) of
              (c, fs') \<Rightarrow> clean_entries skip R d ns (if c \<noteq> 0 then -1 else ret, fs')))"

definition lmapd_workspace_clean :: "refusals \<Rightarrow> lmapd \<Rightarrow> fs \<Rightarrow> int \<times> fs" where
  "lmapd_workspace_clean R l fs =
     (case ld_queue_path l of
        None \<Rightarrow> (0, fs)
      | Some q \<Rightarrow>
          (case opendir R fs q of
             None \<Rightarrow> (-1, fs)
           | Some ns \<Rightarrow> clean_entries dot_name R q ns (0, fs)))"

definition lmapd_workspace_action_clean :: "refusals \<Rightarrow> action option \<Rightarrow> fs \<Rightarrow> int \<times> fs" where
  "lmapd_workspace_action_clean R a fs =
     (case Option.bind a act_workspace of
        None \<Rightarrow> (0, fs)
      | Some w \<Rightarrow>
          (case opendir R fs w of
             None \<Rightarrow> (-1, fs)
           | Some ns \<Rightarrow>
               clean_entries (\<lambda>n. dot_name n \<or> starts_with (CHR ''_'') n) R w ns (0, fs)))"

fun unlink_files :: "refusals \<Rightarrow> string \<Rightarrow> string list \<Rightarrow> int \<times> fs \<Rightarrow> int \<times> fs" where
  "unlink_files R d [] (ret, fs) = (ret, fs)"
| "unlink_files R d (n # ns) (ret, fs) =
     (if starts_with (CHR ''_'') n then unlink_files R d ns (ret, fs)
      else if fstatat R fs d n = None \<or> fstatat R fs d n = Some Directory
        then unlink_files R d ns (ret, fs)
      else (case unlinkat R fs d n of
              (c, fs') \<Rightarrow> unlink_files R d ns (if c \<noteq> 0 then -1 else ret, fs')))"

definition lmapd_workspace_schedule_clean :: "refusals \<Rightarrow> schedule option \<Rightarrow> fs \<Rightarrow> int \<times> fs" where
  "lmapd_workspace_schedule_clean R s fs =
     (case Option.bind s sched_workspace of
        None \<Rightarrow> (0, fs)
      | Some w \<Rightarrow>
          (case opendir R fs w of
             None \<Rightarrow> (-1, fs)
           | Some ns \<Rightarrow> unlink_files R w ns (0, fs)))"

section \<open>Storage in use\<close>

text \<open>
  \<open>walk p\<close> is what \<open>nftw\<close> visits under \<open>p\<close>: for each node whether it is \<open>FTW_F\<close>, and its \<open>st_blocks\<close>;
  \<open>None\<close> when \<open>nftw\<close> returns -1. It reads the first character of the path, which must not be \<open>NULL\<close>.
\<close>

type_synonym tree_walk = "string \<Rightarrow> (bool \<times> 64 word) list option"

definition du_cb :: "bool \<times> 64 word \<Rightarrow> 64 word \<Rightarrow> 64 word" where
  "du_cb v du_blocks = (if fst v then du_blocks + snd v else du_blocks)"

definition du :: "tree_walk \<Rightarrow> string option \<Rightarrow> 64 word \<Rightarrow> (int \<times> 64 word) outcome" where
  "du walk path storage =
     (case path of
        None \<Rightarrow> Inl Null_Deref
      | Some p \<Rightarrow>
          (case walk p of None \<Rightarrow> Inr (-1, storage) | Some vs \<Rightarrow> Inr (0, fold du_cb vs 0 * 512)))"

fun update_actions :: "tree_walk \<Rightarrow> action list \<Rightarrow> int \<Rightarrow> (int \<times> action list) outcome" where
  "update_actions walk [] ret = Inr (ret, [])"
| "update_actions walk (a # as) ret =
     obind (du walk (act_workspace a) (act_storage a))
       (\<lambda>(c, n). obind (update_actions walk as (if c = -1 then -1 else ret))
          (\<lambda>(ret', as'). Inr (ret', a\<lparr>act_storage := n\<rparr> # as')))"

fun update_schedules :: "tree_walk \<Rightarrow> schedule list \<Rightarrow> int \<Rightarrow> (int \<times> schedule list) outcome" where
  "update_schedules walk [] ret = Inr (ret, [])"
| "update_schedules walk (s # ss) ret =
     obind (du walk (sched_workspace s) (sched_storage s))
       (\<lambda>(c, n). obind (update_actions walk (sched_actions s) (if c = -1 then -1 else ret))
          (\<lambda>(ret', as). obind (update_schedules walk ss ret')
             (\<lambda>(ret'', ss'). Inr (ret'', s\<lparr>sched_storage := n, sched_actions := as\<rparr> # ss'))))"

definition lmapd_workspace_update :: "tree_walk \<Rightarrow> lmapd \<Rightarrow> (int \<times> lmapd) outcome" where
  "lmapd_workspace_update walk l =
     (case ld_lmap l of
        None \<Rightarrow> Inr (0, l)
      | Some m \<Rightarrow>
          obind (update_schedules walk (lm_schedules m) 0)
            (\<lambda>(ret, ss). Inr (ret, l\<lparr>ld_lmap := Some (m\<lparr>lm_schedules := ss\<rparr>)\<rparr>)))"

section \<open>Moving results\<close>

text \<open>\<open>strrchr\<close>: what follows the last occurrence of the character, with the character.\<close>

definition strrchr :: "char \<Rightarrow> string \<Rightarrow> string option" where
  "strrchr c s =
     (if c \<in> set s then Some (c # rev (takeWhile (\<lambda>x. x \<noteq> c) (rev s))) else None)"

definition is_meta_name :: "string \<Rightarrow> bool" where
  "is_meta_name n \<longleftrightarrow> strrchr (CHR ''.'') n = Some ''.meta''"

definition data_name :: "string \<Rightarrow> string" where
  "data_name n = take (length n - 4) n @ ''data''"

text \<open>
  The loop of \<open>lmapd_workspace_schedule_move\<close> over the names in the incoming queue \<open>src\<close>. Ending
  the loop early is the case without a recursive call.
\<close>

fun move_pairs :: "refusals \<Rightarrow> string \<Rightarrow> string \<Rightarrow> string list \<Rightarrow> fs \<Rightarrow> fs" where
  "move_pairs R src dst [] fs = fs"
| "move_pairs R src dst (n # ns) fs =
     (if starts_with (CHR ''.'') n \<or> \<not> is_meta_name n then move_pairs R src dst ns fs
      else if \<not> is_regular (fstatat R fs src n) then move_pairs R src dst ns fs
      else if \<not> is_regular (fstatat R fs src (data_name n)) then move_pairs R src dst ns fs
      else (case linkat R fs src (data_name n) dst (data_name n) of
              (c1, fs1) \<Rightarrow>
                if c1 \<noteq> 0 then move_pairs R src dst ns fs1
                else (case linkat R fs1 src n dst n of
                        (c2, fs2) \<Rightarrow>
                          if c2 \<noteq> 0 then snd (unlinkat R fs2 dst (data_name n))
                          else move_pairs R src dst ns
                                 (snd (unlinkat R (snd (unlinkat R fs2 src n)) src (data_name n))))))"

definition lmapd_workspace_schedule_move :: "refusals \<Rightarrow> schedule option \<Rightarrow> fs \<Rightarrow> int \<times> fs" where
  "lmapd_workspace_schedule_move R s fs =
     (case Option.bind s sched_workspace of
        None \<Rightarrow> (0, fs)
      | Some w \<Rightarrow>
          if \<not> open_directory R fs w then (-1, fs)
          else let src = path_buf (join w LMAPD_QUEUE_INCOMING_NAME)
               in case opendir R fs src of
                    None \<Rightarrow> (-1, fs)
                  | Some ns \<Rightarrow> (0, move_pairs R src w ns fs))"

fun link_files ::
  "refusals \<Rightarrow> string \<Rightarrow> (string \<Rightarrow> string) \<Rightarrow> string list \<Rightarrow> int \<times> fs \<Rightarrow> int \<times> fs" where
  "link_files R w newpath [] (ret, fs) = (ret, fs)"
| "link_files R w newpath (n # ns) (ret, fs) =
     (if \<not> is_regular (fstatat R fs w n) then link_files R w newpath ns (ret, fs)
      else if starts_with (CHR ''_'') n \<or> starts_with (CHR ''.'') n
        then link_files R w newpath ns (ret, fs)
      else (case link R fs (path_buf (join w n)) (newpath n) of
              (c, fs') \<Rightarrow> link_files R w newpath ns (if c < 0 then -1 else ret, fs')))"

text \<open>
  \<open>own\<close> says that the destination is the schedule the action belongs to: the code compares the
  pointers.
\<close>

definition lmapd_workspace_action_move ::
  "refusals \<Rightarrow> schedule option \<Rightarrow> action option \<Rightarrow> schedule option \<Rightarrow> bool \<Rightarrow> bool \<Rightarrow> fs \<Rightarrow> int \<times> fs" where
  "lmapd_workspace_action_move R s a dest own defer fs =
     (case (Option.bind s sched_name, Option.bind a act_workspace, Option.bind a act_name,
            Option.bind dest sched_workspace) of
        (Some _, Some w, Some _, Some dw) \<Rightarrow>
          if defer \<and> \<not> own then (1, fs)
          else (case opendir R fs w of
                  None \<Rightarrow> (-1, fs)
                | Some ns \<Rightarrow>
                    link_files R w
                      (\<lambda>n. path_buf (if own then join dw n
                                      else join (join dw LMAPD_QUEUE_INCOMING_NAME) n))
                      ns (0, fs))
      | _ \<Rightarrow> (0, fs))"

section \<open>Creating the workspaces\<close>

definition mkdir_ok :: "refusals \<Rightarrow> fs \<Rightarrow> string \<Rightarrow> bool \<times> fs" where
  "mkdir_ok R fs p = (case mkdir R fs p of (r, fs') \<Rightarrow> (r \<noteq> Failed, fs'))"

text \<open>A workspace that is not set is printed as glibc prints \<open>NULL\<close>.\<close>

definition print_path :: "string option \<Rightarrow> string" where
  "print_path p = (case p of None \<Rightarrow> ''(null)'' | Some s \<Rightarrow> s)"

fun init_actions ::
  "refusals \<Rightarrow> string option \<Rightarrow> action list \<Rightarrow> int \<times> fs \<Rightarrow> (int \<times> fs) \<times> action list" where
  "init_actions R w [] acc = (acc, [])"
| "init_actions R w (a # as) (ret, fs) =
     (if act_name a = None
      then (case init_actions R w as (ret, fs) of (acc, as') \<Rightarrow> (acc, a # as'))
      else let p = path_buf (join (print_path w) (mksafe (act_name a)))
           in case mkdir_ok R fs p of
                (False, fs') \<Rightarrow>
                  (case init_actions R w as (-1, fs') of (acc, as') \<Rightarrow> (acc, a # as'))
              | (True, fs') \<Rightarrow>
                  (case init_actions R w as (ret, fs') of
                     (acc, as') \<Rightarrow> (acc, snd (lmap_action_set_workspace a (Some p)) # as')))"

definition init_schedule ::
  "refusals \<Rightarrow> string \<Rightarrow> schedule \<Rightarrow> int \<times> fs \<Rightarrow> (int \<times> fs) \<times> schedule" where
  "init_schedule R q s acc =
     (if sched_name s = None then (acc, s)
      else let p = path_buf (join q (mksafe (sched_name s)));
               (made, fs1) = mkdir_ok R (snd acc) p;
               s1 = snd (lmap_schedule_set_workspace s (Some p));
               ((ret2, fs2), as) =
                 init_actions R (sched_workspace s1) (sched_actions s1)
                   (if made then fst acc else -1, fs1);
               (made3, fs3) =
                 mkdir_ok R fs2
                   (path_buf (join (print_path (sched_workspace s1)) LMAPD_QUEUE_INCOMING_NAME))
           in ((if made3 then ret2 else -1, fs3), s1\<lparr>sched_actions := as\<rparr>))"

fun init_schedules ::
  "refusals \<Rightarrow> string \<Rightarrow> schedule list \<Rightarrow> int \<times> fs \<Rightarrow> (int \<times> fs) \<times> schedule list" where
  "init_schedules R q [] acc = (acc, [])"
| "init_schedules R q (s # ss) acc =
     (case init_schedule R q s acc of
        (acc', s') \<Rightarrow> (case init_schedules R q ss acc' of (acc'', ss') \<Rightarrow> (acc'', s' # ss')))"

definition lmapd_workspace_init :: "refusals \<Rightarrow> lmapd \<Rightarrow> fs \<Rightarrow> (int \<times> fs) \<times> lmapd" where
  "lmapd_workspace_init R l fs =
     (case (ld_lmap l, ld_queue_path l) of
        (Some m, Some q) \<Rightarrow>
          (case init_schedules R q (lm_schedules m) (0, fs) of
             (acc, ss) \<Rightarrow> (acc, l\<lparr>ld_lmap := Some (m\<lparr>lm_schedules := ss\<rparr>)\<rparr>))
      | _ \<Rightarrow> ((0, fs), l))"
section \<open>Safe names are safe and distinct\<close>

text \<open>Reading a safe name back: \<open>%XX\<close> stands for the character with that code.\<close>

definition hex_value :: "char \<Rightarrow> nat" where
  "hex_value c = (if isdigit c then code c - 48 else code c - 55)"

fun unsafe_name :: "string \<Rightarrow> string" where
  "unsafe_name [] = []"
| "unsafe_name (c # r) =
     (if c = CHR ''%'' then
        (case r of
           h # l # r' \<Rightarrow> char_of (16 * hex_value h + hex_value l) # unsafe_name r'
         | _ \<Rightarrow> [])
      else c # unsafe_name r)"

lemma hex_value_digit [simp]: "n < 16 \<Longrightarrow> hex_value (hex_digit n) = n"
proof -
  assume "n < 16"
  then have "n \<in> set [0..<16]" by simp
  moreover have "list_all (\<lambda>k. hex_value (hex_digit k) = k) [0..<16]" by code_simp
  ultimately show ?thesis by (auto simp: list_all_iff)
qed

lemma isalnum_hex: "n < 16 \<Longrightarrow> isalnum (hex_digit n)"
proof -
  assume "n < 16"
  then have "n \<in> set [0..<16]" by simp
  moreover have "list_all (\<lambda>k. isalnum (hex_digit k)) [0..<16]" by code_simp
  ultimately show ?thesis by (auto simp: list_all_iff)
qed

lemma percent_not_safe [simp]: "\<not> safe_char i (CHR ''%'')"
  by (simp add: safe_char_def isalnum_def isalpha_def isdigit_def code_def)

lemma unsafe_mksafe_loop: "j + 3 * length s \<le> NAME_MAX - 2 \<Longrightarrow> unsafe_name (mksafe_loop NAME_MAX i j s) = s"
proof (induction s arbitrary: i j)
  case (Cons c s)
  have "safe_char i c \<Longrightarrow> c \<noteq> CHR ''%''" by auto
  moreover have "code c div 16 < 16" "code c mod 16 < 16"
    using code_less [of c] by (simp_all add: less_mult_imp_div_less)
  moreover have "char_of (16 * (code c div 16) + code c mod 16) = c"
    by (simp add: code_def)
  moreover have "unsafe_name (mksafe_loop NAME_MAX (i + 1) (j + 1) s) = s"
    "unsafe_name (mksafe_loop NAME_MAX (i + 1) (j + 3) s) = s"
    using Cons.prems by (intro Cons.IH; simp)+
  ultimately show ?case
    using Cons.prems by (simp add: NAME_MAX_def)
qed simp

lemma mksafe_inj_short: "length s \<le> 84 \<Longrightarrow> unsafe_name (mksafe (Some s)) = s"
  unfolding mksafe_def using unsafe_mksafe_loop [of 0 s 0] by (simp add: NAME_MAX_def)

lemma mksafe_loop_chars:
  "c \<in> set (mksafe_loop NAME_MAX i j s) \<Longrightarrow> isalnum c \<or> c \<in> set ''-.,_%''"
proof (induction s arbitrary: i j)
  case (Cons x s)
  have "code x div 16 < 16" "code x mod 16 < 16"
    using code_less [of x] by (simp_all add: less_mult_imp_div_less)
  with Cons isalnum_hex show ?case
    by (auto simp: safe_char_def split: if_splits)
qed simp

lemma mksafe_loop_length: "j \<le> NAME_MAX - 1 \<Longrightarrow> j + length (mksafe_loop NAME_MAX i j s) \<le> NAME_MAX - 1"
proof (induction s arbitrary: i j)
  case (Cons c s)
  show ?case
    using Cons.prems Cons.IH [of "j + 1" "i + 1"] Cons.IH [of "j + 3" "i + 1"]
    by (auto simp: NAME_MAX_def)
qed simp

lemma mksafe_loop_hd:
  "mksafe_loop NAME_MAX 0 0 s \<noteq> [] \<Longrightarrow> isalnum (hd (mksafe_loop NAME_MAX 0 0 s)) \<or> hd (mksafe_loop NAME_MAX 0 0 s) = CHR ''%''"
  by (cases s) (auto simp: safe_char_def split: if_splits)

lemma isalnum_not: "isalnum c \<Longrightarrow> c \<noteq> slash \<and> c \<noteq> CHR ''.'' \<and> c \<noteq> CHR ''_''"
  by (auto simp: isalnum_def isalpha_def isdigit_def code_def)

text \<open>
  C31. A safe name fits into \<open>NAME_MAX\<close> bytes, consists of alphanumeric characters and \<open>-.,_%\<close> only, so that it has
  no slash, and does not start with a dot or an underscore; and names of up to 84 characters get
  different safe names.
\<close>

theorem mksafe_safe_distinct:
  "length (mksafe n) < NAME_MAX
   \<and> (\<forall>c. c \<in> set (mksafe n) \<longrightarrow> isalnum c \<or> c \<in> set ''-.,_%'')
   \<and> \<not> starts_with (CHR ''.'') (mksafe n) \<and> \<not> starts_with (CHR ''_'') (mksafe n)
   \<and> (length s \<le> 84 \<longrightarrow> length t \<le> 84 \<longrightarrow> mksafe (Some s) = mksafe (Some t) \<longrightarrow> s = t)"
proof (intro conjI impI allI)
  show "length (mksafe n) < NAME_MAX"
    using mksafe_loop_length [of 0 0] by (cases n) (auto simp: mksafe_def NAME_MAX_def Suc_le_lessD less_Suc_eq_le)
  show "isalnum c \<or> c \<in> set ''-.,_%''" if "c \<in> set (mksafe n)" for c
    using that mksafe_loop_chars [of c 0 0] by (cases n) (auto simp: mksafe_def)
  show "\<not> starts_with (CHR ''.'') (mksafe n)" "\<not> starts_with (CHR ''_'') (mksafe n)"
    using mksafe_loop_hd isalnum_not by (cases n; fastforce simp: mksafe_def starts_with_def)+
  show "s = t" if "length s \<le> 84" "length t \<le> 84" "mksafe (Some s) = mksafe (Some t)"
    using mksafe_inj_short that by metis
qed

theorem mksafe_safe_distinct_witness:
  "mksafe (Some ''a b'') \<noteq> mksafe (Some ''a%20b'') \<and> starts_with (CHR ''%'') (mksafe (Some ''_x''))"
proof
  show "mksafe (Some ''a b'') \<noteq> mksafe (Some ''a%20b'')"
    using mksafe_safe_distinct [of None "''a b''" "''a%20b''"] by auto
  show "starts_with (CHR ''%'') (mksafe (Some ''_x''))" by code_simp
qed
section \<open>Moving the incoming queue\<close>

text \<open>
  What a sequence of links from \<open>src\<close> to \<open>dst\<close> and of unlinks in \<open>src\<close> may do: a file leaves \<open>src\<close> only
  once it is in \<open>dst\<close>, nothing in \<open>dst\<close> is lost or replaced, and the rest stays.
\<close>

definition moved :: "string \<Rightarrow> string \<Rightarrow> fs \<Rightarrow> fs \<Rightarrow> bool" where
  "moved src dst fs fs' \<longleftrightarrow>
     (\<forall>n. lookup fs' src n = lookup fs src n
          \<or> (lookup fs' src n = None \<and> lookup fs' dst n = lookup fs src n))
     \<and> (\<forall>n. lookup fs' dst n = lookup fs dst n
          \<or> (lookup fs dst n = None \<and> lookup fs' dst n = lookup fs src n))
     \<and> (\<forall>d n. d \<noteq> src \<longrightarrow> d \<noteq> dst \<longrightarrow> lookup fs' d n = lookup fs d n)
     \<and> fs_data fs' = fs_data fs"

lemma moved_refl [simp]: "moved src dst fs fs"
  by (simp add: moved_def)

lemma moved_trans:
  assumes "moved src dst fs fs'" "moved src dst fs' fs''"
  shows "moved src dst fs fs''"
  unfolding moved_def
proof (intro conjI allI impI)
  fix n
  show "lookup fs'' src n = lookup fs src n
      \<or> (lookup fs'' src n = None \<and> lookup fs'' dst n = lookup fs src n)"
    using assms unfolding moved_def by metis
  show "lookup fs'' dst n = lookup fs dst n
      \<or> (lookup fs dst n = None \<and> lookup fs'' dst n = lookup fs src n)"
    using assms unfolding moved_def by metis
next
  show "lookup fs'' d n = lookup fs d n" if "d \<noteq> src" "d \<noteq> dst" for d n
    using assms that unfolding moved_def by simp
  show "fs_data fs'' = fs_data fs"
    using assms unfolding moved_def by simp
qed

lemma moved_linkat: "src \<noteq> dst \<Longrightarrow> moved src dst fs (snd (linkat R fs src n dst n))"
  by (rule linkat_cases [of R fs src n dst n]) (auto simp: moved_def lookup_add_entry)

lemma moved_unlinkat:
  "src \<noteq> dst \<Longrightarrow> lookup fs dst n = lookup fs src n \<Longrightarrow> moved src dst fs (snd (unlinkat R fs src n))"
  by (rule unlinkat_cases [of R fs src n]) (auto simp: moved_def lookup_remove_entry)

lemma linkat_done:
  "linkat R fs d n d' n' = (0, fs') \<Longrightarrow>
     \<exists>x. lookup fs d n = Some x \<and> lookup fs d' n' = None \<and> fs_dirs fs d' \<noteq> None \<and> \<not> dot_name n'
       \<and> fs' = add_entry fs d' n' x"
  by (rule linkat_cases [of R fs d n d' n']) (auto simp: lookup_def split: if_splits)

lemma linkat_failed: "linkat R fs d n d' n' = (c, fs') \<Longrightarrow> c \<noteq> 0 \<Longrightarrow> fs' = fs"
  by (rule linkat_cases [of R fs d n d' n']) auto

lemma is_meta_nameD: "is_meta_name n \<Longrightarrow> \<exists>b. n = b @ ''.meta''"
proof -
  assume "is_meta_name n"
  then have "rev (takeWhile (\<lambda>x. x \<noteq> CHR ''.'') (rev n)) = ''meta''" "CHR ''.'' \<in> set (rev n)"
    by (auto simp: is_meta_name_def strrchr_def split: if_splits)
  then have t: "takeWhile (\<lambda>x. x \<noteq> CHR ''.'') (rev n) = rev ''meta''"
    and "dropWhile (\<lambda>x. x \<noteq> CHR ''.'') (rev n) \<noteq> []"
    by (auto simp: dropWhile_eq_Nil_conv simp flip: rev_swap)
  then obtain r where "dropWhile (\<lambda>x. x \<noteq> CHR ''.'') (rev n) = CHR ''.'' # r"
    using hd_dropWhile [of "\<lambda>x. x \<noteq> CHR ''.''" "rev n"]
    by (cases "dropWhile (\<lambda>x. x \<noteq> CHR ''.'') (rev n)") auto
  with t have "rev n = rev ''meta'' @ CHR ''.'' # r"
    using takeWhile_dropWhile_id by metis
  then have "n = rev r @ ''.meta''"
    by (metis rev_rev_ident rev_append append.assoc rev.simps(2) append_Cons append_Nil)
  then show ?thesis by blast
qed

lemma data_name_meta [simp]: "data_name (b @ ''.meta'') = b @ ''.data''"
  by (simp add: data_name_def)

lemma data_name_not_meta: "is_meta_name n \<Longrightarrow> is_meta_name m \<Longrightarrow> data_name m \<noteq> n"
  by (drule is_meta_nameD)+ auto

lemma data_name_inj: "is_meta_name n \<Longrightarrow> is_meta_name m \<Longrightarrow> data_name m = data_name n \<longleftrightarrow> m = n"
  by (drule is_meta_nameD)+ auto

lemma data_name_not_dot: "is_meta_name n \<Longrightarrow> \<not> dot_name (data_name n)"
  by (drule is_meta_nameD) (auto simp: dot_name_def append_eq_Cons_conv)

text \<open>One turn of the loop, and whether the loop goes on after it.\<close>

definition move_pair :: "refusals \<Rightarrow> string \<Rightarrow> string \<Rightarrow> string \<Rightarrow> fs \<Rightarrow> bool \<times> fs" where
  "move_pair R src dst n fs =
     (if starts_with (CHR ''.'') n \<or> \<not> is_meta_name n
         \<or> \<not> is_regular (fstatat R fs src n) \<or> \<not> is_regular (fstatat R fs src (data_name n))
      then (True, fs)
      else (case linkat R fs src (data_name n) dst (data_name n) of
              (c1, fs1) \<Rightarrow>
                if c1 \<noteq> 0 then (True, fs1)
                else (case linkat R fs1 src n dst n of
                        (c2, fs2) \<Rightarrow>
                          if c2 \<noteq> 0 then (False, snd (unlinkat R fs2 dst (data_name n)))
                          else (True, snd (unlinkat R (snd (unlinkat R fs2 src n)) src (data_name n))))))"

lemma move_pairs_Cons:
  "move_pairs R src dst (n # ns) fs =
     (case move_pair R src dst n fs of (go, fs') \<Rightarrow> if go then move_pairs R src dst ns fs' else fs')"
  by (simp add: move_pair_def split: prod.split)

lemma map_of_None_filter: "map_of es n = None \<Longrightarrow> filter (\<lambda>e. fst e \<noteq> n) es = es"
  by (induction es) (auto split: if_splits)

lemma remove_add_entry:
  "lookup fs d n = None \<Longrightarrow> fs_dirs fs d \<noteq> None \<Longrightarrow> remove_entry (add_entry fs d n x) d n = fs"
  by (auto simp: lookup_def remove_entry_def add_entry_def entries_def map_of_None_filter fun_upd_idem
      split: if_splits)

text \<open>What a turn does: nothing, the whole move, or the first link alone when its rollback is refused.\<close>

lemma move_pair_cases:
  assumes "src \<noteq> dst"
  obtains (same) go where "move_pair R src dst n fs = (go, fs)"
  | (data) "move_pair R src dst n fs
        = (False, snd (linkat R fs src (data_name n) dst (data_name n)))"
      "R (Unlinkat dst (data_name n))" "is_meta_name n" "is_regular (lookup fs src n)" "is_regular (lookup fs src (data_name n))"
      "R (Linkat dst n) \<or> lookup fs dst n \<noteq> None"
  | (pair) fs2 where "move_pair R src dst n fs
        = (True, snd (unlinkat R (snd (unlinkat R fs2 src n)) src (data_name n)))" "is_meta_name n"
      "\<And>d m. lookup fs2 d m = (if d = dst \<and> m \<in> {n, data_name n} then lookup fs src m else lookup fs d m)"
      "fs_data fs2 = fs_data fs" "is_regular (lookup fs src n)" "is_regular (lookup fs src (data_name n))"
      "lookup fs dst n = None" "lookup fs dst (data_name n) = None"
proof (cases "starts_with (CHR ''.'') n \<or> \<not> is_meta_name n
    \<or> \<not> is_regular (fstatat R fs src n) \<or> \<not> is_regular (fstatat R fs src (data_name n))")
  case True
  then show ?thesis using same [of True] by (simp add: move_pair_def)
next
  case go: False
  then have reg: "is_regular (lookup fs src n)" "is_regular (lookup fs src (data_name n))"
    and meta: "is_meta_name n"
    by (auto simp: fstatat_def is_regular_def split: if_splits)
  let ?l1 = "linkat R fs src (data_name n) dst (data_name n)"
  obtain c1 fs1 where l1: "?l1 = (c1, fs1)" by fastforce
  show ?thesis
  proof (cases "c1 = 0")
    case False
    then show ?thesis using same [of True] l1 go linkat_failed [OF l1] by (simp add: move_pair_def)
  next
    case True
    then obtain x where x: "lookup fs src (data_name n) = Some x" "lookup fs dst (data_name n) = None"
        "fs_dirs fs dst \<noteq> None" "\<not> dot_name (data_name n)" "fs1 = add_entry fs dst (data_name n) x"
      using linkat_done [of R fs src "data_name n" dst "data_name n"] l1 by auto
    obtain c2 fs2 where l2: "linkat R fs1 src n dst n = (c2, fs2)" by fastforce
    have step: "move_pair R src dst n fs =
        (if c2 \<noteq> 0 then (False, snd (unlinkat R fs2 dst (data_name n)))
         else (True, snd (unlinkat R (snd (unlinkat R fs2 src n)) src (data_name n))))"
      using go l1 l2 True by (simp add: move_pair_def)
    have neq: "data_name n \<noteq> n" using data_name_not_meta meta by blast
    show ?thesis
    proof (cases "c2 = 0")
      case False
      then have fs2: "fs2 = fs1" using linkat_failed [OF l2] by simp
      show ?thesis
      proof (cases "R (Unlinkat dst (data_name n))")
        case True
        then have last: "snd (unlinkat R fs2 dst (data_name n)) = fs1" by (simp add: unlinkat_def fs2)
        have "R (Linkat dst n) \<or> lookup fs1 dst n \<noteq> None"
          using l2 False reg(1) x assms
          by (auto simp: linkat_def lookup_add_entry is_regular_def split: option.splits node.splits if_splits)
        then have "R (Linkat dst n) \<or> lookup fs dst n \<noteq> None" using x neq by (auto simp: lookup_add_entry)
        then show ?thesis using data True step False l1 last meta reg by simp
      next
        case unl: False
        have "lookup fs1 dst (data_name n) = Some x"
          using x by (simp add: lookup_add_entry)
        moreover have "x \<noteq> Directory" using reg(2) x(1) by (auto simp: is_regular_def)
        ultimately have "snd (unlinkat R fs2 dst (data_name n)) = fs"
          using unl x by (simp add: unlinkat_def fs2 remove_add_entry)
        then show ?thesis using same [of False] step False by simp
      qed
    next
      case True
      then obtain y where y: "lookup fs1 src n = Some y" "lookup fs1 dst n = None"
          "fs_dirs fs1 dst \<noteq> None" "fs2 = add_entry fs1 dst n y"
        using linkat_done [of R fs1 src n dst n] l2 by auto
      have n: "lookup fs src n = Some y" "lookup fs dst n = None"
        using y(1,2) x neq assms by (auto simp: lookup_add_entry)
      have "lookup fs2 d m = (if d = dst \<and> m \<in> {n, data_name n} then lookup fs src m else lookup fs d m)" for d m
        using x y n neq by (auto simp: lookup_add_entry)
      then show ?thesis using pair [of fs2] step True meta reg n x y by simp
    qed
  qed
qed
lemma moved_dst: "moved src dst fs fs' \<Longrightarrow>
    lookup fs' dst n = lookup fs dst n \<or> (lookup fs dst n = None \<and> lookup fs' dst n = lookup fs src n)"
  by (simp add: moved_def)

lemma moved_src: "moved src dst fs fs' \<Longrightarrow>
    lookup fs' src n = lookup fs src n \<or> (lookup fs' src n = None \<and> lookup fs' dst n = lookup fs src n)"
  by (simp add: moved_def)

lemma move_pair_moved:
  assumes "src \<noteq> dst" "move_pair R src dst n fs = (go, fs')"
  shows "moved src dst fs fs'"
proof (rule move_pair_cases [OF assms(1), of R n fs])
  show "moved src dst fs fs'" if "move_pair R src dst n fs = (g, fs)" for g
    using that assms(2) by simp
  show "moved src dst fs fs'"
    if "move_pair R src dst n fs = (False, snd (linkat R fs src (data_name n) dst (data_name n)))"
    using that assms moved_linkat by simp
next
  fix fs2
  let ?fs3 = "snd (unlinkat R fs2 src n)"
  assume pair: "move_pair R src dst n fs = (True, snd (unlinkat R ?fs3 src (data_name n)))" "is_meta_name n"
    and look: "\<And>d m. lookup fs2 d m =
          (if d = dst \<and> m \<in> {n, data_name n} then lookup fs src m else lookup fs d m)"
    and data: "fs_data fs2 = fs_data fs"
    and new: "lookup fs dst n = None" "lookup fs dst (data_name n) = None"
  have 1: "moved src dst fs fs2"
    unfolding moved_def using assms(1) data new by (simp add: look)
  have 2: "moved src dst fs2 ?fs3"
    using assms(1) by (intro moved_unlinkat) (simp_all add: look)
  have "lookup ?fs3 dst (data_name n) = lookup ?fs3 src (data_name n)"
    using assms(1) data_name_not_meta [OF pair(2) pair(2)]
    by (rule_tac unlinkat_cases [of R fs2 src n]) (auto simp: look lookup_remove_entry)
  then have 3: "moved src dst ?fs3 (snd (unlinkat R ?fs3 src (data_name n)))"
    using assms(1) by (intro moved_unlinkat)
  show "moved src dst fs fs'"
    using moved_trans [OF moved_trans [OF 1 2] 3] pair(1) assms(2) by simp
qed

lemma move_pairs_moved: "src \<noteq> dst \<Longrightarrow> moved src dst fs (move_pairs R src dst ns fs)"
proof (induction ns arbitrary: fs)
  case (Cons n ns)
  then show ?case
    unfolding move_pairs_Cons
    using move_pair_moved [OF Cons.prems] moved_trans by (fastforce split: prod.split)
qed simp

text \<open>The names that are new in a directory.\<close>

definition newly :: "string \<Rightarrow> fs \<Rightarrow> fs \<Rightarrow> string set" where
  "newly d fs fs' = {n. lookup fs d n = None \<and> lookup fs' d n \<noteq> None}"

lemma newly_same [simp]: "newly d fs fs = {}"
  by (auto simp: newly_def)

lemma newly_trans:
  "moved src d fs fs' \<Longrightarrow> moved src d fs' fs'' \<Longrightarrow> newly d fs fs'' = newly d fs fs' \<union> newly d fs' fs''"
proof -
  assume 1: "moved src d fs fs'" and 2: "moved src d fs' fs''"
  have "n \<in> newly d fs fs'' \<longleftrightarrow> n \<in> newly d fs fs' \<or> n \<in> newly d fs' fs''" for n
  proof -
    have "lookup fs' d n = lookup fs d n \<or> lookup fs d n = None"
      using moved_dst [OF 1, of n] by (elim disjE) simp_all
    moreover have "lookup fs'' d n = lookup fs' d n \<or> lookup fs' d n = None"
      using moved_dst [OF 2, of n] by (elim disjE) simp_all
    ultimately show ?thesis unfolding newly_def mem_Collect_eq by metis
  qed
  then show ?thesis by blast
qed

text \<open>
  What arrives are pairs, and perhaps one data file: its meta file could not be linked and the removal of the data file was
  refused then. Its pair is still complete in the incoming queue.
\<close>

definition pairs_of :: "string \<Rightarrow> fs \<Rightarrow> string set \<Rightarrow> bool" where
  "pairs_of src fs M \<longleftrightarrow>
     (\<forall>m\<in>M. is_meta_name m \<and> is_regular (lookup fs src m) \<and> is_regular (lookup fs src (data_name m)))"

definition left_over :: "refusals \<Rightarrow> string \<Rightarrow> string \<Rightarrow> fs \<Rightarrow> string \<Rightarrow> bool" where
  "left_over R src dst fs n \<longleftrightarrow>
     pairs_of src fs {n} \<and> R (Unlinkat dst (data_name n)) \<and> (R (Linkat dst n) \<or> lookup fs dst n \<noteq> None)"

definition arrives_in_pairs :: "refusals \<Rightarrow> string \<Rightarrow> string \<Rightarrow> fs \<Rightarrow> fs \<Rightarrow> bool" where
  "arrives_in_pairs R src dst fs fs' \<longleftrightarrow>
     (\<exists>M. pairs_of src fs M
        \<and> (newly dst fs fs' = M \<union> data_name ` M
           \<or> (\<exists>n. newly dst fs fs' = insert (data_name n) (M \<union> data_name ` M) \<and> left_over R src dst fs' n)))"

lemma arrives_in_pairsI: "pairs_of src fs M \<Longrightarrow> newly dst fs fs' = M \<union> data_name ` M \<Longrightarrow> arrives_in_pairs R src dst fs fs'"
  by (auto simp: arrives_in_pairs_def)

lemma arrives_same: "arrives_in_pairs R src dst fs fs"
  by (rule arrives_in_pairsI [of _ _ "{}"]) (simp_all add: pairs_of_def)

lemma is_regular_NoneD: "is_regular x \<Longrightarrow> x \<noteq> None"
  by (cases x) (simp_all add: is_regular_def)

lemma is_regular_moved: "moved src dst fs fs' \<Longrightarrow> is_regular (lookup fs' src n) \<Longrightarrow> is_regular (lookup fs src n)"
  using moved_src [of src dst fs fs' n] is_regular_NoneD by auto

lemma pairs_of_moved: "moved src dst fs fs' \<Longrightarrow> pairs_of src fs' M \<Longrightarrow> pairs_of src fs M"
  using is_regular_moved unfolding pairs_of_def by blast

lemma arrives_in_pairs_trans:
  assumes "moved src dst fs fs'" "moved src dst fs' fs''"
    "pairs_of src fs M" "newly dst fs fs' = M \<union> data_name ` M" "arrives_in_pairs R src dst fs' fs''"
  shows "arrives_in_pairs R src dst fs fs''"
proof -
  obtain M' where M': "pairs_of src fs' M'" "newly dst fs' fs'' = M' \<union> data_name ` M'
      \<or> (\<exists>n. newly dst fs' fs'' = insert (data_name n) (M' \<union> data_name ` M') \<and> left_over R src dst fs'' n)"
    using assms(5) by (auto simp: arrives_in_pairs_def)
  have "pairs_of src fs (M \<union> M')"
    using assms(3) pairs_of_moved [OF assms(1) M'(1)] by (auto simp: pairs_of_def)
  moreover have "newly dst fs fs'' = (M \<union> M') \<union> data_name ` (M \<union> M')
      \<or> (\<exists>n. newly dst fs fs'' = insert (data_name n) ((M \<union> M') \<union> data_name ` (M \<union> M')) \<and> left_over R src dst fs'' n)"
    using M'(2) unfolding newly_trans [OF assms(1,2)] assms(4) image_Un by (elim disjE exE conjE) auto
  ultimately show ?thesis unfolding arrives_in_pairs_def by blast
qed

lemma linkat_lookup_src: "src \<noteq> dst \<Longrightarrow> lookup (snd (linkat R fs src k dst n)) src m = lookup fs src m"
  by (rule linkat_cases [of R fs src k dst n]) (simp_all add: lookup_add_entry)

lemma linkat_lookup_dst: "lookup fs dst m \<noteq> None \<Longrightarrow> lookup (snd (linkat R fs src k dst n)) dst m \<noteq> None"
  by (rule linkat_cases [of R fs src k dst n]) (simp_all add: lookup_add_entry)

lemma linkat_newly: "newly dst fs (snd (linkat R fs src k dst n)) \<subseteq> {n}"
  by (rule linkat_cases [of R fs src k dst n]) (auto simp: newly_def lookup_add_entry split: if_splits)

text \<open>One turn: a pair or nothing when the loop goes on.\<close>

lemma move_pair_arrives:
  assumes "src \<noteq> dst" "move_pair R src dst n fs = (go, fs')"
  shows "arrives_in_pairs R src dst fs fs'" "go \<Longrightarrow> \<exists>M. pairs_of src fs M \<and> newly dst fs fs' = M \<union> data_name ` M"
proof -
  have main: "arrives_in_pairs R src dst fs fs' \<and> (go \<longrightarrow> (\<exists>M. pairs_of src fs M \<and> newly dst fs fs' = M \<union> data_name ` M))"
  proof (rule move_pair_cases [OF assms(1), of R n fs])
    fix g
    assume "move_pair R src dst n fs = (g, fs)"
    then have "fs' = fs" using assms(2) by simp
    moreover have "pairs_of src fs {} \<and> newly dst fs fs = {} \<union> data_name ` {}" by (simp add: pairs_of_def)
    then have "\<exists>M. pairs_of src fs M \<and> newly dst fs fs = M \<union> data_name ` M" by (rule exI)
    ultimately show ?thesis using arrives_same by simp
  next
    assume pair: "move_pair R src dst n fs = (False, snd (linkat R fs src (data_name n) dst (data_name n)))"
      and R: "R (Unlinkat dst (data_name n))" "R (Linkat dst n) \<or> lookup fs dst n \<noteq> None"
      and meta: "is_meta_name n" "is_regular (lookup fs src n)" "is_regular (lookup fs src (data_name n))"
    have fs': "fs' = snd (linkat R fs src (data_name n) dst (data_name n))" and go: "\<not> go"
      using pair assms(2) by simp_all
    have "R (Linkat dst n) \<or> lookup fs' dst n \<noteq> None" using R(2) linkat_lookup_dst unfolding fs' by blast
    then have "left_over R src dst fs' n"
      using R(1) meta by (simp add: fs' left_over_def pairs_of_def linkat_lookup_src [OF assms(1)])
    moreover have "newly dst fs fs' \<subseteq> {data_name n}" unfolding fs' by (rule linkat_newly)
    moreover have "pairs_of src fs {}" by (simp add: pairs_of_def)
    ultimately have "pairs_of src fs {} \<and> (newly dst fs fs' = {} \<union> data_name ` {}
        \<or> newly dst fs fs' = insert (data_name n) ({} \<union> data_name ` {}) \<and> left_over R src dst fs' n)"
      by (cases "newly dst fs fs' = {}") auto
    then have "arrives_in_pairs R src dst fs fs'" unfolding arrives_in_pairs_def by blast
    with go show ?thesis by simp
  next
    fix fs2
    let ?fs4 = "snd (unlinkat R (snd (unlinkat R fs2 src n)) src (data_name n))"
    assume pair: "move_pair R src dst n fs = (True, ?fs4)" "is_meta_name n"
      and look: "\<And>d m. lookup fs2 d m =
            (if d = dst \<and> m \<in> {n, data_name n} then lookup fs src m else lookup fs d m)"
      and reg: "is_regular (lookup fs src n)" "is_regular (lookup fs src (data_name n))"
      and new: "lookup fs dst n = None" "lookup fs dst (data_name n) = None"
    have unl: "lookup (snd (unlinkat R f src k)) dst m = lookup f dst m" for f k m
      using assms(1) by (rule_tac unlinkat_cases [of R f src k]) (auto simp: lookup_remove_entry)
    have M: "newly dst fs fs' = {n} \<union> data_name ` {n}"
      using pair(1) assms(2) new is_regular_NoneD [of "lookup fs src n"] is_regular_NoneD [of "lookup fs src (data_name n)"] reg
      by (auto simp: newly_def unl look)
    have P: "pairs_of src fs {n}" using pair(2) reg by (simp add: pairs_of_def)
    show ?thesis using arrives_in_pairsI [OF P M] P M by metis
  qed
  from main show "arrives_in_pairs R src dst fs fs'" by (rule conjunct1)
  from main show "\<exists>M. pairs_of src fs M \<and> newly dst fs fs' = M \<union> data_name ` M" if go using that by simp
qed

lemma move_pairs_arrive: "src \<noteq> dst \<Longrightarrow> arrives_in_pairs R src dst fs (move_pairs R src dst ns fs)"
proof (induction ns arbitrary: fs)
  case Nil
  show ?case by (simp add: arrives_same)
next
  case (Cons n ns)
  obtain go fs' where step: "move_pair R src dst n fs = (go, fs')" by fastforce
  show ?case
  proof (cases go)
    case True
    then obtain M where "pairs_of src fs M" "newly dst fs fs' = M \<union> data_name ` M"
      using move_pair_arrives(2) [OF Cons.prems step] by blast
    from arrives_in_pairs_trans [OF move_pair_moved [OF Cons.prems step] move_pairs_moved [OF Cons.prems] this
        Cons.IH [OF Cons.prems]] True
    show ?thesis unfolding move_pairs_Cons step by simp
  next
    case False
    then show ?thesis using move_pair_arrives(1) [OF Cons.prems step] unfolding move_pairs_Cons step by simp
  qed
qed

text \<open>Without refusals and without a name of the queue in the way, complete pairs are moved.\<close>

definition complete :: "string \<Rightarrow> fs \<Rightarrow> string \<Rightarrow> bool" where
  "complete src fs n \<longleftrightarrow>
     is_meta_name n \<and> \<not> starts_with (CHR ''.'') n
     \<and> is_regular (lookup fs src n) \<and> is_regular (lookup fs src (data_name n))"

lemma linkat_free:
  assumes "is_regular (lookup fs d n)" "fs_dirs fs d' \<noteq> None" "lookup fs d' n' = None"
  shows "linkat (\<lambda>_. False) fs d n d' n' = (0, add_entry fs d' n' (the (lookup fs d n)))"
  using assms by (auto simp: linkat_def is_regular_def split: option.splits node.splits)

lemma unlinkat_free:
  assumes "is_regular (lookup fs d n)"
  shows "unlinkat (\<lambda>_. False) fs d n = (0, remove_entry fs d n)" "\<not> dot_name n" "fs_dirs fs d \<noteq> None"
  using assms lookup_dirs [of fs d n] lookup_dot [of n fs d]
  by (auto simp: unlinkat_def is_regular_def split: option.splits node.splits)

lemma move_pair_free:
  assumes "src \<noteq> dst" "complete src fs n" "fs_dirs fs dst \<noteq> None"
    "lookup fs dst n = None" "lookup fs dst (data_name n) = None"
  obtains fs' where "move_pair (\<lambda>_. False) src dst n fs = (True, fs')"
    "\<And>d m. lookup fs' d m =
       (if m \<in> {n, data_name n} \<and> d \<in> {src, dst} then (if d = src then None else lookup fs src m)
        else lookup fs d m)"
    "fs_dirs fs' dst \<noteq> None"
proof -
  let ?R = "\<lambda>_. False" and ?d = "data_name n"
  have reg: "is_regular (lookup fs src n)" "is_regular (lookup fs src ?d)"
    and neq: "?d \<noteq> n" "n \<noteq> ?d"
    using assms(2) data_name_not_meta [of n n] by (auto simp: complete_def)
  define fs1 where "fs1 = add_entry fs dst ?d (the (lookup fs src ?d))"
  have l1: "linkat ?R fs src ?d dst ?d = (0, fs1)"
    unfolding fs1_def using reg(2) assms by (intro linkat_free)
  have look1: "lookup fs1 d m = (if d = dst \<and> m = ?d then lookup fs src ?d else lookup fs d m)" for d m
    unfolding fs1_def using assms is_regular_NoneD [OF reg(2)] by (auto simp: lookup_add_entry)
  define fs2 where "fs2 = add_entry fs1 dst n (the (lookup fs1 src n))"
  have dirs1: "fs_dirs fs1 dst \<noteq> None" by (simp add: fs1_def)
  have l2: "linkat ?R fs1 src n dst n = (0, fs2)"
    unfolding fs2_def using reg(1) assms(1,4) neq dirs1 by (intro linkat_free) (simp_all add: look1)
  have look2: "lookup fs2 d m = (if d = dst \<and> m \<in> {n, ?d} then lookup fs src m else lookup fs d m)" for d m
    unfolding fs2_def using assms(1,4) neq dirs1 is_regular_NoneD [OF reg(1)]
    by (auto simp: lookup_add_entry look1)
  have u1: "unlinkat ?R fs2 src n = (0, remove_entry fs2 src n)" "\<not> dot_name n" "fs_dirs fs2 src \<noteq> None"
    using unlinkat_free [of fs2 src n] reg(1) assms(1) by (simp_all add: look2)
  have look3: "lookup (remove_entry fs2 src n) d m = (if d = src \<and> m = n then None else lookup fs2 d m)" for d m
    using u1(2,3) by (simp add: lookup_remove_entry)
  have u2: "unlinkat ?R (remove_entry fs2 src n) src ?d = (0, remove_entry (remove_entry fs2 src n) src ?d)"
    "\<not> dot_name ?d" "fs_dirs (remove_entry fs2 src n) src \<noteq> None"
    using unlinkat_free [of "remove_entry fs2 src n" src ?d] reg(2) assms(1) neq
    by (simp_all add: look2 look3)
  show thesis
  proof (rule that [of "remove_entry (remove_entry fs2 src n) src ?d"])
    show "move_pair ?R src dst n fs = (True, remove_entry (remove_entry fs2 src n) src ?d)"
      using assms(2) by (simp add: move_pair_def complete_def fstatat_def l1 l2 u1(1) u2(1))
    show "lookup (remove_entry (remove_entry fs2 src n) src ?d) d m =
        (if m \<in> {n, ?d} \<and> d \<in> {src, dst} then (if d = src then None else lookup fs src m)
         else lookup fs d m)" for d m
      using u2(2,3) assms(1) by (auto simp: lookup_remove_entry look2 look3)
    show "fs_dirs (remove_entry (remove_entry fs2 src n) src ?d) dst \<noteq> None"
      by (simp add: fs2_def)
  qed
qed

lemma move_pair_incomplete:
  "\<not> complete src fs n \<Longrightarrow> move_pair (\<lambda>_. False) src dst n fs = (True, fs)"
  by (auto simp: move_pair_def complete_def fstatat_def)

lemma move_pairs_complete:
  assumes "src \<noteq> dst" "distinct ns" "fs_dirs fs dst \<noteq> None"
    "\<And>m. m \<in> set ns \<Longrightarrow> complete src fs m \<Longrightarrow> lookup fs dst m = None \<and> lookup fs dst (data_name m) = None"
    "n \<in> set ns" "complete src fs n"
    "lookup fs src m = Some x" "m = n \<or> m = data_name n"
  shows "lookup (move_pairs (\<lambda>_. False) src dst ns fs) src m = None
       \<and> lookup (move_pairs (\<lambda>_. False) src dst ns fs) dst m = Some x"
  using assms(2-)
proof (induction ns arbitrary: fs)
  case (Cons k ns)
  let ?R = "\<lambda>_. False"
  have keep: "lookup (move_pairs ?R src dst ns f) src m = None \<and> lookup (move_pairs ?R src dst ns f) dst m = Some x"
    if "lookup f src m = None" "lookup f dst m = Some x" for f
    using move_pairs_moved [OF assms(1), of f ?R ns, THEN moved_src, of m]
      move_pairs_moved [OF assms(1), of f ?R ns, THEN moved_dst, of m] that by auto
  show ?case
  proof (cases "complete src fs k")
    case False
    then have "n \<in> set ns" using Cons.prems by auto
    with Cons.prems have "lookup (move_pairs ?R src dst ns fs) src m = None
        \<and> lookup (move_pairs ?R src dst ns fs) dst m = Some x"
      by (intro Cons.IH) auto
    then show ?thesis
      unfolding move_pairs_Cons move_pair_incomplete [OF False] by simp
  next
    case True
    with Cons.prems obtain f where f: "move_pair ?R src dst k fs = (True, f)"
      "\<And>d m. lookup f d m =
         (if m \<in> {k, data_name k} \<and> d \<in> {src, dst} then (if d = src then None else lookup fs src m)
          else lookup fs d m)"
      "fs_dirs f dst \<noteq> None"
      by (metis (no_types, lifting) move_pair_free assms(1) list.set_intros(1))
    have "lookup (move_pairs ?R src dst ns f) src m = None \<and> lookup (move_pairs ?R src dst ns f) dst m = Some x"
    proof (cases "n = k")
      case True
      then show ?thesis using Cons.prems assms(1) by (intro keep) (auto simp: f(2))
    next
      case neq: False
      have apart: "m' \<notin> {k, data_name k} \<and> data_name m' \<notin> {k, data_name k}"
        if "is_meta_name m'" "m' \<noteq> k" for m'
        using that True data_name_not_meta data_name_inj unfolding complete_def by blast
      have still: "complete src fs m'" if "complete src f m'" for m'
        using that is_regular_NoneD by (auto simp: complete_def f(2) split: if_splits)
      show ?thesis
      proof (rule Cons.IH)
        show "distinct ns" "n \<in> set ns" "fs_dirs f dst \<noteq> None" "m = n \<or> m = data_name n"
          using Cons.prems neq f(3) by auto
        have n: "is_meta_name n" using Cons.prems by (simp add: complete_def)
        show "complete src f n" "lookup f src m = Some x"
          using Cons.prems apart [OF n neq] by (auto simp: complete_def f(2))
        show "lookup f dst m' = None \<and> lookup f dst (data_name m') = None"
          if "m' \<in> set ns" "complete src f m'" for m'
        proof -
          have "m' \<noteq> k" "is_meta_name m'" using that Cons.prems by (auto simp: complete_def)
          with apart [of m'] still [OF that(2)] Cons.prems(3) [of m'] that(1)
          show ?thesis by (simp add: f(2))
        qed
      qed
    qed
    then show ?thesis unfolding move_pairs_Cons f(1) by simp
  qed
qed simp

text \<open>A queue with one complete pair and a meta file whose data is not there yet.\<close>

definition example_queue :: fs where
  "example_queue =
     \<lparr>fs_dirs = [''q/s'' \<mapsto> [(''_incoming'', Directory)],
                ''q/s/_incoming'' \<mapsto> [(''1.meta'', Regular 1), (''1.data'', Regular 0), (''2.meta'', Regular 2)]],
      fs_data = (\<lambda>_. []), fs_next = 3\<rparr>"

definition example_schedule :: schedule where
  "example_schedule = lmap_schedule_new\<lparr>sched_name := Some ''s'', sched_workspace := Some ''q/s''\<rparr>"

text \<open>
  C7. Whatever calls the system refuses, \<^const>\<open>lmapd_workspace_schedule_move\<close> loses no result: a file leaves the
  incoming queue only once the same file is in the active queue under its name, nothing in the active queue
  is removed or replaced, and no other directory and no content changes. What arrives are complete pairs of a meta and a data
  file, but for at most one data file: the system has refused to link its meta file, or its name was taken, and has refused to take
  the data file back, and both files of that pair are still in the incoming queue.
\<close>

theorem lmapd_workspace_schedule_move_safe:
  assumes "sched_workspace s = Some w" "length (join w LMAPD_QUEUE_INCOMING_NAME) < PATH_MAX"
    "lmapd_workspace_schedule_move R (Some s) fs = (ret, fs')"
  shows "moved (join w LMAPD_QUEUE_INCOMING_NAME) w fs fs'
       \<and> arrives_in_pairs R (join w LMAPD_QUEUE_INCOMING_NAME) w fs fs'"
proof -
  let ?src = "join w LMAPD_QUEUE_INCOMING_NAME"
  have "fs' = fs \<or> (\<exists>ns. fs' = move_pairs R ?src w ns fs)"
    using assms by (auto simp: lmapd_workspace_schedule_move_def Let_def split: if_splits option.splits)
  then show ?thesis
    using move_pairs_moved [of ?src w fs R] move_pairs_arrive [of ?src w R fs]
      move_pairs_arrive [of ?src w R fs "[]"] by auto
qed

theorem lmapd_workspace_schedule_move_safe_witness:
  "let R = (\<lambda>c. c = Linkat ''q/s'' ''1.meta'');
       (ret, fs') = lmapd_workspace_schedule_move R (Some example_schedule) example_queue
   in ret = 0 \<and> moved ''q/s/_incoming'' ''q/s'' example_queue fs'"
proof -
  let ?R = "\<lambda>c. c = Linkat ''q/s'' ''1.meta''"
  let ?r = "lmapd_workspace_schedule_move ?R (Some example_schedule) example_queue"
  have w: "sched_workspace example_schedule = Some ''q/s''"
    by (simp add: example_schedule_def)
  have src: "join ''q/s'' LMAPD_QUEUE_INCOMING_NAME = ''q/s/_incoming''"
    by (simp add: join_def LMAPD_QUEUE_INCOMING_NAME_def)
  have "fst ?r = 0"
    by code_simp
  moreover have "moved ''q/s/_incoming'' ''q/s'' example_queue (snd ?r)"
    using lmapd_workspace_schedule_move_safe [OF w, of ?R example_queue "fst ?r" "snd ?r"]
    by (simp add: src PATH_MAX_def)
  ultimately show ?thesis
    by (simp add: case_prod_beta Let_def)
qed

lemma opendir_distinct:
  assumes "fs_wf fs" "opendir R fs d = Some ns"
  shows "distinct ns"
proof -
  obtain es where es: "fs_dirs fs d = Some es" "ns = ''.'' # ''..'' # map fst es"
    using assms(2) by (auto simp: opendir_def entries_def split: if_splits)
  with assms(1) have "distinct (map fst es)" "\<forall>n\<in>set (map fst es). \<not> dot_name n"
    unfolding fs_wf_def by blast+
  then show ?thesis using es(2) by (force simp: dot_name_def)
qed

lemma lookup_entries: "lookup fs d n = Some (Regular i) \<Longrightarrow> n \<in> fst ` set (entries fs d)"
  by (auto simp: lookup_def split: if_splits dest!: map_of_SomeD) force

text \<open>
  C8. When the system refuses nothing and no name of the incoming queue is taken in the active one, \<^const>\<open>lmapd_workspace_schedule_move\<close>
  returns 0 and has moved every complete pair: both files are in the active queue and
  gone from the incoming one.
\<close>

theorem lmapd_workspace_schedule_move_moves:
  assumes "fs_wf fs" "sched_workspace s = Some w" "src = join w LMAPD_QUEUE_INCOMING_NAME"
    "length src < PATH_MAX" "fs_dirs fs w \<noteq> None" "fs_dirs fs src \<noteq> None"
    "\<And>m. m \<in> fst ` set (entries fs src) \<Longrightarrow> lookup fs w m = None"
    "is_meta_name n" "\<not> starts_with (CHR ''.'') n"
    "lookup fs src n = Some (Regular i)" "lookup fs src (data_name n) = Some (Regular j)"
    "lmapd_workspace_schedule_move (\<lambda>_. False) (Some s) fs = (ret, fs')"
  shows "ret = 0
       \<and> lookup fs' w n = Some (Regular i) \<and> lookup fs' w (data_name n) = Some (Regular j)
       \<and> lookup fs' src n = None \<and> lookup fs' src (data_name n) = None"
proof -
  let ?R = "\<lambda>_. False"
  have neq: "src \<noteq> w" using assms(3) by simp
  obtain ns where ns: "opendir ?R fs src = Some ns" "set ns = {''.'', ''..''} \<union> fst ` set (entries fs src)"
    using assms(6) by (auto simp: opendir_def)
  have res: "ret = 0" "fs' = move_pairs ?R src w ns fs"
    using assms(2-6,12) ns(1)
    by (auto simp: lmapd_workspace_schedule_move_def open_directory_def Let_def)
  have n: "complete src fs n" "n \<in> set ns"
    using assms(8-11) lookup_entries [OF assms(10)] ns(2) by (auto simp: complete_def is_regular_def)
  have free: "lookup fs w m = None \<and> lookup fs w (data_name m) = None" if "complete src fs m" for m
  proof -
    from that obtain i j where "lookup fs src m = Some (Regular i)" "lookup fs src (data_name m) = Some (Regular j)"
      by (auto simp: complete_def is_regular_def split: option.splits node.splits)
    then show ?thesis using assms(7) [OF lookup_entries [of fs src m i]]
        assms(7) [OF lookup_entries [of fs src "data_name m" j]] by simp
  qed
  note go = move_pairs_complete [OF neq opendir_distinct [OF assms(1) ns(1)] assms(5) free n(2,1)]
  show ?thesis
    using go [OF _ assms(10)] go [OF _ assms(11)] res by simp
qed

theorem lmapd_workspace_schedule_move_moves_witness:
  "lookup (snd (lmapd_workspace_schedule_move (\<lambda>_. False) (Some example_schedule) example_queue)) ''q/s'' ''1.data''
     = Some (Regular 0)"
proof -
  let ?r = "lmapd_workspace_schedule_move (\<lambda>_. False) (Some example_schedule) example_queue"
  have w: "sched_workspace example_schedule = Some ''q/s''"
    and src: "''q/s/_incoming'' = join ''q/s'' LMAPD_QUEUE_INCOMING_NAME"
    and len: "length ''q/s/_incoming'' < PATH_MAX"
    and dirs: "fs_dirs example_queue ''q/s'' \<noteq> None" "fs_dirs example_queue ''q/s/_incoming'' \<noteq> None"
    by (simp_all add: example_schedule_def join_def LMAPD_QUEUE_INCOMING_NAME_def PATH_MAX_def example_queue_def)
  have wf: "fs_wf example_queue"
    by (auto simp: fs_wf_def example_queue_def dot_name_def split: if_splits)
  have meta: "is_meta_name ''1.meta''" "data_name ''1.meta'' = ''1.data''" "\<not> starts_with (CHR ''.'') ''1.meta''"
    by code_simp+
  have free: "lookup example_queue ''q/s'' m = None" if "m \<in> fst ` set (entries example_queue ''q/s/_incoming'')" for m
  proof -
    have "entries example_queue ''q/s/_incoming'' = [(''1.meta'', Regular 1), (''1.data'', Regular 0), (''2.meta'', Regular 2)]"
      by (simp add: entries_def example_queue_def)
    with that have "m = ''1.meta'' \<or> m = ''1.data'' \<or> m = ''2.meta''" by simp
    moreover have "lookup example_queue ''q/s'' ''1.meta'' = None" "lookup example_queue ''q/s'' ''1.data'' = None"
      "lookup example_queue ''q/s'' ''2.meta'' = None" by code_simp+
    ultimately show ?thesis by blast
  qed
  have files: "lookup example_queue ''q/s/_incoming'' ''1.meta'' = Some (Regular 1)"
    "lookup example_queue ''q/s/_incoming'' (data_name ''1.meta'') = Some (Regular 0)"
    by code_simp+
  have "?r = (fst ?r, snd ?r)" by simp
  from lmapd_workspace_schedule_move_moves [OF wf w src len dirs free meta(1,3) files this]
  show ?thesis by (simp add: meta(2))
qed

section \<open>Cleaning a workspace\<close>

lemma opendir_names:
  assumes "fs_wf fs" "opendir R fs d = Some ns"
  shows "set ns = {''.'', ''..''} \<union> fst ` set (entries fs d)" "fs_dirs fs d \<noteq> None"
    "n \<in> set ns \<Longrightarrow> slash \<notin> set n"
proof -
  have "ns = ''.'' # ''..'' # map fst (entries fs d)" and dirs: "fs_dirs fs d \<noteq> None"
    using assms(2) by (simp_all add: opendir_def split: if_splits)
  then show set_ns: "set ns = {''.'', ''..''} \<union> fst ` set (entries fs d)" by simp
  show "fs_dirs fs d \<noteq> None" by (rule dirs)
  show "slash \<notin> set n" if "n \<in> set ns"
  proof -
    from that set_ns have "n = ''.'' \<or> n = ''..'' \<or> n \<in> set (map fst (entries fs d))" by simp
    then show ?thesis
      using entries_wf_entries [OF assms(1), of d] unfolding entries_wf_def by fastforce
  qed
qed

definition short_names :: "fs \<Rightarrow> string \<Rightarrow> bool" where
  "short_names fs d \<longleftrightarrow> (\<forall>n. lookup fs d n \<noteq> None \<longrightarrow> length (join d n) < PATH_MAX)"

lemma remove_path_pruned:
  assumes "fs_wf fs" "slash \<notin> set n" "length (join d n) < PATH_MAX"
  shows "pruned (below d n) fs (snd (remove_path R fs (path_buf (join d n))))"
  using assms by (auto simp: remove_path_def intro: remove_tree_pruned pruned_refl)

lemma clean_entries_pruned:
  assumes "fs_wf fs" "\<And>n. n \<in> set ns \<Longrightarrow> slash \<notin> set n \<and> length (join d n) < PATH_MAX"
  shows "pruned (\<lambda>p m. \<exists>n\<in>set ns. \<not> skip n \<and> below d n p m) fs (snd (clean_entries skip R d ns (ret, fs)))"
  using assms
proof (induction ns arbitrary: ret fs)
  case (Cons n ns)
  let ?Q = "\<lambda>p m. \<exists>k\<in>set (n # ns). \<not> skip k \<and> below d k p m"
  have rest: "pruned ?Q fs (snd (clean_entries skip R d ns (ret, fs)))" if "fs_wf fs" for fs ret
    by (rule pruned_mono [OF Cons.IH [OF that]]) (use Cons.prems(2) in auto)
  show ?case
  proof (cases "skip n")
    case True
    then show ?thesis using rest [OF Cons.prems(1)] by simp
  next
    case False
    obtain c fs1 where rem: "remove_path R fs (path_buf (join d n)) = (c, fs1)" by fastforce
    then have step: "pruned (below d n) fs fs1"
      using Cons.prems(1) Cons.prems(2) [of n] remove_path_pruned [of fs n d R] by simp
    have "pruned ?Q fs1 (snd (clean_entries skip R d ns (if c \<noteq> 0 then -1 else ret, fs1)))"
      by (rule rest [OF pruned_wf [OF step]])
    moreover have "pruned ?Q fs fs1"
      by (rule pruned_mono [OF step]) (use False in auto)
    ultimately have "pruned ?Q fs (snd (clean_entries skip R d ns (if c \<noteq> 0 then -1 else ret, fs1)))"
      by (rule pruned_trans [rotated])
    then show ?thesis using False rem by simp
  qed
qed (simp add: pruned_refl)

text \<open>Without refusals, every entry that is not skipped is removed, and the result is 0.\<close>

lemma remove_path_free:
  assumes "fs_wf fs" "slash \<notin> set n" "length (join d n) < PATH_MAX" "\<not> dot_name n"
    "deep_ok PATH_MAX fs d n" "lookup fs d n \<noteq> None"
  shows "fst (remove_path (\<lambda>_. False) fs (path_buf (join d n))) = 0"
    and "lookup (snd (remove_path (\<lambda>_. False) fs (path_buf (join d n)))) d n = None"
  using assms remove_tree_removes [OF assms(1,4,5)] by (auto simp: remove_path_def fstatat_def)

lemma clean_entries_removes:
  assumes "fs_wf fs" "distinct ns" "\<And>n. skip n \<or> \<not> dot_name n"
    "\<And>n. n \<in> set ns \<Longrightarrow> slash \<notin> set n \<and> length (join d n) < PATH_MAX"
    "\<And>n. n \<in> set ns \<Longrightarrow> \<not> skip n \<Longrightarrow> deep_ok PATH_MAX fs d n \<and> lookup fs d n \<noteq> None"
  shows "fst (clean_entries skip (\<lambda>_. False) d ns (ret, fs)) = ret
       \<and> (\<forall>n\<in>set ns. \<not> skip n \<longrightarrow> lookup (snd (clean_entries skip (\<lambda>_. False) d ns (ret, fs))) d n = None)"
  using assms
proof (induction ns arbitrary: fs)
  case (Cons n ns)
  let ?R = "\<lambda>_. False"
  show ?case
  proof (cases "skip n")
    case True
    then show ?thesis using Cons.IH [of fs] Cons.prems by simp
  next
    case False
    obtain c fs1 where rem: "remove_path ?R fs (path_buf (join d n)) = (c, fs1)" by fastforce
    note n = Cons.prems(4) [of n] Cons.prems(5) [OF _ False]
    have free: "c = 0" "lookup fs1 d n = None"
      using remove_path_free [of fs n d] Cons.prems(1) Cons.prems(3) [of n] n False rem by auto
    have step: "pruned (below d n) fs fs1"
      using remove_path_pruned [of fs n d ?R] Cons.prems(1) n rem by simp
    have "fst (clean_entries skip ?R d ns (ret, fs1)) = ret
       \<and> (\<forall>n\<in>set ns. \<not> skip n \<longrightarrow> lookup (snd (clean_entries skip ?R d ns (ret, fs1))) d n = None)"
    proof (rule Cons.IH)
      show "deep_ok PATH_MAX fs1 d m \<and> lookup fs1 d m \<noteq> None" if "m \<in> set ns" "\<not> skip m" for m
      proof
        show "deep_ok PATH_MAX fs1 d m"
          using that Cons.prems(1,5) step by (auto intro: deep_ok_pruned)
        have "\<not> below d n d m"
          using that Cons.prems(2) by (auto simp: below_def inside_def join_def prefix_def)
        then show "lookup fs1 d m \<noteq> None"
          using that Cons.prems(5) [of m] pruned_lookup [OF step, of d m] by auto
      qed
    qed (use Cons.prems pruned_wf [OF step] in auto)
    moreover have "lookup (snd (clean_entries skip ?R d ns (ret, fs1))) d n = None"
      using clean_entries_pruned [of fs1 ns d skip ?R ret, THEN pruned_lookup, of d n]
        pruned_wf [OF step] Cons.prems(4) free(2) by auto
    ultimately show ?thesis using False rem free(1) by auto
  qed
qed simp

lemma opendir_short:
  assumes "fs_wf fs" "short_names fs w" "opendir R fs w = Some ns" "n \<in> set ns"
  shows "slash \<notin> set n \<and> length (join w n) < PATH_MAX"
proof -
  note names = opendir_names [OF assms(1,3)]
  have "lookup fs w n \<noteq> None"
    using assms(4) names(1,2) entries_iff [OF assms(1), of n w]
    by (cases "dot_name n") (simp add: lookup_def, auto simp: dot_name_def)
  then show ?thesis using assms(2,4) names(3) by (auto simp: short_names_def)
qed

text \<open>What \<open>lmapd_workspace_action_clean\<close> may touch: an entry that does not start with an underscore, and what is below it.\<close>

definition cleanable :: "fs \<Rightarrow> string \<Rightarrow> string \<Rightarrow> string \<Rightarrow> bool" where
  "cleanable fs w p m \<longleftrightarrow> (\<exists>n\<in>fst ` set (entries fs w). \<not> starts_with (CHR ''_'') n \<and> below w n p m)"

lemma private_not_cleanable:
  assumes "fs_wf fs" "starts_with (CHR ''_'') k"
  shows "\<not> cleanable fs w w k" "inside (join w k) p \<Longrightarrow> \<not> cleanable fs w p m"
proof -
  have w: "\<not> inside (join w n) w" for n by (auto simp: inside_def join_def prefix_def)
  have disj: "\<not> below w n p m"
    if n: "n \<noteq> []" "slash \<notin> set n" "\<not> starts_with (CHR ''_'') n" and k: "inside (join w k) p" for n
  proof
    assume "below w n p m"
    with k w [of k] have "inside (join w n) p" by (auto simp: below_def)
    moreover have "\<exists>r. p = w @ [slash] @ q @ r" if "inside (join w q) p" for q
      using that by (auto simp: inside_def join_def prefix_def)
    ultimately obtain r r' where "p = w @ [slash] @ k @ r" "p = w @ [slash] @ n @ r'" using k by metis
    then have "k @ r = n @ r'" by simp
    with n(1,3) assms(2) show False by (cases k; cases n) (auto simp: starts_with_def)
  qed
  have names: "n \<noteq> [] \<and> slash \<notin> set n" if "n \<in> fst ` set (entries fs w)" for n
    using entries_wf_entries [OF assms(1), of w] that by (auto simp: entries_wf_def)
  show "\<not> cleanable fs w w k"
    using assms(2) w by (auto simp: cleanable_def below_def)
  show "\<not> cleanable fs w p m" if "inside (join w k) p"
    using disj [OF _ _ _ that] names unfolding cleanable_def by blast
qed

lemma cleaned_names:
  assumes "fs_wf fs" "pruned (cleanable fs w) fs fs'" "opendir R fs w = Some ns"
    "\<forall>n\<in>set ns. \<not> (dot_name n \<or> starts_with (CHR ''_'') n) \<longrightarrow> lookup fs' w n = None"
  shows "n \<in> fst ` set (entries fs' w) \<longleftrightarrow> n \<in> fst ` set (entries fs w) \<and> starts_with (CHR ''_'') n"
proof (cases "starts_with (CHR ''_'') n")
  case True
  then have "lookup fs' w n = lookup fs w n"
    using pruned_lookup [OF assms(2), of w n] private_not_cleanable(1) [OF assms(1)] by auto
  then show ?thesis using True entries_iff [OF assms(1)] entries_iff [OF pruned_wf [OF assms(2)]] by simp
next
  case False
  have "n \<notin> fst ` set (entries fs' w)"
  proof
    assume "n \<in> fst ` set (entries fs' w)"
    then have look: "lookup fs' w n \<noteq> None" "\<not> dot_name n"
      using entries_iff [OF pruned_wf [OF assms(2)]] by simp_all
    then have "lookup fs w n \<noteq> None"
      using pruned_lookup [OF assms(2), of w n] by (elim disjE) simp_all
    then have "n \<in> set ns"
      using opendir_names(1) [OF assms(1,3)] look(2) entries_iff [OF assms(1), of n w] by simp
    with assms(4) look False show False by simp
  qed
  then show ?thesis using False by simp
qed

lemma action_clean_pruned:
  assumes "fs_wf fs" "short_names fs w" "opendir R fs w = Some ns"
  shows "pruned (cleanable fs w) fs (snd (clean_entries (\<lambda>n. dot_name n \<or> starts_with (CHR ''_'') n) R w ns (ret, fs)))"
proof (rule pruned_mono)
  let ?skip = "\<lambda>n. dot_name n \<or> starts_with (CHR ''_'') n"
  show "pruned (\<lambda>p m. \<exists>n\<in>set ns. \<not> ?skip n \<and> below w n p m) fs (snd (clean_entries ?skip R w ns (ret, fs)))"
    using opendir_short [OF assms] by (rule clean_entries_pruned [OF assms(1)])
  show "cleanable fs w p m" if "\<exists>n\<in>set ns. \<not> ?skip n \<and> below w n p m" for p m
    using that unfolding cleanable_def opendir_names(1) [OF assms(1,3)] by (auto simp: dot_name_def)
qed

text \<open>
  C10. Whatever calls the system refuses, \<^const>\<open>lmapd_workspace_action_clean\<close> changes no content and removes only entries
  of the workspace whose names do not start with an underscore, and what is below them. So an entry with an
  underscore stays, a directory with everything below it, and so does everything outside the workspace. When the system refuses
  nothing it returns 0 and the entries with an underscore are all that is left.
\<close>

theorem lmapd_workspace_action_clean_keeps_private:
  assumes "fs_wf fs" "act_workspace a = Some w" "short_names fs w"
    "lmapd_workspace_action_clean R (Some a) fs = (ret, fs')"
  shows "fs_data fs' = fs_data fs
       \<and> (\<forall>p m. lookup fs' p m \<noteq> lookup fs p m \<longrightarrow> lookup fs' p m = None \<and> cleanable fs w p m)
       \<and> (\<forall>k. starts_with (CHR ''_'') k \<longrightarrow>
            lookup fs' w k = lookup fs w k \<and> (\<forall>p m. inside (join w k) p \<longrightarrow> lookup fs' p m = lookup fs p m))
       \<and> (R = (\<lambda>_. False) \<longrightarrow> fs_dirs fs w \<noteq> None \<longrightarrow>
            (\<forall>n\<in>fst ` set (entries fs w). deep_ok PATH_MAX fs w n) \<longrightarrow>
            ret = 0 \<and> (\<forall>n. n \<in> fst ` set (entries fs' w) \<longleftrightarrow>
                         n \<in> fst ` set (entries fs w) \<and> starts_with (CHR ''_'') n))"
proof (cases "opendir R fs w")
  case None
  then show ?thesis
    using assms by (auto simp: lmapd_workspace_action_clean_def opendir_def split: if_splits)
next
  case (Some ns)
  let ?skip = "\<lambda>n. dot_name n \<or> starts_with (CHR ''_'') n"
  note short = opendir_short [OF assms(1,3) Some]
  have res: "clean_entries ?skip R w ns (0, fs) = (ret, fs')"
    using assms(2,4) Some by (simp add: lmapd_workspace_action_clean_def)
  then have pr: "pruned (cleanable fs w) fs fs'"
    using action_clean_pruned [OF assms(1,3) Some, of 0] by simp
  then have kept: "\<forall>p m. lookup fs' p m \<noteq> lookup fs p m \<longrightarrow> lookup fs' p m = None \<and> cleanable fs w p m"
    using pruned_lookup [OF pr] by blast
  have gone: "ret = 0 \<and> (\<forall>n\<in>set ns. \<not> ?skip n \<longrightarrow> lookup fs' w n = None)"
    if R: "R = (\<lambda>_. False)" and deep: "\<forall>n\<in>fst ` set (entries fs w). deep_ok PATH_MAX fs w n"
  proof -
    have "deep_ok PATH_MAX fs w n \<and> lookup fs w n \<noteq> None" if "n \<in> set ns" "\<not> ?skip n" for n
      using that opendir_names(1) [OF assms(1) Some] deep entries_iff [OF assms(1), of n w] by (auto simp: dot_name_def)
    from clean_entries_removes [of fs ns ?skip w 0, OF assms(1) opendir_distinct [OF assms(1) Some] _ short this]
    show ?thesis using res R by auto
  qed
  have data: "fs_data fs' = fs_data fs" using pr by (simp add: pruned_def)
  have below: "lookup fs' w k = lookup fs w k" "inside (join w k) p \<Longrightarrow> lookup fs' p m = lookup fs p m"
    if "starts_with (CHR ''_'') k" for k p m
    using pruned_lookup [OF pr, of w k] pruned_lookup [OF pr, of p m] private_not_cleanable [OF assms(1) that] by auto
  show ?thesis
  proof (intro conjI data kept allI impI)
    show "ret = 0" if "R = (\<lambda>_. False)" "\<forall>n\<in>fst ` set (entries fs w). deep_ok PATH_MAX fs w n"
      using gone [OF that] by (rule conjunct1)
    show "n \<in> fst ` set (entries fs' w) \<longleftrightarrow> n \<in> fst ` set (entries fs w) \<and> starts_with (CHR ''_'') n"
      if "R = (\<lambda>_. False)" "\<forall>n\<in>fst ` set (entries fs w). deep_ok PATH_MAX fs w n" for n
      using cleaned_names [OF assms(1) pr Some conjunct2 [OF gone [OF that]]] .
  qed (rule below; assumption)+
qed

lemma deep_ok_file: "lookup fs d n \<noteq> Some Directory \<Longrightarrow> 0 < k \<Longrightarrow> deep_ok k fs d n"
  by (cases k) auto

text \<open>An action's workspace with a result and a private file.\<close>

definition example_workspace :: fs where
  "example_workspace =
     \<lparr>fs_dirs = [''q/s/a'' \<mapsto> [(''1.data'', Regular 0), (''_state'', Regular 1)]],
      fs_data = (\<lambda>_. []), fs_next = 2\<rparr>"

definition example_action :: action where
  "example_action = lmap_action_new\<lparr>act_name := Some ''a'', act_workspace := Some ''q/s/a''\<rparr>"

theorem lmapd_workspace_action_clean_keeps_private_witness:
  "fst ` set (entries (snd (lmapd_workspace_action_clean (\<lambda>_. False) (Some example_action) example_workspace)) ''q/s/a'')
     = {''_state''}"
proof -
  let ?fs = "example_workspace"
  let ?r = "lmapd_workspace_action_clean (\<lambda>_. False) (Some example_action) ?fs"
  have w: "act_workspace example_action = Some ''q/s/a''" and dir: "fs_dirs ?fs ''q/s/a'' \<noteq> None"
    and names: "fst ` set (entries ?fs ''q/s/a'') = {''1.data'', ''_state''}"
    by (simp_all add: example_action_def example_workspace_def entries_def)
  have wf: "fs_wf ?fs"
    by (auto simp: fs_wf_def example_workspace_def dot_name_def split: if_splits)
  have look: "lookup ?fs ''q/s/a'' n \<noteq> Some Directory \<and> length (join ''q/s/a'' n) < PATH_MAX"
    if "n \<in> {''1.data'', ''_state''}" for n
    using that by (auto simp: lookup_def example_workspace_def dot_name_def join_def PATH_MAX_def entries_def)
  have short: "short_names ?fs ''q/s/a''"
    unfolding short_names_def
    by (auto simp: lookup_def example_workspace_def entries_def dot_name_def join_def PATH_MAX_def split: if_splits)
  have deep: "\<forall>n\<in>fst ` set (entries ?fs ''q/s/a''). deep_ok PATH_MAX ?fs ''q/s/a'' n"
    using look names deep_ok_file by (simp add: PATH_MAX_def)
  have "?r = (fst ?r, snd ?r)" by simp
  note t = lmapd_workspace_action_clean_keeps_private [OF wf w short this]
  have "\<forall>n. n \<in> fst ` set (entries (snd ?r) ''q/s/a'') \<longleftrightarrow>
      n \<in> fst ` set (entries ?fs ''q/s/a'') \<and> starts_with (CHR ''_'') n"
    by (rule conjunct2 [OF mp [OF mp [OF mp [OF conjunct2 [OF conjunct2 [OF conjunct2 [OF t]]] refl] dir] deep]])
  then have "fst ` set (entries (snd ?r) ''q/s/a'')
      = {n. n \<in> fst ` set (entries ?fs ''q/s/a'') \<and> starts_with (CHR ''_'') n}"
    by (intro set_eqI) (simp only: mem_Collect_eq)
  also have "\<dots> = {''_state''}"
    unfolding names by (auto simp: starts_with_def)
  finally show ?thesis .
qed

section \<open>Handing results on\<close>

definition visible :: "string \<Rightarrow> bool" where
  "visible n \<longleftrightarrow> \<not> starts_with (CHR ''_'') n \<and> \<not> starts_with (CHR ''.'') n"

text \<open>Files of \<open>w\<close> may have got a second name in \<open>dir\<close>; nothing else changes.\<close>

definition linked :: "string \<Rightarrow> string \<Rightarrow> fs \<Rightarrow> fs \<Rightarrow> bool" where
  "linked w dir fs fs' \<longleftrightarrow>
     fs_data fs' = fs_data fs
     \<and> (\<forall>d n. lookup fs' d n = lookup fs d n
            \<or> (d = dir \<and> lookup fs d n = None \<and> lookup fs' d n = lookup fs w n
               \<and> is_regular (lookup fs w n) \<and> visible n))"

lemma linked_refl: "linked w dir fs fs"
  by (simp add: linked_def)

lemma linked_lookup: "linked w dir fs fs' \<Longrightarrow> lookup fs' d n = lookup fs d n
    \<or> (d = dir \<and> lookup fs d n = None \<and> lookup fs' d n = lookup fs w n \<and> is_regular (lookup fs w n) \<and> visible n)"
  by (simp add: linked_def)

lemma linked_trans:
  assumes "w \<noteq> dir" "linked w dir fs fs'" "linked w dir fs' fs''"
  shows "linked w dir fs fs''"
proof -
  have w: "lookup fs' w n = lookup fs w n" for n
    using linked_lookup [OF assms(2), of w n] assms(1) by auto
  have "lookup fs'' d n = lookup fs d n
      \<or> (d = dir \<and> lookup fs d n = None \<and> lookup fs'' d n = lookup fs w n
         \<and> is_regular (lookup fs w n) \<and> visible n)" for d n
    using linked_lookup [OF assms(2), of d n] linked_lookup [OF assms(3), of d n] w [of n]
    by (elim disjE) auto
  then show ?thesis using assms(2,3) by (auto simp: linked_def)
qed

lemma link_files_links:
  assumes "w \<noteq> dir"
    "\<And>n. n \<in> set ns \<Longrightarrow> slash \<notin> set n \<and> length (join w n) < PATH_MAX \<and> length (join dir n) < PATH_MAX"
    "link_files R w (\<lambda>n. path_buf (join dir n)) ns (ret, fs) = (ret', fs')"
  shows "linked w dir fs fs' \<and> (ret' = ret \<or> ret' = -1)
       \<and> (ret = 0 \<longrightarrow> ret' = 0 \<longrightarrow> (\<forall>n\<in>set ns. visible n \<longrightarrow> is_regular (fstatat R fs w n) \<longrightarrow>
            lookup fs' dir n = lookup fs w n))
       \<and> (ret = -1 \<longrightarrow> ret' = -1)"
  using assms(2-)
proof (induction ns arbitrary: ret fs)
  case Nil
  then show ?case by (simp add: linked_refl)
next
  case (Cons n ns)
  show ?case
  proof (cases "is_regular (fstatat R fs w n) \<and> visible n")
    case False
    then have "link_files R w (\<lambda>n. path_buf (join dir n)) ns (ret, fs) = (ret', fs')"
      using Cons.prems(2) by (auto simp: visible_def split: if_splits)
    from Cons.IH [OF _ this] show ?thesis using Cons.prems(1) False by auto
  next
    case True
    obtain c fs1 where l: "linkat R fs w n dir n = (c, fs1)" by fastforce
    then have "link R fs (path_buf (join w n)) (path_buf (join dir n)) = (c, fs1)"
      using Cons.prems(1) [of n] by (simp add: link_def)
    then have rest: "link_files R w (\<lambda>n. path_buf (join dir n)) ns (if c < 0 then -1 else ret, fs1) = (ret', fs')"
      using Cons.prems(2) True by (auto simp: visible_def)
    have reg: "is_regular (lookup fs w n)" using True by (auto simp: fstatat_def is_regular_def split: if_splits)
    have step: "linked w dir fs fs1 \<and> (c = 0 \<and> lookup fs1 dir n = lookup fs w n \<or> c = -1)"
      using l reg True
      by (rule_tac linkat_cases [of R fs w n dir n]) (auto simp: linked_def lookup_add_entry split: if_splits)
    have w: "fstatat R fs1 w m = fstatat R fs w m" "lookup fs1 w m = lookup fs w m" for m
      using linked_lookup [of w dir fs fs1 w m] step assms(1) by (auto simp: fstatat_def)
    note IH = Cons.IH [OF _ rest]
    have "linked w dir fs fs'"
      using linked_trans [OF assms(1)] step IH Cons.prems(1) by auto
    moreover have "lookup fs' dir n = lookup fs w n" if "c = 0"
    proof -
      have "lookup fs' dir n = lookup fs1 dir n"
        using linked_lookup [of w dir fs1 fs' dir n] IH Cons.prems(1) step that is_regular_NoneD [OF reg] by auto
      then show ?thesis using step that by simp
    qed
    ultimately show ?thesis
      using IH Cons.prems(1) step w by (auto split: if_splits)
  qed
qed

text \<open>
  C11. \<^const>\<open>lmapd_workspace_action_move\<close> defers exactly the moves to another schedule that it was asked to defer, and then changes
  nothing. Otherwise it only adds names in the destination's queue (its incoming
  queue, or its active one if it is the action's own schedule), for regular files of the workspace whose name
  starts neither with an underscore nor with a dot, never replacing anything; if it returns 0, all of those files that could be
  examined are there.
\<close>

theorem lmapd_workspace_action_move_links:
  assumes "fs_wf fs" "sched_name s = Some sn" "act_name a = Some an" "act_workspace a = Some w"
    "sched_workspace dest = Some dw" "dir = (if own then dw else join dw LMAPD_QUEUE_INCOMING_NAME)"
    "dir \<noteq> w" "\<And>n. lookup fs w n \<noteq> None \<Longrightarrow> length (join w n) < PATH_MAX \<and> length (join dir n) < PATH_MAX"
    "lmapd_workspace_action_move R (Some s) (Some a) (Some dest) own defer fs = (ret, fs')"
  shows "(ret = 1 \<longleftrightarrow> defer \<and> \<not> own) \<and> (ret = 1 \<longrightarrow> fs' = fs) \<and> linked w dir fs fs'
       \<and> (ret = 0 \<longrightarrow> (\<forall>n i. lookup fs w n = Some (Regular i) \<and> visible n \<and> \<not> R (Fstatat w n) \<longrightarrow>
            lookup fs' dir n = Some (Regular i)))"
proof (cases "defer \<and> \<not> own")
  case True
  then show ?thesis using assms by (simp add: lmapd_workspace_action_move_def linked_refl)
next
  case now: False
  show ?thesis
  proof (cases "opendir R fs w")
    case None
    then show ?thesis using assms now by (auto simp: lmapd_workspace_action_move_def linked_refl)
  next
    case (Some ns)
    note names = opendir_names [OF assms(1) Some]
    have run: "link_files R w (\<lambda>n. path_buf (join dir n)) ns (0, fs) = (ret, fs')"
      using assms(2-6,9) now Some by (cases own) (auto simp: lmapd_workspace_action_move_def)
    have short: "slash \<notin> set n \<and> length (join w n) < PATH_MAX \<and> length (join dir n) < PATH_MAX"
      if "n \<in> set ns" for n
    proof -
      have "lookup fs w n \<noteq> None"
        using that names(1,2) entries_iff [OF assms(1), of n w]
        by (cases "dot_name n") (simp add: lookup_def, auto simp: dot_name_def)
      then show ?thesis using that names(3) assms(8) by auto
    qed
    note t = link_files_links [OF assms(7) [symmetric] short run]
    have "lookup fs' dir n = Some (Regular i)"
      if "ret = 0" "lookup fs w n = Some (Regular i)" "visible n" "\<not> R (Fstatat w n)" for n i
    proof -
      have "n \<in> set ns" using lookup_entries [OF that(2)] names(1) by simp
      then show ?thesis using t that by (simp add: fstatat_def is_regular_def)
    qed
    then show ?thesis using t now by auto
  qed
qed

theorem lmapd_workspace_action_move_links_witness:
  "let fs = example_workspace\<lparr>fs_dirs := (fs_dirs example_workspace)(''q/s/_incoming'' \<mapsto> [])\<rparr>;
       r = lmapd_workspace_action_move (\<lambda>_. False) (Some example_schedule) (Some example_action)
             (Some example_schedule) False False fs
   in fst r = 0 \<and> lookup (snd r) ''q/s/_incoming'' ''1.data'' = Some (Regular 0)"
proof -
  let ?fs = "example_workspace\<lparr>fs_dirs := (fs_dirs example_workspace)(''q/s/_incoming'' \<mapsto> [])\<rparr>"
  let ?r = "lmapd_workspace_action_move (\<lambda>_. False) (Some example_schedule) (Some example_action)
             (Some example_schedule) False False ?fs"
  have names: "sched_name example_schedule = Some ''s''" "act_name example_action = Some ''a''"
    "act_workspace example_action = Some ''q/s/a''" "sched_workspace example_schedule = Some ''q/s''"
    by (simp_all add: example_schedule_def example_action_def)
  have dir: "''q/s/_incoming'' = (if False then ''q/s'' else join ''q/s'' LMAPD_QUEUE_INCOMING_NAME)"
    by (simp add: join_def LMAPD_QUEUE_INCOMING_NAME_def)
  have wf: "fs_wf ?fs"
    by (auto simp: fs_wf_def example_workspace_def dot_name_def split: if_splits)
  have short: "length (join ''q/s/a'' n) < PATH_MAX \<and> length (join ''q/s/_incoming'' n) < PATH_MAX"
    if "lookup ?fs ''q/s/a'' n \<noteq> None" for n
    using that
    by (auto simp: lookup_def example_workspace_def entries_def dot_name_def join_def PATH_MAX_def split: if_splits)
  have neq: "''q/s/_incoming'' \<noteq> ''q/s/a''" by simp
  have data: "lookup ?fs ''q/s/a'' ''1.data'' = Some (Regular 0)" "visible ''1.data''" and ret: "fst ?r = 0"
    by code_simp+
  have "?r = (fst ?r, snd ?r)" by simp
  note t = lmapd_workspace_action_move_links [OF wf names dir neq short this]
  have "lookup (snd ?r) ''q/s/_incoming'' ''1.data'' = Some (Regular 0)"
    using conjunct2 [OF conjunct2 [OF conjunct2 [OF t]]] ret data by blast
  then show ?thesis using ret by (simp add: Let_def)
qed

section \<open>The workspaces are there\<close>

definition in_place :: "fs \<Rightarrow> string \<Rightarrow> bool" where
  "in_place fs p \<longleftrightarrow> (case split_path p of (d, n) \<Rightarrow> lookup fs d n \<noteq> None)"

definition grows :: "fs \<Rightarrow> fs \<Rightarrow> bool" where
  "grows fs fs' \<longleftrightarrow> (\<forall>d n. lookup fs d n \<noteq> None \<longrightarrow> lookup fs' d n \<noteq> None)"

lemma grows_refl: "grows fs fs" and grows_trans: "grows fs fs' \<Longrightarrow> grows fs' fs'' \<Longrightarrow> grows fs fs''"
  by (auto simp: grows_def)

lemma in_place_grows: "in_place fs p \<Longrightarrow> grows fs fs' \<Longrightarrow> in_place fs' p"
  by (auto simp: in_place_def grows_def split: prod.splits)

lemma mkdir_ok_place:
  "mkdir_ok R fs p = (b, fs') \<Longrightarrow> grows fs fs' \<and> (b \<longrightarrow> in_place fs' p)"
proof -
  assume mk: "mkdir_ok R fs p = (b, fs')"
  obtain d n where dn: "split_path p = (d, n)" by fastforce
  have new: "grows f (new_directory f p)" for f
    by (auto simp: grows_def new_directory_def lookup_def entries_def)
  have "grows fs (add_entry fs d n Directory) \<and> lookup (add_entry fs d n Directory) d n \<noteq> None"
    if "lookup fs d n = None" "fs_dirs fs d \<noteq> None"
    using that by (auto simp: grows_def lookup_add_entry)
  moreover have "grows f f' \<Longrightarrow> lookup f d n \<noteq> None \<Longrightarrow> in_place f' p" for f f'
    using dn by (simp add: in_place_def grows_def)
  ultimately have made: "grows fs fs' \<and> in_place fs' p"
    if "lookup fs d n = None" "fs_dirs fs d \<noteq> None" "fs' = new_directory (add_entry fs d n Directory) p"
    using that new [of "add_entry fs d n Directory"] grows_trans by blast
  consider "fs' = fs" "b \<longrightarrow> lookup fs d n \<noteq> None"
    | "lookup fs d n = None" "fs_dirs fs d \<noteq> None" "fs' = new_directory (add_entry fs d n Directory) p"
  proof (cases "lookup fs d n = None \<and> \<not> (R (Mkdir p) \<or> fs_dirs fs d = None)")
    case True
    then have "fs' = new_directory (add_entry fs d n Directory) p"
      using mk unfolding mkdir_ok_def mkdir_def dn by (elim conjE) simp
    then show thesis using that(2) True by simp
  next
    case False
    then have "fs' = fs \<and> (b \<longrightarrow> lookup fs d n \<noteq> None)"
      using mk unfolding mkdir_ok_def mkdir_def dn
      by (cases "lookup fs d n"; cases "R (Mkdir p)"; cases "fs_dirs fs d") simp_all
    then show thesis using that(1) by simp
  qed
  then show ?thesis
    using made dn by cases (simp_all add: grows_refl in_place_def)
qed

definition action_placed :: "fs \<Rightarrow> string \<Rightarrow> action \<Rightarrow> bool" where
  "action_placed fs w a \<longleftrightarrow>
     (act_name a \<noteq> None \<longrightarrow>
        act_workspace a = Some (path_buf (join w (mksafe (act_name a))))
        \<and> in_place fs (path_buf (join w (mksafe (act_name a)))))"

definition schedule_placed :: "fs \<Rightarrow> string \<Rightarrow> schedule \<Rightarrow> bool" where
  "schedule_placed fs q s \<longleftrightarrow>
     (sched_name s \<noteq> None \<longrightarrow>
        (let w = path_buf (join q (mksafe (sched_name s)))
         in sched_workspace s = Some w \<and> in_place fs w
            \<and> in_place fs (path_buf (join w LMAPD_QUEUE_INCOMING_NAME))
            \<and> (\<forall>a\<in>set (sched_actions s). action_placed fs w a)))"

lemma placed_grows:
  "action_placed fs w a \<Longrightarrow> grows fs fs' \<Longrightarrow> action_placed fs' w a"
  "schedule_placed fs q s \<Longrightarrow> grows fs fs' \<Longrightarrow> schedule_placed fs' q s"
  by (auto simp: action_placed_def schedule_placed_def Let_def intro: in_place_grows)

lemma init_actions_placed:
  "init_actions R (Some w) as (ret, fs) = ((ret', fs'), as') \<Longrightarrow>
     grows fs fs' \<and> map act_name as' = map act_name as \<and> (ret' = ret \<or> ret' = -1)
     \<and> (ret' = 0 \<longrightarrow> ret = 0 \<and> (\<forall>a\<in>set as'. action_placed fs' w a))"
proof (induction as arbitrary: ret fs as')
  case Nil
  then show ?case by (simp add: grows_refl)
next
  case (Cons a as)
  let ?p = "path_buf (join w (mksafe (act_name a)))"
  obtain b fs1 where mk: "mkdir_ok R fs ?p = (b, fs1)" by fastforce
  note place = mkdir_ok_place [OF mk]
  show ?case
  proof (cases "act_name a = None")
    case True
    then obtain as2 where "init_actions R (Some w) as (ret, fs) = ((ret', fs'), as2)" "as' = a # as2"
      using Cons.prems by (auto split: prod.splits)
    then show ?thesis using Cons.IH True by (fastforce simp: action_placed_def)
  next
    case False
    define r where "r = (if b then ret else -1)"
    obtain as2 where rest: "init_actions R (Some w) as (r, fs1) = ((ret', fs'), as2)"
      and as': "as' = (if b then snd (lmap_action_set_workspace a (Some ?p)) else a) # as2"
      using Cons.prems False mk by (cases b) (auto simp: print_path_def Let_def r_def split: prod.splits)
    note IH = Cons.IH [OF rest]
    have name: "act_name (snd (lmap_action_set_workspace a (Some ?p))) = act_name a"
      "act_workspace (snd (lmap_action_set_workspace a (Some ?p))) = Some ?p"
      by (simp_all add: lmap_action_set_workspace_def set_string_def)
    have "action_placed fs' w (snd (lmap_action_set_workspace a (Some ?p)))" if b
      using that place IH by (auto simp: action_placed_def name intro: in_place_grows)
    then show ?thesis
      using IH place as' name(1) grows_trans [of fs fs1 fs'] by (auto simp: r_def split: if_splits)
  qed
qed

lemma init_schedule_placed:
  assumes "init_schedule R q s (ret, fs) = ((ret', fs'), s')"
  shows "grows fs fs' \<and> sched_name s' = sched_name s \<and> (ret' = ret \<or> ret' = -1)
    \<and> map act_name (sched_actions s') = map act_name (sched_actions s)
    \<and> (ret' = 0 \<longrightarrow> ret = 0 \<and> schedule_placed fs' q s')"
proof (cases "sched_name s = None")
  case True
  then show ?thesis using assms by (simp add: init_schedule_def schedule_placed_def grows_refl)
next
  case False
  let ?w = "path_buf (join q (mksafe (sched_name s)))"
  let ?s = "snd (lmap_schedule_set_workspace s (Some ?w))"
  have s: "sched_name ?s = sched_name s" "sched_workspace ?s = Some ?w" "sched_actions ?s = sched_actions s"
    by (simp_all add: lmap_schedule_set_workspace_def set_string_def)
  obtain b1 fs1 where mk1: "mkdir_ok R fs ?w = (b1, fs1)" by fastforce
  obtain r2 fs2 as where acts: "init_actions R (Some ?w) (sched_actions s) (if b1 then ret else -1, fs1) = ((r2, fs2), as)"
    by (metis prod.exhaust)
  obtain b3 fs3 where mk3: "mkdir_ok R fs2 (path_buf (join ?w LMAPD_QUEUE_INCOMING_NAME)) = (b3, fs3)" by fastforce
  have res: "ret' = (if b3 then r2 else -1)" "fs' = fs3" "s' = ?s\<lparr>sched_actions := as\<rparr>"
    using assms False mk1 acts mk3 by (cases b1; auto simp: init_schedule_def Let_def s print_path_def)+
  note p1 = mkdir_ok_place [OF mk1] and p2 = init_actions_placed [OF acts] and p3 = mkdir_ok_place [OF mk3]
  have g: "grows fs fs3" "grows fs1 fs3" using p1 p2 p3 grows_trans by blast+
  have "schedule_placed fs3 q s'" if "ret' = 0"
    unfolding schedule_placed_def Let_def
    using that p1 p2 p3 g res(1) s placed_grows(1)
    by (auto simp: res(3) intro: in_place_grows split: if_splits)
  then show ?thesis using res p1 p2 p3 g s by (auto split: if_splits)
qed

lemma init_schedules_placed:
  "init_schedules R q ss (ret, fs) = ((ret', fs'), ss') \<Longrightarrow>
     grows fs fs' \<and> map sched_name ss' = map sched_name ss \<and> (ret' = ret \<or> ret' = -1)
     \<and> (ret' = 0 \<longrightarrow> ret = 0 \<and> (\<forall>s\<in>set ss'. schedule_placed fs' q s))"
proof (induction ss arbitrary: ret fs ss')
  case Nil
  then show ?case by (simp add: grows_refl)
next
  case (Cons s ss)
  obtain r1 fs1 s1 where one: "init_schedule R q s (ret, fs) = ((r1, fs1), s1)" by (metis prod.exhaust)
  obtain ss2 where rest: "init_schedules R q ss (r1, fs1) = ((ret', fs'), ss2)" "ss' = s1 # ss2"
    using Cons.prems one by (auto split: prod.splits)
  show ?case
    using init_schedule_placed [OF one] Cons.IH [OF rest(1)] rest(2) grows_trans [of fs fs1 fs'] placed_grows(2)
    by auto
qed

text \<open>
  C29. If \<^const>\<open>lmapd_workspace_init\<close> returns 0, every schedule and every action that has a name has its workspace set to the queue
  path with the safe names below it, and the workspaces and each schedule's incoming queue exist; it
  never removes anything, and it returns 0 or -1.
\<close>

theorem lmapd_workspace_init_placed:
  assumes "ld_lmap l = Some m" "ld_queue_path l = Some q"
    "lmapd_workspace_init R l fs = ((ret, fs'), l')"
  shows "grows fs fs' \<and> (ret = 0 \<or> ret = -1)
    \<and> (ret = 0 \<longrightarrow> (\<exists>m'. ld_lmap l' = Some m' \<and> map sched_name (lm_schedules m') = map sched_name (lm_schedules m)
         \<and> (\<forall>s\<in>set (lm_schedules m'). schedule_placed fs' q s)))"
proof -
  obtain ss where "init_schedules R q (lm_schedules m) (0, fs) = ((ret, fs'), ss)"
    and "l' = l\<lparr>ld_lmap := Some (m\<lparr>lm_schedules := ss\<rparr>)\<rparr>"
    using assms by (auto simp: lmapd_workspace_init_def split: prod.splits)
  then show ?thesis using init_schedules_placed by fastforce
qed

definition example_lmapd :: lmapd where
  "example_lmapd =
     lmapd_new\<lparr>ld_queue_path := Some ''q'',
       ld_lmap := Some (lmap_new\<lparr>lm_schedules := [example_schedule\<lparr>sched_actions := [example_action]\<rparr>]\<rparr>)\<rparr>"

definition empty_queue :: fs where
  "empty_queue = \<lparr>fs_dirs = [''q'' \<mapsto> []], fs_data = (\<lambda>_. []), fs_next = 0\<rparr>"

theorem lmapd_workspace_init_placed_witness:
  "let r = lmapd_workspace_init (\<lambda>_. False) example_lmapd empty_queue
   in fst (fst r) = 0
      \<and> (\<exists>m'. ld_lmap (snd r) = Some m' \<and> (\<forall>s\<in>set (lm_schedules m'). schedule_placed (snd (fst r)) ''q'' s))"
proof -
  let ?r = "lmapd_workspace_init (\<lambda>_. False) example_lmapd empty_queue"
  obtain m where m: "ld_lmap example_lmapd = Some m" "ld_queue_path example_lmapd = Some ''q''"
    by (simp add: example_lmapd_def)
  have ret: "fst (fst ?r) = 0" by code_simp
  have "?r = ((fst (fst ?r), snd (fst ?r)), snd ?r)" by simp
  note t = lmapd_workspace_init_placed [OF m this]
  from mp [OF conjunct2 [OF conjunct2 [OF t]] ret] ret show ?thesis by (auto simp: Let_def)
qed

end
