(* ===== verification/Csv.thy ===== *)
theory Csv
  imports Prelude
begin

text \<open>
  The CSV writer and reader of \<^verbatim>\<open>src/csv.c\<close>. Writing appends to the text of the file. Reading goes
  through a stream: the bytes not yet read and C's end-of-file flag, which \<open>fgetc\<close> sets when it
  finds nothing left. The reader's buffer is the list of the characters stored so far together with
  the size allocated for it, so that a store beyond the allocation is a fault.
\<close>

section \<open>Writing\<close>

definition needs_quote :: "char \<Rightarrow> string \<Rightarrow> bool" where
  "needs_quote d f \<longleftrightarrow>
     list_ex (\<lambda>c. (d \<noteq> CHR 0x00 \<and> c = d) \<or> c = quote_char \<or> isspace c) f"

definition double_quotes :: "string \<Rightarrow> string" where
  "double_quotes f = concat (map (\<lambda>c. if c = quote_char then [c, c] else [c]) f)"

definition append_field :: "char \<Rightarrow> string option \<Rightarrow> string" where
  "append_field d field =
     (case field of
        None \<Rightarrow> [newline]
      | Some f \<Rightarrow>
          if needs_quote d f then quote_char # double_quotes f @ [quote_char] else f)"

definition csv_append :: "string \<Rightarrow> char \<Rightarrow> string option \<Rightarrow> string" where
  "csv_append out d field = (out @ [d]) @ append_field d field"

definition csv_start :: "string \<Rightarrow> char \<Rightarrow> string option \<Rightarrow> string" where
  "csv_start out d field = out @ append_field d field"

definition csv_end :: "string \<Rightarrow> string" where
  "csv_end out = out @ append_field (CHR 0x00) None"

definition csv_append_key_value :: "string \<Rightarrow> char \<Rightarrow> string option \<Rightarrow> string option \<Rightarrow> string" where
  "csv_append_key_value out d key val =
     (if key \<noteq> None \<and> val \<noteq> None
      then csv_end (csv_append (csv_start out d key) d val)
      else out)"

section \<open>Reading\<close>

record stream =
  st_in :: string
  st_eof :: bool

definition open_stream :: "string \<Rightarrow> stream" where
  "open_stream s = \<lparr>st_in = s, st_eof = False\<rparr>"

text \<open>What follows the loop of \<open>csv_next\<close>: the buffer is \<open>NULL\<close> as long as nothing is allocated.\<close>

definition csv_finish :: "nat \<Rightarrow> string \<Rightarrow> stream \<Rightarrow> (string option \<times> stream) outcome" where
  "csv_finish sz buf st =
     (if sz = 0 then Inr (None, st)
      else (let sz' = (if sz \<le> length buf then sz + 2 else sz)
            in if length buf < sz' then Inr (Some buf, st) else Inl Out_Of_Bounds))"

fun csv_loop :: "char \<Rightarrow> nat \<Rightarrow> string \<Rightarrow> bool \<Rightarrow> string \<Rightarrow> (string option \<times> stream) outcome" where
  "csv_loop d sz buf quoted [] = csv_finish sz buf \<lparr>st_in = [], st_eof = True\<rparr>"
| "csv_loop d sz buf quoted (c # r) =
     (if \<not> quoted \<and> c = d then csv_finish sz buf (open_stream r)
      else if c = newline then
        if buf = [] then Inr (None, open_stream r)
        else csv_finish sz buf (open_stream (c # r))
      else if buf = [] \<and> \<not> quoted \<and> isspace c then csv_loop d sz buf quoted r
      else if buf = [] \<and> c = quote_char then csv_loop d sz buf True r
      else
        (let sz' = (if sz \<le> length buf then sz + 64 else sz)
         in if c = quote_char \<and> quoted then
              (case r of
                 [] \<Rightarrow> csv_finish sz' buf \<lparr>st_in = [], st_eof = True\<rparr>
               | c' # r' \<Rightarrow>
                   if c' = d \<or> c' = newline then csv_finish sz' buf (open_stream r')
                   else if length buf < sz' then csv_loop d sz' (buf @ [c']) quoted r'
                   else Inl Out_Of_Bounds)
            else if length buf < sz' then csv_loop d sz' (buf @ [c]) quoted r
            else Inl Out_Of_Bounds))"

declare csv_loop.simps [simp del]

text \<open>
  The next field, or \<open>None\<close> for \<open>NULL\<close>; \<open>errno\<close> is 0 either way. Once the end-of-file flag is set, \<open>fgetc\<close> finds nothing.
\<close>

definition csv_next :: "char \<Rightarrow> stream \<Rightarrow> (string option \<times> stream) outcome" where
  "csv_next d st = csv_loop d 0 [] False (if st_eof st then [] else st_in st)"

lemma csv_finish_None: "csv_finish sz buf st = Inr (None, st') \<Longrightarrow> st' = st"
  by (auto simp: csv_finish_def Let_def split: if_splits)

text \<open>A read either finds the end of the file or leaves fewer than \<open>n\<close> bytes.\<close>

definition leaves_less :: "nat \<Rightarrow> (string option \<times> stream) outcome \<Rightarrow> bool" where
  "leaves_less n r =
     (case r of Inl _ \<Rightarrow> True | Inr (_, st) \<Rightarrow> st_eof st \<or> length (st_in st) < n)"

lemma leaves_less_simps [simp]:
  "leaves_less n (Inl e)"
  "leaves_less n (Inr (x, st)) \<longleftrightarrow> st_eof st \<or> length (st_in st) < n"
  by (simp_all add: leaves_less_def)

lemma leaves_less_finish: "st_eof st \<or> length (st_in st) < n \<Longrightarrow> leaves_less n (csv_finish sz buf st)"
  by (simp add: csv_finish_def Let_def)

lemma csv_loop_leaves_less:
  "length s + (if buf = [] then 0 else 1) \<le> n \<Longrightarrow> leaves_less n (csv_loop d sz buf q s)"
proof (induction "length s" arbitrary: sz buf q s n rule: less_induct)
  case less
  have IH: "leaves_less n (csv_loop d sz' buf' q' s')"
    if "length s' < length s" "length s' + (if buf' = [] then 0 else 1) \<le> n" for s' sz' buf' q'
    using less.hyps that by blast
  show ?case
  proof (cases s)
    case Nil
    then show ?thesis by (simp add: csv_loop.simps leaves_less_finish)
  next
    case (Cons c r)
    then show ?thesis
      using less.prems
      by (subst Cons, subst csv_loop.simps)
        (auto simp: Let_def leaves_less_finish open_stream_def IH split: list.split if_splits)
  qed
qed

lemma csv_next_shorter:
  "csv_next d st = Inr (res, st') \<Longrightarrow> \<not> st_eof st' \<Longrightarrow> length (st_in st') < length (st_in st)"
  using csv_loop_leaves_less [of "if st_eof st then [] else st_in st" "[]" "length (st_in st)" d 0 False]
  by (simp add: csv_next_def)

lemma csv_next_eof: "csv_next d st = Inr (res, st') \<Longrightarrow> st_eof st \<Longrightarrow> st_eof st'"
  by (auto simp: csv_next_def csv_loop.simps csv_finish_def)

text \<open>
  The loop of \<open>csv_next_key_value\<close> that skips empty lines and empty fields: \<open>None\<close> when the file ends first.
\<close>

function csv_skip :: "char \<Rightarrow> stream \<Rightarrow> (string option \<times> stream) outcome" where
  "csv_skip d st =
     (case csv_next d st of
        Inl e \<Rightarrow> Inl e
      | Inr (Some s, st') \<Rightarrow> Inr (Some s, st')
      | Inr (None, st') \<Rightarrow> if st_eof st' then Inr (None, st') else csv_skip d st')"
  by pat_completeness auto
termination
  by (relation "measure (\<lambda>(d, st). length (st_in st))") (auto dest: csv_next_shorter)

declare csv_skip.simps [simp del]

definition csv_next_key_value ::
  "char \<Rightarrow> stream \<Rightarrow> (string option \<times> string option \<times> stream) outcome" where
  "csv_next_key_value d st =
     (if st_eof st then Inr (None, None, st)
      else case csv_skip d st of
        Inl e \<Rightarrow> Inl e
      | Inr (None, st') \<Rightarrow> Inr (None, None, st')
      | Inr (Some s, st') \<Rightarrow>
          (case csv_next d st' of
             Inl e \<Rightarrow> Inl e
           | Inr (v, st'') \<Rightarrow> Inr (Some s, v, st'')))"

section \<open>The reader stays within its buffer\<close>

lemma csv_finish_ok: "length buf \<le> sz \<Longrightarrow> ok (csv_finish sz buf st)"
  by (simp add: csv_finish_def Let_def)

lemma csv_loop_ok: "length buf \<le> sz \<Longrightarrow> ok (csv_loop d sz buf q s)"
proof (induction "length s" arbitrary: sz buf q s rule: less_induct)
  case less
  have IH: "ok (csv_loop d sz' buf' q' s')" if "length s' < length s" "length buf' \<le> sz'" for s' sz' buf' q'
    using less.hyps that by blast
  show ?case
  proof (cases s)
    case Nil
    then show ?thesis using less.prems by (simp add: csv_finish_ok csv_loop.simps)
  next
    case (Cons c r)
    then show ?thesis
      using less.prems
      by (subst Cons, subst csv_loop.simps)
        (auto simp: Let_def csv_finish_ok IH split: list.split)
  qed
qed

lemma csv_next_ok [simp]: "ok (csv_next d st)"
  by (simp add: csv_next_def csv_loop_ok)

lemma csv_skip_ok [simp]: "ok (csv_skip d st)"
proof (induction d st rule: csv_skip.induct)
  case (1 d st)
  have "ok (csv_next d st)" by simp
  with 1 show ?case
    by (subst csv_skip.simps) (auto simp: ok_iff split: option.split)
qed

lemma csv_next_key_value_ok: "ok (csv_next_key_value d st)"
  unfolding csv_next_key_value_def
  using csv_skip_ok [of d st] csv_next_ok
  by (fastforce simp: ok_def split: sum.splits option.splits)

section \<open>What is written is read back\<close>

text \<open>
  The fields that survive: not empty, no leading quote, no newline. The delimiter is neither of the
  characters with a meaning of their own, nor white space.
\<close>

definition field_ok :: "string \<Rightarrow> bool" where
  "field_ok f \<longleftrightarrow> f \<noteq> [] \<and> hd f \<noteq> quote_char \<and> newline \<notin> set f"

definition delimiter_ok :: "char \<Rightarrow> bool" where
  "delimiter_ok d \<longleftrightarrow> d \<noteq> CHR 0x00 \<and> d \<noteq> quote_char \<and> \<not> isspace d"

lemma delimiter_ok_newline: "delimiter_ok d \<Longrightarrow> d \<noteq> newline"
  by (auto simp: delimiter_ok_def isspace_def code_def)

lemma newline_isspace: "isspace newline"
  by (simp add: isspace_def code_def)

lemma quote_not_space: "\<not> isspace quote_char"
  by (simp add: isspace_def code_def)

lemma csv_finish_stored: "length buf \<le> sz \<Longrightarrow> sz \<noteq> 0 \<Longrightarrow> csv_finish sz buf st = Inr (Some buf, st)"
  by (simp add: csv_finish_def Let_def)

text \<open>The end of a field that is not quoted: a delimiter, which is consumed, or a newline, which stays.\<close>

definition after_plain :: "char \<Rightarrow> char \<Rightarrow> string \<Rightarrow> string" where
  "after_plain d c r = (if c = d then r else c # r)"

lemma csv_loop_plain:
  assumes "\<not> needs_quote d f" "d \<noteq> CHR 0x00" "c = d \<or> c = newline" "delimiter_ok d"
    "buf @ f \<noteq> []" "length buf \<le> sz" "buf = [] \<or> sz \<noteq> 0"
  shows "csv_loop d sz buf False (f @ c # r) = Inr (Some (buf @ f), open_stream (after_plain d c r))"
  using assms
proof (induction f arbitrary: sz buf)
  case Nil
  then show ?case
    using delimiter_ok_newline [OF Nil(4)]
    by (auto simp: csv_loop.simps csv_finish_stored after_plain_def)
next
  case (Cons x f)
  let ?sz = "if sz \<le> length buf then sz + 64 else sz"
  have "csv_loop d ?sz (buf @ [x]) False (f @ c # r)
      = Inr (Some ((buf @ [x]) @ f), open_stream (after_plain d c r))"
    using Cons.prems by (intro Cons.IH) (auto simp: needs_quote_def)
  then show ?case
    using Cons.prems newline_isspace
    by (auto simp: csv_loop.simps Let_def needs_quote_def split: if_splits)
qed

lemma csv_loop_quoted:
  assumes "newline \<notin> set f" "c = d \<or> c = newline" "delimiter_ok d"
    "length buf \<le> sz" "buf = [] \<Longrightarrow> f \<noteq> [] \<and> hd f \<noteq> quote_char" "buf = [] \<or> sz \<noteq> 0"
  shows "csv_loop d sz buf True (double_quotes f @ quote_char # c # r) = Inr (Some (buf @ f), open_stream r)"
  using assms
proof (induction f arbitrary: sz buf)
  case Nil
  then show ?case
    by (auto simp: csv_loop.simps double_quotes_def Let_def csv_finish_stored)
next
  case (Cons x f)
  let ?sz = "if sz \<le> length buf then sz + 64 else sz"
  have "csv_loop d ?sz (buf @ [x]) True (double_quotes f @ quote_char # c # r)
      = Inr (Some ((buf @ [x]) @ f), open_stream r)"
    using Cons.prems by (intro Cons.IH) auto
  moreover have "d \<noteq> quote_char"
    using Cons.prems by (simp add: delimiter_ok_def)
  ultimately show ?case
    using Cons.prems
    by (auto simp: csv_loop.simps Let_def double_quotes_def split: if_splits)
qed

text \<open>Where the reader stands after a field: a quoted one takes the newline with it.\<close>

definition after_field :: "char \<Rightarrow> string \<Rightarrow> char \<Rightarrow> string \<Rightarrow> string" where
  "after_field d f c r = (if needs_quote d f then r else after_plain d c r)"

lemma csv_next_append_field:
  assumes "field_ok f" "delimiter_ok d" "c = d \<or> c = newline"
  shows "csv_next d (open_stream (append_field d (Some f) @ c # r))
    = Inr (Some f, open_stream (after_field d f c r))"
proof (cases "needs_quote d f")
  case True
  have "csv_loop d 0 [] True (double_quotes f @ quote_char # c # r) = Inr (Some ([] @ f), open_stream r)"
    using assms by (intro csv_loop_quoted) (auto simp: field_ok_def)
  moreover have "csv_loop d 0 [] False (quote_char # double_quotes f @ quote_char # c # r)
      = csv_loop d 0 [] True (double_quotes f @ quote_char # c # r)"
    using assms(2) by (subst csv_loop.simps) (auto simp: delimiter_ok_def quote_not_space)
  ultimately show ?thesis
    using True by (simp add: csv_next_def open_stream_def append_field_def after_field_def)
next
  case False
  then have "csv_loop d 0 [] False (f @ c # r) = Inr (Some ([] @ f), open_stream (after_plain d c r))"
    using assms by (intro csv_loop_plain) (auto simp: field_ok_def delimiter_ok_def)
  then show ?thesis
    using False by (simp add: csv_next_def open_stream_def append_field_def after_field_def)
qed

lemma csv_next_newline: "d \<noteq> newline \<Longrightarrow>
  csv_next d (open_stream (newline # r)) = Inr (None, open_stream r)"
  by (simp add: csv_next_def open_stream_def csv_loop.simps)

lemma csv_skip_newline: "d \<noteq> newline \<Longrightarrow>
  csv_skip d (open_stream (newline # r)) = csv_skip d (open_stream r)"
  by (subst csv_skip.simps) (simp add: csv_next_newline, simp add: open_stream_def)

lemma open_stream_eof [simp]: "\<not> st_eof (open_stream s)" and open_stream_in [simp]: "st_in (open_stream s) = s"
  by (simp_all add: open_stream_def)

lemma csv_next_key_value_newline: "d \<noteq> newline \<Longrightarrow>
  csv_next_key_value d (open_stream (newline # r)) = csv_next_key_value d (open_stream r)"
  by (simp add: csv_next_key_value_def csv_skip_newline)

lemma csv_skip_field: "csv_next d st = Inr (Some s, st') \<Longrightarrow> csv_skip d st = Inr (Some s, st')"
  by (subst csv_skip.simps) simp

lemma csv_next_key_value_pair:
  assumes "field_ok k" "field_ok v" "delimiter_ok d"
  shows "csv_next_key_value d (open_stream (csv_append_key_value [] d (Some k) (Some v) @ r))
    = Inr (Some k, Some v, open_stream (after_field d v newline r))"
proof -
  have line: "csv_append_key_value [] d (Some k) (Some v) @ r
      = append_field d (Some k) @ d # (append_field d (Some v) @ newline # r)"
    by (simp add: csv_append_key_value_def csv_start_def csv_append_def csv_end_def append_field_def)
  have "csv_skip d (open_stream (append_field d (Some k) @ d # (append_field d (Some v) @ newline # r)))
      = Inr (Some k, open_stream (append_field d (Some v) @ newline # r))"
    using assms by (intro csv_skip_field)
      (simp add: csv_next_append_field after_field_def, simp add: after_plain_def)
  then show ?thesis
    using assms by (simp add: line csv_next_key_value_def csv_next_append_field)
qed

end
