(* ===== verification/Result_Files.thy ===== *)
theory Result_Files
  imports Workspace Csv Results Libc_Instance
begin

text \<open>
  The result files of \<^verbatim>\<open>src/workspace.c\<close>: the names of the data and meta files, writing the meta file when an action
  starts and when it ends, and reading results and tables back.
\<close>

section \<open>File names\<close>

definition delimiter :: char where
  "delimiter = CHR '';''"

text \<open>\<open>%llu\<close> of a \<open>time_t\<close> cast to \<open>unsigned long long\<close>, and \<open>%d\<close> of an \<open>int\<close>.\<close>

definition print_time :: "int \<Rightarrow> string" where
  "print_time t = dec (nat (t mod 2 ^ 64))"

definition result_path :: "string \<Rightarrow> schedule \<Rightarrow> action \<Rightarrow> string" where
  "result_path ext s a =
     path_buf (join (print_path (act_workspace a))
                 (print_time (act_last_invocation a) @ ''-'' @ mksafe (sched_name s) @ ''-''
                  @ mksafe (act_name a) @ ext))"

datatype open_flags = Create_Truncate | Append

definition open_file :: "refusals \<Rightarrow> fs \<Rightarrow> string \<Rightarrow> open_flags \<Rightarrow> nat option \<times> fs" where
  "open_file R fs p flags =
     (case flags of
        Create_Truncate \<Rightarrow> open_create_trunc R fs p
      | Append \<Rightarrow> (open_existing R fs p, fs))"

definition lmapd_workspace_action_open_data ::
  "refusals \<Rightarrow> schedule \<Rightarrow> action \<Rightarrow> open_flags \<Rightarrow> fs \<Rightarrow> nat option \<times> fs" where
  "lmapd_workspace_action_open_data R s a flags fs = open_file R fs (result_path ''.data'' s a) flags"

definition lmapd_workspace_action_open_meta ::
  "refusals \<Rightarrow> schedule \<Rightarrow> action \<Rightarrow> open_flags \<Rightarrow> fs \<Rightarrow> nat option \<times> fs" where
  "lmapd_workspace_action_open_meta R s a flags fs = open_file R fs (result_path ''.meta'' s a) flags"

section \<open>Writing the meta file\<close>

definition kv :: "string \<Rightarrow> string option \<Rightarrow> string" where
  "kv key val = csv_append_key_value [] delimiter (Some key) val"

definition option_text :: "lmap_option \<Rightarrow> string" where
  "option_text p =
     kv ''option-id'' (opt_id p) @ kv ''option-name'' (opt_name p) @ kv ''option-value'' (opt_value p)"

definition tag_text :: "tag \<Rightarrow> string" where
  "tag_text t = kv ''tag'' t"

definition magic_text :: string where
  "magic_text = ''simet-lmapd version 0.15.6''"

text \<open>\<open>strftime\<close> with \<open>%Y%m%d.%H%M%S\<close>.\<close>

definition cycle_text :: "tm \<Rightarrow> string" where
  "cycle_text tm =
     dec_int (tm_year tm + 1900) @ two_digits (nat (tm_mon tm + 1)) @ two_digits (nat (tm_mday tm)) @ ''.''
       @ two_digits (nat (tm_hour tm)) @ two_digits (nat (tm_min tm)) @ two_digits (nat (tm_sec tm))"

definition cycle_number_text :: "libc \<Rightarrow> int \<Rightarrow> string outcome" where
  "cycle_number_text lc c =
     (if c = 0 then Inr []
      else case lc_gmtime lc c of
        None \<Rightarrow> Inl Null_Deref
      | Some tm \<Rightarrow> Inr (kv ''cycle-number'' (Some (cycle_text tm))))"

definition meta_start_text :: "libc \<Rightarrow> schedule \<Rightarrow> action \<Rightarrow> task \<Rightarrow> string outcome" where
  "meta_start_text lc s a t =
     (case cycle_number_text lc (sched_cycle_number s) of
        Inl e \<Rightarrow> Inl e
      | Inr c \<Rightarrow>
          Inr (kv ''magic'' (Some magic_text) @ kv ''schedule'' (sched_name s) @ kv ''action'' (act_name a)
               @ kv ''task'' (task_name t)
               @ concat (map option_text (task_options t)) @ concat (map option_text (act_options a))
               @ concat (map tag_text (task_tags t)) @ concat (map tag_text (sched_tags s))
               @ concat (map tag_text (act_tags a))
               @ kv ''event'' (Some (print_time (sched_last_invocation s)))
               @ kv ''start'' (Some (print_time (act_last_invocation a))) @ c))"

definition meta_end_text :: "action \<Rightarrow> string" where
  "meta_end_text a =
     kv ''end'' (Some (print_time (act_last_completion a))) @ kv ''status'' (Some (dec_int (act_last_status a)))"

definition lmapd_workspace_action_meta_add_start ::
  "libc \<Rightarrow> refusals \<Rightarrow> schedule \<Rightarrow> action \<Rightarrow> task \<Rightarrow> fs \<Rightarrow> (int \<times> fs) outcome" where
  "lmapd_workspace_action_meta_add_start lc R s a t fs =
     (if act_name a = None \<or> act_workspace a = None then Inl Assertion_Failed
      else case lmapd_workspace_action_open_meta R s a Create_Truncate fs of
        (None, fs') \<Rightarrow> Inr (-1, fs')
      | (Some i, fs') \<Rightarrow>
          (case meta_start_text lc s a t of
             Inl e \<Rightarrow> Inl e
           | Inr txt \<Rightarrow> Inr (0, write_file fs' i txt)))"

definition lmapd_workspace_action_meta_add_end ::
  "refusals \<Rightarrow> schedule \<Rightarrow> action \<Rightarrow> fs \<Rightarrow> (int \<times> fs) outcome" where
  "lmapd_workspace_action_meta_add_end R s a fs =
     (if act_name a = None \<or> act_workspace a = None then Inl Assertion_Failed
      else case lmapd_workspace_action_open_meta R s a Append fs of
        (None, fs') \<Rightarrow> Inr (-1, fs')
      | (Some i, fs') \<Rightarrow> Inr (0, write_file fs' i (meta_end_text a)))"

section \<open>Reading a result\<close>

text \<open>What \<open>read_result\<close> has so far: the result and the option still being filled in.\<close>

type_synonym reading = "result \<times> lmap_option option"

definition add_pending :: "reading \<Rightarrow> result outcome" where
  "add_pending r =
     (case r of
        (res, None) \<Rightarrow> Inr res
      | (res, Some p) \<Rightarrow>
          (case lmap_result_add_option res p of Inl e \<Rightarrow> Inl e | Inr (_, res') \<Rightarrow> Inr res'))"

definition read_pair :: "string \<Rightarrow> string \<Rightarrow> reading \<Rightarrow> reading outcome" where
  "read_pair key val r =
     (let (res, opt) = r
      in if key = ''schedule'' then Inr (snd (lmap_result_set_schedule res (Some val)), opt)
      else if key = ''action'' then Inr (snd (lmap_result_set_action res (Some val)), opt)
      else if key = ''task'' then Inr (snd (lmap_result_set_task res (Some val)), opt)
      else if key = ''option-id'' then
        (case add_pending r of
           Inl e \<Rightarrow> Inl e
         | Inr res' \<Rightarrow> Inr (res', Some (snd (lmap_option_set_id lmap_option_new (Some val)))))
      else if key = ''option-name'' then
        Inr (res, map_option (\<lambda>p. snd (lmap_option_set_name p (Some val))) opt)
      else if key = ''option-value'' then
        Inr (res, map_option (\<lambda>p. snd (lmap_option_set_value p (Some val))) opt)
      else if key = ''tag'' then
        (case lmap_result_add_tag res (Some val) of Inl e \<Rightarrow> Inl e | Inr (_, res') \<Rightarrow> Inr (res', opt))
      else if key = ''event'' then Inr (snd (lmap_result_set_event_epoch res val), opt)
      else if key = ''start'' then Inr (snd (lmap_result_set_start_epoch res val), opt)
      else if key = ''end'' then Inr (snd (lmap_result_set_end_epoch res val), opt)
      else if key = ''cycle-number'' then Inr (snd (lmap_result_set_cycle_number res (Some val)), opt)
      else if key = ''status'' then Inr (snd (lmap_result_set_status res val), opt)
      else Inr r)"

lemma csv_skip_shorter:
  "csv_skip d st = Inr (res, st') \<Longrightarrow> \<not> st_eof st' \<Longrightarrow> length (st_in st') < length (st_in st)"
proof (induction d st rule: csv_skip.induct)
  case (1 d st)
  obtain s st1 where nx: "csv_next d st = Inr (s, st1)"
    using csv_next_ok [of d st] by (auto simp: ok_iff)
  show ?case
  proof (cases "s = None \<and> \<not> st_eof st1")
    case True
    then have "csv_skip d st1 = Inr (res, st')"
      using 1(2) nx by (subst (asm) csv_skip.simps) simp
    then have "length (st_in st') < length (st_in st1)"
      using 1(1) [OF nx _ _ _ _ 1(3)] True by auto
    then show ?thesis using csv_next_shorter [OF nx] True by simp
  next
    case False
    then have "st' = st1"
      using 1(2) nx by (subst (asm) csv_skip.simps) (auto split: option.splits)
    then show ?thesis using csv_next_shorter [OF nx] 1(3) by simp
  qed
qed

lemma csv_next_key_value_shorter:
  assumes "csv_next_key_value d st = Inr (k, v, st')" "\<not> st_eof st" "\<not> st_eof st'"
  shows "length (st_in st') < length (st_in st)"
proof -
  obtain s st1 where skip: "csv_skip d st = Inr (s, st1)"
    using csv_skip_ok [of d st] by (auto simp: ok_iff)
  obtain w st2 where nx: "csv_next d st1 = Inr (w, st2)"
    using csv_next_ok [of d st1] by (auto simp: ok_iff)
  show ?thesis
  proof (cases s)
    case None
    then have "st' = st1" using assms(1,2) skip by (simp add: csv_next_key_value_def)
    then show ?thesis using csv_skip_shorter [OF skip] assms(3) by simp
  next
    case (Some x)
    then have "st' = st2" using assms(1,2) skip nx by (simp add: csv_next_key_value_def)
    then show ?thesis
      using csv_skip_shorter [OF skip] csv_next_shorter [OF nx] csv_next_eof [OF nx] assms(3) by fastforce
  qed
qed

text \<open>The loop of \<open>read_result\<close>: until the end of the file.\<close>

function read_result_loop :: "stream \<Rightarrow> reading \<Rightarrow> reading outcome" where
  "read_result_loop st r =
     (if st_eof st then Inr r
      else case csv_next_key_value delimiter st of
        Inl e \<Rightarrow> Inl e
      | Inr (Some key, Some val, st') \<Rightarrow>
          (case read_pair key val r of Inl e \<Rightarrow> Inl e | Inr r' \<Rightarrow> read_result_loop st' r')
      | Inr (_, _, st') \<Rightarrow> read_result_loop st' r)"
  by pat_completeness auto
termination
  by (relation "measure (\<lambda>(st, r). if st_eof st then 0 else Suc (length (st_in st)))")
    (auto dest: csv_next_key_value_shorter)

declare read_result_loop.simps [simp del]

definition read_result :: "string \<Rightarrow> result outcome" where
  "read_result contents =
     (case read_result_loop (open_stream contents) (lmap_result_new, None) of
        Inl e \<Rightarrow> Inl e
      | Inr r \<Rightarrow> add_pending r)"

section \<open>Reading a table\<close>

definition start_row :: "table \<Rightarrow> table" where
  "start_row t = snd (lmap_table_add_row t lmap_row_new)"

text \<open>\<open>lmap_row_add_value\<close> on the row that was added last.\<close>

definition extend_last_row :: "table \<Rightarrow> val \<Rightarrow> table" where
  "extend_last_row t x =
     (if tab_rows t = [] then t
      else t\<lparr>tab_rows := butlast (tab_rows t) @ [snd (lmap_row_add_value (last (tab_rows t)) x)]\<rparr>)"

function read_table_loop :: "stream \<Rightarrow> bool \<Rightarrow> table \<Rightarrow> table outcome" where
  "read_table_loop st inrow t =
     (if st_eof st then Inr t
      else case csv_next delimiter st of
        Inl e \<Rightarrow> Inl e
      | Inr (None, st') \<Rightarrow> if st_eof st' then Inr t else read_table_loop st' False t
      | Inr (Some s, st') \<Rightarrow>
          (let t' = (if inrow then t else start_row t)
           in read_table_loop st' True (extend_last_row t' (snd (lmap_value_set_value lmap_value_new (Some s))))))"
  by pat_completeness auto
termination
  by (relation "measure (\<lambda>(st, i, r). if st_eof st then 0 else Suc (length (st_in st)))")
    (auto dest: csv_next_shorter)

declare read_table_loop.simps [simp del]

definition read_table :: "string \<Rightarrow> table outcome" where
  "read_table contents = read_table_loop (open_stream contents) False lmap_table_new"

section \<open>Reading the results of a workspace\<close>

datatype filetype = LMAP_FT_UNKNOWN | LMAP_FT_XML | LMAP_FT_JSON | LMAP_FT_CSV

text \<open>
  \<open>parse\<close> stands for \<open>lmap_io_parse_task_results_fd\<close>: the format and the contents of the data file, its return code and the result with the
  tables it has read.
\<close>

type_synonym results_parser = "filetype \<Rightarrow> string \<Rightarrow> result \<Rightarrow> (int \<times> result) outcome"

definition read_report ::
  "results_parser \<Rightarrow> filetype \<Rightarrow> string \<Rightarrow> result \<Rightarrow> (bool \<times> result) outcome" where
  "read_report parse ft contents res =
     (if ft = LMAP_FT_CSV then
        (case read_table contents of
           Inl e \<Rightarrow> Inl e
         | Inr t \<Rightarrow> Inr (True, snd (lmap_result_add_table res t)))
      else obind (parse ft contents res) (\<lambda>(c, res'). Inr (c = 0, res')))"

definition data_file_name :: "string \<Rightarrow> string" where
  "data_file_name n = take (length n - 5) n @ ''.data''"

text \<open>The loop over the names of the directory \<open>d\<close>, with the flags \<open>had_errors\<close> and \<open>valid_report\<close>.\<close>

fun read_results_loop ::
  "results_parser \<Rightarrow> filetype \<Rightarrow> refusals \<Rightarrow> fs \<Rightarrow> string \<Rightarrow> string list \<Rightarrow> bool \<times> bool \<times> lmap
     \<Rightarrow> (bool \<times> bool \<times> lmap) outcome" where
  "read_results_loop parse ft R fs d [] acc = Inr acc"
| "read_results_loop parse ft R fs d (n # ns) (errs, good, l) =
     (if length n < 5 \<or> strrchr (CHR ''.'') n \<noteq> Some ''.meta''
      then read_results_loop parse ft R fs d ns (errs, good, l)
      else case open_existing R fs (join d n) of
        None \<Rightarrow> read_results_loop parse ft R fs d ns (True, good, l)
      | Some mi \<Rightarrow>
          (case open_existing R fs (join d (data_file_name n)) of
             None \<Rightarrow> read_results_loop parse ft R fs d ns (True, good, l)
           | Some di \<Rightarrow>
               (case read_result (fs_data fs mi) of
                  Inl e \<Rightarrow> Inl e
                | Inr res \<Rightarrow>
                    (case read_report parse ft (fs_data fs di) res of
                       Inl e \<Rightarrow> Inl e
                     | Inr (read, res') \<Rightarrow>
                         if read \<and> lmap_result_valid res'
                         then read_results_loop parse ft R fs d ns (errs, True, snd (lmap_add_result l res'))
                         else read_results_loop parse ft R fs d ns (True, good, l)))))"

definition lmapd_workspace_read_results ::
  "results_parser \<Rightarrow> filetype \<Rightarrow> refusals \<Rightarrow> fs \<Rightarrow> string \<Rightarrow> lmap \<Rightarrow> (int \<times> lmap) outcome" where
  "lmapd_workspace_read_results parse ft R fs d l =
     (case opendir R fs d of
        None \<Rightarrow> Inr (-1, l)
      | Some ns \<Rightarrow>
          (case read_results_loop parse ft R fs d ns (False, False, l) of
             Inl e \<Rightarrow> Inl e
           | Inr (errs, good, l') \<Rightarrow> Inr (if errs \<and> \<not> good then -1 else 0, l')))"

section \<open>A meta file is read back\<close>

fun read_pairs :: "(string \<times> string) list \<Rightarrow> reading \<Rightarrow> reading outcome" where
  "read_pairs [] r = Inr r"
| "read_pairs ((k, v) # ps) r = (case read_pair k v r of Inl e \<Rightarrow> Inl e | Inr r' \<Rightarrow> read_pairs ps r')"

lemma read_pairs_append:
  "read_pairs (ps @ qs) r = (case read_pairs ps r of Inl e \<Rightarrow> Inl e | Inr r' \<Rightarrow> read_pairs qs r')"
  by (induction ps r rule: read_pairs.induct) (auto split: sum.split)

definition pairs_text :: "(string \<times> string) list \<Rightarrow> string" where
  "pairs_text ps = concat (map (\<lambda>(k, v). kv k (Some v)) ps)"

lemma pairs_text_simps [simp]:
  "pairs_text [] = []" "pairs_text ((k, v) # ps) = kv k (Some v) @ pairs_text ps"
  "pairs_text (ps @ qs) = pairs_text ps @ pairs_text qs"
  by (simp_all add: pairs_text_def)

definition pairs_ok :: "(string \<times> string) list \<Rightarrow> bool" where
  "pairs_ok ps \<longleftrightarrow> (\<forall>(k, v)\<in>set ps. field_ok k \<and> field_ok v)"

lemma delimiter_ok_semicolon [simp]: "delimiter_ok delimiter"
  by (simp add: delimiter_ok_def delimiter_def isspace_def code_def)

lemma key_value_at_end:
  "csv_next_key_value delimiter (open_stream []) = Inr (None, None, \<lparr>st_in = [], st_eof = True\<rparr>)"
  by (simp add: csv_next_key_value_def csv_skip.simps csv_next_def csv_loop.simps csv_finish_def)

lemma read_result_loop_newline:
  "read_result_loop (open_stream (newline # s)) r = read_result_loop (open_stream s) r"
  using delimiter_ok_newline [OF delimiter_ok_semicolon]
  by (subst (1 2) read_result_loop.simps) (simp add: csv_next_key_value_newline)

lemma read_result_loop_pairs:
  "pairs_ok ps \<Longrightarrow> read_result_loop (open_stream (pairs_text ps)) r = read_pairs ps r"
proof (induction ps r rule: read_pairs.induct)
  case (1 r)
  then show ?case by (subst (1) read_result_loop.simps) (simp add: key_value_at_end read_result_loop.simps)
next
  case (2 k v ps r)
  have ok: "field_ok k" "field_ok v" "pairs_ok ps" using 2(2) by (auto simp: pairs_ok_def)
  have pair: "csv_next_key_value delimiter (open_stream (kv k (Some v) @ pairs_text ps))
      = Inr (Some k, Some v, open_stream (after_field delimiter v newline (pairs_text ps)))"
    unfolding kv_def using ok by (intro csv_next_key_value_pair) simp_all
  have rest: "read_result_loop (open_stream (after_field delimiter v newline (pairs_text ps))) r'
      = read_result_loop (open_stream (pairs_text ps)) r'" for r'
    using delimiter_ok_newline [OF delimiter_ok_semicolon]
    by (auto simp: after_field_def after_plain_def read_result_loop_newline)
  show ?case
    using 2(1) [OF _ ok(3)]
    by (subst read_result_loop.simps) (simp add: pair rest split: sum.split)
qed

lemma keep_first_append: "keep_first key acc (xs @ ys) = keep_first key (keep_first key acc xs) ys"
  by (induction xs arbitrary: acc) simp_all

text \<open>Options.\<close>

definition option_pairs :: "lmap_option \<Rightarrow> (string \<times> string) list" where
  "option_pairs p =
     (case opt_id p of None \<Rightarrow> [] | Some v \<Rightarrow> [(''option-id'', v)])
     @ (case opt_name p of None \<Rightarrow> [] | Some v \<Rightarrow> [(''option-name'', v)])
     @ (case opt_value p of None \<Rightarrow> [] | Some v \<Rightarrow> [(''option-value'', v)])"

definition opt_field_ok :: "string option \<Rightarrow> bool" where
  "opt_field_ok f \<longleftrightarrow> (case f of None \<Rightarrow> True | Some v \<Rightarrow> field_ok v)"

definition option_ok :: "lmap_option \<Rightarrow> bool" where
  "option_ok p \<longleftrightarrow> opt_id p \<noteq> None \<and> opt_field_ok (opt_id p) \<and> opt_field_ok (opt_name p) \<and> opt_field_ok (opt_value p)"

lemma kv_None [simp]: "kv k None = []"
  by (simp add: kv_def csv_append_key_value_def)

lemma option_text_pairs: "option_text p = pairs_text (option_pairs p)"
  by (simp add: option_text_def option_pairs_def split: option.split)

lemma add_pending_keep:
  assumes "named_distinct opt_id (res_options res)"
  shows "add_pending (res, pend) =
      Inr (res\<lparr>res_options := keep_first opt_id (res_options res) (case pend of None \<Rightarrow> [] | Some p \<Rightarrow> [p])\<rparr>)"
proof (cases pend)
  case None
  then show ?thesis by (simp add: add_pending_def)
next
  case (Some p)
  then show ?thesis
    using append_named_cases [OF assms] append_named_unnamed [of opt_id]
    by (cases "opt_id p") (auto simp: add_pending_def lmap_result_add_option_def add_option_def)
qed

abbreviation pending_list :: "lmap_option option \<Rightarrow> lmap_option list" where
  "pending_list pend \<equiv> (case pend of None \<Rightarrow> [] | Some p \<Rightarrow> [p])"

lemma read_option_pairs:
  assumes "option_ok p" "named_distinct opt_id (res_options res)"
  shows "read_pairs (option_pairs p) (res, pend) =
    Inr (res\<lparr>res_options := keep_first opt_id (res_options res) (pending_list pend)\<rparr>, Some p)"
proof -
  obtain i where i: "opt_id p = Some i" "i \<noteq> []"
    using assms(1) by (auto simp: option_ok_def opt_field_ok_def field_ok_def)
  obtain n v where p: "p = \<lparr>opt_id = Some i, opt_name = n, opt_value = v\<rparr>"
    using i by (cases p) simp
  show ?thesis
    using i(2) add_pending_keep [OF assms(2), of pend] unfolding p
    by (auto simp: option_pairs_def read_pair_def lmap_option_set_id_def lmap_option_set_name_def
        lmap_option_set_value_def set_lmap_identifier_def set_string_def lmap_option_new_def split: option.split)
qed

lemma keep_first_distinct: "named_distinct key acc \<Longrightarrow> named_distinct key (keep_first key acc xs)"
  by (induction xs arbitrary: acc) (auto simp: named_distinct_snoc)

lemma read_options:
  assumes "named_distinct opt_id (res_options res)" "\<forall>p\<in>set ps. option_ok p"
  shows "\<exists>xs pend'. read_pairs (concat (map option_pairs ps)) (res, pend) = Inr (res\<lparr>res_options := xs\<rparr>, pend')
    \<and> named_distinct opt_id xs
    \<and> keep_first opt_id xs (pending_list pend') = keep_first opt_id (res_options res) (pending_list pend @ ps)"
  using assms
proof (induction ps arbitrary: res pend)
  case Nil
  then show ?case by (intro exI [of _ "res_options res"] exI [of _ pend]) simp
next
  case (Cons p ps)
  let ?res = "res\<lparr>res_options := keep_first opt_id (res_options res) (pending_list pend)\<rparr>"
  have "named_distinct opt_id (res_options ?res)"
    using keep_first_distinct [OF Cons.prems(1)] by simp
  from Cons.IH [OF this, of "Some p"] Cons.prems(2) obtain xs pend' where
    "read_pairs (concat (map option_pairs ps)) (?res, Some p) = Inr (?res\<lparr>res_options := xs\<rparr>, pend')"
    "named_distinct opt_id xs"
    "keep_first opt_id xs (pending_list pend') = keep_first opt_id (res_options ?res) ([p] @ ps)"
    by auto
  moreover have "read_pairs (option_pairs p) (res, pend) = Inr (?res, Some p)"
    using Cons.prems by (intro read_option_pairs) simp_all
  ultimately show ?case
    by (intro exI [of _ xs] exI [of _ pend']) (simp add: read_pairs_append keep_first_append)
qed

text \<open>Tags.\<close>

definition tag_pairs :: "tag list \<Rightarrow> (string \<times> string) list" where
  "tag_pairs ts = map (\<lambda>v. (''tag'', v)) (List.map_filter id ts)"

lemma tag_text_pairs: "concat (map tag_text ts) = pairs_text (tag_pairs ts)"
  by (induction ts) (auto simp: tag_text_def tag_pairs_def map_filter_simps split: option.split)

lemma add_tag_keep:
  assumes "tags_ok ts" "v \<noteq> []"
  shows "\<exists>r. add_tag ts (Some v) = Inr (r, keep_first id ts [Some v])" "tags_ok (keep_first id ts [Some v])"
  using assms
  by (cases "ts = []"; cases "Some v \<in> set ts"; simp add: add_tag_def add_tag_value tags_ok_def tag_scan_ok)+

lemma read_tags:
  assumes "tags_ok (res_tags res)" "\<forall>t\<in>set ts. t \<noteq> None \<and> t \<noteq> Some []"
  shows "read_pairs (tag_pairs ts) (res, pend) = Inr (res\<lparr>res_tags := keep_first id (res_tags res) ts\<rparr>, pend)
    \<and> tags_ok (keep_first id (res_tags res) ts)"
  using assms
proof (induction ts arbitrary: res)
  case Nil
  then show ?case by (simp add: tag_pairs_def map_filter_simps)
next
  case (Cons t ts)
  then obtain v where v: "t = Some v" "v \<noteq> []" by auto
  obtain r where r: "add_tag (res_tags res) (Some v) = Inr (r, keep_first id (res_tags res) [Some v])"
    using add_tag_keep(1) [OF Cons.prems(1) v(2)] by blast
  let ?res = "res\<lparr>res_tags := keep_first id (res_tags res) [Some v]\<rparr>"
  have "read_pairs (tag_pairs (t # ts)) (res, pend) = read_pairs (tag_pairs ts) (?res, pend)"
    using v r by (simp add: tag_pairs_def map_filter_simps read_pair_def lmap_result_add_tag_def)
  moreover have "tags_ok (res_tags ?res)" using add_tag_keep(2) [OF Cons.prems(1) v(2)] by simp
  ultimately show ?case
    using Cons.IH [of ?res] Cons.prems(2) v by simp
qed

text \<open>The meta file as a whole.\<close>

definition cycle_pairs :: "libc \<Rightarrow> int \<Rightarrow> (string \<times> string) list" where
  "cycle_pairs lc c = (if c = 0 then [] else [(''cycle-number'', cycle_text (the (lc_gmtime lc c)))])"

definition start_pairs :: "libc \<Rightarrow> schedule \<Rightarrow> action \<Rightarrow> task \<Rightarrow> (string \<times> string) list" where
  "start_pairs lc s a t =
     [(''magic'', magic_text), (''schedule'', the (sched_name s)), (''action'', the (act_name a)),
      (''task'', the (task_name t))]
     @ concat (map option_pairs (task_options t @ act_options a))
     @ tag_pairs (task_tags t @ sched_tags s @ act_tags a)
     @ [(''event'', print_time (sched_last_invocation s)), (''start'', print_time (act_last_invocation a))]
     @ cycle_pairs lc (sched_cycle_number s)"

definition end_pairs :: "action \<Rightarrow> (string \<times> string) list" where
  "end_pairs a = [(''end'', print_time (act_last_completion a)), (''status'', dec_int (act_last_status a))]"

lemma end_text_pairs: "meta_end_text a = pairs_text (end_pairs a)"
  by (simp add: meta_end_text_def end_pairs_def)

lemma tag_pairs_append: "tag_pairs (xs @ ys) = tag_pairs xs @ tag_pairs ys"
  by (simp add: tag_pairs_def map_filter_def)

lemma option_texts: "concat (map option_text ps) = pairs_text (concat (map option_pairs ps))"
  by (induction ps) (simp_all add: option_text_pairs)

lemma start_text_pairs:
  assumes "meta_start_text lc s a t = Inr txt" "sched_name s \<noteq> None" "act_name a \<noteq> None" "task_name t \<noteq> None"
  shows "txt = pairs_text (start_pairs lc s a t)"
  using assms
  by (auto simp: meta_start_text_def start_pairs_def cycle_number_text_def cycle_pairs_def option_texts
      tag_text_pairs tag_pairs_append split: sum.splits option.splits if_splits)

text \<open>Digits and the like are fields that survive.\<close>

lemma field_ok_digits: "f \<noteq> [] \<Longrightarrow> \<forall>c\<in>set f. isdigit c \<or> c \<in> set ''-.'' \<Longrightarrow> field_ok f"
proof -
  assume f: "f \<noteq> []" "\<forall>c\<in>set f. isdigit c \<or> c \<in> set ''-.''"
  have "\<not> isdigit quote_char" "\<not> isdigit newline" by (simp_all add: isdigit_def code_def)
  with f show ?thesis by (cases f) (auto simp: field_ok_def)
qed

lemma dec_int_chars: "c \<in> set (dec_int i) \<Longrightarrow> isdigit c \<or> c \<in> set ''-.''"
  using dec_digits by (auto simp: dec_int_def split: if_splits)

lemma dec_int_Nil [simp]: "dec_int i \<noteq> []"
  by (simp add: dec_int_def)

lemma field_ok_dec_int [simp]: "field_ok (dec_int i)"
  by (rule field_ok_digits) (simp_all add: dec_int_chars [simplified])

lemma field_ok_time [simp]: "field_ok (print_time u)"
  by (rule field_ok_digits) (simp_all add: print_time_def dec_digits)

definition clock_ok :: "tm \<Rightarrow> bool" where
  "clock_ok tm \<longleftrightarrow> 0 \<le> tm_mon tm \<and> tm_mon tm < 12 \<and> 0 \<le> tm_mday tm \<and> tm_mday tm \<le> 31
     \<and> 0 \<le> tm_hour tm \<and> tm_hour tm < 24 \<and> 0 \<le> tm_min tm \<and> tm_min tm < 60 \<and> 0 \<le> tm_sec tm \<and> tm_sec tm \<le> 60"

lemma two_digits_chars: "n < 100 \<Longrightarrow> c \<in> set (two_digits n) \<Longrightarrow> isdigit c"
  using isdigit_char_of [of "n div 10"] isdigit_char_of [of "n mod 10"] by (auto simp: two_digits_def)

lemma field_ok_cycle: "clock_ok tm \<Longrightarrow> field_ok (cycle_text tm)"
  by (rule field_ok_digits)
    (auto simp: cycle_text_def clock_ok_def dest: dec_int_chars intro: two_digits_chars [rotated])

text \<open>What the round trip needs of the objects.\<close>

definition name_ok :: "string option \<Rightarrow> bool" where
  "name_ok n \<longleftrightarrow> (case n of None \<Rightarrow> False | Some v \<Rightarrow> field_ok v)"

definition time32 :: "int \<Rightarrow> bool" where
  "time32 t \<longleftrightarrow> 0 \<le> t \<and> t < 2 ^ 32"

definition meta_ok :: "libc \<Rightarrow> schedule \<Rightarrow> action \<Rightarrow> task \<Rightarrow> bool" where
  "meta_ok lc s a t \<longleftrightarrow>
     name_ok (sched_name s) \<and> name_ok (act_name a) \<and> name_ok (task_name t)
     \<and> list_all option_ok (task_options t @ act_options a)
     \<and> list_all name_ok (task_tags t @ sched_tags s @ act_tags a)
     \<and> time32 (sched_last_invocation s) \<and> time32 (act_last_invocation a)
     \<and> (sched_cycle_number s \<noteq> 0 \<longrightarrow>
          (case lc_gmtime lc (sched_cycle_number s) of None \<Rightarrow> False | Some tm \<Rightarrow> clock_ok tm))"

definition end_ok :: "action \<Rightarrow> bool" where
  "end_ok a \<longleftrightarrow> time32 (act_last_completion a) \<and> INT32_MIN \<le> act_last_status a \<and> act_last_status a \<le> INT32_MAX"

definition result_of :: "libc \<Rightarrow> schedule \<Rightarrow> action \<Rightarrow> task \<Rightarrow> action \<Rightarrow> result" where
  "result_of lc s a t a' =
     \<lparr>res_schedule = sched_name s, res_action = act_name a, res_task = task_name t,
      res_options = keep_first opt_id [] (task_options t @ act_options a),
      res_tags = keep_first id [] (task_tags t @ sched_tags s @ act_tags a),
      res_event = sched_last_invocation s, res_start = act_last_invocation a,
      res_end = act_last_completion a',
      res_cycle_number = (if sched_cycle_number s = 0 then None
                          else Some (cycle_text (the (lc_gmtime lc (sched_cycle_number s))))),
      res_status = act_last_status a', res_tables = [], res_flags = LMAP_RESULT_FLAG_STATUS_SET\<rparr>"

lemma field_ok_keys [simp]:
  "field_ok magic_text" "field_ok ''magic''" "field_ok ''schedule''" "field_ok ''action''" "field_ok ''task''"
  "field_ok ''option-id''" "field_ok ''option-name''" "field_ok ''option-value''" "field_ok ''tag''"
  "field_ok ''event''" "field_ok ''start''" "field_ok ''end''" "field_ok ''status''" "field_ok ''cycle-number''"
  by (simp_all add: field_ok_def magic_text_def)

lemma pairs_ok_append [simp]: "pairs_ok (xs @ ys) \<longleftrightarrow> pairs_ok xs \<and> pairs_ok ys"
  and pairs_ok_Nil [simp]: "pairs_ok []"
  and pairs_ok_Cons [simp]: "pairs_ok ((k, v) # ys) \<longleftrightarrow> field_ok k \<and> field_ok v \<and> pairs_ok ys"
  by (auto simp: pairs_ok_def)

lemma pairs_ok_options: "list_all option_ok ps \<Longrightarrow> pairs_ok (concat (map option_pairs ps))"
  by (induction ps) (auto simp: option_ok_def opt_field_ok_def option_pairs_def split: option.splits)

lemma pairs_ok_tags: "list_all name_ok ts \<Longrightarrow> pairs_ok (tag_pairs ts)"
  by (induction ts) (auto simp: tag_pairs_def map_filter_simps name_ok_def split: option.splits)

lemma pairs_ok_meta: "meta_ok lc s a t \<Longrightarrow> pairs_ok (start_pairs lc s a t @ end_pairs a')"
  unfolding start_pairs_def end_pairs_def cycle_pairs_def pairs_ok_append
  using pairs_ok_options [of "task_options t @ act_options a"] pairs_ok_tags [of "task_tags t @ sched_tags s @ act_tags a"]
  by (auto simp: meta_ok_def name_ok_def field_ok_cycle split: option.splits)

lemma print_time32: "time32 u \<Longrightarrow> set_uint32 0 (print_time u) = (0, of_int u)"
  by (simp add: print_time_def time32_def set_uint32_decimal UINT32_MAX_def nat_le_iff)

lemma uint_time32: "time32 u \<Longrightarrow> uint (word_of_int u :: 32 word) = u"
  by (simp add: time32_def uint_word_of_int)

lemmas result_setters =
  lmap_result_set_schedule_def lmap_result_set_action_def lmap_result_set_task_def
  lmap_result_set_event_epoch_def lmap_result_set_start_epoch_def lmap_result_set_end_epoch_def
  lmap_result_set_cycle_number_def lmap_result_set_status_def set_lmap_identifier_def set_string_def

lemma read_names:
  "name_ok (Some sn) \<Longrightarrow> name_ok (Some an) \<Longrightarrow> name_ok (Some tn) \<Longrightarrow>
     read_pairs [(''magic'', magic_text), (''schedule'', sn), (''action'', an), (''task'', tn)] (res, pend)
       = Inr (res\<lparr>res_schedule := Some sn, res_action := Some an, res_task := Some tn\<rparr>, pend)"
  by (auto simp: read_pair_def result_setters name_ok_def field_ok_def)

lemma read_times:
  "time32 u \<Longrightarrow> time32 v \<Longrightarrow>
     read_pairs [(''event'', print_time u), (''start'', print_time v)] (res, pend)
       = Inr (res\<lparr>res_event := u, res_start := v\<rparr>, pend)"
  by (simp add: read_pair_def result_setters print_time32 uint_time32)

lemma read_cycle:
  "res_cycle_number res = None \<Longrightarrow>
   read_pairs (cycle_pairs lc c) (res, pend)
     = Inr (res\<lparr>res_cycle_number := (if c = 0 then None else Some (cycle_text (the (lc_gmtime lc c))))\<rparr>, pend)"
  by (cases res) (auto simp: cycle_pairs_def read_pair_def result_setters)

lemma read_end:
  "end_ok a \<Longrightarrow> read_pairs (end_pairs a) (res, pend)
     = Inr (res\<lparr>res_end := act_last_completion a, res_status := act_last_status a,
                res_flags := flag_set (res_flags res) LMAP_RESULT_FLAG_STATUS_SET\<rparr>, pend)"
  by (simp add: end_ok_def end_pairs_def read_pair_def result_setters print_time32 uint_time32 set_int32_dec_int)

lemma name_ok_not: "name_ok u \<Longrightarrow> u \<noteq> None \<and> u \<noteq> Some []"
  by (cases u) (auto simp: name_ok_def field_ok_def)

lemma read_result_meta:
  assumes "meta_ok lc s a t" "end_ok a'"
  shows "read_result (pairs_text (start_pairs lc s a t @ end_pairs a')) = Inr (result_of lc s a t a')"
proof -
  obtain sn an tn where n: "sched_name s = Some sn" "act_name a = Some an" "task_name t = Some tn"
    using assms(1) by (auto simp: meta_ok_def name_ok_def split: option.splits)
  let ?r1 = "lmap_result_new\<lparr>res_schedule := Some sn, res_action := Some an, res_task := Some tn\<rparr>"
  have 1: "read_pairs [(''magic'', magic_text), (''schedule'', sn), (''action'', an), (''task'', tn)]
      (lmap_result_new, None) = Inr (?r1, None)"
    using assms(1) n by (intro read_names) (simp_all add: meta_ok_def)
  let ?opts = "task_options t @ act_options a"
  have "\<forall>p\<in>set ?opts. option_ok p"
    using assms(1) unfolding meta_ok_def list_all_iff by blast
  moreover have r1: "named_distinct opt_id (res_options ?r1)" "res_options ?r1 = []"
    by (simp_all add: lmap_result_new_def)
  ultimately obtain xs pend where
    2: "read_pairs (concat (map option_pairs (task_options t @ act_options a))) (?r1, None)
        = Inr (?r1\<lparr>res_options := xs\<rparr>, pend)"
    and xs: "named_distinct opt_id xs"
      "keep_first opt_id xs (pending_list pend) = keep_first opt_id [] (task_options t @ act_options a)"
    using read_options [of ?r1 ?opts None] unfolding r1(2) by (simp only: append_Nil option.case) blast
  let ?tags = "task_tags t @ sched_tags s @ act_tags a"
  have "\<forall>u\<in>set ?tags. name_ok u" using assms(1) unfolding meta_ok_def list_all_iff by blast
  then have tags: "\<forall>u\<in>set ?tags. u \<noteq> None \<and> u \<noteq> Some []"
    using name_ok_not by blast
  have 3: "read_pairs (tag_pairs ?tags) (?r1\<lparr>res_options := xs\<rparr>, pend)
      = Inr (?r1\<lparr>res_options := xs, res_tags := keep_first id [] ?tags\<rparr>, pend)"
    using read_tags [OF _ tags, of "?r1\<lparr>res_options := xs\<rparr>" pend] by (simp add: tags_ok_def lmap_result_new_def)
  let ?r3 = "?r1\<lparr>res_options := xs, res_tags := keep_first id [] ?tags\<rparr>"
  let ?r4 = "?r3\<lparr>res_event := sched_last_invocation s, res_start := act_last_invocation a\<rparr>"
  have 4: "read_pairs [(''event'', print_time (sched_last_invocation s)), (''start'', print_time (act_last_invocation a))]
      (?r3, pend) = Inr (?r4, pend)"
    using assms(1) by (intro read_times) (simp_all add: meta_ok_def)
  have "res_cycle_number ?r4 = None" by (simp add: lmap_result_new_def)
  note 5 = read_cycle [OF this, of lc "sched_cycle_number s" pend]
  have "read_pairs (start_pairs lc s a t @ end_pairs a') (lmap_result_new, None)
      = Inr ((result_of lc s a t a')\<lparr>res_options := xs\<rparr>, pend)"
    unfolding start_pairs_def append_assoc n option.sel
    by (simp only: read_pairs_append 1 2 3 4 5 read_end [OF assms(2)] sum.case)
      (simp add: result_of_def n lmap_result_new_def flag_set_def)
  moreover have "add_pending ((result_of lc s a t a')\<lparr>res_options := xs\<rparr>, pend) = Inr (result_of lc s a t a')"
    using add_pending_keep [of "(result_of lc s a t a')\<lparr>res_options := xs\<rparr>" pend] xs by (simp add: result_of_def)
  ultimately show ?thesis
    unfolding read_result_def read_result_loop_pairs [OF pairs_ok_meta [OF assms(1)]] by simp
qed

text \<open>Writing through the file system.\<close>

lemma open_create_trunc_lookup:
  assumes "open_create_trunc R fs p = (Some i, fs')"
  shows "fs_data fs' i = []" "(\<And>q. \<not> R' (Open q)) \<Longrightarrow> open_existing R' fs' p = Some i"
    "split_path p = (d, n) \<Longrightarrow> lookup fs' d n = Some (Regular i)"
proof -
  obtain d' n' where p: "split_path p = (d', n')" by fastforce
  have look: "lookup fs' d' n' = Some (Regular i)" and data: "fs_data fs' i = []"
  proof -
    have "lookup (f\<lparr>fs_data := x, fs_next := y\<rparr>) = lookup f" "lookup (f\<lparr>fs_data := x\<rparr>) = lookup f" for f x y
      by (auto simp: lookup_def entries_def fun_eq_iff)
    with assms p show "lookup fs' d' n' = Some (Regular i)" "fs_data fs' i = []"
      by (auto simp: open_create_trunc_def lookup_add_entry split: if_splits option.splits node.splits)
  qed
  show "fs_data fs' i = []" by (rule data)
  show "open_existing R' fs' p = Some i" if "\<And>q. \<not> R' (Open q)"
    using that look p by (simp add: open_existing_def)
  show "split_path p = (d, n) \<Longrightarrow> lookup fs' d n = Some (Regular i)" using look p by simp
qed

lemma lookup_write_file [simp]: "lookup (write_file fs i s) d n = lookup fs d n"
  by (simp add: lookup_def entries_def write_file_def)

text \<open>
  C9. A meta file written by \<^const>\<open>lmapd_workspace_action_meta_add_start\<close> and completed by \<^const>\<open>lmapd_workspace_action_meta_add_end\<close> is
  read back by \<^const>\<open>read_result\<close> as the names, times and status of the run, the options and the tags of task, schedule and
  action, in order and without those whose id or tag has occurred before. It needs names, tags and option
  fields that are not empty, have no newline and do not start with a quote, and times below
  \<open>2 ^ 32\<close>.
\<close>

theorem meta_file_read_back:
  assumes "meta_ok lc s a t" "end_ok a'" "act_name a' = act_name a" "act_workspace a' = act_workspace a"
    "act_last_invocation a' = act_last_invocation a"
    "lmapd_workspace_action_meta_add_start lc R s a t fs = Inr (0, fs1)"
    "lmapd_workspace_action_meta_add_end R' s a' fs1 = Inr (0, fs2)"
  shows "\<exists>i. open_existing (\<lambda>_. False) fs2 (result_path ''.meta'' s a) = Some i
           \<and> read_result (fs_data fs2 i) = Inr (result_of lc s a t a')"
proof -
  let ?p = "result_path ''.meta'' s a"
  have path: "result_path ''.meta'' s a' = ?p"
    using assms(3-5) by (simp add: result_path_def)
  obtain i fs0 body where o1:
      "open_create_trunc R fs ?p = (Some i, fs0)" "meta_start_text lc s a t = Inr body"
      "fs1 = write_file fs0 i body"
    using assms(6) by (auto simp: lmapd_workspace_action_meta_add_start_def lmapd_workspace_action_open_meta_def
        open_file_def split: if_splits option.splits prod.splits sum.splits)
  obtain d n where p: "split_path ?p = (d, n)" by fastforce
  have look:
    "lookup fs0 d n = Some (Regular i)" "fs_data fs0 i = []"
    using open_create_trunc_lookup [OF o1(1)] p by auto
  have fs2: "fs2 = write_file fs1 i (meta_end_text a')"
    using assms(7) look(1) p o1(3)
    by (auto simp: lmapd_workspace_action_meta_add_end_def lmapd_workspace_action_open_meta_def
        open_file_def path open_existing_def split: if_splits)
  have "body = pairs_text (start_pairs lc s a t)"
    using assms(1) by (intro start_text_pairs [OF o1(2)]) (auto simp: meta_ok_def name_ok_def split: option.splits)
  then have "fs_data fs2 i = pairs_text (start_pairs lc s a t @ end_pairs a')"
    using look(2) by (simp add: fs2 o1(3) write_file_def end_text_pairs)
  moreover have "open_existing (\<lambda>_. False) fs2 ?p = Some i"
    using look(1) p by (simp add: open_existing_def fs2 o1(3))
  ultimately show ?thesis
    using read_result_meta [OF assms(1,2)] by auto
qed


text \<open>An action with an option and a tag, run at 1000 for a schedule run at 990.\<close>

definition example_run :: action where
  "example_run = example_action\<lparr>act_last_invocation := 1000, act_tags := [Some ''nightly''],
     act_options := [\<lparr>opt_id = Some ''o1'', opt_name = Some ''--count'', opt_value = Some ''a; b''\<rparr>]\<rparr>"

definition example_task :: task where
  "example_task = lmap_task_new\<lparr>task_name := Some ''ping'', task_program := Some ''/usr/bin/ping''\<rparr>"

theorem meta_file_read_back_witness:
  "\<exists>fs1 fs2 i.
     lmapd_workspace_action_meta_add_start utc_libc (\<lambda>_. False) (example_schedule\<lparr>sched_last_invocation := 990\<rparr>)
       example_run example_task example_workspace = Inr (0, fs1)
     \<and> lmapd_workspace_action_meta_add_end (\<lambda>_. False) (example_schedule\<lparr>sched_last_invocation := 990\<rparr>)
         (example_run\<lparr>act_last_completion := 1007, act_last_status := 2\<rparr>) fs1 = Inr (0, fs2)
     \<and> read_result (fs_data fs2 i) =
         Inr (result_of utc_libc (example_schedule\<lparr>sched_last_invocation := 990\<rparr>) example_run example_task
                (example_run\<lparr>act_last_completion := 1007, act_last_status := 2\<rparr>))"
proof -
  let ?s = "example_schedule\<lparr>sched_last_invocation := 990\<rparr>" and ?a = "example_run"
  let ?a' = "?a\<lparr>act_last_completion := 1007, act_last_status := 2\<rparr>" and ?R = "\<lambda>_. False"
  have ok: "meta_ok utc_libc ?s ?a example_task" "end_ok ?a'"
    by code_simp+
  have same: "act_name ?a' = act_name ?a" "act_workspace ?a' = act_workspace ?a"
    "act_last_invocation ?a' = act_last_invocation ?a" by simp_all
  let ?r1 = "lmapd_workspace_action_meta_add_start utc_libc ?R ?s ?a example_task example_workspace"
  have "case ?r1 of Inl e \<Rightarrow> False | Inr (c, f) \<Rightarrow> c = 0"
    by code_simp
  then obtain fs1 where fs1: "?r1 = Inr (0, fs1)" by (auto split: sum.splits)
  have "case ?r1 of Inl e \<Rightarrow> False
      | Inr (c, f) \<Rightarrow> (case lmapd_workspace_action_meta_add_end ?R ?s ?a' f of Inl e \<Rightarrow> False | Inr (c, f) \<Rightarrow> c = 0)"
    by code_simp
  then obtain fs2 where fs2: "lmapd_workspace_action_meta_add_end ?R ?s ?a' fs1 = Inr (0, fs2)"
    unfolding fs1 by (auto split: sum.splits)
  show ?thesis
    using meta_file_read_back [OF ok same fs1 fs2] fs1 fs2 by blast
qed

section \<open>What becomes of the rows of a table\<close>

text \<open>A table as the CSV writer writes it, a row at a time.\<close>

definition row_text :: "string list \<Rightarrow> string" where
  "row_text cells =
     (case cells of
        [] \<Rightarrow> csv_end []
      | c # cs \<Rightarrow>
          csv_end (fold (\<lambda>f out. csv_append out delimiter (Some f)) cs (csv_start [] delimiter (Some c))))"

definition table_text :: "string list list \<Rightarrow> string" where
  "table_text rows = concat (map row_text rows)"

text \<open>
  Where the cells go: a row whose last cell is quoted swallows the newline, and the next row continues
  it.
\<close>

fun place_rows :: "bool \<Rightarrow> string list list \<Rightarrow> string list list \<Rightarrow> string list list" where
  "place_rows inrow acc [] = acc"
| "place_rows inrow acc (r # rs) =
     place_rows (needs_quote delimiter (last r))
       (if inrow then butlast acc @ [last acc @ r] else acc @ [r]) rs"

definition rows_of :: "string list list \<Rightarrow> row list" where
  "rows_of = map (\<lambda>r. \<lparr>row_values = map Some r\<rparr>)"

definition table_of :: "string list list \<Rightarrow> table" where
  "table_of rows = lmap_table_new\<lparr>tab_rows := rows_of rows\<rparr>"

lemma row_text_fold:
  "csv_end (fold (\<lambda>f out. csv_append out d (Some f)) cs (out @ append_field d (Some c)))
     = out @ append_field d (Some c) @ concat (map (\<lambda>f. d # append_field d (Some f)) cs) @ [newline]"
proof (induction cs arbitrary: out c)
  case Nil
  then show ?case by (simp add: csv_end_def append_field_def)
next
  case (Cons f cs)
  show ?case
    using Cons [of "out @ append_field d (Some c) @ [d]" f] by (simp add: csv_append_def)
qed

lemma row_text_Cons:
  "row_text (c # cs) = append_field delimiter (Some c) @ concat (map (\<lambda>f. delimiter # append_field delimiter (Some f)) cs) @ [newline]"
  using row_text_fold [of delimiter cs "[]" c] by (simp add: row_text_def csv_start_def)

lemma table_of_extend:
  "extend_last_row (table_of (rows @ [r])) (Some c) = table_of (rows @ [r @ [c]])"
  by (simp add: extend_last_row_def table_of_def rows_of_def lmap_row_add_value_def)

lemma table_of_start: "start_row (table_of rows) = table_of (rows @ [[]])"
  by (simp add: start_row_def table_of_def rows_of_def lmap_table_add_row_def lmap_row_new_def)

lemma read_table_newline:
  "read_table_loop (open_stream (newline # s)) b t = read_table_loop (open_stream s) False t"
  using delimiter_ok_newline [OF delimiter_ok_semicolon]
  by (subst read_table_loop.simps) (simp add: csv_next_newline)

lemma read_table_cell:
  assumes "field_ok f" "c = delimiter \<or> c = newline"
  shows "read_table_loop (open_stream (append_field delimiter (Some f) @ c # s)) inrow t
    = read_table_loop (open_stream (after_field delimiter f c s)) True
        (extend_last_row (if inrow then t else start_row t) (Some f))"
  using assms
  by (subst read_table_loop.simps)
    (simp add: csv_next_append_field lmap_value_set_value_def set_string_def Let_def)

text \<open>The rest of a row, once a row is open.\<close>

lemma read_table_row:
  assumes "field_ok c" "\<forall>f\<in>set cs. field_ok f"
  shows "read_table_loop (open_stream (append_field delimiter (Some c)
             @ concat (map (\<lambda>f. delimiter # append_field delimiter (Some f)) cs) @ newline # s)) True
           (table_of (rows @ [r]))
    = read_table_loop (open_stream s) (needs_quote delimiter (last (c # cs))) (table_of (rows @ [r @ c # cs]))"
  using assms
proof (induction cs arbitrary: c r)
  case Nil
  have nl: "newline \<noteq> delimiter" by (simp add: delimiter_def)
  show ?case
    using Nil nl
    by (cases "needs_quote delimiter c")
      (simp_all add: read_table_cell table_of_extend after_field_def after_plain_def read_table_newline)
next
  case (Cons f cs)
  have step: "read_table_loop (open_stream (append_field delimiter (Some c) @ delimiter # s')) True (table_of (rows @ [r]))
      = read_table_loop (open_stream s') True (table_of (rows @ [r @ [c]]))" for s'
    using Cons.prems(1)
    by (simp add: read_table_cell table_of_extend after_field_def after_plain_def)
  show ?case
    using Cons.IH [of f "r @ [c]"] Cons.prems(2) by (simp add: step)
qed

lemma read_table_rows:
  assumes "\<forall>r\<in>set rs. r \<noteq> [] \<and> (\<forall>f\<in>set r. field_ok f)" "inrow \<longrightarrow> acc \<noteq> []"
  shows "read_table_loop (open_stream (table_text rs)) inrow (table_of acc) = Inr (table_of (place_rows inrow acc rs))"
  using assms
proof (induction rs arbitrary: inrow acc)
  case Nil
  then show ?case
    by (subst read_table_loop.simps) (simp add: table_text_def csv_next_def csv_loop.simps csv_finish_def)
next
  case (Cons r rs)
  then obtain c cs where r: "r = c # cs" "field_ok c" "\<forall>f\<in>set cs. field_ok f" by (cases r) auto
  obtain rows r0 where open_row: "(if inrow then table_of acc else start_row (table_of acc)) = table_of (rows @ [r0])"
    and acc: "rows @ [r0 @ r] = (if inrow then butlast acc @ [last acc @ r] else acc @ [r])"
  proof (cases inrow)
    case True
    then show thesis using that [of "butlast acc" "last acc"] Cons.prems(2) by simp
  next
    case False
    then show thesis using that [of acc "[]"] by (simp add: table_of_start)
  qed
  have body: "table_text (r # rs) = append_field delimiter (Some c)
      @ concat (map (\<lambda>f. delimiter # append_field delimiter (Some f)) cs) @ newline # table_text rs"
    by (simp add: table_text_def r(1) row_text_Cons)
  have "read_table_loop (open_stream (table_text (r # rs))) inrow (table_of acc)
      = read_table_loop (open_stream (table_text (r # rs))) True (table_of (rows @ [r0]))"
    using r(2) open_row
    by (cases cs) (simp_all add: body read_table_cell open_row [symmetric] start_row_def)
  also have "\<dots> = read_table_loop (open_stream (table_text rs)) (needs_quote delimiter (last r)) (table_of (rows @ [r0 @ r]))"
    using read_table_row [OF r(2,3), of "table_text rs" rows r0] by (simp only: body) (simp only: r(1))
  also have "\<dots> = Inr (table_of (place_rows (needs_quote delimiter (last r)) (rows @ [r0 @ r]) rs))"
    using Cons.prems(1) by (intro Cons.IH) auto
  finally show ?case by (simp add: acc)
qed

text \<open>
  C12. A table of non-empty rows with cells that are not empty, have no newline and do not start with a quote, written by the CSV
  writer, is read by \<^const>\<open>read_table\<close> with every cell in its order; the rows are kept apart exactly
  where the last cell of a row is written without quotes, and run together where it is quoted.
\<close>

theorem read_table_text:
  assumes "\<forall>r\<in>set rows. r \<noteq> [] \<and> (\<forall>f\<in>set r. field_ok f)"
  shows "read_table (table_text rows) = Inr (table_of (place_rows False [] rows))
    \<and> ((\<forall>r\<in>set rows. \<not> needs_quote delimiter (last r)) \<longrightarrow> place_rows False [] rows = rows)"
proof
  show "read_table (table_text rows) = Inr (table_of (place_rows False [] rows))"
    using read_table_rows [OF assms, of False "[]"]
    by (simp add: read_table_def table_of_def rows_of_def lmap_table_new_def)
  have "place_rows False acc rs = acc @ rs" if "\<forall>r\<in>set rs. \<not> needs_quote delimiter (last r)" for acc rs
    using that by (induction rs arbitrary: acc) simp_all
  then show "(\<forall>r\<in>set rows. \<not> needs_quote delimiter (last r)) \<longrightarrow> place_rows False [] rows = rows"
    by simp
qed

theorem read_table_text_witness:
  "read_table (table_text [[''1'', ''2 ms''], [''2'', ''3'']]) = Inr (table_of [[''1'', ''2 ms'', ''2'', ''3'']])"
proof -
  have "place_rows False [] [[''1'', ''2 ms''], [''2'', ''3'']] = [[''1'', ''2 ms'', ''2'', ''3'']]"
    by code_simp
  then show ?thesis
    using read_table_text [of "[[''1'', ''2 ms''], [''2'', ''3'']]"] by (simp add: field_ok_def)
qed


end
