(* ===== verification/Runner.thy ===== *)
theory Runner
  imports Result_Files Events
begin

text \<open>
  The part of \<^verbatim>\<open>src/runner.c\<close> that runs actions: starting and killing them, suppressions, and
  what happens when a child ends or an event fires. The operations work on the schedules of the data
  model and thread the operating system's side, \<open>os\<close>, through.
\<close>

section \<open>The operating system's side\<close>

text \<open>
  \<open>os_forks\<close> are the values the coming calls of \<open>fork\<close> return in the parent (-1 when none is left), \<open>os_signals\<close>
  the targets of the \<open>kill\<close> calls so far and \<open>os_started\<close> the children forked so far: the pid, the schedule, the action
  and the task as the child sees them, and its argument vector.
\<close>

record child =
  ch_pid :: int
  ch_schedule :: schedule
  ch_action :: action
  ch_task :: task
  ch_argv :: "string list"

record os =
  os_fs :: fs
  os_forks :: "int list"
  os_signals :: "int list"
  os_started :: "child list"

text \<open>
  What the code asks of its surroundings and does not change: the cached time of the event loop, the refusals of the
  file system, which \<open>kill\<close> calls fail, and the C library.
\<close>

record env =
  en_now :: int
  en_refuse :: refusals
  en_kill_fails :: "int \<Rightarrow> bool"
  en_libc :: libc

section \<open>Finding actions and matching tags\<close>

text \<open>A pointer to a schedule or an action of the list is its position.\<close>

fun index_of :: "('a \<Rightarrow> bool) \<Rightarrow> 'a list \<Rightarrow> nat option" where
  "index_of P [] = None"
| "index_of P (x # xs) = (if P x then Some 0 else map_option Suc (index_of P xs))"

definition find_schedule_by_pid :: "schedule list \<Rightarrow> int \<Rightarrow> nat option" where
  "find_schedule_by_pid ss pid = index_of (\<lambda>s. list_ex (\<lambda>a. act_pid a = pid) (sched_actions s)) ss"

definition find_action_by_pid :: "schedule list \<Rightarrow> int \<Rightarrow> (nat \<times> nat) option" where
  "find_action_by_pid ss pid =
     (case find_schedule_by_pid ss pid of
        None \<Rightarrow> None
      | Some i \<Rightarrow> map_option (Pair i) (index_of (\<lambda>a. act_pid a = pid) (sched_actions (ss ! i))))"

text \<open>A tag whose \<open>char *\<close> is \<open>NULL\<close> is passed to \<open>fnmatch\<close>.\<close>

fun tag_match_any :: "libc \<Rightarrow> tag \<Rightarrow> tag list \<Rightarrow> bool outcome" where
  "tag_match_any lc m [] = Inr False"
| "tag_match_any lc m (t # ts) =
     (case (m, t) of
        (Some p, Some s) \<Rightarrow> if lc_fnmatch lc p s then Inr True else tag_match_any lc m ts
      | _ \<Rightarrow> Inl Null_Deref)"

fun big_tag_match :: "libc \<Rightarrow> tag list \<Rightarrow> tag list \<Rightarrow> bool outcome" where
  "big_tag_match lc [] tags = Inr False"
| "big_tag_match lc (m # ms) tags =
     obind (tag_match_any lc m tags) (\<lambda>b. if b then Inr True else big_tag_match lc ms tags)"

section \<open>Starting an action\<close>

definition argv_limit :: nat where
  "argv_limit = 256 - 4"

definition option_args :: "lmap_option \<Rightarrow> string list" where
  "option_args p =
     (case opt_name p of None \<Rightarrow> [] | Some n \<Rightarrow> [n]) @ (case opt_value p of None \<Rightarrow> [] | Some v \<Rightarrow> [v])"

text \<open>The arguments so far are \<open>argv[0]\<close> to \<open>argv[i]\<close>; \<open>None\<close> when the limit is reached.\<close>

fun push_options :: "lmap_option list \<Rightarrow> string list \<Rightarrow> string list option" where
  "push_options [] args = Some args"
| "push_options (p # ps) args =
     (if argv_limit \<le> length args - 1 then None else push_options ps (args @ option_args p))"

definition program_allowed :: "lmap \<Rightarrow> string \<Rightarrow> bool" where
  "program_allowed l prog =
     (case lm_capabilities l of
        None \<Rightarrow> False
      | Some c \<Rightarrow> list_ex (\<lambda>t. task_program t = Some prog) (cap_tasks c))"

definition next_fork :: "os \<Rightarrow> int \<times> os" where
  "next_fork w =
     (case os_forks w of [] \<Rightarrow> (-1, w) | p # ps \<Rightarrow> (p, w\<lparr>os_forks := ps\<rparr>))"

definition action_exec ::
  "env \<Rightarrow> lmap \<Rightarrow> schedule \<Rightarrow> action \<Rightarrow> os \<Rightarrow> int \<times> action \<times> os" where
  "action_exec en l s a w =
     (if act_name a = None \<or> act_task a = None \<or> act_workspace a = None then (0, a, w)
      else
        let a1 = (if act_state a = Suppressed
                  then a\<lparr>act_cnt_suppressions := act_cnt_suppressions a + 1\<rparr> else a)
        in if act_state a1 = Disabled \<or> act_state a1 = Suppressed then (0, a1, w)
           else case lmap_find_task l (act_task a1) of
             None \<Rightarrow> (-1, a1, w)
           | Some task \<Rightarrow>
               (case task_program task of
                  None \<Rightarrow> (-1, a1, w)
                | Some prog \<Rightarrow>
                    if \<not> program_allowed l prog then (-1, a1, w)
                    else if act_pid a1 \<noteq> 0
                      then (-1, a1\<lparr>act_cnt_overlaps := act_cnt_overlaps a1 + 1\<rparr>, w)
                    else case Option.bind (push_options (task_options task) [prog])
                                (push_options (act_options a1)) of
                      None \<Rightarrow> (-1, a1, w)
                    | Some argv \<Rightarrow>
                        (case next_fork w of
                           (pid, w1) \<Rightarrow>
                             if pid < 0 then (-1, a1, w1)
                             else (1, a1\<lparr>act_pid := pid, act_last_invocation := en_now en,
                                        act_state := Running,
                                        act_cnt_invocations := act_cnt_invocations a1 + 1\<rparr>,
                                   w1\<lparr>os_started := os_started w1 @
                                        [\<lparr>ch_pid = pid, ch_schedule = s,
                                          ch_action = a1\<lparr>act_last_invocation := en_now en\<rparr>,
                                          ch_task = task, ch_argv = argv\<rparr>]\<rparr>))))"

text \<open>
  The child's side of \<open>action_exec\<close>, from \<open>fork\<close> to \<open>execvp\<close>: what it leaves in the file system, and the program it turns
  into unless it exits with a failure. \<open>redirects\<close> and \<open>own_group\<close> say whether \<open>dup2\<close> and \<open>setpgid\<close> succeed.
\<close>

datatype child_end = Exit_Failure | Exec "string list"

definition action_child ::
  "env \<Rightarrow> bool \<Rightarrow> bool \<Rightarrow> child \<Rightarrow> fs \<Rightarrow> (child_end \<times> fs) outcome" where
  "action_child en redirects own_group c fs =
     obind (lmapd_workspace_action_meta_add_start (en_libc en) (en_refuse en) (ch_schedule c) (ch_action c)
              (ch_task c) fs)
       (\<lambda>(r, fs1).
          if r \<noteq> 0 then Inr (Exit_Failure, fs1)
          else case lmapd_workspace_action_open_data (en_refuse en) (ch_schedule c) (ch_action c)
                      Create_Truncate fs1 of
            (None, fs2) \<Rightarrow> Inr (Exit_Failure, fs2)
          | (Some _, fs2) \<Rightarrow>
              if \<not> redirects then Inr (Exit_Failure, fs2)
              else if \<not> open_directory (en_refuse en) fs2 (print_path (act_workspace (ch_action c)))
                then Inr (Exit_Failure, fs2)
              else if \<not> own_group then Inr (Exit_Failure, fs2)
              else Inr (Exec (ch_argv c), fs2))"

section \<open>Running a schedule\<close>

definition action_clean_os :: "env \<Rightarrow> action \<Rightarrow> os \<Rightarrow> os" where
  "action_clean_os en a w =
     w\<lparr>os_fs := snd (lmapd_workspace_action_clean (en_refuse en) (Some a) (os_fs w))\<rparr>"

text \<open>The loop of the parallel mode: the actions afterwards, and whether one was started.\<close>

fun exec_actions ::
  "env \<Rightarrow> lmap \<Rightarrow> schedule \<Rightarrow> action list \<Rightarrow> os \<Rightarrow> bool \<times> action list \<times> os" where
  "exec_actions en l s [] w = (False, [], w)"
| "exec_actions en l s (a # as) w =
     (case action_exec en l s a w of
        (rc, a', w1) \<Rightarrow>
          (case exec_actions en l s as w1 of
             (started, as', w2) \<Rightarrow> (rc = 1 \<or> started, a' # as', w2)))"

definition schedule_exec :: "env \<Rightarrow> lmap \<Rightarrow> schedule \<Rightarrow> os \<Rightarrow> schedule \<times> os" where
  "schedule_exec en l s w =
     (if sched_name s = None then (s, w)
      else
        let w1 = fold (action_clean_os en) (sched_actions s) w;
            s1 = s\<lparr>sched_last_invocation := en_now en,
                   sched_cnt_invocations := sched_cnt_invocations s + 1\<rparr>
        in case sched_mode s of
             Sequential \<Rightarrow>
               (case sched_actions s of
                  [] \<Rightarrow> (s1, w1)
                | a # as \<Rightarrow>
                    (case action_exec en l s1 a w1 of
                       (rc, a', w2) \<Rightarrow>
                         (s1\<lparr>sched_actions := a' # as,
                             sched_state := (if rc = 1 then Running else sched_state s1)\<rparr>, w2)))
           | Parallel \<Rightarrow>
               (case exec_actions en l s1 (sched_actions s) w1 of
                  (started, as', w2) \<Rightarrow>
                    (s1\<lparr>sched_actions := as',
                        sched_state := (if started then Running else sched_state s1)\<rparr>, w2))
           | Pipelined \<Rightarrow> (s\<lparr>sched_state := Disabled\<rparr>, w1))"

section \<open>Killing\<close>

definition action_kill :: "env \<Rightarrow> action \<Rightarrow> os \<Rightarrow> os" where
  "action_kill en a w =
     (if act_name a = None then w
      else if act_state a = Running \<and> act_pid a \<noteq> 0 then
        (if en_kill_fails en (- act_pid a)
         then w\<lparr>os_signals := os_signals w @ [- act_pid a, act_pid a]\<rparr>
         else w\<lparr>os_signals := os_signals w @ [- act_pid a]\<rparr>)
      else w)"

definition schedule_kill :: "env \<Rightarrow> schedule \<Rightarrow> os \<Rightarrow> os" where
  "schedule_kill en s w =
     (if sched_name s = None then w else fold (action_kill en) (sched_actions s) w)"

definition lmapd_killall :: "env \<Rightarrow> lmapd \<Rightarrow> os \<Rightarrow> os" where
  "lmapd_killall en d w =
     (case ld_lmap d of None \<Rightarrow> w | Some l \<Rightarrow> fold (schedule_kill en) (lm_schedules l) w)"

section \<open>Suppressions\<close>

definition schedule_suppress :: "supp \<Rightarrow> schedule \<Rightarrow> schedule" where
  "schedule_suppress p s =
     s\<lparr>sched_state := (if sched_state s = Enabled then Suppressed else sched_state s),
       sched_flags := (if flag_on (supp_flags p) LMAP_SUPP_FLAG_STOP_RUNNING_SET
                       then flag_set (sched_flags s) LMAP_SCHEDULE_FLAG_STOP_RUNNING else sched_flags s),
       sched_cnt_active_suppressions := sched_cnt_active_suppressions s + 1\<rparr>"

text \<open>Whether \<open>suppression_start\<close> stops this running action because the action itself matches.\<close>

definition stops_action :: "supp \<Rightarrow> flags \<Rightarrow> action \<Rightarrow> bool" where
  "stops_action p sflags a \<longleftrightarrow>
     act_state a = Running \<and> \<not> flag_on sflags LMAP_SCHEDULE_FLAG_STOP_RUNNING
     \<and> flag_on (supp_flags p) LMAP_SUPP_FLAG_STOP_RUNNING_SET"

definition action_suppress :: "supp \<Rightarrow> flags \<Rightarrow> action \<Rightarrow> action" where
  "action_suppress p sflags a =
     a\<lparr>act_state := (if act_state a = Enabled \<or> stops_action p sflags a then Suppressed else act_state a),
       act_cnt_active_suppressions := act_cnt_active_suppressions a + 1\<rparr>"

definition suppress_action :: "env \<Rightarrow> supp \<Rightarrow> flags \<Rightarrow> action \<Rightarrow> os \<Rightarrow> (action \<times> os) outcome" where
  "suppress_action en p sflags a w =
     (if act_state a = Disabled then Inr (a, w)
      else
        let w1 = (if flag_on sflags LMAP_SCHEDULE_FLAG_STOP_RUNNING then action_kill en a w else w)
        in obind (big_tag_match (en_libc en) (supp_match p) (act_suppression_tags a))
             (\<lambda>b. if b
                  then Inr (action_suppress p sflags a,
                            if stops_action p sflags a then action_kill en a w1 else w1)
                  else Inr (a, w1)))"

definition suppress_schedule :: "env \<Rightarrow> supp \<Rightarrow> schedule \<Rightarrow> os \<Rightarrow> (schedule \<times> os) outcome" where
  "suppress_schedule en p s w =
     (if sched_state s = Disabled then Inr (s, w)
      else obind (big_tag_match (en_libc en) (supp_match p) (sched_suppression_tags s))
             (\<lambda>b. let s1 = (if b then schedule_suppress p s else s)
                  in obind (omap (suppress_action en p (sched_flags s1)) (sched_actions s1) w)
                       (\<lambda>(as, w'). Inr (s1\<lparr>sched_actions := as\<rparr>, w'))))"

definition suppression_start ::
  "env \<Rightarrow> supp \<Rightarrow> schedule list \<Rightarrow> os \<Rightarrow> (supp \<times> schedule list \<times> os) outcome" where
  "suppression_start en p ss w =
     (if supp_match p = [] \<or> supp_name p = None then Inr (p, ss, w)
      else obind (omap (suppress_schedule en p) ss w)
             (\<lambda>(ss', w'). Inr (p\<lparr>supp_state := Supp_Active\<rparr>, ss', w')))"

definition schedule_unsuppress :: "schedule \<Rightarrow> schedule" where
  "schedule_unsuppress s =
     (let n = (if sched_cnt_active_suppressions s \<noteq> 0 then sched_cnt_active_suppressions s - 1
               else sched_cnt_active_suppressions s)
      in s\<lparr>sched_cnt_active_suppressions := n,
           sched_state := (if n = 0 \<and> sched_state s = Suppressed then Enabled else sched_state s)\<rparr>)"

definition action_unsuppress :: "action \<Rightarrow> action" where
  "action_unsuppress a =
     (let n = (if act_cnt_active_suppressions a \<noteq> 0 then act_cnt_active_suppressions a - 1
               else act_cnt_active_suppressions a)
      in a\<lparr>act_cnt_active_suppressions := n,
           act_state := (if n = 0 \<and> act_state a = Suppressed then Enabled else act_state a)\<rparr>)"

definition unsuppress_action :: "env \<Rightarrow> supp \<Rightarrow> action \<Rightarrow> os \<Rightarrow> (action \<times> os) outcome" where
  "unsuppress_action en p a w =
     (if act_state a = Disabled then Inr (a, w)
      else obind (big_tag_match (en_libc en) (supp_match p) (act_suppression_tags a))
             (\<lambda>b. Inr (if b then action_unsuppress a else a, w)))"

definition unsuppress_schedule :: "env \<Rightarrow> supp \<Rightarrow> schedule \<Rightarrow> os \<Rightarrow> (schedule \<times> os) outcome" where
  "unsuppress_schedule en p s w =
     (if sched_state s = Disabled then Inr (s, w)
      else obind (big_tag_match (en_libc en) (supp_match p) (sched_suppression_tags s))
             (\<lambda>b. let s1 = (if b then schedule_unsuppress s else s)
                  in obind (omap (unsuppress_action en p) (sched_actions s1) w)
                       (\<lambda>(as, w'). Inr (s1\<lparr>sched_actions := as\<rparr>, w'))))"

definition suppression_end ::
  "env \<Rightarrow> supp \<Rightarrow> schedule list \<Rightarrow> os \<Rightarrow> (supp \<times> schedule list \<times> os) outcome" where
  "suppression_end en p ss w =
     (if supp_match p = [] \<or> supp_name p = None then Inr (p, ss, w)
      else obind (omap (unsuppress_schedule en p) ss w)
             (\<lambda>(ss', w'). Inr (p\<lparr>supp_state := Supp_Enabled\<rparr>, ss', w')))"

section \<open>A child has ended\<close>

datatype wait_status = Exited int | Signaled int | Stopped

definition move_to ::
  "env \<Rightarrow> schedule list \<Rightarrow> nat \<Rightarrow> schedule \<Rightarrow> action \<Rightarrow> bool \<Rightarrow> tag \<Rightarrow> os \<Rightarrow> int \<times> os" where
  "move_to en ss i s a defer tag w =
     (case (if tag = None then None else index_of (\<lambda>s. sched_name s = tag) ss) of
        None \<Rightarrow> (0, w)
      | Some k \<Rightarrow>
          (case lmapd_workspace_action_move (en_refuse en) (Some s) (Some a) (Some (ss ! k)) (k = i) defer
                  (os_fs w) of
             (c, f) \<Rightarrow> (c, w\<lparr>os_fs := f\<rparr>)))"

text \<open>The first loop over the destinations: whether any move was deferred.\<close>

fun move_or_defer ::
  "env \<Rightarrow> schedule list \<Rightarrow> nat \<Rightarrow> schedule \<Rightarrow> action \<Rightarrow> tag list \<Rightarrow> os \<Rightarrow> bool \<times> os" where
  "move_or_defer en ss i s a [] w = (False, w)"
| "move_or_defer en ss i s a (t # ts) w =
     (case move_to en ss i s a True t w of
        (c, w1) \<Rightarrow> (case move_or_defer en ss i s a ts w1 of (d, w2) \<Rightarrow> (0 < c \<or> d, w2)))"

fun move_all ::
  "env \<Rightarrow> schedule list \<Rightarrow> nat \<Rightarrow> schedule \<Rightarrow> action \<Rightarrow> tag list \<Rightarrow> os \<Rightarrow> os" where
  "move_all en ss i s a [] w = w"
| "move_all en ss i s a (t # ts) w =
     move_all en ss i s a ts (snd (move_to en ss i s a False t w))"

definition action_ended :: "env \<Rightarrow> wait_status \<Rightarrow> action \<Rightarrow> action" where
  "action_ended en st a =
     (let status = (case st of Exited n \<Rightarrow> n | Signaled n \<Rightarrow> - n | Stopped \<Rightarrow> act_last_status a);
          a1 = a\<lparr>act_pid := 0, act_state := Enabled, act_last_completion := en_now en,
                 act_last_status := status\<rparr>
      in if status \<noteq> 0
         then a1\<lparr>act_last_failed_completion := act_last_completion a1, act_last_failed_status := status,
                 act_cnt_failures := act_cnt_failures a1 + 1\<rparr>
         else a1)"

text \<open>The action's own part: its record and meta file, moving or deferring its results, cleaning up.\<close>

definition finish_action ::
  "env \<Rightarrow> schedule list \<Rightarrow> nat \<Rightarrow> schedule \<Rightarrow> wait_status \<Rightarrow> action \<Rightarrow> os \<Rightarrow> (action \<times> os) outcome" where
  "finish_action en ss i s st a w =
     (let a1 = action_ended en st a
      in obind (lmapd_workspace_action_meta_add_end (en_refuse en) s a1 (os_fs w))
           (\<lambda>(_, f).
              let w1 = w\<lparr>os_fs := f\<rparr>;
                  (deferred, w2) =
                    (if act_last_status a1 = 0 then move_or_defer en ss i s a1 (act_destinations a1) w1
                     else (False, w1));
                  a2 = (if deferred
                        then a1\<lparr>act_flags := flag_set (act_flags a1) LMAP_ACTION_FLAG_MOVEDEFERRED\<rparr>
                        else a1)
              in Inr (a2, if flag_on (act_flags a2) LMAP_ACTION_FLAG_MOVEDEFERRED then w2
                          else action_clean_os en a2 w2)))"

text \<open>The next action of a sequential schedule.\<close>

definition exec_next ::
  "env \<Rightarrow> lmap \<Rightarrow> nat \<Rightarrow> schedule \<Rightarrow> os \<Rightarrow> schedule \<times> os" where
  "exec_next en l j s w =
     (if j + 1 < length (sched_actions s) \<and> sched_mode s = Sequential \<and> sched_state s \<noteq> Suppressed
         \<and> \<not> flag_on (sched_flags s) LMAP_SCHEDULE_FLAG_STOP_RUNNING
      then (case action_exec en l s (sched_actions s ! (j + 1)) w of
              (_, a, w') \<Rightarrow> (s\<lparr>sched_actions := (sched_actions s)[j + 1 := a]\<rparr>, w'))
      else (s, w))"

text \<open>The deferred moves and the cleaning when no action is running any more.\<close>

fun finish_actions ::
  "env \<Rightarrow> schedule list \<Rightarrow> nat \<Rightarrow> schedule \<Rightarrow> action list \<Rightarrow> os \<Rightarrow> action list \<times> os" where
  "finish_actions en ss i s [] w = ([], w)"
| "finish_actions en ss i s (a # as) w =
     (let w1 = (if flag_on (act_flags a) LMAP_ACTION_FLAG_MOVEDEFERRED
                then move_all en ss i s a (act_destinations a) w else w);
          a1 = a\<lparr>act_flags := flag_clear (act_flags a) LMAP_ACTION_FLAG_MOVEDEFERRED\<rparr>;
          (as', w2) = finish_actions en ss i s as (action_clean_os en a1 w1)
      in (a1 # as', w2))"

definition finish_schedule :: "env \<Rightarrow> schedule list \<Rightarrow> nat \<Rightarrow> schedule \<Rightarrow> os \<Rightarrow> schedule \<times> os" where
  "finish_schedule en ss i s w =
     (let still_running = list_ex (\<lambda>a. act_state a = Running) (sched_actions s);
          succeeded = list_ex (\<lambda>a. act_last_status a = 0) (sched_actions s);
          s1 = (if sched_state s = Running \<and> \<not> still_running
                then s\<lparr>sched_state := (if sched_cnt_active_suppressions s \<noteq> 0 then Suppressed else Enabled)\<rparr>
                else s)
      in if still_running then (s1, w)
         else (case finish_actions en ss i s1 (sched_actions s1) w of
                 (as, w1) \<Rightarrow>
                   let s2 = s1\<lparr>sched_actions := as\<rparr>
                   in if succeeded
                      then (s2, w1\<lparr>os_fs := snd (lmapd_workspace_schedule_clean (en_refuse en) (Some s2) (os_fs w1))\<rparr>)
                      else (s2\<lparr>sched_cnt_failures := sched_cnt_failures s2 + 1\<rparr>, w1)))"

definition with_schedules :: "lmap \<Rightarrow> schedule list \<Rightarrow> lmap" where
  "with_schedules l ss = l\<lparr>lm_schedules := ss\<rparr>"

text \<open>One turn of the loop of \<open>lmapd_cleanup\<close>, for a pid that \<open>waitpid\<close> has returned.\<close>

definition cleanup_child :: "env \<Rightarrow> int \<times> wait_status \<Rightarrow> lmap \<times> os \<Rightarrow> (lmap \<times> os) outcome" where
  "cleanup_child en r lw =
     (case (r, lw) of
        ((pid, st), (l, w)) \<Rightarrow>
          if st = Stopped then Inr (l, w)
          else case find_action_by_pid (lm_schedules l) pid of
            None \<Rightarrow> Inr (l, w)
          | Some (i, j) \<Rightarrow>
              (let ss = lm_schedules l; s = ss ! i
               in obind (finish_action en ss i s st (sched_actions s ! j) w)
                    (\<lambda>(a, w1).
                       let s1 = s\<lparr>sched_actions := (sched_actions s)[j := a]\<rparr>;
                           (s2, w2) = exec_next en l j s1 w1;
                           (s3, w3) = finish_schedule en ss i s2 w2
                       in Inr (with_schedules l (ss[i := s3]), w3))))"

text \<open>\<open>waits\<close> is what the calls of \<open>waitpid\<close> return before the one that returns 0 or -1.\<close>

definition lmapd_cleanup :: "env \<Rightarrow> (int \<times> wait_status) list \<Rightarrow> lmapd \<Rightarrow> os \<Rightarrow> (lmapd \<times> os) outcome" where
  "lmapd_cleanup en waits d w =
     (case ld_lmap d of
        None \<Rightarrow> Inr (d, w)
      | Some l \<Rightarrow>
          obind (ofold (cleanup_child en) (takeWhile (\<lambda>r. fst r \<noteq> 0 \<and> fst r \<noteq> -1) waits) (l, w))
            (\<lambda>(l', w'). Inr (d\<lparr>ld_lmap := Some l'\<rparr>, w')))"

section \<open>An event fires\<close>

text \<open>\<open>name && !strcmp(name, event->name)\<close>\<close>

definition on_event :: "string option \<Rightarrow> event \<Rightarrow> bool outcome" where
  "on_event n e =
     (case n of
        None \<Rightarrow> Inr False
      | Some x \<Rightarrow> (case ev_name e of None \<Rightarrow> Inl Null_Deref | Some y \<Rightarrow> Inr (x = y)))"

definition cycle_number_at :: "env \<Rightarrow> event \<Rightarrow> int" where
  "cycle_number_at en e =
     (if flag_on (ev_flags e) LMAP_EVENT_FLAG_CYCLE_INTERVAL_SET \<and> ev_cycle_interval e \<noteq> 0
      then en_now en div uint (ev_cycle_interval e) * uint (ev_cycle_interval e) else 0)"

definition once_only :: "event_type \<Rightarrow> bool" where
  "once_only t \<longleftrightarrow> t = One_Off \<or> t = Immediate \<or> t = Startup"

text \<open>Whether the start branch marks the daemon's startup as done comes back with the schedule.\<close>

definition start_schedule ::
  "env \<Rightarrow> lmap \<Rightarrow> event \<Rightarrow> schedule \<Rightarrow> os \<Rightarrow> bool \<times> schedule \<times> os" where
  "start_schedule en l e s w =
     (if sched_state s = Suppressed
        then (False, s\<lparr>sched_cnt_suppressions := sched_cnt_suppressions s + 1\<rparr>, w)
      else if sched_state s = Running
        then (False, s\<lparr>sched_cnt_overlaps := sched_cnt_overlaps s + 1\<rparr>, w)
      else
        let s1 = s\<lparr>sched_cycle_number := cycle_number_at en e\<rparr>;
            w1 = w\<lparr>os_fs := snd (lmapd_workspace_schedule_move (en_refuse en) (Some s1) (os_fs w))\<rparr>;
            (s2, w2) = schedule_exec en l s1 w1
        in (ev_type e = Startup,
            if once_only (ev_type e) then s2\<lparr>sched_state := Disabled\<rparr> else s2, w2))"

definition execute_schedule ::
  "env \<Rightarrow> lmap \<Rightarrow> event \<Rightarrow> schedule \<Rightarrow> bool \<times> os \<Rightarrow> (schedule \<times> bool \<times> os) outcome" where
  "execute_schedule en l e s acc =
     (case acc of
        (done_, w) \<Rightarrow>
          obind (if sched_state s = Disabled then Inr (False, s, w)
                 else if sched_name s = None then Inr (False, s\<lparr>sched_state := Disabled\<rparr>, w)
                 else obind (on_event (sched_start s) e)
                        (\<lambda>b. Inr (if b then start_schedule en l e s w else (False, s, w))))
            (\<lambda>(d, s1, w1).
               obind (on_event (sched_end s1) e)
                 (\<lambda>b. Inr (s1, done_ \<or> d, if b then schedule_kill en s1 w1 else w1))))"

definition execute_cb :: "env \<Rightarrow> event \<Rightarrow> lmapd \<Rightarrow> os \<Rightarrow> (lmapd \<times> os) outcome" where
  "execute_cb en e d w =
     (case ld_lmap d of
        None \<Rightarrow> Inr (d, w)
      | Some l \<Rightarrow>
          obind (omap (execute_schedule en l e) (lm_schedules l) (False, w))
            (\<lambda>(ss, started, w').
               Inr (d\<lparr>ld_lmap := Some (with_schedules l ss),
                      ld_flags := (if started then flag_set (ld_flags d) LMAPD_FLAG_STARTUPDONE
                                   else ld_flags d)\<rparr>, w')))"

definition suppress_one ::
  "env \<Rightarrow> event \<Rightarrow> supp \<Rightarrow> schedule list \<times> os \<Rightarrow> (supp \<times> schedule list \<times> os) outcome" where
  "suppress_one en e p acc =
     (case acc of
        (ss, w) \<Rightarrow>
          if supp_state p = Supp_Disabled then Inr (p, ss, w)
          else if supp_name p = None then Inr (p\<lparr>supp_state := Supp_Disabled\<rparr>, ss, w)
          else
            obind (on_event (supp_start p) e)
              (\<lambda>b. obind (if b \<and> supp_state p = Supp_Enabled then suppression_start en p ss w
                          else Inr (p, ss, w))
                (\<lambda>(p1, ss1, w1).
                   obind (on_event (supp_end p1) e)
                     (\<lambda>b. if b \<and> supp_state p1 = Supp_Active then suppression_end en p1 ss1 w1
                          else Inr (p1, ss1, w1)))))"

definition suppress_cb :: "env \<Rightarrow> event \<Rightarrow> lmapd \<Rightarrow> os \<Rightarrow> (lmapd \<times> os) outcome" where
  "suppress_cb en e d w =
     (case ld_lmap d of
        None \<Rightarrow> Inr (d, w)
      | Some l \<Rightarrow>
          obind (omap (suppress_one en e) (lm_supps l) (lm_schedules l, w))
            (\<lambda>(ps, ss, w'). Inr (d\<lparr>ld_lmap := Some (l\<lparr>lm_supps := ps, lm_schedules := ss\<rparr>)\<rparr>, w')))"

text \<open>\<open>k\<close> is the position of the event in the list.\<close>

definition fire_cb :: "env \<Rightarrow> nat \<Rightarrow> lmapd \<Rightarrow> os \<Rightarrow> (lmapd \<times> os) outcome" where
  "fire_cb en k d w =
     (case ld_lmap d of
        None \<Rightarrow> Inr (d, w)
      | Some l \<Rightarrow>
          let e = lm_events l ! k
          in obind (suppress_cb en e d w)
               (\<lambda>(d1, w1). obind (execute_cb en e d1 w1)
                  (\<lambda>(d2, w2).
                     Inr (d2\<lparr>ld_lmap := map_option
                            (\<lambda>l. l\<lparr>lm_events := (lm_events l)[k := (lm_events l ! k)\<lparr>ev_fire_event := None\<rparr>]\<rparr>)
                            (ld_lmap d2)\<rparr>, w2))))"

end
