(* ===== verification/Processes.thy ===== *)
theory Processes
  imports Runner "HOL-Library.Multiset"
begin

text \<open>
  Who runs what: the children of the daemon and the pids the actions hold. \<open>accounts\<close> is the contract every
  operation of the runner keeps: pids come from \<open>fork\<close> only and from nowhere else, signals go to
  pids that an action holds, and every child runs a program the capabilities list. The locale
  \<open>accounting\<close> lifts such a contract from one element of a list to the loops over schedules and actions.
\<close>

section \<open>Contracts on lists\<close>

text \<open>
  \<open>rel P w P' w'\<close> relates what the elements of a list hold and the shared state before and after an operation.
\<close>

locale accounting =
  fixes rel :: "'p list \<Rightarrow> 's \<Rightarrow> 'p list \<Rightarrow> 's \<Rightarrow> bool"
  assumes rel_refl: "rel P w P w"
    and rel_trans: "rel P w P' w' \<Longrightarrow> rel P' w' P'' w'' \<Longrightarrow> rel P w P'' w''"
    and rel_frame: "rel P w P' w' \<Longrightarrow> rel (A @ P @ B) w (A @ P' @ B) w'"
begin

lemma rel_append:
  assumes "rel P w P' w'" "rel Q w' Q' w''"
  shows "rel (P @ Q) w (P' @ Q') w''"
proof -
  have "rel (P @ Q) w (P' @ Q) w'" using rel_frame [OF assms(1), of "[]" Q] by simp
  moreover have "rel (P' @ Q) w' (P' @ Q') w''" using rel_frame [OF assms(2), of P' "[]"] by simp
  ultimately show ?thesis by (rule rel_trans)
qed

lemma rel_omap:
  assumes step: "\<And>x w x' w'. f x w = Inr (x', w') \<Longrightarrow> rel (h x) w (h' x') w'"
    and run: "omap f xs w = Inr (xs', w')"
  shows "rel (concat (map h xs)) w (concat (map h' xs')) w'"
  using run
proof (induction xs arbitrary: w xs')
  case Nil
  then show ?case by (simp add: rel_refl)
next
  case (Cons x xs)
  from Cons.prems obtain y w1 ys where "f x w = Inr (y, w1)" "omap f xs w1 = Inr (ys, w')" "xs' = y # ys"
    by (auto simp: obind_Inr)
  with rel_append [OF step Cons.IH] show ?case by simp
qed

lemma rel_fold:
  assumes step: "\<And>x w. x \<in> set xs \<Longrightarrow> rel (h x) w (h x) (f x w)"
  shows "rel (concat (map h xs)) w (concat (map h xs)) (fold f xs w)"
  using step
proof (induction xs arbitrary: w)
  case Nil
  then show ?case by (simp add: rel_refl)
next
  case (Cons x xs)
  then have "rel (h x) w (h x) (f x w)"
    "rel (concat (map h xs)) (f x w) (concat (map h xs)) (fold f xs (f x w))"
    by auto
  then show ?case by (auto intro: rel_append)
qed

lemma rel_update:
  assumes "i < length xs" "rel (h (xs ! i)) w (h y) w'"
  shows "rel (concat (map h xs)) w (concat (map h (xs[i := y]))) w'"
proof -
  have "concat (map h xs) = concat (map h (take i xs)) @ h (xs ! i) @ concat (map h (drop (Suc i) xs))"
    using id_take_nth_drop [OF assms(1)] by (metis concat.simps(2) concat_append list.simps(9) map_append)
  moreover have "concat (map h (xs[i := y]))
    = concat (map h (take i xs)) @ h y @ concat (map h (drop (Suc i) xs))"
    using assms(1) by (simp add: upd_conv_take_nth_drop)
  ultimately show ?thesis using rel_frame [OF assms(2)] by simp
qed

end

section \<open>Pids in use\<close>

definition held :: "int list \<Rightarrow> int list" where
  "held P = filter (\<lambda>p. p \<noteq> 0) P"

definition sched_pids :: "schedule \<Rightarrow> int list" where
  "sched_pids s = map act_pid (sched_actions s)"

definition all_pids :: "schedule list \<Rightarrow> int list" where
  "all_pids ss = concat (map sched_pids ss)"

text \<open>What a child was started with: a task of the configuration whose program the capabilities list.\<close>

definition child_allowed :: "lmap \<Rightarrow> child \<Rightarrow> bool" where
  "child_allowed l c \<longleftrightarrow>
     0 < ch_pid c \<and> ch_task c \<in> set (lm_tasks l)
     \<and> ch_argv c \<noteq> [] \<and> task_program (ch_task c) = Some (hd (ch_argv c))
     \<and> program_allowed l (hd (ch_argv c)) \<and> length (ch_argv c) < 256"

definition forks_ok :: "os \<Rightarrow> bool" where
  "forks_ok w \<longleftrightarrow> 0 \<notin> set (os_forks w)"

definition new_children :: "os \<Rightarrow> os \<Rightarrow> child list" where
  "new_children w w' = drop (length (os_started w)) (os_started w')"

text \<open>
  The contract. \<open>mset (held P) + positive forks\<close> only shrinks: a pid an action holds was held before or has been
  taken from the results of \<open>fork\<close>, and then belongs to a child that has been recorded.
\<close>

definition pool :: "int list \<Rightarrow> os \<Rightarrow> int multiset" where
  "pool P w = mset (held P) + mset (filter (\<lambda>p. 0 < p) (os_forks w))"

definition accounts :: "lmap \<Rightarrow> int list \<Rightarrow> os \<Rightarrow> int list \<Rightarrow> os \<Rightarrow> bool" where
  "accounts l P w P' w' \<longleftrightarrow>
     (\<exists>new sig.
        os_started w' = os_started w @ new \<and> os_signals w' = os_signals w @ sig
        \<and> (forks_ok w \<longrightarrow>
             forks_ok w' \<and> pool P' w' \<subseteq># pool P w \<and> (\<forall>c\<in>set new. child_allowed l c)
             \<and> set (held P') \<subseteq> set (held P) \<union> ch_pid ` set new
             \<and> (\<forall>t\<in>set sig. t \<noteq> 0 \<and> (t \<in> set (held P) \<union> ch_pid ` set new
                                   \<or> - t \<in> set (held P) \<union> ch_pid ` set new))))"

lemma held_simps [simp]:
  "held [] = []" "held (A @ B) = held A @ held B" "held (0 # P) = held P" "p \<noteq> 0 \<Longrightarrow> held (p # P) = p # held P"
  by (simp_all add: held_def)

lemma accounts_refl: "accounts l P w P w"
  by (auto simp: accounts_def)

lemma accounts_frame: "accounts l P w P' w' \<Longrightarrow> accounts l (A @ P @ B) w (A @ P' @ B) w'"
  unfolding accounts_def pool_def by (elim exE conjE, rule exI, rule exI, intro conjI) auto

lemma accounts_trans:
  assumes "accounts l P w P' w'" "accounts l P' w' P'' w''"
  shows "accounts l P w P'' w''"
proof -
  let ?S = "\<lambda>P n. set (held P) \<union> ch_pid ` set n"
  let ?G = "\<lambda>P w n s P' w'. forks_ok w' \<and> pool P' w' \<subseteq># pool P w \<and> (\<forall>c\<in>set n. child_allowed l c)
    \<and> set (held P') \<subseteq> ?S P n \<and> (\<forall>t\<in>set s. t \<noteq> 0 \<and> (t \<in> ?S P n \<or> - t \<in> ?S P n))"
  obtain n s where 1: "os_started w' = os_started w @ n" "os_signals w' = os_signals w @ s"
    and f1: "forks_ok w \<longrightarrow> ?G P w n s P' w'"
    using assms(1) unfolding accounts_def by blast
  obtain m t where 2: "os_started w'' = os_started w' @ m" "os_signals w'' = os_signals w' @ t"
    and f2: "forks_ok w' \<longrightarrow> ?G P' w' m t P'' w''"
    using assms(2) unfolding accounts_def by blast
  have "?G P w (n @ m) (s @ t) P'' w''" if "forks_ok w"
  proof -
    from f1 f2 that have g: "?G P w n s P' w'" "?G P' w' m t P'' w''" by blast+
    then have sub: "?S P n \<subseteq> ?S P (n @ m)" "?S P' m \<subseteq> ?S P (n @ m)" by (simp_all add: image_Un) blast+
    from g have "pool P'' w'' \<subseteq># pool P w" by (blast intro: subset_mset.order_trans)
    moreover have "set (held P'') \<subseteq> ?S P (n @ m)" using g(2) sub(2) by (elim conjE) (rule subset_trans)
    moreover have "\<forall>t\<in>set (s @ t). t \<noteq> 0 \<and> (t \<in> ?S P (n @ m) \<or> - t \<in> ?S P (n @ m))"
    proof
      fix x assume "x \<in> set (s @ t)"
      then consider "x \<in> set s" | "x \<in> set t" by auto
      then have "x \<noteq> 0 \<and> (x \<in> ?S P n \<or> - x \<in> ?S P n \<or> x \<in> ?S P' m \<or> - x \<in> ?S P' m)"
        using g by cases blast+
      then show "x \<noteq> 0 \<and> (x \<in> ?S P (n @ m) \<or> - x \<in> ?S P (n @ m))"
        using subsetD [OF sub(1)] subsetD [OF sub(2)] by (elim conjE disjE) simp_all
    qed
    moreover have "forks_ok w''" using g(2) by (rule conjunct1)
    moreover have "\<forall>c\<in>set (n @ m). child_allowed l c" using g unfolding set_append ball_Un by (elim conjE) (rule conjI)
    ultimately show ?thesis by (intro conjI)
  qed
  moreover have "os_started w'' = os_started w @ (n @ m)" "os_signals w'' = os_signals w @ (s @ t)"
    using 1 2 by simp_all
  ultimately show ?thesis unfolding accounts_def by blast
qed

interpretation acc: accounting "accounts l" for l
  by unfold_locales (rule accounts_refl, erule (1) accounts_trans, rule accounts_frame)
section \<open>What each operation does to the pids\<close>

lemma push_options_Some:
  "push_options ps args = Some r \<Longrightarrow> r = args @ concat (map option_args ps)"
proof (induction ps arbitrary: args)
  case (Cons p ps)
  then have "push_options ps (args @ option_args p) = Some r" by (simp split: if_splits)
  from Cons.IH [OF this] show ?case by simp
qed simp

lemma option_args_length: "length (option_args p) \<le> 2"
  by (auto simp: option_args_def split: option.splits)

lemma push_options_length:
  "push_options ps args = Some r \<Longrightarrow> length args \<le> 254 \<Longrightarrow> length r \<le> 254"
proof (induction ps arbitrary: args)
  case (Cons p ps)
  then show ?case
    using option_args_length [of p] by (auto simp: argv_limit_def split: if_splits)
qed simp

text \<open>\<open>action_exec\<close> returns 1 exactly when it has started a child; otherwise it has changed counters only.\<close>

definition exec_argv :: "string \<Rightarrow> task \<Rightarrow> action \<Rightarrow> string list" where
  "exec_argv prog t a = prog # concat (map option_args (task_options t @ act_options a))"

lemma argv_Some:
  assumes "Option.bind (push_options (task_options t) [prog]) (push_options (act_options a)) = Some argv"
  shows "argv = exec_argv prog t a \<and> length argv \<le> 254"
proof -
  obtain b where b: "push_options (task_options t) [prog] = Some b" "push_options (act_options a) b = Some argv"
    using assms by (auto simp: bind_eq_Some_conv)
  have "argv = exec_argv prog t a"
    using push_options_Some [OF b(1)] push_options_Some [OF b(2)] by (simp add: exec_argv_def)
  moreover have "length argv \<le> 254"
    using push_options_length [OF b(1)] push_options_length [OF b(2)] by simp
  ultimately show ?thesis ..
qed

lemma action_exec_started:
  assumes "action_exec en l s a w = (1, a', w')"
  shows "\<exists>p ps task prog. os_forks w = p # ps \<and> 0 \<le> p \<and> act_pid a = 0
    \<and> act_state a \<noteq> Disabled \<and> act_state a \<noteq> Suppressed
    \<and> lmap_find_task l (act_task a) = Some task \<and> task_program task = Some prog \<and> program_allowed l prog
    \<and> length (exec_argv prog task a) \<le> 254
    \<and> a' = a\<lparr>act_pid := p, act_last_invocation := en_now en, act_state := Running,
             act_cnt_invocations := act_cnt_invocations a + 1\<rparr>
    \<and> w' = w\<lparr>os_forks := ps, os_started := os_started w @
              [\<lparr>ch_pid = p, ch_schedule = s, ch_action = a\<lparr>act_last_invocation := en_now en\<rparr>,
                ch_task = task, ch_argv = exec_argv prog task a\<rparr>]\<rparr>"
  using assms
  by (auto simp: action_exec_def next_fork_def Let_def dest: argv_Some split: if_splits option.splits list.splits)

lemma action_exec_refused:
  assumes "action_exec en l s a w = (rc, a', w')" "rc \<noteq> 1"
  shows "a' = a\<lparr>act_cnt_suppressions := act_cnt_suppressions a', act_cnt_overlaps := act_cnt_overlaps a'\<rparr>
    \<and> (w' = w \<or> os_forks w \<noteq> [] \<and> hd (os_forks w) < 0 \<and> w' = w\<lparr>os_forks := tl (os_forks w)\<rparr>)"
  using assms
  by (auto simp: action_exec_def next_fork_def Let_def split: if_splits option.splits list.splits prod.splits)

lemma action_exec_refused_state:
  assumes "action_exec en l s a w = (rc, a', w')" "rc \<noteq> 1"
  shows "act_pid a' = act_pid a" "act_state a' = act_state a"
proof -
  have e: "a' = a\<lparr>act_cnt_suppressions := act_cnt_suppressions a', act_cnt_overlaps := act_cnt_overlaps a'\<rparr>"
    using action_exec_refused [OF assms] by blast
  show "act_pid a' = act_pid a" using arg_cong [OF e, of act_pid] by simp
  show "act_state a' = act_state a" using arg_cong [OF e, of act_state] by simp
qed

lemma action_exec_rc: "action_exec en l s a w = (rc, a', w') \<Longrightarrow> rc = 1 \<or> rc = 0 \<or> rc = -1"
  by (auto simp: action_exec_def Let_def split: if_splits option.splits prod.splits)

lemma accounts_same [intro]:
  "os_forks w' = os_forks w \<Longrightarrow> os_started w' = os_started w \<Longrightarrow> os_signals w' = os_signals w
   \<Longrightarrow> accounts l P w P w'"
  by (auto simp: accounts_def forks_ok_def pool_def)

lemma accounts_action_exec:
  assumes "action_exec en l s a w = (rc, a', w')"
  shows "accounts l [act_pid a] w [act_pid a'] w'"
proof (cases "rc = 1")
  case True
  with assms have "action_exec en l s a w = (1, a', w')" by simp
  from action_exec_started [OF this] obtain p ps task prog where
    p: "os_forks w = p # ps" "0 \<le> p" "act_pid a = 0" "act_pid a' = p"
    and t: "lmap_find_task l (act_task a) = Some task" "task_program task = Some prog" "program_allowed l prog"
      "length (exec_argv prog task a) \<le> 254"
    and w': "w' = w\<lparr>os_forks := ps, os_started := os_started w @
              [\<lparr>ch_pid = p, ch_schedule = s, ch_action = a\<lparr>act_last_invocation := en_now en\<rparr>,
                ch_task = task, ch_argv = exec_argv prog task a\<rparr>]\<rparr>"
    by auto
  let ?c = "\<lparr>ch_pid = p, ch_schedule = s, ch_action = a\<lparr>act_last_invocation := en_now en\<rparr>,
                ch_task = task, ch_argv = exec_argv prog task a\<rparr>"
  have "task \<in> set (lm_tasks l)"
    using t(1) by (auto simp: lmap_find_task_def find_named_def dest: find_Some_mem split: option.splits)
  then have "child_allowed l ?c" if "0 < p"
    using t that by (auto simp: child_allowed_def exec_argv_def)
  then show ?thesis
    unfolding accounts_def w' using p by (auto simp: forks_ok_def pool_def)
next
  case False
  from action_exec_refused [OF assms False] have
    "w' = w \<or> os_forks w \<noteq> [] \<and> hd (os_forks w) < 0 \<and> w' = w\<lparr>os_forks := tl (os_forks w)\<rparr>"
    by blast
  then show ?thesis
    using action_exec_refused_state (1) [OF assms False] by (cases "os_forks w") (auto simp: accounts_def forks_ok_def pool_def)
qed

lemma accounts_action_kill: "accounts l [act_pid a] w [act_pid a] (action_kill en a w)"
  by (auto simp: action_kill_def accounts_def forks_ok_def pool_def)
lemma accounts_exec_actions:
  "exec_actions en l s as w = (b, as', w') \<Longrightarrow> accounts l (map act_pid as) w (map act_pid as') w'"
proof (induction as arbitrary: b as' w w')
  case Nil
  then show ?case by (simp add: accounts_refl)
next
  case (Cons a as)
  obtain rc a1 w1 where 1: "action_exec en l s a w = (rc, a1, w1)" using prod_cases3 by blast
  obtain b2 as2 w2 where 2: "exec_actions en l s as w1 = (b2, as2, w2)" using prod_cases3 by blast
  from Cons.prems 1 2 have "as' = a1 # as2" "w' = w2" by auto
  with acc.rel_append [OF accounts_action_exec [OF 1] Cons.IH [OF 2]] show ?case by simp
qed

text \<open>Operations on the file system only.\<close>

definition fs_only :: "os \<Rightarrow> os \<Rightarrow> bool" where
  "fs_only w w' \<longleftrightarrow> os_forks w' = os_forks w \<and> os_started w' = os_started w \<and> os_signals w' = os_signals w"

lemma fs_only_refl [intro]: "fs_only w w"
  by (simp add: fs_only_def)

lemma fs_only_update [simp]: "fs_only w (w\<lparr>os_fs := f\<rparr>)"
  by (simp add: fs_only_def)

lemma fs_only_trans [trans]: "fs_only w w' \<Longrightarrow> fs_only w' w'' \<Longrightarrow> fs_only w w''"
  by (simp add: fs_only_def)

lemma accounts_fs_only: "fs_only w w' \<Longrightarrow> accounts l P w P w'"
  by (rule accounts_same) (simp_all add: fs_only_def)

lemma fs_only_clean [simp]: "fs_only w (action_clean_os en a w)"
  by (simp add: action_clean_os_def)

lemma fs_only_fold: "(\<And>x w. fs_only w (f x w)) \<Longrightarrow> fs_only w (fold f xs w)"
  by (induction xs arbitrary: w) (auto intro: fs_only_trans)

lemma fs_only_move_to: "fs_only w (snd (move_to en ss i s a d t w))"
  by (auto simp: move_to_def split: option.split prod.split)

lemma fs_only_move_or_defer: "fs_only w (snd (move_or_defer en ss i s a ts w))"
proof (induction ts arbitrary: w)
  case (Cons t ts)
  show ?case
    using fs_only_trans [OF fs_only_move_to Cons.IH, of w en ss i s a True t]
    by (simp split: prod.split) (metis snd_conv)
qed auto

lemma fs_only_move_all: "fs_only w (move_all en ss i s a ts w)"
  by (induction ts arbitrary: w) (auto intro: fs_only_trans [OF fs_only_move_to])

lemma finish_action_keeps:
  assumes "finish_action en ss i s st a w = Inr (a', w')"
  shows "fs_only w w'" "act_pid a' = 0" "act_state a' = Enabled"
proof -
  let ?a = "action_ended en st a"
  obtain x f where x: "lmapd_workspace_action_meta_add_end (en_refuse en) s ?a (os_fs w) = Inr (x, f)"
    using assms by (auto simp: finish_action_def obind_Inr Let_def)
  obtain d w2 where d: "(if act_last_status ?a = 0
      then move_or_defer en ss i s ?a (act_destinations ?a) (w\<lparr>os_fs := f\<rparr>) else (False, w\<lparr>os_fs := f\<rparr>)) = (d, w2)"
    by fastforce
  have "fs_only w w2"
    using d fs_only_move_or_defer [of "w\<lparr>os_fs := f\<rparr>" en ss i s ?a "act_destinations ?a"]
    by (auto split: if_splits intro: fs_only_trans [OF fs_only_update])
  then show "fs_only w w'"
    using assms x d by (auto simp: finish_action_def Let_def split: if_splits intro: fs_only_trans)
  show "act_pid a' = 0" "act_state a' = Enabled"
    using assms x d by (auto simp: finish_action_def Let_def action_ended_def split: if_splits)
qed

lemma finish_actions_keeps:
  "finish_actions en ss i s as w = (as', w') \<Longrightarrow>
   fs_only w w' \<and> as' = map (\<lambda>a. a\<lparr>act_flags := flag_clear (act_flags a) LMAP_ACTION_FLAG_MOVEDEFERRED\<rparr>) as"
proof (induction as arbitrary: w as' w')
  case (Cons a as)
  let ?a = "a\<lparr>act_flags := flag_clear (act_flags a) LMAP_ACTION_FLAG_MOVEDEFERRED\<rparr>"
  let ?w = "if flag_on (act_flags a) LMAP_ACTION_FLAG_MOVEDEFERRED
    then move_all en ss i s a (act_destinations a) w else w"
  obtain as2 w2 where r: "finish_actions en ss i s as (action_clean_os en ?a ?w) = (as2, w2)" by fastforce
  have "fs_only w (action_clean_os en ?a ?w)"
    using fs_only_trans [OF fs_only_move_all fs_only_clean] by simp
  with Cons.IH [OF r] Cons.prems r show ?case by (auto simp: Let_def intro: fs_only_trans)
qed auto

lemma finish_schedule_keeps:
  assumes "finish_schedule en ss i s w = (s', w')"
  shows "fs_only w w'" "sched_pids s' = sched_pids s"
proof -
  let ?s = "if sched_state s = Running \<and> \<not> list_ex (\<lambda>a. act_state a = Running) (sched_actions s)
    then s\<lparr>sched_state := (if sched_cnt_active_suppressions s \<noteq> 0 then Suppressed else Enabled)\<rparr> else s"
  obtain as w1 where f: "finish_actions en ss i ?s (sched_actions ?s) w = (as, w1)" by fastforce
  note k = finish_actions_keeps [OF f]
  show "fs_only w w'"
    using assms f k by (auto simp: finish_schedule_def Let_def split: if_splits intro: fs_only_trans)
  show "sched_pids s' = sched_pids s"
    using assms f k by (auto simp: finish_schedule_def Let_def sched_pids_def split: if_splits)
qed

lemma accounts_schedule_exec:
  assumes "schedule_exec en l s w = (s', w')"
  shows "accounts l (sched_pids s) w (sched_pids s') w'"
proof -
  let ?w = "fold (action_clean_os en) (sched_actions s) w"
  let ?s = "s\<lparr>sched_last_invocation := en_now en, sched_cnt_invocations := sched_cnt_invocations s + 1\<rparr>"
  have c: "accounts l P w P ?w" for P
    by (rule accounts_fs_only) (simp add: fs_only_fold)
  have e: "accounts l (map act_pid as) w (map act_pid as') w''"
    if "exec_actions en l ?s as ?w = (b, as', w'')" for as b as' w''
    using accounts_trans [OF c accounts_exec_actions [OF that]] .
  have o: "accounts l (map act_pid (a # as)) w (map act_pid (a' # as)) w''"
    if "action_exec en l ?s a ?w = (rc, a', w'')" for a as rc a' w''
    using accounts_trans [OF c accounts_frame [OF accounts_action_exec [OF that], of "[]" "map act_pid as"]]
    by simp
  show ?thesis
  proof (cases "sched_name s")
    case None
    then show ?thesis using assms by (auto simp: schedule_exec_def intro: accounts_refl)
  next
    case (Some n)
    show ?thesis
    proof (cases "sched_mode s")
      case Sequential
      with Some assms o c show ?thesis
        by (auto simp: schedule_exec_def Let_def sched_pids_def split: list.splits prod.splits)
    next
      case Pipelined
      with Some assms c show ?thesis by (auto simp: schedule_exec_def Let_def sched_pids_def)
    next
      case Parallel
      with Some assms e show ?thesis
        by (auto simp: schedule_exec_def Let_def sched_pids_def split: prod.splits)
    qed
  qed
qed

lemma accounts_schedule_kill: "accounts l (sched_pids s) w (sched_pids s) (schedule_kill en s w)"
proof -
  have "accounts l (concat (map (\<lambda>a. [act_pid a]) (sched_actions s))) w
    (concat (map (\<lambda>a. [act_pid a]) (sched_actions s))) (fold (action_kill en) (sched_actions s) w)"
    by (rule acc.rel_fold) (rule accounts_action_kill)
  then show ?thesis by (simp add: schedule_kill_def sched_pids_def concat_map_singleton accounts_refl)
qed
lemma suppress_action_Inr:
  assumes "suppress_action en p fl a w = Inr (a', w')" "act_state a \<noteq> Disabled"
  shows "\<exists>b. big_tag_match (en_libc en) (supp_match p) (act_suppression_tags a) = Inr b
    \<and> a' = (if b then action_suppress p fl a else a)
    \<and> (w' = w \<or> w' = action_kill en a w \<or> w' = action_kill en a (action_kill en a w))"
proof -
  let ?w = "if flag_on fl LMAP_SCHEDULE_FLAG_STOP_RUNNING then action_kill en a w else w"
  obtain b where b: "big_tag_match (en_libc en) (supp_match p) (act_suppression_tags a) = Inr b"
    using assms by (cases "big_tag_match (en_libc en) (supp_match p) (act_suppression_tags a)")
      (simp_all add: suppress_action_def Let_def)
  have r: "(if b then (action_suppress p fl a, if stops_action p fl a then action_kill en a ?w else ?w)
      else (a, ?w)) = (a', w')"
    using assms b by (cases b) (simp_all add: suppress_action_def Let_def)
  show ?thesis
  proof (cases b)
    case True
    with r have "a' = action_suppress p fl a" "w' = (if stops_action p fl a then action_kill en a ?w else ?w)"
      by simp_all
    with b True show ?thesis by (intro exI [of _ b] conjI) (simp_all split: if_split)
  next
    case False
    with r have "a' = a" "w' = ?w" by simp_all
    with b False show ?thesis by (intro exI [of _ b] conjI) (simp_all split: if_split)
  qed
qed

lemma accounts_suppress_action:
  assumes "suppress_action en p fl a w = Inr (a', w')"
  shows "accounts l [act_pid a] w [act_pid a'] w'"
proof (cases "act_state a = Disabled")
  case True
  with assms show ?thesis by (simp add: suppress_action_def accounts_refl)
next
  case False
  have "act_pid (action_suppress p fl a) = act_pid a" by (simp add: action_suppress_def)
  moreover have "accounts l [act_pid a] w [act_pid a] w'"
    using suppress_action_Inr [OF assms False] accounts_refl accounts_action_kill
      accounts_trans [OF accounts_action_kill accounts_action_kill]
    by (elim exE conjE disjE) simp_all
  ultimately show ?thesis using suppress_action_Inr [OF assms False] by (auto split: if_splits)
qed

lemma accounts_unsuppress_action:
  "unsuppress_action en p a w = Inr (a', w') \<Longrightarrow> w' = w \<and> act_pid a' = act_pid a"
  by (auto simp: unsuppress_action_def obind_Inr action_unsuppress_def Let_def split: if_splits)

lemma sched_pids_singletons: "sched_pids s = concat (map (\<lambda>a. [act_pid a]) (sched_actions s))"
  by (simp add: sched_pids_def concat_map_singleton)

lemma accounts_omap_actions:
  assumes "\<And>a w a' w'. f a w = Inr (a', w') \<Longrightarrow> accounts l [act_pid a] w [act_pid a'] w'"
    and "omap f as w = Inr (as', w')"
  shows "accounts l (map act_pid as) w (map act_pid as') w'"
  using acc.rel_omap [OF assms, of "\<lambda>a. a" "\<lambda>a. a"] by (simp add: concat_map_singleton)

lemma schedule_suppress_simps [simp]:
  "sched_actions (schedule_suppress p s) = sched_actions s"
  "sched_actions (schedule_unsuppress s) = sched_actions s"
  by (simp_all add: schedule_suppress_def schedule_unsuppress_def Let_def)

lemma suppress_schedule_Inr:
  assumes "suppress_schedule en p s w = Inr (s', w')" "sched_state s \<noteq> Disabled"
  shows "\<exists>b as. big_tag_match (en_libc en) (supp_match p) (sched_suppression_tags s) = Inr b
    \<and> omap (suppress_action en p (sched_flags (if b then schedule_suppress p s else s))) (sched_actions s) w
        = Inr (as, w')
    \<and> s' = (if b then schedule_suppress p s else s)\<lparr>sched_actions := as\<rparr>"
proof -
  obtain b where b: "big_tag_match (en_libc en) (supp_match p) (sched_suppression_tags s) = Inr b"
    and r: "obind (omap (suppress_action en p (sched_flags (if b then schedule_suppress p s else s))) (sched_actions s) w)
      (\<lambda>(as, w'). Inr ((if b then schedule_suppress p s else s)\<lparr>sched_actions := as\<rparr>, w')) = Inr (s', w')"
    using assms by (simp add: suppress_schedule_def Let_def obind_Inr [of "big_tag_match _ _ _"] if_distrib [of sched_actions] cong: if_cong) blast
  from r obtain as where "omap (suppress_action en p (sched_flags (if b then schedule_suppress p s else s))) (sched_actions s) w = Inr (as, w')"
    "s' = (if b then schedule_suppress p s else s)\<lparr>sched_actions := as\<rparr>"
    unfolding obind_Inr by (elim exE conjE) (simp split: prod.splits)
  with b show ?thesis by blast
qed

lemma unsuppress_schedule_Inr:
  assumes "unsuppress_schedule en p s w = Inr (s', w')" "sched_state s \<noteq> Disabled"
  shows "\<exists>b as. big_tag_match (en_libc en) (supp_match p) (sched_suppression_tags s) = Inr b
    \<and> omap (unsuppress_action en p) (sched_actions s) w = Inr (as, w')
    \<and> s' = (if b then schedule_unsuppress s else s)\<lparr>sched_actions := as\<rparr>"
proof -
  obtain b where b: "big_tag_match (en_libc en) (supp_match p) (sched_suppression_tags s) = Inr b"
    and r: "obind (omap (unsuppress_action en p) (sched_actions s) w)
      (\<lambda>(as, w'). Inr ((if b then schedule_unsuppress s else s)\<lparr>sched_actions := as\<rparr>, w')) = Inr (s', w')"
    using assms by (simp add: unsuppress_schedule_def Let_def obind_Inr [of "big_tag_match _ _ _"] if_distrib [of sched_actions] cong: if_cong) blast
  from r obtain as where "omap (unsuppress_action en p) (sched_actions s) w = Inr (as, w')"
    "s' = (if b then schedule_unsuppress s else s)\<lparr>sched_actions := as\<rparr>"
    unfolding obind_Inr by (elim exE conjE) (simp split: prod.splits)
  with b show ?thesis by blast
qed

lemma accounts_suppress_schedule:
  assumes "suppress_schedule en p s w = Inr (s', w')"
  shows "accounts l (sched_pids s) w (sched_pids s') w'"
proof (cases "sched_state s = Disabled")
  case False
  from suppress_schedule_Inr [OF assms False] obtain fl as where
    "omap (suppress_action en p fl) (sched_actions s) w = Inr (as, w')" "sched_actions s' = as"
    by auto
  with accounts_omap_actions [OF accounts_suppress_action] show ?thesis
    by (simp add: sched_pids_def)
qed (use assms accounts_refl in \<open>simp add: suppress_schedule_def\<close>)

lemma accounts_unsuppress_schedule:
  assumes "unsuppress_schedule en p s w = Inr (s', w')"
  shows "accounts l (sched_pids s) w (sched_pids s') w'"
proof (cases "sched_state s = Disabled")
  case False
  from unsuppress_schedule_Inr [OF assms False] obtain as where
    "omap (unsuppress_action en p) (sched_actions s) w = Inr (as, w')" "sched_actions s' = as"
    by auto
  moreover have "accounts l [act_pid a] w [act_pid a'] w'"
    if "unsuppress_action en p a w = Inr (a', w')" for a w a' w'
    using accounts_unsuppress_action [OF that] accounts_refl by simp
  ultimately show ?thesis using accounts_omap_actions [of "unsuppress_action en p" l] by (simp add: sched_pids_def)
qed (use assms accounts_refl in \<open>simp add: unsuppress_schedule_def\<close>)

lemma accounts_suppression_start:
  assumes "suppression_start en p ss w = Inr (p', ss', w')"
  shows "accounts l (all_pids ss) w (all_pids ss') w'"
proof (cases "supp_match p = [] \<or> supp_name p = None")
  case False
  with assms have "omap (suppress_schedule en p) ss w = Inr (ss', w')"
    by (auto simp: suppression_start_def obind_Inr)
  with accounts_suppress_schedule show ?thesis unfolding all_pids_def by (rule acc.rel_omap)
qed (use assms accounts_refl in \<open>auto simp: suppression_start_def\<close>)

lemma accounts_suppression_end:
  assumes "suppression_end en p ss w = Inr (p', ss', w')"
  shows "accounts l (all_pids ss) w (all_pids ss') w'"
proof (cases "supp_match p = [] \<or> supp_name p = None")
  case False
  with assms have "omap (unsuppress_schedule en p) ss w = Inr (ss', w')"
    by (auto simp: suppression_end_def obind_Inr)
  with accounts_unsuppress_schedule show ?thesis unfolding all_pids_def by (rule acc.rel_omap)
qed (use assms accounts_refl in \<open>auto simp: suppression_end_def\<close>)

lemma suppress_one_Inr:
  assumes "suppress_one en e p x = Inr (p', y)" "\<not> (supp_state p = Supp_Disabled \<or> supp_name p = None)"
  shows "\<exists>b b2 p1 z. (if b \<and> supp_state p = Supp_Enabled then suppression_start en p (fst x) (snd x)
        else Inr (p, x)) = Inr (p1, z)
    \<and> (if b2 \<and> supp_state p1 = Supp_Active then suppression_end en p1 (fst z) (snd z) else Inr (p1, z))
        = Inr (p', y)"
proof -
  obtain ss w where x: "x = (ss, w)" by fastforce
  obtain b where b: "on_event (supp_start p) e = Inr b"
    using assms x by (cases "on_event (supp_start p) e") (auto simp: suppress_one_def)
  obtain p1 z where z: "(if b \<and> supp_state p = Supp_Enabled then suppression_start en p ss w
      else Inr (p, ss, w)) = Inr (p1, z)"
    using assms x b by (cases "if b \<and> supp_state p = Supp_Enabled then suppression_start en p ss w
      else Inr (p, ss, w)") (auto simp: suppress_one_def)
  obtain b2 where b2: "on_event (supp_end p1) e = Inr b2"
    using assms x b z by (cases "on_event (supp_end p1) e") (auto simp: suppress_one_def split: prod.splits)
  have "(if b2 \<and> supp_state p1 = Supp_Active then suppression_end en p1 (fst z) (snd z) else Inr (p1, z))
      = Inr (p', y)"
    using assms x b z b2 by (auto simp: suppress_one_def split: prod.splits)
  moreover have "(if b \<and> supp_state p = Supp_Enabled then suppression_start en p (fst x) (snd x)
      else Inr (p, x)) = Inr (p1, z)"
    using z by (simp only: x fst_conv snd_conv)
  ultimately show ?thesis by blast
qed

lemma accounts_suppress_one:
  assumes "suppress_one en e p x = Inr (p', y)"
  shows "accounts l (all_pids (fst x)) (snd x) (all_pids (fst y)) (snd y)"
proof (cases "supp_state p = Supp_Disabled \<or> supp_name p = None")
  case True
  with assms show ?thesis by (auto simp: suppress_one_def accounts_refl split: if_splits prod.splits)
next
  case False
  from suppress_one_Inr [OF assms False] obtain b b2 p1 z where
    1: "(if b \<and> supp_state p = Supp_Enabled then suppression_start en p (fst x) (snd x) else Inr (p, x)) = Inr (p1, z)"
    and 2: "(if b2 \<and> supp_state p1 = Supp_Active then suppression_end en p1 (fst z) (snd z) else Inr (p1, z))
        = Inr (p', y)"
    by blast
  have "accounts l (all_pids (fst x)) (snd x) (all_pids (fst z)) (snd z)"
    using 1 accounts_suppression_start [of en p "fst x" "snd x" p1 "fst z" "snd z"]
    by (auto simp: accounts_refl split: if_splits)
  moreover have "accounts l (all_pids (fst z)) (snd z) (all_pids (fst y)) (snd y)"
    using 2 accounts_suppression_end [of en p1 "fst z" "snd z" p' "fst y" "snd y"]
    by (auto simp: accounts_refl split: if_splits)
  ultimately show ?thesis by (rule accounts_trans)
qed

lemma omap_invariant:
  assumes "\<And>x s y s'. I s \<Longrightarrow> f x s = Inr (y, s') \<Longrightarrow> I s'"
  shows "I s \<Longrightarrow> omap f xs s = Inr (ys, s') \<Longrightarrow> I s'"
proof (induction xs arbitrary: s ys)
  case (Cons x xs)
  then obtain y s1 zs where "f x s = Inr (y, s1)" "omap f xs s1 = Inr (zs, s')" by (auto simp: obind_Inr)
  with Cons.IH assms Cons.prems(1) show ?case by blast
qed simp

lemma accounts_suppress_all:
  assumes "omap (suppress_one en e) ps (ss, w) = Inr (ps', ss', w')"
  shows "accounts l (all_pids ss) w (all_pids ss') w'"
proof -
  let ?I = "\<lambda>x. accounts l (all_pids ss) w (all_pids (fst x)) (snd x)"
  have "?I (ss', w')"
  proof (rule omap_invariant [of ?I, OF _ _ assms])
    fix p x p' y assume "?I x" "suppress_one en e p x = Inr (p', y)"
    then show "?I y" using accounts_trans accounts_suppress_one by blast
  qed (simp add: accounts_refl)
  then show ?thesis by simp
qed

lemma sched_pids_update [simp]:
  "sched_pids (s\<lparr>sched_state := x\<rparr>) = sched_pids s"
  "sched_pids (s\<lparr>sched_cnt_suppressions := n\<rparr>) = sched_pids s"
  "sched_pids (s\<lparr>sched_cnt_overlaps := n\<rparr>) = sched_pids s"
  "sched_pids (s\<lparr>sched_cycle_number := c\<rparr>) = sched_pids s"
  by (simp_all add: sched_pids_def)

lemma accounts_start_schedule:
  assumes "start_schedule en l e s w = (d, s', w')"
  shows "accounts l (sched_pids s) w (sched_pids s') w'"
proof (cases "sched_state s = Suppressed \<or> sched_state s = Running")
  case True
  with assms show ?thesis by (auto simp: start_schedule_def accounts_refl split: if_splits)
next
  case False
  let ?s = "s\<lparr>sched_cycle_number := cycle_number_at en e\<rparr>"
  let ?w = "w\<lparr>os_fs := snd (lmapd_workspace_schedule_move (en_refuse en) (Some ?s) (os_fs w))\<rparr>"
  obtain s2 w2 where x: "schedule_exec en l ?s ?w = (s2, w2)" by fastforce
  have "accounts l (sched_pids ?s) ?w (sched_pids s2) w2" by (rule accounts_schedule_exec [OF x])
  then have "accounts l (sched_pids s) w (sched_pids s2) w2"
    using accounts_trans [OF accounts_fs_only [OF fs_only_update]] by simp
  then show ?thesis using assms False x by (auto simp: start_schedule_def Let_def)
qed

lemma execute_schedule_Inr:
  assumes "execute_schedule en l e s x = Inr (s', y)"
  shows "\<exists>d w1 c. (if sched_state s = Disabled then Inr (False, s, snd x)
      else if sched_name s = None then Inr (False, s\<lparr>sched_state := Disabled\<rparr>, snd x)
      else obind (on_event (sched_start s) e)
             (\<lambda>b. Inr (if b then start_schedule en l e s (snd x) else (False, s, snd x)))) = Inr (d, s', w1)
    \<and> on_event (sched_end s') e = Inr c
    \<and> y = (fst x \<or> d, if c then schedule_kill en s' w1 else w1)"
proof -
  let ?r = "if sched_state s = Disabled then Inr (False, s, snd x)
      else if sched_name s = None then Inr (False, s\<lparr>sched_state := Disabled\<rparr>, snd x)
      else obind (on_event (sched_start s) e)
             (\<lambda>b. Inr (if b then start_schedule en l e s (snd x) else (False, s, snd x)))"
  have eq: "obind ?r (\<lambda>(d, s1, w1). obind (on_event (sched_end s1) e)
      (\<lambda>b. Inr (s1, fst x \<or> d, if b then schedule_kill en s1 w1 else w1))) = Inr (s', y)"
    using assms unfolding execute_schedule_def case_prod_beta' by (simp add: case_prod_beta' split del: if_split)
  obtain d s1 w1 where r: "?r = Inr (d, s1, w1)" using eq by (cases ?r) auto
  obtain c where c: "on_event (sched_end s1) e = Inr c" using eq r by (cases "on_event (sched_end s1) e") auto
  have "s1 = s'" "y = (fst x \<or> d, if c then schedule_kill en s1 w1 else w1)" using eq r c by simp_all
  with r c show ?thesis by blast
qed

lemma accounts_execute_schedule:
  assumes "execute_schedule en l e s x = Inr (s', y)"
  shows "accounts l (sched_pids s) (snd x) (sched_pids s') (snd y)"
proof -
  from execute_schedule_Inr [OF assms] obtain d w1 c where
    1: "(if sched_state s = Disabled then Inr (False, s, snd x)
      else if sched_name s = None then Inr (False, s\<lparr>sched_state := Disabled\<rparr>, snd x)
      else obind (on_event (sched_start s) e)
             (\<lambda>b. Inr (if b then start_schedule en l e s (snd x) else (False, s, snd x)))) = Inr (d, s', w1)"
    and 2: "snd y = (if c then schedule_kill en s' w1 else w1)"
    by auto
  from 1 have "accounts l (sched_pids s) (snd x) (sched_pids s') w1"
    using accounts_start_schedule [of en l e s "snd x" d s' w1]
    by (auto simp: obind_Inr accounts_refl split: if_splits)
  with 2 show ?thesis using accounts_trans accounts_schedule_kill by (cases c) auto
qed

interpretation acc_snd: accounting "\<lambda>P x P' y. accounts l P (snd x) P' (snd y)" for l
  by unfold_locales (rule accounts_refl, erule (1) accounts_trans, rule accounts_frame)

lemma accounts_execute_all:
  assumes "omap (execute_schedule en l e) ss (b, w) = Inr (ss', b', w')"
  shows "accounts l (all_pids ss) w (all_pids ss') w'"
proof -
  show ?thesis
    using acc_snd.rel_omap [OF accounts_execute_schedule assms] unfolding all_pids_def by simp
qed

lemma accounts_exec_next:
  assumes "exec_next en l j s w = (s', w')"
  shows "accounts l (sched_pids s) w (sched_pids s') w'"
proof (cases "j + 1 < length (sched_actions s) \<and> sched_mode s = Sequential \<and> sched_state s \<noteq> Suppressed
         \<and> \<not> flag_on (sched_flags s) LMAP_SCHEDULE_FLAG_STOP_RUNNING")
  case True
  obtain rc a' w1 where x: "action_exec en l s (sched_actions s ! (j + 1)) w = (rc, a', w1)"
    using prod_cases3 by blast
  have "accounts l (concat (map (\<lambda>a. [act_pid a]) (sched_actions s))) w
    (concat (map (\<lambda>a. [act_pid a]) ((sched_actions s)[j + 1 := a']))) w1"
    by (rule acc.rel_update) (use True accounts_action_exec [OF x] in simp_all)
  with assms x True show ?thesis by (auto simp: exec_next_def sched_pids_def concat_map_singleton)
next
  case False
  with assms show ?thesis by (auto simp: exec_next_def accounts_refl split: if_splits)
qed
lemma index_of_Some: "index_of P xs = Some i \<Longrightarrow> i < length xs \<and> P (xs ! i)"
  by (induction xs arbitrary: i) (auto split: if_splits)

lemma index_of_None: "index_of P xs = None \<longleftrightarrow> (\<forall>x\<in>set xs. \<not> P x)"
  by (induction xs) auto

lemma find_action_by_pid_Some:
  assumes "find_action_by_pid ss pid = Some (i, j)"
  shows "i < length ss" "j < length (sched_actions (ss ! i))" "act_pid (sched_actions (ss ! i) ! j) = pid"
proof -
  from assms have i: "find_schedule_by_pid ss pid = Some i"
    and j: "index_of (\<lambda>a. act_pid a = pid) (sched_actions (ss ! i)) = Some j"
    by (auto simp: find_action_by_pid_def split: option.splits)
  show "i < length ss" using index_of_Some [OF i [unfolded find_schedule_by_pid_def]] by simp
  show "j < length (sched_actions (ss ! i))" "act_pid (sched_actions (ss ! i) ! j) = pid"
    using index_of_Some [OF j] by simp_all
qed

text \<open>The parts of \<open>cleanup_child\<close>, once the child has been found.\<close>

lemma cleanup_child_Inr:
  assumes "cleanup_child en (pid, st) (l, w) = Inr (l', w')"
  shows "(l' = l \<and> w' = w) \<or>
    (\<exists>i j a w1 s2 w2 s3. find_action_by_pid (lm_schedules l) pid = Some (i, j)
      \<and> finish_action en (lm_schedules l) i (lm_schedules l ! i) st (sched_actions (lm_schedules l ! i) ! j) w
          = Inr (a, w1)
      \<and> exec_next en l j ((lm_schedules l ! i)\<lparr>sched_actions := (sched_actions (lm_schedules l ! i))[j := a]\<rparr>) w1
          = (s2, w2)
      \<and> finish_schedule en (lm_schedules l) i s2 w2 = (s3, w')
      \<and> l' = with_schedules l ((lm_schedules l)[i := s3]))"
proof (cases "st = Stopped \<or> find_action_by_pid (lm_schedules l) pid = None")
  case True
  with assms show ?thesis by (auto simp: cleanup_child_def split: if_splits)
next
  case False
  then obtain i j where f: "find_action_by_pid (lm_schedules l) pid = Some (i, j)" by auto
  let ?s = "lm_schedules l ! i"
  obtain a w1 where a: "finish_action en (lm_schedules l) i ?s st (sched_actions ?s ! j) w = Inr (a, w1)"
    using assms False f
    by (cases "finish_action en (lm_schedules l) i ?s st (sched_actions ?s ! j) w")
      (auto simp: cleanup_child_def)
  obtain s2 w2 where x: "exec_next en l j (?s\<lparr>sched_actions := (sched_actions ?s)[j := a]\<rparr>) w1 = (s2, w2)"
    by fastforce
  obtain s3 w3 where y: "finish_schedule en (lm_schedules l) i s2 w2 = (s3, w3)" by fastforce
  have "l' = with_schedules l ((lm_schedules l)[i := s3])" "w' = w3"
    using assms False f a x y by (simp_all add: cleanup_child_def Let_def)
  with f a x y show ?thesis by blast
qed

lemma accounts_release: "accounts l [p] w [0] w"
  by (auto simp: accounts_def pool_def)

lemma accounts_cleanup_child:
  assumes "cleanup_child en (pid, st) (l, w) = Inr (l', w')"
  shows "accounts l (all_pids (lm_schedules l)) w (all_pids (lm_schedules l')) w'"
  using cleanup_child_Inr [OF assms]
proof (elim disjE exE conjE)
  assume "l' = l" "w' = w"
  then show ?thesis by (simp add: accounts_refl)
next
  fix i j a w1 s2 w2 s3
  let ?s = "lm_schedules l ! i"
  let ?s1 = "?s\<lparr>sched_actions := (sched_actions ?s)[j := a]\<rparr>"
  assume f: "find_action_by_pid (lm_schedules l) pid = Some (i, j)"
    and a: "finish_action en (lm_schedules l) i ?s st (sched_actions ?s ! j) w = Inr (a, w1)"
    and x: "exec_next en l j ?s1 w1 = (s2, w2)"
    and y: "finish_schedule en (lm_schedules l) i s2 w2 = (s3, w')"
    and l': "l' = with_schedules l ((lm_schedules l)[i := s3])"
  note ij = find_action_by_pid_Some [OF f]
  have "accounts l [act_pid (sched_actions ?s ! j)] w [act_pid a] w1"
    using accounts_trans [OF accounts_release accounts_fs_only [OF finish_action_keeps (1) [OF a]]]
    by (simp add: finish_action_keeps (2) [OF a])
  then have "accounts l (concat (map (\<lambda>a. [act_pid a]) (sched_actions ?s))) w
    (concat (map (\<lambda>a. [act_pid a]) ((sched_actions ?s)[j := a]))) w1"
    by (intro acc.rel_update) (use ij in simp_all)
  then have "accounts l (sched_pids ?s) w (sched_pids ?s1) w1"
    by (simp add: sched_pids_def concat_map_singleton)
  then have "accounts l (sched_pids ?s) w (sched_pids s2) w2"
    by (rule accounts_trans) (rule accounts_exec_next [OF x])
  then have "accounts l (sched_pids ?s) w (sched_pids s3) w'"
    using accounts_fs_only [OF finish_schedule_keeps (1) [OF y]] finish_schedule_keeps (2) [OF y]
    by (auto intro: accounts_trans)
  then show ?thesis
    unfolding l' all_pids_def by (simp add: with_schedules_def acc.rel_update ij)
qed

section \<open>The daemon as a step relation\<close>

text \<open>
  One step is an event firing, the daemon reaping one child, killing everything, a change that leaves alone what runs
  (\<open>same_runs\<close>: timers, workspaces, storage, the daemon's own flags), or the world moving on: children write
  files, and the coming calls of \<open>fork\<close> get pids that nobody holds. A run of \<open>lmapd_cleanup\<close> is a sequence of reaping
  steps. The C library does not change; the time and the refused calls may differ from step to step.
\<close>

definition same_programs :: "lmap \<Rightarrow> lmap \<Rightarrow> bool" where
  "same_programs l l' \<longleftrightarrow> lm_tasks l' = lm_tasks l \<and> lm_capabilities l' = lm_capabilities l"

definition run_part :: "schedule \<Rightarrow> schedule" where
  "run_part s =
     s\<lparr>sched_storage := 0, sched_workspace := None,
       sched_actions := map (\<lambda>a. a\<lparr>act_storage := 0, act_workspace := None\<rparr>) (sched_actions s)\<rparr>"

definition same_runs :: "lmap \<Rightarrow> lmap \<Rightarrow> bool" where
  "same_runs l l' \<longleftrightarrow>
     same_programs l l' \<and> lm_supps l' = lm_supps l \<and> map run_part (lm_schedules l') = map run_part (lm_schedules l)"

lemma same_runs_map:
  assumes "same_runs l l'" "\<And>s. f (run_part s) = f s"
  shows "map f (lm_schedules l') = map f (lm_schedules l)"
proof -
  have "map f ss = map f (map run_part ss)" for ss using assms(2) by simp
  then show ?thesis using assms(1) by (metis same_runs_def)
qed

lemma same_runs_all:
  assumes "same_runs l l'" "\<And>s. Q (run_part s) = Q s"
  shows "list_all Q (lm_schedules l') = list_all Q (lm_schedules l)"
  using same_runs_map [where f = Q, OF assms] by (metis list.pred_map list.map_id0 list_all_length length_map nth_map)

lemma same_runs_pids: "same_runs l l' \<Longrightarrow> all_pids (lm_schedules l') = all_pids (lm_schedules l)"
  unfolding all_pids_def by (simp add: same_runs_map [where f = sched_pids] sched_pids_def run_part_def o_def)

definition fresh_forks :: "lmapd \<Rightarrow> int list \<Rightarrow> bool" where
  "fresh_forks d ps \<longleftrightarrow>
     0 \<notin> set ps \<and> distinct (filter (\<lambda>p. 0 < p) ps)
     \<and> (case ld_lmap d of None \<Rightarrow> True | Some l \<Rightarrow> set ps \<inter> set (all_pids (lm_schedules l)) = {})"

inductive daemon_step :: "libc \<Rightarrow> lmapd \<times> os \<Rightarrow> lmapd \<times> os \<Rightarrow> bool" for lc where
  Fire: "en_libc en = lc \<Longrightarrow> ld_lmap d = Some l \<Longrightarrow> k < length (lm_events l)
    \<Longrightarrow> fire_cb en k d w = Inr (d', w') \<Longrightarrow> daemon_step lc (d, w) (d', w')"
| Reap: "en_libc en = lc \<Longrightarrow> ld_lmap d = Some l \<Longrightarrow> pid \<noteq> 0 \<Longrightarrow> pid \<noteq> -1
    \<Longrightarrow> cleanup_child en (pid, st) (l, w) = Inr (l', w')
    \<Longrightarrow> daemon_step lc (d, w) (d\<lparr>ld_lmap := Some l'\<rparr>, w')"
| Kill: "daemon_step lc (d, w) (d, lmapd_killall en d w)"
| Pids: "fresh_forks d ps \<Longrightarrow> daemon_step lc (d, w) (d, w\<lparr>os_forks := ps\<rparr>)"
| Files: "daemon_step lc (d, w) (d, w\<lparr>os_fs := f\<rparr>)"
| Others: "ld_lmap d = Some l \<Longrightarrow> ld_lmap d' = Some l' \<Longrightarrow> same_runs l l' \<Longrightarrow> daemon_step lc (d, w) (d', w)"

inductive_cases daemon_stepE: "daemon_step lc (d, w) (d', w')"

lemma lmapd_cleanup_steps:
  assumes "lmapd_cleanup en waits d w = Inr (d', w')" "en_libc en = lc"
  shows "(daemon_step lc)\<^sup>*\<^sup>* (d, w) (d', w')"
proof (cases "ld_lmap d")
  case None
  with assms show ?thesis by (simp add: lmapd_cleanup_def)
next
  case (Some l)
  let ?ws = "takeWhile (\<lambda>r. fst r \<noteq> 0 \<and> fst r \<noteq> -1) waits"
  from assms Some obtain l' where o: "ofold (cleanup_child en) ?ws (l, w) = Inr (l', w')"
    and d': "d' = d\<lparr>ld_lmap := Some l'\<rparr>"
    by (auto simp: lmapd_cleanup_def obind_Inr)
  have ws: "\<forall>r\<in>set ?ws. fst r \<noteq> 0 \<and> fst r \<noteq> -1" using set_takeWhileD by fast
  have "ofold (cleanup_child en) ws (l, w) = Inr (l', w') \<Longrightarrow> ld_lmap d = Some l \<Longrightarrow>
      \<forall>r\<in>set ws. fst r \<noteq> 0 \<and> fst r \<noteq> -1 \<Longrightarrow>
      (daemon_step lc)\<^sup>*\<^sup>* (d, w) (d\<lparr>ld_lmap := Some l'\<rparr>, w')" for ws
  proof (induction ws arbitrary: d l w)
    case Nil
    then have "d\<lparr>ld_lmap := Some l'\<rparr> = d" "w' = w" by (auto intro: lmapd.equality)
    then show ?case by simp
  next
    case (Cons r ws)
    then obtain l1 w1 where r: "cleanup_child en r (l, w) = Inr (l1, w1)"
      and rs: "ofold (cleanup_child en) ws (l1, w1) = Inr (l', w')"
      by (auto simp: obind_Inr)
    have "daemon_step lc (d, w) (d\<lparr>ld_lmap := Some l1\<rparr>, w1)"
      using Reap [OF assms(2) Cons.prems(2), of "fst r" "snd r"] r Cons.prems(3) by simp
    moreover have "(daemon_step lc)\<^sup>*\<^sup>* (d\<lparr>ld_lmap := Some l1\<rparr>, w1) (d\<lparr>ld_lmap := Some l'\<rparr>, w')"
      using Cons.IH [OF rs, of "d\<lparr>ld_lmap := Some l1\<rparr>"] Cons.prems(3) by simp
    ultimately show ?case by (rule converse_rtranclp_into_rtranclp)
  qed
  from this [OF o Some ws] d' show ?thesis by simp
qed
text \<open>Runs as functions, to evaluate examples: a list of what happens, one after the other.\<close>

datatype input = Event_Fires nat | Children_End "(int \<times> wait_status) list" | Kill_All

definition daemon_input :: "env \<Rightarrow> input \<Rightarrow> lmapd \<times> os \<Rightarrow> (lmapd \<times> os) outcome" where
  "daemon_input en i x =
     (case (i, x) of
        (Event_Fires k, (d, w)) \<Rightarrow>
          (case ld_lmap d of
             None \<Rightarrow> Inr x
           | Some l \<Rightarrow> if k < length (lm_events l) then fire_cb en k d w else Inr x)
      | (Children_End ws, (d, w)) \<Rightarrow> lmapd_cleanup en ws d w
      | (Kill_All, (d, w)) \<Rightarrow> Inr (d, lmapd_killall en d w))"

lemma daemon_input_steps:
  assumes "daemon_input en i x = Inr y"
  shows "(daemon_step (en_libc en))\<^sup>*\<^sup>* x y"
proof (cases i)
  case (Event_Fires k)
  obtain d w d' w' where xy: "x = (d, w)" "y = (d', w')" by fastforce
  show ?thesis
  proof (cases "\<exists>l. ld_lmap d = Some l \<and> k < length (lm_events l)")
    case True
    then obtain l where l: "ld_lmap d = Some l" "k < length (lm_events l)" by blast
    then have "fire_cb en k d w = Inr (d', w')" using assms Event_Fires xy by (simp add: daemon_input_def)
    then have "daemon_step (en_libc en) x y" unfolding xy by (rule Fire [OF refl l])
    then show ?thesis ..
  next
    case False
    then have "y = x" using assms Event_Fires xy by (auto simp: daemon_input_def split: option.splits)
    then show ?thesis by simp
  qed
next
  case (Children_End ws)
  obtain d w d' w' where xy: "x = (d, w)" "y = (d', w')" by fastforce
  then have "lmapd_cleanup en ws d w = Inr (d', w')" using assms Children_End by (simp add: daemon_input_def)
  from lmapd_cleanup_steps [OF this refl] show ?thesis by (simp add: xy)
next
  case Kill_All
  obtain d w where x: "x = (d, w)" by fastforce
  then have "y = (d, lmapd_killall en d w)" using assms Kill_All by (simp add: daemon_input_def)
  then have "daemon_step (en_libc en) x y" unfolding x using Kill by simp
  then show ?thesis ..
qed

lemma daemon_run_steps:
  "ofold (daemon_input en) is x = Inr y \<Longrightarrow> (daemon_step (en_libc en))\<^sup>*\<^sup>* x y"
proof (induction "is" arbitrary: x)
  case (Cons i "is")
  then obtain z where "daemon_input en i x = Inr z" "ofold (daemon_input en) is z = Inr y"
    by (auto simp: obind_Inr)
  with Cons.IH daemon_input_steps show ?case by (meson rtranclp_trans)
qed simp

section \<open>What holds in every reachable state\<close>

lemma same_programs_accounts: "same_programs l l' \<Longrightarrow> accounts l' = accounts l"
  by (simp add: same_programs_def accounts_def child_allowed_def program_allowed_def fun_eq_iff)

lemma fire_cb_Inr:
  assumes "fire_cb en k d w = Inr (d', w')" "ld_lmap d = Some l"
  shows "\<exists>ps ss w1 ss' b. omap (suppress_one en (lm_events l ! k)) (lm_supps l) (lm_schedules l, w) = Inr (ps, ss, w1)
    \<and> omap (execute_schedule en (l\<lparr>lm_supps := ps, lm_schedules := ss\<rparr>) (lm_events l ! k)) ss (False, w1)
        = Inr (ss', b, w')
    \<and> ld_lmap d' = Some (l\<lparr>lm_supps := ps, lm_schedules := ss',
        lm_events := (lm_events l)[k := (lm_events l ! k)\<lparr>ev_fire_event := None\<rparr>]\<rparr>)
    \<and> ld_flags d' = (if b then flag_set (ld_flags d) LMAPD_FLAG_STARTUPDONE else ld_flags d)"
proof -
  let ?e = "lm_events l ! k"
  obtain ps ss w1 where 1: "omap (suppress_one en ?e) (lm_supps l) (lm_schedules l, w) = Inr (ps, ss, w1)"
    using assms by (cases "omap (suppress_one en ?e) (lm_supps l) (lm_schedules l, w)")
      (auto simp: fire_cb_def suppress_cb_def Let_def)
  let ?l = "l\<lparr>lm_supps := ps, lm_schedules := ss\<rparr>"
  obtain ss' b w2 where 2: "omap (execute_schedule en ?l ?e) ss (False, w1) = Inr (ss', b, w2)"
    using assms 1 by (cases "omap (execute_schedule en ?l ?e) ss (False, w1)")
      (auto simp: fire_cb_def suppress_cb_def execute_cb_def Let_def)
  have "w2 = w'" "ld_lmap d' = Some (l\<lparr>lm_supps := ps, lm_schedules := ss',
        lm_events := (lm_events l)[k := ?e\<lparr>ev_fire_event := None\<rparr>]\<rparr>)"
    "ld_flags d' = (if b then flag_set (ld_flags d) LMAPD_FLAG_STARTUPDONE else ld_flags d)"
    using assms 1 2 by (auto simp: fire_cb_def suppress_cb_def execute_cb_def with_schedules_def Let_def)
  with 1 2 show ?thesis by blast
qed

lemma accounts_fire_cb:
  assumes "fire_cb en k d w = Inr (d', w')" "ld_lmap d = Some l"
  shows "\<exists>l'. ld_lmap d' = Some l' \<and> same_programs l l'
    \<and> accounts l (all_pids (lm_schedules l)) w (all_pids (lm_schedules l')) w'"
proof -
  from fire_cb_Inr [OF assms] obtain ps ss w1 ss' b e where
    1: "omap (suppress_one en e) (lm_supps l) (lm_schedules l, w) = Inr (ps, ss, w1)"
    and 2: "omap (execute_schedule en (l\<lparr>lm_supps := ps, lm_schedules := ss\<rparr>) e) ss (False, w1) = Inr (ss', b, w')"
    and d': "ld_lmap d' = Some (l\<lparr>lm_supps := ps, lm_schedules := ss',
        lm_events := (lm_events l)[k := (lm_events l ! k)\<lparr>ev_fire_event := None\<rparr>]\<rparr>)"
    by blast
  have "same_programs l (l\<lparr>lm_supps := ps, lm_schedules := ss\<rparr>)" by (simp add: same_programs_def)
  then have "accounts l (all_pids ss) w1 (all_pids ss') w'"
    using accounts_execute_all [OF 2] by (simp add: same_programs_accounts)
  with accounts_suppress_all [OF 1] have "accounts l (all_pids (lm_schedules l)) w (all_pids ss') w'"
    by (rule accounts_trans)
  then show ?thesis using d' by (simp add: same_programs_def)
qed

lemma accounts_killall: "ld_lmap d = Some l \<Longrightarrow>
  accounts l (all_pids (lm_schedules l)) w (all_pids (lm_schedules l)) (lmapd_killall en d w)"
  unfolding lmapd_killall_def all_pids_def by (simp add: acc.rel_fold accounts_schedule_kill)

text \<open>
  The invariant: what is held and what \<open>fork\<close> may still return are all different; whatever an action holds was
  forked by the daemon, with a program of the capabilities; signals went to such children or their process groups.
\<close>

definition known_child :: "os \<Rightarrow> int \<Rightarrow> bool" where
  "known_child w p \<longleftrightarrow> (\<exists>c\<in>set (os_started w). ch_pid c = p)"

definition process_inv :: "lmap \<Rightarrow> lmapd \<times> os \<Rightarrow> bool" where
  "process_inv l0 x \<longleftrightarrow>
     (\<exists>l. ld_lmap (fst x) = Some l \<and> same_programs l0 l \<and> forks_ok (snd x)
        \<and> (\<forall>p. count (pool (all_pids (lm_schedules l)) (snd x)) p \<le> 1)
        \<and> (\<forall>p\<in>set (held (all_pids (lm_schedules l))). known_child (snd x) p)
        \<and> (\<forall>c\<in>set (os_started (snd x)). child_allowed l0 c)
        \<and> (\<forall>t\<in>set (os_signals (snd x)). t \<noteq> 0 \<and> (known_child (snd x) t \<or> known_child (snd x) (- t))))"

lemma process_inv_accounts:
  assumes inv: "process_inv l0 (d, w)" and l: "ld_lmap d = Some l" and l': "ld_lmap d' = Some l'"
    and same: "same_programs l l'"
    and acc: "accounts l (all_pids (lm_schedules l)) w (all_pids (lm_schedules l')) w'"
  shows "process_inv l0 (d', w')"
proof -
  let ?P = "all_pids (lm_schedules l)" and ?P' = "all_pids (lm_schedules l')"
  from inv l have s0: "same_programs l0 l" and fk: "forks_ok w"
    and cnt: "\<And>p. count (pool ?P w) p \<le> 1" and held: "\<forall>p\<in>set (held ?P). known_child w p"
    and ch: "\<forall>c\<in>set (os_started w). child_allowed l0 c"
    and sig: "\<forall>t\<in>set (os_signals w). t \<noteq> 0 \<and> (known_child w t \<or> known_child w (- t))"
    by (auto simp: process_inv_def)
  from acc same_programs_accounts [OF s0] have "accounts l0 ?P w ?P' w'" by simp
  then obtain new sigs where st: "os_started w' = os_started w @ new" and sg: "os_signals w' = os_signals w @ sigs"
    and g: "forks_ok w' \<and> pool ?P' w' \<subseteq># pool ?P w \<and> (\<forall>c\<in>set new. child_allowed l0 c)
      \<and> set (held ?P') \<subseteq> set (held ?P) \<union> ch_pid ` set new
      \<and> (\<forall>t\<in>set sigs. t \<noteq> 0 \<and> (t \<in> set (held ?P) \<union> ch_pid ` set new \<or> - t \<in> set (held ?P) \<union> ch_pid ` set new))"
    unfolding accounts_def using fk by blast
  have mono: "known_child w p \<Longrightarrow> known_child w' p" for p using st by (auto simp: known_child_def)
  have known: "known_child w' p" if "p \<in> set (held ?P) \<union> ch_pid ` set new" for p
    using that held mono st by (auto simp: known_child_def)
  have "count (pool ?P' w') p \<le> 1" for p
    using g cnt [of p] by (meson order_trans subseteq_mset_def)
  moreover have "\<forall>p\<in>set (held ?P'). known_child w' p" using g known by blast
  moreover have "\<forall>c\<in>set (os_started w'). child_allowed l0 c" using st ch g by auto
  moreover have "\<forall>t\<in>set (os_signals w'). t \<noteq> 0 \<and> (known_child w' t \<or> known_child w' (- t))"
    unfolding sg set_append ball_Un using sig g known mono by blast
  moreover have "same_programs l0 l'" using s0 same by (simp add: same_programs_def)
  ultimately show ?thesis using l' g by (auto simp: process_inv_def)
qed

lemma count_held_pool: "count (pool P w) p \<le> 1 \<Longrightarrow> count (mset (held P)) p \<le> 1"
  by (simp add: pool_def)

lemma process_inv_step:
  assumes "daemon_step lc x y" "process_inv l0 x"
  shows "process_inv l0 y"
  using assms
proof (induction rule: daemon_step.induct)
  case (Fire en d l k w d' w')
  then show ?case using accounts_fire_cb process_inv_accounts by meson
next
  case (Reap en d l pid st w l' w')
  have "same_programs l l'"
    using cleanup_child_Inr [OF Reap.hyps(5)] by (auto simp: same_programs_def with_schedules_def)
  then show ?case
    using process_inv_accounts [OF Reap.prems Reap.hyps(2) _ _ accounts_cleanup_child [OF Reap.hyps(5)]] by simp
next
  case (Kill d w en)
  then obtain l where "ld_lmap d = Some l" by (auto simp: process_inv_def)
  then show ?case
    using process_inv_accounts [OF Kill.prems _ _ _ accounts_killall] by (simp add: same_programs_def)
next
  case (Pids d ps w)
  from Pids.prems obtain l where l: "ld_lmap d = Some l"
    and cnt: "\<And>p. count (pool (all_pids (lm_schedules l)) w) p \<le> 1" by (auto simp: process_inv_def)
  let ?P = "all_pids (lm_schedules l)"
  from Pids.hyps l have ps: "0 \<notin> set ps" "distinct (filter (\<lambda>p. 0 < p) ps)" "set ps \<inter> set ?P = {}"
    by (auto simp: fresh_forks_def)
  have "count (mset (held ?P)) p + count (mset (filter (\<lambda>p. 0 < p) ps)) p \<le> 1" for p
  proof (cases "p \<in> set (held ?P)")
    case True
    with ps(3) have "p \<notin> set (filter (\<lambda>p. 0 < p) ps)" by (auto simp: held_def)
    then have "count (mset (filter (\<lambda>p. 0 < p) ps)) p = 0" by (metis count_eq_zero_iff set_mset_mset)
    with count_held_pool [OF cnt [of p]] show ?thesis by simp
  next
    case False
    then have "count (mset (held ?P)) p = 0" by (metis count_eq_zero_iff set_mset_mset)
    moreover have "count (mset (filter (\<lambda>p. 0 < p) ps)) p \<le> 1"
      using ps(2) by (metis distinct_count_atmost_1 dual_order.refl zero_le_one)
    ultimately show ?thesis by linarith
  qed
  with Pids.prems l ps(1) show ?case
    by (auto simp: process_inv_def forks_ok_def pool_def known_child_def)
next
  case (Files d w f)
  then show ?case by (auto simp: process_inv_def forks_ok_def pool_def known_child_def)
next
  case (Others d l d' l' w)
  then show ?case
    using process_inv_accounts [OF Others.prems Others.hyps(1,2)] accounts_refl same_runs_pids by (metis same_runs_def)
qed

lemma process_inv_reachable:
  "(daemon_step lc)\<^sup>*\<^sup>* x y \<Longrightarrow> process_inv l0 x \<Longrightarrow> process_inv l0 y"
  by (induction rule: rtranclp_induct) (auto intro: process_inv_step)

text \<open>A daemon that has just read its configuration: no action has run yet.\<close>

definition idle_start :: "lmap \<Rightarrow> lmapd \<times> os \<Rightarrow> bool" where
  "idle_start l x \<longleftrightarrow>
     ld_lmap (fst x) = Some l \<and> set (all_pids (lm_schedules l)) \<subseteq> {0}
     \<and> os_started (snd x) = [] \<and> os_signals (snd x) = [] \<and> fresh_forks (fst x) (os_forks (snd x))"

lemma held_zeros: "set P \<subseteq> {0} \<Longrightarrow> held P = []"
  by (auto simp: held_def filter_empty_conv)

lemma process_inv_start: "idle_start l x \<Longrightarrow> process_inv l x"
  by (auto simp: idle_start_def process_inv_def same_programs_def forks_ok_def fresh_forks_def pool_def
      held_zeros distinct_count_atmost_1 known_child_def)
section \<open>Properties\<close>

text \<open>
  C1. Process accounting of the daemon. From a freshly read configuration, through any sequence of events firing, children
  being reaped in any order and everything being killed, whatever system calls fail: no two actions hold the same pid,
  every pid an action holds is positive and belongs to a child the daemon forked, every child was started for a
  task of the configuration with a program that the capabilities list and an argument vector that fits the
  256 entries of the buffer, and every signal went to such a child or to its process group.
\<close>

theorem daemon_process_accounting:
  assumes "(daemon_step lc)\<^sup>*\<^sup>* (d0, w0) (d, w)" "idle_start l0 (d0, w0)"
  shows "\<exists>l. ld_lmap d = Some l
    \<and> distinct (held (all_pids (lm_schedules l)))
    \<and> set (held (all_pids (lm_schedules l))) \<subseteq> ch_pid ` set (os_started w)
    \<and> set (os_started w) \<subseteq> {c. child_allowed l0 c}
    \<and> set (os_signals w) \<subseteq> (\<Union>c\<in>set (os_started w). {ch_pid c, - ch_pid c})"
proof -
  have "process_inv l0 (d, w)"
    using process_inv_reachable [OF assms(1) process_inv_start [OF assms(2)]] .
  then obtain l where l: "ld_lmap d = Some l" and cnt: "\<forall>p. count (pool (all_pids (lm_schedules l)) w) p \<le> 1"
    and h: "\<forall>p\<in>set (held (all_pids (lm_schedules l))). known_child w p"
    and c: "\<forall>c\<in>set (os_started w). child_allowed l0 c"
    and s: "\<forall>t\<in>set (os_signals w). t \<noteq> 0 \<and> (known_child w t \<or> known_child w (- t))"
    by (auto simp: process_inv_def)
  have "distinct (held (all_pids (lm_schedules l)))"
    using cnt count_held_pool by (auto simp: distinct_count_atmost_1 le_Suc_eq count_eq_zero_iff)
  moreover have "set (held (all_pids (lm_schedules l))) \<subseteq> ch_pid ` set (os_started w)"
    using h by (auto simp: known_child_def)
  moreover have "set (os_signals w) \<subseteq> (\<Union>c\<in>set (os_started w). {ch_pid c, - ch_pid c})"
  proof
    fix t assume "t \<in> set (os_signals w)"
    with s obtain c' where "c' \<in> set (os_started w)" "ch_pid c' = t \<or> ch_pid c' = - t"
      unfolding known_child_def by blast
    then show "t \<in> (\<Union>c\<in>set (os_started w). {ch_pid c, - ch_pid c})" by (intro UN_I) auto
  qed
  ultimately show ?thesis using l c by (intro exI [of _ l]) auto
qed

definition run_task :: task where
  "run_task = lmap_task_new\<lparr>task_name := Some ''ping'', task_program := Some ''/bin/ping'',
     task_options := [lmap_option_new\<lparr>opt_id := Some ''n'', opt_name := Some ''-c'', opt_value := Some ''3''\<rparr>]\<rparr>"

definition run_config :: lmap where
  "run_config =
     lmap_new\<lparr>lm_capabilities := Some (lmap_capability_new\<lparr>cap_tasks := [run_task]\<rparr>), lm_tasks := [run_task],
       lm_events := [lmap_event_new\<lparr>ev_name := Some ''now'', ev_type := Periodic\<rparr>],
       lm_schedules := [lmap_schedule_new\<lparr>sched_name := Some ''s'', sched_start := Some ''now'',
         sched_end := Some ''now'', sched_mode := Sequential, sched_workspace := Some ''q/s'',
         sched_actions := [lmap_action_new\<lparr>act_name := Some ''a'', act_task := Some ''ping'',
           act_workspace := Some ''q/s/a''\<rparr>]\<rparr>]\<rparr>"

definition run_daemon :: lmapd where
  "run_daemon = lmapd_new\<lparr>ld_lmap := Some run_config\<rparr>"

definition run_os :: os where
  "run_os = \<lparr>os_fs = \<lparr>fs_dirs = [''q/s'' \<mapsto> [(''_incoming'', Directory), (''a'', Directory)],
       ''q/s/a'' \<mapsto> [], ''q/s/_incoming'' \<mapsto> []], fs_data = (\<lambda>_. []), fs_next = 0\<rparr>,
     os_forks = [4242], os_signals = [], os_started = []\<rparr>"

definition run_env :: env where
  "run_env = \<lparr>en_now = 1700000000, en_refuse = (\<lambda>_. False), en_kill_fails = (\<lambda>_. True), en_libc = utc_libc\<rparr>"

definition run_view :: "(lmapd \<times> os) outcome \<Rightarrow> bool" where
  "run_view r =
     (case r of Inl _ \<Rightarrow> False | Inr (d, w) \<Rightarrow>
        map ch_pid (os_started w) = [4242] \<and> map ch_argv (os_started w) = [[''/bin/ping'', ''-c'', ''3'']]
        \<and> os_signals w = [-4242, 4242]
        \<and> (case ld_lmap d of None \<Rightarrow> False | Some l \<Rightarrow>
             all_pids (lm_schedules l) = [4242] \<and> map sched_state (lm_schedules l) = [Running]))"

lemma run_example: "run_view (ofold (daemon_input run_env) [Event_Fires 0] (run_daemon, run_os))"
  by code_simp

lemma run_daemon_idle: "idle_start run_config (run_daemon, run_os)"
  by (simp add: idle_start_def run_daemon_def run_config_def run_os_def all_pids_def sched_pids_def fresh_forks_def
      lmap_action_new_def lmap_schedule_new_def)

lemma run_example_reachable:
  "\<exists>d w l. (daemon_step utc_libc)\<^sup>*\<^sup>* (run_daemon, run_os) (d, w) \<and> map ch_pid (os_started w) = [4242]
     \<and> ld_lmap d = Some l \<and> map sched_state (lm_schedules l) = [Running]"
proof -
  obtain d w l where f: "ofold (daemon_input run_env) [Event_Fires 0] (run_daemon, run_os) = Inr (d, w)"
    "map ch_pid (os_started w) = [4242]" "ld_lmap d = Some l" "map sched_state (lm_schedules l) = [Running]"
    using run_example unfolding run_view_def by (auto split: sum.splits prod.splits option.splits)
  from daemon_run_steps [OF f(1)] have "(daemon_step utc_libc)\<^sup>*\<^sup>* (run_daemon, run_os) (d, w)"
    by (simp add: run_env_def)
  with f show ?thesis by (intro exI conjI)
qed

theorem daemon_process_accounting_witness:
  "\<exists>d w. (daemon_step utc_libc)\<^sup>*\<^sup>* (run_daemon, run_os) (d, w) \<and> map ch_pid (os_started w) = [4242]
     \<and> (\<forall>c\<in>set (os_started w). child_allowed run_config c)"
proof -
  obtain d w where s: "(daemon_step utc_libc)\<^sup>*\<^sup>* (run_daemon, run_os) (d, w)" "map ch_pid (os_started w) = [4242]"
    using run_example_reachable by auto
  from daemon_process_accounting [OF s(1) run_daemon_idle]
  have "\<forall>c\<in>set (os_started w). child_allowed run_config c" by auto
  with s show ?thesis by (intro exI conjI)
qed

end
