(* ===== verification/Run_States.thy ===== *)
theory Run_States
  imports Processes
begin

text \<open>
  The states of schedules and actions along the runs of the daemon: a running schedule has a child to wait for, and the
  counters of active suppressions say how many of the active suppressions match. Schedules and actions share the
  contract \<open>suppressible\<close>.
\<close>

section \<open>Running schedules have children\<close>

definition action_alive :: "action \<Rightarrow> bool" where
  "action_alive a \<longleftrightarrow> (act_state a = Running \<longrightarrow> act_pid a \<noteq> 0)"

definition schedule_alive :: "schedule \<Rightarrow> bool" where
  "schedule_alive s \<longleftrightarrow>
     list_all action_alive (sched_actions s)
     \<and> (sched_state s = Running \<longrightarrow> list_ex (\<lambda>a. act_pid a \<noteq> 0) (sched_actions s))"

text \<open>A second contract for lists: a predicate that all elements keep, as long as \<open>fork\<close> does not return 0.\<close>

definition keeps :: "('a \<Rightarrow> bool) \<Rightarrow> 'a list \<Rightarrow> os \<Rightarrow> 'a list \<Rightarrow> os \<Rightarrow> bool" where
  "keeps Q P w P' w' \<longleftrightarrow> (forks_ok w \<longrightarrow> forks_ok w' \<and> (list_all Q P \<longrightarrow> list_all Q P'))"

interpretation kp: accounting "keeps Q" for Q
  by unfold_locales (auto simp: keeps_def)

interpretation kp_snd: accounting "\<lambda>P x P' y. keeps Q P (snd x) P' (snd y)" for Q
  by unfold_locales (auto simp: keeps_def)

lemma keeps_omap:
  assumes "\<And>x w x' w'. f x w = Inr (x', w') \<Longrightarrow> keeps Q [x] w [x'] w'" "omap f xs w = Inr (xs', w')"
  shows "keeps Q xs w xs' w'"
  using kp.rel_omap [OF assms, of "\<lambda>x. x" "\<lambda>x. x"] by (simp add: concat_map_singleton)

lemma accounts_forks_ok: "accounts l P w P' w' \<Longrightarrow> forks_ok w \<Longrightarrow> forks_ok w'"
  by (auto simp: accounts_def)

lemma keeps_action_exec:
  assumes "action_exec en l s a w = (rc, a', w')"
  shows "keeps action_alive [a] w [a'] w'"
proof -
  have "action_alive a'" if "forks_ok w" "action_alive a"
  proof (cases "rc = 1")
    case True
    with assms action_exec_started [of en l s a w a' w'] that(1) show ?thesis
      by (auto simp: action_alive_def forks_ok_def)
  next
    case False
    with action_exec_refused_state [OF assms] that(2) show ?thesis by (simp add: action_alive_def)
  qed
  with accounts_forks_ok [OF accounts_action_exec [OF assms]] show ?thesis by (simp add: keeps_def)
qed

lemma keeps_suppress_action:
  assumes "suppress_action en p fl a w = Inr (a', w')"
  shows "keeps action_alive [a] w [a'] w'"
proof (cases "act_state a = Disabled")
  case True
  with assms show ?thesis by (simp add: suppress_action_def keeps_def)
next
  case False
  from suppress_action_Inr [OF assms False] have "action_alive a \<Longrightarrow> action_alive a'"
    by (auto simp: action_alive_def action_suppress_def split: if_splits)
  with accounts_forks_ok [OF accounts_suppress_action [OF assms]] show ?thesis by (simp add: keeps_def)
qed

lemma unsuppress_action_Inr:
  assumes "unsuppress_action en p a w = Inr (a', w')" "act_state a \<noteq> Disabled"
  shows "\<exists>b. big_tag_match (en_libc en) (supp_match p) (act_suppression_tags a) = Inr b
    \<and> a' = (if b then action_unsuppress a else a) \<and> w' = w"
proof -
  obtain b where b: "big_tag_match (en_libc en) (supp_match p) (act_suppression_tags a) = Inr b"
    using assms by (cases "big_tag_match (en_libc en) (supp_match p) (act_suppression_tags a)")
      (simp_all add: unsuppress_action_def)
  with assms have "a' = (if b then action_unsuppress a else a)" "w' = w"
    by (simp_all add: unsuppress_action_def)
  with b show ?thesis by (intro exI [of _ b] conjI)
qed

lemma keeps_unsuppress_action:
  assumes "unsuppress_action en p a w = Inr (a', w')"
  shows "keeps action_alive [a] w [a'] w'"
proof (cases "act_state a = Disabled")
  case True
  with assms show ?thesis by (simp add: unsuppress_action_def keeps_def)
next
  case False
  from unsuppress_action_Inr [OF assms False] show ?thesis
    by (auto simp: keeps_def action_alive_def action_unsuppress_def Let_def split: if_splits)
qed

text \<open>The pids of the actions are what they were: nothing but starting and reaping changes them.\<close>

lemma omap_pids:
  assumes "\<And>a w a' w'. f a w = Inr (a', w') \<Longrightarrow> act_pid a' = act_pid a"
  shows "omap f as w = Inr (as', w') \<Longrightarrow> map act_pid as' = map act_pid as"
proof (induction as arbitrary: w as')
  case (Cons a as)
  then show ?case by (auto simp: obind_Inr dest: assms)
qed simp

lemma suppress_action_pid: "suppress_action en p fl a w = Inr (a', w') \<Longrightarrow> act_pid a' = act_pid a"
  using suppress_action_Inr [of en p fl a w a' w']
  by (cases "act_state a = Disabled") (auto simp: suppress_action_def action_suppress_def split: if_splits)

lemma list_ex_pids: "list_ex (\<lambda>a. act_pid a \<noteq> 0) as \<longleftrightarrow> (\<exists>p\<in>set (map act_pid as). p \<noteq> 0)"
  by (induction as) auto

lemma schedule_alive_iff:
  "schedule_alive s \<longleftrightarrow> list_all action_alive (sched_actions s)
     \<and> (sched_state s = Running \<longrightarrow> (\<exists>p\<in>set (sched_pids s). p \<noteq> 0))"
  by (simp add: schedule_alive_def sched_pids_def list_ex_pids)

lemma keeps_suppress_schedule:
  assumes "suppress_schedule en p s w = Inr (s', w')"
  shows "keeps schedule_alive [s] w [s'] w'"
proof (cases "sched_state s = Disabled")
  case True
  with assms show ?thesis by (simp add: suppress_schedule_def keeps_def)
next
  case False
  from suppress_schedule_Inr [OF assms False] obtain b as fl where
    o: "omap (suppress_action en p fl) (sched_actions s) w = Inr (as, w')"
    and s': "s' = (if b then schedule_suppress p s else s)\<lparr>sched_actions := as\<rparr>"
    by blast
  have "map act_pid as = map act_pid (sched_actions s)"
    using omap_pids [OF suppress_action_pid o] .
  moreover have "sched_state s' = Running \<longleftrightarrow> sched_state s = Running"
    by (auto simp: s' schedule_suppress_def)
  moreover have "keeps action_alive (sched_actions s) w as w'"
    using keeps_omap [OF keeps_suppress_action o] .
  ultimately show ?thesis using s' by (auto simp: keeps_def schedule_alive_iff sched_pids_def)
qed

lemma keeps_unsuppress_schedule:
  assumes "unsuppress_schedule en p s w = Inr (s', w')"
  shows "keeps schedule_alive [s] w [s'] w'"
proof (cases "sched_state s = Disabled")
  case True
  with assms show ?thesis by (simp add: unsuppress_schedule_def keeps_def)
next
  case False
  from unsuppress_schedule_Inr [OF assms False] obtain b as where
    o: "omap (unsuppress_action en p) (sched_actions s) w = Inr (as, w')"
    and s': "s' = (if b then schedule_unsuppress s else s)\<lparr>sched_actions := as\<rparr>"
    by blast
  have "map act_pid as = map act_pid (sched_actions s)"
    using omap_pids [OF _ o] accounts_unsuppress_action by blast
  moreover have "sched_state s' = Running \<longleftrightarrow> sched_state s = Running"
    by (auto simp: s' schedule_unsuppress_def Let_def)
  moreover have "keeps action_alive (sched_actions s) w as w'"
    using keeps_omap [OF keeps_unsuppress_action o] .
  ultimately show ?thesis using s' by (auto simp: keeps_def schedule_alive_iff sched_pids_def)
qed
lemma forks_ok_fs_only: "fs_only w w' \<Longrightarrow> forks_ok w' = forks_ok w"
  by (simp add: fs_only_def forks_ok_def)

lemma fs_only_clean_all: "fs_only w (fold (action_clean_os en) as w)"
  by (rule fs_only_fold) simp

lemma exec_actions_alive:
  "exec_actions en l s as w = (b, as', w') \<Longrightarrow> forks_ok w \<Longrightarrow> list_all action_alive as \<Longrightarrow>
   list_all action_alive as' \<and> (b \<longrightarrow> list_ex (\<lambda>a. act_pid a \<noteq> 0) as')"
proof (induction as arbitrary: b as' w w')
  case (Cons a as)
  obtain rc a1 w1 where 1: "action_exec en l s a w = (rc, a1, w1)" using prod_cases3 by blast
  obtain b2 as2 w2 where 2: "exec_actions en l s as w1 = (b2, as2, w2)" using prod_cases3 by blast
  from Cons.prems 1 2 have e: "b = (rc = 1 \<or> b2)" "as' = a1 # as2" by auto
  have k: "forks_ok w1" "action_alive a1"
    using keeps_action_exec [OF 1] Cons.prems(2,3) by (simp_all add: keeps_def)
  moreover have "rc = 1 \<Longrightarrow> act_pid a1 \<noteq> 0"
    using action_exec_started [of en l s a w a1 w1] 1 Cons.prems(2) by (auto simp: forks_ok_def)
  ultimately show ?case using Cons.IH [OF 2 k(1)] Cons.prems(3) e by auto
qed simp

lemma schedule_exec_alive:
  assumes "schedule_exec en l s w = (s', w')" "forks_ok w" "schedule_alive s" "sched_state s \<noteq> Running"
  shows "schedule_alive s'"
proof (cases "sched_name s")
  case None
  with assms show ?thesis by (simp add: schedule_exec_def)
next
  case (Some n)
  let ?w = "fold (action_clean_os en) (sched_actions s) w"
  let ?s = "s\<lparr>sched_last_invocation := en_now en, sched_cnt_invocations := sched_cnt_invocations s + 1\<rparr>"
  have fk: "forks_ok ?w" using assms(2) forks_ok_fs_only [OF fs_only_clean_all] by simp
  have as: "list_all action_alive (sched_actions s)" using assms(3) by (simp add: schedule_alive_def)
  show ?thesis
  proof (cases "sched_mode s")
    case Sequential
    show ?thesis
    proof (cases "sched_actions s")
      case Nil
      with Some Sequential assms show ?thesis by (auto simp: schedule_exec_def Let_def schedule_alive_def)
    next
      case (Cons a as)
      obtain rc a' w2 where x: "action_exec en l ?s a ?w = (rc, a', w2)" using prod_cases3 by blast
      have "action_alive a'"
        using keeps_action_exec [OF x] fk as Cons by (simp add: keeps_def)
      moreover have "rc = 1 \<Longrightarrow> act_pid a' \<noteq> 0"
        using action_exec_started [of en l ?s a ?w a' w2] x fk by (auto simp: forks_ok_def)
      moreover have "s' = ?s\<lparr>sched_actions := a' # as, sched_state := (if rc = 1 then Running else sched_state s)\<rparr>"
        using assms(1) Some Sequential Cons x by (auto simp: schedule_exec_def Let_def)
      ultimately show ?thesis using as Cons assms(4) by (simp add: schedule_alive_def)
    qed
  next
    case Parallel
    obtain b as' w2 where x: "exec_actions en l ?s (sched_actions s) ?w = (b, as', w2)" using prod_cases3 by blast
    have "s' = ?s\<lparr>sched_actions := as', sched_state := (if b then Running else sched_state s)\<rparr>"
      using assms(1) Some Parallel x by (auto simp: schedule_exec_def Let_def)
    with exec_actions_alive [OF x fk as] assms(4) show ?thesis by (simp add: schedule_alive_def)
  next
    case Pipelined
    with Some assms show ?thesis by (auto simp: schedule_exec_def Let_def schedule_alive_def)
  qed
qed

lemma keeps_start_schedule:
  assumes "start_schedule en l e s w = (d, s', w')"
  shows "keeps schedule_alive [s] w [s'] w'"
proof -
  have fk: "forks_ok w \<Longrightarrow> forks_ok w'" using accounts_forks_ok [OF accounts_start_schedule [OF assms]] .
  have "schedule_alive s'" if f: "forks_ok w" and a: "schedule_alive s"
  proof (cases "sched_state s = Suppressed \<or> sched_state s = Running")
    case True
    with assms a show ?thesis by (auto simp: start_schedule_def schedule_alive_def split: if_splits)
  next
    case False
    let ?s = "s\<lparr>sched_cycle_number := cycle_number_at en e\<rparr>"
    let ?w = "w\<lparr>os_fs := snd (lmapd_workspace_schedule_move (en_refuse en) (Some ?s) (os_fs w))\<rparr>"
    obtain s2 w2 where x: "schedule_exec en l ?s ?w = (s2, w2)" by fastforce
    have "schedule_alive s2"
      by (rule schedule_exec_alive [OF x]) (use False f a in \<open>simp_all add: schedule_alive_def forks_ok_def\<close>)
    moreover have "s' = (if once_only (ev_type e) then s2\<lparr>sched_state := Disabled\<rparr> else s2)"
      using assms False x by (simp add: start_schedule_def Let_def)
    ultimately show ?thesis by (simp add: schedule_alive_def)
  qed
  with fk show ?thesis by (simp add: keeps_def)
qed

lemma keeps_execute_schedule:
  assumes "execute_schedule en l e s x = Inr (s', y)"
  shows "keeps schedule_alive [s] (snd x) [s'] (snd y)"
proof -
  from execute_schedule_Inr [OF assms] obtain d w1 where
    "(if sched_state s = Disabled then Inr (False, s, snd x)
      else if sched_name s = None then Inr (False, s\<lparr>sched_state := Disabled\<rparr>, snd x)
      else obind (on_event (sched_start s) e)
             (\<lambda>b. Inr (if b then start_schedule en l e s (snd x) else (False, s, snd x)))) = Inr (d, s', w1)"
    by auto
  then have "schedule_alive s'" if "forks_ok (snd x)" "schedule_alive s"
    using keeps_start_schedule [of en l e s "snd x" d s' w1] that
    by (auto simp: obind_Inr keeps_def schedule_alive_def split: if_splits)
  with accounts_forks_ok [OF accounts_execute_schedule [OF assms]] show ?thesis by (simp add: keeps_def)
qed

lemma keeps_execute_all:
  assumes "omap (execute_schedule en l e) ss x = Inr (ss', y)"
  shows "keeps schedule_alive ss (snd x) ss' (snd y)"
proof -
  have "keeps schedule_alive (concat (map (\<lambda>s. [s]) ss)) (snd x) (concat (map (\<lambda>s. [s]) ss')) (snd y)"
    using keeps_execute_schedule assms by (rule kp_snd.rel_omap)
  then show ?thesis by (simp add: concat_map_singleton)
qed

lemma keeps_suppression_start:
  assumes "suppression_start en p ss w = Inr (p', z)"
  shows "keeps schedule_alive ss w (fst z) (snd z)"
proof (cases "supp_match p = [] \<or> supp_name p = None")
  case False
  with assms have "omap (suppress_schedule en p) ss w = Inr z" by (auto simp: suppression_start_def obind_Inr)
  then have "omap (suppress_schedule en p) ss w = Inr (fst z, snd z)" by simp
  with keeps_suppress_schedule show ?thesis by (rule keeps_omap)
qed (use assms in \<open>auto simp: suppression_start_def kp.rel_refl\<close>)

lemma keeps_suppression_end:
  assumes "suppression_end en p ss w = Inr (p', z)"
  shows "keeps schedule_alive ss w (fst z) (snd z)"
proof (cases "supp_match p = [] \<or> supp_name p = None")
  case False
  with assms have "omap (unsuppress_schedule en p) ss w = Inr z" by (auto simp: suppression_end_def obind_Inr)
  then have "omap (unsuppress_schedule en p) ss w = Inr (fst z, snd z)" by simp
  with keeps_unsuppress_schedule show ?thesis by (rule keeps_omap)
qed (use assms in \<open>auto simp: suppression_end_def kp.rel_refl\<close>)

lemma keeps_suppress_all:
  assumes "omap (suppress_one en e) ps (ss, w) = Inr (ps', ss', w')"
  shows "keeps schedule_alive ss w ss' w'"
proof -
  let ?I = "\<lambda>x. keeps schedule_alive ss w (fst x) (snd x)"
  have step: "keeps schedule_alive (fst x) (snd x) (fst y) (snd y)"
    if "suppress_one en e p x = Inr (p', y)" for p x p' y
  proof (cases "supp_state p = Supp_Disabled \<or> supp_name p = None")
    case True
    with that show ?thesis by (auto simp: suppress_one_def keeps_def split: if_splits prod.splits)
  next
    case False
    from suppress_one_Inr [OF that False] obtain b b2 p1 z where
      1: "(if b \<and> supp_state p = Supp_Enabled then suppression_start en p (fst x) (snd x) else Inr (p, x))
        = Inr (p1, z)"
      and 2: "(if b2 \<and> supp_state p1 = Supp_Active then suppression_end en p1 (fst z) (snd z) else Inr (p1, z))
        = Inr (p', y)"
      by blast
    have "keeps schedule_alive (fst x) (snd x) (fst z) (snd z)"
      using 1 keeps_suppression_start [of en p "fst x" "snd x" p1 z] by (auto simp: kp.rel_refl split: if_splits)
    moreover have "keeps schedule_alive (fst z) (snd z) (fst y) (snd y)"
      using 2 keeps_suppression_end [of en p1 "fst z" "snd z" p' y] by (auto simp: kp.rel_refl split: if_splits)
    ultimately show ?thesis by (rule kp.rel_trans)
  qed
  have "?I (ss', w')"
    by (rule omap_invariant [of ?I, OF _ _ assms]) (auto intro: kp.rel_refl kp.rel_trans [OF _ step])
  then show ?thesis by simp
qed
lemma list_all_update: "list_all Q xs \<Longrightarrow> Q y \<Longrightarrow> list_all Q (xs[i := y])"
  by (simp add: list_all_iff) (metis insertE set_update_subset_insert subsetD)

lemma exec_next_alive:
  assumes "exec_next en l j s w = (s', w')" "forks_ok w" "list_all action_alive (sched_actions s)"
  shows "list_all action_alive (sched_actions s')"
proof (cases "s' = s")
  case False
  then obtain rc a where x: "action_exec en l s (sched_actions s ! (j + 1)) w = (rc, a, w')"
    and j: "j + 1 < length (sched_actions s)" and s': "s' = s\<lparr>sched_actions := (sched_actions s)[j + 1 := a]\<rparr>"
    using assms(1) by (auto simp: exec_next_def split: if_splits prod.splits)
  from assms(3) j have "action_alive (sched_actions s ! (j + 1))" by (simp add: list_all_length)
  with keeps_action_exec [OF x] assms(2) have "action_alive a" by (simp add: keeps_def)
  with assms(3) s' show ?thesis by (simp add: list_all_update)
qed (use assms in simp)

lemma finish_schedule_alive:
  assumes "finish_schedule en ss i s w = (s', w')" "list_all action_alive (sched_actions s)"
  shows "schedule_alive s'"
proof -
  let ?r = "list_ex (\<lambda>a. act_state a = Running) (sched_actions s)"
  let ?s = "if sched_state s = Running \<and> \<not> ?r
    then s\<lparr>sched_state := (if sched_cnt_active_suppressions s \<noteq> 0 then Suppressed else Enabled)\<rparr> else s"
  obtain as w1 where f: "finish_actions en ss i ?s (sched_actions ?s) w = (as, w1)" by fastforce
  note k = finish_actions_keeps [OF f]
  have as: "list_all action_alive as"
    using k assms(2) by (simp add: list_all_iff action_alive_def)
  show ?thesis
  proof (cases ?r)
    case True
    with assms have "s' = s" by (simp add: finish_schedule_def)
    moreover have "list_ex (\<lambda>a. act_pid a \<noteq> 0) (sched_actions s)"
      using True assms(2) by (auto simp: list_ex_iff list_all_iff action_alive_def)
    ultimately show ?thesis using assms(2) by (simp add: schedule_alive_def)
  next
    case False
    have "sched_actions s' = as" "sched_state s' = sched_state ?s"
      using assms(1) False f by (auto simp: finish_schedule_def Let_def split: if_splits)
    with False as show ?thesis by (simp add: schedule_alive_def)
  qed
qed

lemma cleanup_child_alive:
  assumes "cleanup_child en (pid, st) (l, w) = Inr (l', w')" "forks_ok w"
    "list_all schedule_alive (lm_schedules l)"
  shows "list_all schedule_alive (lm_schedules l')"
  using cleanup_child_Inr [OF assms(1)]
proof (elim disjE exE conjE)
  fix i j a w1 s2 w2 s3
  let ?s = "lm_schedules l ! i"
  assume f: "find_action_by_pid (lm_schedules l) pid = Some (i, j)"
    and a: "finish_action en (lm_schedules l) i ?s st (sched_actions ?s ! j) w = Inr (a, w1)"
    and x: "exec_next en l j (?s\<lparr>sched_actions := (sched_actions ?s)[j := a]\<rparr>) w1 = (s2, w2)"
    and y: "finish_schedule en (lm_schedules l) i s2 w2 = (s3, w')"
    and l': "l' = with_schedules l ((lm_schedules l)[i := s3])"
  have "list_all action_alive (sched_actions ?s)"
    using assms(3) find_action_by_pid_Some (1) [OF f] by (simp add: list_all_length schedule_alive_def)
  moreover have "action_alive a" using finish_action_keeps [OF a] by (simp add: action_alive_def)
  moreover have "forks_ok w1" using forks_ok_fs_only [OF finish_action_keeps (1) [OF a]] assms(2) by simp
  ultimately have "list_all action_alive (sched_actions s2)"
    using exec_next_alive [OF x] by (simp add: list_all_update)
  from finish_schedule_alive [OF y this] l' assms(3) show ?thesis
    by (simp add: with_schedules_def list_all_update)
qed (use assms in simp)

definition alive_inv :: "lmapd \<times> os \<Rightarrow> bool" where
  "alive_inv x \<longleftrightarrow> forks_ok (snd x)
     \<and> (\<exists>l. ld_lmap (fst x) = Some l \<and> list_all schedule_alive (lm_schedules l))"

lemma alive_inv_step:
  assumes "daemon_step lc x y" "alive_inv x"
  shows "alive_inv y"
  using assms
proof (induction rule: daemon_step.induct)
  case (Fire en d l k w d' w')
  have fk: "forks_ok w" and al: "list_all schedule_alive (lm_schedules l)"
    using Fire.prems Fire.hyps(2) by (auto simp: alive_inv_def)
  from fire_cb_Inr [OF Fire.hyps(4,2)] obtain e ps ss w1 l1 ss' b where
    1: "omap (suppress_one en e) (lm_supps l) (lm_schedules l, w) = Inr (ps, ss, w1)"
    and 2: "omap (execute_schedule en l1 e) ss (False, w1) = Inr (ss', b, w')"
    and d': "ld_lmap d' = Some (l\<lparr>lm_supps := ps, lm_schedules := ss',
        lm_events := (lm_events l)[k := (lm_events l ! k)\<lparr>ev_fire_event := None\<rparr>]\<rparr>)"
    by blast
  from keeps_suppress_all [OF 1] fk al have "forks_ok w1" "list_all schedule_alive ss"
    by (simp_all add: keeps_def)
  with keeps_execute_all [OF 2] d' show ?case by (simp add: alive_inv_def keeps_def)
next
  case (Reap en d l pid st w l' w')
  then show ?case
    using cleanup_child_alive [OF Reap.hyps(5)] accounts_forks_ok [OF accounts_cleanup_child [OF Reap.hyps(5)]]
    by (auto simp: alive_inv_def)
next
  case (Kill d w en)
  then show ?case
    using accounts_forks_ok [OF accounts_killall] by (auto simp: alive_inv_def)
next
  case (Others d l d' l' w)
  have "list_all schedule_alive (lm_schedules l') = list_all schedule_alive (lm_schedules l)"
    by (rule same_runs_all [OF Others.hyps(3)])
      (simp add: schedule_alive_def action_alive_def run_part_def list_all_iff list_ex_iff)
  with Others show ?case by (simp add: alive_inv_def)
qed (auto simp: alive_inv_def forks_ok_def fresh_forks_def)

definition quiet_start :: "lmapd \<times> os \<Rightarrow> bool" where
  "quiet_start x \<longleftrightarrow> forks_ok (snd x)
     \<and> (\<exists>l. ld_lmap (fst x) = Some l
          \<and> (\<forall>s\<in>set (lm_schedules l). sched_state s \<noteq> Running
               \<and> (\<forall>a\<in>set (sched_actions s). act_state a \<noteq> Running)))"

lemma alive_inv_start: "quiet_start x \<Longrightarrow> alive_inv x"
  by (auto simp: quiet_start_def alive_inv_def list_all_iff schedule_alive_def action_alive_def)

lemma alive_inv_reachable: "(daemon_step lc)\<^sup>*\<^sup>* x y \<Longrightarrow> alive_inv x \<Longrightarrow> alive_inv y"
  by (induction rule: rtranclp_induct) (auto intro: alive_inv_step)

text \<open>
  C2. No schedule waits for nothing. In every state the daemon can reach from a configuration in which nothing runs, an
  action that is running holds a pid, and a schedule that is running has an action with a child that has not been
  reaped; so once all its children have been reaped, a schedule is no longer running and its next event starts it again.
\<close>

theorem running_schedule_has_child:
  assumes "(daemon_step lc)\<^sup>*\<^sup>* (d0, w0) (d, w)" "quiet_start (d0, w0)"
  shows "\<exists>l. ld_lmap d = Some l
    \<and> (\<forall>s\<in>set (lm_schedules l).
         (\<forall>a\<in>set (sched_actions s). act_state a = Running \<longrightarrow> act_pid a \<noteq> 0)
         \<and> (sched_state s = Running \<longrightarrow> (\<exists>a\<in>set (sched_actions s). act_pid a \<noteq> 0)))"
  using alive_inv_reachable [OF assms(1) alive_inv_start [OF assms(2)]]
  by (auto simp: alive_inv_def schedule_alive_def action_alive_def list_all_iff list_ex_iff)

text \<open>The run of the example: the schedule is running and its action holds the pid 4242.\<close>

theorem running_schedule_has_child_witness:
  "\<exists>d w l. (daemon_step utc_libc)\<^sup>*\<^sup>* (run_daemon, run_os) (d, w) \<and> ld_lmap d = Some l
     \<and> map sched_state (lm_schedules l) = [Running]
     \<and> (\<forall>s\<in>set (lm_schedules l). \<exists>a\<in>set (sched_actions s). act_pid a \<noteq> 0)"
proof -
  obtain d w l where s: "(daemon_step utc_libc)\<^sup>*\<^sup>* (run_daemon, run_os) (d, w)" "ld_lmap d = Some l"
    "map sched_state (lm_schedules l) = [Running]"
    using run_example_reachable by auto
  have q: "quiet_start (run_daemon, run_os)"
    by (simp add: quiet_start_def run_daemon_def run_config_def run_os_def forks_ok_def lmap_action_new_def
        lmap_schedule_new_def)
  from running_schedule_has_child [OF s(1) q] s(2)
  have "\<forall>s\<in>set (lm_schedules l). sched_state s = Running \<longrightarrow> (\<exists>a\<in>set (sched_actions s). act_pid a \<noteq> 0)"
    by auto
  moreover have "\<forall>s\<in>set (lm_schedules l). sched_state s = Running"
    using arg_cong [OF s(3), of set] by auto
  ultimately show ?thesis using s by (intro exI conjI) auto
qed
section \<open>Sequential schedules go on\<close>

lemma push_options_fits:
  "length args + 2 * length ps \<le> argv_limit \<Longrightarrow> push_options ps args = Some (args @ concat (map option_args ps))"
proof (induction ps arbitrary: args)
  case (Cons p ps)
  have "push_options ps (args @ option_args p) = Some ((args @ option_args p) @ concat (map option_args ps))"
    using Cons.prems option_args_length [of p] by (intro Cons.IH) simp
  with Cons.prems show ?case by simp
qed simp

text \<open>When \<open>action_exec\<close> has nothing to object to, it starts the child.\<close>

definition startable :: "lmap \<Rightarrow> action \<Rightarrow> bool" where
  "startable l a \<longleftrightarrow>
     act_name a \<noteq> None \<and> act_workspace a \<noteq> None \<and> act_state a = Enabled \<and> act_pid a = 0
     \<and> (case lmap_find_task l (act_task a) of
          None \<Rightarrow> False
        | Some t \<Rightarrow> (case task_program t of None \<Rightarrow> False | Some p \<Rightarrow> program_allowed l p)
            \<and> 1 + 2 * length (task_options t) + 2 * length (act_options a) \<le> argv_limit)"

lemma startable_exec:
  assumes "startable l a" "os_forks w = p # ps" "0 \<le> p"
  shows "\<exists>a' w'. action_exec en l s a w = (1, a', w') \<and> act_pid a' = p \<and> act_state a' = Running
    \<and> map ch_pid (os_started w') = map ch_pid (os_started w) @ [p]"
proof -
  obtain t prog where t: "lmap_find_task l (act_task a) = Some t" "task_program t = Some prog" "program_allowed l prog"
    and n: "1 + 2 * length (task_options t) + 2 * length (act_options a) \<le> argv_limit"
    using assms(1) by (auto simp: startable_def split: option.splits)
  have task: "act_task a \<noteq> None" using t(1) by (auto simp: lmap_find_task_def find_named_def split: option.splits)
  let ?b = "[prog] @ concat (map option_args (task_options t))"
  have len: "length (concat (map option_args os)) \<le> 2 * length os" for os
  proof (induction os)
    case (Cons q os)
    then show ?case using option_args_length [of q] by simp
  qed simp
  have "push_options (task_options t) [prog] = Some ?b" using n by (intro push_options_fits) simp
  moreover have "push_options (act_options a) ?b = Some (?b @ concat (map option_args (act_options a)))"
    using n len [of "task_options t"] by (intro push_options_fits) simp
  ultimately have "Option.bind (push_options (task_options t) [prog]) (push_options (act_options a))
      = Some (?b @ concat (map option_args (act_options a)))" by simp
  with assms t task show ?thesis
    by (simp add: action_exec_def startable_def next_fork_def)
qed

lemma meta_add_end_total:
  assumes "act_name a \<noteq> None" "act_workspace a \<noteq> None"
  shows "\<exists>x. lmapd_workspace_action_meta_add_end R s a f = Inr x"
  using assms by (auto simp: lmapd_workspace_action_meta_add_end_def split: option.split prod.split)

lemma finish_action_total:
  assumes "act_name a \<noteq> None" "act_workspace a \<noteq> None"
  shows "\<exists>a' w'. finish_action en ss i s st a w = Inr (a', w')"
proof -
  have "act_name (action_ended en st a) \<noteq> None" "act_workspace (action_ended en st a) \<noteq> None"
    using assms by (simp_all add: action_ended_def Let_def)
  from meta_add_end_total [OF this] obtain x where
    "lmapd_workspace_action_meta_add_end (en_refuse en) s (action_ended en st a) (os_fs w) = Inr x"
    by blast
  then show ?thesis by (cases x) (simp add: finish_action_def Let_def split: prod.split)
qed

text \<open>
  C5. A sequential schedule makes progress. When the child of an action of a running sequential schedule has ended, for whatever
  reason and with whatever system calls failing, and the next action of the schedule can be started, \<^const>\<open>cleanup_child\<close>
  frees the pid, forks the next action and leaves the schedule running, unless the schedule was stopped.
\<close>

theorem sequential_schedule_goes_on:
  assumes found: "find_action_by_pid (lm_schedules l) pid = Some (i, j)" and st: "st \<noteq> Stopped"
    and s: "s = lm_schedules l ! i" "sched_mode s = Sequential" "sched_state s = Running"
      "\<not> flag_on (sched_flags s) LMAP_SCHEDULE_FLAG_STOP_RUNNING"
    and a: "act_name (sched_actions s ! j) \<noteq> None" "act_workspace (sched_actions s ! j) \<noteq> None"
    and next': "j + 1 < length (sched_actions s)" "startable l (sched_actions s ! (j + 1))"
    and fork: "os_forks w = p # ps" "0 < p"
  shows "\<exists>l' w' s'. cleanup_child en (pid, st) (l, w) = Inr (l', w') \<and> s' = lm_schedules l' ! i
    \<and> act_pid (sched_actions s' ! j) = 0
    \<and> act_pid (sched_actions s' ! (j + 1)) = p \<and> act_state (sched_actions s' ! (j + 1)) = Running
    \<and> sched_state s' = Running \<and> map ch_pid (os_started w') = map ch_pid (os_started w) @ [p]"
proof -
  let ?ss = "lm_schedules l"
  note ij = find_action_by_pid_Some [OF found, folded s(1)]
  obtain b w1 where b: "finish_action en ?ss i s st (sched_actions s ! j) w = Inr (b, w1)"
    using finish_action_total [OF a] by blast
  let ?s1 = "s\<lparr>sched_actions := (sched_actions s)[j := b]\<rparr>"
  have w1: "os_forks w1 = p # ps" "os_started w1 = os_started w"
    using finish_action_keeps (1) [OF b] fork by (simp_all add: fs_only_def)
  have nth: "sched_actions ?s1 ! (j + 1) = sched_actions s ! (j + 1)" by simp
  obtain c w2 where c: "action_exec en l ?s1 (sched_actions s ! (j + 1)) w1 = (1, c, w2)" "act_pid c = p"
    "act_state c = Running" "map ch_pid (os_started w2) = map ch_pid (os_started w) @ [p]"
    using startable_exec [OF next'(2) w1(1), of en ?s1] fork(2) w1(2) by auto
  let ?s2 = "?s1\<lparr>sched_actions := (sched_actions s)[j := b, j + 1 := c]\<rparr>"
  have x: "exec_next en l j ?s1 w1 = (?s2, w2)"
    using next'(1) s c(1) nth by (simp add: exec_next_def)
  have "c \<in> set (sched_actions ?s2)"
    using next'(1) by (simp add: set_update_memI)
  then have "list_ex (\<lambda>a. act_state a = Running) (sched_actions ?s2)" using c(3) by (auto simp: list_ex_iff)
  then have y: "finish_schedule en ?ss i ?s2 w2 = (?s2, w2)" by (simp add: finish_schedule_def)
  have "cleanup_child en (pid, st) (l, w) = Inr (with_schedules l (?ss[i := ?s2]), w2)"
    using st found b x y s(1) by (simp add: cleanup_child_def Let_def)
  moreover have "lm_schedules (with_schedules l (?ss[i := ?s2])) ! i = ?s2"
    using ij(1) by (simp add: with_schedules_def)
  moreover have "act_pid b = 0" by (rule finish_action_keeps (2) [OF b])
  ultimately show ?thesis
    using c ij(2) next'(1) s(3) by (intro exI [of _ "with_schedules l (?ss[i := ?s2])"] exI [of _ w2] exI [of _ ?s2]) simp
qed

definition seq_config :: lmap where
  "seq_config = run_config\<lparr>lm_schedules :=
     [lmap_schedule_new\<lparr>sched_name := Some ''s'', sched_mode := Sequential, sched_state := Running,
        sched_actions :=
          [lmap_action_new\<lparr>act_name := Some ''a'', act_task := Some ''ping'', act_workspace := Some ''q/s/a'',
             act_state := Running, act_pid := 7\<rparr>,
           lmap_action_new\<lparr>act_name := Some ''b'', act_task := Some ''ping'', act_workspace := Some ''q/s/b''\<rparr>]\<rparr>]\<rparr>"

theorem sequential_schedule_goes_on_witness:
  "\<exists>l' w' s'. cleanup_child run_env (7, Signaled 9) (seq_config, run_os) = Inr (l', w') \<and> s' = lm_schedules l' ! 0
    \<and> act_pid (sched_actions s' ! 0) = 0
    \<and> act_pid (sched_actions s' ! (0 + 1)) = 4242 \<and> act_state (sched_actions s' ! (0 + 1)) = Running
    \<and> sched_state s' = Running \<and> map ch_pid (os_started w') = map ch_pid (os_started run_os) @ [4242]"
  by (rule sequential_schedule_goes_on [OF _ _ refl, where ps = "[]"]) code_simp+

end
