(* ===== verification/Suppressions.thy ===== *)
theory Suppressions
  imports Run_States
begin

text \<open>
  The counters of active suppressions. Schedules and actions keep, each, the number of active suppressions whose tags match
  theirs; the contract of starting and ending one suppression on such an object is the locale \<open>suppressible\<close>, and
  the result of the theory is that along every run of the daemon the counters are right.
\<close>

section \<open>The contract of a suppression\<close>

definition counted :: "run_state \<Rightarrow> 32 word \<Rightarrow> nat \<Rightarrow> bool" where
  "counted st c n \<longleftrightarrow> c = of_nat n \<and> n < 2 ^ 32 \<and> (st = Suppressed \<longrightarrow> n \<noteq> 0)"

definition settled :: "run_state \<Rightarrow> nat \<Rightarrow> bool" where
  "settled st n \<longleftrightarrow> (st = Enabled \<longrightarrow> n = 0)"

lemma of_nat_0_32: "n < 2 ^ 32 \<Longrightarrow> (of_nat n :: 32 word) = 0 \<longleftrightarrow> n = 0"
  by (auto simp: word_of_nat_eq_0_iff dest: dvd_imp_le)

locale suppressible =
  fixes st :: "'a \<Rightarrow> run_state"
    and cnt :: "'a \<Rightarrow> 32 word"
    and start :: "'a \<Rightarrow> 'a"
    and stop :: "'a \<Rightarrow> 'a"
  assumes start_cnt: "cnt (start x) = cnt x + 1"
    and start_st: "st (start x) = Suppressed \<or> st (start x) = st x \<and> st x \<noteq> Enabled"
    and stop_cnt: "cnt (stop x) = (if cnt x \<noteq> 0 then cnt x - 1 else cnt x)"
    and stop_st: "st (stop x) = (if cnt (stop x) = 0 \<and> st x = Suppressed then Enabled else st x)"
begin

lemma counted_start: "counted (st x) (cnt x) n \<Longrightarrow> Suc n < 2 ^ 32 \<Longrightarrow> counted (st (start x)) (cnt (start x)) (Suc n)"
  by (simp add: counted_def start_cnt)

lemma settled_start: "settled (st (start x)) n"
  using start_st [of x] by (auto simp: settled_def)

lemma stop_counter: "counted (st x) (cnt x) (Suc n) \<Longrightarrow> cnt (stop x) = of_nat n"
  using of_nat_0_32 [of "Suc n"] by (auto simp: counted_def stop_cnt)

lemma counted_stop:
  assumes "counted (st x) (cnt x) (Suc n)"
  shows "counted (st (stop x)) (cnt (stop x)) n"
  using stop_counter [OF assms] stop_st [of x] assms of_nat_0_32 [of n] by (auto simp: counted_def split: if_splits)

lemma settled_stop:
  assumes "counted (st x) (cnt x) (Suc n)" "settled (st x) (Suc n)"
  shows "settled (st (stop x)) n"
  using stop_counter [OF assms(1)] stop_st [of x] assms of_nat_0_32 [of n]
  by (auto simp: counted_def settled_def split: if_splits)

lemma start_disabled: "st x \<noteq> Disabled \<Longrightarrow> st (start x) \<noteq> Disabled"
  using start_st [of x] by auto

lemma stop_disabled: "st (stop x) = Disabled \<longleftrightarrow> st x = Disabled"
  using stop_st [of x] by auto

end

interpretation sup_sched: suppressible sched_state sched_cnt_active_suppressions "schedule_suppress p" schedule_unsuppress
  for p
  by unfold_locales (auto simp: schedule_suppress_def schedule_unsuppress_def Let_def)

interpretation sup_act: suppressible act_state act_cnt_active_suppressions "action_suppress p fl" action_unsuppress
  for p fl
  by unfold_locales (auto simp: action_suppress_def action_unsuppress_def Let_def)

section \<open>How many active suppressions match\<close>

definition matches :: "libc \<Rightarrow> supp \<Rightarrow> tag list \<Rightarrow> bool" where
  "matches lc p tags \<longleftrightarrow> big_tag_match lc (supp_match p) tags = Inr True"

definition active_count :: "libc \<Rightarrow> supp list \<Rightarrow> tag list \<Rightarrow> nat" where
  "active_count lc ps tags = length (filter (\<lambda>p. supp_state p = Supp_Active \<and> matches lc p tags) ps)"

definition action_counted :: "(tag list \<Rightarrow> nat) \<Rightarrow> action \<Rightarrow> bool" where
  "action_counted f a \<longleftrightarrow>
     (if act_state a = Disabled then act_pid a = 0
      else counted (act_state a) (act_cnt_active_suppressions a) (f (act_suppression_tags a)))"

definition schedule_counted :: "(tag list \<Rightarrow> nat) \<Rightarrow> schedule \<Rightarrow> bool" where
  "schedule_counted f s \<longleftrightarrow>
     (sched_state s \<noteq> Disabled \<longrightarrow>
        counted (sched_state s) (sched_cnt_active_suppressions s) (f (sched_suppression_tags s))
        \<and> settled (sched_state s) (f (sched_suppression_tags s))
        \<and> list_all (action_counted f) (sched_actions s))"

definition one_more :: "libc \<Rightarrow> supp \<Rightarrow> (tag list \<Rightarrow> nat) \<Rightarrow> tag list \<Rightarrow> nat" where
  "one_more lc p f tags = f tags + (if matches lc p tags then 1 else 0)"

lemma one_more_simps [simp]:
  "matches lc p tags \<Longrightarrow> one_more lc p f tags = Suc (f tags)"
  "\<not> matches lc p tags \<Longrightarrow> one_more lc p f tags = f tags"
  by (simp_all add: one_more_def)

lemma active_count_Cons:
  "active_count lc (A @ p # B) =
     (if supp_state p = Supp_Active then one_more lc p (active_count lc (A @ B)) else active_count lc (A @ B))"
  by (rule ext) (auto simp: active_count_def one_more_def)

lemma active_count_less: "length ps < 2 ^ 32 \<Longrightarrow> active_count lc ps tags < 2 ^ 32"
  unfolding active_count_def using length_filter_le [of _ ps] by (rule le_less_trans)

lemma omap_list_all:
  assumes "\<And>x w y w'. Q x \<Longrightarrow> f x w = Inr (y, w') \<Longrightarrow> Q' y"
  shows "omap f xs w = Inr (ys, w') \<Longrightarrow> list_all Q xs \<Longrightarrow> list_all Q' ys"
proof (induction xs arbitrary: w ys)
  case (Cons x xs)
  then obtain y w1 zs where "f x w = Inr (y, w1)" "omap f xs w1 = Inr (zs, w')" "ys = y # zs"
    by (auto simp: obind_Inr)
  with Cons.IH Cons.prems(2) assms show ?case by auto
qed simp

section \<open>Starting and ending a suppression\<close>

lemma suppress_action_counted:
  assumes "suppress_action en p fl a w = Inr (a', w')" "action_counted f a" "\<forall>t. Suc (f t) < 2 ^ 32"
  shows "action_counted (one_more (en_libc en) p f) a'"
proof (cases "act_state a = Disabled")
  case True
  with assms show ?thesis by (simp add: suppress_action_def action_counted_def)
next
  case False
  from suppress_action_Inr [OF assms(1) False] obtain b where
    b: "big_tag_match (en_libc en) (supp_match p) (act_suppression_tags a) = Inr b"
    and a': "a' = (if b then action_suppress p fl a else a)" by blast
  have c: "counted (act_state a) (act_cnt_active_suppressions a) (f (act_suppression_tags a))"
    using assms(2) False by (simp add: action_counted_def)
  show ?thesis
  proof (cases b)
    case True
    then have "matches (en_libc en) p (act_suppression_tags a)" using b by (simp add: matches_def)
    moreover have "act_suppression_tags a' = act_suppression_tags a" using a' True by (simp add: action_suppress_def)
    ultimately show ?thesis
      using sup_act.counted_start [OF c] sup_act.start_disabled [OF \<open>act_state a \<noteq> Disabled\<close>] assms(3) a' True
      by (simp add: action_counted_def)
  next
    case False
    then have "\<not> matches (en_libc en) p (act_suppression_tags a)" using b by (simp add: matches_def)
    with c a' False \<open>act_state a \<noteq> Disabled\<close> show ?thesis by (simp add: action_counted_def)
  qed
qed

lemma unsuppress_action_counted:
  assumes "unsuppress_action en p a w = Inr (a', w')" "action_counted (one_more (en_libc en) p f) a"
  shows "action_counted f a'"
proof (cases "act_state a = Disabled")
  case True
  with assms show ?thesis by (simp add: unsuppress_action_def action_counted_def)
next
  case False
  obtain b where b: "big_tag_match (en_libc en) (supp_match p) (act_suppression_tags a) = Inr b"
    using assms(1) False by (cases "big_tag_match (en_libc en) (supp_match p) (act_suppression_tags a)")
      (simp_all add: unsuppress_action_def)
  then have a': "a' = (if b then action_unsuppress a else a)"
    using assms(1) False by (simp add: unsuppress_action_def)
  have c: "counted (act_state a) (act_cnt_active_suppressions a)
      (one_more (en_libc en) p f (act_suppression_tags a))"
    using assms(2) False by (simp add: action_counted_def)
  show ?thesis
  proof (cases b)
    case True
    then have "matches (en_libc en) p (act_suppression_tags a)" using b by (simp add: matches_def)
    moreover have "act_suppression_tags a' = act_suppression_tags a"
      using a' True by (simp add: action_unsuppress_def Let_def)
    ultimately show ?thesis
      using sup_act.counted_stop c a' True sup_act.stop_disabled [of a] \<open>act_state a \<noteq> Disabled\<close>
      by (simp add: action_counted_def)
  next
    case False
    then have "\<not> matches (en_libc en) p (act_suppression_tags a)" using b by (simp add: matches_def)
    with c a' False \<open>act_state a \<noteq> Disabled\<close> show ?thesis by (simp add: action_counted_def)
  qed
qed

lemma suppression_tags_simps [simp]:
  "sched_suppression_tags (schedule_suppress p s) = sched_suppression_tags s"
  "sched_suppression_tags (schedule_unsuppress s) = sched_suppression_tags s"
  by (simp_all add: schedule_suppress_def schedule_unsuppress_def Let_def)

lemma suppress_schedule_counted:
  assumes "suppress_schedule en p s w = Inr (s', w')" "schedule_counted f s" "\<forall>t. Suc (f t) < 2 ^ 32"
  shows "schedule_counted (one_more (en_libc en) p f) s'"
proof (cases "sched_state s = Disabled")
  case True
  with assms show ?thesis by (simp add: suppress_schedule_def schedule_counted_def)
next
  case False
  from suppress_schedule_Inr [OF assms(1) False] obtain b as fl where
    b: "big_tag_match (en_libc en) (supp_match p) (sched_suppression_tags s) = Inr b"
    and o: "omap (suppress_action en p fl) (sched_actions s) w = Inr (as, w')"
    and s': "s' = (if b then schedule_suppress p s else s)\<lparr>sched_actions := as\<rparr>"
    by blast
  have c: "counted (sched_state s) (sched_cnt_active_suppressions s) (f (sched_suppression_tags s))"
    "settled (sched_state s) (f (sched_suppression_tags s))" "list_all (action_counted f) (sched_actions s)"
    using assms(2) False by (simp_all add: schedule_counted_def)
  have as: "list_all (action_counted (one_more (en_libc en) p f)) as"
    by (rule omap_list_all [OF _ o c(3)], rule suppress_action_counted [OF _ _ assms(3)])
  show ?thesis
  proof (cases b)
    case True
    then have "matches (en_libc en) p (sched_suppression_tags s)" using b by (simp add: matches_def)
    with sup_sched.counted_start [OF c(1)] assms(3) s' True as show ?thesis
      by (simp add: schedule_counted_def sup_sched.settled_start)
  next
    case False
    then have "\<not> matches (en_libc en) p (sched_suppression_tags s)" using b by (simp add: matches_def)
    with c s' False as show ?thesis by (simp add: schedule_counted_def)
  qed
qed

lemma unsuppress_schedule_counted:
  assumes "unsuppress_schedule en p s w = Inr (s', w')" "schedule_counted (one_more (en_libc en) p f) s"
  shows "schedule_counted f s'"
proof (cases "sched_state s = Disabled")
  case True
  with assms show ?thesis by (simp add: unsuppress_schedule_def schedule_counted_def)
next
  case False
  from unsuppress_schedule_Inr [OF assms(1) False] obtain b as where
    b: "big_tag_match (en_libc en) (supp_match p) (sched_suppression_tags s) = Inr b"
    and o: "omap (unsuppress_action en p) (sched_actions s) w = Inr (as, w')"
    and s': "s' = (if b then schedule_unsuppress s else s)\<lparr>sched_actions := as\<rparr>"
    by blast
  let ?g = "one_more (en_libc en) p f"
  have c: "counted (sched_state s) (sched_cnt_active_suppressions s) (?g (sched_suppression_tags s))"
    "settled (sched_state s) (?g (sched_suppression_tags s))" "list_all (action_counted ?g) (sched_actions s)"
    using assms(2) False by (simp_all add: schedule_counted_def)
  have as: "list_all (action_counted f) as"
    by (rule omap_list_all [OF _ o c(3)], rule unsuppress_action_counted)
  show ?thesis
  proof (cases b)
    case True
    then have "matches (en_libc en) p (sched_suppression_tags s)" using b by (simp add: matches_def)
    with sup_sched.counted_stop sup_sched.settled_stop c s' True as show ?thesis
      by (simp add: schedule_counted_def)
  next
    case False
    then have "\<not> matches (en_libc en) p (sched_suppression_tags s)" using b by (simp add: matches_def)
    with c s' False as show ?thesis by (simp add: schedule_counted_def)
  qed
qed
definition supps_counted :: "libc \<Rightarrow> supp list \<Rightarrow> schedule list \<Rightarrow> bool" where
  "supps_counted lc ps ss \<longleftrightarrow>
     list_all (schedule_counted (active_count lc ps)) ss
     \<and> list_all (\<lambda>p. supp_state p = Supp_Active \<longrightarrow> supp_name p \<noteq> None) ps \<and> length ps < 2 ^ 32"

lemma matches_update [simp]: "matches lc (p\<lparr>supp_state := x\<rparr>) = matches lc p"
  by (simp add: matches_def fun_eq_iff)

lemma one_more_update [simp]: "one_more lc (p\<lparr>supp_state := x\<rparr>) = one_more lc p"
  by (simp add: one_more_def fun_eq_iff)

lemma suppression_start_counted:
  assumes "suppression_start en p ss w = Inr (p', z)" "supp_state p = Supp_Enabled"
    "supps_counted (en_libc en) (A @ p # B) ss"
  shows "supps_counted (en_libc en) (A @ p' # B) (fst z)"
proof (cases "supp_match p = [] \<or> supp_name p = None")
  case True
  with assms show ?thesis by (auto simp: suppression_start_def)
next
  case False
  let ?f = "active_count (en_libc en) (A @ B)"
  from assms(1) False have o: "omap (suppress_schedule en p) ss w = Inr (fst z, snd z)"
    and p': "p' = p\<lparr>supp_state := Supp_Active\<rparr>"
    by (auto simp: suppression_start_def obind_Inr)
  have "list_all (schedule_counted ?f) ss" "length (A @ p # B) < 2 ^ 32"
    using assms(2,3) by (simp_all add: supps_counted_def active_count_Cons)
  moreover from this(2) have "\<forall>t. Suc (?f t) < 2 ^ 32"
    using length_filter_le [of _ "A @ B"] unfolding active_count_def
    by (metis (no_types, lifting) Suc_le_mono add_Suc_right le_less_trans length_Cons length_append)
  ultimately have "list_all (schedule_counted (one_more (en_libc en) p ?f)) (fst z)"
    using suppress_schedule_counted by (intro omap_list_all [OF _ o])
  then show ?thesis using assms(3) False by (simp add: p' supps_counted_def active_count_Cons)
qed

lemma suppression_end_counted:
  assumes "suppression_end en p ss w = Inr (p', z)" "supp_state p = Supp_Active"
    "supps_counted (en_libc en) (A @ p # B) ss"
  shows "supps_counted (en_libc en) (A @ p' # B) (fst z)"
proof (cases "supp_match p = [] \<or> supp_name p = None")
  case True
  with assms show ?thesis by (auto simp: suppression_end_def)
next
  case False
  let ?f = "active_count (en_libc en) (A @ B)"
  from assms(1) False have o: "omap (unsuppress_schedule en p) ss w = Inr (fst z, snd z)"
    and p': "p' = p\<lparr>supp_state := Supp_Enabled\<rparr>"
    by (auto simp: suppression_end_def obind_Inr)
  have "list_all (schedule_counted (one_more (en_libc en) p ?f)) ss"
    using assms(2,3) by (simp add: supps_counted_def active_count_Cons)
  then have "list_all (schedule_counted ?f) (fst z)"
    using unsuppress_schedule_counted by (intro omap_list_all [OF _ o])
  then show ?thesis using assms(3) False by (simp add: p' supps_counted_def active_count_Cons)
qed

lemma suppress_one_counted:
  assumes "suppress_one en e p x = Inr (p', y)" "supps_counted (en_libc en) (A @ p # B) (fst x)"
  shows "supps_counted (en_libc en) (A @ p' # B) (fst y)"
proof (cases "supp_state p = Supp_Disabled \<or> supp_name p = None")
  case True
  then have "fst y = fst x" "p' = p \<or> (p' = p\<lparr>supp_state := Supp_Disabled\<rparr> \<and> supp_name p = None)"
    using assms(1) by (auto simp: suppress_one_def split: if_splits prod.splits)
  with assms(2) show ?thesis by (auto simp: supps_counted_def active_count_Cons)
next
  case False
  from suppress_one_Inr [OF assms(1) False] obtain b b2 p1 z where
    1: "(if b \<and> supp_state p = Supp_Enabled then suppression_start en p (fst x) (snd x) else Inr (p, x)) = Inr (p1, z)"
    and 2: "(if b2 \<and> supp_state p1 = Supp_Active then suppression_end en p1 (fst z) (snd z) else Inr (p1, z))
        = Inr (p', y)"
    by blast
  have "supps_counted (en_libc en) (A @ p1 # B) (fst z)"
  proof (cases "b \<and> supp_state p = Supp_Enabled")
    case True
    with 1 assms(2) suppression_start_counted show ?thesis by simp
  qed (use 1 assms(2) in auto)
  then show ?thesis
  proof (cases "b2 \<and> supp_state p1 = Supp_Active")
    case True
    with 2 \<open>supps_counted _ (A @ p1 # B) _\<close> suppression_end_counted show ?thesis by simp
  qed (use 2 in auto)
qed

lemma suppress_all_counted:
  "omap (suppress_one en e) ps x = Inr (ps', y) \<Longrightarrow> supps_counted (en_libc en) (A @ ps) (fst x)
   \<Longrightarrow> supps_counted (en_libc en) (A @ ps') (fst y)"
proof (induction ps arbitrary: A x ps')
  case (Cons p ps)
  then obtain p1 z qs where 1: "suppress_one en e p x = Inr (p1, z)"
    and 2: "omap (suppress_one en e) ps z = Inr (qs, y)" and ps': "ps' = p1 # qs"
    by (auto simp: obind_Inr)
  from suppress_one_counted [OF 1 Cons.prems(2)] have "supps_counted (en_libc en) ((A @ [p1]) @ ps) (fst z)"
    by simp
  from Cons.IH [OF 2 this] ps' show ?case by simp
qed simp

section \<open>Running and reaping\<close>

text \<open>What starting or not starting an action leaves of it.\<close>

definition exec_step :: "action \<Rightarrow> action \<Rightarrow> bool" where
  "exec_step a a' \<longleftrightarrow>
     act_suppression_tags a' = act_suppression_tags a
     \<and> act_cnt_active_suppressions a' = act_cnt_active_suppressions a
     \<and> (act_state a' = act_state a \<and> act_pid a' = act_pid a
          \<or> act_state a \<noteq> Disabled \<and> act_state a' \<in> {Running, Enabled})"

lemma exec_step_counted: "exec_step a a' \<Longrightarrow> action_counted f a \<Longrightarrow> action_counted f a'"
  by (auto simp: exec_step_def action_counted_def counted_def)

lemma exec_step_action_exec:
  assumes "action_exec en l s a w = (rc, a', w')"
  shows "exec_step a a'"
proof (cases "rc = 1")
  case True
  with assms action_exec_started [of en l s a w a' w'] show ?thesis by (auto simp: exec_step_def)
next
  case False
  have e: "a' = a\<lparr>act_cnt_suppressions := act_cnt_suppressions a', act_cnt_overlaps := act_cnt_overlaps a'\<rparr>"
    using action_exec_refused [OF assms False] by blast
  show ?thesis
    using arg_cong [OF e, of act_suppression_tags] arg_cong [OF e, of act_cnt_active_suppressions]
      arg_cong [OF e, of act_state] arg_cong [OF e, of act_pid]
    by (simp add: exec_step_def)
qed

lemma exec_actions_counted:
  "exec_actions en l s as w = (b, as', w') \<Longrightarrow> list_all (action_counted f) as \<Longrightarrow> list_all (action_counted f) as'"
proof (induction as arbitrary: b as' w)
  case (Cons a as)
  obtain rc a1 w1 where 1: "action_exec en l s a w = (rc, a1, w1)" using prod_cases3 by blast
  obtain b2 as2 w2 where 2: "exec_actions en l s as w1 = (b2, as2, w2)" using prod_cases3 by blast
  from Cons.prems 1 2 have "as' = a1 # as2" "w2 = w'" by auto
  with Cons.IH 2 Cons.prems(2) exec_step_counted [OF exec_step_action_exec [OF 1]] show ?case by auto
qed simp

definition sched_step :: "schedule \<Rightarrow> schedule \<Rightarrow> bool" where
  "sched_step s s' \<longleftrightarrow>
     sched_suppression_tags s' = sched_suppression_tags s
     \<and> sched_cnt_active_suppressions s' = sched_cnt_active_suppressions s
     \<and> sched_flags s' = sched_flags s
     \<and> (sched_state s' = sched_state s \<or> sched_state s' \<in> {Running, Disabled} \<and> sched_state s \<noteq> Disabled)
     \<and> (\<forall>f. list_all (action_counted f) (sched_actions s) \<longrightarrow> list_all (action_counted f) (sched_actions s'))"

lemma sched_step_counted: "sched_step s s' \<Longrightarrow> schedule_counted f s \<Longrightarrow> schedule_counted f s'"
  by (auto simp: sched_step_def schedule_counted_def counted_def settled_def)

lemma sched_step_refl [simp]: "sched_step s s"
  by (simp add: sched_step_def)

lemma schedule_exec_step:
  assumes "schedule_exec en l s w = (s', w')" "sched_state s \<noteq> Disabled"
  shows "sched_step s s'"
proof (cases "sched_name s")
  case None
  with assms show ?thesis by (simp add: schedule_exec_def)
next
  case (Some n)
  let ?w = "fold (action_clean_os en) (sched_actions s) w"
  let ?s = "s\<lparr>sched_last_invocation := en_now en, sched_cnt_invocations := sched_cnt_invocations s + 1\<rparr>"
  show ?thesis
  proof (cases "sched_mode s")
    case Sequential
    show ?thesis
    proof (cases "sched_actions s")
      case Nil
      with Some Sequential assms show ?thesis by (auto simp: schedule_exec_def Let_def sched_step_def)
    next
      case (Cons a as)
      obtain rc a' w2 where x: "action_exec en l ?s a ?w = (rc, a', w2)" using prod_cases3 by blast
      have "s' = ?s\<lparr>sched_actions := a' # as, sched_state := (if rc = 1 then Running else sched_state s)\<rparr>"
        using assms(1) Some Sequential Cons x by (auto simp: schedule_exec_def Let_def)
      with Cons assms(2) exec_step_counted [OF exec_step_action_exec [OF x]] show ?thesis
        by (simp add: sched_step_def)
    qed
  next
    case Parallel
    obtain b as' w2 where x: "exec_actions en l ?s (sched_actions s) ?w = (b, as', w2)" using prod_cases3 by blast
    have "s' = ?s\<lparr>sched_actions := as', sched_state := (if b then Running else sched_state s)\<rparr>"
      using assms(1) Some Parallel x by (auto simp: schedule_exec_def Let_def)
    with exec_actions_counted [OF x] assms(2) show ?thesis by (simp add: sched_step_def)
  next
    case Pipelined
    with Some assms show ?thesis by (auto simp: schedule_exec_def Let_def sched_step_def)
  qed
qed

lemma start_schedule_step:
  assumes "start_schedule en l e s w = (d, s', w')" "sched_state s \<noteq> Disabled"
  shows "sched_step s s'"
proof (cases "sched_state s = Suppressed \<or> sched_state s = Running")
  case True
  with assms show ?thesis by (auto simp: start_schedule_def sched_step_def split: if_splits)
next
  case False
  let ?s = "s\<lparr>sched_cycle_number := cycle_number_at en e\<rparr>"
  let ?w = "w\<lparr>os_fs := snd (lmapd_workspace_schedule_move (en_refuse en) (Some ?s) (os_fs w))\<rparr>"
  obtain s2 w2 where x: "schedule_exec en l ?s ?w = (s2, w2)" by fastforce
  have "sched_step ?s s2" by (rule schedule_exec_step [OF x]) (use assms(2) in simp)
  moreover have "s' = (if once_only (ev_type e) then s2\<lparr>sched_state := Disabled\<rparr> else s2)"
    using assms False x by (simp add: start_schedule_def Let_def)
  ultimately show ?thesis using assms(2) by (auto simp: sched_step_def)
qed

lemma execute_schedule_step:
  assumes "execute_schedule en l e s x = Inr (s', y)"
  shows "sched_step s s'"
proof -
  from execute_schedule_Inr [OF assms] obtain d w1 where
    "(if sched_state s = Disabled then Inr (False, s, snd x)
      else if sched_name s = None then Inr (False, s\<lparr>sched_state := Disabled\<rparr>, snd x)
      else obind (on_event (sched_start s) e)
             (\<lambda>b. Inr (if b then start_schedule en l e s (snd x) else (False, s, snd x)))) = Inr (d, s', w1)"
    by auto
  then show ?thesis
    using start_schedule_step [of en l e s "snd x" d s' w1]
    by (auto simp: obind_Inr sched_step_def split: if_splits)
qed
lemma exec_step_finish_action:
  assumes "finish_action en ss i s st a w = Inr (a', w')" "act_state a \<noteq> Disabled"
  shows "exec_step a a'"
proof -
  let ?a = "action_ended en st a"
  obtain x f where x: "lmapd_workspace_action_meta_add_end (en_refuse en) s ?a (os_fs w) = Inr (x, f)"
    using assms by (auto simp: finish_action_def obind_Inr Let_def)
  obtain d w2 where d: "(if act_last_status ?a = 0
      then move_or_defer en ss i s ?a (act_destinations ?a) (w\<lparr>os_fs := f\<rparr>) else (False, w\<lparr>os_fs := f\<rparr>)) = (d, w2)"
    by fastforce
  have "a' = ?a \<or> a' = ?a\<lparr>act_flags := flag_set (act_flags ?a) LMAP_ACTION_FLAG_MOVEDEFERRED\<rparr>"
    using assms x d by (auto simp: finish_action_def Let_def split: if_splits)
  then show ?thesis using assms(2) by (auto simp: exec_step_def action_ended_def Let_def)
qed

lemma list_all_upd: "list_all Q xs \<Longrightarrow> (i < length xs \<Longrightarrow> Q y) \<Longrightarrow> list_all Q (xs[i := y])"
  by (cases "i < length xs") (auto simp: list_all_length nth_list_update)

lemma exec_next_counted:
  assumes "exec_next en l j s w = (s', w')" "list_all (action_counted f) (sched_actions s)"
  shows "\<exists>as. s' = s\<lparr>sched_actions := as\<rparr> \<and> list_all (action_counted f) as"
proof (cases "j + 1 < length (sched_actions s) \<and> sched_mode s = Sequential \<and> sched_state s \<noteq> Suppressed
         \<and> \<not> flag_on (sched_flags s) LMAP_SCHEDULE_FLAG_STOP_RUNNING")
  case True
  obtain rc a w1 where x: "action_exec en l s (sched_actions s ! (j + 1)) w = (rc, a, w1)"
    using prod_cases3 by blast
  have "action_counted f a"
    using exec_step_counted [OF exec_step_action_exec [OF x]] assms(2) True by (simp add: list_all_length)
  with assms x True show ?thesis by (auto simp: exec_next_def intro: list_all_upd)
next
  case False
  with assms have "s' = s\<lparr>sched_actions := sched_actions s\<rparr>" by (auto simp: exec_next_def split: if_splits)
  with assms(2) show ?thesis by blast
qed

definition finished :: "schedule \<Rightarrow> schedule" where
  "finished s =
     (if sched_state s = Running \<and> \<not> list_ex (\<lambda>a. act_state a = Running) (sched_actions s)
      then s\<lparr>sched_state := (if sched_cnt_active_suppressions s \<noteq> 0 then Suppressed else Enabled)\<rparr> else s)"

lemma finished_simps [simp]:
  "sched_actions (finished s) = sched_actions s" "sched_suppression_tags (finished s) = sched_suppression_tags s"
  "sched_cnt_active_suppressions (finished s) = sched_cnt_active_suppressions s"
  by (simp_all add: finished_def)

lemma finished_counted:
  assumes "schedule_counted f s"
  shows "schedule_counted f (finished s)"
proof (cases "finished s = s")
  case False
  then have r: "sched_state s = Running"
    and f: "sched_state (finished s) = (if sched_cnt_active_suppressions s \<noteq> 0 then Suppressed else Enabled)"
    by (auto simp: finished_def split: if_splits)
  with assms of_nat_0_32 [of "f (sched_suppression_tags s)"] show ?thesis
    by (auto simp: schedule_counted_def counted_def settled_def)
qed (use assms in simp)

lemma finish_schedule_counted:
  assumes "finish_schedule en ss i s w = (s', w')" "schedule_counted f s"
  shows "schedule_counted f s'"
proof -
  obtain as w1 where fa: "finish_actions en ss i (finished s) (sched_actions s) w = (as, w1)" by fastforce
  have as: "list_all (action_counted f) as" if "list_all (action_counted f) (sched_actions s)"
    using finish_actions_keeps [OF fa] that by (simp add: list_all_iff action_counted_def)
  have "finish_schedule en ss i s w =
    (if list_ex (\<lambda>a. act_state a = Running) (sched_actions s) then (finished s, w)
     else if list_ex (\<lambda>a. act_last_status a = 0) (sched_actions s)
     then ((finished s)\<lparr>sched_actions := as\<rparr>, w1\<lparr>os_fs := snd (lmapd_workspace_schedule_clean (en_refuse en)
             (Some ((finished s)\<lparr>sched_actions := as\<rparr>)) (os_fs w1))\<rparr>)
     else ((finished s)\<lparr>sched_actions := as, sched_cnt_failures := sched_cnt_failures (finished s) + 1\<rparr>, w1))"
    using fa unfolding finish_schedule_def Let_def finished_def [symmetric] by simp
  with assms(1) have "s' = finished s \<or> (\<exists>n. s' = (finished s)\<lparr>sched_actions := as, sched_cnt_failures := n\<rparr>)
      \<or> s' = (finished s)\<lparr>sched_actions := as\<rparr>"
    by (auto split: if_splits)
  then show ?thesis
    using finished_counted [OF assms(2)] as by (elim disjE exE) (simp_all add: schedule_counted_def)
qed

lemma cleanup_child_counted:
  assumes "cleanup_child en (pid, st) (l, w) = Inr (l', w')" "pid \<noteq> 0"
    "list_all (schedule_counted f) (lm_schedules l)"
  shows "list_all (schedule_counted f) (lm_schedules l') \<and> lm_supps l' = lm_supps l"
  using cleanup_child_Inr [OF assms(1)]
proof (elim disjE exE conjE)
  fix i j a w1 s2 w2 s3
  let ?s = "lm_schedules l ! i"
  let ?s1 = "?s\<lparr>sched_actions := (sched_actions ?s)[j := a]\<rparr>"
  assume fi: "find_action_by_pid (lm_schedules l) pid = Some (i, j)"
    and a: "finish_action en (lm_schedules l) i ?s st (sched_actions ?s ! j) w = Inr (a, w1)"
    and x: "exec_next en l j ?s1 w1 = (s2, w2)"
    and y: "finish_schedule en (lm_schedules l) i s2 w2 = (s3, w')"
    and l': "l' = with_schedules l ((lm_schedules l)[i := s3])"
  note ij = find_action_by_pid_Some [OF fi]
  have s: "schedule_counted f ?s" using assms(3) ij(1) by (simp add: list_all_length)
  have "schedule_counted f s2"
  proof (cases "sched_state ?s = Disabled")
    case True
    moreover have "sched_state s2 = sched_state ?s"
      using x by (auto simp: exec_next_def split: if_splits prod.splits)
    ultimately show ?thesis by (simp add: schedule_counted_def)
  next
    case False
    then have as: "list_all (action_counted f) (sched_actions ?s)" using s by (simp add: schedule_counted_def)
    then have aj: "action_counted f (sched_actions ?s ! j)" using ij(2) by (simp add: list_all_length)
    then have "act_state (sched_actions ?s ! j) \<noteq> Disabled"
      using ij(3) assms(2) by (auto simp: action_counted_def)
    from exec_step_counted [OF exec_step_finish_action [OF a this] aj]
    have "list_all (action_counted f) (sched_actions ?s1)" using as by (simp add: list_all_upd)
    from exec_next_counted [OF x this] obtain bs where
      "s2 = ?s1\<lparr>sched_actions := bs\<rparr>" "list_all (action_counted f) bs" by blast
    with s show ?thesis by (simp add: schedule_counted_def)
  qed
  from finish_schedule_counted [OF y this] l' assms(3) show ?thesis
    by (simp add: with_schedules_def list_all_upd)
qed (use assms in simp)

section \<open>Along every run\<close>

definition suppression_inv :: "libc \<Rightarrow> lmapd \<times> os \<Rightarrow> bool" where
  "suppression_inv lc x \<longleftrightarrow>
     (\<exists>l. ld_lmap (fst x) = Some l \<and> supps_counted lc (lm_supps l) (lm_schedules l))"

lemma execute_all_counted:
  assumes "omap (execute_schedule en l e) ss x = Inr (ss', y)" "list_all (schedule_counted f) ss"
  shows "list_all (schedule_counted f) ss'"
  by (rule omap_list_all [OF _ assms], rule sched_step_counted [OF execute_schedule_step])

lemma suppression_inv_step:
  assumes "daemon_step lc x y" "suppression_inv lc x"
  shows "suppression_inv lc y"
  using assms
proof (induction rule: daemon_step.induct)
  case (Fire en d l k w d' w')
  have inv: "supps_counted lc (lm_supps l) (lm_schedules l)"
    using Fire.prems Fire.hyps(2) by (simp add: suppression_inv_def)
  from fire_cb_Inr [OF Fire.hyps(4,2)] obtain e ps ss w1 l1 ss' b where
    1: "omap (suppress_one en e) (lm_supps l) (lm_schedules l, w) = Inr (ps, ss, w1)"
    and 2: "omap (execute_schedule en l1 e) ss (False, w1) = Inr (ss', b, w')"
    and d': "ld_lmap d' = Some (l\<lparr>lm_supps := ps, lm_schedules := ss',
        lm_events := (lm_events l)[k := (lm_events l ! k)\<lparr>ev_fire_event := None\<rparr>]\<rparr>)"
    by blast
  have "supps_counted lc ps ss"
    using suppress_all_counted [OF 1, of "[]"] inv Fire.hyps(1) by simp
  with execute_all_counted [OF 2] d' show ?case by (simp add: suppression_inv_def supps_counted_def)
next
  case (Reap en d l pid st w l' w')
  then show ?case
    using cleanup_child_counted [OF Reap.hyps(5,3)] by (auto simp: suppression_inv_def supps_counted_def)
next
  case (Others d l d' l' w)
  have "list_all (schedule_counted f) (lm_schedules l') = list_all (schedule_counted f) (lm_schedules l)" for f
    by (rule same_runs_all [OF Others.hyps(3)])
      (simp add: schedule_counted_def action_counted_def run_part_def list_all_iff)
  with Others show ?case by (simp add: suppression_inv_def supps_counted_def same_runs_def)
qed (auto simp: suppression_inv_def)

lemma suppression_inv_reachable:
  "(daemon_step lc)\<^sup>*\<^sup>* x y \<Longrightarrow> suppression_inv lc x \<Longrightarrow> suppression_inv lc y"
  by (induction rule: rtranclp_induct) (auto intro: suppression_inv_step)

text \<open>A configuration as the readers leave it: nothing suppressed, no counter above 0, and a disabled action has no child.\<close>

definition unsuppressed_start :: "lmap \<Rightarrow> bool" where
  "unsuppressed_start l \<longleftrightarrow>
     list_all (\<lambda>p. supp_state p \<noteq> Supp_Active) (lm_supps l) \<and> length (lm_supps l) < 2 ^ 32
     \<and> list_all (\<lambda>s. sched_state s \<noteq> Suppressed \<and> sched_cnt_active_suppressions s = 0
          \<and> list_all (\<lambda>a. act_state a \<noteq> Suppressed \<and> act_cnt_active_suppressions a = 0 \<and> act_pid a = 0)
              (sched_actions s)) (lm_schedules l)"

lemma active_count_none: "list_all (\<lambda>p. supp_state p \<noteq> Supp_Active) ps \<Longrightarrow> active_count lc ps tags = 0"
  by (auto simp: active_count_def list_all_iff filter_empty_conv)

lemma suppression_inv_start: "unsuppressed_start l \<Longrightarrow> ld_lmap d = Some l \<Longrightarrow> suppression_inv lc (d, w)"
  by (auto simp: unsuppressed_start_def suppression_inv_def supps_counted_def schedule_counted_def
      action_counted_def counted_def settled_def list_all_iff active_count_none)

text \<open>
  C3. Suppressions are counted right. Along every run of the daemon, in every schedule that is not disabled, the counter of
  active suppressions is the number of active suppressions that match its tags; a suppressed schedule has one, and an
  enabled schedule has none, so a schedule is never started while a suppression that matches it is active. The
  counters of those of its actions that are not disabled are right too, and a suppressed action has a matching active suppression.
\<close>

theorem suppressions_counted:
  assumes "(daemon_step lc)\<^sup>*\<^sup>* (d0, w0) (d, w)" "ld_lmap d0 = Some l0" "unsuppressed_start l0"
  shows "\<exists>l. ld_lmap d = Some l
    \<and> (\<forall>s\<in>set (lm_schedules l). sched_state s \<noteq> Disabled \<longrightarrow>
         unat (sched_cnt_active_suppressions s) = active_count lc (lm_supps l) (sched_suppression_tags s)
         \<and> (sched_state s = Suppressed \<longrightarrow> active_count lc (lm_supps l) (sched_suppression_tags s) \<noteq> 0)
         \<and> (sched_state s = Enabled \<longrightarrow> active_count lc (lm_supps l) (sched_suppression_tags s) = 0)
         \<and> (\<forall>a\<in>set (sched_actions s). act_state a \<noteq> Disabled \<longrightarrow>
              unat (act_cnt_active_suppressions a) = active_count lc (lm_supps l) (act_suppression_tags a)
              \<and> (act_state a = Suppressed \<longrightarrow> active_count lc (lm_supps l) (act_suppression_tags a) \<noteq> 0)))"
proof -
  have "suppression_inv lc (d, w)"
    using suppression_inv_reachable [OF assms(1) suppression_inv_start [OF assms(3,2)]] .
  then obtain l where l: "ld_lmap d = Some l" "supps_counted lc (lm_supps l) (lm_schedules l)"
    by (auto simp: suppression_inv_def)
  have u: "counted st c n \<Longrightarrow> unat c = n" for st c n
    by (simp add: counted_def unsigned_of_nat take_bit_nat_eq_self)
  have "schedule_counted (active_count lc (lm_supps l)) s" if "s \<in> set (lm_schedules l)" for s
    using l(2) that by (simp add: supps_counted_def list_all_iff)
  then have sc: "counted (sched_state s) (sched_cnt_active_suppressions s)
        (active_count lc (lm_supps l) (sched_suppression_tags s))
      \<and> settled (sched_state s) (active_count lc (lm_supps l) (sched_suppression_tags s))
      \<and> (\<forall>a\<in>set (sched_actions s). action_counted (active_count lc (lm_supps l)) a)"
    if "s \<in> set (lm_schedules l)" "sched_state s \<noteq> Disabled" for s
    using that by (simp add: schedule_counted_def list_all_iff)
  have ac: "counted (act_state a) (act_cnt_active_suppressions a)
      (active_count lc (lm_supps l) (act_suppression_tags a))"
    if "s \<in> set (lm_schedules l)" "sched_state s \<noteq> Disabled" "a \<in> set (sched_actions s)" "act_state a \<noteq> Disabled"
    for s a
    using sc [OF that(1,2)] that(3,4) by (auto simp: action_counted_def)
  show ?thesis
  proof (intro exI [of _ l] conjI ballI impI)
    show "ld_lmap d = Some l" by (rule l(1))
  next
    fix s assume s: "s \<in> set (lm_schedules l)" "sched_state s \<noteq> Disabled"
    show "unat (sched_cnt_active_suppressions s) = active_count lc (lm_supps l) (sched_suppression_tags s)"
      using sc [OF s] u by blast
    show "active_count lc (lm_supps l) (sched_suppression_tags s) \<noteq> 0" if "sched_state s = Suppressed"
      using sc [OF s] that by (simp add: counted_def)
    show "active_count lc (lm_supps l) (sched_suppression_tags s) = 0" if "sched_state s = Enabled"
      using sc [OF s] that by (simp add: settled_def)
    fix a assume a: "a \<in> set (sched_actions s)" "act_state a \<noteq> Disabled"
    show "unat (act_cnt_active_suppressions a) = active_count lc (lm_supps l) (act_suppression_tags a)"
      using ac [OF s a] u by blast
    show "active_count lc (lm_supps l) (act_suppression_tags a) \<noteq> 0" if "act_state a = Suppressed"
      using ac [OF s a] that by (simp add: counted_def)
  qed
qed
section \<open>Examples\<close>

text \<open>
  A suppression of everything tagged \<open>slow...\<close> that starts with the event \<open>busy\<close>: the action of the schedule \<open>s\<close> carries
  such a tag, and so does the schedule \<open>t\<close>.
\<close>

definition sup_config :: lmap where
  "sup_config =
     lmap_new\<lparr>lm_capabilities := Some (lmap_capability_new\<lparr>cap_tasks := [run_task]\<rparr>), lm_tasks := [run_task],
       lm_events := [lmap_event_new\<lparr>ev_name := Some ''go'', ev_type := Periodic\<rparr>,
                     lmap_event_new\<lparr>ev_name := Some ''busy'', ev_type := Periodic\<rparr>],
       lm_supps := [lmap_supp_new\<lparr>supp_name := Some ''quiet'', supp_start := Some ''busy'',
                      supp_match := [Some ''slow*'']\<rparr>],
       lm_schedules :=
         [lmap_schedule_new\<lparr>sched_name := Some ''s'', sched_start := Some ''go'', sched_mode := Sequential,
            sched_workspace := Some ''q/s'',
            sched_actions := [lmap_action_new\<lparr>act_name := Some ''a'', act_task := Some ''ping'',
              act_suppression_tags := [Some ''slow-test''], act_workspace := Some ''q/s/a''\<rparr>]\<rparr>,
          lmap_schedule_new\<lparr>sched_name := Some ''t'', sched_start := Some ''go'', sched_mode := Sequential,
            sched_suppression_tags := [Some ''slow-test''], sched_workspace := Some ''q/t''\<rparr>]\<rparr>"

definition sup_start :: "lmapd \<times> os" where
  "sup_start = (lmapd_new\<lparr>ld_lmap := Some sup_config\<rparr>, \<lparr>os_fs = \<lparr>fs_dirs = (\<lambda>_. None), fs_data = (\<lambda>_. []), fs_next = 0\<rparr>,
     os_forks = [7, 8], os_signals = [], os_started = []\<rparr>)"

definition sup_env :: env where
  "sup_env = run_env\<lparr>en_now := 5\<rparr>"

definition sup_view ::
  "(lmapd \<times> os) outcome \<Rightarrow> run_state list \<times> 32 word list \<times> run_state list \<times> 32 word list \<times> int list \<Rightarrow> bool" where
  "sup_view r v =
     (case r of Inl _ \<Rightarrow> False
      | Inr (d, w) \<Rightarrow> (case ld_lmap d of None \<Rightarrow> False
          | Some l \<Rightarrow> v = (map sched_state (lm_schedules l), map sched_cnt_active_suppressions (lm_schedules l),
              map act_state (concat (map sched_actions (lm_schedules l))),
              map act_cnt_active_suppressions (concat (map sched_actions (lm_schedules l))),
              map ch_pid (os_started w))))"

lemma sup_view_reachable:
  assumes "sup_view (ofold (daemon_input sup_env) is sup_start) v"
  shows "\<exists>d w l. (daemon_step utc_libc)\<^sup>*\<^sup>* sup_start (d, w) \<and> ld_lmap d = Some l
    \<and> v = (map sched_state (lm_schedules l), map sched_cnt_active_suppressions (lm_schedules l),
           map act_state (concat (map sched_actions (lm_schedules l))),
           map act_cnt_active_suppressions (concat (map sched_actions (lm_schedules l))),
           map ch_pid (os_started w))"
proof -
  obtain d w where r: "ofold (daemon_input sup_env) is sup_start = Inr (d, w)"
    using assms unfolding sup_view_def by (auto split: sum.splits)
  from daemon_run_steps [OF r] have "(daemon_step utc_libc)\<^sup>*\<^sup>* sup_start (d, w)" by (simp add: sup_env_def run_env_def)
  moreover obtain l where "ld_lmap d = Some l"
    using assms r unfolding sup_view_def by (cases "ld_lmap d") auto
  ultimately show ?thesis
    using assms r unfolding sup_view_def by (intro exI [of _ d] exI [of _ w] exI [of _ l] conjI) auto
qed

lemma sup_example:
  "sup_view (ofold (daemon_input sup_env) [Event_Fires 0, Event_Fires 1] sup_start)
     ([Running, Suppressed], [0, 1], [Running], [1], [7])"
  by code_simp

lemma sup_unsuppressed: "unsuppressed_start sup_config"
  by (simp add: unsuppressed_start_def sup_config_def lmap_new_def lmap_supp_new_def lmap_schedule_new_def
      lmap_action_new_def)

theorem suppressions_counted_witness:
  "\<exists>d w l. (daemon_step utc_libc)\<^sup>*\<^sup>* sup_start (d, w) \<and> ld_lmap d = Some l
     \<and> map sched_state (lm_schedules l) = [Running, Suppressed]
     \<and> (\<forall>s\<in>set (lm_schedules l).
          unat (sched_cnt_active_suppressions s) = active_count utc_libc (lm_supps l) (sched_suppression_tags s))"
proof -
  from sup_view_reachable [OF sup_example] obtain d w l where
    r: "(daemon_step utc_libc)\<^sup>*\<^sup>* sup_start (d, w)" "ld_lmap d = Some l"
    and s: "map sched_state (lm_schedules l) = [Running, Suppressed]"
    unfolding prod.inject by (elim exE conjE) simp
  obtain d0 w0 where s0: "sup_start = (d0, w0)" by (rule prod.exhaust)
  have d0: "ld_lmap d0 = Some sup_config" using s0 by (auto simp: sup_start_def)
  from suppressions_counted [OF r(1) [unfolded s0] d0 sup_unsuppressed] r(2)
  have "\<forall>s\<in>set (lm_schedules l). sched_state s \<noteq> Disabled \<longrightarrow>
     unat (sched_cnt_active_suppressions s) = active_count utc_libc (lm_supps l) (sched_suppression_tags s)"
    by auto
  moreover have "Disabled \<notin> sched_state ` set (lm_schedules l)"
    using arg_cong [OF s, of set] by simp
  then have "\<forall>s\<in>set (lm_schedules l). sched_state s \<noteq> Disabled" by force
  ultimately show ?thesis using r s by (intro exI conjI) simp_all
qed

section \<open>Suppressed while running\<close>

text \<open>What \<open>cleanup_child\<close> leaves of the action whose child has ended.\<close>

lemma finish_schedule_action:
  assumes "finish_schedule en ss i s w = (s', w')" "j < length (sched_actions s)"
  shows "length (sched_actions s') = length (sched_actions s)"
    "\<exists>f. sched_actions s' ! j = (sched_actions s ! j)\<lparr>act_flags := f\<rparr>"
proof -
  obtain as w1 where f: "finish_actions en ss i (finished s) (sched_actions s) w = (as, w1)" by fastforce
  have "sched_actions s' = sched_actions s \<or> sched_actions s' = as"
    using assms(1) f unfolding finish_schedule_def Let_def finished_def [symmetric]
    by (auto split: if_splits)
  moreover have "as = map (\<lambda>a. a\<lparr>act_flags := flag_clear (act_flags a) LMAP_ACTION_FLAG_MOVEDEFERRED\<rparr>) (sched_actions s)"
    using finish_actions_keeps [OF f] by blast
  moreover have "\<exists>f. x = x\<lparr>act_flags := f\<rparr>" for x :: action by (rule exI [of _ "act_flags x"]) simp
  ultimately show "length (sched_actions s') = length (sched_actions s)"
    "\<exists>f. sched_actions s' ! j = (sched_actions s ! j)\<lparr>act_flags := f\<rparr>"
    using assms(2) by auto
qed

lemma exec_next_action:
  assumes "exec_next en l j s w = (s', w')"
  shows "length (sched_actions s') = length (sched_actions s)" "sched_actions s' ! j = sched_actions s ! j"
  using assms by (auto simp: exec_next_def split: if_splits prod.splits)

lemma cleanup_child_action:
  assumes "cleanup_child en (pid, st) (l, w) = Inr (l', w')" "st \<noteq> Stopped"
    "find_action_by_pid (lm_schedules l) pid = Some (i, j)"
    "act_state (sched_actions (lm_schedules l ! i) ! j) \<noteq> Disabled"
  shows "exec_step (sched_actions (lm_schedules l ! i) ! j) (sched_actions (lm_schedules l' ! i) ! j)"
    "act_state (sched_actions (lm_schedules l' ! i) ! j) = Enabled"
    "act_pid (sched_actions (lm_schedules l' ! i) ! j) = 0"
    "j < length (sched_actions (lm_schedules l' ! i))" "lm_supps l' = lm_supps l"
proof -
  let ?s = "lm_schedules l ! i"
  note ij = find_action_by_pid_Some [OF assms(3)]
  obtain a w1 where a: "finish_action en (lm_schedules l) i ?s st (sched_actions ?s ! j) w = Inr (a, w1)"
    using assms(1-3) by (auto simp: cleanup_child_def Let_def obind_Inr)
  let ?s1 = "?s\<lparr>sched_actions := (sched_actions ?s)[j := a]\<rparr>"
  obtain s2 w2 where x: "exec_next en l j ?s1 w1 = (s2, w2)" by fastforce
  obtain s3 w3 where y: "finish_schedule en (lm_schedules l) i s2 w2 = (s3, w3)" by fastforce
  have l': "l' = with_schedules l ((lm_schedules l)[i := s3])"
    using assms(1-3) a x y by (simp add: cleanup_child_def)
  have j: "j < length (sched_actions s2)" "sched_actions s2 ! j = a" using exec_next_action [OF x] ij by simp_all
  obtain f where f: "sched_actions s3 ! j = a\<lparr>act_flags := f\<rparr>" using finish_schedule_action (2) [OF y j(1)] j(2) by auto
  have s3: "lm_schedules l' ! i = s3" using l' ij(1) by (simp add: with_schedules_def)
  show "exec_step (sched_actions ?s ! j) (sched_actions (lm_schedules l' ! i) ! j)"
    using exec_step_finish_action [OF a assms(4)] by (simp add: s3 f exec_step_def)
  show "act_state (sched_actions (lm_schedules l' ! i) ! j) = Enabled" "act_pid (sched_actions (lm_schedules l' ! i) ! j) = 0"
    using finish_action_keeps [OF a] by (simp_all add: s3 f)
  show "j < length (sched_actions (lm_schedules l' ! i))" using finish_schedule_action (1) [OF y j(1)] j(1) by (simp add: s3)
  show "lm_supps l' = lm_supps l" by (simp add: l' with_schedules_def)
qed

lemma action_clean_forks [simp]: "os_forks (fold (action_clean_os en) as w) = os_forks w"
  by (induction as arbitrary: w) (simp_all add: action_clean_os_def)

lemma start_schedule_first:
  assumes "sched_state s = Enabled" "sched_mode s = Sequential" "sched_name s \<noteq> None" "sched_actions s = a # as"
    "startable l a" "os_forks w = p # ps" "0 < p"
  shows "\<exists>b s' w'. start_schedule en l e s w = (b, s', w') \<and> act_state (sched_actions s' ! 0) = Running
    \<and> act_pid (sched_actions s' ! 0) = p"
proof -
  let ?s = "s\<lparr>sched_cycle_number := cycle_number_at en e\<rparr>"
  let ?w = "w\<lparr>os_fs := snd (lmapd_workspace_schedule_move (en_refuse en) (Some ?s) (os_fs w))\<rparr>"
  let ?s1 = "?s\<lparr>sched_last_invocation := en_now en, sched_cnt_invocations := sched_cnt_invocations s + 1\<rparr>"
  let ?w1 = "fold (action_clean_os en) (a # as) ?w"
  have "os_forks ?w1 = p # ps" unfolding action_clean_forks using assms(6) by simp
  from startable_exec [OF assms(5) this] assms(7) obtain a' w' where
    "action_exec en l ?s1 a ?w1 = (1, a', w')" "act_pid a' = p" "act_state a' = Running" by (metis order_less_imp_le)
  then show ?thesis
    using assms(1-4) by (auto simp: start_schedule_def schedule_exec_def Let_def)
qed

text \<open>
  C37. What the counters are right about is not respected for actions. In whatever state the daemon has reached, when the child
  of an action ends that an active suppression matches, \<^const>\<open>lmapd_cleanup\<close> enables the action (a schedule would become
  suppressed), although the suppression is still active and the counter of the action says so. So if the schedule is sequential
  with this action first, the next event that starts the schedule starts the action, with the suppression still active.
\<close>

theorem suppressed_action_runs_again:
  assumes "(daemon_step lc)\<^sup>*\<^sup>* (d0, w0) (d, w)" "ld_lmap d0 = Some l0" "unsuppressed_start l0" "ld_lmap d = Some l"
    and "find_action_by_pid (lm_schedules l) pid = Some (i, j)" "pid \<noteq> 0" "st \<noteq> Stopped"
    and "sched_state (lm_schedules l ! i) \<noteq> Disabled"
    and "0 < active_count lc (lm_supps l) (act_suppression_tags (sched_actions (lm_schedules l ! i) ! j))"
    and "cleanup_child en (pid, st) (l, w) = Inr (l', w')"
  defines "s' \<equiv> lm_schedules l' ! i"
  defines "a' \<equiv> sched_actions s' ! j"
  shows "act_state a' = Enabled
    \<and> 0 < active_count lc (lm_supps l') (act_suppression_tags a')
    \<and> unat (act_cnt_active_suppressions a') = active_count lc (lm_supps l') (act_suppression_tags a')
    \<and> (\<forall>p ps en' e w2. j = 0 \<and> sched_state s' = Enabled \<and> sched_mode s' = Sequential \<and> sched_name s' \<noteq> None
         \<and> startable l' a' \<and> os_forks w2 = p # ps \<and> 0 < p \<longrightarrow>
         (\<exists>b s'' w3. start_schedule en' l' e s' w2 = (b, s'', w3) \<and> act_state (sched_actions s'' ! 0) = Running
            \<and> act_pid (sched_actions s'' ! 0) = p))"
proof -
  let ?a = "sched_actions (lm_schedules l ! i) ! j"
  note ij = find_action_by_pid_Some [OF assms(5)]
  have "suppression_inv lc (d, w)"
    using suppression_inv_reachable [OF assms(1) suppression_inv_start [OF assms(3,2)]] .
  then have "schedule_counted (active_count lc (lm_supps l)) (lm_schedules l ! i)"
    using assms(4) ij(1) by (simp add: suppression_inv_def supps_counted_def list_all_length)
  then have a: "action_counted (active_count lc (lm_supps l)) ?a"
    using assms(8) ij(2) by (simp add: schedule_counted_def list_all_length)
  then have "act_state ?a \<noteq> Disabled" using ij(3) assms(6) by (auto simp: action_counted_def)
  note c = cleanup_child_action [OF assms(10,7,5) this, folded s'_def, folded a'_def]
  have "action_counted (active_count lc (lm_supps l')) a'" using exec_step_counted [OF c(1) a] c(5) by simp
  then have "unat (act_cnt_active_suppressions a') = active_count lc (lm_supps l') (act_suppression_tags a')"
    using c(2) by (simp add: action_counted_def counted_def unsigned_of_nat take_bit_nat_eq_self)
  moreover have "0 < active_count lc (lm_supps l') (act_suppression_tags a')"
    using assms(9) c(1,5) by (simp add: exec_step_def)
  moreover have "sched_actions s' = a' # tl (sched_actions s')" if "j = 0"
    using c(4) that by (cases "sched_actions s'") (simp_all add: a'_def)
  ultimately show ?thesis using c(2) start_schedule_first by blast
qed

text \<open>The suppression starts while the child 7 is running; the child ends with success, and the event fires again.\<close>

lemma sup_caught_example:
  "case ofold (daemon_input sup_env) [Event_Fires 0, Event_Fires 1] sup_start of
     Inl _ \<Rightarrow> False
   | Inr x \<Rightarrow> (case ld_lmap (fst x) of None \<Rightarrow> False
       | Some l \<Rightarrow> (case cleanup_child sup_env (7, Exited 0) (l, snd x) of Inl _ \<Rightarrow> False
           | Inr y \<Rightarrow>
               find_action_by_pid (lm_schedules l) 7 = Some (0, 0) \<and> sched_state (lm_schedules l ! 0) \<noteq> Disabled
               \<and> 0 < active_count utc_libc (lm_supps l) (act_suppression_tags (sched_actions (lm_schedules l ! 0) ! 0))
               \<and> sched_state (lm_schedules (fst y) ! 0) = Enabled \<and> sched_mode (lm_schedules (fst y) ! 0) = Sequential
               \<and> sched_name (lm_schedules (fst y) ! 0) \<noteq> None
               \<and> startable (fst y) (sched_actions (lm_schedules (fst y) ! 0) ! 0) \<and> os_forks (snd y) = [8]))"
  by code_simp

theorem suppressed_action_runs_again_witness:
  "\<exists>d w l l' w' b s w3. (daemon_step utc_libc)\<^sup>*\<^sup>* sup_start (d, w) \<and> ld_lmap d = Some l
     \<and> cleanup_child sup_env (7, Exited 0) (l, w) = Inr (l', w')
     \<and> start_schedule sup_env l' (lm_events l' ! 0) (lm_schedules l' ! 0) w' = (b, s, w3)
     \<and> 0 < active_count utc_libc (lm_supps l') (act_suppression_tags (sched_actions (lm_schedules l' ! 0) ! 0))
     \<and> act_state (sched_actions s ! 0) = Running \<and> act_pid (sched_actions s ! 0) = 8"
proof -
  let ?r = "ofold (daemon_input sup_env) [Event_Fires 0, Event_Fires 1] sup_start"
  note ex = sup_caught_example
  obtain d w where r: "?r = Inr (d, w)" using ex by (cases ?r) (auto simp del: ofold.simps)
  obtain l where l: "ld_lmap d = Some l" using ex unfolding r by (cases "ld_lmap d") simp_all
  obtain l' w' where c: "cleanup_child sup_env (7, Exited 0) (l, w) = Inr (l', w')"
    using ex l unfolding r by (cases "cleanup_child sup_env (7, Exited 0) (l, w)") auto
  have h: "find_action_by_pid (lm_schedules l) 7 = Some (0, 0)" "sched_state (lm_schedules l ! 0) \<noteq> Disabled"
      "0 < active_count utc_libc (lm_supps l) (act_suppression_tags (sched_actions (lm_schedules l ! 0) ! 0))"
    and g: "sched_state (lm_schedules l' ! 0) = Enabled" "sched_mode (lm_schedules l' ! 0) = Sequential"
      "sched_name (lm_schedules l' ! 0) \<noteq> None" "startable l' (sched_actions (lm_schedules l' ! 0) ! 0)" "os_forks w' = [8]"
    using ex l c unfolding r by simp_all
  obtain d0 w0 where s0: "sup_start = (d0, w0)" by (rule prod.exhaust)
  have d0: "ld_lmap d0 = Some sup_config" using s0 by (auto simp: sup_start_def)
  from daemon_run_steps [OF r] have s: "(daemon_step utc_libc)\<^sup>*\<^sup>* sup_start (d, w)" by (simp add: sup_env_def run_env_def)
  note t = suppressed_action_runs_again [OF s [unfolded s0] d0 sup_unsuppressed l h(1) _ _ h(2,3) c]
  have "\<exists>b s'' w3. start_schedule sup_env l' (lm_events l' ! 0) (lm_schedules l' ! 0) w' = (b, s'', w3)
      \<and> act_state (sched_actions s'' ! 0) = Running \<and> act_pid (sched_actions s'' ! 0) = 8"
    using t g by simp
  with s l c t show ?thesis by simp blast
qed

section \<open>Stopping a schedule for good\<close>

definition stopped :: "schedule \<Rightarrow> bool" where
  "stopped s \<longleftrightarrow> flag_on (sched_flags s) LMAP_SCHEDULE_FLAG_STOP_RUNNING"

definition keeps_stop :: "schedule list \<Rightarrow> schedule list \<Rightarrow> bool" where
  "keeps_stop ss ss' \<longleftrightarrow> list_all2 (\<lambda>s s'. stopped s \<longrightarrow> stopped s') ss ss'"

interpretation stop: accounting "\<lambda>P (w :: 's) P' w'. keeps_stop P P'"
proof
  show "keeps_stop P P" for P by (simp add: keeps_stop_def list_all2_refl)
  show "keeps_stop P P''" if "keeps_stop P P'" "keeps_stop P' P''" for P P' P''
    using that by (simp add: keeps_stop_def list_all2_conv_all_nth)
  show "keeps_stop (A @ P @ B) (A @ P' @ B)" if "keeps_stop P P'" for A P P' B
    using that unfolding keeps_stop_def by (intro list_all2_appendI list_all2_refl) auto
qed

lemma keeps_stop_omap:
  assumes "\<And>s w s' w'. f s w = Inr (s', w') \<Longrightarrow> stopped s \<Longrightarrow> stopped s'" "omap f ss w = Inr (ss', w')"
  shows "keeps_stop ss ss'"
proof -
  have "keeps_stop (concat (map (\<lambda>s. [s]) ss)) (concat (map (\<lambda>s. [s]) ss'))"
    by (rule stop.rel_omap [OF _ assms(2)]) (use assms(1) in \<open>auto simp: keeps_stop_def\<close>)
  then show ?thesis by (simp add: concat_map_singleton)
qed

lemma stopped_suppress: "stopped s \<Longrightarrow> stopped (schedule_suppress p s)"
  by (simp add: stopped_def schedule_suppress_def flag_on_set_mono)

lemma stopped_unsuppress [simp]: "stopped (schedule_unsuppress s) = stopped s"
  by (simp add: stopped_def schedule_unsuppress_def Let_def)

lemma stopped_actions [simp]: "stopped (s\<lparr>sched_actions := as\<rparr>) = stopped s"
  by (simp add: stopped_def)

lemma suppress_schedule_stop:
  assumes "suppress_schedule en p s w = Inr (s', w')" "stopped s"
  shows "stopped s'"
proof (cases "sched_state s = Disabled")
  case False
  from suppress_schedule_Inr [OF assms(1) False] obtain b as where
    "s' = (if b then schedule_suppress p s else s)\<lparr>sched_actions := as\<rparr>" by blast
  with assms(2) stopped_suppress show ?thesis by (cases b) simp_all
qed (use assms in \<open>simp add: suppress_schedule_def\<close>)

lemma unsuppress_schedule_stop:
  assumes "unsuppress_schedule en p s w = Inr (s', w')" "stopped s"
  shows "stopped s'"
proof (cases "sched_state s = Disabled")
  case False
  from unsuppress_schedule_Inr [OF assms(1) False] obtain b as where
    "s' = (if b then schedule_unsuppress s else s)\<lparr>sched_actions := as\<rparr>" by blast
  with assms(2) show ?thesis by (cases b) simp_all
qed (use assms in \<open>simp add: unsuppress_schedule_def\<close>)

lemma suppression_start_stop:
  assumes "suppression_start en p ss w = Inr (p', z)"
  shows "keeps_stop ss (fst z)"
proof (cases "supp_match p = [] \<or> supp_name p = None")
  case False
  with assms have "omap (suppress_schedule en p) ss w = Inr (fst z, snd z)"
    by (auto simp: suppression_start_def obind_Inr)
  with suppress_schedule_stop show ?thesis by (rule keeps_stop_omap)
qed (use assms in \<open>auto simp: suppression_start_def stop.rel_refl\<close>)

lemma suppression_end_stop:
  assumes "suppression_end en p ss w = Inr (p', z)"
  shows "keeps_stop ss (fst z)"
proof (cases "supp_match p = [] \<or> supp_name p = None")
  case False
  with assms have "omap (unsuppress_schedule en p) ss w = Inr (fst z, snd z)"
    by (auto simp: suppression_end_def obind_Inr)
  with unsuppress_schedule_stop show ?thesis by (rule keeps_stop_omap)
qed (use assms in \<open>auto simp: suppression_end_def stop.rel_refl\<close>)

lemma suppress_one_stop:
  assumes "suppress_one en e p x = Inr (p', y)"
  shows "keeps_stop (fst x) (fst y)"
proof (cases "supp_state p = Supp_Disabled \<or> supp_name p = None")
  case True
  with assms show ?thesis by (auto simp: suppress_one_def stop.rel_refl split: if_splits prod.splits)
next
  case False
  from suppress_one_Inr [OF assms False] obtain b b2 p1 z where
    1: "(if b \<and> supp_state p = Supp_Enabled then suppression_start en p (fst x) (snd x) else Inr (p, x)) = Inr (p1, z)"
    and 2: "(if b2 \<and> supp_state p1 = Supp_Active then suppression_end en p1 (fst z) (snd z) else Inr (p1, z))
        = Inr (p', y)"
    by blast
  have "keeps_stop (fst x) (fst z)"
    using 1 suppression_start_stop [of en p "fst x" "snd x" p1 z] by (auto simp: stop.rel_refl split: if_splits)
  moreover have "keeps_stop (fst z) (fst y)"
    using 2 suppression_end_stop [of en p1 "fst z" "snd z" p' y] by (auto simp: stop.rel_refl split: if_splits)
  ultimately show ?thesis by (rule stop.rel_trans)
qed

lemma stop_step:
  assumes "daemon_step lc x y" "ld_lmap (fst x) = Some l"
  shows "\<exists>l'. ld_lmap (fst y) = Some l' \<and> keeps_stop (lm_schedules l) (lm_schedules l')"
  using assms
proof (induction rule: daemon_step.induct)
  case (Fire en d l1 k w d' w')
  from fire_cb_Inr [OF Fire.hyps(4,2)] obtain e ps ss w1 l2 ss' b where
    1: "omap (suppress_one en e) (lm_supps l1) (lm_schedules l1, w) = Inr (ps, ss, w1)"
    and 2: "omap (execute_schedule en l2 e) ss (False, w1) = Inr (ss', b, w')"
    and d': "ld_lmap d' = Some (l1\<lparr>lm_supps := ps, lm_schedules := ss',
        lm_events := (lm_events l1)[k := (lm_events l1 ! k)\<lparr>ev_fire_event := None\<rparr>]\<rparr>)"
    by blast
  have "keeps_stop (lm_schedules l1) (fst (ss, w1))"
    by (rule omap_invariant [of "\<lambda>x. keeps_stop (lm_schedules l1) (fst x)", OF _ _ 1])
      (auto intro: stop.rel_refl stop.rel_trans suppress_one_stop)
  moreover have "keeps_stop ss ss'"
    by (rule keeps_stop_omap [OF _ 2]) (use execute_schedule_step in \<open>auto simp: sched_step_def stopped_def\<close>)
  ultimately have "keeps_stop (lm_schedules l1) ss'" using stop.rel_trans by simp
  with d' Fire show ?case by simp
next
  case (Reap en d l1 pid st w l' w')
  from cleanup_child_Inr [OF Reap.hyps(5)] have "keeps_stop (lm_schedules l1) (lm_schedules l')"
  proof (elim disjE exE conjE)
    fix i j a w1 s2 w2 s3
    let ?s = "lm_schedules l1 ! i"
    assume fi: "find_action_by_pid (lm_schedules l1) pid = Some (i, j)"
      and x: "exec_next en l1 j (?s\<lparr>sched_actions := (sched_actions ?s)[j := a]\<rparr>) w1 = (s2, w2)"
      and y: "finish_schedule en (lm_schedules l1) i s2 w2 = (s3, w')"
      and l': "l' = with_schedules l1 ((lm_schedules l1)[i := s3])"
    have "sched_flags s2 = sched_flags ?s" using x by (auto simp: exec_next_def split: if_splits prod.splits)
    moreover have "sched_flags s3 = sched_flags s2"
      using y by (auto simp: finish_schedule_def Let_def split: if_splits prod.splits)
    ultimately have "keeps_stop [?s] [s3]" by (simp add: keeps_stop_def stopped_def)
    then have "keeps_stop (concat (map (\<lambda>s. [s]) (lm_schedules l1))) (concat (map (\<lambda>s. [s]) ((lm_schedules l1)[i := s3])))"
      using find_action_by_pid_Some (1) [OF fi] by (intro stop.rel_update)
    then show ?thesis unfolding l' by (simp add: concat_map_singleton with_schedules_def)
  qed (simp add: stop.rel_refl)
  with Reap show ?case by simp
next
  case (Others d l1 d' l' w)
  have "map stopped (lm_schedules l') = map stopped (lm_schedules l1)"
    by (rule same_runs_map [OF Others.hyps(3)]) (simp add: stopped_def run_part_def)
  then have "keeps_stop (lm_schedules l1) (lm_schedules l')"
    by (auto simp: keeps_stop_def list_all2_conv_all_nth dest: map_eq_imp_length_eq) (metis length_map nth_map)
  with Others show ?case by simp
qed (auto intro: stop.rel_refl)

text \<open>
  C36. A suppression that stops what is running stops a schedule for good: nothing ever takes the flag
  \<^verbatim>\<open>LMAP_SCHEDULE_FLAG_STOP_RUNNING\<close> off a schedule again, ending the suppression does not either, and with the flag on
  \<^const>\<open>exec_next\<close> does not go on to the next action. A sequential schedule runs its first action only from then on.
\<close>

theorem stopped_for_good:
  assumes "(daemon_step lc)\<^sup>*\<^sup>* (d0, w0) (d, w)" "ld_lmap d0 = Some l0" "i < length (lm_schedules l0)"
    "flag_on (sched_flags (lm_schedules l0 ! i)) LMAP_SCHEDULE_FLAG_STOP_RUNNING"
  shows "\<exists>l. ld_lmap d = Some l \<and> i < length (lm_schedules l)
    \<and> flag_on (sched_flags (lm_schedules l ! i)) LMAP_SCHEDULE_FLAG_STOP_RUNNING
    \<and> (\<forall>en j w. exec_next en l j (lm_schedules l ! i) w = (lm_schedules l ! i, w))"
proof -
  have "(daemon_step lc)\<^sup>*\<^sup>* x y \<Longrightarrow> ld_lmap (fst x) = Some l0 \<Longrightarrow>
      \<exists>l. ld_lmap (fst y) = Some l \<and> keeps_stop (lm_schedules l0) (lm_schedules l)" for x y
  proof (induction rule: rtranclp_induct)
    case base
    then show ?case by (simp add: stop.rel_refl)
  next
    case (step y z)
    then obtain l where l: "ld_lmap (fst y) = Some l" "keeps_stop (lm_schedules l0) (lm_schedules l)" by blast
    from stop_step [OF step.hyps(2) l(1)] stop.rel_trans [OF l(2)] show ?case by blast
  qed
  from this [OF assms(1)] assms(2) obtain l where l: "ld_lmap d = Some l" "keeps_stop (lm_schedules l0) (lm_schedules l)"
    by auto
  have "length (lm_schedules l) = length (lm_schedules l0)" "stopped (lm_schedules l0 ! i) \<longrightarrow> stopped (lm_schedules l ! i)"
    using l(2) assms(3) by (auto simp: keeps_stop_def list_all2_conv_all_nth)
  with l assms(3,4) show ?thesis by (auto simp: stopped_def exec_next_def)
qed

definition stop_start :: "lmapd \<times> os" where
  "stop_start =
     (lmapd_new\<lparr>ld_lmap := Some (sup_config\<lparr>lm_schedules :=
        map (\<lambda>s. s\<lparr>sched_flags := LMAP_SCHEDULE_FLAG_STOP_RUNNING\<rparr>) (lm_schedules sup_config)\<rparr>)\<rparr>, snd sup_start)"

theorem stopped_for_good_witness:
  "\<exists>d w l. (daemon_step utc_libc)\<^sup>*\<^sup>* stop_start (d, w) \<and> map ch_pid (os_started w) = [7] \<and> ld_lmap d = Some l
     \<and> flag_on (sched_flags (lm_schedules l ! 0)) LMAP_SCHEDULE_FLAG_STOP_RUNNING"
proof -
  have r: "sup_view (ofold (daemon_input sup_env) [Event_Fires 0] stop_start)
     ([Running, Enabled], [0, 0], [Running], [0], [7])"
    by code_simp
  obtain d w where e: "ofold (daemon_input sup_env) [Event_Fires 0] stop_start = Inr (d, w)"
    using r unfolding sup_view_def by (auto split: sum.splits)
  from daemon_run_steps [OF e] have s: "(daemon_step utc_libc)\<^sup>*\<^sup>* stop_start (d, w)"
    by (simp add: sup_env_def run_env_def)
  have c: "map ch_pid (os_started w) = [7]" using r e unfolding sup_view_def by (auto split: option.splits)
  obtain d0 w0 where s0: "stop_start = (d0, w0)" by (rule prod.exhaust)
  obtain l0 where l0: "ld_lmap d0 = Some l0"
    "lm_schedules l0 = map (\<lambda>s. s\<lparr>sched_flags := LMAP_SCHEDULE_FLAG_STOP_RUNNING\<rparr>) (lm_schedules sup_config)"
    using s0 by (auto simp: stop_start_def)
  have n: "length (lm_schedules sup_config) = 2" by code_simp
  from stopped_for_good [OF s [unfolded s0] l0(1), of 0] l0(2) n
  obtain l where "ld_lmap d = Some l" "flag_on (sched_flags (lm_schedules l ! 0)) LMAP_SCHEDULE_FLAG_STOP_RUNNING"
    by (auto simp: flag_on_def LMAP_SCHEDULE_FLAG_STOP_RUNNING_def)
  with s c show ?thesis by (intro exI conjI)
qed

end
