(* ===== verification/Timers.thy ===== *)
theory Timers
  imports Processes
begin

text \<open>
  The timers of the event loop (\<^verbatim>\<open>src/runner.c\<close>): random spreads, the callbacks that trigger and fire events, what
  \<open>lmapd_run\<close> arms at the start, and stopping and restarting. libevent is not part of the source: what the code asks of it, a
  timer with its callback and its delay, is the record \<open>timer\<close> of the data model; when it calls back is not modelled, as the
  time of each call is an argument.
\<close>

section \<open>Random spreads\<close>

text \<open>
  \<open>rand\<close> is a stream and the number of values taken from it. A computation that draws may fault, may draw forever (\<open>None\<close>),
  or returns a value and the stream after it. \<open>RAND_MAX\<close> is that of glibc and musl.
\<close>

type_synonym rng = "(nat \<Rightarrow> nat) \<times> nat"

type_synonym 'a drawn = "('a \<times> rng) option outcome"

definition dbind :: "'a drawn \<Rightarrow> ('a \<Rightarrow> rng \<Rightarrow> 'b drawn) \<Rightarrow> 'b drawn" where
  "dbind r f = obind r (\<lambda>x. case x of None \<Rightarrow> Inr None | Some (v, g) \<Rightarrow> f v g)"

lemma dbind_simps [simp]:
  "dbind (Inl e) f = Inl e" "dbind (Inr None) f = Inr None" "dbind (Inr (Some (v, g))) f = f v g"
  by (simp_all add: dbind_def)

definition RAND_MAX :: nat where
  "RAND_MAX = 2147483647"

partial_function (option) rand_below :: "nat \<Rightarrow> rng \<Rightarrow> (nat \<times> rng) option" where
  "rand_below limit g =
     (case g of (rs, i) \<Rightarrow> if rs i < limit then Some (rs i, (rs, i + 1)) else rand_below limit (rs, i + 1))"

text \<open>The arithmetic on \<open>unsigned int\<close> is that of \<open>32 word\<close>: the range of the largest interval is 0.\<close>

definition rand_interval :: "32 word \<Rightarrow> 32 word \<Rightarrow> rng \<Rightarrow> (32 word) drawn" where
  "rand_interval mn mx g =
     (let range = 1 + mx - mn
      in if range = 0 then Inl Division_By_Zero
         else let buckets = RAND_MAX div unat range;
                  limit = buckets * unat range
              in case rand_below limit g of
                   None \<Rightarrow> Inr None
                 | Some (r, g') \<Rightarrow> Inr (Some (mn + of_nat (r div buckets), g')))"

definition add_random_spread :: "event \<Rightarrow> int \<Rightarrow> rng \<Rightarrow> int drawn" where
  "add_random_spread e tv g =
     (if flag_on (ev_flags e) LMAP_EVENT_FLAG_RANDOM_SPREAD_SET
      then dbind (rand_interval 0 (ev_random_spread e) g) (\<lambda>spread g'. Inr (Some (tv + uint spread, g')))
      else Inr (Some (tv, g)))"

section \<open>The callbacks\<close>

text \<open>\<open>event_gaga\<close> makes and adds a timer unless the slot is taken.\<close>

definition event_gaga :: "callback \<Rightarrow> bool \<Rightarrow> int \<Rightarrow> timer option \<Rightarrow> timer option" where
  "event_gaga cb persist tv ev =
     (case ev of
        None \<Rightarrow> Some \<lparr>tmr_callback = cb, tmr_persist = persist, tmr_delay = tv\<rparr>
      | Some t \<Rightarrow> Some t)"

definition fire_after_spread :: "event \<Rightarrow> int \<Rightarrow> rng \<Rightarrow> event drawn" where
  "fire_after_spread e tv g =
     dbind (add_random_spread e tv g)
       (\<lambda>d g'. Inr (Some (e\<lparr>ev_fire_event := event_gaga Fire_Cb False d (ev_fire_event e)\<rparr>, g')))"

definition ended :: "event \<Rightarrow> int \<Rightarrow> bool" where
  "ended e now \<longleftrightarrow> flag_on (ev_flags e) LMAP_EVENT_FLAG_END_SET \<and> ev_end e < now"

definition trigger_periodic_cb :: "int \<Rightarrow> event \<Rightarrow> rng \<Rightarrow> event drawn" where
  "trigger_periodic_cb now e g =
     (if ended e now then Inr (Some (e\<lparr>ev_trigger_event := None\<rparr>, g))
      else fire_after_spread e 0 g)"

text \<open>\<open>event_add\<close> on the timer of the slot: its delay starts anew.\<close>

definition readd :: "int \<Rightarrow> event \<Rightarrow> event outcome" where
  "readd tv e =
     (case ev_trigger_event e of
        None \<Rightarrow> Inl Null_Deref
      | Some t \<Rightarrow> Inr (e\<lparr>ev_trigger_event := Some (t\<lparr>tmr_delay := tv\<rparr>)\<rparr>))"

definition trigger_calendar_cb :: "libc \<Rightarrow> int \<Rightarrow> event \<Rightarrow> rng \<Rightarrow> event drawn" where
  "trigger_calendar_cb lc now e g =
     (if ended e now then Inr (Some (e\<lparr>ev_trigger_event := None\<rparr>, g))
      else let match = lmap_event_calendar_match lc e now
           in if match < 0 then Inr (Some (e\<lparr>ev_trigger_event := None\<rparr>, g))
              else if match = 0 then obind (readd 1 e) (\<lambda>e'. Inr (Some (e', g)))
              else dbind (fire_after_spread e 0 g) (\<lambda>e1 g'. obind (readd match e1) (\<lambda>e2. Inr (Some (e2, g')))))"

definition startup_cb :: "int \<Rightarrow> event \<Rightarrow> rng \<Rightarrow> event drawn" where
  "startup_cb now e g =
     dbind
       (case ev_type e of
          Periodic \<Rightarrow>
            trigger_periodic_cb now
              (e\<lparr>ev_trigger_event := event_gaga Trigger_Periodic_Cb True (uint (ev_interval e)) (ev_trigger_event e)\<rparr>) g
        | Calendar \<Rightarrow>
            Inr (Some (e\<lparr>ev_trigger_event := event_gaga Trigger_Calendar_Cb False 0 (ev_trigger_event e)\<rparr>, g))
        | _ \<Rightarrow> Inr (Some (e, g)))
       (\<lambda>e1 g'. Inr (Some (e1\<lparr>ev_start_event := None\<rparr>, g')))"

text \<open>The callback a trigger timer was made with.\<close>

definition trigger_cb :: "libc \<Rightarrow> int \<Rightarrow> timer \<Rightarrow> event \<Rightarrow> rng \<Rightarrow> event drawn" where
  "trigger_cb lc now t =
     (if tmr_callback t = Trigger_Calendar_Cb then trigger_calendar_cb lc now else trigger_periodic_cb now)"

section \<open>Starting the event loop\<close>

definition names_event :: "string option \<Rightarrow> string \<Rightarrow> bool" where
  "names_event n name \<longleftrightarrow> n = Some name"

definition event_used :: "lmap \<Rightarrow> string \<Rightarrow> bool" where
  "event_used l name \<longleftrightarrow>
     list_ex (\<lambda>s. names_event (sched_start s) name \<or> names_event (sched_end s) name) (lm_schedules l)
     \<or> list_ex (\<lambda>p. names_event (supp_start p) name \<or> names_event (supp_end p) name) (lm_supps l)"

text \<open>The delay until a periodic event starts; the division is that of C.\<close>

definition periodic_delay :: "int \<Rightarrow> event \<Rightarrow> int outcome" where
  "periodic_delay now e =
     (if flag_on (ev_flags e) LMAP_EVENT_FLAG_START_SET then
        if ev_start e < now then
          if ev_interval e = 0 then Inl Division_By_Zero
          else let delta = (now - ev_start e) div uint (ev_interval e)
               in Inr ((ev_start e + (delta + 1) * uint (ev_interval e)) - now)
        else Inr (ev_start e - now)
      else Inr 0)"

definition start_after :: "int \<Rightarrow> event \<Rightarrow> event" where
  "start_after tv e = e\<lparr>ev_start_event := event_gaga Startup_Cb False tv (ev_start_event e)\<rparr>"

definition arm_event :: "int \<Rightarrow> lmap \<Rightarrow> flags \<Rightarrow> event \<Rightarrow> rng \<Rightarrow> event drawn" where
  "arm_event now l dflags e g =
     (case ev_name e of
        None \<Rightarrow> Inr (Some (e, g))
      | Some name \<Rightarrow>
          if \<not> event_used l name then Inr (Some (e, g))
          else case ev_type e of
            Periodic \<Rightarrow>
              if ended e now then Inr (Some (e, g))
              else obind (periodic_delay now e) (\<lambda>tv. Inr (Some (start_after tv e, g)))
          | Calendar \<Rightarrow> if ended e now then Inr (Some (e, g)) else Inr (Some (start_after 0 e, g))
          | One_Off \<Rightarrow>
              if now < ev_start e then Inr (Some (e, g))
              else fire_after_spread e (ev_start e - now) g
          | Startup \<Rightarrow>
              if flag_on dflags LMAPD_FLAG_SKIPSTARTUP then Inr (Some (e, g))
              else fire_after_spread e 0 g
          | Immediate \<Rightarrow> fire_after_spread e 0 g
          | _ \<Rightarrow> Inr (Some (e, g)))"

fun arm_events :: "int \<Rightarrow> lmap \<Rightarrow> flags \<Rightarrow> event list \<Rightarrow> rng \<Rightarrow> (event list) drawn" where
  "arm_events now l dflags [] g = Inr (Some ([], g))"
| "arm_events now l dflags (e # es) g =
     dbind (arm_event now l dflags e g)
       (\<lambda>e' g1. dbind (arm_events now l dflags es g1) (\<lambda>es' g2. Inr (Some (e' # es', g2))))"

text \<open>
  The part of \<open>lmapd_run\<close> before the event loop runs, unless there is no event base; and the part after it has run, which
  drops the timers with the whole configuration.
\<close>

definition lmapd_run_start :: "bool \<Rightarrow> int \<Rightarrow> lmapd \<Rightarrow> rng \<Rightarrow> (int \<times> lmapd) drawn" where
  "lmapd_run_start have_base now d g =
     (if \<not> have_base then Inr (Some ((-1, d), g))
      else case ld_lmap d of
        None \<Rightarrow> Inr (Some ((0, d), g))
      | Some l \<Rightarrow>
          dbind (arm_events now l (ld_flags d) (lm_events l) g)
            (\<lambda>es g'. Inr (Some ((0, d\<lparr>ld_lmap := Some (l\<lparr>lm_events := es\<rparr>)\<rparr>), g'))))"

definition lmapd_run_finish :: "int \<Rightarrow> lmapd \<Rightarrow> int \<times> lmapd" where
  "lmapd_run_finish ret d = (if ret = 0 then 0 else -1, d\<lparr>ld_lmap := None\<rparr>)"

section \<open>Stopping and restarting\<close>

definition lmapd_stop :: "env \<Rightarrow> lmapd \<Rightarrow> os \<Rightarrow> lmapd \<times> os" where
  "lmapd_stop en d w =
     (let d1 = d\<lparr>ld_flags := flag_clear (ld_flags d) LMAPD_FLAG_RESTART\<rparr>
      in (d1, lmapd_killall en d1 w))"

definition lmapd_restart :: "env \<Rightarrow> lmapd \<Rightarrow> os \<Rightarrow> lmapd \<times> os" where
  "lmapd_restart en d w =
     (let f1 = flag_set (ld_flags d) LMAPD_FLAG_RESTART;
          f2 = (if flag_on f1 LMAPD_FLAG_STARTUPDONE then flag_set f1 LMAPD_FLAG_SKIPSTARTUP else f1);
          d1 = d\<lparr>ld_flags := f2\<rparr>
      in (d1, lmapd_killall en d1 w))"

section \<open>The random numbers\<close>

lemma rand_below_Some:
  assumes "rand_below limit g = Some (r, g')"
  shows "\<exists>k\<ge>snd g. fst g k = r \<and> r < limit \<and> g' = (fst g, k + 1)"
proof -
  have "\<forall>r g'. x = (r, g') \<longrightarrow> (\<exists>k\<ge>snd g. fst g k = r \<and> r < limit \<and> g' = (fst g, k + 1))"
    if "rand_below limit g = Some x" for x
  proof (rule rand_below.raw_induct
      [where P = "\<lambda>limit g x. \<forall>r g'. x = (r, g') \<longrightarrow> (\<exists>k\<ge>snd g. fst g k = r \<and> r < limit \<and> g' = (fst g, k + 1))",
       OF _ that])
    fix f :: "nat \<Rightarrow> rng \<Rightarrow> (nat \<times> rng) option" and limit g x
    assume IH: "\<And>limit g x. f limit g = Some x \<Longrightarrow>
        \<forall>r g'. x = (r, g') \<longrightarrow> (\<exists>k\<ge>snd g. fst g k = r \<and> r < limit \<and> g' = (fst g, k + 1))"
      and eq: "(case g of (rs, i) \<Rightarrow> if rs i < limit then Some (rs i, rs, i + 1) else f limit (rs, i + 1)) = Some x"
    obtain rs i where g: "g = (rs, i)" by fastforce
    show "\<forall>r g'. x = (r, g') \<longrightarrow> (\<exists>k\<ge>snd g. fst g k = r \<and> r < limit \<and> g' = (fst g, k + 1))"
    proof (cases "rs i < limit")
      case True
      with eq g have "x = (rs i, rs, i + 1)" by simp
      with True g show ?thesis by (auto intro!: exI [of _ i])
    next
      case False
      with eq g have "f limit (rs, i + 1) = Some x" by simp
      from IH [OF this] g show ?thesis by (auto dest: Suc_leD)
    qed
  qed
  with assms show ?thesis by blast
qed

lemma rand_below_returns:
  "i \<le> k \<Longrightarrow> rs k < limit \<Longrightarrow> \<exists>x. rand_below limit (rs, i) = Some x"
proof (induction "k - i" arbitrary: i)
  case 0
  then have "k = i" by simp
  with 0 show ?case by (subst rand_below.simps) simp
next
  case (Suc n)
  show ?case
  proof (cases "rs i < limit")
    case True
    then show ?thesis by (subst rand_below.simps) simp
  next
    case False
    with Suc.prems have "i + 1 \<le> k" by (metis Suc_eq_plus1 le_neq_implies_less less_eq_Suc_le)
    with Suc have "\<exists>x. rand_below limit (rs, i + 1) = Some x" by simp
    with False show ?thesis by (subst rand_below.simps) simp
  qed
qed

lemma range_word:
  assumes "(mn :: 32 word) \<le> mx" "unat (mx - mn) < RAND_MAX"
  shows "1 + mx - mn \<noteq> 0" "unat (1 + mx - mn) = unat (mx - mn) + 1"
proof -
  have e: "1 + mx - mn = (mx - mn) + 1" by simp
  have "unat (mx - mn) + 1 < 2 ^ 32" using assms(2) by (simp add: RAND_MAX_def)
  then show "unat (1 + mx - mn) = unat (mx - mn) + 1"
    unfolding e by (simp add: unat_word_ariths(1) mod_less)
  then show "1 + mx - mn \<noteq> 0" by (metis Suc_eq_plus1 nat.distinct(1) unat_0)
qed

lemma div_eq_iff_between: "0 < (b::nat) \<Longrightarrow> r div b = k \<longleftrightarrow> k * b \<le> r \<and> r < (k + 1) * b"
  using div_times_less_eq_dividend [of r b] dividend_less_times_div [of b r] div_nat_eqI [of b k r]
  by (auto simp: mult.commute)

lemma bucket_set:
  assumes "0 < (b::nat)" "m \<le> u" "u - m < n"
  shows "{r. r < b * n \<and> m + r div b = u} = {(u - m) * b ..< (u - m + 1) * b}"
proof (intro set_eqI iffI)
  fix r assume "r \<in> {r. r < b * n \<and> m + r div b = u}"
  then have "r div b = u - m" by auto
  then show "r \<in> {(u - m) * b ..< (u - m + 1) * b}" using div_eq_iff_between [OF assms(1)] by simp
next
  fix r assume "r \<in> {(u - m) * b ..< (u - m + 1) * b}"
  then have r: "r div b = u - m" "r < (u - m + 1) * b" using div_eq_iff_between [OF assms(1)] by auto
  have "(u - m + 1) * b \<le> n * b" using assms(3) by (intro mult_le_mono1) simp
  with r assms(2) show "r \<in> {r. r < b * n \<and> m + r div b = u}" by (simp add: mult.commute)
qed

text \<open>How many values of \<open>rand\<close> each result gets.\<close>

definition spread_bucket :: "32 word \<Rightarrow> 32 word \<Rightarrow> nat" where
  "spread_bucket mn mx = RAND_MAX div (unat (mx - mn) + 1)"

lemma rand_interval_eq:
  assumes "mn \<le> mx" "unat (mx - mn) < RAND_MAX"
  shows "rand_interval mn mx g =
    (case rand_below (spread_bucket mn mx * (unat (mx - mn) + 1)) g of
       None \<Rightarrow> Inr None
     | Some (r, g') \<Rightarrow> Inr (Some (mn + of_nat (r div spread_bucket mn mx), g')))"
  unfolding rand_interval_def Let_def range_word (2) [OF assms] spread_bucket_def [symmetric]
  using range_word (1) [OF assms] by simp

lemma spread_bucket_pos: "unat (mx - mn) < RAND_MAX \<Longrightarrow> 0 < spread_bucket mn mx"
  by (simp add: spread_bucket_def div_greater_zero_iff)

lemma spread_value:
  assumes "(mn :: 32 word) \<le> mx" "k \<le> unat (mx - mn)"
  shows "unat (mn + of_nat k) = unat mn + k"
proof -
  have "unat (mx - mn) = unat mx - unat mn" using assms(1) by (simp add: unat_sub)
  moreover have "unat mx < 2 ^ LENGTH(32)" by (rule unsigned_less)
  ultimately have "unat mn + k < 2 ^ 32" using assms by (simp add: word_le_nat_alt)
  then show ?thesis
    by (simp add: unat_word_ariths(1) unsigned_of_nat take_bit_nat_eq_self)
qed

lemma unat_sub_le: "(mn :: 32 word) \<le> mx \<Longrightarrow> unat (mx - mn) = unat mx - unat mn"
  by (simp add: unat_sub)

text \<open>
  C32. \<^const>\<open>rand_interval\<close> is uniform. For an interval of at most \<open>RAND_MAX\<close> values, every number of the interval and no other
  number is what comes out for exactly \<open>RAND_MAX div (mx - mn + 1)\<close> of the values \<open>rand\<close> can draw first; the other
  values of \<open>rand\<close> are drawn again.
\<close>

theorem rand_interval_uniform:
  assumes "mn \<le> mx" "unat (mx - mn) < RAND_MAX"
  shows "card {r. \<exists>g. rand_interval mn mx ((\<lambda>_. r), 0) = Inr (Some (v, g))} =
    (if mn \<le> v \<and> v \<le> mx then RAND_MAX div (unat (mx - mn) + 1) else 0)"
proof -
  let ?b = "spread_bucket mn mx" and ?n = "unat (mx - mn) + 1"
  note b = spread_bucket_pos [OF assms(2)]
  have draw: "(\<exists>g. rand_interval mn mx ((\<lambda>_. r), 0) = Inr (Some (v, g)))
      \<longleftrightarrow> r < ?b * ?n \<and> mn + of_nat (r div ?b) = v" for r
  proof (cases "r < ?b * ?n")
    case True
    then have "rand_below (?b * ?n) ((\<lambda>_. r), 0) = Some (r, (\<lambda>_. r), 1)" by (subst rand_below.simps) simp
    with True show ?thesis unfolding rand_interval_eq [OF assms] by simp
  next
    case False
    then have "rand_below (?b * ?n) ((\<lambda>_. r), 0) = None"
      using rand_below_Some [of "?b * ?n" "((\<lambda>_. r), 0)"] by (cases "rand_below (?b * ?n) ((\<lambda>_. r), 0)") auto
    with False show ?thesis unfolding rand_interval_eq [OF assms] by simp
  qed
  have div: "r < ?b * ?n \<Longrightarrow> r div ?b \<le> unat (mx - mn)" for r
    using b by (metis Suc_eq_plus1 less_Suc_eq_le less_mult_imp_div_less mult.commute)
  have val: "mn + of_nat (r div ?b) = v \<longleftrightarrow> unat mn + r div ?b = unat v" if "r < ?b * ?n" for r
    using spread_value [OF assms(1) div [OF that]] by (metis word_unat_eq_iff)
  have set: "{r. \<exists>g. rand_interval mn mx ((\<lambda>_. r), 0) = Inr (Some (v, g))}
      = {r. r < ?b * ?n \<and> unat mn + r div ?b = unat v}"
    unfolding draw using val by blast
  show ?thesis
  proof (cases "mn \<le> v \<and> v \<le> mx")
    case True
    then have k: "unat mn \<le> unat v" "unat v - unat mn \<le> unat (mx - mn)"
      using assms(1) by (simp_all add: word_le_nat_alt unat_sub_le diff_le_mono)
    have "{r. r < ?b * ?n \<and> unat mn + r div ?b = unat v} = {(unat v - unat mn) * ?b ..< (unat v - unat mn + 1) * ?b}"
      using k by (intro bucket_set [OF b]) simp_all
    then show ?thesis unfolding set using True by (simp add: spread_bucket_def)
  next
    case False
    have "\<not> (unat mn + r div ?b = unat v)" if "r < ?b * ?n" for r
      using div [OF that] False assms(1) by (auto simp: word_le_nat_alt unat_sub_le)
    then show ?thesis unfolding set using False by auto
  qed
qed
theorem rand_interval_uniform_witness:
  "card {r. \<exists>g. rand_interval 0 9 ((\<lambda>_. r), 0) = Inr (Some (3, g))} = 214748364"
  using rand_interval_uniform [of 0 9 3] by (simp add: RAND_MAX_def)

lemma rand_interval_large:
  assumes "\<not> unat mx < RAND_MAX"
  shows "rand_interval 0 mx (rs, i) = (if mx = -1 then Inl Division_By_Zero else Inr None)"
proof (cases "mx = -1")
  case True
  then show ?thesis by (simp add: rand_interval_def)
next
  case False
  then have r0: "1 + mx - 0 \<noteq> 0" by (metis add.commute add_eq_0_iff diff_zero)
  have "unat (1 + mx) = unat mx + 1"
    using r0 by (metis Suc_eq_plus1 add.commute diff_zero unatSuc)
  then have "RAND_MAX div unat (1 + mx - 0) = 0" using assms by (simp add: RAND_MAX_def)
  moreover have "rand_below 0 (rs, i) = None"
    using rand_below_Some [of 0 "(rs, i)"] by (cases "rand_below 0 (rs, i)") auto
  ultimately show ?thesis using r0 False by (simp add: rand_interval_def)
qed

lemma rand_interval_bound:
  assumes "rand_interval 0 mx g = Inr (Some (v, g'))"
  shows "v \<le> mx"
proof (cases "unat mx < RAND_MAX")
  case True
  then have m: "unat (mx - 0) < RAND_MAX" by simp
  from assms obtain r g2 where r: "rand_below (spread_bucket 0 mx * (unat (mx - 0) + 1)) g = Some (r, g2)"
    and v: "v = of_nat (r div spread_bucket 0 mx)"
    unfolding rand_interval_eq [OF word_zero_le m] by (auto split: option.splits)
  have "r div spread_bucket 0 mx \<le> unat (mx - 0)"
    using rand_below_Some [OF r] spread_bucket_pos [OF m]
    by (metis Suc_eq_plus1 less_Suc_eq_le less_mult_imp_div_less mult.commute)
  from spread_value [OF word_zero_le this] this v show ?thesis by (simp add: word_le_nat_alt)
next
  case False
  with assms rand_interval_large [OF False, of "fst g" "snd g"] show ?thesis by (simp split: if_splits)
qed

text \<open>
  C33. When \<^const>\<open>rand_interval\<close> comes back, for an interval from 0, as the program always asks for: exactly when the interval has at most \<open>RAND_MAX\<close> values and \<open>rand\<close> still draws one
  below the limit. For a larger interval the limit is 0 and the loop never ends, whatever \<open>rand\<close> draws; for the whole range
  of \<^verbatim>\<open>unsigned int\<close> the code divides by 0.
\<close>

theorem rand_interval_returns:
  "(case rand_interval 0 mx (rs, i) of
      Inl f \<Rightarrow> f = Division_By_Zero \<and> mx = -1
    | Inr None \<Rightarrow> mx \<noteq> -1 \<and> (\<forall>k\<ge>i. \<not> (unat mx < RAND_MAX \<and> rs k < spread_bucket 0 mx * (unat mx + 1)))
    | Inr (Some (v, _)) \<Rightarrow> mx \<noteq> -1 \<and> v \<le> mx \<and> unat mx < RAND_MAX
        \<and> (\<exists>k\<ge>i. rs k < spread_bucket 0 mx * (unat mx + 1)))"
proof (cases "unat mx < RAND_MAX")
  case True
  have "uint (-1 :: 32 word) = 4294967295" by code_simp
  moreover have "uint mx < 2147483647" using True unfolding RAND_MAX_def uint_nat by linarith
  ultimately have "mx \<noteq> -1" by auto
  with True have m: "unat (mx - 0) < RAND_MAX" "mx \<noteq> -1" by simp_all
  let ?l = "spread_bucket 0 mx * (unat mx + 1)"
  have eq: "rand_interval 0 mx (rs, i) = (case rand_below ?l (rs, i) of None \<Rightarrow> Inr None
     | Some (r, g') \<Rightarrow> Inr (Some (0 + of_nat (r div spread_bucket 0 mx), g')))"
    using rand_interval_eq [OF _ m(1), of "(rs, i)"] by simp
  show ?thesis
  proof (cases "rand_below ?l (rs, i)")
    case None
    then have "\<forall>k\<ge>i. \<not> rs k < ?l" using rand_below_returns by fastforce
    with eq None m show ?thesis by simp
  next
    case (Some x)
    obtain r g' where x: "x = (r, g')" by (rule prod.exhaust)
    from rand_below_Some [OF Some [unfolded x]] obtain k where k: "i \<le> k" "rs k < ?l" "rs k = r" by auto
    have "r div spread_bucket 0 mx \<le> unat (mx - 0)"
      using k spread_bucket_pos [OF m(1)] by (metis Suc_eq_plus1 less_Suc_eq_le less_mult_imp_div_less mult.commute
          diff_zero)
    from spread_value [OF _ this] have "of_nat (r div spread_bucket 0 mx) \<le> mx"
      using \<open>r div spread_bucket 0 mx \<le> unat (mx - 0)\<close> by (simp add: word_le_nat_alt)
    with eq Some x m True k show ?thesis by auto
  qed
qed (simp add: rand_interval_large)

theorem rand_interval_returns_witness: "rand_interval 0 5 ((\<lambda>_. 7), 0) \<noteq> Inr None"
proof
  assume "rand_interval 0 5 ((\<lambda>_. 7), 0) = Inr None"
  with rand_interval_returns [where mx = 5 and rs = "\<lambda>_. 7" and i = 0] have "\<not> 7 < spread_bucket 0 5 * (unat (5 :: 32 word) + 1)"
    by (auto simp: RAND_MAX_def)
  then show False by (simp add: spread_bucket_def RAND_MAX_def)
qed

section \<open>Delays\<close>

lemma periodic_delay_grid:
  assumes "flag_on (ev_flags e) LMAP_EVENT_FLAG_START_SET" "ev_interval e \<noteq> 0"
  shows "\<exists>tv. periodic_delay now e = Inr tv \<and> 0 \<le> tv \<and> uint (ev_interval e) dvd now + tv - ev_start e
    \<and> (if ev_start e < now then 0 < tv \<and> tv \<le> uint (ev_interval e) else now + tv = ev_start e)"
proof -
  let ?i = "uint (ev_interval e)" and ?d = "now - ev_start e"
  have i: "0 < ?i" using assms(2) by (metis uint_0_iff uint_ge_0 order_le_less)
  have m: "?d = ?d div ?i * ?i + ?d mod ?i" by simp
  have "0 \<le> ?d mod ?i" "?d mod ?i < ?i" using i by simp_all
  with m have "(?d div ?i + 1) * ?i - ?d = ?i - ?d mod ?i" unfolding distrib_right by linarith
  then have tv: "ev_start e + (?d div ?i + 1) * ?i - now = ?i - ?d mod ?i" by linarith
  have "now + (?i - ?d mod ?i) - ev_start e = (?d div ?i + 1) * ?i" using tv by linarith
  then have "?i dvd now + (?i - ?d mod ?i) - ev_start e" by simp
  then show ?thesis
    using assms \<open>0 \<le> ?d mod ?i\<close> \<open>?d mod ?i < ?i\<close> by (simp add: periodic_delay_def Let_def tv)
qed

text \<open>
  C34. A periodic event with an interval and a start date keeps to the grid of its start date: the first start is never in the
  past and a whole number of intervals away from the start date. When the start date has passed, it is in the future and at most one
  interval away; when it has not, it is the start date itself.
\<close>

theorem periodic_delay_on_grid:
  assumes "flag_on (ev_flags e) LMAP_EVENT_FLAG_START_SET" "ev_interval e \<noteq> 0"
  shows "\<exists>tv. periodic_delay now e = Inr tv \<and> 0 \<le> tv \<and> uint (ev_interval e) dvd now + tv - ev_start e
    \<and> (if ev_start e < now then 0 < tv \<and> tv \<le> uint (ev_interval e) else now + tv = ev_start e)"
  by (rule periodic_delay_grid [OF assms])

theorem periodic_delay_on_grid_witness:
  "periodic_delay 1000 (lmap_event_new\<lparr>ev_start := 10, ev_interval := 300, ev_flags := LMAP_EVENT_FLAG_START_SET\<rparr>) = Inr 210
    \<and> (300::int) dvd 1000 + 210 - 10"
proof -
  let ?e = "lmap_event_new\<lparr>ev_start := 10, ev_interval := 300, ev_flags := LMAP_EVENT_FLAG_START_SET\<rparr>"
  have f: "flag_on (ev_flags ?e) LMAP_EVENT_FLAG_START_SET" "ev_interval ?e \<noteq> 0" by code_simp+
  have "periodic_delay 1000 ?e = Inr 210" by code_simp
  with periodic_delay_on_grid [OF f, of 1000] show ?thesis by auto
qed

section \<open>One-off and startup events\<close>

text \<open>
  C38. One-off events are armed the wrong way round: one whose time is still to come is skipped, and one whose time has
  passed, however long ago, is fired at once.
\<close>

theorem one_off_armed_late:
  "(case arm_event now l fl (e\<lparr>ev_name := Some n, ev_type := One_Off, ev_fire_event := None\<rparr>) g of
      Inr (Some (e', _)) \<Rightarrow>
        (ev_fire_event e' \<noteq> None \<longleftrightarrow> event_used l n \<and> ev_start e \<le> now)
        \<and> (case ev_fire_event e' of
             None \<Rightarrow> True
           | Some t \<Rightarrow> tmr_delay t \<le> (if flag_on (ev_flags e) LMAP_EVENT_FLAG_RANDOM_SPREAD_SET
                                       then uint (ev_random_spread e) else 0))
    | _ \<Rightarrow> flag_on (ev_flags e) LMAP_EVENT_FLAG_RANDOM_SPREAD_SET)"
proof -
  let ?e = "e\<lparr>ev_name := Some n, ev_type := One_Off, ev_fire_event := None\<rparr>"
  let ?r = "rand_interval 0 (ev_random_spread e) g"
  have sp: "uint v \<le> uint (ev_random_spread e)" if "?r = Inr (Some (v, g'))" for v g'
    using rand_interval_bound [OF that] by (simp add: word_le_def)
  show ?thesis
  proof (cases "event_used l n \<and> ev_start e \<le> now")
    case False
    then show ?thesis by (auto simp: arm_event_def)
  next
    case True
    show ?thesis
    proof (cases "flag_on (ev_flags e) LMAP_EVENT_FLAG_RANDOM_SPREAD_SET")
      case False
      with True show ?thesis
        by (simp add: arm_event_def fire_after_spread_def add_random_spread_def event_gaga_def)
    next
      case spread: True
      show ?thesis
      proof (cases ?r)
        case (Inl f)
        with True spread show ?thesis by (simp add: arm_event_def fire_after_spread_def add_random_spread_def)
      next
        case (Inr x)
        with True spread sp show ?thesis
          by (cases x) (auto simp: arm_event_def fire_after_spread_def add_random_spread_def event_gaga_def)
      qed
    qed
  qed
qed

end
