(* ===== verification/Json.thy ===== *)
theory Json
  imports Events Results
begin

text \<open>
  The engine of \<^verbatim>\<open>src/json-io.c\<close>: trees of json-c, the tables that map the fields of a JSON object to
  handlers (\<open>struct lmap_jsonmap\<close>), the lookup \<open>lookup_jsonmap\<close> with its filter on configuration and
  state, and the loops over objects and arrays that all the parsers of the file have in common.

  json-c is a library the sources call. Its trees are the datatype \<open>json\<close>: the null pointer is \<open>JNull\<close>, an object is the
  list of its fields in the order \<open>json_object_object_foreach\<close> visits them, a string holds the
  bytes before the first zero, which is all the code reads of it. What json-c computes (the tokener, the printers,
  the text of a number) is the parameter \<open>jsonc\<close>.
\<close>

section \<open>Trees\<close>

datatype json =
  JNull | JBool bool | JDouble string | JInt int | JObject "(string \<times> json) list" | JArray "json list"
| JString string

datatype json_type = T_Null | T_Boolean | T_Double | T_Int | T_Object | T_Array | T_String

fun json_object_get_type :: "json \<Rightarrow> json_type" where
  "json_object_get_type JNull = T_Null"
| "json_object_get_type (JBool b) = T_Boolean"
| "json_object_get_type (JDouble s) = T_Double"
| "json_object_get_type (JInt i) = T_Int"
| "json_object_get_type (JObject kvs) = T_Object"
| "json_object_get_type (JArray js) = T_Array"
| "json_object_get_type (JString s) = T_String"

text \<open>
  The state of a tokener after a chunk of input: it wants more, it has met an error, or it has a value.
\<close>

datatype tokener = Tok_Continue | Tok_Error | Tok_Success json

text \<open>
  The functions of the libraries: \<open>jc_parse_ex\<close> is the state of a strict tokener that has been fed a text with
  \<open>json_tokener_parse_ex\<close>, \<open>jc_parse_verbose\<close> is \<open>json_tokener_parse_verbose\<close>, \<open>jc_to_json_string\<close> is
  \<open>json_object_to_json_string\<close>, \<open>jc_pretty\<close> the same with \<open>JSON_C_TO_STRING_PRETTY\<close>, and \<open>jc_strftime\<close>
  is \<open>strftime\<close> with the format \<^verbatim>\<open>%Y-%m-%dT%H:%M:%S%z\<close> on the local time, \<open>None\<close> when \<open>localtime\<close> has none.
\<close>

record jsonc =
  jc_libc :: libc
  jc_parse_ex :: "string \<Rightarrow> tokener"
  jc_parse_verbose :: "string \<Rightarrow> json option"
  jc_to_json_string :: "json \<Rightarrow> string"
  jc_pretty :: "json \<Rightarrow> string"
  jc_strftime :: "int \<Rightarrow> string option"

text \<open>\<open>json_object_get_string\<close>: a string itself, nothing for null, and the text of anything else.\<close>

definition json_object_get_string :: "jsonc \<Rightarrow> json \<Rightarrow> string option" where
  "json_object_get_string J j =
     (case j of JNull \<Rightarrow> None | JString s \<Rightarrow> Some s | _ \<Rightarrow> Some (jc_to_json_string J j))"

text \<open>\<open>json_object_object_get_ex\<close> finds nothing in what is not an object.\<close>

definition json_object_object_get_ex :: "json \<Rightarrow> string \<Rightarrow> json option" where
  "json_object_object_get_ex j k = (case j of JObject kvs \<Rightarrow> map_of kvs k | _ \<Rightarrow> None)"

definition lmap_json_object_is_empty :: "json \<Rightarrow> bool" where
  "lmap_json_object_is_empty j =
     (case j of
        JArray js \<Rightarrow> js = [] \<or> (length js = 1 \<and> js ! 0 = JNull)
      | JObject kvs \<Rightarrow> kvs = []
      | _ \<Rightarrow> False)"

section \<open>Tables of handlers\<close>

definition PARSE_CONFIG_TRUE :: flags where
  "PARSE_CONFIG_TRUE = 0x01"

definition PARSE_CONFIG_FALSE :: flags where
  "PARSE_CONFIG_FALSE = 0x02"

definition YANG_CONFIG_TRUE :: flags where
  "YANG_CONFIG_TRUE = 0x01"

definition YANG_CONFIG_FALSE :: flags where
  "YANG_CONFIG_FALSE = 0x02"

definition YANG_KEY :: flags where
  "YANG_KEY = 0x04"

definition JSONHANDLEMAP_STRHDLR :: flags where
  "JSONHANDLEMAP_STRHDLR = 0x1000"

definition JSONHANDLEMAP_ARRAYITER :: flags where
  "JSONHANDLEMAP_ARRAYITER = 0x2000"

text \<open>
  A handler takes the object under construction and returns its code and the object. The union of the two
  kinds of handler is a datatype; the \<open>JSONHANDLEMAP\<close> macros below set the flag that goes with each.
\<close>

datatype 'c handler =
  Str_Handler "'c \<Rightarrow> string \<Rightarrow> (int \<times> 'c) outcome"
| Obj_Handler "'c \<Rightarrow> json \<Rightarrow> flags \<Rightarrow> (int \<times> 'c) outcome"

datatype 'c jsonmap =
  Entry string json_type flags "'c handler"
| End_Of_Table

definition JSONMAP_ENTRY_OBJANY_X ::
  "string \<Rightarrow> flags \<Rightarrow> ('c \<Rightarrow> json \<Rightarrow> flags \<Rightarrow> (int \<times> 'c) outcome) \<Rightarrow> 'c jsonmap" where
  "JSONMAP_ENTRY_OBJANY_X n f h = Entry n T_Null f (Obj_Handler h)"

definition JSONMAP_ENTRY_STRING_X ::
  "string \<Rightarrow> flags \<Rightarrow> ('c \<Rightarrow> string \<Rightarrow> (int \<times> 'c) outcome) \<Rightarrow> 'c jsonmap" where
  "JSONMAP_ENTRY_STRING_X n f h = Entry n T_String (JSONHANDLEMAP_STRHDLR OR f) (Str_Handler h)"

definition JSONMAP_ENTRY_STRARRAY_X ::
  "string \<Rightarrow> flags \<Rightarrow> ('c \<Rightarrow> string \<Rightarrow> (int \<times> 'c) outcome) \<Rightarrow> 'c jsonmap" where
  "JSONMAP_ENTRY_STRARRAY_X n f h =
     Entry n T_Array (JSONHANDLEMAP_ARRAYITER OR JSONHANDLEMAP_STRHDLR OR f) (Str_Handler h)"

definition JSONMAP_ENTRY_INT2STR_X ::
  "string \<Rightarrow> flags \<Rightarrow> ('c \<Rightarrow> string \<Rightarrow> (int \<times> 'c) outcome) \<Rightarrow> 'c jsonmap" where
  "JSONMAP_ENTRY_INT2STR_X n f h = Entry n T_Int (JSONHANDLEMAP_STRHDLR OR f) (Str_Handler h)"

definition JSONMAP_ENTRY_BOOL2STR_X ::
  "string \<Rightarrow> flags \<Rightarrow> ('c \<Rightarrow> string \<Rightarrow> (int \<times> 'c) outcome) \<Rightarrow> 'c jsonmap" where
  "JSONMAP_ENTRY_BOOL2STR_X n f h = Entry n T_Boolean (JSONHANDLEMAP_STRHDLR OR f) (Str_Handler h)"

definition JSONMAP_ENTRY_OBJARRAY_X ::
  "string \<Rightarrow> flags \<Rightarrow> ('c \<Rightarrow> json \<Rightarrow> flags \<Rightarrow> (int \<times> 'c) outcome) \<Rightarrow> 'c jsonmap" where
  "JSONMAP_ENTRY_OBJARRAY_X n f h = Entry n T_Array (JSONHANDLEMAP_ARRAYITER OR f) (Obj_Handler h)"

definition JSONMAP_ENTRY_OBJECT_X ::
  "string \<Rightarrow> flags \<Rightarrow> ('c \<Rightarrow> json \<Rightarrow> flags \<Rightarrow> (int \<times> 'c) outcome) \<Rightarrow> 'c jsonmap" where
  "JSONMAP_ENTRY_OBJECT_X n f h = Entry n T_Object f (Obj_Handler h)"

lemmas jsonmap_entry_defs =
  JSONMAP_ENTRY_OBJANY_X_def JSONMAP_ENTRY_STRING_X_def JSONMAP_ENTRY_STRARRAY_X_def
  JSONMAP_ENTRY_INT2STR_X_def JSONMAP_ENTRY_BOOL2STR_X_def JSONMAP_ENTRY_OBJARRAY_X_def
  JSONMAP_ENTRY_OBJECT_X_def

section \<open>The lookup\<close>

text \<open>
  The handler of an entry, called with a string or with a tree. An entry whose flags name the other
  kind of handler would call a function through the wrong type; no table has one.
\<close>

definition str_handler :: "'c handler \<Rightarrow> 'c \<Rightarrow> string \<Rightarrow> (int \<times> 'c) outcome" where
  "str_handler h c s = (case h of Str_Handler f \<Rightarrow> f c s | Obj_Handler g \<Rightarrow> Inl Null_Deref)"

definition jobj_handler :: "'c handler \<Rightarrow> 'c \<Rightarrow> json \<Rightarrow> flags \<Rightarrow> (int \<times> 'c) outcome" where
  "jobj_handler h c j w = (case h of Obj_Handler g \<Rightarrow> g c j w | Str_Handler f \<Rightarrow> Inl Null_Deref)"

text \<open>The elements of an array, up to the first whose handler does not return 0.\<close>

fun each_element ::
  "jsonc \<Rightarrow> flags \<Rightarrow> 'c handler \<Rightarrow> flags \<Rightarrow> 'c \<Rightarrow> json list \<Rightarrow> (int \<times> 'c) outcome" where
  "each_element J f h w c [] = Inr (0, c)"
| "each_element J f h w c (j # js) =
     (if flag_on f JSONHANDLEMAP_STRHDLR
      then (case j of
              JString s \<Rightarrow>
                obind (str_handler h c s)
                  (\<lambda>(r, c'). if r \<noteq> 0 then Inr (r, c') else each_element J f h w c' js)
            | _ \<Rightarrow> Inr (-1, c))
      else obind (jobj_handler h c j w)
             (\<lambda>(r, c'). if r \<noteq> 0 then Inr (r, c') else each_element J f h w c' js))"

definition accepts_type :: "json_type \<Rightarrow> json \<Rightarrow> bool" where
  "accepts_type t j \<longleftrightarrow> t = T_Null \<or> json_object_get_type j = t"

text \<open>The filter on configuration and state: does an entry with flags \<open>f\<close> apply under the flags \<open>w\<close>?\<close>

definition entry_applies :: "flags \<Rightarrow> flags \<Rightarrow> bool" where
  "entry_applies w f \<longleftrightarrow>
     \<not> (w \<noteq> 0 \<and> f \<noteq> 0
        \<and> \<not> (flag_on f YANG_KEY
             \<or> (flag_on w PARSE_CONFIG_TRUE \<and> flag_on f YANG_CONFIG_TRUE)
             \<or> (flag_on w PARSE_CONFIG_FALSE \<and> flag_on f YANG_CONFIG_FALSE)))"

definition call_entry ::
  "jsonc \<Rightarrow> flags \<Rightarrow> 'c handler \<Rightarrow> flags \<Rightarrow> 'c \<Rightarrow> json \<Rightarrow> (int \<times> 'c) outcome" where
  "call_entry J f h w c j =
     (case j of
        JArray js \<Rightarrow>
          if flag_on f JSONHANDLEMAP_ARRAYITER then each_element J f h w c js
          else if flag_on f JSONHANDLEMAP_STRHDLR then str_handler h c (jc_to_json_string J j)
          else jobj_handler h c j w
      | _ \<Rightarrow>
          if flag_on f JSONHANDLEMAP_STRHDLR
          then str_handler h c (case json_object_get_string J j of None \<Rightarrow> ''null'' | Some s \<Rightarrow> s)
          else jobj_handler h c j w)"

text \<open>
  \<open>lookup_jsonmap\<close>. A field the table does not have, or that the filter hides, is ignored. A table without its
  terminating entry is read past its end.
\<close>

fun lookup_jsonmap ::
  "jsonc \<Rightarrow> flags \<Rightarrow> 'c jsonmap list \<Rightarrow> 'c \<Rightarrow> string \<Rightarrow> json \<Rightarrow> (int \<times> 'c) outcome" where
  "lookup_jsonmap J w [] c k j = Inl Out_Of_Bounds"
| "lookup_jsonmap J w (End_Of_Table # tab) c k j = Inr (0, c)"
| "lookup_jsonmap J w (Entry n t f h # tab) c k j =
     (if k = n
      then if \<not> accepts_type t j then Inr (-1, c)
           else if \<not> entry_applies w f then Inr (0, c)
           else call_entry J f h w c j
      else lookup_jsonmap J w tab c k j)"

section \<open>Objects and arrays\<close>

text \<open>
  The \<open>json_object_object_foreach\<close> loops of the parsers: \<open>res\<close> starts at -1, so that an object without fields is
  an error, and the first field that fails ends the loop.
\<close>

fun each_field ::
  "jsonc \<Rightarrow> flags \<Rightarrow> 'c jsonmap list \<Rightarrow> int \<Rightarrow> 'c \<Rightarrow> (string \<times> json) list \<Rightarrow> (int \<times> 'c) outcome" where
  "each_field J w tab res c [] = Inr (res, c)"
| "each_field J w tab res c ((k, j) # kvs) =
     obind (lookup_jsonmap J w tab c k j)
       (\<lambda>(r, c'). if r \<noteq> 0 then Inr (r, c') else each_field J w tab r c' kvs)"

text \<open>The macro takes the hash table of an object; what is not an object has none.\<close>

definition object_foreach ::
  "jsonc \<Rightarrow> flags \<Rightarrow> 'c jsonmap list \<Rightarrow> 'c \<Rightarrow> json \<Rightarrow> (int \<times> 'c) outcome" where
  "object_foreach J w tab c j =
     (case j of JObject kvs \<Rightarrow> each_field J w tab (-1) c kvs | _ \<Rightarrow> Inl Null_Deref)"

text \<open>
  The parsers that allocate an object, fill it from the fields and free it again when one failed; \<open>None\<close> is the null
  pointer.
\<close>

definition parse_new ::
  "jsonc \<Rightarrow> flags \<Rightarrow> 'c jsonmap list \<Rightarrow> 'c \<Rightarrow> json \<Rightarrow> 'c option outcome" where
  "parse_new J w tab new j =
     (case j of
        JObject kvs \<Rightarrow> obind (each_field J w tab (-1) new kvs) (\<lambda>(r, c). Inr (if r \<noteq> 0 then None else Some c))
      | _ \<Rightarrow> Inr None)"

text \<open>
  The members of a list: an object whose only field is an array, each element of which is parsed and appended.
  What the appending function returns is not looked at.
\<close>

fun each_member ::
  "(json \<Rightarrow> 'a option outcome) \<Rightarrow> ('c \<Rightarrow> 'a \<Rightarrow> (int \<times> 'c) outcome) \<Rightarrow> 'c \<Rightarrow> json list \<Rightarrow> (int \<times> 'c) outcome" where
  "each_member parse add c [] = Inr (0, c)"
| "each_member parse add c (j # js) =
     obind (parse j)
       (\<lambda>x. case x of
              None \<Rightarrow> Inr (-1, c)
            | Some a \<Rightarrow> obind (add c a) (\<lambda>(r, c'). each_member parse add c' js))"

definition parse_members ::
  "string \<Rightarrow> (json \<Rightarrow> 'a option outcome) \<Rightarrow> ('c \<Rightarrow> 'a \<Rightarrow> (int \<times> 'c) outcome) \<Rightarrow> 'c \<Rightarrow> json
     \<Rightarrow> (int \<times> 'c) outcome" where
  "parse_members field parse add c j =
     (case json_object_object_get_ex j field of
        None \<Rightarrow> Inr (-1, c)
      | Some m \<Rightarrow>
          (case (j, m) of
             (JObject kvs, JArray js) \<Rightarrow> if length kvs \<noteq> 1 then Inr (-1, c) else each_member parse add c js
           | _ \<Rightarrow> Inr (-1, c)))"

text \<open>Parse one member and append it, with the result of the appending function.\<close>

definition parse_and_add ::
  "'a option outcome \<Rightarrow> ('c \<Rightarrow> 'a \<Rightarrow> (int \<times> 'c) outcome) \<Rightarrow> 'c \<Rightarrow> (int \<times> 'c) outcome" where
  "parse_and_add p add c = obind p (\<lambda>x. case x of None \<Rightarrow> Inr (-1, c) | Some a \<Rightarrow> add c a)"

section \<open>What the loops do\<close>

lemmas parse_flag_defs =
  PARSE_CONFIG_TRUE_def PARSE_CONFIG_FALSE_def YANG_CONFIG_TRUE_def YANG_CONFIG_FALSE_def
  YANG_KEY_def JSONHANDLEMAP_STRHDLR_def JSONHANDLEMAP_ARRAYITER_def

lemma each_field_append:
  "each_field J w tab res c (xs @ ys) =
     obind (each_field J w tab res c xs)
       (\<lambda>(r, c'). if r \<noteq> 0 \<and> xs \<noteq> [] then Inr (r, c') else each_field J w tab r c' ys)"
proof (induction xs arbitrary: res c)
  case Nil
  then show ?case by simp
next
  case (Cons x xs)
  obtain k j where x: "x = (k, j)" by fastforce
  show ?case
  proof (cases "lookup_jsonmap J w tab c k j")
    case (Inl e)
    with x show ?thesis by simp
  next
    case (Inr p)
    obtain r c' where p: "p = (r, c')" by fastforce
    show ?thesis
    proof (cases "r = 0")
      case True
      with x Inr p Cons.IH [of r c'] show ?thesis
        by (cases xs) auto
    next
      case False
      with x Inr p show ?thesis by simp
    qed
  qed
qed

text \<open>
  How the parsers read what the renderers write: a piece of an object, which is a list of fields, turns the object under
  construction into another without an error.
\<close>

definition reads ::
  "jsonc \<Rightarrow> flags \<Rightarrow> 'c jsonmap list \<Rightarrow> (string \<times> json) list \<Rightarrow> 'c \<Rightarrow> 'c \<Rightarrow> bool" where
  "reads J w tab kvs c c' \<longleftrightarrow>
     (\<forall>res. each_field J w tab res c kvs = Inr (if kvs = [] then res else 0, c'))"

lemma reads_Nil: "reads J w tab [] c c"
  by (simp add: reads_def)

lemma reads_append:
  "reads J w tab xs c c1 \<Longrightarrow> reads J w tab ys c1 c2 \<Longrightarrow> reads J w tab (xs @ ys) c c2"
  by (simp add: reads_def each_field_append)

lemma reads_one:
  "lookup_jsonmap J w tab c k j = Inr (0, c') \<Longrightarrow> reads J w tab [(k, j)] c c'"
  by (simp add: reads_def)

lemma reads_Cons:
  "lookup_jsonmap J w tab c k j = Inr (0, c1) \<Longrightarrow> reads J w tab kvs c1 c2 \<Longrightarrow>
     reads J w tab ((k, j) # kvs) c c2"
  using reads_append [OF reads_one] by fastforce

lemma parse_new_reads:
  "reads J w tab kvs new c \<Longrightarrow> kvs \<noteq> [] \<Longrightarrow> parse_new J w tab new (JObject kvs) = Inr (Some c)"
  by (simp add: parse_new_def reads_def)

lemma each_member_adds:
  "\<forall>x\<in>set xs. parse (f x) = Inr (Some (g x)) \<Longrightarrow>
     each_member parse add c (map f xs) = obind (add_all add c (map g xs)) (\<lambda>c'. Inr (0, c'))"
proof (induction xs arbitrary: c)
  case Nil
  then show ?case by simp
next
  case (Cons x xs)
  then show ?case by (cases "add c (g x)") auto
qed

end
