(* ===== verification/Json_Config.thy ===== *)
theory Json_Config
  imports Json
begin

text \<open>
  The parsers of \<^verbatim>\<open>src/json-io.c\<close> for a configuration or state document, in the order of the file: options, registries,
  tasks, capabilities, the agent, events, suppressions, actions and schedules, up to \<open>parse_control_doc\<close>. A
  function \<open>xx_...\<close> is the handler of the field of that name; the table of each parser is a definition of its own.
\<close>

section \<open>Options and registries\<close>

definition xx_los_id :: "lmap_option \<Rightarrow> string \<Rightarrow> (int \<times> lmap_option) outcome" where
  "xx_los_id p s = Inr (lmap_option_set_id p (Some s))"

definition xx_los_name :: "lmap_option \<Rightarrow> string \<Rightarrow> (int \<times> lmap_option) outcome" where
  "xx_los_name p s = Inr (lmap_option_set_name p (Some s))"

definition xx_los_value :: "lmap_option \<Rightarrow> string \<Rightarrow> (int \<times> lmap_option) outcome" where
  "xx_los_value p s = Inr (lmap_option_set_value p (Some s))"

definition option_tab :: "jsonc \<Rightarrow> lmap_option jsonmap list" where
  "option_tab J =
     [JSONMAP_ENTRY_STRING_X ''id'' YANG_CONFIG_TRUE xx_los_id,
      JSONMAP_ENTRY_STRING_X ''name'' YANG_CONFIG_TRUE xx_los_name,
      JSONMAP_ENTRY_STRING_X ''value'' YANG_CONFIG_TRUE xx_los_value,
      End_Of_Table]"

definition parse_option :: "jsonc \<Rightarrow> json \<Rightarrow> flags \<Rightarrow> lmap_option option outcome" where
  "parse_option J j w = parse_new J w (option_tab J) lmap_option_new j"

definition xx_lreg_uri :: "registry \<Rightarrow> string \<Rightarrow> (int \<times> registry) outcome" where
  "xx_lreg_uri p s = Inr (lmap_registry_set_uri p (Some s))"

definition xx_lreg_role :: "registry \<Rightarrow> string \<Rightarrow> (int \<times> registry) outcome" where
  "xx_lreg_role p s = lmap_registry_add_role p (Some s)"

definition registry_tab :: "jsonc \<Rightarrow> registry jsonmap list" where
  "registry_tab J =
     [JSONMAP_ENTRY_STRING_X ''uri'' YANG_CONFIG_TRUE xx_lreg_uri,
      JSONMAP_ENTRY_STRARRAY_X ''role'' YANG_CONFIG_TRUE xx_lreg_role,
      End_Of_Table]"

definition parse_registry :: "jsonc \<Rightarrow> json \<Rightarrow> flags \<Rightarrow> registry option outcome" where
  "parse_registry J j w = parse_new J w (registry_tab J) lmap_registry_new j"

section \<open>Tasks\<close>

definition xx_lt_name :: "task \<Rightarrow> string \<Rightarrow> (int \<times> task) outcome" where
  "xx_lt_name p s = Inr (lmap_task_set_name p (Some s))"

definition xx_lt_program :: "task \<Rightarrow> string \<Rightarrow> (int \<times> task) outcome" where
  "xx_lt_program p s = Inr (lmap_task_set_program p (Some s))"

definition xx_lt_version :: "task \<Rightarrow> string \<Rightarrow> (int \<times> task) outcome" where
  "xx_lt_version p s = Inr (lmap_task_set_version p (Some s))"

definition xx_lt_tag :: "task \<Rightarrow> string \<Rightarrow> (int \<times> task) outcome" where
  "xx_lt_tag p s = lmap_task_add_tag p (Some s)"

definition xx_lt_option :: "jsonc \<Rightarrow> task \<Rightarrow> json \<Rightarrow> flags \<Rightarrow> (int \<times> task) outcome" where
  "xx_lt_option J p j w = parse_and_add (parse_option J j w) lmap_task_add_option p"

definition xx_lt_function :: "jsonc \<Rightarrow> task \<Rightarrow> json \<Rightarrow> flags \<Rightarrow> (int \<times> task) outcome" where
  "xx_lt_function J p j w = parse_and_add (parse_registry J j w) lmap_task_add_registry p"

definition task_tab :: "jsonc \<Rightarrow> task jsonmap list" where
  "task_tab J =
     [JSONMAP_ENTRY_STRING_X ''name'' YANG_KEY xx_lt_name,
      JSONMAP_ENTRY_STRING_X ''program'' (YANG_CONFIG_TRUE OR YANG_CONFIG_FALSE) xx_lt_program,
      JSONMAP_ENTRY_STRING_X ''version'' YANG_CONFIG_FALSE xx_lt_version,
      JSONMAP_ENTRY_STRARRAY_X ''tag'' YANG_CONFIG_TRUE xx_lt_tag,
      JSONMAP_ENTRY_OBJARRAY_X ''option'' YANG_CONFIG_TRUE (xx_lt_option J),
      JSONMAP_ENTRY_OBJARRAY_X ''function'' (YANG_CONFIG_TRUE OR YANG_CONFIG_FALSE) (xx_lt_function J),
      End_Of_Table]"

definition parse_task :: "jsonc \<Rightarrow> json \<Rightarrow> flags \<Rightarrow> task option outcome" where
  "parse_task J j w = parse_new J w (task_tab J) lmap_task_new j"

definition parse_tasks ::
  "jsonc \<Rightarrow> ('c \<Rightarrow> task \<Rightarrow> (int \<times> 'c) outcome) \<Rightarrow> 'c \<Rightarrow> json \<Rightarrow> flags \<Rightarrow> (int \<times> 'c) outcome" where
  "parse_tasks J add p j w = parse_members ''task'' (\<lambda>x. parse_task J x w) add p j"

text \<open>
  The tasks of a configuration are read without the state fields, those of the capabilities without the
  configuration fields.
\<close>

definition xx_lctrl_tasks :: "jsonc \<Rightarrow> lmap \<Rightarrow> json \<Rightarrow> flags \<Rightarrow> (int \<times> lmap) outcome" where
  "xx_lctrl_tasks J p j w = parse_tasks J lmap_add_task p j (flag_clear w PARSE_CONFIG_FALSE)"

section \<open>Capabilities\<close>

definition xx_lcap_tasks :: "jsonc \<Rightarrow> capability \<Rightarrow> json \<Rightarrow> flags \<Rightarrow> (int \<times> capability) outcome" where
  "xx_lcap_tasks J p j w = parse_tasks J lmap_capability_add_task p j (flag_clear w PARSE_CONFIG_TRUE)"

definition xx_lcap_version :: "capability \<Rightarrow> string \<Rightarrow> (int \<times> capability) outcome" where
  "xx_lcap_version p s = Inr (lmap_capability_set_version p (Some s))"

definition xx_lcap_tag :: "capability \<Rightarrow> string \<Rightarrow> (int \<times> capability) outcome" where
  "xx_lcap_tag p s = lmap_capability_add_tag p (Some s)"

definition capability_tab :: "jsonc \<Rightarrow> capability jsonmap list" where
  "capability_tab J =
     [JSONMAP_ENTRY_STRING_X ''version'' YANG_CONFIG_FALSE xx_lcap_version,
      JSONMAP_ENTRY_STRARRAY_X ''tag'' YANG_CONFIG_FALSE xx_lcap_tag,
      JSONMAP_ENTRY_OBJECT_X ''tasks'' YANG_CONFIG_FALSE (xx_lcap_tasks J),
      End_Of_Table]"

text \<open>
  The capabilities and the agent are objects of the configuration that the first document to name them creates; what was
  read before an error stays in them.
\<close>

definition xx_lctrl_capabilities :: "jsonc \<Rightarrow> lmap \<Rightarrow> json \<Rightarrow> flags \<Rightarrow> (int \<times> lmap) outcome" where
  "xx_lctrl_capabilities J p j w =
     (if json_object_get_type j \<noteq> T_Object then Inr (-1, p)
      else obind (object_foreach J w (capability_tab J)
                    (case lm_capabilities p of None \<Rightarrow> lmap_capability_new | Some c \<Rightarrow> c) j)
             (\<lambda>(r, c). Inr (r, p\<lparr>lm_capabilities := Some c\<rparr>)))"

section \<open>The agent\<close>

definition xx_lcas_agent_id :: "agent \<Rightarrow> string \<Rightarrow> (int \<times> agent) outcome" where
  "xx_lcas_agent_id p s = Inr (lmap_agent_set_agent_id p (Some s))"

definition xx_lcas_group_id :: "agent \<Rightarrow> string \<Rightarrow> (int \<times> agent) outcome" where
  "xx_lcas_group_id p s = Inr (lmap_agent_set_group_id p (Some s))"

definition xx_lcas_measurement_point :: "agent \<Rightarrow> string \<Rightarrow> (int \<times> agent) outcome" where
  "xx_lcas_measurement_point p s = Inr (lmap_agent_set_measurement_point p (Some s))"

definition xx_lcas_report_agent_id :: "agent \<Rightarrow> string \<Rightarrow> (int \<times> agent) outcome" where
  "xx_lcas_report_agent_id p s = Inr (lmap_agent_set_report_agent_id p s)"

definition xx_lcas_report_group_id :: "agent \<Rightarrow> string \<Rightarrow> (int \<times> agent) outcome" where
  "xx_lcas_report_group_id p s = Inr (lmap_agent_set_report_group_id p s)"

definition xx_lcas_report_measurement_point :: "agent \<Rightarrow> string \<Rightarrow> (int \<times> agent) outcome" where
  "xx_lcas_report_measurement_point p s = Inr (lmap_agent_set_report_measurement_point p s)"

definition xx_lcas_controller_timeout :: "agent \<Rightarrow> string \<Rightarrow> (int \<times> agent) outcome" where
  "xx_lcas_controller_timeout p s = Inr (lmap_agent_set_controller_timeout p s)"

definition xx_lcas_last_started :: "jsonc \<Rightarrow> agent \<Rightarrow> string \<Rightarrow> (int \<times> agent) outcome" where
  "xx_lcas_last_started J p s = Inr (lmap_agent_set_last_started (jc_libc J) p s)"

definition agent_tab :: "jsonc \<Rightarrow> agent jsonmap list" where
  "agent_tab J =
     [JSONMAP_ENTRY_STRING_X ''agent-id'' YANG_CONFIG_TRUE xx_lcas_agent_id,
      JSONMAP_ENTRY_STRING_X ''group-id'' YANG_CONFIG_TRUE xx_lcas_group_id,
      JSONMAP_ENTRY_STRING_X ''measurement-point'' YANG_CONFIG_TRUE xx_lcas_measurement_point,
      JSONMAP_ENTRY_BOOL2STR_X ''report-agent-id'' YANG_CONFIG_TRUE xx_lcas_report_agent_id,
      JSONMAP_ENTRY_BOOL2STR_X ''report-group-id'' YANG_CONFIG_TRUE xx_lcas_report_group_id,
      JSONMAP_ENTRY_BOOL2STR_X ''report-measurement-point'' YANG_CONFIG_TRUE xx_lcas_report_measurement_point,
      JSONMAP_ENTRY_INT2STR_X ''controller-timeout'' YANG_CONFIG_TRUE xx_lcas_controller_timeout,
      JSONMAP_ENTRY_STRING_X ''last-started'' YANG_CONFIG_FALSE (xx_lcas_last_started J),
      End_Of_Table]"

definition xx_lctrl_agent :: "jsonc \<Rightarrow> lmap \<Rightarrow> json \<Rightarrow> flags \<Rightarrow> (int \<times> lmap) outcome" where
  "xx_lctrl_agent J p j w =
     obind (object_foreach J w (agent_tab J) (case lm_agent p of None \<Rightarrow> lmap_agent_new | Some a \<Rightarrow> a) j)
       (\<lambda>(r, a). Inr (r, p\<lparr>lm_agent := Some a\<rparr>))"

section \<open>Events\<close>

definition xx_lce_interval :: "event \<Rightarrow> string \<Rightarrow> (int \<times> event) outcome" where
  "xx_lce_interval p s = Inr (lmap_event_set_interval p s)"

definition xx_lce_start :: "jsonc \<Rightarrow> event \<Rightarrow> string \<Rightarrow> (int \<times> event) outcome" where
  "xx_lce_start J p s = Inr (lmap_event_set_start (jc_libc J) p s)"

definition xx_lce_end :: "jsonc \<Rightarrow> event \<Rightarrow> string \<Rightarrow> (int \<times> event) outcome" where
  "xx_lce_end J p s = Inr (lmap_event_set_end (jc_libc J) p s)"

definition xx_lcec_month :: "event \<Rightarrow> string \<Rightarrow> (int \<times> event) outcome" where
  "xx_lcec_month p s = Inr (lmap_event_add_month p s)"

text \<open>
  The elements of the other calendar fields may be numbers or strings, and whatever else: they are handed to the setters as
  the text json-c makes of them. A null element has no text, and the setters compare it with the star at once.
\<close>

definition element_text ::
  "jsonc \<Rightarrow> (event \<Rightarrow> string \<Rightarrow> int \<times> event) \<Rightarrow> event \<Rightarrow> json \<Rightarrow> (int \<times> event) outcome" where
  "element_text J add p j =
     (case json_object_get_string J j of None \<Rightarrow> Inl Null_Deref | Some s \<Rightarrow> Inr (add p s))"

definition xx_lcec_day_of_month :: "jsonc \<Rightarrow> event \<Rightarrow> json \<Rightarrow> flags \<Rightarrow> (int \<times> event) outcome" where
  "xx_lcec_day_of_month J p j w = element_text J lmap_event_add_day_of_month p j"

definition xx_lcec_day_of_week :: "jsonc \<Rightarrow> event \<Rightarrow> json \<Rightarrow> flags \<Rightarrow> (int \<times> event) outcome" where
  "xx_lcec_day_of_week J p j w = element_text J lmap_event_add_day_of_week p j"

definition xx_lcec_hour :: "jsonc \<Rightarrow> event \<Rightarrow> json \<Rightarrow> flags \<Rightarrow> (int \<times> event) outcome" where
  "xx_lcec_hour J p j w = element_text J lmap_event_add_hour p j"

definition xx_lcec_minute :: "jsonc \<Rightarrow> event \<Rightarrow> json \<Rightarrow> flags \<Rightarrow> (int \<times> event) outcome" where
  "xx_lcec_minute J p j w = element_text J lmap_event_add_minute p j"

definition xx_lcec_second :: "jsonc \<Rightarrow> event \<Rightarrow> json \<Rightarrow> flags \<Rightarrow> (int \<times> event) outcome" where
  "xx_lcec_second J p j w = element_text J lmap_event_add_second p j"

definition xx_lcec_timezone_offset :: "event \<Rightarrow> string \<Rightarrow> (int \<times> event) outcome" where
  "xx_lcec_timezone_offset p s = Inr (lmap_event_set_timezone_offset p s)"

text \<open>
  A handler of an event type sets the type when all fields have been read.
\<close>

definition xx_lcee ::
  "jsonc \<Rightarrow> string \<Rightarrow> event jsonmap list \<Rightarrow> event \<Rightarrow> json \<Rightarrow> flags \<Rightarrow> (int \<times> event) outcome" where
  "xx_lcee J type tab p j w =
     (if j = JNull then Inr (-1, p)
      else obind (object_foreach J w tab p j)
             (\<lambda>(r, e). Inr (r, if r = 0 then snd (lmap_event_set_type e type) else e)))"

definition periodic_tab :: "jsonc \<Rightarrow> event jsonmap list" where
  "periodic_tab J =
     [JSONMAP_ENTRY_INT2STR_X ''interval'' YANG_CONFIG_TRUE xx_lce_interval,
      JSONMAP_ENTRY_STRING_X ''start'' YANG_CONFIG_TRUE (xx_lce_start J),
      JSONMAP_ENTRY_STRING_X ''end'' YANG_CONFIG_TRUE (xx_lce_end J),
      End_Of_Table]"

definition xx_lcee_periodic :: "jsonc \<Rightarrow> event \<Rightarrow> json \<Rightarrow> flags \<Rightarrow> (int \<times> event) outcome" where
  "xx_lcee_periodic J = xx_lcee J ''periodic'' (periodic_tab J)"

definition calendar_tab :: "jsonc \<Rightarrow> event jsonmap list" where
  "calendar_tab J =
     [JSONMAP_ENTRY_STRARRAY_X ''month'' YANG_CONFIG_TRUE xx_lcec_month,
      JSONMAP_ENTRY_OBJARRAY_X ''day-of-month'' YANG_CONFIG_TRUE (xx_lcec_day_of_month J),
      JSONMAP_ENTRY_OBJARRAY_X ''day-of-week'' YANG_CONFIG_TRUE (xx_lcec_day_of_week J),
      JSONMAP_ENTRY_OBJARRAY_X ''hour'' YANG_CONFIG_TRUE (xx_lcec_hour J),
      JSONMAP_ENTRY_OBJARRAY_X ''minute'' YANG_CONFIG_TRUE (xx_lcec_minute J),
      JSONMAP_ENTRY_OBJARRAY_X ''second'' YANG_CONFIG_TRUE (xx_lcec_second J),
      JSONMAP_ENTRY_STRING_X ''timezone-offset'' YANG_CONFIG_TRUE xx_lcec_timezone_offset,
      JSONMAP_ENTRY_STRING_X ''start'' YANG_CONFIG_TRUE (xx_lce_start J),
      JSONMAP_ENTRY_STRING_X ''end'' YANG_CONFIG_TRUE (xx_lce_end J),
      End_Of_Table]"

definition xx_lcee_calendar :: "jsonc \<Rightarrow> event \<Rightarrow> json \<Rightarrow> flags \<Rightarrow> (int \<times> event) outcome" where
  "xx_lcee_calendar J = xx_lcee J ''calendar'' (calendar_tab J)"

definition one_off_tab :: "jsonc \<Rightarrow> event jsonmap list" where
  "one_off_tab J =
     [JSONMAP_ENTRY_STRING_X ''time'' YANG_CONFIG_TRUE (xx_lce_start J),
      End_Of_Table]"

definition xx_lcee_one_off :: "jsonc \<Rightarrow> event \<Rightarrow> json \<Rightarrow> flags \<Rightarrow> (int \<times> event) outcome" where
  "xx_lcee_one_off J = xx_lcee J ''one-off'' (one_off_tab J)"

definition xx_lceez :: "string \<Rightarrow> event \<Rightarrow> json \<Rightarrow> (int \<times> event) outcome" where
  "xx_lceez type p j =
     Inr (if j = JNull \<or> \<not> lmap_json_object_is_empty j then (-1, p) else lmap_event_set_type p type)"

definition xx_lceez_immediate :: "event \<Rightarrow> json \<Rightarrow> flags \<Rightarrow> (int \<times> event) outcome" where
  "xx_lceez_immediate p j w = xx_lceez ''immediate'' p j"

definition xx_lceez_startup :: "event \<Rightarrow> json \<Rightarrow> flags \<Rightarrow> (int \<times> event) outcome" where
  "xx_lceez_startup p j w = xx_lceez ''startup'' p j"

definition xx_lceez_controller_lost :: "event \<Rightarrow> json \<Rightarrow> flags \<Rightarrow> (int \<times> event) outcome" where
  "xx_lceez_controller_lost p j w = xx_lceez ''controller-lost'' p j"

definition xx_lceez_controller_connected :: "event \<Rightarrow> json \<Rightarrow> flags \<Rightarrow> (int \<times> event) outcome" where
  "xx_lceez_controller_connected p j w = xx_lceez ''controller-connected'' p j"

definition xx_lce_name :: "event \<Rightarrow> string \<Rightarrow> (int \<times> event) outcome" where
  "xx_lce_name p s = Inr (lmap_event_set_name p (Some s))"

definition xx_lce_random_spread :: "event \<Rightarrow> string \<Rightarrow> (int \<times> event) outcome" where
  "xx_lce_random_spread p s = Inr (lmap_event_set_random_spread p s)"

definition xx_lce_cycle_interval :: "event \<Rightarrow> string \<Rightarrow> (int \<times> event) outcome" where
  "xx_lce_cycle_interval p s = Inr (lmap_event_set_cycle_interval p s)"

definition event_tab :: "jsonc \<Rightarrow> event jsonmap list" where
  "event_tab J =
     [JSONMAP_ENTRY_STRING_X ''name'' YANG_KEY xx_lce_name,
      JSONMAP_ENTRY_INT2STR_X ''random-spread'' YANG_CONFIG_TRUE xx_lce_random_spread,
      JSONMAP_ENTRY_INT2STR_X ''cycle-interval'' YANG_CONFIG_TRUE xx_lce_cycle_interval,
      JSONMAP_ENTRY_OBJECT_X ''periodic'' YANG_CONFIG_TRUE (xx_lcee_periodic J),
      JSONMAP_ENTRY_OBJECT_X ''calendar'' YANG_CONFIG_TRUE (xx_lcee_calendar J),
      JSONMAP_ENTRY_OBJECT_X ''one-off'' YANG_CONFIG_TRUE (xx_lcee_one_off J),
      JSONMAP_ENTRY_OBJANY_X ''immediate'' YANG_CONFIG_TRUE xx_lceez_immediate,
      JSONMAP_ENTRY_OBJANY_X ''startup'' YANG_CONFIG_TRUE xx_lceez_startup,
      JSONMAP_ENTRY_OBJANY_X ''controller-lost'' YANG_CONFIG_TRUE xx_lceez_controller_lost,
      JSONMAP_ENTRY_OBJANY_X ''controller-connected'' YANG_CONFIG_TRUE xx_lceez_controller_connected,
      End_Of_Table]"

definition parse_event :: "jsonc \<Rightarrow> json \<Rightarrow> flags \<Rightarrow> event option outcome" where
  "parse_event J j w = parse_new J w (event_tab J) lmap_event_new j"

definition xx_lctrl_events :: "jsonc \<Rightarrow> lmap \<Rightarrow> json \<Rightarrow> flags \<Rightarrow> (int \<times> lmap) outcome" where
  "xx_lctrl_events J p j w = parse_members ''event'' (\<lambda>x. parse_event J x w) lmap_add_event p j"

section \<open>Suppressions\<close>

definition xx_lcsp_name :: "supp \<Rightarrow> string \<Rightarrow> (int \<times> supp) outcome" where
  "xx_lcsp_name p s = Inr (lmap_supp_set_name p (Some s))"

definition xx_lcsp_start :: "supp \<Rightarrow> string \<Rightarrow> (int \<times> supp) outcome" where
  "xx_lcsp_start p s = Inr (lmap_supp_set_start p (Some s))"

definition xx_lcsp_end :: "supp \<Rightarrow> string \<Rightarrow> (int \<times> supp) outcome" where
  "xx_lcsp_end p s = Inr (lmap_supp_set_end p (Some s))"

definition xx_lcsp_match :: "supp \<Rightarrow> string \<Rightarrow> (int \<times> supp) outcome" where
  "xx_lcsp_match p s = lmap_supp_add_match p (Some s)"

definition xx_lcsp_stop_running :: "supp \<Rightarrow> string \<Rightarrow> (int \<times> supp) outcome" where
  "xx_lcsp_stop_running p s = Inr (lmap_supp_set_stop_running p s)"

definition xx_lcsp_state :: "supp \<Rightarrow> string \<Rightarrow> (int \<times> supp) outcome" where
  "xx_lcsp_state p s = Inr (lmap_supp_set_state p s)"

definition supp_tab :: "jsonc \<Rightarrow> supp jsonmap list" where
  "supp_tab J =
     [JSONMAP_ENTRY_STRING_X ''name'' YANG_KEY xx_lcsp_name,
      JSONMAP_ENTRY_STRING_X ''start'' YANG_CONFIG_TRUE xx_lcsp_start,
      JSONMAP_ENTRY_STRING_X ''end'' YANG_CONFIG_TRUE xx_lcsp_end,
      JSONMAP_ENTRY_STRARRAY_X ''match'' YANG_CONFIG_TRUE xx_lcsp_match,
      JSONMAP_ENTRY_BOOL2STR_X ''stop-running'' YANG_CONFIG_TRUE xx_lcsp_stop_running,
      JSONMAP_ENTRY_STRING_X ''state'' YANG_CONFIG_FALSE xx_lcsp_state,
      End_Of_Table]"

definition parse_suppression :: "jsonc \<Rightarrow> json \<Rightarrow> flags \<Rightarrow> supp option outcome" where
  "parse_suppression J j w = parse_new J w (supp_tab J) lmap_supp_new j"

definition xx_lctrl_suppressions :: "jsonc \<Rightarrow> lmap \<Rightarrow> json \<Rightarrow> flags \<Rightarrow> (int \<times> lmap) outcome" where
  "xx_lctrl_suppressions J p j w = parse_members ''suppression'' (\<lambda>x. parse_suppression J x w) lmap_add_supp p j"

section \<open>Actions\<close>

definition xx_lact_name :: "action \<Rightarrow> string \<Rightarrow> (int \<times> action) outcome" where
  "xx_lact_name p s = Inr (lmap_action_set_name p (Some s))"

definition xx_lact_task :: "action \<Rightarrow> string \<Rightarrow> (int \<times> action) outcome" where
  "xx_lact_task p s = Inr (lmap_action_set_task p (Some s))"

definition xx_lact_option :: "jsonc \<Rightarrow> action \<Rightarrow> json \<Rightarrow> flags \<Rightarrow> (int \<times> action) outcome" where
  "xx_lact_option J p j w = parse_and_add (parse_option J j w) lmap_action_add_option p"

definition xx_lact_destination :: "action \<Rightarrow> string \<Rightarrow> (int \<times> action) outcome" where
  "xx_lact_destination p s = lmap_action_add_destination p (Some s)"

definition xx_lact_tag :: "action \<Rightarrow> string \<Rightarrow> (int \<times> action) outcome" where
  "xx_lact_tag p s = lmap_action_add_tag p (Some s)"

definition xx_lact_supp_tag :: "action \<Rightarrow> string \<Rightarrow> (int \<times> action) outcome" where
  "xx_lact_supp_tag p s = lmap_action_add_suppression_tag p (Some s)"

definition xx_lact_state :: "action \<Rightarrow> string \<Rightarrow> (int \<times> action) outcome" where
  "xx_lact_state p s = Inr (lmap_action_set_state p s)"

definition xx_lact_storage :: "action \<Rightarrow> string \<Rightarrow> (int \<times> action) outcome" where
  "xx_lact_storage p s = Inr (lmap_action_set_storage p s)"

definition xx_lact_invocations :: "action \<Rightarrow> string \<Rightarrow> (int \<times> action) outcome" where
  "xx_lact_invocations p s = Inr (lmap_action_set_invocations p s)"

definition xx_lact_suppressions :: "action \<Rightarrow> string \<Rightarrow> (int \<times> action) outcome" where
  "xx_lact_suppressions p s = Inr (lmap_action_set_suppressions p s)"

definition xx_lact_overlaps :: "action \<Rightarrow> string \<Rightarrow> (int \<times> action) outcome" where
  "xx_lact_overlaps p s = Inr (lmap_action_set_overlaps p s)"

definition xx_lact_failures :: "action \<Rightarrow> string \<Rightarrow> (int \<times> action) outcome" where
  "xx_lact_failures p s = Inr (lmap_action_set_failures p s)"

definition xx_lact_last_invocation :: "jsonc \<Rightarrow> action \<Rightarrow> string \<Rightarrow> (int \<times> action) outcome" where
  "xx_lact_last_invocation J p s = Inr (lmap_action_set_last_invocation (jc_libc J) p s)"

definition xx_lact_last_completion :: "jsonc \<Rightarrow> action \<Rightarrow> string \<Rightarrow> (int \<times> action) outcome" where
  "xx_lact_last_completion J p s = Inr (lmap_action_set_last_completion (jc_libc J) p s)"

definition xx_lact_last_status :: "action \<Rightarrow> string \<Rightarrow> (int \<times> action) outcome" where
  "xx_lact_last_status p s = Inr (lmap_action_set_last_status p s)"

definition xx_lact_last_message :: "action \<Rightarrow> string \<Rightarrow> (int \<times> action) outcome" where
  "xx_lact_last_message p s = Inr (lmap_action_set_last_message p (Some s))"

definition xx_lact_last_failed_completion :: "jsonc \<Rightarrow> action \<Rightarrow> string \<Rightarrow> (int \<times> action) outcome" where
  "xx_lact_last_failed_completion J p s = Inr (lmap_action_set_last_failed_completion (jc_libc J) p s)"

definition xx_lact_last_failed_status :: "action \<Rightarrow> string \<Rightarrow> (int \<times> action) outcome" where
  "xx_lact_last_failed_status p s = Inr (lmap_action_set_last_failed_status p s)"

definition xx_lact_last_failed_message :: "action \<Rightarrow> string \<Rightarrow> (int \<times> action) outcome" where
  "xx_lact_last_failed_message p s = Inr (lmap_action_set_last_failed_message p (Some s))"

definition action_tab :: "jsonc \<Rightarrow> action jsonmap list" where
  "action_tab J =
     [JSONMAP_ENTRY_STRING_X ''name'' YANG_KEY xx_lact_name,
      JSONMAP_ENTRY_STRING_X ''task'' YANG_CONFIG_TRUE xx_lact_task,
      JSONMAP_ENTRY_OBJARRAY_X ''option'' YANG_CONFIG_TRUE (xx_lact_option J),
      JSONMAP_ENTRY_STRARRAY_X ''destination'' YANG_CONFIG_TRUE xx_lact_destination,
      JSONMAP_ENTRY_STRARRAY_X ''tag'' YANG_CONFIG_TRUE xx_lact_tag,
      JSONMAP_ENTRY_STRARRAY_X ''suppression-tag'' YANG_CONFIG_TRUE xx_lact_supp_tag,
      JSONMAP_ENTRY_STRING_X ''state'' YANG_CONFIG_FALSE xx_lact_state,
      JSONMAP_ENTRY_STRING_X ''storage'' YANG_CONFIG_FALSE xx_lact_storage,
      JSONMAP_ENTRY_INT2STR_X ''invocations'' YANG_CONFIG_FALSE xx_lact_invocations,
      JSONMAP_ENTRY_INT2STR_X ''suppressions'' YANG_CONFIG_FALSE xx_lact_suppressions,
      JSONMAP_ENTRY_INT2STR_X ''overlaps'' YANG_CONFIG_FALSE xx_lact_overlaps,
      JSONMAP_ENTRY_INT2STR_X ''failures'' YANG_CONFIG_FALSE xx_lact_failures,
      JSONMAP_ENTRY_STRING_X ''last-invocation'' YANG_CONFIG_FALSE (xx_lact_last_invocation J),
      JSONMAP_ENTRY_STRING_X ''last-completion'' YANG_CONFIG_FALSE (xx_lact_last_completion J),
      JSONMAP_ENTRY_INT2STR_X ''last-status'' YANG_CONFIG_FALSE xx_lact_last_status,
      JSONMAP_ENTRY_STRING_X ''last-message'' YANG_CONFIG_FALSE xx_lact_last_message,
      JSONMAP_ENTRY_STRING_X ''last-failed-completion'' YANG_CONFIG_FALSE (xx_lact_last_failed_completion J),
      JSONMAP_ENTRY_INT2STR_X ''last-failed-status'' YANG_CONFIG_FALSE xx_lact_last_failed_status,
      JSONMAP_ENTRY_STRING_X ''last-failed-message'' YANG_CONFIG_FALSE xx_lact_last_failed_message,
      End_Of_Table]"

definition parse_action :: "jsonc \<Rightarrow> json \<Rightarrow> flags \<Rightarrow> action option outcome" where
  "parse_action J j w = parse_new J w (action_tab J) lmap_action_new j"

definition xx_lsch_action :: "jsonc \<Rightarrow> schedule \<Rightarrow> json \<Rightarrow> flags \<Rightarrow> (int \<times> schedule) outcome" where
  "xx_lsch_action J p j w = parse_and_add (parse_action J j w) lmap_schedule_add_action p"

section \<open>Schedules\<close>

definition xx_lsch_name :: "schedule \<Rightarrow> string \<Rightarrow> (int \<times> schedule) outcome" where
  "xx_lsch_name p s = Inr (lmap_schedule_set_name p (Some s))"

definition xx_lsch_start :: "schedule \<Rightarrow> string \<Rightarrow> (int \<times> schedule) outcome" where
  "xx_lsch_start p s = Inr (lmap_schedule_set_start p (Some s))"

definition xx_lsch_end :: "schedule \<Rightarrow> string \<Rightarrow> (int \<times> schedule) outcome" where
  "xx_lsch_end p s = Inr (lmap_schedule_set_end p (Some s))"

definition xx_lsch_duration :: "schedule \<Rightarrow> string \<Rightarrow> (int \<times> schedule) outcome" where
  "xx_lsch_duration p s = Inr (lmap_schedule_set_duration p s)"

definition xx_lsch_exec_mode :: "schedule \<Rightarrow> string \<Rightarrow> (int \<times> schedule) outcome" where
  "xx_lsch_exec_mode p s = Inr (lmap_schedule_set_exec_mode p s)"

definition xx_lsch_tag :: "schedule \<Rightarrow> string \<Rightarrow> (int \<times> schedule) outcome" where
  "xx_lsch_tag p s = lmap_schedule_add_tag p (Some s)"

definition xx_lsch_supp_tag :: "schedule \<Rightarrow> string \<Rightarrow> (int \<times> schedule) outcome" where
  "xx_lsch_supp_tag p s = lmap_schedule_add_suppression_tag p (Some s)"

definition xx_lsch_state :: "schedule \<Rightarrow> string \<Rightarrow> (int \<times> schedule) outcome" where
  "xx_lsch_state p s = Inr (lmap_schedule_set_state p s)"

definition xx_lsch_storage :: "schedule \<Rightarrow> string \<Rightarrow> (int \<times> schedule) outcome" where
  "xx_lsch_storage p s = Inr (lmap_schedule_set_storage p s)"

definition xx_lsch_invocations :: "schedule \<Rightarrow> string \<Rightarrow> (int \<times> schedule) outcome" where
  "xx_lsch_invocations p s = Inr (lmap_schedule_set_invocations p s)"

definition xx_lsch_suppressions :: "schedule \<Rightarrow> string \<Rightarrow> (int \<times> schedule) outcome" where
  "xx_lsch_suppressions p s = Inr (lmap_schedule_set_suppressions p s)"

definition xx_lsch_overlaps :: "schedule \<Rightarrow> string \<Rightarrow> (int \<times> schedule) outcome" where
  "xx_lsch_overlaps p s = Inr (lmap_schedule_set_overlaps p s)"

definition xx_lsch_failures :: "schedule \<Rightarrow> string \<Rightarrow> (int \<times> schedule) outcome" where
  "xx_lsch_failures p s = Inr (lmap_schedule_set_failures p s)"

definition xx_lsch_last_invocation :: "jsonc \<Rightarrow> schedule \<Rightarrow> string \<Rightarrow> (int \<times> schedule) outcome" where
  "xx_lsch_last_invocation J p s = Inr (lmap_schedule_set_last_invocation (jc_libc J) p s)"

definition schedule_tab :: "jsonc \<Rightarrow> schedule jsonmap list" where
  "schedule_tab J =
     [JSONMAP_ENTRY_STRING_X ''name'' YANG_KEY xx_lsch_name,
      JSONMAP_ENTRY_STRING_X ''start'' YANG_CONFIG_TRUE xx_lsch_start,
      JSONMAP_ENTRY_STRING_X ''end'' YANG_CONFIG_TRUE xx_lsch_end,
      JSONMAP_ENTRY_STRING_X ''duration'' YANG_CONFIG_TRUE xx_lsch_duration,
      JSONMAP_ENTRY_STRING_X ''execution-mode'' YANG_CONFIG_TRUE xx_lsch_exec_mode,
      JSONMAP_ENTRY_STRARRAY_X ''tag'' YANG_CONFIG_TRUE xx_lsch_tag,
      JSONMAP_ENTRY_STRARRAY_X ''suppression-tag'' YANG_CONFIG_TRUE xx_lsch_supp_tag,
      JSONMAP_ENTRY_OBJARRAY_X ''action'' YANG_CONFIG_TRUE (xx_lsch_action J),
      JSONMAP_ENTRY_STRING_X ''state'' YANG_CONFIG_FALSE xx_lsch_state,
      JSONMAP_ENTRY_STRING_X ''storage'' YANG_CONFIG_FALSE xx_lsch_storage,
      JSONMAP_ENTRY_INT2STR_X ''invocations'' YANG_CONFIG_FALSE xx_lsch_invocations,
      JSONMAP_ENTRY_INT2STR_X ''suppressions'' YANG_CONFIG_FALSE xx_lsch_suppressions,
      JSONMAP_ENTRY_INT2STR_X ''overlaps'' YANG_CONFIG_FALSE xx_lsch_overlaps,
      JSONMAP_ENTRY_INT2STR_X ''failures'' YANG_CONFIG_FALSE xx_lsch_failures,
      JSONMAP_ENTRY_STRING_X ''last-invocation'' YANG_CONFIG_FALSE (xx_lsch_last_invocation J),
      End_Of_Table]"

definition parse_schedule :: "jsonc \<Rightarrow> json \<Rightarrow> flags \<Rightarrow> schedule option outcome" where
  "parse_schedule J j w = parse_new J w (schedule_tab J) lmap_schedule_new j"

definition xx_lctrl_schedules :: "jsonc \<Rightarrow> lmap \<Rightarrow> json \<Rightarrow> flags \<Rightarrow> (int \<times> lmap) outcome" where
  "xx_lctrl_schedules J p j w = parse_members ''schedule'' (\<lambda>x. parse_schedule J x w) lmap_add_schedule p j"

section \<open>The document\<close>

definition control_tab :: "jsonc \<Rightarrow> lmap jsonmap list" where
  "control_tab J =
     [JSONMAP_ENTRY_OBJECT_X ''capabilities'' YANG_CONFIG_FALSE (xx_lctrl_capabilities J),
      JSONMAP_ENTRY_OBJECT_X ''agent'' 0 (xx_lctrl_agent J),
      JSONMAP_ENTRY_OBJECT_X ''tasks'' 0 (xx_lctrl_tasks J),
      JSONMAP_ENTRY_OBJECT_X ''schedules'' 0 (xx_lctrl_schedules J),
      JSONMAP_ENTRY_OBJECT_X ''suppressions'' 0 (xx_lctrl_suppressions J),
      JSONMAP_ENTRY_OBJECT_X ''events'' 0 (xx_lctrl_events J),
      End_Of_Table]"

definition parse_control_doc :: "jsonc \<Rightarrow> lmap \<Rightarrow> json \<Rightarrow> flags \<Rightarrow> (int \<times> lmap) outcome" where
  "parse_control_doc J l root w =
     (case (case json_object_object_get_ex root ''ietf-lmap-control:lmap'' of
              None \<Rightarrow> json_object_object_get_ex root ''lmap''
            | Some m \<Rightarrow> Some m) of
        None \<Rightarrow> Inr (-1, l)
      | Some m \<Rightarrow>
          (case (root, m) of
             (JObject kvs, JObject fs) \<Rightarrow>
               if length kvs \<noteq> 1 then Inr (-1, l) else each_field J w (control_tab J) (-1) l fs
           | _ \<Rightarrow> Inr (-1, l)))"

definition parse_state_doc :: "jsonc \<Rightarrow> lmap \<Rightarrow> json \<Rightarrow> (int \<times> lmap) outcome" where
  "parse_state_doc J l root = parse_control_doc J l root (PARSE_CONFIG_TRUE OR PARSE_CONFIG_FALSE)"

definition parse_config_doc :: "jsonc \<Rightarrow> lmap \<Rightarrow> json \<Rightarrow> (int \<times> lmap) outcome" where
  "parse_config_doc J l root = parse_control_doc J l root PARSE_CONFIG_TRUE"

end
