(* ===== verification/Json_Render.thy ===== *)
theory Json_Render
  imports Json
begin

text \<open>
  The renderers of \<^verbatim>\<open>src/json-io.c\<close>, from \<open>json_object_objarray_add\<close> to \<open>lmap_json_render_report\<close>. The code adds to a tree
  in place; here a renderer takes the tree it adds to as its last argument and returns it. A child that the
  code hangs into its parent first and fills afterwards is filled first: nothing else touches the parent meanwhile. The
  renderers that return an \<open>int\<close> fail only when no memory is left, and their 0 is dropped.
\<close>

section \<open>Adding to trees\<close>

fun field_put :: "string \<Rightarrow> json \<Rightarrow> (string \<times> json) list \<Rightarrow> (string \<times> json) list" where
  "field_put k v [] = [(k, v)]"
| "field_put k v ((k', v') # kvs) = (if k' = k then (k, v) # kvs else (k', v') # field_put k v kvs)"

text \<open>A field that an object already has is replaced.\<close>

definition json_object_object_add :: "string \<Rightarrow> json \<Rightarrow> json \<Rightarrow> json" where
  "json_object_object_add k v j = (case j of JObject kvs \<Rightarrow> JObject (field_put k v kvs) | _ \<Rightarrow> j)"

definition json_object_array_add :: "json \<Rightarrow> json \<Rightarrow> json" where
  "json_object_array_add v j = (case j of JArray js \<Rightarrow> JArray (js @ [v]) | _ \<Rightarrow> j)"

definition json_object_objarray_add :: "string \<Rightarrow> json \<Rightarrow> json \<Rightarrow> json" where
  "json_object_objarray_add k v j =
     (case json_object_get_type j of
        T_Object \<Rightarrow> json_object_object_add k v j
      | T_Array \<Rightarrow> json_object_array_add v j
      | _ \<Rightarrow> j)"

text \<open>A sequence of renderers, and a renderer under a condition.\<close>

definition steps :: "('a \<Rightarrow> 'a outcome) list \<Rightarrow> 'a \<Rightarrow> 'a outcome" where
  "steps fs = ofold (\<lambda>f. f) fs"

definition provided :: "bool \<Rightarrow> ('a \<Rightarrow> 'a outcome) \<Rightarrow> 'a \<Rightarrow> 'a outcome" where
  "provided b f = (if b then f else Inr)"

text \<open>A new object filled by \<open>f\<close> becomes the field \<open>k\<close>, and a new array the elements of which are objects.\<close>

definition sub_object :: "string \<Rightarrow> (json \<Rightarrow> json outcome) \<Rightarrow> json \<Rightarrow> json outcome" where
  "sub_object k f j = obind (f (JObject [])) (\<lambda>v. Inr (json_object_object_add k v j))"

definition sub_array :: "string \<Rightarrow> (json \<Rightarrow> json outcome) \<Rightarrow> json \<Rightarrow> json outcome" where
  "sub_array k f j = obind (f (JArray [])) (\<lambda>v. Inr (json_object_object_add k v j))"

definition array_object :: "(json \<Rightarrow> json outcome) \<Rightarrow> json \<Rightarrow> json outcome" where
  "array_object f j = obind (f (JObject [])) (\<lambda>v. Inr (json_object_array_add v j))"

section \<open>Leaves\<close>

definition render_empty_leaf :: "string \<Rightarrow> json \<Rightarrow> json outcome" where
  "render_empty_leaf k j = Inr (json_object_object_add k (json_object_array_add JNull (JArray [])) j)"

definition render_leaf :: "string \<Rightarrow> string option \<Rightarrow> json \<Rightarrow> json outcome" where
  "render_leaf k content j =
     Inr (case content of None \<Rightarrow> j | Some s \<Rightarrow> json_object_objarray_add k (JString s) j)"

definition render_leaf_boolean :: "string \<Rightarrow> int \<Rightarrow> json \<Rightarrow> json outcome" where
  "render_leaf_boolean k content j = Inr (json_object_objarray_add k (JBool (content \<noteq> 0)) j)"

definition render_leaf_int32 :: "string \<Rightarrow> int \<Rightarrow> json \<Rightarrow> json outcome" where
  "render_leaf_int32 k i j = Inr (json_object_objarray_add k (JInt i) j)"

definition render_leaf_uint32 :: "string \<Rightarrow> 32 word \<Rightarrow> json \<Rightarrow> json outcome" where
  "render_leaf_uint32 k w j = Inr (json_object_objarray_add k (JInt (uint w)) j)"

text \<open>I-JSON has no 64 bit numbers: they are strings.\<close>

definition render_leaf_uint64 :: "string \<Rightarrow> 64 word \<Rightarrow> json \<Rightarrow> json outcome" where
  "render_leaf_uint64 k w j = Inr (json_object_objarray_add k (JString (dec (unat w))) j)"

text \<open>\<open>strftime\<close> writes the offset without its colon, which is put in when the text has the length of a four digit year.\<close>

definition insert_colon :: "string \<Rightarrow> string" where
  "insert_colon buf = (if length buf = 24 then take 22 buf @ '':'' @ drop 22 buf else buf)"

definition render_leaf_datetime :: "jsonc \<Rightarrow> string \<Rightarrow> int \<Rightarrow> json \<Rightarrow> json outcome" where
  "render_leaf_datetime J k t j =
     (case jc_strftime J t of
        None \<Rightarrow> Inl Null_Deref
      | Some buf \<Rightarrow> render_leaf k (Some (insert_colon buf)) j)"

text \<open>
  The bit sets of a calendar event: nothing for the empty set, a star for all bits, otherwise one element for each bit of a
  table or of a range.
\<close>

definition render_bits ::
  "string \<Rightarrow> 'w::len word \<Rightarrow> (nat \<Rightarrow> json \<Rightarrow> json outcome) \<Rightarrow> nat list \<Rightarrow> json \<Rightarrow> json outcome" where
  "render_bits k w element idx j =
     (if w = 0 then Inr j
      else sub_array k
             (if w = -1 then render_leaf k (Some ''*'')
              else steps (map (\<lambda>i. provided (w AND push_bit i 1 \<noteq> 0) (element i)) idx)) j)"

definition render_leaf_days_of_month :: "string \<Rightarrow> 32 word \<Rightarrow> json \<Rightarrow> json outcome" where
  "render_leaf_days_of_month k w = render_bits k w (\<lambda>i. render_leaf_int32 k (int i)) [1..<32]"

definition json_month_tab :: "string list" where
  "json_month_tab =
     [''january'', ''february'', ''march'', ''april'', ''may'', ''june'', ''july'', ''august'', ''september'',
      ''october'', ''november'', ''december'']"

definition render_leaf_months :: "string \<Rightarrow> 16 word \<Rightarrow> json \<Rightarrow> json outcome" where
  "render_leaf_months k w =
     render_bits k w (\<lambda>i. render_leaf k (Some (json_month_tab ! i))) [0..<length json_month_tab]"

definition json_day_tab :: "string list" where
  "json_day_tab =
     [''monday'', ''tuesday'', ''wednesday'', ''thursday'', ''friday'', ''saturday'', ''sunday'']"

definition render_leaf_days_of_week :: "string \<Rightarrow> 8 word \<Rightarrow> json \<Rightarrow> json outcome" where
  "render_leaf_days_of_week k w =
     render_bits k w (\<lambda>i. render_leaf k (Some (json_day_tab ! i))) [0..<length json_day_tab]"

definition render_leaf_hours :: "string \<Rightarrow> 32 word \<Rightarrow> json \<Rightarrow> json outcome" where
  "render_leaf_hours k w = render_bits k w (\<lambda>i. render_leaf_int32 k (int i)) [0..<24]"

definition render_leaf_minsecs :: "string \<Rightarrow> 64 word \<Rightarrow> json \<Rightarrow> json outcome" where
  "render_leaf_minsecs k w = render_bits k w (\<lambda>i. render_leaf_int32 k (int i)) [0..<60]"

section \<open>Tags, options, registries\<close>

text \<open>\<open>json_object_new_string\<close> reads its argument.\<close>

definition render_tag :: "tag \<Rightarrow> json \<Rightarrow> json outcome" where
  "render_tag t ja =
     (case t of None \<Rightarrow> Inl Null_Deref | Some s \<Rightarrow> Inr (json_object_array_add (JString s) ja))"

definition render_tags :: "tag list \<Rightarrow> string \<Rightarrow> json \<Rightarrow> json outcome" where
  "render_tags ts k j = (if ts = [] then Inr j else sub_array k (steps (map render_tag ts)) j)"

definition render_option :: "lmap_option \<Rightarrow> json \<Rightarrow> json outcome" where
  "render_option p =
     array_object (steps [render_leaf ''id'' (opt_id p), render_leaf ''name'' (opt_name p),
                          render_leaf ''value'' (opt_value p)])"

definition render_options :: "lmap_option list \<Rightarrow> json \<Rightarrow> json outcome" where
  "render_options ps j =
     (if ps = [] then Inr j else sub_array ''option'' (steps (map render_option ps)) j)"

definition render_registry :: "registry \<Rightarrow> json \<Rightarrow> json outcome" where
  "render_registry g =
     array_object (steps [render_leaf ''uri'' (reg_uri g), render_tags (reg_roles g) ''role''])"

definition render_registries :: "registry list \<Rightarrow> json \<Rightarrow> json outcome" where
  "render_registries gs j =
     (if gs = [] then Inr j else sub_array ''function'' (steps (map render_registry gs)) j)"

section \<open>Reports\<close>

definition render_agent_report :: "jsonc \<Rightarrow> agent option \<Rightarrow> json \<Rightarrow> json outcome" where
  "render_agent_report J ag j =
     (case ag of
        None \<Rightarrow> Inr j
      | Some a \<Rightarrow>
          steps
            [render_leaf_datetime J ''date'' (ag_report_date a),
             provided (ag_agent_id a \<noteq> None \<and> ag_report_agent_id a \<noteq> 0) (render_leaf ''agent-id'' (ag_agent_id a)),
             provided (ag_group_id a \<noteq> None \<and> ag_report_group_id a \<noteq> 0) (render_leaf ''group-id'' (ag_group_id a)),
             provided (ag_measurement_point a \<noteq> None \<and> ag_report_measurement_point a \<noteq> 0)
               (render_leaf ''measurement-point'' (ag_measurement_point a))] j)"

text \<open>A value that is \<open>NULL\<close> becomes the empty string.\<close>

definition render_value :: "val \<Rightarrow> json \<Rightarrow> json outcome" where
  "render_value v ja = Inr (json_object_array_add (JString (case v of None \<Rightarrow> [] | Some s \<Rightarrow> s)) ja)"

definition render_row :: "row \<Rightarrow> json \<Rightarrow> json outcome" where
  "render_row r =
     array_object
       (provided (row_values r \<noteq> []) (sub_array ''value'' (steps (map render_value (row_values r)))))"

definition render_table :: "table \<Rightarrow> json \<Rightarrow> json outcome" where
  "render_table t =
     array_object
       (steps [render_registries (tab_registries t),
               provided (tab_columns t \<noteq> []) (sub_array ''column'' (steps (map render_value (tab_columns t)))),
               provided (tab_rows t \<noteq> []) (sub_array ''row'' (steps (map render_row (tab_rows t))))])"

definition render_result :: "jsonc \<Rightarrow> result \<Rightarrow> json \<Rightarrow> json outcome" where
  "render_result J r =
     array_object
       (steps [render_leaf ''schedule'' (res_schedule r), render_leaf ''action'' (res_action r),
               render_leaf ''task'' (res_task r), render_options (res_options r),
               render_tags (res_tags r) ''tag'',
               provided (res_event r \<noteq> 0) (render_leaf_datetime J ''event'' (res_event r)),
               provided (res_start r \<noteq> 0) (render_leaf_datetime J ''start'' (res_start r)),
               provided (res_end r \<noteq> 0) (render_leaf_datetime J ''end'' (res_end r)),
               render_leaf ''cycle-number'' (res_cycle_number r),
               provided (flag_on (res_flags r) LMAP_RESULT_FLAG_STATUS_SET)
                 (render_leaf_int32 ''status'' (res_status r)),
               provided (res_tables r \<noteq> []) (sub_array ''table'' (steps (map render_table (res_tables r))))])"

section \<open>Configuration and state\<close>

definition RENDER_CONFIG_TRUE :: flags where
  "RENDER_CONFIG_TRUE = 0x01"

definition RENDER_CONFIG_FALSE :: flags where
  "RENDER_CONFIG_FALSE = 0x02"

definition render_agent_fields :: "jsonc \<Rightarrow> agent \<Rightarrow> flags \<Rightarrow> json \<Rightarrow> json outcome" where
  "render_agent_fields J a what =
     steps
       [provided (flag_on what RENDER_CONFIG_TRUE)
          (steps
             [render_leaf ''agent-id'' (ag_agent_id a), render_leaf ''group-id'' (ag_group_id a),
              render_leaf ''measurement-point'' (ag_measurement_point a),
              provided (flag_on (ag_flags a) LMAP_AGENT_FLAG_REPORT_AGENT_ID_SET)
                (render_leaf_boolean ''report-agent-id'' (ag_report_agent_id a)),
              provided (flag_on (ag_flags a) LMAP_AGENT_FLAG_REPORT_GROUP_ID_SET)
                (render_leaf_boolean ''report-group-id'' (ag_report_group_id a)),
              provided (flag_on (ag_flags a) LMAP_AGENT_FLAG_REPORT_MEASUREMENT_POINT_SET)
                (render_leaf_boolean ''report-measurement-point'' (ag_report_measurement_point a)),
              provided (flag_on (ag_flags a) LMAP_AGENT_FLAG_CONTROLLER_TIMEOUT_SET)
                (render_leaf_uint32 ''controller-timeout'' (ag_controller_timeout a))]),
        provided (flag_on what RENDER_CONFIG_FALSE \<and> ag_last_started a \<noteq> 0)
          (render_leaf_datetime J ''last-started'' (ag_last_started a))]"

definition render_agent :: "jsonc \<Rightarrow> agent option \<Rightarrow> flags \<Rightarrow> json \<Rightarrow> json outcome" where
  "render_agent J ag what j =
     (case ag of None \<Rightarrow> Inr j | Some a \<Rightarrow> sub_object ''agent'' (render_agent_fields J a what) j)"

definition run_state_text :: "run_state \<Rightarrow> string" where
  "run_state_text s =
     (case s of Enabled \<Rightarrow> ''enabled'' | Disabled \<Rightarrow> ''disabled'' | Running \<Rightarrow> ''running''
      | Suppressed \<Rightarrow> ''suppressed'')"

definition render_action :: "jsonc \<Rightarrow> action \<Rightarrow> flags \<Rightarrow> json \<Rightarrow> json outcome" where
  "render_action J a what =
     steps
       [render_leaf ''name'' (act_name a),
        provided (flag_on what RENDER_CONFIG_TRUE)
          (steps
             [render_leaf ''task'' (act_task a), render_options (act_options a),
              render_tags (act_destinations a) ''destination'', render_tags (act_tags a) ''tag'',
              render_tags (act_suppression_tags a) ''suppression-tag'']),
        provided (flag_on what RENDER_CONFIG_FALSE)
          (steps
             [render_leaf ''state'' (Some (run_state_text (act_state a))),
              render_leaf_uint64 ''storage'' (act_storage a),
              render_leaf_uint32 ''invocations'' (act_cnt_invocations a),
              render_leaf_uint32 ''suppressions'' (act_cnt_suppressions a),
              render_leaf_uint32 ''overlaps'' (act_cnt_overlaps a),
              render_leaf_uint32 ''failures'' (act_cnt_failures a),
              provided (act_last_invocation a \<noteq> 0)
                (render_leaf_datetime J ''last-invocation'' (act_last_invocation a)),
              provided (act_last_completion a \<noteq> 0)
                (steps
                   [render_leaf_datetime J ''last-completion'' (act_last_completion a),
                    render_leaf_int32 ''last-status'' (act_last_status a),
                    render_leaf ''last-message'' (act_last_message a)]),
              provided (act_last_failed_completion a \<noteq> 0)
                (steps
                   [render_leaf_datetime J ''last-failed-completion'' (act_last_failed_completion a),
                    render_leaf_int32 ''last-failed-status'' (act_last_failed_status a),
                    render_leaf ''last-failed-message'' (act_last_failed_message a)])])]"

text \<open>Objects without a name are left out of their list.\<close>

definition render_actions :: "jsonc \<Rightarrow> action list \<Rightarrow> flags \<Rightarrow> json \<Rightarrow> json outcome" where
  "render_actions J as what j =
     (if as = [] then Inr j
      else sub_array ''action''
             (steps (map (\<lambda>a. provided (act_name a \<noteq> None) (array_object (render_action J a what))) as)) j)"

definition exec_mode_text :: "exec_mode \<Rightarrow> string" where
  "exec_mode_text m =
     (case m of Sequential \<Rightarrow> ''sequential'' | Parallel \<Rightarrow> ''parallel'' | Pipelined \<Rightarrow> ''pipelined'')"

definition render_schedule :: "jsonc \<Rightarrow> schedule \<Rightarrow> flags \<Rightarrow> json \<Rightarrow> json outcome" where
  "render_schedule J s what =
     steps
       [render_leaf ''name'' (sched_name s),
        provided (flag_on what RENDER_CONFIG_TRUE)
          (steps
             [render_leaf ''start'' (sched_start s),
              provided (flag_on (sched_flags s) LMAP_SCHEDULE_FLAG_END_SET) (render_leaf ''end'' (sched_end s)),
              provided (flag_on (sched_flags s) LMAP_SCHEDULE_FLAG_DURATION_SET)
                (render_leaf_uint64 ''duration'' (sched_duration s)),
              provided (flag_on (sched_flags s) LMAP_SCHEDULE_FLAG_EXEC_MODE_SET)
                (render_leaf ''execution-mode'' (Some (exec_mode_text (sched_mode s)))),
              render_tags (sched_tags s) ''tag'',
              render_tags (sched_suppression_tags s) ''suppression-tag'']),
        provided (flag_on what RENDER_CONFIG_FALSE)
          (steps
             [render_leaf ''state'' (Some (run_state_text (sched_state s))),
              render_leaf_uint64 ''storage'' (sched_storage s),
              render_leaf_uint32 ''invocations'' (sched_cnt_invocations s),
              render_leaf_uint32 ''suppressions'' (sched_cnt_suppressions s),
              render_leaf_uint32 ''overlaps'' (sched_cnt_overlaps s),
              render_leaf_uint32 ''failures'' (sched_cnt_failures s),
              provided (sched_last_invocation s \<noteq> 0)
                (render_leaf_datetime J ''last-invocation'' (sched_last_invocation s))]),
        render_actions J (sched_actions s) what]"

text \<open>What the four lists of the document have in common: an object with one array of the named objects.\<close>

definition render_members ::
  "string \<Rightarrow> string \<Rightarrow> ('a \<Rightarrow> string option) \<Rightarrow> ('a \<Rightarrow> json \<Rightarrow> json outcome) \<Rightarrow> 'a list \<Rightarrow> json \<Rightarrow> json outcome" where
  "render_members k member key f xs j =
     (if xs = [] then Inr j
      else sub_object k
             (sub_array member (steps (map (\<lambda>x. provided (key x \<noteq> None) (array_object (f x))) xs))) j)"

definition render_schedules :: "jsonc \<Rightarrow> schedule list \<Rightarrow> flags \<Rightarrow> json \<Rightarrow> json outcome" where
  "render_schedules J ss what =
     render_members ''schedules'' ''schedule'' sched_name (\<lambda>s. render_schedule J s what) ss"

definition supp_state_text :: "supp_state \<Rightarrow> string" where
  "supp_state_text s =
     (case s of Supp_Enabled \<Rightarrow> ''enabled'' | Supp_Disabled \<Rightarrow> ''disabled'' | Supp_Active \<Rightarrow> ''active'')"

definition render_suppression :: "supp \<Rightarrow> flags \<Rightarrow> json \<Rightarrow> json outcome" where
  "render_suppression s what =
     steps
       [render_leaf ''name'' (supp_name s),
        provided (flag_on what RENDER_CONFIG_TRUE)
          (steps
             [render_leaf ''start'' (supp_start s), render_leaf ''end'' (supp_end s),
              render_tags (supp_match s) ''match'',
              provided (flag_on (supp_flags s) LMAP_SUPP_FLAG_STOP_RUNNING_SET)
                (render_leaf_boolean ''stop-running'' (supp_stop_running s))]),
        provided (flag_on what RENDER_CONFIG_FALSE)
          (render_leaf ''state'' (Some (supp_state_text (supp_state s))))]"

definition render_suppressions :: "supp list \<Rightarrow> flags \<Rightarrow> json \<Rightarrow> json outcome" where
  "render_suppressions ss what =
     render_members ''suppressions'' ''suppression'' supp_name (\<lambda>s. render_suppression s what) ss"

definition render_task :: "task \<Rightarrow> flags \<Rightarrow> json \<Rightarrow> json outcome" where
  "render_task t what =
     steps
       [render_leaf ''name'' (task_name t), render_registries (task_registries t),
        provided (flag_on what RENDER_CONFIG_FALSE) (render_leaf ''version'' (task_version t)),
        render_leaf ''program'' (task_program t),
        provided (flag_on what RENDER_CONFIG_TRUE)
          (steps [render_options (task_options t), render_tags (task_tags t) ''tag''])]"

definition render_tasks :: "task list \<Rightarrow> flags \<Rightarrow> json \<Rightarrow> json outcome" where
  "render_tasks ts what =
     render_members ''tasks'' ''task'' task_name (\<lambda>t. render_task t what) ts"

definition render_capabilities :: "capability option \<Rightarrow> flags \<Rightarrow> json \<Rightarrow> json outcome" where
  "render_capabilities cap what j =
     (case cap of
        None \<Rightarrow> Inr j
      | Some c \<Rightarrow>
          if \<not> flag_on what RENDER_CONFIG_FALSE
             \<or> (cap_version c = None \<and> cap_tags c = [] \<and> cap_tasks c = [])
          then Inr j
          else sub_object ''capabilities''
                 (steps
                    [render_leaf ''version'' (cap_version c), render_tags (cap_tags c) ''tag'',
                     render_tasks (cap_tasks c) what]) j)"

text \<open>\<^verbatim>\<open>%02d\<close>.\<close>

definition pad2 :: "nat \<Rightarrow> string" where
  "pad2 n = (if n < 10 then CHR ''0'' # dec n else dec n)"

definition timezone_text :: "int \<Rightarrow> string" where
  "timezone_text t =
     (let offset = nat (if t < 0 then - t else t)
      in (if t < 0 then CHR ''-'' else CHR ''+'') # pad2 (offset div 60) @ '':'' @ pad2 (offset mod 60))"

definition render_event_type :: "jsonc \<Rightarrow> event \<Rightarrow> json \<Rightarrow> json outcome" where
  "render_event_type J e =
     (let start_end = steps
            [provided (flag_on (ev_flags e) LMAP_EVENT_FLAG_START_SET) (render_leaf_datetime J ''start'' (ev_start e)),
             provided (flag_on (ev_flags e) LMAP_EVENT_FLAG_END_SET) (render_leaf_datetime J ''end'' (ev_end e))]
      in case ev_type e of
           Periodic \<Rightarrow>
             sub_object ''periodic''
               (steps
                  [provided (flag_on (ev_flags e) LMAP_EVENT_FLAG_INTERVAL_SET)
                     (render_leaf_uint32 ''interval'' (ev_interval e)), start_end])
         | Calendar \<Rightarrow>
             sub_object ''calendar''
               (steps
                  [render_leaf_months ''month'' (ev_months e),
                   render_leaf_days_of_month ''day-of-month'' (ev_days_of_month e),
                   render_leaf_days_of_week ''day-of-week'' (ev_days_of_week e),
                   render_leaf_hours ''hour'' (ev_hours e),
                   render_leaf_minsecs ''minute'' (ev_minutes e),
                   render_leaf_minsecs ''second'' (ev_seconds e),
                   provided (flag_on (ev_flags e) LMAP_EVENT_FLAG_TIMEZONE_OFFSET_SET)
                     (render_leaf ''timezone-offset'' (Some (timezone_text (ev_timezone_offset e)))),
                   start_end])
         | One_Off \<Rightarrow>
             sub_object ''one-off''
               (provided (flag_on (ev_flags e) LMAP_EVENT_FLAG_START_SET)
                  (render_leaf_datetime J ''time'' (ev_start e)))
         | Startup \<Rightarrow> render_empty_leaf ''startup''
         | Immediate \<Rightarrow> render_empty_leaf ''immediate''
         | Controller_Lost \<Rightarrow> render_empty_leaf ''controller-lost''
         | Controller_Connected \<Rightarrow> render_empty_leaf ''controller-connected''
         | No_Type \<Rightarrow> Inr)"

definition render_event :: "jsonc \<Rightarrow> event \<Rightarrow> flags \<Rightarrow> json \<Rightarrow> json outcome" where
  "render_event J e what =
     steps
       [render_leaf ''name'' (ev_name e),
        provided (flag_on what RENDER_CONFIG_TRUE)
          (steps
             [provided (flag_on (ev_flags e) LMAP_EVENT_FLAG_RANDOM_SPREAD_SET)
                (render_leaf_uint32 ''random-spread'' (ev_random_spread e)),
              provided (flag_on (ev_flags e) LMAP_EVENT_FLAG_CYCLE_INTERVAL_SET)
                (render_leaf_uint32 ''cycle-interval'' (ev_cycle_interval e)),
              render_event_type J e])]"

definition render_events :: "jsonc \<Rightarrow> event list \<Rightarrow> flags \<Rightarrow> json \<Rightarrow> json outcome" where
  "render_events J es what =
     render_members ''events'' ''event'' ev_name (\<lambda>e. render_event J e what) es"

text \<open>The tree of the document, and its text.\<close>

definition control_tree :: "jsonc \<Rightarrow> lmap \<Rightarrow> flags \<Rightarrow> json outcome" where
  "control_tree J l what =
     sub_object ''ietf-lmap-control:lmap''
       (steps
          [render_capabilities (lm_capabilities l) what, render_agent J (lm_agent l) what,
           render_tasks (lm_tasks l) what, render_schedules J (lm_schedules l) what,
           render_suppressions (lm_supps l) what, render_events J (lm_events l) what]) (JObject [])"

definition render_control :: "jsonc \<Rightarrow> lmap \<Rightarrow> flags \<Rightarrow> string outcome" where
  "render_control J l what = obind (control_tree J l what) (\<lambda>j. Inr (jc_pretty J j))"

definition lmap_json_render_config :: "jsonc \<Rightarrow> lmap \<Rightarrow> string outcome" where
  "lmap_json_render_config J l = render_control J l RENDER_CONFIG_TRUE"

definition lmap_json_render_state :: "jsonc \<Rightarrow> lmap \<Rightarrow> string outcome" where
  "lmap_json_render_state J l = render_control J l (RENDER_CONFIG_TRUE OR RENDER_CONFIG_FALSE)"

definition report_tree :: "jsonc \<Rightarrow> lmap \<Rightarrow> json outcome" where
  "report_tree J l =
     sub_object ''ietf-lmap-report:report''
       (steps
          [render_agent_report J (lm_agent l),
           provided (lm_results l \<noteq> []) (sub_array ''result'' (steps (map (render_result J) (lm_results l))))])
       (JObject [])"

definition lmap_json_render_report :: "jsonc \<Rightarrow> lmap \<Rightarrow> string outcome" where
  "lmap_json_render_report J l = obind (report_tree J l) (\<lambda>j. Inr (jc_pretty J j))"

end
