(* ===== verification/Json_Codec.thy ===== *)
theory Json_Codec
  imports Json_Config Json_Render
begin

text \<open>
  How a renderer and a parser of \<^verbatim>\<open>src/json-io.c\<close> fit together. The relation \<open>codec\<close> says that what a renderer adds to an
  object makes the field loop of a parser turn one object under construction into another; it composes along the
  sequences of renderers. The locales \<open>tag_list\<close>, \<open>bit_list\<close> and \<open>member_list\<close> are the contracts of the three kinds of arrays: tags, the bits
  of a calendar field, and named objects.
\<close>

section \<open>Rendering\<close>

lemma steps_simps [simp]: "steps [] j = Inr j" "steps (f # fs) j = obind (f j) (steps fs)"
  by (simp_all add: steps_def)

lemma field_put_fresh: "k \<notin> fst ` set kvs \<Longrightarrow> field_put k v kvs = kvs @ [(k, v)]"
  by (induction kvs) auto

lemma objarray_add_simps [simp]:
  "json_object_objarray_add k v (JArray js) = JArray (js @ [v])"
  "k \<notin> fst ` set kvs \<Longrightarrow> json_object_objarray_add k v (JObject kvs) = JObject (kvs @ [(k, v)])"
  "k \<notin> fst ` set kvs \<Longrightarrow> json_object_object_add k v (JObject kvs) = JObject (kvs @ [(k, v)])"
  "json_object_array_add v (JArray js) = JArray (js @ [v])"
  by (simp_all add: json_object_objarray_add_def json_object_object_add_def json_object_array_add_def
      field_put_fresh)

text \<open>A renderer that adds given fields to every object that has none of the keys \<open>K\<close>.\<close>

definition adds :: "string set \<Rightarrow> (json \<Rightarrow> json outcome) \<Rightarrow> (string \<times> json) list \<Rightarrow> bool" where
  "adds K f kvs \<longleftrightarrow>
     fst ` set kvs \<subseteq> K \<and>
     (\<forall>xs. fst ` set xs \<inter> K = {} \<longrightarrow> f (JObject xs) = Inr (JObject (xs @ kvs)))"

lemma adds_Nil: "adds {} (steps []) []"
  by (simp add: adds_def)

lemma adds_Cons:
  assumes "adds K f xs" "adds L (steps fs) ys" "K \<inter> L = {}"
  shows "adds (K \<union> L) (steps (f # fs)) (xs @ ys)"
  unfolding adds_def
proof (intro conjI allI impI)
  show "fst ` set (xs @ ys) \<subseteq> K \<union> L"
    using assms by (auto simp: adds_def)
next
  fix zs :: "(string \<times> json) list"
  assume z: "fst ` set zs \<inter> (K \<union> L) = {}"
  have "f (JObject zs) = Inr (JObject (zs @ xs))"
    using assms(1) z by (simp add: adds_def Int_Un_distrib)
  moreover have "fst ` set (zs @ xs) \<inter> L = {}"
    using assms z by (auto simp: adds_def)
  then have "steps fs (JObject (zs @ xs)) = Inr (JObject ((zs @ xs) @ ys))"
    using assms(2) unfolding adds_def by blast
  ultimately show "steps (f # fs) (JObject zs) = Inr (JObject (zs @ xs @ ys))"
    by simp
qed

section \<open>Rendering and reading back\<close>

definition codec ::
  "jsonc \<Rightarrow> flags \<Rightarrow> 'c jsonmap list \<Rightarrow> string set \<Rightarrow> (json \<Rightarrow> json outcome) \<Rightarrow> 'c \<Rightarrow> 'c \<Rightarrow> bool \<Rightarrow> bool" where
  "codec J w tab K f c c' n \<longleftrightarrow>
     (\<exists>kvs. adds K f kvs \<and> reads J w tab kvs c c' \<and> (n \<longrightarrow> kvs \<noteq> []))"

lemma codec_Nil: "codec J w tab {} (steps []) c c False"
  unfolding codec_def by (rule exI [of _ "[]"]) (simp add: adds_Nil reads_Nil)

lemma codec_Cons:
  assumes "codec J w tab K f c c1 m" "codec J w tab L (steps fs) c1 c2 n" "K \<inter> L = {}"
  shows "codec J w tab (K \<union> L) (steps (f # fs)) c c2 (m \<or> n)"
proof -
  obtain xs ys where "adds K f xs" "reads J w tab xs c c1" "m \<longrightarrow> xs \<noteq> []"
    and "adds L (steps fs) ys" "reads J w tab ys c1 c2" "n \<longrightarrow> ys \<noteq> []"
    using assms(1,2) unfolding codec_def by blast
  then show ?thesis
    unfolding codec_def by (intro exI [of _ "xs @ ys"]) (auto intro: reads_append simp: adds_Cons [OF _ _ assms(3)])
qed

lemma codec_weaken:
  "codec J w tab L f c c1 m \<Longrightarrow> c1 = c' \<Longrightarrow> L \<subseteq> K \<Longrightarrow> (n \<longrightarrow> m) \<Longrightarrow> codec J w tab K f c c' n"
  unfolding codec_def adds_def by (elim exE conjE, intro exI conjI allI impI) blast+

lemma codec_provided:
  "(b \<Longrightarrow> codec J w tab K f c c1 n) \<Longrightarrow> codec J w tab K (provided b f) c (if b then c1 else c) (b \<and> n)"
  by (cases b) (auto simp: provided_def codec_def adds_def reads_def intro!: exI [of _ "[]"])

lemma codec_provided_eq:
  "(b \<Longrightarrow> codec J w tab K f c c' True) \<Longrightarrow> (\<not> b \<Longrightarrow> c' = c) \<Longrightarrow> codec J w tab K (provided b f) c c' b"
  using codec_provided [of b J w tab K f c c' True] by (cases b) simp_all

text \<open>A renderer of one field.\<close>

lemma codec_field:
  assumes "\<And>kvs. k \<notin> fst ` set kvs \<Longrightarrow> f (JObject kvs) = Inr (JObject (kvs @ [(k, v)]))"
    and "lookup_jsonmap J w tab c k v = Inr (0, c')"
  shows "codec J w tab {k} f c c' True"
  unfolding codec_def adds_def using assms
  by (intro exI [of _ "[(k, v)]"]) (auto simp: reads_one)

text \<open>A renderer that writes nothing.\<close>

lemma codec_skip: "(\<And>kvs. f (JObject kvs) = Inr (JObject kvs)) \<Longrightarrow> codec J w tab {k} f c c False"
  unfolding codec_def adds_def by (intro exI [of _ "[]"]) (auto simp: reads_def)

lemma codec_leaf:
  "lookup_jsonmap J w tab c k (JString s) = Inr (0, c') \<Longrightarrow>
     codec J w tab {k} (render_leaf k (Some s)) c c' True"
  by (rule codec_field) (simp_all add: render_leaf_def)

lemma codec_leaf_option:
  assumes "\<And>s. v = Some s \<Longrightarrow> lookup_jsonmap J w tab c k (JString s) = Inr (0, c')"
    and "v = None \<Longrightarrow> c' = c"
  shows "codec J w tab {k} (render_leaf k v) c c' (v \<noteq> None)"
proof (cases v)
  case None
  with assms(2) show ?thesis by (simp add: codec_skip render_leaf_def)
next
  case (Some s)
  with assms(1) codec_leaf show ?thesis by fastforce
qed

text \<open>The whole object: the parser that allocates it, and the loop that fills an existing one.\<close>

lemma codec_parse_new:
  assumes "codec J w tab K f new c True"
  shows "\<exists>kvs. f (JObject []) = Inr (JObject kvs) \<and> parse_new J w tab new (JObject kvs) = Inr (Some c)"
proof -
  obtain kvs where kvs: "adds K f kvs" "reads J w tab kvs new c" "kvs \<noteq> []"
    using assms unfolding codec_def by blast
  then have "f (JObject []) = Inr (JObject ([] @ kvs))"
    unfolding adds_def by (metis image_empty inf_bot_left list.set(1))
  with kvs show ?thesis
    by (intro exI [of _ kvs]) (simp add: parse_new_reads)
qed

lemma codec_foreach:
  assumes "codec J w tab K f c c' True"
  shows "\<exists>kvs. f (JObject []) = Inr (JObject kvs) \<and> kvs \<noteq> [] \<and> each_field J w tab (-1) c kvs = Inr (0, c')"
proof -
  obtain kvs where kvs: "adds K f kvs" "reads J w tab kvs c c'" "kvs \<noteq> []"
    using assms unfolding codec_def by blast
  then have "f (JObject []) = Inr (JObject ([] @ kvs))"
    unfolding adds_def by (metis image_empty inf_bot_left list.set(1))
  with kvs show ?thesis
    by (intro exI [of _ kvs]) (simp add: reads_def)
qed

section \<open>The filter\<close>

lemma flag_on_or: "flag_on (f OR g) m \<longleftrightarrow> flag_on f m \<or> flag_on g m"
  by (auto simp: flag_on_def bit.conj_disj_distrib2 or_eq_0_iff)

lemma flag_on_self: "m \<noteq> 0 \<Longrightarrow> flag_on m m"
  by (simp add: flag_on_def)

lemma entry_applies_simps [simp]:
  "entry_applies w (f OR YANG_KEY)"
  "flag_on w PARSE_CONFIG_TRUE \<Longrightarrow> entry_applies w (f OR YANG_CONFIG_TRUE)"
  "flag_on w PARSE_CONFIG_FALSE \<Longrightarrow> entry_applies w (f OR YANG_CONFIG_FALSE)"
  "flag_on w PARSE_CONFIG_TRUE \<Longrightarrow> entry_applies w (f OR (YANG_CONFIG_TRUE OR g))"
  "flag_on w PARSE_CONFIG_FALSE \<Longrightarrow> entry_applies w (f OR (g OR YANG_CONFIG_FALSE))"
  "flag_on w PARSE_CONFIG_TRUE \<Longrightarrow> entry_applies w (f OR (g OR YANG_CONFIG_TRUE))"
  "flag_on w PARSE_CONFIG_TRUE \<Longrightarrow> entry_applies w YANG_CONFIG_TRUE"
  "flag_on w PARSE_CONFIG_FALSE \<Longrightarrow> entry_applies w YANG_CONFIG_FALSE"
  "entry_applies w 0"
  by (auto simp: entry_applies_def flag_on_or flag_on_self parse_flag_defs)

text \<open>The lookup, entry by entry.\<close>

lemma flag_on_handler [simp]:
  "flag_on (JSONHANDLEMAP_STRHDLR OR f) JSONHANDLEMAP_STRHDLR"
  "flag_on (JSONHANDLEMAP_ARRAYITER OR f) JSONHANDLEMAP_ARRAYITER"
  "flag_on (JSONHANDLEMAP_ARRAYITER OR JSONHANDLEMAP_STRHDLR OR f) JSONHANDLEMAP_STRHDLR"
  by (auto simp: flag_on_or flag_on_self parse_flag_defs)

lemma flag_on_yang [simp]:
  "\<not> flag_on YANG_CONFIG_TRUE JSONHANDLEMAP_STRHDLR" "\<not> flag_on YANG_CONFIG_FALSE JSONHANDLEMAP_STRHDLR"
  "\<not> flag_on YANG_KEY JSONHANDLEMAP_STRHDLR" "\<not> flag_on 0 JSONHANDLEMAP_STRHDLR"
  "\<not> flag_on JSONHANDLEMAP_ARRAYITER JSONHANDLEMAP_STRHDLR"
  "\<not> flag_on (JSONHANDLEMAP_ARRAYITER OR YANG_CONFIG_TRUE) JSONHANDLEMAP_STRHDLR"
  "\<not> flag_on (JSONHANDLEMAP_ARRAYITER OR (YANG_CONFIG_TRUE OR YANG_CONFIG_FALSE)) JSONHANDLEMAP_STRHDLR"
  "\<not> flag_on YANG_CONFIG_TRUE JSONHANDLEMAP_ARRAYITER"
  by (simp_all add: flag_on_def parse_flag_defs)

lemma lookup_jsonmap_entries [simp]:
  "lookup_jsonmap J w (JSONMAP_ENTRY_STRING_X n f h # tab) c k j =
     (if k = n
      then (case j of JString s \<Rightarrow> if entry_applies w (JSONHANDLEMAP_STRHDLR OR f) then h c s else Inr (0, c)
            | _ \<Rightarrow> Inr (-1, c))
      else lookup_jsonmap J w tab c k j)"
  "lookup_jsonmap J w (JSONMAP_ENTRY_STRARRAY_X n f h # tab) c k j =
     (if k = n
      then (case j of
              JArray js \<Rightarrow>
                if entry_applies w (JSONHANDLEMAP_ARRAYITER OR JSONHANDLEMAP_STRHDLR OR f)
                then each_element J (JSONHANDLEMAP_ARRAYITER OR JSONHANDLEMAP_STRHDLR OR f) (Str_Handler h) w c js
                else Inr (0, c)
            | _ \<Rightarrow> Inr (-1, c))
      else lookup_jsonmap J w tab c k j)"
  "lookup_jsonmap J w (JSONMAP_ENTRY_INT2STR_X n f h # tab) c k j =
     (if k = n
      then (case j of
              JInt i \<Rightarrow> if entry_applies w (JSONHANDLEMAP_STRHDLR OR f) then h c (jc_to_json_string J j) else Inr (0, c)
            | _ \<Rightarrow> Inr (-1, c))
      else lookup_jsonmap J w tab c k j)"
  "lookup_jsonmap J w (JSONMAP_ENTRY_BOOL2STR_X n f h # tab) c k j =
     (if k = n
      then (case j of
              JBool b \<Rightarrow> if entry_applies w (JSONHANDLEMAP_STRHDLR OR f) then h c (jc_to_json_string J j) else Inr (0, c)
            | _ \<Rightarrow> Inr (-1, c))
      else lookup_jsonmap J w tab c k j)"
  "lookup_jsonmap J w (JSONMAP_ENTRY_OBJARRAY_X n f g # tab) c k j =
     (if k = n
      then (case j of
              JArray js \<Rightarrow>
                if entry_applies w (JSONHANDLEMAP_ARRAYITER OR f)
                then each_element J (JSONHANDLEMAP_ARRAYITER OR f) (Obj_Handler g) w c js
                else Inr (0, c)
            | _ \<Rightarrow> Inr (-1, c))
      else lookup_jsonmap J w tab c k j)"
  by (auto simp: jsonmap_entry_defs accepts_type_def call_entry_def str_handler_def
      json_object_get_string_def split: json.split)

lemma lookup_object_entries [simp]:
  "\<not> flag_on f JSONHANDLEMAP_STRHDLR \<Longrightarrow>
   lookup_jsonmap J w (JSONMAP_ENTRY_OBJECT_X n f g # tab) c k j =
     (if k = n
      then (case j of JObject kvs \<Rightarrow> if entry_applies w f then g c j w else Inr (0, c) | _ \<Rightarrow> Inr (-1, c))
      else lookup_jsonmap J w tab c k j)"
  "\<not> flag_on f JSONHANDLEMAP_STRHDLR \<Longrightarrow> \<not> flag_on f JSONHANDLEMAP_ARRAYITER \<Longrightarrow>
   lookup_jsonmap J w (JSONMAP_ENTRY_OBJANY_X n f g # tab) c k j =
     (if k = n then if entry_applies w f then g c j w else Inr (0, c) else lookup_jsonmap J w tab c k j)"
  by (auto simp: jsonmap_entry_defs accepts_type_def call_entry_def jobj_handler_def split: json.split)

section \<open>Arrays\<close>

text \<open>The loop over an array without the handlers' flags.\<close>

fun elements :: "('c \<Rightarrow> 'j \<Rightarrow> (int \<times> 'c) outcome) \<Rightarrow> 'c \<Rightarrow> 'j list \<Rightarrow> (int \<times> 'c) outcome" where
  "elements h c [] = Inr (0, c)"
| "elements h c (j # js) = obind (h c j) (\<lambda>(r, c'). if r \<noteq> 0 then Inr (r, c') else elements h c' js)"

definition on_string :: "('c \<Rightarrow> string \<Rightarrow> (int \<times> 'c) outcome) \<Rightarrow> 'c \<Rightarrow> json \<Rightarrow> (int \<times> 'c) outcome" where
  "on_string h c j = (case j of JString s \<Rightarrow> h c s | _ \<Rightarrow> Inr (-1, c))"

lemma on_string_simps [simp]: "on_string h c (JString s) = h c s"
  by (simp add: on_string_def)

lemma each_element_str [simp]:
  "flag_on f JSONHANDLEMAP_STRHDLR \<Longrightarrow>
     each_element J f (Str_Handler h) w c js = elements (on_string h) c js"
proof (induction js arbitrary: c)
  case Nil
  then show ?case by simp
next
  case (Cons j js)
  then show ?case
    by (cases j) (simp_all add: on_string_def str_handler_def obind_def split: sum.split)
qed

lemma each_element_obj [simp]:
  "\<not> flag_on f JSONHANDLEMAP_STRHDLR \<Longrightarrow>
     each_element J f (Obj_Handler g) w c js = elements (\<lambda>c j. g c j w) c js"
  by (induction js arbitrary: c) (simp_all add: jobj_handler_def obind_def split: sum.split)

lemma sub_array_field:
  assumes "f (JArray []) = Inr (JArray js)" "k \<notin> fst ` set kvs"
  shows "sub_array k f (JObject kvs) = Inr (JObject (kvs @ [(k, JArray js)]))"
  using assms by (simp add: sub_array_def)

lemma sub_object_field:
  assumes "f (JObject []) = Inr (JObject fs)" "k \<notin> fst ` set kvs"
  shows "sub_object k f (JObject kvs) = Inr (JObject (kvs @ [(k, JObject fs)]))"
  using assms by (simp add: sub_object_def)

lemma steps_array:
  assumes "\<And>js. list_all2 (\<lambda>f j. f (JArray js) = Inr (JArray (js @ [j]))) fs xs"
  shows "steps fs (JArray js) = Inr (JArray (js @ xs))"
proof -
  have "length fs = length xs" using assms list_all2_lengthD by blast
  then show ?thesis
    using assms
  proof (induction fs xs arbitrary: js rule: list_induct2)
    case Nil
    then show ?case by simp
  next
    case (Cons f fs x xs)
    have f: "f (JArray js) = Inr (JArray (js @ [x]))" and
      fs: "\<And>js. list_all2 (\<lambda>f j. f (JArray js) = Inr (JArray (js @ [j]))) fs xs"
      using Cons.prems by auto
    show ?case using f Cons.IH [OF fs] by simp
  qed
qed

subsection \<open>Tags\<close>

locale tag_list =
  fixes items :: "'c \<Rightarrow> tag list"
    and upd :: "tag list \<Rightarrow> 'c \<Rightarrow> 'c"
    and h :: "'c \<Rightarrow> string \<Rightarrow> (int \<times> 'c) outcome"
  assumes handler: "h c s = put (\<lambda>ts. upd ts c) (add_tag (items c) (Some s))"
    and items_upd: "items (upd ts c) = ts"
    and upd_upd: "upd ts (upd us c) = upd ts c"
    and upd_items: "upd (items c) c = c"
begin

lemma read_strings:
  "tags_ok (items c @ map Some ss) \<Longrightarrow>
     elements (on_string h) c (map JString ss) = Inr (0, upd (items c @ map Some ss) c)"
proof (induction ss arbitrary: c)
  case Nil
  then show ?case by (simp add: upd_items)
next
  case (Cons s ss)
  have s: "tags_ok (items c)" "s \<noteq> []" "Some s \<notin> set (items c)"
    using Cons.prems by (auto simp: tags_ok_def)
  then have "add_tag (items c) (Some s) = Inr (0, items c @ [Some s])"
    using add_tag_ok [of "items c" s] by auto
  then have "h c s = Inr (0, upd (items c @ [Some s]) c)"
    by (simp add: handler)
  moreover have "tags_ok (items (upd (items c @ [Some s]) c) @ map Some ss)"
    using Cons.prems by (simp add: items_upd)
  ultimately show ?case
    using Cons.IH [of "upd (items c @ [Some s]) c"] by (simp add: items_upd upd_upd)
qed

lemma tags_codec_written:
  assumes "\<And>js. lookup_jsonmap J w tab c k (JArray js) = elements (on_string h) c js"
    and "items c = []" "tags_ok ts"
  shows "codec J w tab {k} (render_tags ts k) c (upd ts c) (ts \<noteq> [])"
proof (cases "ts = []")
  case True
  then have "upd ts c = c" using upd_items [of c] assms(2) by simp
  then show ?thesis using True by (simp add: render_tags_def codec_skip)
next
  case False
  obtain ss where ss: "ts = map Some ss"
    using assms(3) unfolding tags_ok_def by (metis ex_map_conv option.exhaust)
  have r: "steps (map render_tag ts) (JArray []) = Inr (JArray ([] @ map JString ss))"
    by (rule steps_array) (simp add: ss list_all2_map1 list_all2_map2 render_tag_def list.rel_refl)
  have "codec J w tab {k} (render_tags ts k) c (upd ts c) True"
  proof (rule codec_field)
    fix kvs :: "(string \<times> json) list"
    assume "k \<notin> fst ` set kvs"
    then show "render_tags ts k (JObject kvs) = Inr (JObject (kvs @ [(k, JArray (map JString ss))]))"
      using r False by (simp add: render_tags_def sub_array_field)
  next
    show "lookup_jsonmap J w tab c k (JArray (map JString ss)) = Inr (0, upd ts c)"
      using assms read_strings [of c ss] by (simp add: ss)
  qed
  then show ?thesis by (rule codec_weaken) simp_all
qed

lemma tags_codec:
  assumes "\<And>js. lookup_jsonmap J w tab c k (JArray js) = elements (on_string h) c js"
    and "items c = []" "tags_ok ts"
  shows "codec J w tab {k} (render_tags ts k) c (upd ts c) False"
  using tags_codec_written [OF assms] by (rule codec_weaken) simp_all

end

subsection \<open>Calendar fields\<close>

text \<open>
  The elements \<open>el i\<close> of a bit set read back one after the other, each setting its bit; \<open>star\<close> sets all of them, \<open>idx\<close> are the
  bits the renderer looks at, and \<open>lawful\<close> is what the reading of an element needs of the libraries.
\<close>

locale bit_list =
  fixes get :: "'c \<Rightarrow> 'w::len word"
    and upd :: "'w word \<Rightarrow> 'c \<Rightarrow> 'c"
    and h :: "'c \<Rightarrow> 'j \<Rightarrow> (int \<times> 'c) outcome"
    and el :: "nat \<Rightarrow> 'j"
    and star :: 'j
    and idx :: "nat list"
    and lawful :: bool
  assumes bit_element: "lawful \<Longrightarrow> i \<in> set idx \<Longrightarrow> h c (el i) = Inr (0, upd (get c OR push_bit i 1) c)"
    and star_element: "h c star = Inr (0, upd (-1) c)"
    and get_upd: "get (upd v c) = v"
    and upd_upd: "upd v (upd u c) = upd v c"
    and upd_get: "upd (get c) c = c"
begin

lemma read_bits:
  "lawful \<Longrightarrow> set is \<subseteq> set idx \<Longrightarrow>
     elements h c (map el is) = Inr (0, upd (fold (\<lambda>i v. v OR push_bit i 1) is (get c)) c)"
  by (induction "is" arbitrary: c) (simp_all add: upd_get bit_element get_upd upd_upd)

lemma bit_fold: "bit (fold (\<lambda>i v. v OR push_bit i 1) is v) n \<longleftrightarrow> bit (v :: 'w word) n \<or> (n \<in> set is \<and> n < LENGTH('w))"
  by (induction "is" arbitrary: v) (auto simp: bit_simps)

lemma fold_bits:
  assumes "\<And>n. bit w n \<Longrightarrow> n \<in> set idx"
  shows "fold (\<lambda>i v. v OR push_bit i 1) (filter (bit w) idx) 0 = (w :: 'w word)"
proof (rule bit_eqI)
  fix n
  show "bit (fold (\<lambda>i v. v OR push_bit i 1) (filter (bit w) idx) (0 :: 'w word)) n = bit w n"
    unfolding bit_fold using assms [of n] bit_imp_le_length [of w n] by auto
qed

lemma and_bit: "(w :: 'w word) AND 2 ^ i = 0 \<longleftrightarrow> \<not> bit w i"
  by (simp add: and_exp_eq_0_iff_not_bit)

text \<open>The elements written for a set, and what they read back as.\<close>

definition written :: "'w word \<Rightarrow> 'j list" where
  "written v = (if v = -1 then [star] else map el (filter (bit v) idx))"

lemma read_written:
  assumes "lawful" "get c = 0" "v = -1 \<or> (\<forall>n. bit v n \<longrightarrow> n \<in> set idx)"
  shows "elements h c (written v) = Inr (0, upd v c)"
proof (cases "v = -1")
  case True
  then show ?thesis by (simp add: written_def star_element)
next
  case False
  then have "fold (\<lambda>i v. v OR push_bit i 1) (filter (bit v) idx) (get c) = v"
    using assms(2,3) fold_bits [of v] by simp
  then show ?thesis
    using False read_bits [OF assms(1), of "filter (bit v) idx" c] by (simp add: written_def)
qed

end

locale json_bit_list = bit_list get upd h el "JString ''*''" idx lawful
  for get :: "'c \<Rightarrow> 'w::len word"
    and upd :: "'w word \<Rightarrow> 'c \<Rightarrow> 'c"
    and h :: "'c \<Rightarrow> json \<Rightarrow> (int \<times> 'c) outcome"
    and el :: "nat \<Rightarrow> json"
    and idx :: "nat list"
    and lawful :: bool
begin

lemma steps_bits:
  assumes "\<And>i js. element i (JArray js) = Inr (JArray (js @ [el i]))"
  shows "steps (map (\<lambda>i. provided ((w :: 'w word) AND push_bit i 1 \<noteq> 0) (element i)) is) (JArray js) =
     Inr (JArray (js @ map el (filter (bit w) is)))"
  by (induction "is" arbitrary: js) (simp_all add: provided_def assms and_bit)

lemma bits_codec:
  assumes "\<And>js. lookup_jsonmap J w tab c k (JArray js) = elements h c js"
    and "lawful" "get c = 0" "v = -1 \<or> (\<forall>n. bit v n \<longrightarrow> n \<in> set idx)"
    and "\<And>i js. element i (JArray js) = Inr (JArray (js @ [el i]))"
  shows "codec J w tab {k} (render_bits k v element idx) c (upd v c) (v \<noteq> 0)"
proof (cases "v = 0")
  case True
  then have "upd v c = c" using assms(3) upd_get [of c] by simp
  then show ?thesis using True by (simp add: render_bits_def codec_skip)
next
  case False
  define f where "f = (if v = -1 then render_leaf k (Some ''*'')
    else steps (map (\<lambda>i. provided (v AND push_bit i 1 \<noteq> 0) (element i)) idx))"
  have f: "f (JArray []) = Inr (JArray (written v))"
    using steps_bits [of element v idx "[]"] assms(5) by (simp add: f_def written_def render_leaf_def)
  have "codec J w tab {k} (render_bits k v element idx) c (upd v c) True"
  proof (rule codec_field)
    fix kvs :: "(string \<times> json) list"
    assume "k \<notin> fst ` set kvs"
    then show "render_bits k v element idx (JObject kvs) = Inr (JObject (kvs @ [(k, JArray (written v))]))"
      using False sub_array_field [of f "written v" k kvs] f by (simp add: render_bits_def f_def)
  next
    show "lookup_jsonmap J w tab c k (JArray (written v)) = Inr (0, upd v c)"
      by (simp add: assms(1) read_written [OF assms(2-4)])
  qed
  then show ?thesis using False by simp
qed

end

subsection \<open>Named objects\<close>

text \<open>
  A list of named objects that an object owns, with the function that appends to it: \<open>norm\<close> is what becomes of an object
  that is written and read back.
\<close>

locale named_list =
  fixes key :: "'a \<Rightarrow> string option"
    and items :: "'c \<Rightarrow> 'a list"
    and upd :: "'a list \<Rightarrow> 'c \<Rightarrow> 'c"
    and add :: "'c \<Rightarrow> 'a \<Rightarrow> (int \<times> 'c) outcome"
    and good :: "'a \<Rightarrow> bool"
    and norm :: "'a \<Rightarrow> 'a"
  assumes add_append: "add c x = put (\<lambda>xs. upd xs c) (append_named key (items c) x)"
    and items_upd: "items (upd xs c) = xs"
    and upd_upd: "upd xs (upd ys c) = upd xs c"
    and upd_items: "upd (items c) c = c"
    and key_norm: "good x \<Longrightarrow> key (norm x) = key x \<and> key x \<noteq> None"
begin

lemma add_good:
  assumes "good x" "named_distinct key (items c @ norm x # map norm xs)"
  shows "add c (norm x) = Inr (0, upd (items c @ [norm x]) c)"
proof -
  have "named_distinct key (items c)" "key (norm x) \<notin> key ` set (items c)"
    using assms(2) by (auto simp: named_distinct_def)
  then show ?thesis
    using assms(1) key_norm by (simp add: add_append append_named_cases)
qed

lemma named_norm:
  "\<forall>x\<in>set xs. good x \<Longrightarrow> named_distinct key xs \<Longrightarrow> named_distinct key (map norm xs)"
proof -
  assume "\<forall>x\<in>set xs. good x" "named_distinct key xs"
  moreover from this(1) have "map key (map norm xs) = map key xs"
    by (induction xs) (simp_all add: key_norm)
  ultimately show ?thesis by (simp only: named_distinct_def) simp
qed

end

text \<open>Each object is rendered as an object of an array and read back by parsing the element and appending what it gives.\<close>

locale member_list = named_list key items upd add good norm
  for key :: "'a \<Rightarrow> string option"
    and items :: "'c \<Rightarrow> 'a list"
    and upd :: "'a list \<Rightarrow> 'c \<Rightarrow> 'c"
    and add :: "'c \<Rightarrow> 'a \<Rightarrow> (int \<times> 'c) outcome"
    and render :: "'a \<Rightarrow> json \<Rightarrow> json outcome"
    and parse :: "json \<Rightarrow> 'a option outcome"
    and good :: "'a \<Rightarrow> bool"
    and norm :: "'a \<Rightarrow> 'a" +
  assumes render_parse: "good x \<Longrightarrow>
      \<exists>kvs. render x (JObject []) = Inr (JObject kvs) \<and> parse (JObject kvs) = Inr (Some (norm x))"
begin

lemma read_members:
  assumes "\<forall>x\<in>set xs. good x" "named_distinct key (items c @ map norm xs)"
    and "list_all2 (\<lambda>x j. parse j = Inr (Some (norm x))) xs js"
  shows "elements (\<lambda>c j. parse_and_add (parse j) add c) c js = Inr (0, upd (items c @ map norm xs) c)"
    and "each_member parse add c js = Inr (0, upd (items c @ map norm xs) c)"
proof -
  have "elements (\<lambda>c j. parse_and_add (parse j) add c) c js = Inr (0, upd (items c @ map norm xs) c)
    \<and> each_member parse add c js = Inr (0, upd (items c @ map norm xs) c)"
    using assms(3,1,2)
  proof (induction xs js arbitrary: c rule: list_all2_induct)
    case Nil
    then show ?case by (simp add: upd_items)
  next
    case (Cons x xs j js)
    have a: "add c (norm x) = Inr (0, upd (items c @ [norm x]) c)"
      using Cons.prems by (intro add_good) simp_all
    have "named_distinct key (items (upd (items c @ [norm x]) c) @ map norm xs)"
      using Cons.prems(2) by (simp add: items_upd)
    then show ?case
      using Cons.IH [of "upd (items c @ [norm x]) c"] Cons.prems(1) Cons.hyps(1) a
      by (simp add: parse_and_add_def items_upd upd_upd)
  qed
  then show "elements (\<lambda>c j. parse_and_add (parse j) add c) c js = Inr (0, upd (items c @ map norm xs) c)"
    and "each_member parse add c js = Inr (0, upd (items c @ map norm xs) c)" by simp_all
qed

lemma rendered:
  assumes "\<forall>x\<in>set xs. good x"
  shows "\<exists>js. list_all2 (\<lambda>x j. render x (JObject []) = Inr j \<and> parse j = Inr (Some (norm x))) xs js"
  using assms
proof (induction xs)
  case Nil
  then show ?case by simp
next
  case (Cons x xs)
  then obtain js where js: "list_all2 (\<lambda>x j. render x (JObject []) = Inr j \<and> parse j = Inr (Some (norm x))) xs js"
    by auto
  obtain kvs where "render x (JObject []) = Inr (JObject kvs)" "parse (JObject kvs) = Inr (Some (norm x))"
    using Cons.prems render_parse [of x] by auto
  with js show ?case by (intro exI [of _ "JObject kvs # js"]) simp
qed

lemma render_list:
  assumes "list_all2 (\<lambda>x j. render x (JObject []) = Inr j \<and> parse j = Inr (Some (norm x))) xs js"
    and "\<And>x. x \<in> set xs \<Longrightarrow> f x = array_object (render x)"
  shows "steps (map f xs) (JArray []) = Inr (JArray js)"
proof -
  have "list_all2 (\<lambda>f j. f (JArray as) = Inr (JArray (as @ [j]))) (map f xs) js" for as
    unfolding list_all2_map1
    by (rule list.rel_mono_strong [OF assms(1)]) (simp add: assms(2) array_object_def)
  then show ?thesis using steps_array [of "map f xs" js "[]"] by simp
qed

lemma array_codec:
  assumes "\<And>js. lookup_jsonmap J w tab c k (JArray js) = elements (\<lambda>c j. parse_and_add (parse j) add c) c js"
    and "\<forall>x\<in>set xs. good x" "named_distinct key xs" "items c = []"
    and "\<And>x. x \<in> set xs \<Longrightarrow> f x = array_object (render x)"
  shows "codec J w tab {k} (\<lambda>j. if xs = [] then Inr j else sub_array k (steps (map f xs)) j) c
    (upd (map norm xs) c) False"
proof (cases "xs = []")
  case True
  then have "upd (map norm xs) c = c" using upd_items [of c] assms(4) by simp
  then show ?thesis using True by (simp add: codec_skip)
next
  case False
  obtain js where js: "list_all2 (\<lambda>x j. render x (JObject []) = Inr j \<and> parse j = Inr (Some (norm x))) xs js"
    using rendered [OF assms(2)] by blast
  have "codec J w tab {k} (\<lambda>j. if xs = [] then Inr j else sub_array k (steps (map f xs)) j) c
    (upd (map norm xs) c) True"
  proof (rule codec_field)
    fix kvs :: "(string \<times> json) list"
    assume "k \<notin> fst ` set kvs"
    then show "(if xs = [] then Inr (JObject kvs) else sub_array k (steps (map f xs)) (JObject kvs)) =
      Inr (JObject (kvs @ [(k, JArray js)]))"
      using False sub_array_field [of "steps (map f xs)" js k kvs] render_list [OF js, of f] assms(5) by simp
  next
    show "lookup_jsonmap J w tab c k (JArray js) = Inr (0, upd (map norm xs) c)"
      using read_members(1) [of xs c js] assms named_norm js
      by (simp add: list_all2_mono [OF js])
  qed
  then show ?thesis by (rule codec_weaken) simp_all
qed

lemma members_codec:
  assumes "\<And>kvs. lookup_jsonmap J w tab c k (JObject kvs) = parse_members member parse add c (JObject kvs)"
    and "\<forall>x\<in>set xs. good x" "named_distinct key xs" "items c = []"
  shows "codec J w tab {k} (render_members k member key render xs) c (upd (map norm xs) c) (xs \<noteq> [])"
proof (cases "xs = []")
  case True
  then have "upd (map norm xs) c = c" using upd_items [of c] assms(4) by simp
  then show ?thesis using True by (simp add: codec_skip render_members_def)
next
  case False
  obtain js where js: "list_all2 (\<lambda>x j. render x (JObject []) = Inr j \<and> parse j = Inr (Some (norm x))) xs js"
    using rendered [OF assms(2)] by blast
  have "provided (key x \<noteq> None) (array_object (render x)) = array_object (render x)" if "x \<in> set xs" for x
    using that assms(2) key_norm by (simp add: provided_def)
  then have s: "steps (map (\<lambda>x. provided (key x \<noteq> None) (array_object (render x))) xs) (JArray []) = Inr (JArray js)"
    by (rule render_list [OF js])
  define f where "f = sub_array member (steps (map (\<lambda>x. provided (key x \<noteq> None) (array_object (render x))) xs))"
  have f: "f (JObject []) = Inr (JObject [(member, JArray js)])"
    using s by (simp add: f_def sub_array_def json_object_object_add_def)
  have "codec J w tab {k} (render_members k member key render xs) c (upd (map norm xs) c) True"
  proof (rule codec_field)
    fix kvs :: "(string \<times> json) list"
    assume "k \<notin> fst ` set kvs"
    then show "render_members k member key render xs (JObject kvs) =
      Inr (JObject (kvs @ [(k, JObject [(member, JArray js)])]))"
      using False sub_object_field [of f _ k kvs] f by (simp add: render_members_def f_def)
  next
    show "lookup_jsonmap J w tab c k (JObject [(member, JArray js)]) = Inr (0, upd (map norm xs) c)"
      using read_members(2) [of xs c js] assms named_norm js
      by (simp add: list_all2_mono [OF js] parse_members_def json_object_object_get_ex_def)
  qed
  then show ?thesis by (rule codec_weaken) simp_all
qed

end

end
