(* ===== verification/Json_Tasks.thy ===== *)
theory Json_Tasks
  imports Json_Codec
begin

text \<open>
  The round trip of \<^verbatim>\<open>src/json-io.c\<close>, from the leaves up to tasks: what is assumed of json-c and of the C library's calendar,
  the codecs of the leaves, and those of options, registries and tasks.
\<close>

section \<open>What is assumed of the libraries\<close>

text \<open>The texts that json-c gives numbers and booleans.\<close>

definition jsonc_ok :: "jsonc \<Rightarrow> bool" where
  "jsonc_ok J \<longleftrightarrow>
     (\<forall>i. jc_to_json_string J (JInt i) = dec_int i)
     \<and> (\<forall>b. jc_to_json_string J (JBool b) = (if b then ''true'' else ''false''))"

text \<open>
  An instant that the C library prints and reads: the printed text is 19 characters of date and time and the offset
  without a colon, \<open>strptime\<close> reads the date and time and leaves the offset, and \<open>timegm\<close> gives the instant shifted by
  the offset. The value -1, which \<open>timegm\<close> also returns on errors, is left out.
\<close>

definition zone_text :: "int \<Rightarrow> string" where
  "zone_text offset = take 3 (offset_text offset) @ drop 4 (offset_text offset)"

definition instant_ok :: "libc \<Rightarrow> (int \<Rightarrow> string option) \<Rightarrow> int \<Rightarrow> bool" where
  "instant_ok C strft t \<longleftrightarrow>
     (\<exists>date offset tm.
        strft t = Some (date @ zone_text offset) \<and> length date = 19 \<and> \<bar>offset\<bar> < 1440
        \<and> lc_have_timegm C
        \<and> lc_strptime C (date @ offset_text offset) = Some (tm, offset_text offset)
        \<and> lc_timegm C tm = t + offset * 60 \<and> t + offset * 60 \<noteq> -1)"

definition time_ok :: "jsonc \<Rightarrow> int \<Rightarrow> bool" where
  "time_ok J t \<longleftrightarrow> instant_ok (jc_libc J) (jc_strftime J) t"

lemma offset_text_shape: "\<exists>s a b d e. offset_text t = [s, a, b, CHR '':'', d, e]"
  by (simp add: offset_text_def two_digits_def Let_def)

lemma insert_colon_zone:
  assumes "length date = 19"
  shows "insert_colon (date @ zone_text t) = date @ offset_text t"
proof -
  obtain s a b d e where "offset_text t = [s, a, b, CHR '':'', d, e]"
    using offset_text_shape by blast
  then show ?thesis
    using assms by (simp add: insert_colon_def zone_text_def)
qed

lemma instant_read_back:
  assumes "instant_ok C strft t"
  obtains buf where "strft t = Some buf" and "\<And>old. set_dateandtime C old (insert_colon buf) = (0, t)"
proof -
  obtain date offset tm where 1: "strft t = Some (date @ zone_text offset)" "length date = 19"
    and 2: "\<bar>offset\<bar> < 1440" "lc_have_timegm C"
    "lc_strptime C (date @ offset_text offset) = Some (tm, offset_text offset)"
    and 3: "lc_timegm C tm = t + offset * 60" "t + offset * 60 \<noteq> -1"
    using assms unfolding instant_ok_def by blast
  have "set_dateandtime C old (date @ offset_text offset) = (0, t)" for old
    using set_dateandtime_offset [OF 2(3) 2(1,2), of old] 3 by simp
  then show ?thesis
    using that [OF 1(1)] 1(2) by (simp add: insert_colon_zone)
qed

lemma time_read_back:
  assumes "time_ok J t"
  obtains buf where "jc_strftime J t = Some buf"
    and "\<And>old. set_dateandtime (jc_libc J) old (insert_colon buf) = (0, t)"
  using instant_read_back [OF assms [unfolded time_ok_def]] that by blast

section \<open>Leaves\<close>

lemma render_flags [simp]: "RENDER_CONFIG_TRUE = PARSE_CONFIG_TRUE" "RENDER_CONFIG_FALSE = PARSE_CONFIG_FALSE"
  by (simp_all add: RENDER_CONFIG_TRUE_def RENDER_CONFIG_FALSE_def parse_flag_defs)

lemma set_uint32_back: "set_uint32 old (dec_int (uint v)) = (0, v)"
proof -
  have "dec_int (uint v) = dec (unat v)" by (simp add: dec_int_def)
  moreover have "unat v < 2 ^ LENGTH(32)" by (rule unsigned_less)
  then have "unat v \<le> UINT32_MAX" by (simp add: UINT32_MAX_def)
  ultimately show ?thesis by (simp add: set_uint32_decimal)
qed

lemma set_uint64_back: "set_uint64 old (dec (unat v)) = (0, v)"
proof -
  have "unat v < 2 ^ LENGTH(64)" by (rule unsigned_less)
  then have "unat v \<le> UINTMAX_MAX" by (simp add: UINTMAX_MAX_def)
  then show ?thesis
    using strtoumax_numeral [OF numeral_form_dec, of "unat v"]
    by (simp add: set_uint64_def umax_value_def)
qed

lemma set_boolean_back: "b \<in> {0, 1} \<Longrightarrow> set_boolean old (if b \<noteq> 0 then ''true'' else ''false'') = (0, b)"
  by (auto simp: set_boolean_def)

lemma codec_bool:
  "lookup_jsonmap J w tab c k (JBool (v \<noteq> 0)) = Inr (0, c') \<Longrightarrow>
     codec J w tab {k} (render_leaf_boolean k v) c c' True"
  by (rule codec_field) (simp_all add: render_leaf_boolean_def)

lemma codec_uint32:
  "lookup_jsonmap J w tab c k (JInt (uint v)) = Inr (0, c') \<Longrightarrow>
     codec J w tab {k} (render_leaf_uint32 k v) c c' True"
  by (rule codec_field) (simp_all add: render_leaf_uint32_def)

lemma codec_int32:
  "lookup_jsonmap J w tab c k (JInt v) = Inr (0, c') \<Longrightarrow>
     codec J w tab {k} (render_leaf_int32 k v) c c' True"
  by (rule codec_field) (simp_all add: render_leaf_int32_def)

lemma codec_uint64:
  "lookup_jsonmap J w tab c k (JString (dec (unat v))) = Inr (0, c') \<Longrightarrow>
     codec J w tab {k} (render_leaf_uint64 k v) c c' True"
  by (rule codec_field) (simp_all add: render_leaf_uint64_def)

lemma codec_time:
  assumes "time_ok J t"
    and "\<And>s. (\<And>old. set_dateandtime (jc_libc J) old s = (0, t)) \<Longrightarrow>
      lookup_jsonmap J w tab c k (JString s) = Inr (0, c')"
  shows "codec J w tab {k} (render_leaf_datetime J k t) c c' True"
proof -
  obtain buf where b: "jc_strftime J t = Some buf"
    "\<And>old. set_dateandtime (jc_libc J) old (insert_colon buf) = (0, t)"
    using time_read_back [OF assms(1)] by blast
  show ?thesis
    by (rule codec_field [of _ _ "JString (insert_colon buf)"])
      (use b assms(2) in \<open>simp_all add: render_leaf_datetime_def render_leaf_def\<close>)
qed

lemma codec_empty:
  "lookup_jsonmap J w tab c k (JArray [JNull]) = Inr (0, c') \<Longrightarrow>
     codec J w tab {k} (render_empty_leaf k) c c' True"
  by (rule codec_field) (simp_all add: render_empty_leaf_def)

lemma codec_sub_object:
  assumes "codec J w' tab' K f c0 c1 True"
    and "\<And>kvs. kvs \<noteq> [] \<Longrightarrow> each_field J w' tab' (-1) c0 kvs = Inr (0, c1) \<Longrightarrow>
      lookup_jsonmap J w tab c k (JObject kvs) = Inr (0, c')"
  shows "codec J w tab {k} (sub_object k f) c c' True"
proof -
  obtain kvs where "f (JObject []) = Inr (JObject kvs)" "kvs \<noteq> []"
    "each_field J w' tab' (-1) c0 kvs = Inr (0, c1)"
    using codec_foreach [OF assms(1)] by blast
  then show ?thesis
    by (intro codec_field [of _ _ "JObject kvs"]) (simp_all add: sub_object_field assms(2))
qed

section \<open>Options and registries\<close>

definition id_ok :: "string option \<Rightarrow> bool" where
  "id_ok v \<longleftrightarrow> v \<noteq> None \<and> v \<noteq> Some []"

lemma codec_id:
  assumes "id_ok v"
    and "\<And>s. v = Some s \<Longrightarrow> (\<And>old. set_lmap_identifier old (Some s) = (0, Some s)) \<Longrightarrow>
      lookup_jsonmap J w tab c k (JString s) = Inr (0, c')"
  shows "codec J w tab {k} (render_leaf k v) c c' True"
proof -
  obtain s where v: "v = Some s" "s \<noteq> []" using assms(1) by (auto simp: id_ok_def)
  then have "set_lmap_identifier old (Some s) = (0, Some s)" for old
    by (simp add: set_lmap_identifier_def set_string_def)
  with v assms(2) show ?thesis by (simp add: codec_leaf)
qed

lemma codec_id_option:
  assumes "v \<noteq> Some []"
    and "\<And>s. v = Some s \<Longrightarrow> (\<And>old. set_lmap_identifier old (Some s) = (0, Some s)) \<Longrightarrow>
      lookup_jsonmap J w tab c k (JString s) = Inr (0, c')"
    and "v = None \<Longrightarrow> c' = c"
  shows "codec J w tab {k} (render_leaf k v) c c' (v \<noteq> None)"
proof (cases "v = None")
  case True
  with assms(3) show ?thesis by (simp add: codec_skip render_leaf_def)
next
  case False
  then have "id_ok v" using assms(1) by (simp add: id_ok_def)
  then have "codec J w tab {k} (render_leaf k v) c c' True" using assms(2) by (rule codec_id)
  with False show ?thesis by simp
qed

definition option_good :: "lmap_option \<Rightarrow> bool" where
  "option_good p \<longleftrightarrow> id_ok (opt_id p)"

lemma option_fields:
  assumes "flag_on w PARSE_CONFIG_TRUE"
  shows "id_ok v \<Longrightarrow> codec J w (option_tab J) {''id''} (render_leaf ''id'' v) c (c\<lparr>opt_id := v\<rparr>) True"
    and "opt_name c = None \<Longrightarrow>
      codec J w (option_tab J) {''name''} (render_leaf ''name'' v) c (c\<lparr>opt_name := v\<rparr>) (v \<noteq> None)"
    and "opt_value c = None \<Longrightarrow>
      codec J w (option_tab J) {''value''} (render_leaf ''value'' v) c (c\<lparr>opt_value := v\<rparr>) (v \<noteq> None)"
proof -
  assume "id_ok v"
  then show "codec J w (option_tab J) {''id''} (render_leaf ''id'' v) c (c\<lparr>opt_id := v\<rparr>) True"
    by (rule codec_id) (simp add: assms option_tab_def xx_los_id_def lmap_option_set_id_def)
next
  assume "opt_name c = None"
  then show "codec J w (option_tab J) {''name''} (render_leaf ''name'' v) c (c\<lparr>opt_name := v\<rparr>) (v \<noteq> None)"
    by (intro codec_leaf_option)
      (simp_all add: assms option_tab_def xx_los_name_def lmap_option_set_name_def set_string_def)
next
  assume "opt_value c = None"
  then show "codec J w (option_tab J) {''value''} (render_leaf ''value'' v) c (c\<lparr>opt_value := v\<rparr>) (v \<noteq> None)"
    by (intro codec_leaf_option)
      (simp_all add: assms option_tab_def xx_los_value_def lmap_option_set_value_def set_string_def)
qed

lemma option_codec:
  assumes "flag_on w PARSE_CONFIG_TRUE" "option_good p"
  shows "codec J w (option_tab J) UNIV
    (steps [render_leaf ''id'' (opt_id p), render_leaf ''name'' (opt_name p), render_leaf ''value'' (opt_value p)])
    lmap_option_new p True"
  by (rule codec_weaken, (rule codec_Cons codec_Nil option_fields | (insert assms, simp add: option_good_def lmap_option_new_def; fail))+)

text \<open>The fields that the filter hides are skipped.\<close>

lemma entry_hidden [simp]:
  "flag_on w PARSE_CONFIG_TRUE \<Longrightarrow> \<not> flag_on w PARSE_CONFIG_FALSE \<Longrightarrow>
     \<not> entry_applies w (JSONHANDLEMAP_STRHDLR OR YANG_CONFIG_FALSE)"
  "flag_on w PARSE_CONFIG_TRUE \<Longrightarrow> \<not> flag_on w PARSE_CONFIG_FALSE \<Longrightarrow> \<not> entry_applies w YANG_CONFIG_FALSE"
proof -
  assume w: "flag_on w PARSE_CONFIG_TRUE" "\<not> flag_on w PARSE_CONFIG_FALSE"
  then have "w \<noteq> 0" by (auto simp: flag_on_def)
  moreover have "\<not> flag_on (JSONHANDLEMAP_STRHDLR OR YANG_CONFIG_FALSE) YANG_KEY"
    "\<not> flag_on (JSONHANDLEMAP_STRHDLR OR YANG_CONFIG_FALSE) YANG_CONFIG_TRUE"
    "\<not> flag_on YANG_CONFIG_FALSE YANG_KEY" "\<not> flag_on YANG_CONFIG_FALSE YANG_CONFIG_TRUE"
    "JSONHANDLEMAP_STRHDLR OR YANG_CONFIG_FALSE \<noteq> 0" "YANG_CONFIG_FALSE \<noteq> 0"
    by (simp_all add: flag_on_def parse_flag_defs)
  ultimately show "\<not> entry_applies w (JSONHANDLEMAP_STRHDLR OR YANG_CONFIG_FALSE)" "\<not> entry_applies w YANG_CONFIG_FALSE"
    using w by (simp_all add: entry_applies_def)
qed

lemma flag_clear_parse [simp]:
  "flag_on (flag_clear w PARSE_CONFIG_FALSE) PARSE_CONFIG_TRUE = flag_on w PARSE_CONFIG_TRUE"
  "\<not> flag_on (flag_clear w PARSE_CONFIG_FALSE) PARSE_CONFIG_FALSE"
  "flag_on (flag_clear w PARSE_CONFIG_TRUE) PARSE_CONFIG_FALSE = flag_on w PARSE_CONFIG_FALSE"
  by (simp_all add: flag_on_clear_other flag_on_clear_same parse_flag_defs)

lemma render_list_eq:
  "render_options ps = (\<lambda>j. if ps = [] then Inr j else sub_array ''option'' (steps (map render_option ps)) j)"
  "render_registries gs = (\<lambda>j. if gs = [] then Inr j else sub_array ''function'' (steps (map render_registry gs)) j)"
  by (simp_all add: fun_eq_iff render_options_def render_registries_def)

interpretation rol: tag_list reg_roles "\<lambda>ts g. g\<lparr>reg_roles := ts\<rparr>" xx_lreg_role
  by unfold_locales (simp_all add: xx_lreg_role_def lmap_registry_add_role_def)

definition registry_good :: "registry \<Rightarrow> bool" where
  "registry_good g \<longleftrightarrow> reg_uri g \<noteq> None \<and> tags_ok (reg_roles g)"

lemma registry_uri_field:
  "flag_on w PARSE_CONFIG_TRUE \<Longrightarrow> reg_uri c = None \<Longrightarrow>
     codec J w (registry_tab J) {''uri''} (render_leaf ''uri'' v) c (c\<lparr>reg_uri := v\<rparr>) (v \<noteq> None)"
  by (intro codec_leaf_option)
    (simp_all add: registry_tab_def xx_lreg_uri_def lmap_registry_set_uri_def set_string_def)

lemma registry_role_field:
  "flag_on w PARSE_CONFIG_TRUE \<Longrightarrow> reg_roles c = [] \<Longrightarrow> tags_ok ts \<Longrightarrow>
     codec J w (registry_tab J) {''role''} (render_tags ts ''role'') c (c\<lparr>reg_roles := ts\<rparr>) False"
  by (intro rol.tags_codec) (simp_all add: registry_tab_def)

lemma registry_codec:
  assumes "flag_on w PARSE_CONFIG_TRUE" "registry_good g"
  shows "codec J w (registry_tab J) UNIV
    (steps [render_leaf ''uri'' (reg_uri g), render_tags (reg_roles g) ''role'']) lmap_registry_new g True"
  by (rule codec_weaken,
      (rule codec_Cons codec_Nil registry_uri_field registry_role_field
        | (insert assms, simp add: registry_good_def lmap_registry_new_def; fail))+)

section \<open>Tasks\<close>

interpretation ttg: tag_list task_tags "\<lambda>ts t. t\<lparr>task_tags := ts\<rparr>" xx_lt_tag
  by unfold_locales (simp_all add: xx_lt_tag_def lmap_task_add_tag_def)

interpretation tko: member_list opt_id task_options "\<lambda>xs t. t\<lparr>task_options := xs\<rparr>" lmap_task_add_option
  "\<lambda>p. steps [render_leaf ''id'' (opt_id p), render_leaf ''name'' (opt_name p), render_leaf ''value'' (opt_value p)]"
  "\<lambda>j. parse_option J j w" "\<lambda>p. flag_on w PARSE_CONFIG_TRUE \<and> option_good p" "\<lambda>p. p" for J w
  by unfold_locales
    (simp_all add: lmap_task_add_option_def add_option_def parse_option_def codec_parse_new [OF option_codec]
      option_good_def id_ok_def del: steps_simps)

interpretation tkr: member_list reg_uri task_registries "\<lambda>xs t. t\<lparr>task_registries := xs\<rparr>" lmap_task_add_registry
  "\<lambda>g. steps [render_leaf ''uri'' (reg_uri g), render_tags (reg_roles g) ''role'']"
  "\<lambda>j. parse_registry J j w" "\<lambda>g. flag_on w PARSE_CONFIG_TRUE \<and> registry_good g" "\<lambda>g. g" for J w
  by unfold_locales
    (simp_all add: lmap_task_add_registry_def parse_registry_def codec_parse_new [OF registry_codec]
      registry_good_def del: steps_simps)

definition task_good :: "task \<Rightarrow> bool" where
  "task_good t \<longleftrightarrow>
     id_ok (task_name t) \<and> list_all registry_good (task_registries t) \<and> named_distinct reg_uri (task_registries t)
     \<and> list_all option_good (task_options t) \<and> named_distinct opt_id (task_options t) \<and> tags_ok (task_tags t)"

text \<open>The version of a task is not part of a configuration.\<close>

definition task_part :: "task \<Rightarrow> task" where
  "task_part t = t\<lparr>task_version := None\<rparr>"

lemma task_name_field:
  "id_ok v \<Longrightarrow> codec J w (task_tab J) {''name''} (render_leaf ''name'' v) c (c\<lparr>task_name := v\<rparr>) True"
  by (erule codec_id) (simp add: task_tab_def xx_lt_name_def lmap_task_set_name_def)

lemma task_program_field:
  "flag_on w PARSE_CONFIG_TRUE \<or> flag_on w PARSE_CONFIG_FALSE \<Longrightarrow> task_program c = None \<Longrightarrow>
     codec J w (task_tab J) {''program''} (render_leaf ''program'' v) c (c\<lparr>task_program := v\<rparr>) (v \<noteq> None)"
  by (intro codec_leaf_option)
    (auto simp: task_tab_def xx_lt_program_def lmap_task_set_program_def set_string_def)

lemma task_version_hidden:
  "flag_on w PARSE_CONFIG_TRUE \<Longrightarrow> \<not> flag_on w PARSE_CONFIG_FALSE \<Longrightarrow>
     codec J w (task_tab J) {''version''} (render_leaf ''version'' v) c c (v \<noteq> None)"
  by (intro codec_leaf_option) (simp_all add: task_tab_def)

lemma task_tag_field:
  "flag_on w PARSE_CONFIG_TRUE \<Longrightarrow> task_tags c = [] \<Longrightarrow> tags_ok ts \<Longrightarrow>
     codec J w (task_tab J) {''tag''} (render_tags ts ''tag'') c (c\<lparr>task_tags := ts\<rparr>) False"
  by (intro ttg.tags_codec) (simp_all add: task_tab_def)

lemma task_option_field:
  assumes "flag_on w PARSE_CONFIG_TRUE" "task_options c = []" "list_all option_good ps" "named_distinct opt_id ps"
  shows "codec J w (task_tab J) {''option''} (render_options ps) c (c\<lparr>task_options := ps\<rparr>) False"
  unfolding render_list_eq
  using tko.array_codec [of J w "task_tab J" c "''option''" J w ps render_option] assms
  by (simp add: task_tab_def xx_lt_option_def render_option_def list_all_iff)

lemma task_function_field:
  assumes "flag_on w PARSE_CONFIG_TRUE" "task_registries c = []" "list_all registry_good gs" "named_distinct reg_uri gs"
  shows "codec J w (task_tab J) {''function''} (render_registries gs) c (c\<lparr>task_registries := gs\<rparr>) False"
  unfolding render_list_eq
  using tkr.array_codec [of J w "task_tab J" c "''function''" J w gs render_registry] assms
  by (simp add: task_tab_def xx_lt_function_def render_registry_def list_all_iff)

lemmas task_fields =
  task_name_field task_program_field task_tag_field task_option_field task_function_field

lemma task_codec:
  assumes "flag_on w PARSE_CONFIG_TRUE" "\<not> flag_on w PARSE_CONFIG_FALSE" "flag_on what PARSE_CONFIG_TRUE" "task_good t"
  shows "codec J w (task_tab J) UNIV (render_task t what) lmap_task_new (task_part t) True"
  unfolding render_task_def
  by (rule codec_weaken,
      (rule codec_Cons codec_Nil codec_provided task_fields task_version_hidden
        | (insert assms, simp add: task_good_def task_part_def lmap_task_new_def; fail))+)

text \<open>
  The tasks of the capabilities are read without the fields of a configuration; \<open>xx_lt_function\<close> then cannot read a
  registry, so they have none.
\<close>

definition cap_task_good :: "task \<Rightarrow> bool" where
  "cap_task_good t \<longleftrightarrow> id_ok (task_name t) \<and> task_registries t = [] \<and> task_options t = [] \<and> task_tags t = []"

lemma task_version_field:
  "flag_on w PARSE_CONFIG_FALSE \<Longrightarrow> task_version c = None \<Longrightarrow>
     codec J w (task_tab J) {''version''} (render_leaf ''version'' v) c (c\<lparr>task_version := v\<rparr>) (v \<noteq> None)"
  by (intro codec_leaf_option)
    (simp_all add: task_tab_def xx_lt_version_def lmap_task_set_version_def set_string_def)

lemma codec_empty_list:
  "codec J w tab {k} (render_tags [] k) c c False" "codec J w tab {k} (render_options []) c c False"
  "codec J w tab {k} (render_registries []) c c False"
  by (simp_all add: codec_skip render_tags_def render_options_def render_registries_def)

lemma cap_task_codec:
  assumes "flag_on w PARSE_CONFIG_FALSE" "flag_on what PARSE_CONFIG_FALSE" "cap_task_good t"
  shows "codec J w (task_tab J) UNIV (render_task t what) lmap_task_new t True"
proof -
  have "render_task t what = steps [render_leaf ''name'' (task_name t), render_registries [],
    provided (flag_on what RENDER_CONFIG_FALSE) (render_leaf ''version'' (task_version t)),
    render_leaf ''program'' (task_program t),
    provided (flag_on what RENDER_CONFIG_TRUE) (steps [render_options [], render_tags [] ''tag''])]"
    using assms(3) by (simp add: render_task_def cap_task_good_def)
  moreover have "codec J w (task_tab J) UNIV \<dots> lmap_task_new t True"
    by (rule codec_weaken,
        (rule codec_Cons codec_Nil codec_provided task_name_field task_program_field task_version_field
          codec_empty_list [where k = "''tag''"] codec_empty_list [where k = "''option''"]
          codec_empty_list [where k = "''function''"]
          | (insert assms, simp add: cap_task_good_def lmap_task_new_def; fail))+)
  ultimately show ?thesis by simp
qed

end
