(* ===== verification/Json_Schedules.thy ===== *)
theory Json_Schedules
  imports Json_Tasks
begin

text \<open>
  The round trip of \<^verbatim>\<open>src/json-io.c\<close> for the agent, suppressions, actions and schedules. For each of them \<open>..._part w\<close> is
  what a document with the flags \<open>w\<close> carries, and \<open>..._good\<close> what the round trip needs.
\<close>

section \<open>Flag words\<close>

text \<open>Reading sets the flags it finds one by one, which gives the original word cut down to these flags.\<close>

lemma flag_bit: "flag_on f (push_bit n 1) \<Longrightarrow> f AND push_bit n 1 = push_bit n 1"
  by (rule bit_eqI) (auto simp: flag_on_def bit_simps and_exp_eq_0_iff_not_bit push_bit_of_1)

lemma flag_kept: "flag_on f m \<Longrightarrow> m = push_bit n 1 \<Longrightarrow> flag_set g m = g OR (f AND m)"
  using flag_bit [of f n] by (simp only: flag_set_def)

lemma flag_absent: "\<not> flag_on f m \<Longrightarrow> g OR (f AND m) = g"
  by (simp add: flag_on_def)

lemma push_bit_small:
  "(0x01 :: flags) = push_bit 0 1" "(0x02 :: flags) = push_bit 1 1" "(0x04 :: flags) = push_bit 2 1"
  "(0x08 :: flags) = push_bit 3 1" "(0x10 :: flags) = push_bit 4 1" "(0x20 :: flags) = push_bit 5 1"
  by simp_all

lemma flag_set_agent:
  "flag_on f LMAP_AGENT_FLAG_REPORT_AGENT_ID_SET \<Longrightarrow>
     flag_set g LMAP_AGENT_FLAG_REPORT_AGENT_ID_SET = g OR (f AND LMAP_AGENT_FLAG_REPORT_AGENT_ID_SET)"
  "flag_on f LMAP_AGENT_FLAG_REPORT_GROUP_ID_SET \<Longrightarrow>
     flag_set g LMAP_AGENT_FLAG_REPORT_GROUP_ID_SET = g OR (f AND LMAP_AGENT_FLAG_REPORT_GROUP_ID_SET)"
  "flag_on f LMAP_AGENT_FLAG_REPORT_MEASUREMENT_POINT_SET \<Longrightarrow>
     flag_set g LMAP_AGENT_FLAG_REPORT_MEASUREMENT_POINT_SET = g OR (f AND LMAP_AGENT_FLAG_REPORT_MEASUREMENT_POINT_SET)"
  "flag_on f LMAP_AGENT_FLAG_CONTROLLER_TIMEOUT_SET \<Longrightarrow>
     flag_set g LMAP_AGENT_FLAG_CONTROLLER_TIMEOUT_SET = g OR (f AND LMAP_AGENT_FLAG_CONTROLLER_TIMEOUT_SET)"
  by (erule flag_kept, simp only: agent_flag_defs, rule push_bit_small)+

section \<open>The agent\<close>

text \<open>
  A document carries what has been set: the three report switches and the timeout when their flags say so, and
  the start time of the agent in the state only.
\<close>

definition agent_part :: "flags \<Rightarrow> agent \<Rightarrow> agent" where
  "agent_part w a =
     (let on = flag_on (ag_flags a)
      in \<lparr>ag_agent_id = ag_agent_id a, ag_group_id = ag_group_id a, ag_measurement_point = ag_measurement_point a,
          ag_report_agent_id = (if on LMAP_AGENT_FLAG_REPORT_AGENT_ID_SET then ag_report_agent_id a else 0),
          ag_report_group_id = (if on LMAP_AGENT_FLAG_REPORT_GROUP_ID_SET then ag_report_group_id a else 0),
          ag_report_measurement_point =
            (if on LMAP_AGENT_FLAG_REPORT_MEASUREMENT_POINT_SET then ag_report_measurement_point a else 0),
          ag_controller_timeout =
            (if on LMAP_AGENT_FLAG_CONTROLLER_TIMEOUT_SET then ag_controller_timeout a else 604800),
          ag_flags =
            ag_flags a AND
              (LMAP_AGENT_FLAG_REPORT_AGENT_ID_SET OR LMAP_AGENT_FLAG_REPORT_GROUP_ID_SET
               OR LMAP_AGENT_FLAG_REPORT_MEASUREMENT_POINT_SET OR LMAP_AGENT_FLAG_CONTROLLER_TIMEOUT_SET),
          ag_report_date = 0,
          ag_last_started = (if flag_on w PARSE_CONFIG_FALSE then ag_last_started a else 0)\<rparr>)"

definition agent_good :: "(int \<Rightarrow> bool) \<Rightarrow> flags \<Rightarrow> agent \<Rightarrow> bool" where
  "agent_good T w a \<longleftrightarrow>
     (case ag_agent_id a of None \<Rightarrow> True | Some s \<Rightarrow> uuid_scan 0 s)
     \<and> ag_report_agent_id a \<in> {0, 1} \<and> ag_report_group_id a \<in> {0, 1} \<and> ag_report_measurement_point a \<in> {0, 1}
     \<and> (flag_on w PARSE_CONFIG_FALSE \<and> ag_last_started a \<noteq> 0 \<longrightarrow> T (ag_last_started a))"

text \<open>Something of the agent is in the document: an object without fields is an error when it is read.\<close>

definition agent_written :: "flags \<Rightarrow> agent \<Rightarrow> bool" where
  "agent_written w a \<longleftrightarrow>
     ag_agent_id a \<noteq> None \<or> ag_group_id a \<noteq> None \<or> ag_measurement_point a \<noteq> None
     \<or> flag_on (ag_flags a) LMAP_AGENT_FLAG_REPORT_AGENT_ID_SET
     \<or> flag_on (ag_flags a) LMAP_AGENT_FLAG_REPORT_GROUP_ID_SET
     \<or> flag_on (ag_flags a) LMAP_AGENT_FLAG_REPORT_MEASUREMENT_POINT_SET
     \<or> flag_on (ag_flags a) LMAP_AGENT_FLAG_CONTROLLER_TIMEOUT_SET
     \<or> (flag_on w PARSE_CONFIG_FALSE \<and> ag_last_started a \<noteq> 0)"

lemma agent_id_fields:
  assumes "flag_on w PARSE_CONFIG_TRUE"
  shows "(case v of None \<Rightarrow> True | Some s \<Rightarrow> uuid_scan 0 s) \<Longrightarrow> ag_agent_id c = None \<Longrightarrow>
      codec J w (agent_tab J) {''agent-id''} (render_leaf ''agent-id'' v) c (c\<lparr>ag_agent_id := v\<rparr>) (v \<noteq> None)"
    and "ag_group_id c = None \<Longrightarrow>
      codec J w (agent_tab J) {''group-id''} (render_leaf ''group-id'' v) c (c\<lparr>ag_group_id := v\<rparr>) (v \<noteq> None)"
    and "ag_measurement_point c = None \<Longrightarrow>
      codec J w (agent_tab J) {''measurement-point''} (render_leaf ''measurement-point'' v) c
        (c\<lparr>ag_measurement_point := v\<rparr>) (v \<noteq> None)"
proof -
  assume "case v of None \<Rightarrow> True | Some s \<Rightarrow> uuid_scan 0 s" "ag_agent_id c = None"
  then show "codec J w (agent_tab J) {''agent-id''} (render_leaf ''agent-id'' v) c (c\<lparr>ag_agent_id := v\<rparr>) (v \<noteq> None)"
    by (intro codec_leaf_option)
      (simp_all add: assms agent_tab_def xx_lcas_agent_id_def lmap_agent_set_agent_id_def set_string_def)
next
  assume "ag_group_id c = None"
  then show "codec J w (agent_tab J) {''group-id''} (render_leaf ''group-id'' v) c (c\<lparr>ag_group_id := v\<rparr>) (v \<noteq> None)"
    by (intro codec_leaf_option)
      (simp_all add: assms agent_tab_def xx_lcas_group_id_def lmap_agent_set_group_id_def set_string_def)
next
  assume "ag_measurement_point c = None"
  then show "codec J w (agent_tab J) {''measurement-point''} (render_leaf ''measurement-point'' v) c
      (c\<lparr>ag_measurement_point := v\<rparr>) (v \<noteq> None)"
    by (intro codec_leaf_option)
      (simp_all add: assms agent_tab_def xx_lcas_measurement_point_def lmap_agent_set_measurement_point_def
        set_string_def)
qed

lemma agent_report_agent_id_field:
  "flag_on w PARSE_CONFIG_TRUE \<Longrightarrow> jsonc_ok J \<Longrightarrow> v \<in> {0, 1} \<Longrightarrow>
     codec J w (agent_tab J) {''report-agent-id''}
       (provided (flag_on f LMAP_AGENT_FLAG_REPORT_AGENT_ID_SET) (render_leaf_boolean ''report-agent-id'' v)) c
       (c\<lparr>ag_report_agent_id := if flag_on f LMAP_AGENT_FLAG_REPORT_AGENT_ID_SET then v else ag_report_agent_id c,
          ag_flags := ag_flags c OR (f AND LMAP_AGENT_FLAG_REPORT_AGENT_ID_SET)\<rparr>)
       (flag_on f LMAP_AGENT_FLAG_REPORT_AGENT_ID_SET)"
  by (intro codec_provided_eq codec_bool)
    (auto simp: agent_tab_def xx_lcas_report_agent_id_def lmap_agent_set_report_agent_id_def jsonc_ok_def
      set_boolean_def flag_set_agent flag_absent)

lemma agent_report_group_id_field:
  "flag_on w PARSE_CONFIG_TRUE \<Longrightarrow> jsonc_ok J \<Longrightarrow> v \<in> {0, 1} \<Longrightarrow>
     codec J w (agent_tab J) {''report-group-id''}
       (provided (flag_on f LMAP_AGENT_FLAG_REPORT_GROUP_ID_SET) (render_leaf_boolean ''report-group-id'' v)) c
       (c\<lparr>ag_report_group_id := if flag_on f LMAP_AGENT_FLAG_REPORT_GROUP_ID_SET then v else ag_report_group_id c,
          ag_flags := ag_flags c OR (f AND LMAP_AGENT_FLAG_REPORT_GROUP_ID_SET)\<rparr>)
       (flag_on f LMAP_AGENT_FLAG_REPORT_GROUP_ID_SET)"
  by (intro codec_provided_eq codec_bool)
    (auto simp: agent_tab_def xx_lcas_report_group_id_def lmap_agent_set_report_group_id_def jsonc_ok_def
      set_boolean_def flag_set_agent flag_absent)

lemma agent_report_measurement_point_field:
  "flag_on w PARSE_CONFIG_TRUE \<Longrightarrow> jsonc_ok J \<Longrightarrow> v \<in> {0, 1} \<Longrightarrow>
     codec J w (agent_tab J) {''report-measurement-point''}
       (provided (flag_on f LMAP_AGENT_FLAG_REPORT_MEASUREMENT_POINT_SET)
          (render_leaf_boolean ''report-measurement-point'' v)) c
       (c\<lparr>ag_report_measurement_point :=
            if flag_on f LMAP_AGENT_FLAG_REPORT_MEASUREMENT_POINT_SET then v else ag_report_measurement_point c,
          ag_flags := ag_flags c OR (f AND LMAP_AGENT_FLAG_REPORT_MEASUREMENT_POINT_SET)\<rparr>)
       (flag_on f LMAP_AGENT_FLAG_REPORT_MEASUREMENT_POINT_SET)"
  by (intro codec_provided_eq codec_bool)
    (auto simp: agent_tab_def xx_lcas_report_measurement_point_def lmap_agent_set_report_measurement_point_def
      jsonc_ok_def set_boolean_def flag_set_agent flag_absent)

lemma agent_controller_timeout_field:
  "flag_on w PARSE_CONFIG_TRUE \<Longrightarrow> jsonc_ok J \<Longrightarrow>
     codec J w (agent_tab J) {''controller-timeout''}
       (provided (flag_on f LMAP_AGENT_FLAG_CONTROLLER_TIMEOUT_SET) (render_leaf_uint32 ''controller-timeout'' v)) c
       (c\<lparr>ag_controller_timeout := if flag_on f LMAP_AGENT_FLAG_CONTROLLER_TIMEOUT_SET then v else ag_controller_timeout c,
          ag_flags := ag_flags c OR (f AND LMAP_AGENT_FLAG_CONTROLLER_TIMEOUT_SET)\<rparr>)
       (flag_on f LMAP_AGENT_FLAG_CONTROLLER_TIMEOUT_SET)"
  by (intro codec_provided_eq codec_uint32)
    (auto simp: agent_tab_def xx_lcas_controller_timeout_def lmap_agent_set_controller_timeout_def jsonc_ok_def
      set_uint32_back flag_set_agent flag_absent)

lemma agent_last_started_field:
  "flag_on w PARSE_CONFIG_FALSE \<and> v \<noteq> 0 \<longrightarrow> time_ok J v \<Longrightarrow> ag_last_started c = 0 \<Longrightarrow>
     codec J w (agent_tab J) {''last-started''}
       (provided (flag_on w PARSE_CONFIG_FALSE \<and> v \<noteq> 0) (render_leaf_datetime J ''last-started'' v)) c
       (c\<lparr>ag_last_started := if flag_on w PARSE_CONFIG_FALSE then v else 0\<rparr>) (flag_on w PARSE_CONFIG_FALSE \<and> v \<noteq> 0)"
  by (rule codec_provided_eq, rule codec_time)
    (auto simp: agent_tab_def xx_lcas_last_started_def lmap_agent_set_last_started_def)

lemmas agent_fields =
  agent_id_fields agent_report_agent_id_field agent_report_group_id_field agent_report_measurement_point_field
  agent_controller_timeout_field agent_last_started_field

lemma agent_codec:
  assumes "flag_on w PARSE_CONFIG_TRUE" "jsonc_ok J" "agent_good (time_ok J) w a" "agent_written w a"
  shows "codec J w (agent_tab J) UNIV (render_agent_fields J a w) lmap_agent_new (agent_part w a) True"
  unfolding render_agent_fields_def render_flags
  by (rule codec_weaken,
      (rule codec_Cons codec_Nil agent_fields codec_provided
        | (insert assms, simp add: agent_good_def lmap_agent_new_def; fail))+)
    (use assms in \<open>simp_all add: agent_part_def agent_written_def lmap_agent_new_def bit.conj_disj_distrib
      or.assoc Let_def\<close>)

section \<open>Suppressions\<close>

definition supp_part :: "flags \<Rightarrow> supp \<Rightarrow> supp" where
  "supp_part w s =
     s\<lparr>supp_stop_running := if flag_on (supp_flags s) LMAP_SUPP_FLAG_STOP_RUNNING_SET then supp_stop_running s else 0,
       supp_flags := supp_flags s AND LMAP_SUPP_FLAG_STOP_RUNNING_SET,
       supp_state := if flag_on w PARSE_CONFIG_FALSE then supp_state s else Supp_Enabled\<rparr>"

definition supp_good :: "supp \<Rightarrow> bool" where
  "supp_good s \<longleftrightarrow>
     id_ok (supp_name s) \<and> supp_start s \<noteq> Some [] \<and> supp_end s \<noteq> Some [] \<and> tags_ok (supp_match s)
     \<and> supp_stop_running s \<in> {0, 1}"

interpretation smt: tag_list supp_match "\<lambda>ts s. s\<lparr>supp_match := ts\<rparr>" xx_lcsp_match
  by unfold_locales (simp_all add: xx_lcsp_match_def lmap_supp_add_match_def)

lemma flag_set_supp:
  "flag_on f LMAP_SUPP_FLAG_STOP_RUNNING_SET \<Longrightarrow>
     flag_set g LMAP_SUPP_FLAG_STOP_RUNNING_SET = g OR (f AND LMAP_SUPP_FLAG_STOP_RUNNING_SET)"
  by (erule flag_kept, simp only: LMAP_SUPP_FLAG_STOP_RUNNING_SET_def, rule push_bit_small)

lemma supp_name_field:
  "id_ok v \<Longrightarrow> codec J w (supp_tab J) {''name''} (render_leaf ''name'' v) c (c\<lparr>supp_name := v\<rparr>) True"
  by (erule codec_id) (simp add: supp_tab_def xx_lcsp_name_def lmap_supp_set_name_def)

lemma supp_start_field:
  "flag_on w PARSE_CONFIG_TRUE \<Longrightarrow> v \<noteq> Some [] \<Longrightarrow> supp_start c = None \<Longrightarrow>
     codec J w (supp_tab J) {''start''} (render_leaf ''start'' v) c (c\<lparr>supp_start := v\<rparr>) (v \<noteq> None)"
  by (rule codec_id_option) (simp_all add: supp_tab_def xx_lcsp_start_def lmap_supp_set_start_def)

lemma supp_end_field:
  "flag_on w PARSE_CONFIG_TRUE \<Longrightarrow> v \<noteq> Some [] \<Longrightarrow> supp_end c = None \<Longrightarrow>
     codec J w (supp_tab J) {''end''} (render_leaf ''end'' v) c (c\<lparr>supp_end := v\<rparr>) (v \<noteq> None)"
  by (rule codec_id_option) (simp_all add: supp_tab_def xx_lcsp_end_def lmap_supp_set_end_def)

lemma supp_match_field:
  "flag_on w PARSE_CONFIG_TRUE \<Longrightarrow> supp_match c = [] \<Longrightarrow> tags_ok ts \<Longrightarrow>
     codec J w (supp_tab J) {''match''} (render_tags ts ''match'') c (c\<lparr>supp_match := ts\<rparr>) False"
  by (intro smt.tags_codec) (simp_all add: supp_tab_def)

lemma supp_stop_running_field:
  "flag_on w PARSE_CONFIG_TRUE \<Longrightarrow> jsonc_ok J \<Longrightarrow> v \<in> {0, 1} \<Longrightarrow>
     codec J w (supp_tab J) {''stop-running''}
       (provided (flag_on f LMAP_SUPP_FLAG_STOP_RUNNING_SET) (render_leaf_boolean ''stop-running'' v)) c
       (c\<lparr>supp_stop_running := if flag_on f LMAP_SUPP_FLAG_STOP_RUNNING_SET then v else supp_stop_running c,
          supp_flags := supp_flags c OR (f AND LMAP_SUPP_FLAG_STOP_RUNNING_SET)\<rparr>)
       (flag_on f LMAP_SUPP_FLAG_STOP_RUNNING_SET)"
  by (intro codec_provided_eq codec_bool)
    (auto simp: supp_tab_def xx_lcsp_stop_running_def lmap_supp_set_stop_running_def jsonc_ok_def
      set_boolean_def flag_set_supp flag_absent)

lemma supp_state_field:
  "flag_on w PARSE_CONFIG_FALSE \<Longrightarrow>
     codec J w (supp_tab J) {''state''} (render_leaf ''state'' (Some (supp_state_text st))) c (c\<lparr>supp_state := st\<rparr>) True"
  by (rule codec_leaf)
    (simp add: supp_tab_def xx_lcsp_state_def lmap_supp_set_state_def supp_state_text_def split: supp_state.split)

lemmas supp_fields =
  supp_name_field supp_start_field supp_end_field supp_match_field supp_stop_running_field supp_state_field

lemma supp_codec:
  assumes "flag_on w PARSE_CONFIG_TRUE" "jsonc_ok J" "supp_good s"
  shows "codec J w (supp_tab J) UNIV (render_suppression s w) lmap_supp_new (supp_part w s) True"
  unfolding render_suppression_def render_flags
  by (rule codec_weaken,
      (rule codec_Cons codec_Nil supp_fields codec_provided
        | (insert assms, simp add: supp_good_def lmap_supp_new_def; fail))+)
    (use assms in \<open>simp_all add: supp_part_def lmap_supp_new_def\<close>)

section \<open>Actions\<close>

text \<open>What the state says of an ended run it says only when there is a completion time.\<close>

definition action_part :: "flags \<Rightarrow> action \<Rightarrow> action" where
  "action_part w a =
     (let st = flag_on w PARSE_CONFIG_FALSE
      in lmap_action_new
           \<lparr>act_name := act_name a, act_task := act_task a, act_destinations := act_destinations a,
            act_options := act_options a, act_tags := act_tags a, act_suppression_tags := act_suppression_tags a,
            act_state := if st then act_state a else Enabled,
            act_storage := if st then act_storage a else 0,
            act_cnt_invocations := if st then act_cnt_invocations a else 0,
            act_cnt_suppressions := if st then act_cnt_suppressions a else 0,
            act_cnt_overlaps := if st then act_cnt_overlaps a else 0,
            act_cnt_failures := if st then act_cnt_failures a else 0,
            act_last_invocation := if st then act_last_invocation a else 0,
            act_last_completion := if st then act_last_completion a else 0,
            act_last_status := if st \<and> act_last_completion a \<noteq> 0 then act_last_status a else 0,
            act_last_message := if st \<and> act_last_completion a \<noteq> 0 then act_last_message a else None,
            act_last_failed_completion := if st then act_last_failed_completion a else 0,
            act_last_failed_status := if st \<and> act_last_failed_completion a \<noteq> 0 then act_last_failed_status a else 0,
            act_last_failed_message :=
              if st \<and> act_last_failed_completion a \<noteq> 0 then act_last_failed_message a else None\<rparr>)"

definition int32_ok :: "int \<Rightarrow> bool" where
  "int32_ok i \<longleftrightarrow> INT32_MIN \<le> i \<and> i \<le> INT32_MAX"

definition action_good :: "(int \<Rightarrow> bool) \<Rightarrow> flags \<Rightarrow> action \<Rightarrow> bool" where
  "action_good T w a \<longleftrightarrow>
     id_ok (act_name a) \<and> list_all option_good (act_options a) \<and> named_distinct opt_id (act_options a)
     \<and> tags_ok (act_destinations a) \<and> tags_ok (act_tags a) \<and> tags_ok (act_suppression_tags a)
     \<and> (flag_on w PARSE_CONFIG_FALSE \<longrightarrow>
          (act_last_invocation a = 0 \<or> T (act_last_invocation a))
          \<and> (act_last_completion a = 0 \<or> T (act_last_completion a))
          \<and> (act_last_failed_completion a = 0 \<or> T (act_last_failed_completion a))
          \<and> int32_ok (act_last_status a) \<and> int32_ok (act_last_failed_status a))"

interpretation ads: tag_list act_destinations "\<lambda>ts a. a\<lparr>act_destinations := ts\<rparr>" xx_lact_destination
  by unfold_locales (simp_all add: xx_lact_destination_def lmap_action_add_destination_def)

interpretation atg: tag_list act_tags "\<lambda>ts a. a\<lparr>act_tags := ts\<rparr>" xx_lact_tag
  by unfold_locales (simp_all add: xx_lact_tag_def lmap_action_add_tag_def)

interpretation asp: tag_list act_suppression_tags "\<lambda>ts a. a\<lparr>act_suppression_tags := ts\<rparr>" xx_lact_supp_tag
  by unfold_locales (simp_all add: xx_lact_supp_tag_def lmap_action_add_suppression_tag_def)

interpretation ako: member_list opt_id act_options "\<lambda>xs a. a\<lparr>act_options := xs\<rparr>" lmap_action_add_option
  "\<lambda>p. steps [render_leaf ''id'' (opt_id p), render_leaf ''name'' (opt_name p), render_leaf ''value'' (opt_value p)]"
  "\<lambda>j. parse_option J j w" "\<lambda>p. flag_on w PARSE_CONFIG_TRUE \<and> option_good p" "\<lambda>p. p" for J w
  by unfold_locales
    (simp_all add: lmap_action_add_option_def add_option_def parse_option_def codec_parse_new [OF option_codec]
      option_good_def id_ok_def del: steps_simps)

lemma action_name_field:
  "id_ok v \<Longrightarrow> codec J w (action_tab J) {''name''} (render_leaf ''name'' v) c (c\<lparr>act_name := v\<rparr>) True"
  by (erule codec_id) (simp add: action_tab_def xx_lact_name_def lmap_action_set_name_def)

lemma action_task_field:
  "flag_on w PARSE_CONFIG_TRUE \<Longrightarrow> act_task c = None \<Longrightarrow>
     codec J w (action_tab J) {''task''} (render_leaf ''task'' v) c (c\<lparr>act_task := v\<rparr>) (v \<noteq> None)"
  by (intro codec_leaf_option) (simp_all add: action_tab_def xx_lact_task_def lmap_action_set_task_def set_string_def)

lemma action_option_field:
  assumes "flag_on w PARSE_CONFIG_TRUE" "act_options c = []" "list_all option_good ps" "named_distinct opt_id ps"
  shows "codec J w (action_tab J) {''option''} (render_options ps) c (c\<lparr>act_options := ps\<rparr>) False"
  unfolding render_list_eq
  using ako.array_codec [of J w "action_tab J" c "''option''" J w ps render_option] assms
  by (simp add: action_tab_def xx_lact_option_def render_option_def list_all_iff)

lemma action_tag_fields:
  "flag_on w PARSE_CONFIG_TRUE \<Longrightarrow> act_destinations c = [] \<Longrightarrow> tags_ok ts \<Longrightarrow>
     codec J w (action_tab J) {''destination''} (render_tags ts ''destination'') c (c\<lparr>act_destinations := ts\<rparr>) False"
  "flag_on w PARSE_CONFIG_TRUE \<Longrightarrow> act_tags c = [] \<Longrightarrow> tags_ok ts \<Longrightarrow>
     codec J w (action_tab J) {''tag''} (render_tags ts ''tag'') c (c\<lparr>act_tags := ts\<rparr>) False"
  "flag_on w PARSE_CONFIG_TRUE \<Longrightarrow> act_suppression_tags c = [] \<Longrightarrow> tags_ok ts \<Longrightarrow>
     codec J w (action_tab J) {''suppression-tag''} (render_tags ts ''suppression-tag'') c
       (c\<lparr>act_suppression_tags := ts\<rparr>) False"
  by (intro ads.tags_codec; simp add: action_tab_def)
    (intro atg.tags_codec asp.tags_codec; simp add: action_tab_def)+

lemma run_state_back: "run_state_of (run_state_text st) = Some st"
  by (simp add: run_state_of_def run_state_text_def split: run_state.split)

lemma action_count_fields:
  assumes "flag_on w PARSE_CONFIG_FALSE" "jsonc_ok J"
  shows "codec J w (action_tab J) {''state''} (render_leaf ''state'' (Some (run_state_text st))) c
      (c\<lparr>act_state := st\<rparr>) True"
    and "codec J w (action_tab J) {''storage''} (render_leaf_uint64 ''storage'' s) c (c\<lparr>act_storage := s\<rparr>) True"
    and "codec J w (action_tab J) {''invocations''} (render_leaf_uint32 ''invocations'' n) c
      (c\<lparr>act_cnt_invocations := n\<rparr>) True"
    and "codec J w (action_tab J) {''suppressions''} (render_leaf_uint32 ''suppressions'' n) c
      (c\<lparr>act_cnt_suppressions := n\<rparr>) True"
    and "codec J w (action_tab J) {''overlaps''} (render_leaf_uint32 ''overlaps'' n) c
      (c\<lparr>act_cnt_overlaps := n\<rparr>) True"
    and "codec J w (action_tab J) {''failures''} (render_leaf_uint32 ''failures'' n) c
      (c\<lparr>act_cnt_failures := n\<rparr>) True"
  using assms
  by (intro codec_leaf codec_uint64 codec_uint32;
      simp add: action_tab_def xx_lact_state_def xx_lact_storage_def xx_lact_invocations_def
        xx_lact_suppressions_def xx_lact_overlaps_def xx_lact_failures_def lmap_action_set_state_def
        lmap_action_set_storage_def lmap_action_set_invocations_def lmap_action_set_suppressions_def
        lmap_action_set_overlaps_def lmap_action_set_failures_def run_state_back set_uint32_back set_uint64_back
        jsonc_ok_def)+

lemma action_time_fields:
  assumes "flag_on w PARSE_CONFIG_FALSE"
  shows "t = 0 \<or> time_ok J t \<Longrightarrow> act_last_invocation c = 0 \<Longrightarrow>
      codec J w (action_tab J) {''last-invocation''}
        (provided (t \<noteq> 0) (render_leaf_datetime J ''last-invocation'' t)) c (c\<lparr>act_last_invocation := t\<rparr>) (t \<noteq> 0)"
    and "time_ok J t \<Longrightarrow>
      codec J w (action_tab J) {''last-completion''} (render_leaf_datetime J ''last-completion'' t) c
        (c\<lparr>act_last_completion := t\<rparr>) True"
    and "time_ok J t \<Longrightarrow>
      codec J w (action_tab J) {''last-failed-completion''} (render_leaf_datetime J ''last-failed-completion'' t) c
        (c\<lparr>act_last_failed_completion := t\<rparr>) True"
proof -
  assume "t = 0 \<or> time_ok J t" "act_last_invocation c = 0"
  then show "codec J w (action_tab J) {''last-invocation''}
      (provided (t \<noteq> 0) (render_leaf_datetime J ''last-invocation'' t)) c (c\<lparr>act_last_invocation := t\<rparr>) (t \<noteq> 0)"
    using assms
    by (intro codec_provided_eq codec_time)
      (simp_all add: action_tab_def xx_lact_last_invocation_def lmap_action_set_last_invocation_def)
next
  assume "time_ok J t"
  then show "codec J w (action_tab J) {''last-completion''} (render_leaf_datetime J ''last-completion'' t) c
      (c\<lparr>act_last_completion := t\<rparr>) True"
    and "codec J w (action_tab J) {''last-failed-completion''} (render_leaf_datetime J ''last-failed-completion'' t) c
      (c\<lparr>act_last_failed_completion := t\<rparr>) True"
    using assms
    by (intro codec_time;
        simp add: action_tab_def xx_lact_last_completion_def lmap_action_set_last_completion_def
          xx_lact_last_failed_completion_def lmap_action_set_last_failed_completion_def)+
qed

lemma action_result_fields:
  assumes "flag_on w PARSE_CONFIG_FALSE" "jsonc_ok J"
  shows "int32_ok i \<Longrightarrow>
      codec J w (action_tab J) {''last-status''} (render_leaf_int32 ''last-status'' i) c (c\<lparr>act_last_status := i\<rparr>) True"
    and "int32_ok i \<Longrightarrow>
      codec J w (action_tab J) {''last-failed-status''} (render_leaf_int32 ''last-failed-status'' i) c
        (c\<lparr>act_last_failed_status := i\<rparr>) True"
    and "act_last_message c = None \<Longrightarrow>
      codec J w (action_tab J) {''last-message''} (render_leaf ''last-message'' v) c (c\<lparr>act_last_message := v\<rparr>) (v \<noteq> None)"
    and "act_last_failed_message c = None \<Longrightarrow>
      codec J w (action_tab J) {''last-failed-message''} (render_leaf ''last-failed-message'' v) c
        (c\<lparr>act_last_failed_message := v\<rparr>) (v \<noteq> None)"
  using assms
  by (intro codec_int32 codec_leaf_option;
      simp add: action_tab_def xx_lact_last_status_def lmap_action_set_last_status_def xx_lact_last_failed_status_def
        lmap_action_set_last_failed_status_def xx_lact_last_message_def lmap_action_set_last_message_def
        xx_lact_last_failed_message_def lmap_action_set_last_failed_message_def set_string_def set_int32_dec_int
        int32_ok_def jsonc_ok_def)+

lemmas action_fields =
  action_name_field action_task_field action_option_field action_tag_fields action_count_fields action_time_fields
  action_result_fields

lemma action_codec:
  assumes "flag_on w PARSE_CONFIG_TRUE" "jsonc_ok J" "action_good (time_ok J) w a"
  shows "codec J w (action_tab J) UNIV (render_action J a w) lmap_action_new (action_part w a) True"
  unfolding render_action_def render_flags
  by (rule codec_weaken,
      (rule codec_Cons codec_Nil action_fields codec_provided
        | (insert assms, simp add: action_good_def lmap_action_new_def; fail))+)
    (use assms in \<open>simp_all add: action_part_def lmap_action_new_def Let_def\<close>)

section \<open>Schedules\<close>

definition schedule_part :: "flags \<Rightarrow> schedule \<Rightarrow> schedule" where
  "schedule_part w s =
     (let st = flag_on w PARSE_CONFIG_FALSE; on = flag_on (sched_flags s)
      in lmap_schedule_new
           \<lparr>sched_name := sched_name s, sched_start := sched_start s,
            sched_end := if on LMAP_SCHEDULE_FLAG_END_SET then sched_end s else None,
            sched_duration := if on LMAP_SCHEDULE_FLAG_DURATION_SET then sched_duration s else 0,
            sched_mode := if on LMAP_SCHEDULE_FLAG_EXEC_MODE_SET then sched_mode s else Pipelined,
            sched_flags :=
              sched_flags s AND
                (LMAP_SCHEDULE_FLAG_END_SET OR LMAP_SCHEDULE_FLAG_DURATION_SET OR LMAP_SCHEDULE_FLAG_EXEC_MODE_SET),
            sched_tags := sched_tags s, sched_suppression_tags := sched_suppression_tags s,
            sched_actions := map (action_part w) (sched_actions s),
            sched_state := if st then sched_state s else Enabled,
            sched_storage := if st then sched_storage s else 0,
            sched_cnt_invocations := if st then sched_cnt_invocations s else 0,
            sched_cnt_suppressions := if st then sched_cnt_suppressions s else 0,
            sched_cnt_overlaps := if st then sched_cnt_overlaps s else 0,
            sched_cnt_failures := if st then sched_cnt_failures s else 0,
            sched_last_invocation := if st then sched_last_invocation s else 0\<rparr>)"

definition schedule_good :: "(int \<Rightarrow> bool) \<Rightarrow> flags \<Rightarrow> schedule \<Rightarrow> bool" where
  "schedule_good T w s \<longleftrightarrow>
     id_ok (sched_name s) \<and> sched_start s \<noteq> Some []
     \<and> (flag_on (sched_flags s) LMAP_SCHEDULE_FLAG_END_SET \<longrightarrow>
          id_ok (sched_end s) \<and> \<not> flag_on (sched_flags s) LMAP_SCHEDULE_FLAG_DURATION_SET)
     \<and> tags_ok (sched_tags s) \<and> tags_ok (sched_suppression_tags s)
     \<and> list_all (action_good T w) (sched_actions s) \<and> named_distinct act_name (sched_actions s)
     \<and> (flag_on w PARSE_CONFIG_FALSE \<longrightarrow> sched_last_invocation s = 0 \<or> T (sched_last_invocation s))"

interpretation stg: tag_list sched_tags "\<lambda>ts s. s\<lparr>sched_tags := ts\<rparr>" xx_lsch_tag
  by unfold_locales (simp_all add: xx_lsch_tag_def lmap_schedule_add_tag_def)

interpretation sst: tag_list sched_suppression_tags "\<lambda>ts s. s\<lparr>sched_suppression_tags := ts\<rparr>" xx_lsch_supp_tag
  by unfold_locales (simp_all add: xx_lsch_supp_tag_def lmap_schedule_add_suppression_tag_def)

lemma action_key: "action_good T w a \<Longrightarrow> act_name (action_part w a) = act_name a \<and> act_name a \<noteq> None"
  by (simp add: action_good_def action_part_def id_ok_def Let_def)

interpretation ska: member_list act_name sched_actions "\<lambda>xs s. s\<lparr>sched_actions := xs\<rparr>" lmap_schedule_add_action
  "\<lambda>a. render_action J a w" "\<lambda>j. parse_action J j w"
  "\<lambda>a. flag_on w PARSE_CONFIG_TRUE \<and> jsonc_ok J \<and> action_good (time_ok J) w a" "action_part w" for J w
  by unfold_locales
    (auto simp: lmap_schedule_add_action_def parse_action_def codec_parse_new [OF action_codec] dest: action_key)

lemma flag_set_schedule:
  "flag_on f LMAP_SCHEDULE_FLAG_END_SET \<Longrightarrow>
     flag_set g LMAP_SCHEDULE_FLAG_END_SET = g OR (f AND LMAP_SCHEDULE_FLAG_END_SET)"
  "flag_on f LMAP_SCHEDULE_FLAG_DURATION_SET \<Longrightarrow>
     flag_set g LMAP_SCHEDULE_FLAG_DURATION_SET = g OR (f AND LMAP_SCHEDULE_FLAG_DURATION_SET)"
  "flag_on f LMAP_SCHEDULE_FLAG_EXEC_MODE_SET \<Longrightarrow>
     flag_set g LMAP_SCHEDULE_FLAG_EXEC_MODE_SET = g OR (f AND LMAP_SCHEDULE_FLAG_EXEC_MODE_SET)"
  by (erule flag_kept, simp only: schedule_flag_defs, rule push_bit_small)+

lemma schedule_name_field:
  "id_ok v \<Longrightarrow> codec J w (schedule_tab J) {''name''} (render_leaf ''name'' v) c (c\<lparr>sched_name := v\<rparr>) True"
  by (erule codec_id) (simp add: schedule_tab_def xx_lsch_name_def lmap_schedule_set_name_def)

lemma schedule_start_field:
  "flag_on w PARSE_CONFIG_TRUE \<Longrightarrow> v \<noteq> Some [] \<Longrightarrow> sched_start c = None \<Longrightarrow>
     codec J w (schedule_tab J) {''start''} (render_leaf ''start'' v) c (c\<lparr>sched_start := v\<rparr>) (v \<noteq> None)"
  by (rule codec_id_option) (simp_all add: schedule_tab_def xx_lsch_start_def lmap_schedule_set_start_def)

lemma schedule_end_field:
  assumes "flag_on w PARSE_CONFIG_TRUE" "flag_on f LMAP_SCHEDULE_FLAG_END_SET \<longrightarrow> id_ok v"
    "\<not> flag_on (sched_flags c) LMAP_SCHEDULE_FLAG_DURATION_SET"
  shows "codec J w (schedule_tab J) {''end''}
      (provided (flag_on f LMAP_SCHEDULE_FLAG_END_SET) (render_leaf ''end'' v)) c
      (c\<lparr>sched_end := if flag_on f LMAP_SCHEDULE_FLAG_END_SET then v else sched_end c,
         sched_flags := sched_flags c OR (f AND LMAP_SCHEDULE_FLAG_END_SET)\<rparr>)
      (flag_on f LMAP_SCHEDULE_FLAG_END_SET)"
proof (rule codec_provided_eq)
  assume f: "flag_on f LMAP_SCHEDULE_FLAG_END_SET"
  with assms(2) have "id_ok v" by simp
  then show "codec J w (schedule_tab J) {''end''} (render_leaf ''end'' v) c
      (c\<lparr>sched_end := if flag_on f LMAP_SCHEDULE_FLAG_END_SET then v else sched_end c,
         sched_flags := sched_flags c OR (f AND LMAP_SCHEDULE_FLAG_END_SET)\<rparr>) True"
    using f by (intro codec_id)
      (simp_all add: assms schedule_tab_def xx_lsch_end_def lmap_schedule_set_end_def flag_set_schedule(1) [OF f])
qed (simp add: flag_absent)

lemma schedule_duration_field:
  assumes "flag_on w PARSE_CONFIG_TRUE"
    "flag_on (sched_flags c) LMAP_SCHEDULE_FLAG_END_SET \<longrightarrow> \<not> flag_on f LMAP_SCHEDULE_FLAG_DURATION_SET"
  shows "codec J w (schedule_tab J) {''duration''}
      (provided (flag_on f LMAP_SCHEDULE_FLAG_DURATION_SET) (render_leaf_uint64 ''duration'' v)) c
      (c\<lparr>sched_duration := if flag_on f LMAP_SCHEDULE_FLAG_DURATION_SET then v else sched_duration c,
         sched_flags := sched_flags c OR (f AND LMAP_SCHEDULE_FLAG_DURATION_SET)\<rparr>)
      (flag_on f LMAP_SCHEDULE_FLAG_DURATION_SET)"
  by (intro codec_provided_eq codec_uint64)
    (use assms in \<open>auto simp: schedule_tab_def xx_lsch_duration_def lmap_schedule_set_duration_def set_uint64_back
      flag_set_schedule flag_absent\<close>)

lemma exec_mode_back: "lmap_schedule_set_exec_mode c (exec_mode_text m) =
  (0, c\<lparr>sched_mode := m, sched_flags := flag_set (sched_flags c) LMAP_SCHEDULE_FLAG_EXEC_MODE_SET\<rparr>)"
  by (simp add: lmap_schedule_set_exec_mode_def exec_mode_text_def split: exec_mode.split)

lemma schedule_mode_field:
  "flag_on w PARSE_CONFIG_TRUE \<Longrightarrow>
     codec J w (schedule_tab J) {''execution-mode''}
       (provided (flag_on f LMAP_SCHEDULE_FLAG_EXEC_MODE_SET)
          (render_leaf ''execution-mode'' (Some (exec_mode_text m)))) c
       (c\<lparr>sched_mode := if flag_on f LMAP_SCHEDULE_FLAG_EXEC_MODE_SET then m else sched_mode c,
          sched_flags := sched_flags c OR (f AND LMAP_SCHEDULE_FLAG_EXEC_MODE_SET)\<rparr>)
       (flag_on f LMAP_SCHEDULE_FLAG_EXEC_MODE_SET)"
  by (intro codec_provided_eq codec_leaf)
    (auto simp: schedule_tab_def xx_lsch_exec_mode_def exec_mode_back flag_set_schedule flag_absent)

lemma schedule_tag_fields:
  "flag_on w PARSE_CONFIG_TRUE \<Longrightarrow> sched_tags c = [] \<Longrightarrow> tags_ok ts \<Longrightarrow>
     codec J w (schedule_tab J) {''tag''} (render_tags ts ''tag'') c (c\<lparr>sched_tags := ts\<rparr>) False"
  "flag_on w PARSE_CONFIG_TRUE \<Longrightarrow> sched_suppression_tags c = [] \<Longrightarrow> tags_ok ts \<Longrightarrow>
     codec J w (schedule_tab J) {''suppression-tag''} (render_tags ts ''suppression-tag'') c
       (c\<lparr>sched_suppression_tags := ts\<rparr>) False"
  by (intro stg.tags_codec sst.tags_codec; simp add: schedule_tab_def)+

lemma schedule_action_field:
  assumes "flag_on w PARSE_CONFIG_TRUE" "jsonc_ok J" "sched_actions c = []" "list_all (action_good (time_ok J) w) as"
    "named_distinct act_name as"
  shows "codec J w (schedule_tab J) {''action''} (render_actions J as w) c
    (c\<lparr>sched_actions := map (action_part w) as\<rparr>) False"
proof -
  have f: "provided (act_name a \<noteq> None) (array_object (render_action J a w)) = array_object (render_action J a w)"
    if "a \<in> set as" for a
    using that assms(4) by (auto simp: provided_def list_all_iff action_good_def id_ok_def)
  have "render_actions J as w = (\<lambda>j. if as = [] then Inr j
    else sub_array ''action'' (steps (map (\<lambda>a. provided (act_name a \<noteq> None) (array_object (render_action J a w))) as)) j)"
    by (simp add: fun_eq_iff render_actions_def)
  then show ?thesis
    using ska.array_codec [OF _ _ _ _ f, of J w "schedule_tab J" c "''action''"] assms
    by (simp add: schedule_tab_def xx_lsch_action_def list_all_iff)
qed

lemma schedule_state_fields:
  assumes "flag_on w PARSE_CONFIG_FALSE" "jsonc_ok J"
  shows "codec J w (schedule_tab J) {''state''} (render_leaf ''state'' (Some (run_state_text st))) c
      (c\<lparr>sched_state := st\<rparr>) True"
    and "codec J w (schedule_tab J) {''storage''} (render_leaf_uint64 ''storage'' s) c (c\<lparr>sched_storage := s\<rparr>) True"
    and "codec J w (schedule_tab J) {''invocations''} (render_leaf_uint32 ''invocations'' n) c
      (c\<lparr>sched_cnt_invocations := n\<rparr>) True"
    and "codec J w (schedule_tab J) {''suppressions''} (render_leaf_uint32 ''suppressions'' n) c
      (c\<lparr>sched_cnt_suppressions := n\<rparr>) True"
    and "codec J w (schedule_tab J) {''overlaps''} (render_leaf_uint32 ''overlaps'' n) c
      (c\<lparr>sched_cnt_overlaps := n\<rparr>) True"
    and "codec J w (schedule_tab J) {''failures''} (render_leaf_uint32 ''failures'' n) c
      (c\<lparr>sched_cnt_failures := n\<rparr>) True"
  using assms
  by (intro codec_leaf codec_uint64 codec_uint32;
      simp add: schedule_tab_def xx_lsch_state_def xx_lsch_storage_def xx_lsch_invocations_def
        xx_lsch_suppressions_def xx_lsch_overlaps_def xx_lsch_failures_def lmap_schedule_set_state_def
        lmap_schedule_set_storage_def lmap_schedule_set_invocations_def lmap_schedule_set_suppressions_def
        lmap_schedule_set_overlaps_def lmap_schedule_set_failures_def run_state_back set_uint32_back set_uint64_back
        jsonc_ok_def)+

lemma schedule_time_field:
  "flag_on w PARSE_CONFIG_FALSE \<Longrightarrow> t = 0 \<or> time_ok J t \<Longrightarrow> sched_last_invocation c = 0 \<Longrightarrow>
     codec J w (schedule_tab J) {''last-invocation''}
       (provided (t \<noteq> 0) (render_leaf_datetime J ''last-invocation'' t)) c (c\<lparr>sched_last_invocation := t\<rparr>) (t \<noteq> 0)"
  by (intro codec_provided_eq codec_time)
    (simp_all add: schedule_tab_def xx_lsch_last_invocation_def lmap_schedule_set_last_invocation_def)

lemmas schedule_fields =
  schedule_name_field schedule_start_field schedule_end_field schedule_duration_field schedule_mode_field
  schedule_tag_fields schedule_action_field schedule_state_fields schedule_time_field

lemma flag_on_and_self [simp]: "flag_on (f AND m) m \<longleftrightarrow> flag_on f m"
  by (simp add: flag_on_def and.assoc)

lemma schedule_codec:
  assumes "flag_on w PARSE_CONFIG_TRUE" "jsonc_ok J" "schedule_good (time_ok J) w s"
  shows "codec J w (schedule_tab J) UNIV (render_schedule J s w) lmap_schedule_new (schedule_part w s) True"
  unfolding render_schedule_def render_flags
  by (rule codec_weaken,
      (rule codec_Cons codec_Nil schedule_fields codec_provided
        | (insert assms, simp add: schedule_good_def lmap_schedule_new_def flag_simps; fail))+)
    (use assms in \<open>simp_all add: schedule_part_def lmap_schedule_new_def bit.conj_disj_distrib or.assoc Let_def\<close>)

end
