(* ===== verification/Json_Events.thy ===== *)
theory Json_Events
  imports Json_Schedules
begin

text \<open>
  The round trip of \<^verbatim>\<open>src/json-io.c\<close> for events: the six bit sets of a calendar event are interpretations of \<open>json_bit_list\<close>, and
  each type of event has a sub-object with its own table.
\<close>

section \<open>Calendar fields\<close>

lemma month_element:
  assumes "i < 12"
  shows "lmap_event_add_month e (json_month_tab ! i) = (0, e\<lparr>ev_months := ev_months e OR push_bit i 1\<rparr>)"
proof -
  have "i = 0 \<or> i = 1 \<or> i = 2 \<or> i = 3 \<or> i = 4 \<or> i = 5 \<or> i = 6 \<or> i = 7 \<or> i = 8 \<or> i = 9 \<or> i = 10 \<or> i = 11"
    using assms by presburger
  then show ?thesis
    by (elim disjE) (simp_all add: lmap_event_add_month_def month_tab_def json_month_tab_def)
qed

lemma day_element:
  assumes "i < 7"
  shows "lmap_event_add_day_of_week e (json_day_tab ! i) = (0, e\<lparr>ev_days_of_week := ev_days_of_week e OR push_bit i 1\<rparr>)"
proof -
  have "i = 0 \<or> i = 1 \<or> i = 2 \<or> i = 3 \<or> i = 4 \<or> i = 5 \<or> i = 6"
    using assms by presburger
  then show ?thesis
    by (elim disjE) (simp_all add: lmap_event_add_day_of_week_def day_of_week_tab_def json_day_tab_def)
qed

lemma dec_int_not_star: "dec_int (int i) \<noteq> ''*''"
proof -
  have "\<forall>c\<in>set (dec i). isdigit c" by (rule dec_digits)
  moreover have "\<not> isdigit (CHR ''*'')" by (simp add: isdigit_def code_def)
  ultimately show ?thesis by (auto simp: dec_int_def)
qed

lemma small_int32: "i < 60 \<Longrightarrow> set_int32 0 (dec_int (int i)) = (0, int i)"
  by (simp add: set_int32_dec_int INT32_MIN_def INT32_MAX_def)

lemma json_tab_lengths [simp]: "length json_month_tab = 12" "length json_day_tab = 7"
  by (simp_all add: json_month_tab_def json_day_tab_def)

lemma element_text_int: "jsonc_ok J \<Longrightarrow> element_text J add c (JInt (int i)) = Inr (add c (dec_int (int i)))"
  by (simp add: element_text_def json_object_get_string_def jsonc_ok_def)

lemma element_text_string: "element_text J add c (JString s) = Inr (add c s)"
  by (simp add: element_text_def json_object_get_string_def)

interpretation jmo: json_bit_list ev_months "\<lambda>v e. e\<lparr>ev_months := v\<rparr>" "on_string xx_lcec_month"
  "\<lambda>i. JString (json_month_tab ! i)" "[0..<12]" True
  by unfold_locales
    (simp_all add: xx_lcec_month_def month_element del: push_bit_of_1, simp add: lmap_event_add_month_def month_tab_def)

interpretation jdm: json_bit_list ev_days_of_month "\<lambda>v e. e\<lparr>ev_days_of_month := v\<rparr>" "\<lambda>e j. xx_lcec_day_of_month J e j w"
  "\<lambda>i. JInt (int i)" "[1..<32]" "jsonc_ok J" for J w
  by unfold_locales
    (simp_all add: xx_lcec_day_of_month_def element_text_int element_text_string lmap_event_add_day_of_month_def
      dec_int_not_star small_int32 del: push_bit_of_1)

interpretation jdw: json_bit_list ev_days_of_week "\<lambda>v e. e\<lparr>ev_days_of_week := v\<rparr>" "\<lambda>e j. xx_lcec_day_of_week J e j w"
  "\<lambda>i. JString (json_day_tab ! i)" "[0..<7]" True for J w
  by unfold_locales
    (simp_all add: xx_lcec_day_of_week_def element_text_string day_element del: push_bit_of_1,
      simp add: lmap_event_add_day_of_week_def day_of_week_tab_def)

interpretation jho: json_bit_list ev_hours "\<lambda>v e. e\<lparr>ev_hours := v\<rparr>" "\<lambda>e j. xx_lcec_hour J e j w"
  "\<lambda>i. JInt (int i)" "[0..<24]" "jsonc_ok J" for J w
  by unfold_locales
    (simp_all add: xx_lcec_hour_def element_text_int element_text_string lmap_event_add_hour_def
      dec_int_not_star small_int32 del: push_bit_of_1)

interpretation jmi: json_bit_list ev_minutes "\<lambda>v e. e\<lparr>ev_minutes := v\<rparr>" "\<lambda>e j. xx_lcec_minute J e j w"
  "\<lambda>i. JInt (int i)" "[0..<60]" "jsonc_ok J" for J w
  by unfold_locales
    (simp_all add: xx_lcec_minute_def element_text_int element_text_string lmap_event_add_minute_def
      dec_int_not_star small_int32 del: push_bit_of_1)

interpretation jse: json_bit_list ev_seconds "\<lambda>v e. e\<lparr>ev_seconds := v\<rparr>" "\<lambda>e j. xx_lcec_second J e j w"
  "\<lambda>i. JInt (int i)" "[0..<60]" "jsonc_ok J" for J w
  by unfold_locales
    (simp_all add: xx_lcec_second_def element_text_int element_text_string lmap_event_add_second_def
      dec_int_not_star small_int32 del: push_bit_of_1)

section \<open>What a document carries of an event\<close>

definition event_mask :: "event_type \<Rightarrow> flags" where
  "event_mask t =
     (case t of
        Periodic \<Rightarrow> LMAP_EVENT_FLAG_INTERVAL_SET OR LMAP_EVENT_FLAG_START_SET OR LMAP_EVENT_FLAG_END_SET
      | Calendar \<Rightarrow> LMAP_EVENT_FLAG_TIMEZONE_OFFSET_SET OR LMAP_EVENT_FLAG_START_SET OR LMAP_EVENT_FLAG_END_SET
      | One_Off \<Rightarrow> LMAP_EVENT_FLAG_START_SET
      | _ \<Rightarrow> 0)"

text \<open>The fields of the event's own type, each one only when its flag is set; the timers and the last invocation are not written.\<close>

definition event_part :: "event \<Rightarrow> event" where
  "event_part e =
     (let on = flag_on (ev_flags e); t = ev_type e
      in lmap_event_new
           \<lparr>ev_name := ev_name e, ev_type := t,
            ev_flags :=
              ev_flags e AND
                (LMAP_EVENT_FLAG_RANDOM_SPREAD_SET OR LMAP_EVENT_FLAG_CYCLE_INTERVAL_SET OR event_mask t),
            ev_random_spread := if on LMAP_EVENT_FLAG_RANDOM_SPREAD_SET then ev_random_spread e else 0,
            ev_cycle_interval := if on LMAP_EVENT_FLAG_CYCLE_INTERVAL_SET then ev_cycle_interval e else 0,
            ev_interval := if t = Periodic \<and> on LMAP_EVENT_FLAG_INTERVAL_SET then ev_interval e else 0,
            ev_start := if t \<in> {Periodic, Calendar, One_Off} \<and> on LMAP_EVENT_FLAG_START_SET then ev_start e else 0,
            ev_end := if t \<in> {Periodic, Calendar} \<and> on LMAP_EVENT_FLAG_END_SET then ev_end e else 0,
            ev_months := if t = Calendar then ev_months e else 0,
            ev_days_of_month := if t = Calendar then ev_days_of_month e else 0,
            ev_days_of_week := if t = Calendar then ev_days_of_week e else 0,
            ev_hours := if t = Calendar then ev_hours e else 0,
            ev_minutes := if t = Calendar then ev_minutes e else 0,
            ev_seconds := if t = Calendar then ev_seconds e else 0,
            ev_timezone_offset := if t = Calendar \<and> on LMAP_EVENT_FLAG_TIMEZONE_OFFSET_SET then ev_timezone_offset e else 0\<rparr>)"

text \<open>A bit set of a calendar holds bits of its range, or all of them.\<close>

definition bits_in :: "nat list \<Rightarrow> 'w::len word \<Rightarrow> bool" where
  "bits_in idx v \<longleftrightarrow> v = -1 \<or> (\<forall>n<LENGTH('w). bit v n \<longrightarrow> n \<in> set idx)"

definition calendar_good :: "event \<Rightarrow> bool" where
  "calendar_good e \<longleftrightarrow>
     bits_in [0..<12] (ev_months e) \<and> bits_in [1..<32] (ev_days_of_month e) \<and> bits_in [0..<7] (ev_days_of_week e)
     \<and> bits_in [0..<24] (ev_hours e) \<and> bits_in [0..<60] (ev_minutes e) \<and> bits_in [0..<60] (ev_seconds e)
     \<and> (ev_months e \<noteq> 0 \<or> ev_days_of_month e \<noteq> 0 \<or> ev_days_of_week e \<noteq> 0 \<or> ev_hours e \<noteq> 0
        \<or> ev_minutes e \<noteq> 0 \<or> ev_seconds e \<noteq> 0)
     \<and> (flag_on (ev_flags e) LMAP_EVENT_FLAG_TIMEZONE_OFFSET_SET \<longrightarrow> \<bar>ev_timezone_offset e\<bar> < 1440)"

definition event_good :: "(int \<Rightarrow> bool) \<Rightarrow> event \<Rightarrow> bool" where
  "event_good T e \<longleftrightarrow>
     id_ok (ev_name e)
     \<and> (flag_on (ev_flags e) LMAP_EVENT_FLAG_RANDOM_SPREAD_SET \<longrightarrow> ev_random_spread e < RAND_MAX)
     \<and> (ev_type e \<in> {Periodic, Calendar, One_Off} \<and> flag_on (ev_flags e) LMAP_EVENT_FLAG_START_SET \<longrightarrow> T (ev_start e))
     \<and> (ev_type e \<in> {Periodic, Calendar} \<and> flag_on (ev_flags e) LMAP_EVENT_FLAG_END_SET \<longrightarrow> T (ev_end e))
     \<and> (ev_type e = Periodic \<longrightarrow> flag_on (ev_flags e) LMAP_EVENT_FLAG_INTERVAL_SET \<and> ev_interval e \<noteq> 0)
     \<and> (ev_type e = Calendar \<longrightarrow> calendar_good e)
     \<and> (ev_type e = One_Off \<longrightarrow> flag_on (ev_flags e) LMAP_EVENT_FLAG_START_SET)"

section \<open>Fields\<close>

lemma flag_set_event:
  "flag_on f LMAP_EVENT_FLAG_INTERVAL_SET \<Longrightarrow>
     flag_set g LMAP_EVENT_FLAG_INTERVAL_SET = g OR (f AND LMAP_EVENT_FLAG_INTERVAL_SET)"
  "flag_on f LMAP_EVENT_FLAG_START_SET \<Longrightarrow>
     flag_set g LMAP_EVENT_FLAG_START_SET = g OR (f AND LMAP_EVENT_FLAG_START_SET)"
  "flag_on f LMAP_EVENT_FLAG_END_SET \<Longrightarrow> flag_set g LMAP_EVENT_FLAG_END_SET = g OR (f AND LMAP_EVENT_FLAG_END_SET)"
  "flag_on f LMAP_EVENT_FLAG_RANDOM_SPREAD_SET \<Longrightarrow>
     flag_set g LMAP_EVENT_FLAG_RANDOM_SPREAD_SET = g OR (f AND LMAP_EVENT_FLAG_RANDOM_SPREAD_SET)"
  "flag_on f LMAP_EVENT_FLAG_CYCLE_INTERVAL_SET \<Longrightarrow>
     flag_set g LMAP_EVENT_FLAG_CYCLE_INTERVAL_SET = g OR (f AND LMAP_EVENT_FLAG_CYCLE_INTERVAL_SET)"
  "flag_on f LMAP_EVENT_FLAG_TIMEZONE_OFFSET_SET \<Longrightarrow>
     flag_set g LMAP_EVENT_FLAG_TIMEZONE_OFFSET_SET = g OR (f AND LMAP_EVENT_FLAG_TIMEZONE_OFFSET_SET)"
  by (erule flag_kept, simp only: event_flag_defs, rule push_bit_small)+

text \<open>The start and the end of an event are fields of more than one table.\<close>

definition reads_times :: "jsonc \<Rightarrow> flags \<Rightarrow> event jsonmap list \<Rightarrow> string \<Rightarrow> bool" where
  "reads_times J w tab k \<longleftrightarrow>
     (\<forall>c s. lookup_jsonmap J w tab c k (JString s) = Inr (lmap_event_set_start (jc_libc J) c s))"

lemma event_start_field:
  assumes "reads_times J w tab k" "flag_on f LMAP_EVENT_FLAG_START_SET \<longrightarrow> time_ok J t"
  shows "codec J w tab {k} (provided (flag_on f LMAP_EVENT_FLAG_START_SET) (render_leaf_datetime J k t)) c
    (c\<lparr>ev_start := if flag_on f LMAP_EVENT_FLAG_START_SET then t else ev_start c,
       ev_flags := ev_flags c OR (f AND LMAP_EVENT_FLAG_START_SET)\<rparr>) (flag_on f LMAP_EVENT_FLAG_START_SET)"
  by (rule codec_provided_eq, rule codec_time)
    (use assms in \<open>auto simp: reads_times_def lmap_event_set_start_def flag_set_event flag_absent\<close>)

lemma event_end_field:
  assumes "\<And>c s. lookup_jsonmap J w tab c ''end'' (JString s) = Inr (lmap_event_set_end (jc_libc J) c s)"
    "flag_on f LMAP_EVENT_FLAG_END_SET \<longrightarrow> time_ok J t"
  shows "codec J w tab {''end''} (provided (flag_on f LMAP_EVENT_FLAG_END_SET) (render_leaf_datetime J ''end'' t)) c
    (c\<lparr>ev_end := if flag_on f LMAP_EVENT_FLAG_END_SET then t else ev_end c,
       ev_flags := ev_flags c OR (f AND LMAP_EVENT_FLAG_END_SET)\<rparr>) (flag_on f LMAP_EVENT_FLAG_END_SET)"
  by (rule codec_provided_eq, rule codec_time)
    (use assms in \<open>auto simp: lmap_event_set_end_def flag_set_event flag_absent\<close>)

lemma reads_times_tables [simp]:
  "flag_on w PARSE_CONFIG_TRUE \<Longrightarrow> reads_times J w (periodic_tab J) ''start''"
  "flag_on w PARSE_CONFIG_TRUE \<Longrightarrow> reads_times J w (calendar_tab J) ''start''"
  "flag_on w PARSE_CONFIG_TRUE \<Longrightarrow> reads_times J w (one_off_tab J) ''time''"
  by (simp_all add: reads_times_def periodic_tab_def calendar_tab_def one_off_tab_def xx_lce_start_def)

lemma end_tables [simp]:
  "flag_on w PARSE_CONFIG_TRUE \<Longrightarrow>
     lookup_jsonmap J w (periodic_tab J) c ''end'' (JString s) = Inr (lmap_event_set_end (jc_libc J) c s)"
  "flag_on w PARSE_CONFIG_TRUE \<Longrightarrow>
     lookup_jsonmap J w (calendar_tab J) c ''end'' (JString s) = Inr (lmap_event_set_end (jc_libc J) c s)"
  by (simp_all add: periodic_tab_def calendar_tab_def xx_lce_end_def)

lemma event_interval_field:
  "flag_on w PARSE_CONFIG_TRUE \<Longrightarrow> jsonc_ok J \<Longrightarrow> v \<noteq> 0 \<Longrightarrow>
     codec J w (periodic_tab J) {''interval''}
       (provided (flag_on f LMAP_EVENT_FLAG_INTERVAL_SET) (render_leaf_uint32 ''interval'' v)) c
       (c\<lparr>ev_interval := if flag_on f LMAP_EVENT_FLAG_INTERVAL_SET then v else ev_interval c,
          ev_flags := ev_flags c OR (f AND LMAP_EVENT_FLAG_INTERVAL_SET)\<rparr>) (flag_on f LMAP_EVENT_FLAG_INTERVAL_SET)"
  by (intro codec_provided_eq codec_uint32)
    (auto simp: periodic_tab_def xx_lce_interval_def lmap_event_set_interval_def jsonc_ok_def set_uint32_back
      flag_set_event flag_absent Let_def word_less_1)

lemma event_spread_field:
  "flag_on w PARSE_CONFIG_TRUE \<Longrightarrow> jsonc_ok J \<Longrightarrow> flag_on f LMAP_EVENT_FLAG_RANDOM_SPREAD_SET \<longrightarrow> v < RAND_MAX \<Longrightarrow>
     codec J w (event_tab J) {''random-spread''}
       (provided (flag_on f LMAP_EVENT_FLAG_RANDOM_SPREAD_SET) (render_leaf_uint32 ''random-spread'' v)) c
       (c\<lparr>ev_random_spread := if flag_on f LMAP_EVENT_FLAG_RANDOM_SPREAD_SET then v else ev_random_spread c,
          ev_flags := ev_flags c OR (f AND LMAP_EVENT_FLAG_RANDOM_SPREAD_SET)\<rparr>)
       (flag_on f LMAP_EVENT_FLAG_RANDOM_SPREAD_SET)"
  by (intro codec_provided_eq codec_uint32)
    (auto simp: event_tab_def xx_lce_random_spread_def lmap_event_set_random_spread_def jsonc_ok_def set_uint32_back
      flag_set_event flag_absent Let_def)

lemma event_cycle_field:
  "flag_on w PARSE_CONFIG_TRUE \<Longrightarrow> jsonc_ok J \<Longrightarrow>
     codec J w (event_tab J) {''cycle-interval''}
       (provided (flag_on f LMAP_EVENT_FLAG_CYCLE_INTERVAL_SET) (render_leaf_uint32 ''cycle-interval'' v)) c
       (c\<lparr>ev_cycle_interval := if flag_on f LMAP_EVENT_FLAG_CYCLE_INTERVAL_SET then v else ev_cycle_interval c,
          ev_flags := ev_flags c OR (f AND LMAP_EVENT_FLAG_CYCLE_INTERVAL_SET)\<rparr>)
       (flag_on f LMAP_EVENT_FLAG_CYCLE_INTERVAL_SET)"
  by (intro codec_provided_eq codec_uint32)
    (auto simp: event_tab_def xx_lce_cycle_interval_def lmap_event_set_cycle_interval_def jsonc_ok_def set_uint32_back
      flag_set_event flag_absent Let_def)

lemma event_name_field:
  "id_ok v \<Longrightarrow> codec J w (event_tab J) {''name''} (render_leaf ''name'' v) c (c\<lparr>ev_name := v\<rparr>) True"
  by (erule codec_id) (simp add: event_tab_def xx_lce_name_def lmap_event_set_name_def)

section \<open>Calendars\<close>

lemma bits_inD: "bits_in idx (v :: 'w::len word) \<Longrightarrow> v = -1 \<or> (\<forall>n. bit v n \<longrightarrow> n \<in> set idx)"
  using bit_imp_le_length [of v] by (auto simp: bits_in_def)

lemma render_leaf_array: "render_leaf k (Some s) (JArray js) = Inr (JArray (js @ [JString s]))"
  "render_leaf_int32 k i (JArray js) = Inr (JArray (js @ [JInt i]))"
  by (simp_all add: render_leaf_def render_leaf_int32_def)

lemma calendar_bit_fields:
  assumes "flag_on w PARSE_CONFIG_TRUE" "jsonc_ok J"
  shows "ev_months c = 0 \<Longrightarrow> bits_in [0..<12] m \<Longrightarrow>
      codec J w (calendar_tab J) {''month''} (render_leaf_months ''month'' m) c (c\<lparr>ev_months := m\<rparr>) (m \<noteq> 0)"
    and "ev_days_of_month c = 0 \<Longrightarrow> bits_in [1..<32] d \<Longrightarrow>
      codec J w (calendar_tab J) {''day-of-month''} (render_leaf_days_of_month ''day-of-month'' d) c
        (c\<lparr>ev_days_of_month := d\<rparr>) (d \<noteq> 0)"
    and "ev_days_of_week c = 0 \<Longrightarrow> bits_in [0..<7] x \<Longrightarrow>
      codec J w (calendar_tab J) {''day-of-week''} (render_leaf_days_of_week ''day-of-week'' x) c
        (c\<lparr>ev_days_of_week := x\<rparr>) (x \<noteq> 0)"
    and "ev_hours c = 0 \<Longrightarrow> bits_in [0..<24] h \<Longrightarrow>
      codec J w (calendar_tab J) {''hour''} (render_leaf_hours ''hour'' h) c (c\<lparr>ev_hours := h\<rparr>) (h \<noteq> 0)"
    and "ev_minutes c = 0 \<Longrightarrow> bits_in [0..<60] n \<Longrightarrow>
      codec J w (calendar_tab J) {''minute''} (render_leaf_minsecs ''minute'' n) c (c\<lparr>ev_minutes := n\<rparr>) (n \<noteq> 0)"
    and "ev_seconds c = 0 \<Longrightarrow> bits_in [0..<60] n \<Longrightarrow>
      codec J w (calendar_tab J) {''second''} (render_leaf_minsecs ''second'' n) c (c\<lparr>ev_seconds := n\<rparr>) (n \<noteq> 0)"
proof -
  assume *: "ev_months c = 0" "bits_in [0..<12] m"
  show "codec J w (calendar_tab J) {''month''} (render_leaf_months ''month'' m) c (c\<lparr>ev_months := m\<rparr>) (m \<noteq> 0)"
    unfolding render_leaf_months_def json_tab_lengths
    by (rule jmo.bits_codec, simp add: assms calendar_tab_def)
      (use bits_inD [OF *(2)] in \<open>simp_all add: assms *(1) render_leaf_array\<close>)
next
  assume *: "ev_days_of_month c = 0" "bits_in [1..<32] d"
  show "codec J w (calendar_tab J) {''day-of-month''} (render_leaf_days_of_month ''day-of-month'' d) c
      (c\<lparr>ev_days_of_month := d\<rparr>) (d \<noteq> 0)"
    unfolding render_leaf_days_of_month_def
    by (rule jdm.bits_codec, simp add: assms calendar_tab_def)
      (use bits_inD [OF *(2)] in \<open>simp_all add: assms *(1) render_leaf_array\<close>)
next
  assume *: "ev_days_of_week c = 0" "bits_in [0..<7] x"
  show "codec J w (calendar_tab J) {''day-of-week''} (render_leaf_days_of_week ''day-of-week'' x) c
      (c\<lparr>ev_days_of_week := x\<rparr>) (x \<noteq> 0)"
    unfolding render_leaf_days_of_week_def json_tab_lengths
    by (rule jdw.bits_codec, simp add: assms calendar_tab_def)
      (use bits_inD [OF *(2)] in \<open>simp_all add: assms *(1) render_leaf_array\<close>)
next
  assume *: "ev_hours c = 0" "bits_in [0..<24] h"
  show "codec J w (calendar_tab J) {''hour''} (render_leaf_hours ''hour'' h) c (c\<lparr>ev_hours := h\<rparr>) (h \<noteq> 0)"
    unfolding render_leaf_hours_def
    by (rule jho.bits_codec, simp add: assms calendar_tab_def)
      (use bits_inD [OF *(2)] in \<open>simp_all add: assms *(1) render_leaf_array\<close>)
next
  assume *: "ev_minutes c = 0" "bits_in [0..<60] n"
  show "codec J w (calendar_tab J) {''minute''} (render_leaf_minsecs ''minute'' n) c (c\<lparr>ev_minutes := n\<rparr>) (n \<noteq> 0)"
    unfolding render_leaf_minsecs_def
    by (rule jmi.bits_codec, simp add: assms calendar_tab_def)
      (use bits_inD [OF *(2)] in \<open>simp_all add: assms *(1) render_leaf_array\<close>)
next
  assume *: "ev_seconds c = 0" "bits_in [0..<60] n"
  show "codec J w (calendar_tab J) {''second''} (render_leaf_minsecs ''second'' n) c (c\<lparr>ev_seconds := n\<rparr>) (n \<noteq> 0)"
    unfolding render_leaf_minsecs_def
    by (rule jse.bits_codec, simp add: assms calendar_tab_def)
      (use bits_inD [OF *(2)] in \<open>simp_all add: assms *(1) render_leaf_array\<close>)
qed

lemma zero_digit: "CHR ''0'' = char_of (48 :: nat)"
  by code_simp

lemma pad2_two_digits: "n < 100 \<Longrightarrow> pad2 n = two_digits n"
  by (cases "n < 10") (simp_all add: pad2_def two_digits_def dec.simps [of n] dec.simps [of "n div 10"] zero_digit)

lemma timezone_text_offset: "\<bar>t\<bar> < 1440 \<Longrightarrow> timezone_text t = offset_text t"
  by (simp add: timezone_text_def offset_text_def Let_def pad2_two_digits abs_if)

lemma event_timezone_field:
  "flag_on w PARSE_CONFIG_TRUE \<Longrightarrow> flag_on f LMAP_EVENT_FLAG_TIMEZONE_OFFSET_SET \<longrightarrow> \<bar>t\<bar> < 1440 \<Longrightarrow>
     codec J w (calendar_tab J) {''timezone-offset''}
       (provided (flag_on f LMAP_EVENT_FLAG_TIMEZONE_OFFSET_SET)
          (render_leaf ''timezone-offset'' (Some (timezone_text t)))) c
       (c\<lparr>ev_timezone_offset := if flag_on f LMAP_EVENT_FLAG_TIMEZONE_OFFSET_SET then t else ev_timezone_offset c,
          ev_flags := ev_flags c OR (f AND LMAP_EVENT_FLAG_TIMEZONE_OFFSET_SET)\<rparr>)
       (flag_on f LMAP_EVENT_FLAG_TIMEZONE_OFFSET_SET)"
  by (intro codec_provided_eq codec_leaf)
    (auto simp: calendar_tab_def xx_lcec_timezone_offset_def lmap_event_set_timezone_offset_def timezone_text_offset
      timezoneoffset_text flag_set_event flag_absent)

section \<open>Events\<close>

text \<open>The event before the field of its type is read.\<close>

definition event_head :: "event \<Rightarrow> event" where
  "event_head e =
     (let on = flag_on (ev_flags e)
      in lmap_event_new
           \<lparr>ev_name := ev_name e,
            ev_flags := ev_flags e AND (LMAP_EVENT_FLAG_RANDOM_SPREAD_SET OR LMAP_EVENT_FLAG_CYCLE_INTERVAL_SET),
            ev_random_spread := if on LMAP_EVENT_FLAG_RANDOM_SPREAD_SET then ev_random_spread e else 0,
            ev_cycle_interval := if on LMAP_EVENT_FLAG_CYCLE_INTERVAL_SET then ev_cycle_interval e else 0\<rparr>)"

lemmas event_type_fields =
  event_interval_field event_start_field event_end_field calendar_bit_fields event_timezone_field

lemma no_type_head: "ev_type e = No_Type \<Longrightarrow> event_part e = event_head e"
  by (simp add: event_part_def event_head_def event_mask_def lmap_event_new_def Let_def)

lemmas event_sub_defs =
  event_tab_def xx_lcee_periodic_def xx_lcee_calendar_def xx_lcee_one_off_def xx_lcee_def object_foreach_def
  lmap_event_set_type_def event_type_tab_def

lemmas event_empty_defs =
  render_event_type_def event_tab_def xx_lceez_immediate_def xx_lceez_startup_def xx_lceez_controller_lost_def
  xx_lceez_controller_connected_def xx_lceez_def lmap_json_object_is_empty_def lmap_event_set_type_def
  event_type_tab_def event_part_def event_head_def event_mask_def lmap_event_new_def Let_def

lemma event_empty_codec:
  assumes "render_event_type J e = render_empty_leaf k"
    "lookup_jsonmap J w (event_tab J) (event_head e) k (JArray [JNull]) = Inr (0, event_part e)" "k \<in> K"
  shows "codec J w (event_tab J) K (render_event_type J e) (event_head e) (event_part e) False"
  unfolding assms(1) using codec_empty [OF assms(2)] by (rule codec_weaken) (simp_all add: assms(3))

lemma event_type_codec:
  assumes "flag_on w PARSE_CONFIG_TRUE" "jsonc_ok J" "event_good (time_ok J) e"
  shows "codec J w (event_tab J) {''periodic'', ''calendar'', ''one-off'', ''immediate'', ''startup'',
      ''controller-lost'', ''controller-connected''}
    (render_event_type J e) (event_head e) (event_part e) False"
proof (cases "ev_type e")
  case Periodic
  have "codec J w (periodic_tab J) UNIV
    (steps
      [provided (flag_on (ev_flags e) LMAP_EVENT_FLAG_INTERVAL_SET) (render_leaf_uint32 ''interval'' (ev_interval e)),
       steps
         [provided (flag_on (ev_flags e) LMAP_EVENT_FLAG_START_SET) (render_leaf_datetime J ''start'' (ev_start e)),
          provided (flag_on (ev_flags e) LMAP_EVENT_FLAG_END_SET) (render_leaf_datetime J ''end'' (ev_end e))]])
    (event_head e) ((event_part e)\<lparr>ev_type := No_Type\<rparr>) True"
    by (rule codec_weaken,
        (rule codec_Cons codec_Nil event_type_fields
          | (insert assms Periodic, simp add: event_good_def; fail))+)
      (use assms Periodic in \<open>simp_all add: event_good_def event_part_def event_head_def event_mask_def
        lmap_event_new_def bit.conj_disj_distrib or.assoc Let_def\<close>)
  from codec_sub_object [OF this, of w "event_tab J" "event_head e" "''periodic''" "event_part e"]
  have "codec J w (event_tab J) {''periodic''} (render_event_type J e) (event_head e) (event_part e) True"
    using assms Periodic by (simp add: render_event_type_def event_sub_defs event_part_def Let_def)
  then show ?thesis by (rule codec_weaken) simp_all
next
  case Calendar
  have "codec J w (calendar_tab J) UNIV
    (steps
      [render_leaf_months ''month'' (ev_months e), render_leaf_days_of_month ''day-of-month'' (ev_days_of_month e),
       render_leaf_days_of_week ''day-of-week'' (ev_days_of_week e), render_leaf_hours ''hour'' (ev_hours e),
       render_leaf_minsecs ''minute'' (ev_minutes e), render_leaf_minsecs ''second'' (ev_seconds e),
       provided (flag_on (ev_flags e) LMAP_EVENT_FLAG_TIMEZONE_OFFSET_SET)
         (render_leaf ''timezone-offset'' (Some (timezone_text (ev_timezone_offset e)))),
       steps
         [provided (flag_on (ev_flags e) LMAP_EVENT_FLAG_START_SET) (render_leaf_datetime J ''start'' (ev_start e)),
          provided (flag_on (ev_flags e) LMAP_EVENT_FLAG_END_SET) (render_leaf_datetime J ''end'' (ev_end e))]])
    (event_head e) ((event_part e)\<lparr>ev_type := No_Type\<rparr>) True"
    by (rule codec_weaken,
        (rule codec_Cons codec_Nil event_type_fields
          | (insert assms Calendar, simp add: event_good_def calendar_good_def event_head_def lmap_event_new_def Let_def; fail))+)
      (use assms Calendar in \<open>simp_all add: event_good_def calendar_good_def event_part_def event_head_def event_mask_def
        lmap_event_new_def bit.conj_disj_distrib or.assoc Let_def\<close>, blast)
  from codec_sub_object [OF this, of w "event_tab J" "event_head e" "''calendar''" "event_part e"]
  have "codec J w (event_tab J) {''calendar''} (render_event_type J e) (event_head e) (event_part e) True"
    using assms Calendar by (simp add: render_event_type_def event_sub_defs event_part_def Let_def)
  then show ?thesis by (rule codec_weaken) simp_all
next
  case One_Off
  have "codec J w (one_off_tab J) UNIV
    (provided (flag_on (ev_flags e) LMAP_EVENT_FLAG_START_SET) (render_leaf_datetime J ''time'' (ev_start e)))
    (event_head e) ((event_part e)\<lparr>ev_type := No_Type\<rparr>) True"
    by (rule codec_weaken, rule event_start_field)
      (use assms One_Off in \<open>simp_all add: event_good_def event_part_def event_head_def event_mask_def
        lmap_event_new_def bit.conj_disj_distrib or.assoc Let_def\<close>)
  from codec_sub_object [OF this, of w "event_tab J" "event_head e" "''one-off''" "event_part e"]
  have "codec J w (event_tab J) {''one-off''} (render_event_type J e) (event_head e) (event_part e) True"
    using assms One_Off by (simp add: render_event_type_def event_sub_defs event_part_def Let_def)
  then show ?thesis by (rule codec_weaken) simp_all
next
  case No_Type
  then have "render_event_type J e = Inr" by (simp add: render_event_type_def)
  then have "codec J w (event_tab J) {''startup''} (render_event_type J e) (event_head e) (event_head e) False"
    by (intro codec_skip) simp
  then show ?thesis by (rule codec_weaken) (simp_all add: no_type_head No_Type)
next
  case Immediate
  then show ?thesis
    using assms(1) by (intro event_empty_codec [where k = "''immediate''"]) (simp_all add: event_empty_defs)
next
  case Startup
  then show ?thesis
    using assms(1) by (intro event_empty_codec [where k = "''startup''"]) (simp_all add: event_empty_defs)
next
  case Controller_Lost
  then show ?thesis
    using assms(1) by (intro event_empty_codec [where k = "''controller-lost''"]) (simp_all add: event_empty_defs)
next
  case Controller_Connected
  then show ?thesis
    using assms(1) by (intro event_empty_codec [where k = "''controller-connected''"]) (simp_all add: event_empty_defs)
qed

lemma event_type_field:
  assumes "flag_on w PARSE_CONFIG_TRUE" "jsonc_ok J" "event_good (time_ok J) e" "c = event_head e"
  shows "codec J w (event_tab J) {''periodic'', ''calendar'', ''one-off'', ''immediate'', ''startup'',
      ''controller-lost'', ''controller-connected''}
    (render_event_type J e) c (event_part e) False"
  unfolding assms(4) by (rule event_type_codec [OF assms(1-3)])

lemma event_codec:
  assumes "flag_on w PARSE_CONFIG_TRUE" "jsonc_ok J" "event_good (time_ok J) e"
  shows "codec J w (event_tab J) UNIV (render_event J e w) lmap_event_new (event_part e) True"
  unfolding render_event_def render_flags
  by (rule codec_weaken,
      (rule codec_Cons codec_Nil event_name_field event_spread_field event_cycle_field codec_provided
          event_type_field [OF assms]
        | (insert assms, simp add: event_good_def event_head_def lmap_event_new_def bit.conj_disj_distrib Let_def; fail))+)

lemma event_key: "event_good T e \<Longrightarrow> ev_name (event_part e) = ev_name e \<and> ev_name e \<noteq> None"
  by (simp add: event_good_def event_part_def id_ok_def Let_def)

end
