(* ===== verification/Json_Report.thy ===== *)
theory Json_Report
  imports Json_Config
begin

text \<open>
  The parsers of \<^verbatim>\<open>src/json-io.c\<close> for reports, from \<open>xx_lrst_function\<close> to \<open>parse_report_doc\<close>, and the loop of
  \<open>lmap_json_parse_task_results_fd\<close> over what a task has written. No field of a report is filtered.
\<close>

section \<open>Tables\<close>

definition xx_lrst_function :: "jsonc \<Rightarrow> table \<Rightarrow> json \<Rightarrow> flags \<Rightarrow> (int \<times> table) outcome" where
  "xx_lrst_function J p j w = parse_and_add (parse_registry J j w) lmap_table_add_registry p"

definition xx_lrst_column :: "jsonc \<Rightarrow> table \<Rightarrow> json \<Rightarrow> flags \<Rightarrow> (int \<times> table) outcome" where
  "xx_lrst_column J p j w =
     Inr (if json_object_get_type j \<noteq> T_String then (-1, p)
          else lmap_table_add_column p (json_object_get_string J j))"

definition parse_report_result_table_value :: "row \<Rightarrow> string \<Rightarrow> (int \<times> row) outcome" where
  "parse_report_result_table_value p s =
     (case lmap_value_set_value lmap_value_new (Some s) of
        (r, x) \<Rightarrow> Inr (if r \<noteq> 0 then (r, p) else lmap_row_add_value p x))"

definition row_tab :: "jsonc \<Rightarrow> row jsonmap list" where
  "row_tab J =
     [JSONMAP_ENTRY_STRARRAY_X ''value'' 0 parse_report_result_table_value,
      End_Of_Table]"

text \<open>
  A null row is skipped. A row without fields is an error, like everything that is not an object.
\<close>

definition parse_report_result_table_row :: "jsonc \<Rightarrow> table \<Rightarrow> json \<Rightarrow> flags \<Rightarrow> (int \<times> table) outcome" where
  "parse_report_result_table_row J p j w =
     (if j = JNull then Inr (0, p)
      else obind (parse_new J 0 (row_tab J) lmap_row_new j)
             (\<lambda>x. Inr (case x of None \<Rightarrow> (-1, p) | Some r \<Rightarrow> lmap_table_add_row p r)))"

text \<open>
  The table of a result table has no terminating entry.
\<close>

definition table_tab :: "jsonc \<Rightarrow> table jsonmap list" where
  "table_tab J =
     [JSONMAP_ENTRY_OBJARRAY_X ''function'' 0 (xx_lrst_function J),
      JSONMAP_ENTRY_OBJARRAY_X ''column'' 0 (xx_lrst_column J),
      JSONMAP_ENTRY_OBJARRAY_X ''row'' 0 (parse_report_result_table_row J)]"

definition parse_report_result_table :: "jsonc \<Rightarrow> result \<Rightarrow> json \<Rightarrow> flags \<Rightarrow> (int \<times> result) outcome" where
  "parse_report_result_table J p j w =
     obind (parse_new J 0 (table_tab J) lmap_table_new j)
       (\<lambda>x. Inr (case x of None \<Rightarrow> (-1, p) | Some t \<Rightarrow> lmap_result_add_table p t))"

section \<open>Results\<close>

definition xx_lrs_schedule :: "result \<Rightarrow> string \<Rightarrow> (int \<times> result) outcome" where
  "xx_lrs_schedule p s = Inr (lmap_result_set_schedule p (Some s))"

definition xx_lrs_action :: "result \<Rightarrow> string \<Rightarrow> (int \<times> result) outcome" where
  "xx_lrs_action p s = Inr (lmap_result_set_action p (Some s))"

definition xx_lrs_task :: "result \<Rightarrow> string \<Rightarrow> (int \<times> result) outcome" where
  "xx_lrs_task p s = Inr (lmap_result_set_task p (Some s))"

definition xx_lrs_tag :: "result \<Rightarrow> string \<Rightarrow> (int \<times> result) outcome" where
  "xx_lrs_tag p s = lmap_result_add_tag p (Some s)"

definition xx_lrs_event :: "jsonc \<Rightarrow> result \<Rightarrow> string \<Rightarrow> (int \<times> result) outcome" where
  "xx_lrs_event J p s = Inr (lmap_result_set_event (jc_libc J) p s)"

definition xx_lrs_start :: "jsonc \<Rightarrow> result \<Rightarrow> string \<Rightarrow> (int \<times> result) outcome" where
  "xx_lrs_start J p s = Inr (lmap_result_set_start (jc_libc J) p s)"

definition xx_lrs_end :: "jsonc \<Rightarrow> result \<Rightarrow> string \<Rightarrow> (int \<times> result) outcome" where
  "xx_lrs_end J p s = Inr (lmap_result_set_end (jc_libc J) p s)"

definition xx_lrs_cycle_number :: "result \<Rightarrow> string \<Rightarrow> (int \<times> result) outcome" where
  "xx_lrs_cycle_number p s = Inr (lmap_result_set_cycle_number p (Some s))"

definition xx_lrs_status :: "result \<Rightarrow> string \<Rightarrow> (int \<times> result) outcome" where
  "xx_lrs_status p s = Inr (lmap_result_set_status p s)"

definition parse_report_result_option :: "jsonc \<Rightarrow> result \<Rightarrow> json \<Rightarrow> flags \<Rightarrow> (int \<times> result) outcome" where
  "parse_report_result_option J p j w =
     parse_and_add (parse_option J j (PARSE_CONFIG_TRUE OR PARSE_CONFIG_FALSE)) lmap_result_add_option p"

definition result_tab :: "jsonc \<Rightarrow> result jsonmap list" where
  "result_tab J =
     [JSONMAP_ENTRY_STRING_X ''schedule'' 0 xx_lrs_schedule,
      JSONMAP_ENTRY_STRING_X ''action'' 0 xx_lrs_action,
      JSONMAP_ENTRY_STRING_X ''task'' 0 xx_lrs_task,
      JSONMAP_ENTRY_STRING_X ''event'' 0 (xx_lrs_event J),
      JSONMAP_ENTRY_STRING_X ''start'' 0 (xx_lrs_start J),
      JSONMAP_ENTRY_STRING_X ''end'' 0 (xx_lrs_end J),
      JSONMAP_ENTRY_STRING_X ''cycle-number'' 0 xx_lrs_cycle_number,
      JSONMAP_ENTRY_INT2STR_X ''status'' 0 xx_lrs_status,
      JSONMAP_ENTRY_STRARRAY_X ''tag'' 0 xx_lrs_tag,
      JSONMAP_ENTRY_OBJARRAY_X ''option'' 0 (parse_report_result_option J),
      JSONMAP_ENTRY_OBJARRAY_X ''table'' 0 (parse_report_result_table J),
      End_Of_Table]"

text \<open>
  A result that cannot be read is dropped and the report goes on without it. The type of an element is not checked before the
  loop over its fields.
\<close>

definition parse_report_result :: "jsonc \<Rightarrow> lmap \<Rightarrow> json \<Rightarrow> flags \<Rightarrow> (int \<times> lmap) outcome" where
  "parse_report_result J p j w =
     (if j = JNull then Inr (0, p)
      else obind (object_foreach J 0 (result_tab J) lmap_result_new j)
             (\<lambda>(r, x). Inr (0, if r = 0 then snd (lmap_add_result p x) else p)))"

section \<open>The report\<close>

text \<open>
  The agent exists by then: \<open>parse_report_doc\<close> creates it.
\<close>

definition on_agent :: "(agent \<Rightarrow> int \<times> agent) \<Rightarrow> lmap \<Rightarrow> (int \<times> lmap) outcome" where
  "on_agent f p =
     (case lm_agent p of
        None \<Rightarrow> Inl Null_Deref
      | Some a \<Rightarrow> (case f a of (r, a') \<Rightarrow> Inr (r, p\<lparr>lm_agent := Some a'\<rparr>)))"

definition xx_lrs_date :: "jsonc \<Rightarrow> lmap \<Rightarrow> string \<Rightarrow> (int \<times> lmap) outcome" where
  "xx_lrs_date J p s = on_agent (\<lambda>a. lmap_agent_set_report_date (jc_libc J) a s) p"

definition xx_las_agent_id :: "lmap \<Rightarrow> string \<Rightarrow> (int \<times> lmap) outcome" where
  "xx_las_agent_id p s =
     on_agent (\<lambda>a. case lmap_agent_set_agent_id a (Some s) of
                     (r, a') \<Rightarrow> (r, if r = 0 then snd (lmap_agent_set_report_agent_id a' ''true'') else a')) p"

definition xx_las_group_id :: "lmap \<Rightarrow> string \<Rightarrow> (int \<times> lmap) outcome" where
  "xx_las_group_id p s =
     on_agent (\<lambda>a. case lmap_agent_set_group_id a (Some s) of
                     (r, a') \<Rightarrow> (r, if r = 0 then snd (lmap_agent_set_report_group_id a' ''true'') else a')) p"

definition xx_las_measurement_point :: "lmap \<Rightarrow> string \<Rightarrow> (int \<times> lmap) outcome" where
  "xx_las_measurement_point p s =
     on_agent (\<lambda>a. case lmap_agent_set_measurement_point a (Some s) of
                     (r, a') \<Rightarrow>
                       (r, if r = 0 then snd (lmap_agent_set_report_measurement_point a' ''true'') else a')) p"

definition report_tab :: "jsonc \<Rightarrow> lmap jsonmap list" where
  "report_tab J =
     [JSONMAP_ENTRY_STRING_X ''date'' 0 (xx_lrs_date J),
      JSONMAP_ENTRY_STRING_X ''agent-id'' 0 xx_las_agent_id,
      JSONMAP_ENTRY_STRING_X ''group-id'' 0 xx_las_group_id,
      JSONMAP_ENTRY_STRING_X ''measurement-point'' 0 xx_las_measurement_point,
      JSONMAP_ENTRY_OBJARRAY_X ''result'' 0 (parse_report_result J),
      End_Of_Table]"

definition parse_report_doc :: "jsonc \<Rightarrow> lmap \<Rightarrow> json \<Rightarrow> (int \<times> lmap) outcome" where
  "parse_report_doc J l root =
     (case (case json_object_object_get_ex root ''ietf-lmap-report:report'' of
              None \<Rightarrow> json_object_object_get_ex root ''report''
            | Some m \<Rightarrow> Some m) of
        None \<Rightarrow> Inr (-1, l)
      | Some m \<Rightarrow>
          (case (root, m) of
             (JObject kvs, JObject fs) \<Rightarrow>
               if length kvs \<noteq> 1 then Inr (-1, l)
               else each_field J 0 (report_tab J) (-1)
                      (l\<lparr>lm_agent := Some (case lm_agent l of None \<Rightarrow> lmap_agent_new | Some a \<Rightarrow> a)\<rparr>) fs
           | _ \<Rightarrow> Inr (-1, l)))"

section \<open>The output of a task\<close>

text \<open>
  \<open>lmap_json_parse_task_results_fd\<close> accepts a table, an array of tables, or an object with the array in its field \<open>table\<close>.
  A table that cannot be read ends the loop over an array, without an error; of a single table it is one.
\<close>

fun each_table :: "jsonc \<Rightarrow> result \<Rightarrow> json list \<Rightarrow> result outcome" where
  "each_table J p [] = Inr p"
| "each_table J p (j # js) =
     obind (parse_report_result_table J p j 0) (\<lambda>(r, p'). if r \<noteq> 0 then Inr p' else each_table J p' js)"

definition task_results_value :: "jsonc \<Rightarrow> result \<Rightarrow> json \<Rightarrow> (int \<times> result) outcome" where
  "task_results_value J p j =
     (if j = JNull \<or> lmap_json_object_is_empty j then Inr (0, p)
      else case j of
             JArray js \<Rightarrow> obind (each_table J p js) (\<lambda>p'. Inr (0, p'))
           | JObject kvs \<Rightarrow>
               (case map_of kvs ''table'' of
                  Some (JArray js) \<Rightarrow> obind (each_table J p js) (\<lambda>p'. Inr (0, p'))
                | Some m \<Rightarrow> Inr (-1, p)
                | None \<Rightarrow> obind (parse_report_result_table J p j 0) (\<lambda>(r, p'). Inr (if r \<noteq> 0 then (-1, p') else (0, p'))))
           | _ \<Rightarrow> Inr (-1, p))"

end
