(* ===== verification/Json_Files.thy ===== *)
theory Json_Files
  imports Json_Report Filesystem
begin

text \<open>
  The reading of documents in \<^verbatim>\<open>src/json-io.c\<close>: files in pieces of 64000 bytes, the files of a directory, strings, and the entry
  points \<open>lmap_json_parse_...\<close>. A file that cannot be opened or read and a text that is no JSON give the
  null tree, which every parser of a document refuses.
\<close>

section \<open>Files and strings\<close>

definition JSON_READ_BUFFER_SZ :: nat where
  "JSON_READ_BUFFER_SZ = 64000"

text \<open>What \<open>read\<close> returns of a regular file, up to the end of the file.\<close>

function read_chunks :: "string \<Rightarrow> string list" where
  "read_chunks s =
     (if s = [] then [] else take JSON_READ_BUFFER_SZ s # read_chunks (drop JSON_READ_BUFFER_SZ s))"
  by auto
termination
  by (relation "measure length") (auto simp: JSON_READ_BUFFER_SZ_def)

declare read_chunks.simps [simp del]

text \<open>The loop feeds the tokener as long as it wants more; \<open>jerr\<close> is its state and \<open>fed\<close> what it has been given.\<close>

fun feed_tokener :: "jsonc \<Rightarrow> tokener \<Rightarrow> string \<Rightarrow> string list \<Rightarrow> tokener" where
  "feed_tokener J jerr fed [] = jerr"
| "feed_tokener J jerr fed (b # bs) =
     (case jc_parse_ex J (fed @ b) of
        Tok_Continue \<Rightarrow> feed_tokener J Tok_Continue (fed @ b) bs
      | t \<Rightarrow> t)"

definition file_contents :: "refusals \<Rightarrow> fs \<Rightarrow> string \<Rightarrow> string option" where
  "file_contents R fs p = (case open_existing R fs p of None \<Rightarrow> None | Some i \<Rightarrow> Some (fs_data fs i))"

text \<open>The state of the tokener of an empty file is the error the loop starts with.\<close>

definition parse_file :: "jsonc \<Rightarrow> refusals \<Rightarrow> fs \<Rightarrow> string \<Rightarrow> json" where
  "parse_file J R fs file =
     (case file_contents R fs file of
        None \<Rightarrow> JNull
      | Some s \<Rightarrow> (case feed_tokener J Tok_Error [] (read_chunks s) of Tok_Success j \<Rightarrow> j | _ \<Rightarrow> JNull))"

type_synonym file_parser = "lmap \<Rightarrow> string \<Rightarrow> (int \<times> lmap) outcome"

definition json_name :: "string \<Rightarrow> bool" where
  "json_name n \<longleftrightarrow> 6 \<le> length n \<and> n ! 0 \<noteq> CHR ''.'' \<and> drop (length n - 5) n = ''.json''"

fun parse_path_loop :: "file_parser \<Rightarrow> string \<Rightarrow> lmap \<Rightarrow> string list \<Rightarrow> (int \<times> lmap) outcome" where
  "parse_path_loop cb path l [] = Inr (0, l)"
| "parse_path_loop cb path l (n # ns) =
     (if \<not> json_name n then parse_path_loop cb path l ns
      else obind (cb l (path_buf (join path n)))
             (\<lambda>(r, l'). if r < 0 then Inr (-1, l') else parse_path_loop cb path l' ns))"

text \<open>\<open>opendir\<close> fails with \<open>ENOTDIR\<close> on what exists and is no directory, and it is then read as a file.\<close>

definition parse_path :: "file_parser \<Rightarrow> refusals \<Rightarrow> fs \<Rightarrow> string \<Rightarrow> lmap \<Rightarrow> (int \<times> lmap) outcome" where
  "parse_path cb R fs path l =
     (case opendir R fs path of
        Some ns \<Rightarrow> parse_path_loop cb path l ns
      | None \<Rightarrow>
          if \<not> R (Opendir path)
             \<and> (case split_path path of (d, n) \<Rightarrow> lookup fs d n \<noteq> None \<and> lookup fs d n \<noteq> Some Directory)
          then cb l path
          else Inr (-1, l))"

definition parse_string ::
  "jsonc \<Rightarrow> (lmap \<Rightarrow> json \<Rightarrow> (int \<times> lmap) outcome) \<Rightarrow> lmap \<Rightarrow> string option \<Rightarrow> (int \<times> lmap) outcome" where
  "parse_string J cb l s =
     (case s of
        None \<Rightarrow> Inr (0, l)
      | Some t \<Rightarrow>
          (case jc_parse_verbose J t of
             None \<Rightarrow> Inr (-1, l)
           | Some j \<Rightarrow> if j = JNull then Inr (-1, l) else cb l j))"

section \<open>Entry points\<close>

definition lmap_json_parse_config_file :: "jsonc \<Rightarrow> refusals \<Rightarrow> fs \<Rightarrow> file_parser" where
  "lmap_json_parse_config_file J R fs l file = parse_config_doc J l (parse_file J R fs file)"

definition lmap_json_parse_config_path :: "jsonc \<Rightarrow> refusals \<Rightarrow> fs \<Rightarrow> file_parser" where
  "lmap_json_parse_config_path J R fs l path = parse_path (lmap_json_parse_config_file J R fs) R fs path l"

definition lmap_json_parse_config_string :: "jsonc \<Rightarrow> lmap \<Rightarrow> string option \<Rightarrow> (int \<times> lmap) outcome" where
  "lmap_json_parse_config_string J l s = parse_string J (parse_config_doc J) l s"

definition lmap_json_parse_state_file :: "jsonc \<Rightarrow> refusals \<Rightarrow> fs \<Rightarrow> file_parser" where
  "lmap_json_parse_state_file J R fs l file = parse_state_doc J l (parse_file J R fs file)"

definition lmap_json_parse_state_path :: "jsonc \<Rightarrow> refusals \<Rightarrow> fs \<Rightarrow> file_parser" where
  "lmap_json_parse_state_path J R fs l path = parse_path (lmap_json_parse_state_file J R fs) R fs path l"

definition lmap_json_parse_state_string :: "jsonc \<Rightarrow> lmap \<Rightarrow> string option \<Rightarrow> (int \<times> lmap) outcome" where
  "lmap_json_parse_state_string J l s = parse_string J (parse_state_doc J) l s"

definition lmap_json_parse_report_file :: "jsonc \<Rightarrow> refusals \<Rightarrow> fs \<Rightarrow> file_parser" where
  "lmap_json_parse_report_file J R fs l file = parse_report_doc J l (parse_file J R fs file)"

definition lmap_json_parse_report_string :: "jsonc \<Rightarrow> lmap \<Rightarrow> string option \<Rightarrow> (int \<times> lmap) outcome" where
  "lmap_json_parse_report_string J l s = parse_string J (parse_report_doc J) l s"

text \<open>
  Here the loop starts without an error, so that an empty file is a result without tables.
\<close>

definition lmap_json_parse_task_results_fd :: "jsonc \<Rightarrow> string \<Rightarrow> result \<Rightarrow> (int \<times> result) outcome" where
  "lmap_json_parse_task_results_fd J contents p =
     (case feed_tokener J (Tok_Success JNull) [] (read_chunks contents) of
        Tok_Success j \<Rightarrow> task_results_value J p j
      | _ \<Rightarrow> Inr (-1, p))"

section \<open>The files of a directory\<close>

text \<open>
  What \<open>parse_path\<close> reads: the files whose names have the form, one after the other, up to the first that fails.
\<close>

fun read_files :: "file_parser \<Rightarrow> lmap \<Rightarrow> string list \<Rightarrow> (int \<times> lmap) outcome" where
  "read_files cb l [] = Inr (0, l)"
| "read_files cb l (p # ps) = obind (cb l p) (\<lambda>(r, l'). if r < 0 then Inr (-1, l') else read_files cb l' ps)"

lemma parse_path_loop_files:
  "parse_path_loop cb path l ns = read_files cb l (map (\<lambda>n. path_buf (join path n)) (filter json_name ns))"
proof (induction ns arbitrary: l)
  case Nil
  then show ?case by simp
next
  case (Cons n ns)
  then show ?case by (cases "cb l (path_buf (join path n))") (auto split: prod.split)
qed

lemma json_name_iff: "json_name n \<longleftrightarrow> (\<exists>b. n = b @ ''.json'' \<and> b \<noteq> [] \<and> hd b \<noteq> CHR ''.'')"
proof
  assume n: "json_name n"
  define b where "b = take (length n - 5) n"
  have nb: "n = b @ ''.json''"
    using n append_take_drop_id [of "length n - 5" n] by (simp add: json_name_def b_def)
  moreover have "b \<noteq> []" using n nb by (auto simp: json_name_def)
  ultimately show "\<exists>b. n = b @ ''.json'' \<and> b \<noteq> [] \<and> hd b \<noteq> CHR ''.''"
    using n by (intro exI [of _ b]) (auto simp: json_name_def hd_conv_nth nth_append)
next
  assume "\<exists>b. n = b @ ''.json'' \<and> b \<noteq> [] \<and> hd b \<noteq> CHR ''.''"
  then obtain c b where "n = c # b @ ''.json''" "c \<noteq> CHR ''.''" by (metis append_Cons list.collapse)
  then show "json_name n" by (simp add: json_name_def)
qed

end
