(* ===== verification/Json_Roundtrip.thy ===== *)
theory Json_Roundtrip
  imports Json_Events Json_Files
begin

text \<open>
  The round trip of whole documents of \<^verbatim>\<open>src/json-io.c\<close>, and the documents that do not survive it or crash the parser.
\<close>

section \<open>The lists of the document\<close>

lemma task_key: "task_good t \<Longrightarrow> task_name (task_part t) = task_name t \<and> task_name t \<noteq> None"
  by (simp add: task_good_def task_part_def id_ok_def)

interpretation ltk: member_list task_name lm_tasks "\<lambda>xs l. l\<lparr>lm_tasks := xs\<rparr>" lmap_add_task
  "\<lambda>t. render_task t w" "\<lambda>j. parse_task J j (flag_clear w PARSE_CONFIG_FALSE)"
  "\<lambda>t. flag_on w PARSE_CONFIG_TRUE \<and> task_good t" task_part for J w
  by unfold_locales
    (auto simp: lmap_add_task_def parse_task_def codec_parse_new [OF task_codec] dest: task_key)

interpretation ctk: member_list task_name cap_tasks "\<lambda>xs c. c\<lparr>cap_tasks := xs\<rparr>" lmap_capability_add_task
  "\<lambda>t. render_task t w" "\<lambda>j. parse_task J j (flag_clear w PARSE_CONFIG_TRUE)"
  "\<lambda>t. flag_on w PARSE_CONFIG_FALSE \<and> cap_task_good t" "\<lambda>t. t" for J w
  by unfold_locales
    (simp_all add: lmap_capability_add_task_def parse_task_def codec_parse_new [OF cap_task_codec] cap_task_good_def id_ok_def)

lemma schedule_key: "schedule_good T w s \<Longrightarrow> sched_name (schedule_part w s) = sched_name s \<and> sched_name s \<noteq> None"
  by (simp add: schedule_good_def schedule_part_def id_ok_def Let_def)

lemma supp_key: "supp_good s \<Longrightarrow> supp_name (supp_part w s) = supp_name s \<and> supp_name s \<noteq> None"
  by (simp add: supp_good_def supp_part_def id_ok_def)

interpretation lsc: member_list sched_name lm_schedules "\<lambda>xs l. l\<lparr>lm_schedules := xs\<rparr>" lmap_add_schedule
  "\<lambda>s. render_schedule J s w" "\<lambda>j. parse_schedule J j w"
  "\<lambda>s. flag_on w PARSE_CONFIG_TRUE \<and> jsonc_ok J \<and> schedule_good (time_ok J) w s" "schedule_part w" for J w
  by unfold_locales
    (auto simp: lmap_add_schedule_def parse_schedule_def codec_parse_new [OF schedule_codec] dest: schedule_key)

interpretation lsp: member_list supp_name lm_supps "\<lambda>xs l. l\<lparr>lm_supps := xs\<rparr>" lmap_add_supp
  "\<lambda>s. render_suppression s w" "\<lambda>j. parse_suppression J j w"
  "\<lambda>s. flag_on w PARSE_CONFIG_TRUE \<and> jsonc_ok J \<and> supp_good s" "supp_part w" for J w
  by unfold_locales
    (auto simp: lmap_add_supp_def parse_suppression_def codec_parse_new [OF supp_codec] supp_key dest: supp_key)

interpretation lev: member_list ev_name lm_events "\<lambda>xs l. l\<lparr>lm_events := xs\<rparr>" lmap_add_event
  "\<lambda>e. render_event J e w" "\<lambda>j. parse_event J j w"
  "\<lambda>e. flag_on w PARSE_CONFIG_TRUE \<and> jsonc_ok J \<and> event_good (time_ok J) e" event_part for J w
  by unfold_locales
    (auto simp: lmap_add_event_def parse_event_def codec_parse_new [OF event_codec] dest: event_key)

section \<open>The fields of the document\<close>

lemma control_tasks_field:
  assumes "flag_on w PARSE_CONFIG_TRUE" "list_all task_good ts" "named_distinct task_name ts" "lm_tasks c = []"
  shows "codec J w (control_tab J) {''tasks''} (render_tasks ts w) c (c\<lparr>lm_tasks := map task_part ts\<rparr>) (ts \<noteq> [])"
  unfolding render_tasks_def
  by (rule ltk.members_codec [where J = J])
    (use assms in \<open>simp_all add: control_tab_def xx_lctrl_tasks_def parse_tasks_def list_all_iff\<close>)

lemma capability_tasks_field:
  assumes "flag_on w PARSE_CONFIG_FALSE" "list_all cap_task_good ts" "named_distinct task_name ts" "cap_tasks c = []"
  shows "codec J w (capability_tab J) {''tasks''} (render_tasks ts w) c (c\<lparr>cap_tasks := ts\<rparr>) (ts \<noteq> [])"
proof -
  have "codec J w (capability_tab J) {''tasks''} (render_members ''tasks'' ''task'' task_name (\<lambda>t. render_task t w) ts) c
    (c\<lparr>cap_tasks := map (\<lambda>t. t) ts\<rparr>) (ts \<noteq> [])"
    by (rule ctk.members_codec [where J = J])
      (use assms in \<open>simp_all add: capability_tab_def xx_lcap_tasks_def parse_tasks_def list_all_iff\<close>)
  then show ?thesis by (simp add: render_tasks_def)
qed

lemma control_schedules_field:
  assumes "flag_on w PARSE_CONFIG_TRUE" "jsonc_ok J" "list_all (schedule_good (time_ok J) w) ss" "named_distinct sched_name ss"
    "lm_schedules c = []"
  shows "codec J w (control_tab J) {''schedules''} (render_schedules J ss w) c
    (c\<lparr>lm_schedules := map (schedule_part w) ss\<rparr>) (ss \<noteq> [])"
  unfolding render_schedules_def
  by (rule lsc.members_codec)
    (use assms in \<open>simp_all add: control_tab_def xx_lctrl_schedules_def list_all_iff\<close>)

lemma control_suppressions_field:
  assumes "flag_on w PARSE_CONFIG_TRUE" "jsonc_ok J" "list_all supp_good ss" "named_distinct supp_name ss"
    "lm_supps c = []"
  shows "codec J w (control_tab J) {''suppressions''} (render_suppressions ss w) c
    (c\<lparr>lm_supps := map (supp_part w) ss\<rparr>) (ss \<noteq> [])"
  unfolding render_suppressions_def
  by (rule lsp.members_codec, simp add: control_tab_def xx_lctrl_suppressions_def)
    (use assms in \<open>simp_all add: list_all_iff\<close>)

lemma control_events_field:
  assumes "flag_on w PARSE_CONFIG_TRUE" "jsonc_ok J" "list_all (event_good (time_ok J)) es" "named_distinct ev_name es"
    "lm_events c = []"
  shows "codec J w (control_tab J) {''events''} (render_events J es w) c
    (c\<lparr>lm_events := map event_part es\<rparr>) (es \<noteq> [])"
  unfolding render_events_def
  by (rule lev.members_codec)
    (use assms in \<open>simp_all add: control_tab_def xx_lctrl_events_def list_all_iff\<close>)

definition agent_ok :: "(int \<Rightarrow> bool) \<Rightarrow> flags \<Rightarrow> agent option \<Rightarrow> bool" where
  "agent_ok T w ag \<longleftrightarrow> (case ag of None \<Rightarrow> True | Some a \<Rightarrow> agent_good T w a \<and> agent_written w a)"

lemma control_agent_field:
  assumes "flag_on w PARSE_CONFIG_TRUE" "jsonc_ok J" "agent_ok (time_ok J) w ag" "lm_agent c = None"
  shows "codec J w (control_tab J) {''agent''} (render_agent J ag w) c
    (c\<lparr>lm_agent := map_option (agent_part w) ag\<rparr>) (ag \<noteq> None)"
proof (cases ag)
  case None
  then have "c\<lparr>lm_agent := map_option (agent_part w) ag\<rparr> = c" using assms(4) by simp
  then show ?thesis using None by (simp add: codec_skip render_agent_def)
next
  case (Some a)
  have a: "codec J w (agent_tab J) UNIV (render_agent_fields J a w) lmap_agent_new (agent_part w a) True"
    using assms Some by (intro agent_codec) (simp_all add: agent_ok_def)
  have r: "render_agent J (Some a) w = sub_object ''agent'' (render_agent_fields J a w)"
    by (rule ext) (simp add: render_agent_def)
  have "codec J w (control_tab J) {''agent''} (sub_object ''agent'' (render_agent_fields J a w)) c
    (c\<lparr>lm_agent := Some (agent_part w a)\<rparr>) True"
    using codec_sub_object [OF a, of w "control_tab J" c "''agent''" "c\<lparr>lm_agent := Some (agent_part w a)\<rparr>"] assms(1,4)
    by (simp add: control_tab_def xx_lctrl_agent_def object_foreach_def)
  then show ?thesis using Some by (simp add: r)
qed

section \<open>The capabilities\<close>

interpretation ctg: tag_list cap_tags "\<lambda>ts c. c\<lparr>cap_tags := ts\<rparr>" xx_lcap_tag
  by unfold_locales (simp_all add: xx_lcap_tag_def lmap_capability_add_tag_def)

definition capability_good :: "capability \<Rightarrow> bool" where
  "capability_good c \<longleftrightarrow> list_all cap_task_good (cap_tasks c) \<and> named_distinct task_name (cap_tasks c) \<and> tags_ok (cap_tags c)"

definition capability_written :: "flags \<Rightarrow> capability \<Rightarrow> bool" where
  "capability_written w c \<longleftrightarrow> flag_on w PARSE_CONFIG_FALSE \<and> (cap_version c \<noteq> None \<or> cap_tags c \<noteq> [] \<or> cap_tasks c \<noteq> [])"

lemma capability_version_field:
  "flag_on w PARSE_CONFIG_FALSE \<Longrightarrow> cap_version c = None \<Longrightarrow>
     codec J w (capability_tab J) {''version''} (render_leaf ''version'' v) c (c\<lparr>cap_version := v\<rparr>) (v \<noteq> None)"
  by (intro codec_leaf_option)
    (simp_all add: capability_tab_def xx_lcap_version_def lmap_capability_set_version_def set_string_def)

lemma capability_tag_field:
  "flag_on w PARSE_CONFIG_FALSE \<Longrightarrow> cap_tags c = [] \<Longrightarrow> tags_ok ts \<Longrightarrow>
     codec J w (capability_tab J) {''tag''} (render_tags ts ''tag'') c (c\<lparr>cap_tags := ts\<rparr>) (ts \<noteq> [])"
  by (intro ctg.tags_codec_written) (simp_all add: capability_tab_def)

lemma capability_codec:
  assumes "capability_good c" "capability_written w c"
  shows "codec J w (capability_tab J) UNIV
    (steps [render_leaf ''version'' (cap_version c), render_tags (cap_tags c) ''tag'', render_tasks (cap_tasks c) w])
    lmap_capability_new c True"
  by (rule codec_weaken,
      (rule codec_Cons codec_Nil capability_version_field capability_tag_field capability_tasks_field
        | (insert assms, simp add: capability_good_def capability_written_def lmap_capability_new_def; fail))+)

definition capability_part :: "flags \<Rightarrow> capability option \<Rightarrow> capability option" where
  "capability_part w cap = (case cap of None \<Rightarrow> None | Some c \<Rightarrow> if capability_written w c then Some c else None)"

lemma control_capabilities_field:
  assumes "\<And>a. cap = Some a \<Longrightarrow> capability_good a" "lm_capabilities c = None"
  shows "codec J w (control_tab J) {''capabilities''} (render_capabilities cap w) c
    (c\<lparr>lm_capabilities := capability_part w cap\<rparr>) (capability_part w cap \<noteq> None)"
proof (cases "capability_part w cap")
  case None
  then have "c\<lparr>lm_capabilities := capability_part w cap\<rparr> = c" using assms(2) by simp
  moreover have "render_capabilities cap w = Inr"
    using None
    by (intro ext) (auto simp: render_capabilities_def capability_part_def capability_written_def RENDER_CONFIG_FALSE_def
        PARSE_CONFIG_FALSE_def split: option.splits if_splits)
  ultimately show ?thesis using None by (simp add: codec_skip)
next
  case (Some a)
  then have a: "cap = Some a" "capability_written w a"
    by (auto simp: capability_part_def split: option.splits if_splits)
  define f where "f = steps [render_leaf ''version'' (cap_version a), render_tags (cap_tags a) ''tag'',
    render_tasks (cap_tasks a) w]"
  have "codec J w (capability_tab J) UNIV f lmap_capability_new a True"
    unfolding f_def using a assms(1) by (intro capability_codec) simp_all
  from codec_sub_object [OF this, of w "control_tab J" c "''capabilities''" "c\<lparr>lm_capabilities := Some a\<rparr>"]
  have "codec J w (control_tab J) {''capabilities''} (sub_object ''capabilities'' f) c (c\<lparr>lm_capabilities := Some a\<rparr>) True"
    using a(2) assms(2)
    by (simp add: control_tab_def xx_lctrl_capabilities_def object_foreach_def capability_written_def)
  moreover have "render_capabilities cap w = sub_object ''capabilities'' f"
    using a by (intro ext) (auto simp: render_capabilities_def capability_written_def RENDER_CONFIG_FALSE_def
        PARSE_CONFIG_FALSE_def f_def simp del: steps_simps)
  ultimately show ?thesis using Some by simp
qed

section \<open>The document\<close>

definition lmap_part :: "flags \<Rightarrow> lmap \<Rightarrow> lmap" where
  "lmap_part w l =
     \<lparr>lm_agent = map_option (agent_part w) (lm_agent l), lm_capabilities = capability_part w (lm_capabilities l),
      lm_schedules = map (schedule_part w) (lm_schedules l), lm_supps = map (supp_part w) (lm_supps l),
      lm_events = map event_part (lm_events l), lm_tasks = map task_part (lm_tasks l), lm_results = []\<rparr>"

definition lmap_good :: "(int \<Rightarrow> bool) \<Rightarrow> flags \<Rightarrow> lmap \<Rightarrow> bool" where
  "lmap_good T w l \<longleftrightarrow>
     agent_ok T w (lm_agent l)
     \<and> (case lm_capabilities l of None \<Rightarrow> True | Some c \<Rightarrow> capability_good c)
     \<and> list_all task_good (lm_tasks l) \<and> named_distinct task_name (lm_tasks l)
     \<and> list_all (schedule_good T w) (lm_schedules l) \<and> named_distinct sched_name (lm_schedules l)
     \<and> list_all supp_good (lm_supps l) \<and> named_distinct supp_name (lm_supps l)
     \<and> list_all (event_good T) (lm_events l) \<and> named_distinct ev_name (lm_events l)"

text \<open>Something is in the document: without a field it is refused.\<close>

definition lmap_written :: "flags \<Rightarrow> lmap \<Rightarrow> bool" where
  "lmap_written w l \<longleftrightarrow>
     lm_agent l \<noteq> None \<or> capability_part w (lm_capabilities l) \<noteq> None \<or> lm_tasks l \<noteq> [] \<or> lm_schedules l \<noteq> []
     \<or> lm_supps l \<noteq> [] \<or> lm_events l \<noteq> []"

lemma control_codec:
  assumes "flag_on w PARSE_CONFIG_TRUE" "jsonc_ok J" "lmap_good (time_ok J) w l" "lmap_written w l"
  shows "codec J w (control_tab J) UNIV
    (steps [render_capabilities (lm_capabilities l) w, render_agent J (lm_agent l) w,
       render_tasks (lm_tasks l) w, render_schedules J (lm_schedules l) w,
       render_suppressions (lm_supps l) w, render_events J (lm_events l) w])
    lmap_new (lmap_part w l) True"
  by (rule codec_weaken,
      (rule codec_Cons codec_Nil control_capabilities_field control_agent_field control_tasks_field
         control_schedules_field control_suppressions_field control_events_field
        | (insert assms, simp add: lmap_good_def lmap_new_def; fail))+)
    (use assms in \<open>auto simp add: lmap_written_def lmap_part_def lmap_new_def\<close>)

lemma control_tree_reads:
  assumes "flag_on w PARSE_CONFIG_TRUE" "jsonc_ok J" "lmap_good (time_ok J) w l" "lmap_written w l"
  obtains j where "control_tree J l w = Inr j" "j \<noteq> JNull" "parse_control_doc J lmap_new j w = Inr (0, lmap_part w l)"
proof -
  obtain kvs where kvs: "steps [render_capabilities (lm_capabilities l) w, render_agent J (lm_agent l) w,
       render_tasks (lm_tasks l) w, render_schedules J (lm_schedules l) w,
       render_suppressions (lm_supps l) w, render_events J (lm_events l) w] (JObject []) = Inr (JObject kvs)"
    "each_field J w (control_tab J) (-1) lmap_new kvs = Inr (0, lmap_part w l)"
    using codec_foreach [OF control_codec [OF assms]] by blast
  show ?thesis
    by (rule that [of "JObject [(''ietf-lmap-control:lmap'', JObject kvs)]"])
      (use kvs in \<open>simp_all add: control_tree_def sub_object_def json_object_object_add_def parse_control_doc_def
         json_object_object_get_ex_def del: steps_simps\<close>)
qed

end
