(* ===== verification/Json_Documents.thy ===== *)
theory Json_Documents
  imports Json_Roundtrip Libc_Instance
begin

text \<open>
  Whole documents of \<^verbatim>\<open>src/json-io.c\<close> as texts: the round trip through \<open>lmap_json_render_config\<close> and
  \<open>lmap_json_parse_config_string\<close> and through their counterparts for the state, and the documents that do not survive it or crash the parser.
\<close>

section \<open>The text of a document\<close>

text \<open>
  json-c reads back the text it has printed of a document. This is what the round trip relies on, for the one
  document it prints.
\<close>

definition prints_back :: "jsonc \<Rightarrow> lmap \<Rightarrow> flags \<Rightarrow> bool" where
  "prints_back J l w \<longleftrightarrow>
     (case control_tree J l w of Inl e \<Rightarrow> True | Inr j \<Rightarrow> jc_parse_verbose J (jc_pretty J j) = Some j)"

text \<open>A json-c to evaluate with: UTC, a compact printer without escapes, and a parser that knows one document.\<close>

definition utc_date :: "tm \<Rightarrow> string" where
  "utc_date tm =
     dec (nat (tm_year tm + 1900)) @ ''-'' @ pad2 (nat (tm_mon tm + 1)) @ ''-'' @ pad2 (nat (tm_mday tm)) @ ''T''
       @ pad2 (nat (tm_hour tm)) @ '':'' @ pad2 (nat (tm_min tm)) @ '':'' @ pad2 (nat (tm_sec tm)) @ ''+0000''"

fun comma :: "string list \<Rightarrow> string" where
  "comma [] = []"
| "comma [s] = s"
| "comma (s # ss) = s @ '','' @ comma ss"

definition quoted :: "string \<Rightarrow> string" where
  "quoted s = [CHR 0x22] @ s @ [CHR 0x22]"

fun json_text :: "json \<Rightarrow> string" where
  "json_text JNull = ''null''"
| "json_text (JBool b) = (if b then ''true'' else ''false'')"
| "json_text (JDouble s) = s"
| "json_text (JInt i) = dec_int i"
| "json_text (JString s) = quoted s"
| "json_text (JArray js) = ''['' @ comma (map json_text js) @ '']''"
| "json_text (JObject kvs) = ''{'' @ comma (map (\<lambda>(k, j). quoted k @ '':'' @ json_text j) kvs) @ ''}''"

definition utc_jsonc :: "json \<Rightarrow> jsonc" where
  "utc_jsonc doc =
     \<lparr>jc_libc = utc_libc, jc_parse_ex = (\<lambda>s. if s = json_text doc then Tok_Success doc else Tok_Error),
      jc_parse_verbose = (\<lambda>s. if s = json_text doc then Some doc else None),
      jc_to_json_string = json_text, jc_pretty = json_text,
      jc_strftime = (\<lambda>t. map_option utc_date (lc_localtime utc_libc t))\<rparr>"

lemma utc_jsonc_ok: "jsonc_ok (utc_jsonc doc)"
  by (simp add: jsonc_ok_def utc_jsonc_def)

definition demo_lmap :: lmap where
  "demo_lmap = lmap_new
     \<lparr>lm_agent := Some (lmap_agent_new \<lparr>ag_group_id := Some ''lab'', ag_last_started := 1700000000\<rparr>),
      lm_capabilities := Some (lmap_capability_new \<lparr>cap_version := Some ''1.0'', cap_tags := [Some ''simet'']\<rparr>),
      lm_tasks := [lmap_task_new
        \<lparr>task_name := Some ''ping'', task_version := Some ''3'', task_program := Some ''/bin/ping'',
         task_options := [lmap_option_new \<lparr>opt_id := Some ''c'', opt_name := Some ''-c''\<rparr>],
         task_registries := [\<lparr>reg_uri = Some ''urn:x'', reg_roles = [Some ''client'']\<rparr>]\<rparr>],
      lm_schedules := [lmap_schedule_new
        \<lparr>sched_name := Some ''hourly'', sched_start := Some ''every'', sched_workspace := Some ''/q/hourly'',
         sched_actions := [lmap_action_new \<lparr>act_name := Some ''run'', act_task := Some ''ping'', act_tags := [Some ''a''],
           act_workspace := Some ''/q/hourly/run''\<rparr>]\<rparr>],
      lm_supps := [lmap_supp_new \<lparr>supp_name := Some ''calm'', supp_match := [Some ''a'']\<rparr>],
      lm_events := [lmap_event_new
        \<lparr>ev_name := Some ''every'', ev_type := Periodic, ev_interval := 3600,
         ev_flags := LMAP_EVENT_FLAG_INTERVAL_SET OR LMAP_EVENT_FLAG_START_SET, ev_start := 1700000000\<rparr>]\<rparr>"

text \<open>What is rendered does not depend on the document that this json-c knows.\<close>

lemma utc_datetime: "render_leaf_datetime (utc_jsonc d) = render_leaf_datetime (utc_jsonc JNull)"
  by (intro ext) (simp add: render_leaf_datetime_def utc_jsonc_def)

lemma utc_control_tree: "control_tree (utc_jsonc d) l w = control_tree (utc_jsonc JNull) l w"
proof -
  note dt = utc_datetime [of d]
  have a: "render_agent_fields (utc_jsonc d) = render_agent_fields (utc_jsonc JNull)"
    by (intro ext) (simp only: render_agent_fields_def dt)
  have "render_action (utc_jsonc d) = render_action (utc_jsonc JNull)"
    by (intro ext) (simp only: render_action_def dt)
  then have "render_actions (utc_jsonc d) = render_actions (utc_jsonc JNull)"
    by (intro ext) (simp only: render_actions_def)
  then have c: "render_schedule (utc_jsonc d) = render_schedule (utc_jsonc JNull)"
    by (intro ext) (simp only: render_schedule_def dt)
  have e: "render_event (utc_jsonc d) = render_event (utc_jsonc JNull)"
    by (intro ext) (simp only: render_event_def render_event_type_def dt)
  have g: "render_agent (utc_jsonc d) = render_agent (utc_jsonc JNull)"
    by (intro ext) (simp only: render_agent_def a)
  show ?thesis
    by (simp only: control_tree_def g render_schedules_def render_events_def c e)
qed

definition demo_jsonc :: "flags \<Rightarrow> jsonc" where
  "demo_jsonc w = utc_jsonc (case control_tree (utc_jsonc JNull) demo_lmap w of Inl e \<Rightarrow> JNull | Inr j \<Rightarrow> j)"

lemma demo_prints_back: "prints_back (demo_jsonc w) demo_lmap w"
proof -
  have "jc_parse_verbose (utc_jsonc d) (jc_pretty (utc_jsonc d) d) = Some d" for d
    by (simp add: utc_jsonc_def)
  then show ?thesis
    by (simp add: prints_back_def demo_jsonc_def utc_control_tree [of "case _ of Inl e \<Rightarrow> JNull | Inr j \<Rightarrow> j"] split: sum.split)
qed

lemma utc_date_1700000000:
  "map_option utc_date (utc_localtime 1700000000) = Some (''2023-11-14T22:13:20'' @ zone_text 0)"
  by code_simp

lemma utc_strptime_1700000000:
  "utc_strptime (''2023-11-14T22:13:20'' @ offset_text 0)
     = Some (\<lparr>tm_sec = 20, tm_min = 13, tm_hour = 22, tm_mday = 14, tm_mon = 10, tm_year = 123, tm_wday = 0\<rparr>, offset_text 0)"
  by code_simp

lemma utc_timegm_1700000000:
  "utc_timegm \<lparr>tm_sec = 20, tm_min = 13, tm_hour = 22, tm_mday = 14, tm_mon = 10, tm_year = 123, tm_wday = 0\<rparr> = 1700000000"
  by code_simp

lemma demo_time: "time_ok (utc_jsonc d) 1700000000"
  unfolding time_ok_def instant_ok_def
  by (rule exI [of _ "''2023-11-14T22:13:20''"], rule exI [of _ 0],
      rule exI [of _ "\<lparr>tm_sec = 20, tm_min = 13, tm_hour = 22, tm_mday = 14, tm_mon = 10, tm_year = 123, tm_wday = 0\<rparr>"])
    (simp add: utc_jsonc_def utc_libc_def utc_date_1700000000 utc_strptime_1700000000 [simplified] utc_timegm_1700000000)

lemma demo_good: "lmap_good (time_ok (demo_jsonc v)) w demo_lmap"
  by (simp add: lmap_good_def demo_lmap_def demo_jsonc_def agent_ok_def agent_good_def agent_written_def
      capability_good_def task_good_def schedule_good_def supp_good_def event_good_def id_ok_def tags_ok_def
      action_good_def registry_good_def option_good_def lmap_agent_new_def lmap_new_def lmap_task_new_def
      lmap_schedule_new_def lmap_supp_new_def lmap_event_new_def lmap_action_new_def lmap_capability_new_def
      lmap_option_new_def demo_time named_distinct_def int32_ok_def INT32_MIN_def INT32_MAX_def flag_on_def
      event_flag_defs LMAP_SCHEDULE_FLAG_END_SET_def)

lemma demo_ok: "jsonc_ok (demo_jsonc w)" "lmap_written w demo_lmap"
  by (simp_all add: demo_jsonc_def utc_jsonc_ok lmap_written_def demo_lmap_def)

section \<open>The round trip\<close>

lemma document_round_trip:
  assumes "flag_on w PARSE_CONFIG_TRUE" "jsonc_ok J" "lmap_good (time_ok J) w l" "lmap_written w l" "prints_back J l w"
  obtains s where "render_control J l w = Inr s"
    "parse_string J (\<lambda>l j. parse_control_doc J l j w) lmap_new (Some s) = Inr (0, lmap_part w l)"
  by (rule control_tree_reads [OF assms(1-4)])
    (use assms(5) in \<open>auto simp: render_control_def parse_string_def prints_back_def intro!: that\<close>)

text \<open>
  C13. A configuration rendered by lmap_json_render_config is read back by lmap_json_parse_config_string, without errors, as
  the configuration part of the model: agent, tasks, schedules with their actions, suppressions and events, each with
  its options, tags, registries and the fields whose flags are set. Counters, states, versions, the time the agent
  started and the capabilities are not part of it.
\<close>
theorem config_document_round_trip:
  assumes "jsonc_ok J" "lmap_good (time_ok J) PARSE_CONFIG_TRUE l" "lmap_written PARSE_CONFIG_TRUE l"
    and "prints_back J l RENDER_CONFIG_TRUE"
  shows "\<exists>s. lmap_json_render_config J l = Inr s \<and>
    lmap_json_parse_config_string J lmap_new (Some s) = Inr (0, lmap_part PARSE_CONFIG_TRUE l)"
proof -
  have w: "RENDER_CONFIG_TRUE = PARSE_CONFIG_TRUE" "flag_on PARSE_CONFIG_TRUE PARSE_CONFIG_TRUE"
    by (simp_all add: RENDER_CONFIG_TRUE_def PARSE_CONFIG_TRUE_def flag_on_def)
  obtain s where "render_control J l PARSE_CONFIG_TRUE = Inr s"
    "parse_string J (\<lambda>l j. parse_control_doc J l j PARSE_CONFIG_TRUE) lmap_new (Some s) = Inr (0, lmap_part PARSE_CONFIG_TRUE l)"
    using document_round_trip [OF w(2) assms(1-3)] assms(4) w(1) by metis
  moreover have "parse_config_doc J = (\<lambda>l j. parse_control_doc J l j PARSE_CONFIG_TRUE)"
    by (intro ext) (simp add: parse_config_doc_def)
  ultimately show ?thesis
    using w(1) by (intro exI [of _ s]) (simp add: lmap_json_render_config_def lmap_json_parse_config_string_def)
qed

lemma config_document_round_trip_witness:
  "\<exists>s. lmap_json_render_config (demo_jsonc RENDER_CONFIG_TRUE) demo_lmap = Inr s \<and>
    lmap_json_parse_config_string (demo_jsonc RENDER_CONFIG_TRUE) lmap_new (Some s)
      = Inr (0, lmap_part PARSE_CONFIG_TRUE demo_lmap)"
  by (rule config_document_round_trip [OF demo_ok(1) demo_good demo_ok(2) demo_prints_back])

text \<open>
  C14. The state of a device rendered by lmap_json_render_state is read back by lmap_json_parse_state_string with its
  capabilities, states, counters, storage and instants.
\<close>
theorem state_document_round_trip:
  assumes "jsonc_ok J" "lmap_good (time_ok J) (PARSE_CONFIG_TRUE OR PARSE_CONFIG_FALSE) l"
    and "lmap_written (PARSE_CONFIG_TRUE OR PARSE_CONFIG_FALSE) l"
    and "prints_back J l (RENDER_CONFIG_TRUE OR RENDER_CONFIG_FALSE)"
  shows "\<exists>s. lmap_json_render_state J l = Inr s \<and>
    lmap_json_parse_state_string J lmap_new (Some s) = Inr (0, lmap_part (PARSE_CONFIG_TRUE OR PARSE_CONFIG_FALSE) l)"
proof -
  have w: "RENDER_CONFIG_TRUE OR RENDER_CONFIG_FALSE = PARSE_CONFIG_TRUE OR PARSE_CONFIG_FALSE"
    "flag_on (PARSE_CONFIG_TRUE OR PARSE_CONFIG_FALSE) PARSE_CONFIG_TRUE"
    by (simp_all add: RENDER_CONFIG_TRUE_def PARSE_CONFIG_TRUE_def RENDER_CONFIG_FALSE_def PARSE_CONFIG_FALSE_def flag_on_def)
  obtain s where "render_control J l (PARSE_CONFIG_TRUE OR PARSE_CONFIG_FALSE) = Inr s"
    "parse_string J (\<lambda>l j. parse_control_doc J l j (PARSE_CONFIG_TRUE OR PARSE_CONFIG_FALSE)) lmap_new (Some s) = Inr (0, lmap_part (PARSE_CONFIG_TRUE OR PARSE_CONFIG_FALSE) l)"
    using document_round_trip [OF w(2) assms(1-3)] assms(4) w(1) by metis
  moreover have "parse_state_doc J = (\<lambda>l j. parse_control_doc J l j (PARSE_CONFIG_TRUE OR PARSE_CONFIG_FALSE))"
    by (intro ext) (simp add: parse_state_doc_def)
  ultimately show ?thesis
    using w(1) by (intro exI [of _ s]) (simp add: lmap_json_render_state_def lmap_json_parse_state_string_def)
qed

lemma state_document_round_trip_witness:
  "\<exists>s. lmap_json_render_state (demo_jsonc (RENDER_CONFIG_TRUE OR RENDER_CONFIG_FALSE)) demo_lmap = Inr s \<and>
    lmap_json_parse_state_string (demo_jsonc (RENDER_CONFIG_TRUE OR RENDER_CONFIG_FALSE)) lmap_new (Some s)
      = Inr (0, lmap_part (PARSE_CONFIG_TRUE OR PARSE_CONFIG_FALSE) demo_lmap)"
  by (rule state_document_round_trip [OF demo_ok(1) demo_good demo_ok(2) demo_prints_back])

section \<open>Documents that are not read back\<close>

lemma parse_members_one [simp]:
  "parse_members k parse add c (JObject [(k, JArray js)]) = each_member parse add c js"
  by (simp add: parse_members_def json_object_object_get_ex_def)

lemmas doc_defs =
  parse_control_doc_def json_object_object_get_ex_def control_tab_def object_foreach_def parse_new_def jobj_handler_def
  flag_on_def entry_applies_def parse_flag_defs

definition cap_with_function :: "string \<Rightarrow> string \<Rightarrow> lmap" where
  "cap_with_function n u = lmap_new
     \<lparr>lm_capabilities := Some (lmap_capability_new
        \<lparr>cap_tasks := [lmap_task_new \<lparr>task_name := Some n, task_registries := [\<lparr>reg_uri = Some u, reg_roles = []\<rparr>]\<rparr>]\<rparr>)\<rparr>"

text \<open>An object under construction keeps its first field.\<close>

definition keeps_first :: "string \<times> json \<Rightarrow> (json \<Rightarrow> json outcome) \<Rightarrow> bool" where
  "keeps_first x f \<longleftrightarrow> (\<forall>xs j. f (JObject (x # xs)) = Inr j \<longrightarrow> (\<exists>ys. j = JObject (x # ys)))"

lemma keeps_first_members: "k \<noteq> fst x \<Longrightarrow> keeps_first x (render_members k m key render xs)"
  by (cases x)
    (auto simp: keeps_first_def render_members_def sub_object_def json_object_object_add_def obind_def split: sum.splits)

lemma keeps_first_steps: "list_all (keeps_first x) fs \<Longrightarrow> keeps_first x (steps fs)"
proof (induction fs)
  case Nil
  then show ?case by (simp add: keeps_first_def)
next
  case (Cons f fs)
  then have f: "keeps_first x f" "keeps_first x (steps fs)" by simp_all
  show ?case
    unfolding keeps_first_def
  proof (intro allI impI)
    fix xs j
    assume "steps (f # fs) (JObject (x # xs)) = Inr j"
    then obtain j' where j': "f (JObject (x # xs)) = Inr j'" "steps fs j' = Inr j"
      by (auto simp: obind_def split: sum.splits)
    then obtain ys where "j' = JObject (x # ys)" using f(1) by (auto simp: keeps_first_def)
    then show "\<exists>ys. j = JObject (x # ys)" using f(2) j'(2) by (auto simp: keeps_first_def)
  qed
qed

text \<open>
  An agent of which a configuration has nothing to say is rendered as an object without fields, and the document, whatever else it
  holds, is refused when it is read: the loop over the fields of the agent never runs and its code stays at -1.
\<close>
theorem silent_agent_unreadable:
  assumes "lm_agent l = Some a" "\<not> agent_written PARSE_CONFIG_TRUE a" "control_tree J l RENDER_CONFIG_TRUE = Inr j"
  shows "parse_config_doc J lmap_new j = Inr (-1, lmap_new\<lparr>lm_agent := Some lmap_agent_new\<rparr>)"
proof -
  have a: "render_agent_fields J a RENDER_CONFIG_TRUE (JObject []) = Inr (JObject [])"
    using assms(2) by (simp add: render_agent_fields_def agent_written_def render_leaf_def provided_def
        RENDER_CONFIG_TRUE_def RENDER_CONFIG_FALSE_def PARSE_CONFIG_TRUE_def PARSE_CONFIG_FALSE_def flag_on_def)
  define x where "x = (''agent'', JObject [])"
  have "keeps_first x (steps [render_tasks (lm_tasks l) RENDER_CONFIG_TRUE, render_schedules J (lm_schedules l) RENDER_CONFIG_TRUE,
     render_suppressions (lm_supps l) RENDER_CONFIG_TRUE, render_events J (lm_events l) RENDER_CONFIG_TRUE])"
    by (rule keeps_first_steps)
      (simp add: render_tasks_def [abs_def] render_schedules_def [abs_def] render_suppressions_def [abs_def]
        render_events_def [abs_def] keeps_first_members x_def)
  moreover have "render_capabilities cap RENDER_CONFIG_TRUE = Inr" for cap
    by (intro ext) (simp add: render_capabilities_def parse_flag_defs flag_on_def split: option.split)
  ultimately have "\<exists>ys. j = JObject [(''ietf-lmap-control:lmap'', JObject (x # ys))]"
    using assms(1,3) a
    by (auto simp: control_tree_def sub_object_def [of "''ietf-lmap-control:lmap''"] render_agent_def sub_object_def [of "''agent''"]
        json_object_object_add_def x_def keeps_first_def obind_def split: sum.splits)
  then show ?thesis
    by (auto simp: parse_config_doc_def xx_lctrl_agent_def x_def lmap_new_def doc_defs)
qed


lemma silent_agent_unreadable_witness:
  "parse_config_doc (utc_jsonc JNull) lmap_new
     (JObject [(''ietf-lmap-control:lmap'', JObject [(''agent'', JObject [])])])
     = Inr (-1, lmap_new\<lparr>lm_agent := Some lmap_agent_new\<rparr>)"
proof -
  have "control_tree (utc_jsonc JNull) (lmap_new\<lparr>lm_agent := Some lmap_agent_new\<rparr>) RENDER_CONFIG_TRUE =
    Inr (JObject [(''ietf-lmap-control:lmap'', JObject [(''agent'', JObject [])])])"
    by code_simp
  moreover have "\<not> agent_written PARSE_CONFIG_TRUE lmap_agent_new"
    by code_simp
  ultimately show ?thesis
    using silent_agent_unreadable [of "lmap_new\<lparr>lm_agent := Some lmap_agent_new\<rparr>" lmap_agent_new] by simp
qed

text \<open>
  A task of the capabilities with a function is rendered with the state, but the state cannot be read again: the
  capabilities are read without the fields of a configuration, among them the URI of the function, and a function without URI
  is refused.
\<close>
theorem capability_function_unreadable:
  "\<exists>j. control_tree J (cap_with_function n u) (RENDER_CONFIG_TRUE OR RENDER_CONFIG_FALSE) = Inr j \<and>
     parse_state_doc J lmap_new j = Inr (-1, lmap_new\<lparr>lm_capabilities := Some lmap_capability_new\<rparr>)"
proof (intro exI conjI)
  show "control_tree J (cap_with_function n u) (RENDER_CONFIG_TRUE OR RENDER_CONFIG_FALSE) =
    Inr (JObject [(''ietf-lmap-control:lmap'', JObject [(''capabilities'', JObject [(''tasks'', JObject [(''task'',
      JArray [JObject [(''name'', JString n), (''function'', JArray [JObject [(''uri'', JString u)]])]])])])])])"
    by (simp add: cap_with_function_def control_tree_def sub_object_def lmap_new_def render_agent_def
        render_capabilities_def lmap_capability_new_def render_tasks_def render_schedules_def
        render_suppressions_def render_events_def render_members_def sub_array_def render_task_def lmap_task_new_def
        render_leaf_def render_tags_def render_registries_def render_registry_def array_object_def flag_on_def
        parse_flag_defs provided_def render_options_def obind_def)
  show "parse_state_doc J lmap_new (JObject [(''ietf-lmap-control:lmap'', JObject [(''capabilities'', JObject [(''tasks'',
      JObject [(''task'',
      JArray [JObject [(''name'', JString n), (''function'', JArray [JObject [(''uri'', JString u)]])]])])])])]) =
    Inr (-1, lmap_new\<lparr>lm_capabilities := Some lmap_capability_new\<rparr>)"
    by (cases "lmap_task_set_name lmap_task_new (Some n)")
      (auto simp: parse_state_doc_def xx_lctrl_capabilities_def capability_tab_def xx_lcap_tasks_def parse_tasks_def
        parse_task_def task_tab_def xx_lt_name_def xx_lt_function_def parse_and_add_def flag_clear_def
        parse_registry_def registry_tab_def lmap_task_add_registry_def lmap_registry_new_def append_named_def
        lmap_new_def doc_defs)
qed

section \<open>Documents that crash the parser\<close>

text \<open>
  A null element in a calendar field ends the daemon, whatever was read before: json-c has no text for null, and the setters compare the null pointer with the
  star. The months are safe, as their array is one of strings.
\<close>
theorem null_calendar_element_crashes:
  assumes "k \<in> {''day-of-month'', ''day-of-week'', ''hour'', ''minute'', ''second''}"
  shows "parse_config_doc J l (JObject [(''lmap'', JObject [(''events'', JObject [(''event'',
       JArray [JObject [(''calendar'', JObject [(k, JArray (JNull # js))])]])])])]) = Inl Null_Deref"
  using assms
  by (auto simp: parse_config_doc_def xx_lctrl_events_def parse_event_def event_tab_def xx_lcee_calendar_def xx_lcee_def
      calendar_tab_def element_text_def json_object_get_string_def xx_lcec_day_of_month_def xx_lcec_day_of_week_def
      xx_lcec_hour_def xx_lcec_minute_def xx_lcec_second_def lmap_json_object_is_empty_def doc_defs)

lemma null_calendar_element_crashes_witness:
  "parse_config_doc (utc_jsonc JNull) lmap_new (JObject [(''lmap'', JObject [(''events'', JObject [(''event'',
       JArray [JObject [(''calendar'', JObject [(''hour'', JArray [JNull])])]])])])]) = Inl Null_Deref"
  by (rule null_calendar_element_crashes) simp

text \<open>
  C39. A report crashes its parser with a table whose first field has another name, because the table of
  handlers is searched past its end, and with one result that is neither an object nor null.
\<close>
theorem report_crashes:
  assumes "k \<notin> {''function'', ''column'', ''row''}" "\<And>fs. r \<noteq> JObject fs" "r \<noteq> JNull"
  shows "parse_report_doc J l (JObject [(''report'', JObject [(''result'',
      JArray (JObject [(''table'', JArray (JObject ((k, v) # kvs) # ts))] # rs))])]) = Inl Out_Of_Bounds \<and>
    parse_report_doc J l (JObject [(''report'', JObject [(''result'', JArray (r # rs))])]) = Inl Null_Deref"
  using assms
  by (simp_all add: parse_report_doc_def report_tab_def parse_report_result_def result_tab_def
      parse_report_result_table_def table_tab_def doc_defs split: json.split)

lemma report_crashes_witness:
  "parse_report_doc (utc_jsonc JNull) lmap_new (JObject [(''report'', JObject [(''result'',
      JArray [JObject [(''table'', JArray [JObject [(''name'', JString ''t'')]])]])])]) = Inl Out_Of_Bounds \<and>
   parse_report_doc (utc_jsonc JNull) lmap_new (JObject [(''report'', JObject [(''result'', JArray [JString ''r''])])])
     = Inl Null_Deref"
  using report_crashes [of "''name''" "JString ''r''" "utc_jsonc JNull" lmap_new "JString ''t''" "[]" "[]" "[]"]
  by simp

end
