(* ===== verification/Xml.thy ===== *)
theory Xml
  imports Json_Render
begin

text \<open>
  The engine of \<^verbatim>\<open>src/xml-io.c\<close>: trees of libxml2 as far as the code looks at them, the XPath expressions it evaluates, and the
  loops over tables of setters that all its parsers have in common. The flags and the texts of
  states and modes are those of the theories \<open>Json\<close> and \<open>Json_Render\<close>; the two source files define them alike.
\<close>

section \<open>Trees\<close>

text \<open>
  An element has a namespace, a name, a text and its child elements. The namespace is the pointer \<open>ns\<close>, a number for
  the declaration it points to together with the URI declared there; the code compares pointers. The text is what
  \<open>xmlNodeGetContent\<close> returns, the texts below the element put together. The code does not look at
  attributes, comments and the order of texts and elements.
\<close>

datatype xml = Elem (el_ns: "(nat \<times> string) option") (el_name: string) (el_text: string) (el_children: "xml list")

text \<open>
  The functions of the libraries: \<open>xc_parse\<close> is the root element that \<open>xmlParseFile\<close> and \<open>xmlParseMemory\<close> find in a text,
  \<open>xc_dump\<close> is \<open>xmlDocDumpFormatMemoryEnc\<close> on a document built by calls of \<open>xmlNewChild\<close> with the texts of the tree,
  and \<open>xc_strftime\<close> is \<open>strftime\<close> with the format \<^verbatim>\<open>%Y-%m-%dT%H:%M:%S%z\<close> on the local time, \<open>None\<close> when
  \<open>localtime\<close> has none.
\<close>

record xmlc =
  xc_libc :: libc
  xc_parse :: "string \<Rightarrow> xml option"
  xc_dump :: "xml \<Rightarrow> string"
  xc_strftime :: "int \<Rightarrow> string option"

definition LMAPC_XML_NAMESPACE :: string where
  "LMAPC_XML_NAMESPACE = ''urn:ietf:params:xml:ns:yang:ietf-lmap-control''"

definition LMAPR_XML_NAMESPACE :: string where
  "LMAPR_XML_NAMESPACE = ''urn:ietf:params:xml:ns:yang:ietf-lmap-report''"

section \<open>XPath\<close>

text \<open>
  The expressions of the code are of the form \<^verbatim>\<open>//p:a/p:b/p:*\<close>: a chain of parents and children in one namespace,
  anywhere in the document. Here the last step comes first and \<open>None\<close> is the star; \<open>up\<close> are the ancestors, nearest
  first. The elements found come in the order of the document.
\<close>

definition step_matches :: "string \<Rightarrow> string option \<Rightarrow> xml \<Rightarrow> bool" where
  "step_matches uri s e \<longleftrightarrow>
     (case el_ns e of None \<Rightarrow> False | Some (i, u) \<Rightarrow> u = uri) \<and> (case s of None \<Rightarrow> True | Some n \<Rightarrow> el_name e = n)"

fun path_matches :: "string \<Rightarrow> string option list \<Rightarrow> xml list \<Rightarrow> bool" where
  "path_matches uri [] es = True"
| "path_matches uri (s # ss) [] = False"
| "path_matches uri (s # ss) (e # es) = (step_matches uri s e \<and> path_matches uri ss es)"

fun xpath_from :: "string \<Rightarrow> string option list \<Rightarrow> xml list \<Rightarrow> xml \<Rightarrow> xml list" where
  "xpath_from uri path up (Elem ns n t es) =
     (if path_matches uri path (Elem ns n t es # up) then [Elem ns n t es] else [])
       @ concat (map (xpath_from uri path (Elem ns n t es # up)) es)"

definition xpath :: "string \<Rightarrow> string option list \<Rightarrow> xml \<Rightarrow> xml list" where
  "xpath uri path doc = xpath_from uri path [] doc"

section \<open>Tables of setters\<close>

text \<open>
  An entry has the name of an element, its flags and a setter. What a setter returns is not looked at: a
  value that is refused is dropped.
\<close>

type_synonym 'c xml_entry = "string \<times> flags \<times> ('c \<Rightarrow> string \<Rightarrow> (int \<times> 'c) outcome)"

definition text_setter :: "('c \<Rightarrow> string option \<Rightarrow> int \<times> 'c) \<Rightarrow> 'c \<Rightarrow> string \<Rightarrow> (int \<times> 'c) outcome" where
  "text_setter f c s = Inr (f c (Some s))"

definition plain_setter :: "('c \<Rightarrow> string \<Rightarrow> int \<times> 'c) \<Rightarrow> 'c \<Rightarrow> string \<Rightarrow> (int \<times> 'c) outcome" where
  "plain_setter f c s = Inr (f c s)"

definition tag_adder ::
  "('c \<Rightarrow> string option \<Rightarrow> (int \<times> 'c) outcome) \<Rightarrow> 'c \<Rightarrow> string \<Rightarrow> (int \<times> 'c) outcome" where
  "tag_adder f c s = f c (Some s)"

text \<open>The filter on configuration and state. An entry without flags would never apply, unlike in the JSON parsers.\<close>

definition xml_applies :: "flags \<Rightarrow> flags \<Rightarrow> bool" where
  "xml_applies what f \<longleftrightarrow>
     flag_on f YANG_KEY
     \<or> (flag_on what PARSE_CONFIG_TRUE \<and> flag_on f YANG_CONFIG_TRUE)
     \<or> (flag_on what PARSE_CONFIG_FALSE \<and> flag_on f YANG_CONFIG_FALSE)"

text \<open>The first entry that applies and has the name; an element without one is ignored.\<close>

fun xml_lookup :: "(flags \<Rightarrow> bool) \<Rightarrow> 'c xml_entry list \<Rightarrow> 'c \<Rightarrow> xml \<Rightarrow> 'c outcome" where
  "xml_lookup ap [] c e = Inr c"
| "xml_lookup ap ((n, fl, f) # tab) c e =
     (if ap fl \<and> el_name e = n then obind (f c (el_text e)) (\<lambda>(r, c'). Inr c') else xml_lookup ap tab c e)"

text \<open>
  The loop over the child elements of a node. A child in another namespace than the node, or in the same one declared
  again, is skipped.
\<close>

fun xml_children :: "(nat \<times> string) option \<Rightarrow> ('c \<Rightarrow> xml \<Rightarrow> 'c outcome) \<Rightarrow> 'c \<Rightarrow> xml list \<Rightarrow> 'c outcome" where
  "xml_children ns h c [] = Inr c"
| "xml_children ns h c (e # es) =
     (if el_ns e \<noteq> ns then xml_children ns h c es else obind (h c e) (\<lambda>c'. xml_children ns h c' es))"

definition xml_node :: "('c \<Rightarrow> xml \<Rightarrow> 'c outcome) \<Rightarrow> 'c \<Rightarrow> xml \<Rightarrow> 'c outcome" where
  "xml_node h c node = xml_children (el_ns node) h c (el_children node)"

text \<open>The loop over the nodes an XPath expression has found.\<close>

fun xml_nodes :: "('c \<Rightarrow> xml \<Rightarrow> 'c outcome) \<Rightarrow> 'c \<Rightarrow> xml list \<Rightarrow> 'c outcome" where
  "xml_nodes h c [] = Inr c"
| "xml_nodes h c (e # es) = obind (h c e) (\<lambda>c'. xml_nodes h c' es)"

text \<open>Parse a node and append what it gives, with the result of the appending function dropped.\<close>

definition xml_add :: "'a outcome \<Rightarrow> ('c \<Rightarrow> 'a \<Rightarrow> (int \<times> 'c) outcome) \<Rightarrow> 'c \<Rightarrow> 'c outcome" where
  "xml_add p add c = obind p (\<lambda>x. obind (add c x) (\<lambda>(r, c'). Inr c'))"

end
