(* ===== verification/Xml_Config.thy ===== *)
theory Xml_Config
  imports Xml
begin

text \<open>
  The parsers of \<^verbatim>\<open>src/xml-io.c\<close> for configurations and states, from \<open>parse_agent\<close> to \<open>parse_control\<close>, under their names in the
  source with the prefix \<open>xml_\<close>. The table of each parser is a definition of its own. None of them reports an error: values that
  are refused, objects without a name and duplicates are dropped.
\<close>

section \<open>Options and registries\<close>

definition xml_option_tab :: "lmap_option xml_entry list" where
  "xml_option_tab =
     [(''id'', YANG_CONFIG_TRUE, text_setter lmap_option_set_id),
      (''name'', YANG_CONFIG_TRUE, text_setter lmap_option_set_name),
      (''value'', YANG_CONFIG_TRUE, text_setter lmap_option_set_value)]"

definition xml_parse_option :: "xml \<Rightarrow> flags \<Rightarrow> lmap_option outcome" where
  "xml_parse_option node what = xml_node (xml_lookup (xml_applies what) xml_option_tab) lmap_option_new node"

definition xml_registry_tab :: "registry xml_entry list" where
  "xml_registry_tab =
     [(''uri'', YANG_CONFIG_TRUE, text_setter lmap_registry_set_uri),
      (''role'', YANG_CONFIG_TRUE, tag_adder lmap_registry_add_role)]"

definition xml_parse_registry :: "xml \<Rightarrow> flags \<Rightarrow> registry outcome" where
  "xml_parse_registry node what = xml_node (xml_lookup (xml_applies what) xml_registry_tab) lmap_registry_new node"

section \<open>Tasks\<close>

definition xml_task_tab :: "task xml_entry list" where
  "xml_task_tab =
     [(''name'', YANG_CONFIG_TRUE, text_setter lmap_task_set_name),
      (''program'', YANG_CONFIG_TRUE, text_setter lmap_task_set_program),
      (''tag'', YANG_CONFIG_TRUE, tag_adder lmap_task_add_tag)]"

definition xml_task_child :: "flags \<Rightarrow> task \<Rightarrow> xml \<Rightarrow> task outcome" where
  "xml_task_child what t e =
     (if el_name e = ''option'' then xml_add (xml_parse_option e what) lmap_task_add_option t
      else if el_name e = ''function'' then xml_add (xml_parse_registry e what) lmap_task_add_registry t
      else xml_lookup (xml_applies what) xml_task_tab t e)"

definition xml_parse_task :: "xml \<Rightarrow> flags \<Rightarrow> task outcome" where
  "xml_parse_task node what = xml_node (xml_task_child what) lmap_task_new node"

definition xml_parse_tasks :: "xml \<Rightarrow> flags \<Rightarrow> lmap \<Rightarrow> lmap outcome" where
  "xml_parse_tasks doc what l =
     xml_nodes (\<lambda>l e. xml_add (xml_parse_task e what) lmap_add_task l) l
       (xpath LMAPC_XML_NAMESPACE [Some ''task'', Some ''tasks'', Some ''lmap''] doc)"

section \<open>Capabilities\<close>

definition xml_capability_task_tab :: "task xml_entry list" where
  "xml_capability_task_tab =
     [(''name'', YANG_CONFIG_FALSE, text_setter lmap_task_set_name),
      (''version'', YANG_CONFIG_FALSE, text_setter lmap_task_set_version),
      (''program'', YANG_CONFIG_FALSE, text_setter lmap_task_set_program)]"

definition xml_capability_task_child :: "flags \<Rightarrow> task \<Rightarrow> xml \<Rightarrow> task outcome" where
  "xml_capability_task_child what t e =
     (if el_name e = ''function'' then xml_add (xml_parse_registry e what) lmap_task_add_registry t
      else xml_lookup (xml_applies what) xml_capability_task_tab t e)"

definition xml_parse_capability_task :: "xml \<Rightarrow> flags \<Rightarrow> task outcome" where
  "xml_parse_capability_task node what = xml_node (xml_capability_task_child what) lmap_task_new node"

definition the_capability :: "lmap \<Rightarrow> capability" where
  "the_capability l = (case lm_capabilities l of None \<Rightarrow> lmap_capability_new | Some c \<Rightarrow> c)"

text \<open>The capabilities exist afterwards, even when the document has none.\<close>

definition xml_parse_capability_tasks :: "xml \<Rightarrow> flags \<Rightarrow> lmap \<Rightarrow> lmap outcome" where
  "xml_parse_capability_tasks doc what l =
     obind (xml_nodes (\<lambda>c e. xml_add (xml_parse_capability_task e what) lmap_capability_add_task c) (the_capability l)
              (xpath LMAPC_XML_NAMESPACE [Some ''task'', Some ''tasks'', Some ''capabilities'', Some ''lmap''] doc))
       (\<lambda>c. Inr (l\<lparr>lm_capabilities := Some c\<rparr>))"

definition xml_capability_tab :: "capability xml_entry list" where
  "xml_capability_tab =
     [(''version'', YANG_CONFIG_FALSE, text_setter lmap_capability_set_version),
      (''tag'', YANG_CONFIG_FALSE, tag_adder lmap_capability_add_tag)]"

definition xml_capability_child :: "flags \<Rightarrow> capability \<Rightarrow> xml \<Rightarrow> capability outcome" where
  "xml_capability_child what c e =
     (if el_name e = ''tasks'' then Inr c else xml_lookup (xml_applies what) xml_capability_tab c e)"

definition xml_parse_capabilities :: "xml \<Rightarrow> flags \<Rightarrow> lmap \<Rightarrow> lmap outcome" where
  "xml_parse_capabilities doc what l =
     (case xpath LMAPC_XML_NAMESPACE [None, Some ''capabilities'', Some ''lmap''] doc of
        [] \<Rightarrow> Inr l
      | es \<Rightarrow>
          obind (xml_nodes (xml_capability_child what) (the_capability l) es)
            (\<lambda>c. Inr (l\<lparr>lm_capabilities := Some c\<rparr>)))"

section \<open>The agent\<close>

definition xml_agent_tab :: "xmlc \<Rightarrow> agent xml_entry list" where
  "xml_agent_tab X =
     [(''agent-id'', YANG_CONFIG_TRUE, text_setter lmap_agent_set_agent_id),
      (''group-id'', YANG_CONFIG_TRUE, text_setter lmap_agent_set_group_id),
      (''measurement-point'', YANG_CONFIG_TRUE, text_setter lmap_agent_set_measurement_point),
      (''report-agent-id'', YANG_CONFIG_TRUE, plain_setter lmap_agent_set_report_agent_id),
      (''report-group-id'', YANG_CONFIG_TRUE, plain_setter lmap_agent_set_report_group_id),
      (''report-measurement-point'', YANG_CONFIG_TRUE, plain_setter lmap_agent_set_report_measurement_point),
      (''controller-timeout'', YANG_CONFIG_TRUE, plain_setter lmap_agent_set_controller_timeout),
      (''last-started'', YANG_CONFIG_FALSE, plain_setter (lmap_agent_set_last_started (xc_libc X)))]"

definition the_agent :: "lmap \<Rightarrow> agent" where
  "the_agent l = (case lm_agent l of None \<Rightarrow> lmap_agent_new | Some a \<Rightarrow> a)"

definition xml_parse_agent :: "xmlc \<Rightarrow> xml \<Rightarrow> flags \<Rightarrow> lmap \<Rightarrow> lmap outcome" where
  "xml_parse_agent X doc what l =
     (case xpath LMAPC_XML_NAMESPACE [None, Some ''agent'', Some ''lmap''] doc of
        [] \<Rightarrow> Inr l
      | es \<Rightarrow>
          obind (xml_nodes (xml_lookup (xml_applies what) (xml_agent_tab X)) (the_agent l) es)
            (\<lambda>a. Inr (l\<lparr>lm_agent := Some a\<rparr>)))"

section \<open>Suppressions\<close>

definition xml_supp_tab :: "supp xml_entry list" where
  "xml_supp_tab =
     [(''name'', (YANG_CONFIG_TRUE OR YANG_KEY), text_setter lmap_supp_set_name),
      (''start'', YANG_CONFIG_TRUE, text_setter lmap_supp_set_start),
      (''end'', YANG_CONFIG_TRUE, text_setter lmap_supp_set_end),
      (''match'', YANG_CONFIG_TRUE, tag_adder lmap_supp_add_match),
      (''stop-running'', YANG_CONFIG_TRUE, plain_setter lmap_supp_set_stop_running),
      (''state'', YANG_CONFIG_FALSE, plain_setter lmap_supp_set_state)]"

definition xml_parse_suppression :: "xml \<Rightarrow> flags \<Rightarrow> supp outcome" where
  "xml_parse_suppression node what = xml_node (xml_lookup (xml_applies what) xml_supp_tab) lmap_supp_new node"

definition xml_parse_suppressions :: "xml \<Rightarrow> flags \<Rightarrow> lmap \<Rightarrow> lmap outcome" where
  "xml_parse_suppressions doc what l =
     xml_nodes (\<lambda>l e. xml_add (xml_parse_suppression e what) lmap_add_supp l) l
       (xpath LMAPC_XML_NAMESPACE [Some ''suppression'', Some ''suppressions'', Some ''lmap''] doc)"

section \<open>Events\<close>

definition xml_periodic_tab :: "xmlc \<Rightarrow> event xml_entry list" where
  "xml_periodic_tab X =
     [(''interval'', YANG_CONFIG_TRUE, plain_setter lmap_event_set_interval),
      (''start'', YANG_CONFIG_TRUE, plain_setter (lmap_event_set_start (xc_libc X))),
      (''end'', YANG_CONFIG_TRUE, plain_setter (lmap_event_set_end (xc_libc X)))]"

definition xml_parse_periodic :: "xmlc \<Rightarrow> event \<Rightarrow> xml \<Rightarrow> flags \<Rightarrow> event outcome" where
  "xml_parse_periodic X event node what = xml_node (xml_lookup (xml_applies what) (xml_periodic_tab X)) event node"

definition xml_calendar_tab :: "xmlc \<Rightarrow> event xml_entry list" where
  "xml_calendar_tab X =
     [(''month'', YANG_CONFIG_TRUE, plain_setter lmap_event_add_month),
      (''day-of-month'', YANG_CONFIG_TRUE, plain_setter lmap_event_add_day_of_month),
      (''day-of-week'', YANG_CONFIG_TRUE, plain_setter lmap_event_add_day_of_week),
      (''hour'', YANG_CONFIG_TRUE, plain_setter lmap_event_add_hour),
      (''minute'', YANG_CONFIG_TRUE, plain_setter lmap_event_add_minute),
      (''second'', YANG_CONFIG_TRUE, plain_setter lmap_event_add_second),
      (''timezone-offset'', YANG_CONFIG_TRUE, plain_setter lmap_event_set_timezone_offset),
      (''start'', YANG_CONFIG_TRUE, plain_setter (lmap_event_set_start (xc_libc X))),
      (''end'', YANG_CONFIG_TRUE, plain_setter (lmap_event_set_end (xc_libc X)))]"

definition xml_parse_calendar :: "xmlc \<Rightarrow> event \<Rightarrow> xml \<Rightarrow> flags \<Rightarrow> event outcome" where
  "xml_parse_calendar X event node what = xml_node (xml_lookup (xml_applies what) (xml_calendar_tab X)) event node"

definition xml_one_off_tab :: "xmlc \<Rightarrow> event xml_entry list" where
  "xml_one_off_tab X =
     [(''time'', YANG_CONFIG_TRUE, plain_setter (lmap_event_set_start (xc_libc X)))]"

text \<open>Here nothing is filtered.\<close>

definition xml_parse_one_off :: "xmlc \<Rightarrow> event \<Rightarrow> xml \<Rightarrow> flags \<Rightarrow> event outcome" where
  "xml_parse_one_off X event node what = xml_node (xml_lookup (\<lambda>f. True) (xml_one_off_tab X)) event node"

text \<open>
  The table of an event has a second column: the parser of the children of an element, after its setter. The setter
  \<open>lmap_event_set_type\<close> is handed the name of the element instead of its text.
\<close>

datatype event_setter = Set_Text "event \<Rightarrow> string \<Rightarrow> (int \<times> event) outcome" | Set_Type

type_synonym event_entry = "string \<times> flags \<times> event_setter \<times> (event \<Rightarrow> xml \<Rightarrow> flags \<Rightarrow> event outcome) option"

definition xml_event_tab :: "xmlc \<Rightarrow> event_entry list" where
  "xml_event_tab X =
     [(''name'', (YANG_CONFIG_TRUE OR YANG_KEY), Set_Text (text_setter lmap_event_set_name), None),
      (''random-spread'', YANG_CONFIG_TRUE, Set_Text (plain_setter lmap_event_set_random_spread), None),
      (''cycle-interval'', YANG_CONFIG_TRUE, Set_Text (plain_setter lmap_event_set_cycle_interval), None),
      (''periodic'', YANG_CONFIG_TRUE, Set_Type, Some (xml_parse_periodic X)),
      (''calendar'', YANG_CONFIG_TRUE, Set_Type, Some (xml_parse_calendar X)),
      (''one-off'', YANG_CONFIG_TRUE, Set_Type, Some (xml_parse_one_off X)),
      (''immediate'', YANG_CONFIG_TRUE, Set_Type, None),
      (''startup'', YANG_CONFIG_TRUE, Set_Type, None),
      (''controller-lost'', YANG_CONFIG_TRUE, Set_Type, None),
      (''controller-connected'', YANG_CONFIG_TRUE, Set_Type, None)]"

fun xml_event_lookup :: "flags \<Rightarrow> event_entry list \<Rightarrow> event \<Rightarrow> xml \<Rightarrow> event outcome" where
  "xml_event_lookup what [] c e = Inr c"
| "xml_event_lookup what ((n, fl, f, parse) # tab) c e =
     (if xml_applies what fl \<and> el_name e = n
      then obind (case f of Set_Type \<Rightarrow> Inr (lmap_event_set_type c (el_name e)) | Set_Text g \<Rightarrow> g c (el_text e))
             (\<lambda>(r, c'). case parse of None \<Rightarrow> Inr c' | Some p \<Rightarrow> p c' e what)
      else xml_event_lookup what tab c e)"

definition xml_parse_event :: "xmlc \<Rightarrow> xml \<Rightarrow> flags \<Rightarrow> event outcome" where
  "xml_parse_event X node what = xml_node (xml_event_lookup what (xml_event_tab X)) lmap_event_new node"

definition xml_parse_events :: "xmlc \<Rightarrow> xml \<Rightarrow> flags \<Rightarrow> lmap \<Rightarrow> lmap outcome" where
  "xml_parse_events X doc what l =
     xml_nodes (\<lambda>l e. xml_add (xml_parse_event X e what) lmap_add_event l) l
       (xpath LMAPC_XML_NAMESPACE [Some ''event'', Some ''events'', Some ''lmap''] doc)"

section \<open>Schedules\<close>

definition xml_action_tab :: "xmlc \<Rightarrow> action xml_entry list" where
  "xml_action_tab X =
     [(''name'', (YANG_CONFIG_TRUE OR YANG_KEY), text_setter lmap_action_set_name),
      (''task'', YANG_CONFIG_TRUE, text_setter lmap_action_set_task),
      (''destination'', YANG_CONFIG_TRUE, tag_adder lmap_action_add_destination),
      (''tag'', YANG_CONFIG_TRUE, tag_adder lmap_action_add_tag),
      (''suppression-tag'', YANG_CONFIG_TRUE, tag_adder lmap_action_add_suppression_tag),
      (''state'', YANG_CONFIG_FALSE, plain_setter lmap_action_set_state),
      (''storage'', YANG_CONFIG_FALSE, plain_setter lmap_action_set_storage),
      (''invocations'', YANG_CONFIG_FALSE, plain_setter lmap_action_set_invocations),
      (''suppressions'', YANG_CONFIG_FALSE, plain_setter lmap_action_set_suppressions),
      (''overlaps'', YANG_CONFIG_FALSE, plain_setter lmap_action_set_overlaps),
      (''failures'', YANG_CONFIG_FALSE, plain_setter lmap_action_set_failures),
      (''last-invocation'', YANG_CONFIG_FALSE, plain_setter (lmap_action_set_last_invocation (xc_libc X))),
      (''last-completion'', YANG_CONFIG_FALSE, plain_setter (lmap_action_set_last_completion (xc_libc X))),
      (''last-status'', YANG_CONFIG_FALSE, plain_setter lmap_action_set_last_status),
      (''last-message'', YANG_CONFIG_FALSE, text_setter lmap_action_set_last_message),
      (''last-failed-completion'', YANG_CONFIG_FALSE, plain_setter (lmap_action_set_last_failed_completion (xc_libc X))),
      (''last-failed-status'', YANG_CONFIG_FALSE, plain_setter lmap_action_set_last_failed_status),
      (''last-failed-message'', YANG_CONFIG_FALSE, text_setter lmap_action_set_last_failed_message)]"

definition xml_action_child :: "xmlc \<Rightarrow> flags \<Rightarrow> action \<Rightarrow> xml \<Rightarrow> action outcome" where
  "xml_action_child X what a e =
     (if el_name e = ''option'' then xml_add (xml_parse_option e what) lmap_action_add_option a
      else xml_lookup (xml_applies what) (xml_action_tab X) a e)"

definition xml_parse_action :: "xmlc \<Rightarrow> xml \<Rightarrow> flags \<Rightarrow> action outcome" where
  "xml_parse_action X node what = xml_node (xml_action_child X what) lmap_action_new node"

definition xml_schedule_tab :: "xmlc \<Rightarrow> schedule xml_entry list" where
  "xml_schedule_tab X =
     [(''name'', (YANG_CONFIG_TRUE OR YANG_KEY), text_setter lmap_schedule_set_name),
      (''start'', YANG_CONFIG_TRUE, text_setter lmap_schedule_set_start),
      (''end'', YANG_CONFIG_TRUE, text_setter lmap_schedule_set_end),
      (''duration'', YANG_CONFIG_TRUE, plain_setter lmap_schedule_set_duration),
      (''execution-mode'', YANG_CONFIG_TRUE, plain_setter lmap_schedule_set_exec_mode),
      (''tag'', YANG_CONFIG_TRUE, tag_adder lmap_schedule_add_tag),
      (''suppression-tag'', YANG_CONFIG_TRUE, tag_adder lmap_schedule_add_suppression_tag),
      (''state'', YANG_CONFIG_FALSE, plain_setter lmap_schedule_set_state),
      (''storage'', YANG_CONFIG_FALSE, plain_setter lmap_schedule_set_storage),
      (''invocations'', YANG_CONFIG_FALSE, plain_setter lmap_schedule_set_invocations),
      (''suppressions'', YANG_CONFIG_FALSE, plain_setter lmap_schedule_set_suppressions),
      (''overlaps'', YANG_CONFIG_FALSE, plain_setter lmap_schedule_set_overlaps),
      (''failures'', YANG_CONFIG_FALSE, plain_setter lmap_schedule_set_failures),
      (''last-invocation'', YANG_CONFIG_FALSE, plain_setter (lmap_schedule_set_last_invocation (xc_libc X)))]"

definition xml_schedule_child :: "xmlc \<Rightarrow> flags \<Rightarrow> schedule \<Rightarrow> xml \<Rightarrow> schedule outcome" where
  "xml_schedule_child X what s e =
     (if el_name e = ''action'' then xml_add (xml_parse_action X e what) lmap_schedule_add_action s
      else xml_lookup (xml_applies what) (xml_schedule_tab X) s e)"

definition xml_parse_schedule :: "xmlc \<Rightarrow> xml \<Rightarrow> flags \<Rightarrow> schedule outcome" where
  "xml_parse_schedule X node what = xml_node (xml_schedule_child X what) lmap_schedule_new node"

definition xml_parse_schedules :: "xmlc \<Rightarrow> xml \<Rightarrow> flags \<Rightarrow> lmap \<Rightarrow> lmap outcome" where
  "xml_parse_schedules X doc what l =
     xml_nodes (\<lambda>l e. xml_add (xml_parse_schedule X e what) lmap_add_schedule l) l
       (xpath LMAPC_XML_NAMESPACE [Some ''schedule'', Some ''schedules'', Some ''lmap''] doc)"

section \<open>The control document\<close>

text \<open>The table of parsers, each run on the whole document. All of them return 0.\<close>

definition xml_parse_control :: "xmlc \<Rightarrow> lmap \<Rightarrow> xml \<Rightarrow> flags \<Rightarrow> (int \<times> lmap) outcome" where
  "xml_parse_control X l doc what =
     obind (steps
              [xml_parse_capabilities doc what, xml_parse_capability_tasks doc what, xml_parse_agent X doc what,
               xml_parse_schedules X doc what, xml_parse_suppressions doc what, xml_parse_tasks doc what,
               xml_parse_events X doc what] l)
       (\<lambda>l'. Inr (0, l'))"

definition xml_parse_config_doc :: "xmlc \<Rightarrow> lmap \<Rightarrow> xml \<Rightarrow> (int \<times> lmap) outcome" where
  "xml_parse_config_doc X l doc = xml_parse_control X l doc PARSE_CONFIG_TRUE"

definition xml_parse_state_doc :: "xmlc \<Rightarrow> lmap \<Rightarrow> xml \<Rightarrow> (int \<times> lmap) outcome" where
  "xml_parse_state_doc X l doc = xml_parse_control X l doc (PARSE_CONFIG_TRUE OR PARSE_CONFIG_FALSE)"

section \<open>Reports\<close>

text \<open>The fields of a report other than its results; the flag to report an identity is set even when the identity is refused.\<close>

definition xml_report_tab :: "xmlc \<Rightarrow> agent xml_entry list" where
  "xml_report_tab X =
     [(''date'', 0, plain_setter (lmap_agent_set_report_date (xc_libc X))),
      (''agent-id'', 0, text_setter lmap_agent_set_agent_id),
      (''group-id'', 0, text_setter lmap_agent_set_group_id),
      (''measurement-point'', 0, text_setter lmap_agent_set_measurement_point)]"

definition report_flags :: "string \<Rightarrow> agent \<Rightarrow> agent" where
  "report_flags k a =
     (if k = ''agent-id'' then snd (lmap_agent_set_report_agent_id a ''true'')
      else if k = ''group-id'' then snd (lmap_agent_set_report_group_id a ''true'')
      else if k = ''measurement-point'' then snd (lmap_agent_set_report_measurement_point a ''true'')
      else a)"

definition xml_report_child :: "xmlc \<Rightarrow> agent \<Rightarrow> xml \<Rightarrow> agent outcome" where
  "xml_report_child X a e =
     (if el_name e = ''result'' then Inr a
      else xml_lookup (\<lambda>f. True) (xml_report_tab X) (report_flags (el_name e) a) e)"

definition xml_parse_report :: "xmlc \<Rightarrow> xml \<Rightarrow> lmap \<Rightarrow> lmap outcome" where
  "xml_parse_report X doc l =
     (case xpath LMAPR_XML_NAMESPACE [None, Some ''report''] doc of
        [] \<Rightarrow> Inr l
      | es \<Rightarrow> obind (xml_nodes (xml_report_child X) (the_agent l) es) (\<lambda>a. Inr (l\<lparr>lm_agent := Some a\<rparr>)))"

definition xml_parse_value :: "xml \<Rightarrow> val" where
  "xml_parse_value node = snd (lmap_value_set_value lmap_value_new (Some (el_text node)))"

definition xml_row_child :: "row \<Rightarrow> xml \<Rightarrow> row outcome" where
  "xml_row_child r e = Inr (if el_name e = ''value'' then snd (lmap_row_add_value r (xml_parse_value e)) else r)"

definition xml_parse_row :: "xml \<Rightarrow> row outcome" where
  "xml_parse_row node = xml_node xml_row_child lmap_row_new node"

definition xml_table_child :: "table \<Rightarrow> xml \<Rightarrow> table outcome" where
  "xml_table_child t e =
     (if el_name e = ''row'' then xml_add (xml_parse_row e) (\<lambda>t r. Inr (lmap_table_add_row t r)) t
      else if el_name e = ''column'' then Inr (snd (lmap_table_add_column t (Some (el_text e))))
      else if el_name e = ''function'' then xml_add (xml_parse_registry e PARSE_CONFIG_TRUE) lmap_table_add_registry t
      else Inr t)"

definition xml_parse_table :: "xml \<Rightarrow> table outcome" where
  "xml_parse_table node = xml_node xml_table_child lmap_table_new node"

definition xml_result_tab :: "xmlc \<Rightarrow> result xml_entry list" where
  "xml_result_tab X =
     [(''schedule'', 0, text_setter lmap_result_set_schedule),
      (''action'', 0, text_setter lmap_result_set_action),
      (''task'', 0, text_setter lmap_result_set_task),
      (''tag'', 0, tag_adder lmap_result_add_tag),
      (''event'', 0, plain_setter (lmap_result_set_event (xc_libc X))),
      (''start'', 0, plain_setter (lmap_result_set_start (xc_libc X))),
      (''end'', 0, plain_setter (lmap_result_set_end (xc_libc X))),
      (''cycle-number'', 0, text_setter lmap_result_set_cycle_number),
      (''status'', 0, plain_setter lmap_result_set_status)]"

definition xml_result_child :: "xmlc \<Rightarrow> result \<Rightarrow> xml \<Rightarrow> result outcome" where
  "xml_result_child X r e =
     (if el_name e = ''option''
      then xml_add (xml_parse_option e (PARSE_CONFIG_TRUE OR PARSE_CONFIG_FALSE)) lmap_result_add_option r
      else if el_name e = ''table'' then xml_add (xml_parse_table e) (\<lambda>r t. Inr (lmap_result_add_table r t)) r
      else xml_lookup (\<lambda>f. True) (xml_result_tab X) r e)"

definition xml_parse_result :: "xmlc \<Rightarrow> xml \<Rightarrow> result outcome" where
  "xml_parse_result X node = xml_node (xml_result_child X) lmap_result_new node"

definition xml_parse_results :: "xmlc \<Rightarrow> xml \<Rightarrow> lmap \<Rightarrow> lmap outcome" where
  "xml_parse_results X doc l =
     xml_nodes (\<lambda>l e. xml_add (xml_parse_result X e) (\<lambda>l r. Inr (lmap_add_result l r)) l) l
       (xpath LMAPR_XML_NAMESPACE [Some ''result'', Some ''report''] doc)"

definition xml_parse_report_doc :: "xmlc \<Rightarrow> lmap \<Rightarrow> xml \<Rightarrow> (int \<times> lmap) outcome" where
  "xml_parse_report_doc X l doc =
     obind (steps [xml_parse_report X doc, xml_parse_results X doc] l) (\<lambda>l'. Inr (0, l'))"

end
