(* ===== verification/Xml_Render.thy ===== *)
theory Xml_Render
  imports Xml
begin

text \<open>
  The renderers of \<^verbatim>\<open>src/xml-io.c\<close>, from \<open>render_leaf\<close> to \<open>lmap_xml_render_report\<close>, under their names in the source with the
  prefix \<open>xml_\<close>. The code adds children to a node; here a renderer returns the children it adds, in their order.
\<close>

section \<open>Adding children\<close>

type_synonym ns = "(nat \<times> string) option"

fun xml_all :: "xml list outcome list \<Rightarrow> xml list outcome" where
  "xml_all [] = Inr []"
| "xml_all (f # fs) = obind f (\<lambda>es. obind (xml_all fs) (\<lambda>es'. Inr (es @ es')))"

definition xml_when :: "bool \<Rightarrow> xml list outcome \<Rightarrow> xml list outcome" where
  "xml_when b f = (if b then f else Inr [])"

definition xml_new_child :: "ns \<Rightarrow> string \<Rightarrow> xml list outcome \<Rightarrow> xml list outcome" where
  "xml_new_child ns k f = obind f (\<lambda>es. Inr [Elem ns k [] es])"

section \<open>Leaves\<close>

definition xml_render_leaf :: "ns \<Rightarrow> string \<Rightarrow> string option \<Rightarrow> xml list outcome" where
  "xml_render_leaf ns k content = Inr (case content of None \<Rightarrow> [] | Some s \<Rightarrow> [Elem ns k s []])"

definition xml_render_leaf_int32 :: "ns \<Rightarrow> string \<Rightarrow> int \<Rightarrow> xml list outcome" where
  "xml_render_leaf_int32 ns k i = xml_render_leaf ns k (Some (dec_int i))"

definition xml_render_leaf_uint32 :: "ns \<Rightarrow> string \<Rightarrow> 32 word \<Rightarrow> xml list outcome" where
  "xml_render_leaf_uint32 ns k w = xml_render_leaf ns k (Some (dec (unat w)))"

definition xml_render_leaf_uint64 :: "ns \<Rightarrow> string \<Rightarrow> 64 word \<Rightarrow> xml list outcome" where
  "xml_render_leaf_uint64 ns k w = xml_render_leaf ns k (Some (dec (unat w)))"

definition xml_render_leaf_datetime :: "xmlc \<Rightarrow> ns \<Rightarrow> string \<Rightarrow> int \<Rightarrow> xml list outcome" where
  "xml_render_leaf_datetime X ns k t =
     (case xc_strftime X t of
        None \<Rightarrow> Inl Null_Deref
      | Some buf \<Rightarrow> xml_render_leaf ns k (Some (insert_colon buf)))"

text \<open>The five renderers of bit sets: a star for all bits, otherwise one element for each bit of a table or of a range.\<close>

definition xml_render_bits ::
  "ns \<Rightarrow> string \<Rightarrow> 'w::len word \<Rightarrow> (nat \<Rightarrow> xml list outcome) \<Rightarrow> nat list \<Rightarrow> xml list outcome" where
  "xml_render_bits ns k w element idx =
     (if w = -1 then xml_render_leaf ns k (Some ''*'')
      else xml_all (map (\<lambda>i. xml_when (w AND push_bit i 1 \<noteq> 0) (element i)) idx))"

definition xml_render_leaf_months :: "ns \<Rightarrow> string \<Rightarrow> 16 word \<Rightarrow> xml list outcome" where
  "xml_render_leaf_months ns k w =
     xml_render_bits ns k w (\<lambda>i. xml_render_leaf ns k (Some (json_month_tab ! i))) [0..<length json_month_tab]"

definition xml_render_leaf_days_of_month :: "ns \<Rightarrow> string \<Rightarrow> 32 word \<Rightarrow> xml list outcome" where
  "xml_render_leaf_days_of_month ns k w =
     xml_render_bits ns k w (\<lambda>i. xml_render_leaf_int32 ns k (int i)) [1..<32]"

definition xml_render_leaf_days_of_week :: "ns \<Rightarrow> string \<Rightarrow> 8 word \<Rightarrow> xml list outcome" where
  "xml_render_leaf_days_of_week ns k w =
     xml_render_bits ns k w (\<lambda>i. xml_render_leaf ns k (Some (json_day_tab ! i))) [0..<length json_day_tab]"

definition xml_render_leaf_hours :: "ns \<Rightarrow> string \<Rightarrow> 32 word \<Rightarrow> xml list outcome" where
  "xml_render_leaf_hours ns k w = xml_render_bits ns k w (\<lambda>i. xml_render_leaf_int32 ns k (int i)) [0..<24]"

definition xml_render_leaf_minsecs :: "ns \<Rightarrow> string \<Rightarrow> 64 word \<Rightarrow> xml list outcome" where
  "xml_render_leaf_minsecs ns k w = xml_render_bits ns k w (\<lambda>i. xml_render_leaf_int32 ns k (int i)) [0..<60]"

text \<open>The loops over tags and options that the renderers share.\<close>

definition xml_render_tags :: "ns \<Rightarrow> string \<Rightarrow> tag list \<Rightarrow> xml list outcome" where
  "xml_render_tags ns k ts = xml_all (map (xml_render_leaf ns k) ts)"

definition xml_render_registry :: "ns \<Rightarrow> registry \<Rightarrow> xml list outcome" where
  "xml_render_registry ns g =
     xml_new_child ns ''function''
       (xml_all [xml_render_leaf ns ''uri'' (reg_uri g), xml_render_tags ns ''role'' (reg_roles g)])"

definition xml_render_option :: "ns \<Rightarrow> lmap_option \<Rightarrow> xml list outcome" where
  "xml_render_option ns p =
     xml_new_child ns ''option''
       (xml_all [xml_render_leaf ns ''id'' (opt_id p), xml_render_leaf ns ''name'' (opt_name p),
                 xml_render_leaf ns ''value'' (opt_value p)])"

definition xml_render_options :: "ns \<Rightarrow> lmap_option list \<Rightarrow> xml list outcome" where
  "xml_render_options ns ps = xml_all (map (xml_render_option ns) ps)"

definition xml_truth :: "int \<Rightarrow> string" where
  "xml_truth i = (if i \<noteq> 0 then ''true'' else ''false'')"

section \<open>Configuration and state\<close>

definition xml_render_agent_fields :: "xmlc \<Rightarrow> ns \<Rightarrow> agent \<Rightarrow> flags \<Rightarrow> xml list outcome" where
  "xml_render_agent_fields X ns a what =
     xml_all
       [xml_when (flag_on what RENDER_CONFIG_TRUE)
          (xml_all
             [xml_render_leaf ns ''agent-id'' (ag_agent_id a), xml_render_leaf ns ''group-id'' (ag_group_id a),
              xml_render_leaf ns ''measurement-point'' (ag_measurement_point a),
              xml_when (flag_on (ag_flags a) LMAP_AGENT_FLAG_REPORT_AGENT_ID_SET)
                (xml_render_leaf ns ''report-agent-id'' (Some (xml_truth (ag_report_agent_id a)))),
              xml_when (flag_on (ag_flags a) LMAP_AGENT_FLAG_REPORT_GROUP_ID_SET)
                (xml_render_leaf ns ''report-group-id'' (Some (xml_truth (ag_report_group_id a)))),
              xml_when (flag_on (ag_flags a) LMAP_AGENT_FLAG_REPORT_MEASUREMENT_POINT_SET)
                (xml_render_leaf ns ''report-measurement-point'' (Some (xml_truth (ag_report_measurement_point a)))),
              xml_when (flag_on (ag_flags a) LMAP_AGENT_FLAG_CONTROLLER_TIMEOUT_SET)
                (xml_render_leaf_uint32 ns ''controller-timeout'' (ag_controller_timeout a))]),
        xml_when (flag_on what RENDER_CONFIG_FALSE \<and> ag_last_started a \<noteq> 0)
          (xml_render_leaf_datetime X ns ''last-started'' (ag_last_started a))]"

definition xml_render_agent :: "xmlc \<Rightarrow> ns \<Rightarrow> agent option \<Rightarrow> flags \<Rightarrow> xml list outcome" where
  "xml_render_agent X ns ag what =
     (case ag of None \<Rightarrow> Inr [] | Some a \<Rightarrow> xml_new_child ns ''agent'' (xml_render_agent_fields X ns a what))"

definition xml_render_action_fields :: "xmlc \<Rightarrow> ns \<Rightarrow> action \<Rightarrow> flags \<Rightarrow> xml list outcome" where
  "xml_render_action_fields X ns a what =
     xml_all
       [xml_render_leaf ns ''name'' (act_name a),
        xml_when (flag_on what RENDER_CONFIG_TRUE)
          (xml_all
             [xml_render_leaf ns ''task'' (act_task a), xml_render_tags ns ''destination'' (act_destinations a),
              xml_render_options ns (act_options a), xml_render_tags ns ''tag'' (act_tags a),
              xml_render_tags ns ''suppression-tag'' (act_suppression_tags a)]),
        xml_when (flag_on what RENDER_CONFIG_FALSE)
          (xml_all
             [xml_render_leaf ns ''state'' (Some (run_state_text (act_state a))),
              xml_render_leaf_uint64 ns ''storage'' (act_storage a),
              xml_render_leaf_uint32 ns ''invocations'' (act_cnt_invocations a),
              xml_render_leaf_uint32 ns ''suppressions'' (act_cnt_suppressions a),
              xml_render_leaf_uint32 ns ''overlaps'' (act_cnt_overlaps a),
              xml_render_leaf_uint32 ns ''failures'' (act_cnt_failures a),
              xml_when (act_last_invocation a \<noteq> 0)
                (xml_render_leaf_datetime X ns ''last-invocation'' (act_last_invocation a)),
              xml_when (act_last_completion a \<noteq> 0)
                (xml_all
                   [xml_render_leaf_datetime X ns ''last-completion'' (act_last_completion a),
                    xml_render_leaf_int32 ns ''last-status'' (act_last_status a),
                    xml_render_leaf ns ''last-message'' (act_last_message a)]),
              xml_when (act_last_failed_completion a \<noteq> 0)
                (xml_all
                   [xml_render_leaf_datetime X ns ''last-failed-completion'' (act_last_failed_completion a),
                    xml_render_leaf_int32 ns ''last-failed-status'' (act_last_failed_status a),
                    xml_render_leaf ns ''last-failed-message'' (act_last_failed_message a)])])]"

definition xml_render_action :: "xmlc \<Rightarrow> ns \<Rightarrow> flags \<Rightarrow> action \<Rightarrow> xml list outcome" where
  "xml_render_action X ns what a = xml_new_child ns ''action'' (xml_render_action_fields X ns a what)"

text \<open>The body of the loop of \<open>render_schedules\<close>.\<close>

definition xml_render_schedule_fields :: "xmlc \<Rightarrow> ns \<Rightarrow> schedule \<Rightarrow> flags \<Rightarrow> xml list outcome" where
  "xml_render_schedule_fields X ns s what =
     xml_all
       [xml_render_leaf ns ''name'' (sched_name s),
        xml_when (flag_on what RENDER_CONFIG_TRUE)
          (xml_all
             [xml_render_leaf ns ''start'' (sched_start s),
              xml_when (flag_on (sched_flags s) LMAP_SCHEDULE_FLAG_END_SET) (xml_render_leaf ns ''end'' (sched_end s)),
              xml_when (flag_on (sched_flags s) LMAP_SCHEDULE_FLAG_DURATION_SET)
                (xml_render_leaf_uint64 ns ''duration'' (sched_duration s)),
              xml_when (flag_on (sched_flags s) LMAP_SCHEDULE_FLAG_EXEC_MODE_SET)
                (xml_render_leaf ns ''execution-mode'' (Some (exec_mode_text (sched_mode s)))),
              xml_render_tags ns ''tag'' (sched_tags s),
              xml_render_tags ns ''suppression-tag'' (sched_suppression_tags s)]),
        xml_when (flag_on what RENDER_CONFIG_FALSE)
          (xml_all
             [xml_render_leaf ns ''state'' (Some (run_state_text (sched_state s))),
              xml_render_leaf_uint64 ns ''storage'' (sched_storage s),
              xml_render_leaf_uint32 ns ''invocations'' (sched_cnt_invocations s),
              xml_render_leaf_uint32 ns ''suppressions'' (sched_cnt_suppressions s),
              xml_render_leaf_uint32 ns ''overlaps'' (sched_cnt_overlaps s),
              xml_render_leaf_uint32 ns ''failures'' (sched_cnt_failures s),
              xml_when (sched_last_invocation s \<noteq> 0)
                (xml_render_leaf_datetime X ns ''last-invocation'' (sched_last_invocation s))]),
        xml_all (map (xml_render_action X ns what) (sched_actions s))]"

text \<open>The loops that put the members of a list below an element of their own.\<close>

definition xml_render_members :: "ns \<Rightarrow> string \<Rightarrow> string \<Rightarrow> ('a \<Rightarrow> xml list outcome) \<Rightarrow> 'a list \<Rightarrow> xml list outcome" where
  "xml_render_members ns k member f xs =
     (if xs = [] then Inr [] else xml_new_child ns k (xml_all (map (\<lambda>x. xml_new_child ns member (f x)) xs)))"

definition xml_render_schedules :: "xmlc \<Rightarrow> ns \<Rightarrow> schedule list \<Rightarrow> flags \<Rightarrow> xml list outcome" where
  "xml_render_schedules X ns ss what =
     xml_render_members ns ''schedules'' ''schedule'' (\<lambda>s. xml_render_schedule_fields X ns s what) ss"

definition xml_render_suppression_fields :: "ns \<Rightarrow> supp \<Rightarrow> flags \<Rightarrow> xml list outcome" where
  "xml_render_suppression_fields ns s what =
     xml_all
       [xml_render_leaf ns ''name'' (supp_name s),
        xml_when (flag_on what RENDER_CONFIG_TRUE)
          (xml_all
             [xml_render_leaf ns ''start'' (supp_start s), xml_render_leaf ns ''end'' (supp_end s),
              xml_render_tags ns ''match'' (supp_match s),
              xml_when (flag_on (supp_flags s) LMAP_SUPP_FLAG_STOP_RUNNING_SET)
                (xml_render_leaf ns ''stop-running'' (Some (xml_truth (supp_stop_running s))))]),
        xml_when (flag_on what RENDER_CONFIG_FALSE)
          (xml_render_leaf ns ''state'' (Some (supp_state_text (supp_state s))))]"

definition xml_render_suppressions :: "ns \<Rightarrow> supp list \<Rightarrow> flags \<Rightarrow> xml list outcome" where
  "xml_render_suppressions ns ss what =
     xml_render_members ns ''suppressions'' ''suppression'' (\<lambda>s. xml_render_suppression_fields ns s what) ss"

definition xml_render_task_fields :: "ns \<Rightarrow> task \<Rightarrow> flags \<Rightarrow> xml list outcome" where
  "xml_render_task_fields ns t what =
     xml_all
       [xml_render_leaf ns ''name'' (task_name t), xml_all (map (xml_render_registry ns) (task_registries t)),
        xml_when (flag_on what RENDER_CONFIG_FALSE) (xml_render_leaf ns ''version'' (task_version t)),
        xml_render_leaf ns ''program'' (task_program t),
        xml_when (flag_on what RENDER_CONFIG_TRUE)
          (xml_all [xml_render_options ns (task_options t), xml_render_tags ns ''tag'' (task_tags t)])]"

definition xml_render_tasks :: "ns \<Rightarrow> task list \<Rightarrow> flags \<Rightarrow> xml list outcome" where
  "xml_render_tasks ns ts what = xml_render_members ns ''tasks'' ''task'' (\<lambda>t. xml_render_task_fields ns t what) ts"

definition xml_render_capabilities :: "ns \<Rightarrow> capability option \<Rightarrow> flags \<Rightarrow> xml list outcome" where
  "xml_render_capabilities ns cap what =
     (case cap of
        None \<Rightarrow> Inr []
      | Some c \<Rightarrow>
          if \<not> flag_on what RENDER_CONFIG_FALSE then Inr []
          else if cap_version c = None \<and> cap_tags c = [] \<and> cap_tasks c = [] then Inr []
          else xml_new_child ns ''capabilities''
                 (xml_all
                    [xml_render_leaf ns ''version'' (cap_version c), xml_render_tags ns ''tag'' (cap_tags c),
                     xml_render_tasks ns (cap_tasks c) what]))"

definition xml_render_event_type :: "xmlc \<Rightarrow> ns \<Rightarrow> event \<Rightarrow> xml list outcome" where
  "xml_render_event_type X ns e =
     (let start = xml_when (flag_on (ev_flags e) LMAP_EVENT_FLAG_START_SET)
                    (xml_render_leaf_datetime X ns ''start'' (ev_start e));
          stop = xml_when (flag_on (ev_flags e) LMAP_EVENT_FLAG_END_SET)
                   (xml_render_leaf_datetime X ns ''end'' (ev_end e))
      in case ev_type e of
           Periodic \<Rightarrow>
             xml_new_child ns ''periodic''
               (xml_all
                  [xml_when (flag_on (ev_flags e) LMAP_EVENT_FLAG_INTERVAL_SET)
                     (xml_render_leaf_uint32 ns ''interval'' (ev_interval e)), start, stop])
         | Calendar \<Rightarrow>
             xml_new_child ns ''calendar''
               (xml_all
                  [xml_when (ev_months e \<noteq> 0) (xml_render_leaf_months ns ''month'' (ev_months e)),
                   xml_when (ev_days_of_month e \<noteq> 0)
                     (xml_render_leaf_days_of_month ns ''day-of-month'' (ev_days_of_month e)),
                   xml_when (ev_days_of_week e \<noteq> 0)
                     (xml_render_leaf_days_of_week ns ''day-of-week'' (ev_days_of_week e)),
                   xml_when (ev_hours e \<noteq> 0) (xml_render_leaf_hours ns ''hour'' (ev_hours e)),
                   xml_when (ev_minutes e \<noteq> 0) (xml_render_leaf_minsecs ns ''minute'' (ev_minutes e)),
                   xml_when (ev_seconds e \<noteq> 0) (xml_render_leaf_minsecs ns ''second'' (ev_seconds e)),
                   xml_when (flag_on (ev_flags e) LMAP_EVENT_FLAG_TIMEZONE_OFFSET_SET)
                     (xml_render_leaf ns ''timezone-offset'' (Some (timezone_text (ev_timezone_offset e)))),
                   start, stop])
         | One_Off \<Rightarrow>
             xml_new_child ns ''one-off''
               (xml_when (flag_on (ev_flags e) LMAP_EVENT_FLAG_START_SET)
                  (xml_render_leaf_datetime X ns ''time'' (ev_start e)))
         | Startup \<Rightarrow> xml_render_leaf ns ''startup'' (Some [])
         | Immediate \<Rightarrow> xml_render_leaf ns ''immediate'' (Some [])
         | Controller_Lost \<Rightarrow> xml_render_leaf ns ''controller-lost'' (Some [])
         | Controller_Connected \<Rightarrow> xml_render_leaf ns ''controller-connected'' (Some [])
         | No_Type \<Rightarrow> Inr [])"

definition xml_render_event_fields :: "xmlc \<Rightarrow> ns \<Rightarrow> event \<Rightarrow> flags \<Rightarrow> xml list outcome" where
  "xml_render_event_fields X ns e what =
     xml_all
       [xml_render_leaf ns ''name'' (ev_name e),
        xml_when (flag_on what RENDER_CONFIG_TRUE)
          (xml_all
             [xml_when (flag_on (ev_flags e) LMAP_EVENT_FLAG_RANDOM_SPREAD_SET)
                (xml_render_leaf_uint32 ns ''random-spread'' (ev_random_spread e)),
              xml_when (flag_on (ev_flags e) LMAP_EVENT_FLAG_CYCLE_INTERVAL_SET)
                (xml_render_leaf_uint32 ns ''cycle-interval'' (ev_cycle_interval e)),
              xml_render_event_type X ns e])]"

definition xml_render_events :: "xmlc \<Rightarrow> ns \<Rightarrow> event list \<Rightarrow> flags \<Rightarrow> xml list outcome" where
  "xml_render_events X ns es what =
     xml_render_members ns ''events'' ''event'' (\<lambda>e. xml_render_event_fields X ns e what) es"

text \<open>
  The document: a root without namespace that declares the one of all other elements, which is the declaration number 0.
\<close>

definition lmapc_ns :: ns where
  "lmapc_ns = Some (0, LMAPC_XML_NAMESPACE)"

definition xml_control_tree :: "xmlc \<Rightarrow> lmap \<Rightarrow> flags \<Rightarrow> xml outcome" where
  "xml_control_tree X l what =
     obind
       (xml_new_child lmapc_ns ''lmap''
          (xml_all
             [xml_render_capabilities lmapc_ns (lm_capabilities l) what,
              xml_render_agent X lmapc_ns (lm_agent l) what, xml_render_tasks lmapc_ns (lm_tasks l) what,
              xml_render_schedules X lmapc_ns (lm_schedules l) what,
              xml_render_suppressions lmapc_ns (lm_supps l) what, xml_render_events X lmapc_ns (lm_events l) what]))
       (\<lambda>es. Inr (Elem None (if flag_on what RENDER_CONFIG_FALSE then ''data'' else ''config'') [] es))"

definition xml_render_control :: "xmlc \<Rightarrow> lmap \<Rightarrow> flags \<Rightarrow> string outcome" where
  "xml_render_control X l what = obind (xml_control_tree X l what) (\<lambda>t. Inr (xc_dump X t))"

definition lmap_xml_render_config :: "xmlc \<Rightarrow> lmap \<Rightarrow> string outcome" where
  "lmap_xml_render_config X l = xml_render_control X l RENDER_CONFIG_TRUE"

definition lmap_xml_render_state :: "xmlc \<Rightarrow> lmap \<Rightarrow> string outcome" where
  "lmap_xml_render_state X l = xml_render_control X l (RENDER_CONFIG_TRUE OR RENDER_CONFIG_FALSE)"

section \<open>Reports\<close>

definition xml_render_agent_report :: "xmlc \<Rightarrow> ns \<Rightarrow> agent option \<Rightarrow> xml list outcome" where
  "xml_render_agent_report X ns ag =
     (case ag of
        None \<Rightarrow> Inr []
      | Some a \<Rightarrow>
          xml_all
            [xml_render_leaf_datetime X ns ''date'' (ag_report_date a),
             xml_when (ag_agent_id a \<noteq> None \<and> ag_report_agent_id a \<noteq> 0)
               (xml_render_leaf ns ''agent-id'' (ag_agent_id a)),
             xml_when (ag_group_id a \<noteq> None \<and> ag_report_group_id a \<noteq> 0)
               (xml_render_leaf ns ''group-id'' (ag_group_id a)),
             xml_when (ag_measurement_point a \<noteq> None \<and> ag_report_measurement_point a \<noteq> 0)
               (xml_render_leaf ns ''measurement-point'' (ag_measurement_point a))])"

definition xml_render_value :: "ns \<Rightarrow> string \<Rightarrow> val \<Rightarrow> xml list outcome" where
  "xml_render_value ns k v = xml_render_leaf ns k (Some (case v of None \<Rightarrow> [] | Some s \<Rightarrow> s))"

definition xml_render_row :: "ns \<Rightarrow> row \<Rightarrow> xml list outcome" where
  "xml_render_row ns r = xml_new_child ns ''row'' (xml_all (map (xml_render_value ns ''value'') (row_values r)))"

definition xml_render_table :: "ns \<Rightarrow> table \<Rightarrow> xml list outcome" where
  "xml_render_table ns t =
     xml_new_child ns ''table''
       (xml_all
          [xml_all (map (xml_render_registry ns) (tab_registries t)),
           xml_all (map (xml_render_value ns ''column'') (tab_columns t)),
           xml_all (map (xml_render_row ns) (tab_rows t))])"

definition xml_render_result :: "xmlc \<Rightarrow> ns \<Rightarrow> result \<Rightarrow> xml list outcome" where
  "xml_render_result X ns r =
     xml_new_child ns ''result''
       (xml_all
          [xml_render_leaf ns ''schedule'' (res_schedule r), xml_render_leaf ns ''action'' (res_action r),
           xml_render_leaf ns ''task'' (res_task r), xml_render_options ns (res_options r),
           xml_render_tags ns ''tag'' (res_tags r),
           xml_when (res_event r \<noteq> 0) (xml_render_leaf_datetime X ns ''event'' (res_event r)),
           xml_when (res_start r \<noteq> 0) (xml_render_leaf_datetime X ns ''start'' (res_start r)),
           xml_when (res_end r \<noteq> 0) (xml_render_leaf_datetime X ns ''end'' (res_end r)),
           xml_render_leaf ns ''cycle-number'' (res_cycle_number r),
           xml_when (flag_on (res_flags r) LMAP_RESULT_FLAG_STATUS_SET)
             (xml_render_leaf_int32 ns ''status'' (res_status r)),
           xml_all (map (xml_render_table ns) (res_tables r))])"

definition lmapr_ns :: ns where
  "lmapr_ns = Some (0, LMAPR_XML_NAMESPACE)"

definition xml_report_tree :: "xmlc \<Rightarrow> lmap \<Rightarrow> xml outcome" where
  "xml_report_tree X l =
     obind
       (xml_new_child lmapr_ns ''report''
          (xml_all
             [xml_render_agent_report X lmapr_ns (lm_agent l),
              xml_all (map (xml_render_result X lmapr_ns) (lm_results l))]))
       (\<lambda>es. Inr (Elem None ''rpc'' [] es))"

definition lmap_xml_render_report :: "xmlc \<Rightarrow> lmap \<Rightarrow> string outcome" where
  "lmap_xml_render_report X l = obind (xml_report_tree X l) (\<lambda>t. Inr (xc_dump X t))"

end
