(* ===== verification/Xml_Files.thy ===== *)
theory Xml_Files
  imports Xml_Config Xml_Render Json_Files
begin

text \<open>
  The reading of documents in \<^verbatim>\<open>src/xml-io.c\<close>: files, directories and strings, the entry points \<open>lmap_xml_parse_...\<close>.
\<close>

text \<open>\<open>xmlParseFile\<close>: a file that cannot be read or is not well-formed gives no document.\<close>

definition xml_parse_file ::
  "xmlc \<Rightarrow> refusals \<Rightarrow> fs \<Rightarrow> (lmap \<Rightarrow> xml \<Rightarrow> (int \<times> lmap) outcome) \<Rightarrow> file_parser" where
  "xml_parse_file X R fs parse l file =
     (case file_contents R fs file of
        None \<Rightarrow> Inr (-1, l)
      | Some s \<Rightarrow> (case xc_parse X s of None \<Rightarrow> Inr (-1, l) | Some doc \<Rightarrow> parse l doc))"

definition INT_MAX :: nat where
  "INT_MAX = 2147483647"

definition xml_parse_string ::
  "xmlc \<Rightarrow> (lmap \<Rightarrow> xml \<Rightarrow> (int \<times> lmap) outcome) \<Rightarrow> lmap \<Rightarrow> string \<Rightarrow> (int \<times> lmap) outcome" where
  "xml_parse_string X parse l s =
     (if INT_MAX < length s then Inr (-1, l)
      else case xc_parse X s of None \<Rightarrow> Inr (-1, l) | Some doc \<Rightarrow> parse l doc)"

definition xml_name :: "string \<Rightarrow> bool" where
  "xml_name n \<longleftrightarrow> 5 \<le> length n \<and> n ! 0 \<noteq> CHR ''.'' \<and> drop (length n - 4) n = ''.xml''"

fun xml_path_loop :: "file_parser \<Rightarrow> string \<Rightarrow> lmap \<Rightarrow> string list \<Rightarrow> (int \<times> lmap) outcome" where
  "xml_path_loop cb path l [] = Inr (0, l)"
| "xml_path_loop cb path l (n # ns) =
     (if \<not> xml_name n then xml_path_loop cb path l ns
      else obind (cb l (path_buf (join path n)))
             (\<lambda>(r, l'). if r < 0 then Inr (-1, l') else xml_path_loop cb path l' ns))"

text \<open>The body that \<open>lmap_xml_parse_config_path\<close> and \<open>lmap_xml_parse_state_path\<close> have in common.\<close>

definition xml_parse_path :: "file_parser \<Rightarrow> refusals \<Rightarrow> fs \<Rightarrow> string \<Rightarrow> lmap \<Rightarrow> (int \<times> lmap) outcome" where
  "xml_parse_path cb R fs path l =
     (case opendir R fs path of
        Some ns \<Rightarrow> xml_path_loop cb path l ns
      | None \<Rightarrow>
          if \<not> R (Opendir path)
             \<and> (case split_path path of (d, n) \<Rightarrow> lookup fs d n \<noteq> None \<and> lookup fs d n \<noteq> Some Directory)
          then cb l path
          else Inr (-1, l))"

definition lmap_xml_parse_config_file :: "xmlc \<Rightarrow> refusals \<Rightarrow> fs \<Rightarrow> file_parser" where
  "lmap_xml_parse_config_file X R fs = xml_parse_file X R fs (xml_parse_config_doc X)"

definition lmap_xml_parse_config_path :: "xmlc \<Rightarrow> refusals \<Rightarrow> fs \<Rightarrow> file_parser" where
  "lmap_xml_parse_config_path X R fs l path = xml_parse_path (lmap_xml_parse_config_file X R fs) R fs path l"

definition lmap_xml_parse_config_string :: "xmlc \<Rightarrow> lmap \<Rightarrow> string \<Rightarrow> (int \<times> lmap) outcome" where
  "lmap_xml_parse_config_string X = xml_parse_string X (xml_parse_config_doc X)"

definition lmap_xml_parse_state_file :: "xmlc \<Rightarrow> refusals \<Rightarrow> fs \<Rightarrow> file_parser" where
  "lmap_xml_parse_state_file X R fs = xml_parse_file X R fs (xml_parse_state_doc X)"

definition lmap_xml_parse_state_path :: "xmlc \<Rightarrow> refusals \<Rightarrow> fs \<Rightarrow> file_parser" where
  "lmap_xml_parse_state_path X R fs l path = xml_parse_path (lmap_xml_parse_state_file X R fs) R fs path l"

definition lmap_xml_parse_state_string :: "xmlc \<Rightarrow> lmap \<Rightarrow> string \<Rightarrow> (int \<times> lmap) outcome" where
  "lmap_xml_parse_state_string X = xml_parse_string X (xml_parse_state_doc X)"

definition lmap_xml_parse_report_file :: "xmlc \<Rightarrow> refusals \<Rightarrow> fs \<Rightarrow> file_parser" where
  "lmap_xml_parse_report_file X R fs = xml_parse_file X R fs (xml_parse_report_doc X)"

definition lmap_xml_parse_report_string :: "xmlc \<Rightarrow> lmap \<Rightarrow> string \<Rightarrow> (int \<times> lmap) outcome" where
  "lmap_xml_parse_report_string X = xml_parse_string X (xml_parse_report_doc X)"

text \<open>Not implemented in the source: it logs an error.\<close>

definition lmap_xml_parse_task_results_fd :: "string \<Rightarrow> result \<Rightarrow> int \<times> result" where
  "lmap_xml_parse_task_results_fd contents r = (-1, r)"

end
