(* ===== verification/Xml_Codec.thy ===== *)
theory Xml_Codec
  imports Xml_Files Json_Roundtrip
begin

text \<open>
  How the renderers and the parsers of \<^verbatim>\<open>src/xml-io.c\<close> fit together. A document that is printed and parsed again has the
  same elements, but the text of an element with children may differ, as the printer indents. The
  relation \<open>xcodec\<close> says that the children a renderer adds, printed and parsed again, make the loop of a parser turn one object under
  construction into another.
\<close>

section \<open>Printed and parsed again\<close>

inductive reread :: "xml \<Rightarrow> xml \<Rightarrow> bool" where
  reread: "list_all2 reread es es' \<Longrightarrow> es = [] \<longrightarrow> t' = t \<Longrightarrow> reread (Elem ns n t es) (Elem ns n t' es')"
monos list_all2_mono

inductive_cases reread_ElemE: "reread (Elem ns n t es) e'"

lemma reread_ns: "reread e e' \<Longrightarrow> el_ns e' = el_ns e \<and> el_name e' = el_name e \<and> list_all2 reread (el_children e) (el_children e')"
  by (auto elim: reread.cases)

lemma reread_refl: "reread e e"
proof (induction e)
  case (Elem ns n t es)
  then have "list_all2 reread es es" by (intro list.rel_refl_strong) simp
  then show ?case by (simp add: reread)
qed

text \<open>The elements of a document below its element \<open>lmap\<close>.\<close>

fun sane :: "(nat \<times> string) option \<Rightarrow> xml \<Rightarrow> bool" where
  "sane ns (Elem ns' n t es) \<longleftrightarrow> ns' = ns \<and> n \<noteq> ''lmap'' \<and> list_all (sane ns) es"

lemma sane_sel: "sane ns e \<longleftrightarrow> el_ns e = ns \<and> el_name e \<noteq> ''lmap'' \<and> list_all (sane ns) (el_children e)"
  by (cases e) simp

lemma reread_sane: "sane ns e \<Longrightarrow> reread e e' \<Longrightarrow> sane ns e'"
proof (induction e arbitrary: e')
  case (Elem ns' n t es)
  from Elem.prems(2) obtain t' es' where e': "e' = Elem ns' n t' es'" "list_all2 reread es es'"
    by (auto elim: reread_ElemE)
  have "list_all (sane ns) es'"
    using e'(2) Elem.IH Elem.prems(1) by (induction rule: list_all2_induct) auto
  then show ?case using e'(1) Elem.prems(1) by simp
qed

lemma reread_sanes: "list_all2 reread es es' \<Longrightarrow> list_all (sane ns) es \<Longrightarrow> list_all (sane ns) es'"
  by (induction rule: list_all2_induct) (auto intro: reread_sane)

lemma xml_children_append:
  "xml_children ns h c (es @ es') = obind (xml_children ns h c es) (\<lambda>c'. xml_children ns h c' es')"
proof (induction es arbitrary: c)
  case Nil
  then show ?case by simp
next
  case (Cons e es)
  then show ?case by (cases "h c e") simp_all
qed

lemma xml_nodes_children: "list_all (sane ns) es \<Longrightarrow> xml_nodes h c es = xml_children ns h c es"
proof (induction es arbitrary: c)
  case Nil
  then show ?case by simp
next
  case (Cons e es)
  then show ?case by (cases "h c e") (simp_all add: sane_sel)
qed

section \<open>Rendering and reading back\<close>

definition xcodec ::
  "(nat \<times> string) option \<Rightarrow> ('c \<Rightarrow> xml \<Rightarrow> 'c outcome) \<Rightarrow> xml list outcome \<Rightarrow> 'c \<Rightarrow> 'c \<Rightarrow> bool" where
  "xcodec ns h f c c' \<longleftrightarrow>
     (\<exists>es. f = Inr es \<and> list_all (sane ns) es
        \<and> (\<forall>es'. list_all2 reread es es' \<longrightarrow> xml_children ns h c es' = Inr c'))"

lemma xcodecE:
  assumes "xcodec ns h f c c'"
  obtains es where "f = Inr es" "list_all (sane ns) es"
    "\<And>es'. list_all2 reread es es' \<Longrightarrow> xml_children ns h c es' = Inr c'"
  using assms unfolding xcodec_def by blast

lemma xcodecI:
  "f = Inr es \<Longrightarrow> list_all (sane ns) es \<Longrightarrow>
    (\<And>es'. list_all2 reread es es' \<Longrightarrow> xml_children ns h c es' = Inr c') \<Longrightarrow> xcodec ns h f c c'"
  unfolding xcodec_def by blast

lemma xcodec_empty: "xcodec ns h (Inr []) c c"
  by (rule xcodecI [of _ "[]"]) simp_all

lemma xcodec_Nil: "xcodec ns h (xml_all []) c c"
  by (simp add: xcodec_empty)

lemma xcodec_Cons:
  assumes "xcodec ns h f c c1" "xcodec ns h (xml_all fs) c1 c2"
  shows "xcodec ns h (xml_all (f # fs)) c c2"
proof -
  obtain es where es: "f = Inr es" "list_all (sane ns) es"
    "\<And>es'. list_all2 reread es es' \<Longrightarrow> xml_children ns h c es' = Inr c1"
    using assms(1) unfolding xcodec_def by blast
  obtain fs' where fs': "xml_all fs = Inr fs'" "list_all (sane ns) fs'"
    "\<And>es'. list_all2 reread fs' es' \<Longrightarrow> xml_children ns h c1 es' = Inr c2"
    using assms(2) unfolding xcodec_def by blast
  show ?thesis
  proof (rule xcodecI)
    show "xml_all (f # fs) = Inr (es @ fs')" using es fs' by simp
    show "list_all (sane ns) (es @ fs')" using es fs' by simp
  next
    fix es'
    assume "list_all2 reread (es @ fs') es'"
    then obtain us vs where "es' = us @ vs" "list_all2 reread es us" "list_all2 reread fs' vs"
      by (auto simp: list_all2_append1)
    then show "xml_children ns h c es' = Inr c2" using es(3) fs'(3) by (simp add: xml_children_append)
  qed
qed

lemma xcodec_weaken: "xcodec ns h f c c1 \<Longrightarrow> c1 = c' \<Longrightarrow> xcodec ns h f c c'"
  by simp

lemma xcodec_when:
  "(b \<Longrightarrow> xcodec ns h f c c1) \<Longrightarrow> xcodec ns h (xml_when b f) c (if b then c1 else c)"
  by (simp add: xml_when_def xcodec_empty)

lemma xcodec_when_eq:
  "(b \<Longrightarrow> xcodec ns h f c c') \<Longrightarrow> (\<not> b \<Longrightarrow> c' = c) \<Longrightarrow> xcodec ns h (xml_when b f) c c'"
  by (simp add: xml_when_def xcodec_empty)

text \<open>An element without children.\<close>

lemma xcodec_leaf:
  assumes "k \<noteq> ''lmap''" "h c (Elem ns k s []) = Inr c'"
  shows "xcodec ns h (xml_render_leaf ns k (Some s)) c c'"
proof (rule xcodecI)
  fix es'
  assume "list_all2 reread [Elem ns k s []] es'"
  then have "es' = [Elem ns k s []]" by (auto simp: list_all2_Cons1 elim: reread_ElemE)
  then show "xml_children ns h c es' = Inr c'" using assms(2) by simp
qed (use assms(1) in \<open>simp_all add: xml_render_leaf_def\<close>)

lemma xcodec_leaf_option:
  assumes "k \<noteq> ''lmap''" "\<And>s. v = Some s \<Longrightarrow> h c (Elem ns k s []) = Inr c'" "v = None \<Longrightarrow> c' = c"
  shows "xcodec ns h (xml_render_leaf ns k v) c c'"
proof (cases v)
  case None
  then show ?thesis using assms(3) by (simp add: xml_render_leaf_def xcodec_empty)
next
  case (Some s)
  then show ?thesis using assms(1,2) by (simp add: xcodec_leaf)
qed

text \<open>An element with children.\<close>

lemma xcodec_child:
  assumes "xcodec ns h' f c0 c1" "k \<noteq> ''lmap''"
    "\<And>e. el_ns e = ns \<Longrightarrow> el_name e = k \<Longrightarrow> xml_node h' c0 e = Inr c1 \<Longrightarrow> h c e = Inr c'"
  shows "xcodec ns h (xml_new_child ns k f) c c'"
proof -
  obtain es where es: "f = Inr es" "list_all (sane ns) es"
    "\<And>es'. list_all2 reread es es' \<Longrightarrow> xml_children ns h' c0 es' = Inr c1"
    using assms(1) unfolding xcodec_def by blast
  show ?thesis
  proof (rule xcodecI)
    show "xml_new_child ns k f = Inr [Elem ns k [] es]" using es(1) by (simp add: xml_new_child_def)
    show "list_all (sane ns) [Elem ns k [] es]" using es(2) assms(2) by simp
  next
    fix es'
    assume "list_all2 reread [Elem ns k [] es] es'"
    then obtain t es1 where e': "es' = [Elem ns k t es1]" "list_all2 reread es es1"
      by (auto simp: list_all2_Cons1 elim: reread_ElemE)
    have "h c (Elem ns k t es1) = Inr c'"
      by (rule assms(3)) (simp_all add: xml_node_def es(3) e'(2))
    then show "xml_children ns h c es' = Inr c'" using e'(1) by simp
  qed
qed

section \<open>Lists of leaves\<close>

text \<open>Leaves with the same name, each handed to the same setter.\<close>

lemma xcodec_leaves:
  assumes "k \<noteq> ''lmap''" "\<And>c s. h c (Elem ns k s []) = obind (f c s) (\<lambda>(r, c'). Inr c')"
    and "elements f c ss = Inr (0, c')"
  shows "xcodec ns h (xml_all (map (\<lambda>s. xml_render_leaf ns k (Some s)) ss)) c c'"
  using assms(3)
proof (induction ss arbitrary: c)
  case Nil
  then show ?case by (simp add: xcodec_empty)
next
  case (Cons s ss)
  obtain c1 where c1: "f c s = Inr (0, c1)" "elements f c1 ss = Inr (0, c')"
    using Cons.prems by (cases "f c s") (auto split: if_splits)
  have "xcodec ns h (xml_render_leaf ns k (Some s)) c c1"
    by (rule xcodec_leaf) (simp_all add: assms(1,2) c1(1))
  then show ?case using Cons.IH [OF c1(2)] xcodec_Cons by fastforce
qed

lemma elements_on_string: "elements (on_string f) c (map JString ss) = elements f c ss"
  by (induction ss arbitrary: c) (simp_all add: obind_def split: sum.split)

context tag_list
begin

lemma xtags_codec:
  assumes "k \<noteq> ''lmap''" "\<And>c s. hh c (Elem ns k s []) = obind (h c s) (\<lambda>(r, c'). Inr c')"
    and "items c = []" "tags_ok ts"
  shows "xcodec ns hh (xml_render_tags ns k ts) c (upd ts c)"
proof -
  obtain ss where ss: "ts = map Some ss"
    using assms(4) unfolding tags_ok_def by (metis ex_map_conv option.exhaust)
  have "elements h c ss = Inr (0, upd ts c)"
    using read_strings [of c ss] assms(3,4) by (simp add: ss elements_on_string)
  then have "xcodec ns hh (xml_all (map (\<lambda>s. xml_render_leaf ns k (Some s)) ss)) c (upd ts c)"
    by (rule xcodec_leaves [where h = hh and f = h, rotated 2]) (simp_all add: assms(1,2))
  then show ?thesis by (simp add: xml_render_tags_def ss comp_def)
qed

end

locale xml_bit_list = bit_list get upd h el "''*''" idx True
  for get :: "'c \<Rightarrow> 'w::len word"
    and upd :: "'w word \<Rightarrow> 'c \<Rightarrow> 'c"
    and h :: "'c \<Rightarrow> string \<Rightarrow> (int \<times> 'c) outcome"
    and el :: "nat \<Rightarrow> string"
    and idx :: "nat list"
begin

lemma bits_leaves:
  "xml_render_bits ns k v (\<lambda>i. xml_render_leaf ns k (Some (el i))) idx =
     xml_all (map (\<lambda>s. xml_render_leaf ns k (Some s)) (written v))"
proof (cases "v = -1")
  case True
  then show ?thesis by (simp add: xml_render_bits_def written_def xml_render_leaf_def)
next
  case False
  have "xml_all (map (\<lambda>i. xml_when (v AND push_bit i 1 \<noteq> 0) (xml_render_leaf ns k (Some (el i)))) is) =
      xml_all (map (\<lambda>i. xml_render_leaf ns k (Some (el i))) (filter (bit v) is))" for "is"
    by (induction "is") (simp_all add: xml_when_def and_bit obind_def split: sum.split)
  then show ?thesis using False by (simp add: xml_render_bits_def written_def comp_def del: push_bit_of_1)
qed

lemma xbits_codec:
  assumes "k \<noteq> ''lmap''" "\<And>c s. hh c (Elem ns k s []) = obind (h c s) (\<lambda>(r, c'). Inr c')"
    and "get c = 0" "v = -1 \<or> (\<forall>n. bit v n \<longrightarrow> n \<in> set idx)"
  shows "xcodec ns hh (xml_when (v \<noteq> 0) (xml_render_bits ns k v (\<lambda>i. xml_render_leaf ns k (Some (el i))) idx)) c (upd v c)"
proof (rule xcodec_when_eq)
  show "xcodec ns hh (xml_render_bits ns k v (\<lambda>i. xml_render_leaf ns k (Some (el i))) idx) c (upd v c)"
    unfolding bits_leaves
    by (rule xcodec_leaves [where h = hh and f = h])
      (simp_all add: assms(1,2) read_written [OF TrueI assms(3,4)])
  show "\<not> v \<noteq> 0 \<Longrightarrow> upd v c = c" using assms(3) upd_get [of c] by simp
qed

end

section \<open>Named objects\<close>

text \<open>Each object is an element whose children \<open>child\<close> reads into \<open>new\<close>.\<close>

locale xml_member_list = named_list key items upd add good norm
  for key :: "'a \<Rightarrow> string option"
    and items :: "'c \<Rightarrow> 'a list"
    and upd :: "'a list \<Rightarrow> 'c \<Rightarrow> 'c"
    and add :: "'c \<Rightarrow> 'a \<Rightarrow> (int \<times> 'c) outcome"
    and ns :: "(nat \<times> string) option"
    and render :: "'a \<Rightarrow> xml list outcome"
    and child :: "'a \<Rightarrow> xml \<Rightarrow> 'a outcome"
    and new :: 'a
    and good :: "'a \<Rightarrow> bool"
    and norm :: "'a \<Rightarrow> 'a" +
  assumes render_child: "good x \<Longrightarrow> xcodec ns child (render x) new (norm x)"
begin

lemma xmembers_codec:
  assumes "k \<noteq> ''lmap''" "\<And>c e. el_name e = k \<Longrightarrow> hh c e = xml_add (xml_node child new e) add c"
    and "\<forall>x\<in>set xs. good x" "named_distinct key (items c @ map norm xs)"
  shows "xcodec ns hh (xml_all (map (\<lambda>x. xml_new_child ns k (render x)) xs)) c (upd (items c @ map norm xs) c)"
  using assms(3,4)
proof (induction xs arbitrary: c)
  case Nil
  then show ?case by (simp add: xcodec_empty upd_items)
next
  case (Cons x xs)
  have a: "add c (norm x) = Inr (0, upd (items c @ [norm x]) c)"
    using Cons.prems by (intro add_good) simp_all
  have "xcodec ns hh (xml_new_child ns k (render x)) c (upd (items c @ [norm x]) c)"
    by (rule xcodec_child [OF render_child assms(1)]) (simp_all add: Cons.prems(1) assms(2) xml_add_def a)
  moreover have "xcodec ns hh (xml_all (map (\<lambda>x. xml_new_child ns k (render x)) xs)) (upd (items c @ [norm x]) c)
      (upd (items c @ norm x # map norm xs) c)"
    using Cons.IH [of "upd (items c @ [norm x]) c"] Cons.prems by (simp add: items_upd upd_upd)
  ultimately show ?case using xcodec_Cons by fastforce
qed

lemma xlist_codec:
  assumes "k \<noteq> ''lmap''" "\<And>c e. el_name e = k \<Longrightarrow> hh c e = xml_add (xml_node child new e) add c"
    and "\<forall>x\<in>set xs. good x" "named_distinct key xs" "items c = []"
  shows "xcodec ns hh (xml_all (map (\<lambda>x. xml_new_child ns k (render x)) xs)) c (upd (map norm xs) c)"
  using xmembers_codec [of k hh xs c] assms named_norm [of xs] by simp

end

end
