(* ===== verification/Xml_Objects.thy ===== *)
theory Xml_Objects
  imports Xml_Codec
begin

text \<open>
  The round trip of \<^verbatim>\<open>src/xml-io.c\<close> for the objects of a document: options, registries, tasks, the agent, suppressions, actions,
  schedules and events. What a document carries of them, \<open>..._part\<close>, and what the round trip needs, \<open>..._good\<close>,
  are the same as for JSON.
\<close>

section \<open>Leaves\<close>

definition xml_time_ok :: "xmlc \<Rightarrow> int \<Rightarrow> bool" where
  "xml_time_ok X t \<longleftrightarrow> instant_ok (xc_libc X) (xc_strftime X) t"

lemma xml_applies_simps [simp]:
  "flag_on w PARSE_CONFIG_TRUE \<Longrightarrow> xml_applies w YANG_CONFIG_TRUE"
  "flag_on w PARSE_CONFIG_FALSE \<Longrightarrow> xml_applies w YANG_CONFIG_FALSE"
  "xml_applies w (YANG_CONFIG_TRUE OR YANG_KEY)"
  by (simp_all add: xml_applies_def flag_on_def parse_flag_defs)

lemma xcodec_id:
  assumes "id_ok v" "k \<noteq> ''lmap''"
    and "\<And>s. v = Some s \<Longrightarrow> (\<And>old. set_lmap_identifier old (Some s) = (0, Some s)) \<Longrightarrow> h c (Elem ns k s []) = Inr c'"
  shows "xcodec ns h (xml_render_leaf ns k v) c c'"
proof -
  obtain s where v: "v = Some s" "s \<noteq> []" using assms(1) by (auto simp: id_ok_def)
  then have "set_lmap_identifier old (Some s) = (0, Some s)" for old
    by (simp add: set_lmap_identifier_def set_string_def)
  with v assms(2,3) show ?thesis by (simp add: xcodec_leaf)
qed

lemma xcodec_id_option:
  assumes "v \<noteq> Some []" "k \<noteq> ''lmap''"
    and "\<And>s. v = Some s \<Longrightarrow> (\<And>old. set_lmap_identifier old (Some s) = (0, Some s)) \<Longrightarrow> h c (Elem ns k s []) = Inr c'"
    and "v = None \<Longrightarrow> c' = c"
  shows "xcodec ns h (xml_render_leaf ns k v) c c'"
proof (cases "v = None")
  case True
  with assms(4) show ?thesis by (simp add: xml_render_leaf_def xcodec_empty)
next
  case False
  then have "id_ok v" using assms(1) by (simp add: id_ok_def)
  then show ?thesis using assms(2,3) by (rule xcodec_id)
qed

lemma xcodec_time:
  assumes "xml_time_ok X t" "k \<noteq> ''lmap''"
    and "\<And>s. (\<And>old. set_dateandtime (xc_libc X) old s = (0, t)) \<Longrightarrow> h c (Elem ns k s []) = Inr c'"
  shows "xcodec ns h (xml_render_leaf_datetime X ns k t) c c'"
proof -
  obtain buf where b: "xc_strftime X t = Some buf" "\<And>old. set_dateandtime (xc_libc X) old (insert_colon buf) = (0, t)"
    using instant_read_back [OF assms(1) [unfolded xml_time_ok_def]] by blast
  show ?thesis
    using assms(2) assms(3) [OF b(2)] by (simp add: xml_render_leaf_datetime_def b(1) xcodec_leaf)
qed

lemma set_uint32_text: "set_uint32 old (dec (unat v)) = (0, v)"
  using set_uint32_back [of old v] by (simp add: dec_int_def)

lemma xcodec_uint32:
  "k \<noteq> ''lmap'' \<Longrightarrow> h c (Elem ns k (dec (unat v)) []) = Inr c' \<Longrightarrow> xcodec ns h (xml_render_leaf_uint32 ns k v) c c'"
  by (simp add: xml_render_leaf_uint32_def xcodec_leaf)

lemma xcodec_uint64:
  "k \<noteq> ''lmap'' \<Longrightarrow> h c (Elem ns k (dec (unat v)) []) = Inr c' \<Longrightarrow> xcodec ns h (xml_render_leaf_uint64 ns k v) c c'"
  by (simp add: xml_render_leaf_uint64_def xcodec_leaf)

lemma xcodec_int32:
  "k \<noteq> ''lmap'' \<Longrightarrow> h c (Elem ns k (dec_int i) []) = Inr c' \<Longrightarrow> xcodec ns h (xml_render_leaf_int32 ns k i) c c'"
  by (simp add: xml_render_leaf_int32_def xcodec_leaf)

section \<open>Options and registries\<close>

lemma xml_option_fields:
  assumes "flag_on w PARSE_CONFIG_TRUE"
  shows "id_ok v \<Longrightarrow> xcodec ns (xml_lookup (xml_applies w) xml_option_tab) (xml_render_leaf ns ''id'' v) c (c\<lparr>opt_id := v\<rparr>)"
    and "opt_name c = None \<Longrightarrow>
      xcodec ns (xml_lookup (xml_applies w) xml_option_tab) (xml_render_leaf ns ''name'' v) c (c\<lparr>opt_name := v\<rparr>)"
    and "opt_value c = None \<Longrightarrow>
      xcodec ns (xml_lookup (xml_applies w) xml_option_tab) (xml_render_leaf ns ''value'' v) c (c\<lparr>opt_value := v\<rparr>)"
  using assms
  by (intro xcodec_id xcodec_leaf_option;
      simp add: xml_option_tab_def text_setter_def lmap_option_set_id_def lmap_option_set_name_def
        lmap_option_set_value_def set_string_def)+

lemma xml_option_codec:
  assumes "flag_on w PARSE_CONFIG_TRUE" "option_good p"
  shows "xcodec ns (xml_lookup (xml_applies w) xml_option_tab)
    (xml_all [xml_render_leaf ns ''id'' (opt_id p), xml_render_leaf ns ''name'' (opt_name p),
       xml_render_leaf ns ''value'' (opt_value p)]) lmap_option_new p"
  by (rule xcodec_weaken,
      (rule xcodec_Cons xcodec_Nil xml_option_fields
        | (insert assms, simp add: option_good_def lmap_option_new_def; fail))+)

lemma xml_registry_fields:
  assumes "flag_on w PARSE_CONFIG_TRUE"
  shows "reg_uri c = None \<Longrightarrow>
      xcodec ns (xml_lookup (xml_applies w) xml_registry_tab) (xml_render_leaf ns ''uri'' v) c (c\<lparr>reg_uri := v\<rparr>)"
    and "reg_roles c = [] \<Longrightarrow> tags_ok ts \<Longrightarrow>
      xcodec ns (xml_lookup (xml_applies w) xml_registry_tab) (xml_render_tags ns ''role'' ts) c (c\<lparr>reg_roles := ts\<rparr>)"
  using assms
  by (intro xcodec_leaf_option rol.xtags_codec;
      simp add: xml_registry_tab_def text_setter_def tag_adder_def xx_lreg_role_def lmap_registry_set_uri_def set_string_def)+

lemma xml_registry_codec:
  assumes "flag_on w PARSE_CONFIG_TRUE" "registry_good g"
  shows "xcodec ns (xml_lookup (xml_applies w) xml_registry_tab)
    (xml_all [xml_render_leaf ns ''uri'' (reg_uri g), xml_render_tags ns ''role'' (reg_roles g)]) lmap_registry_new g"
  by (rule xcodec_weaken,
      (rule xcodec_Cons xcodec_Nil xml_registry_fields
        | (insert assms, simp add: registry_good_def lmap_registry_new_def; fail))+)

section \<open>Tasks\<close>

interpretation xto: xml_member_list opt_id task_options "\<lambda>xs t. t\<lparr>task_options := xs\<rparr>" lmap_task_add_option
  ns "\<lambda>p. xml_all [xml_render_leaf ns ''id'' (opt_id p), xml_render_leaf ns ''name'' (opt_name p),
       xml_render_leaf ns ''value'' (opt_value p)]"
  "xml_lookup (xml_applies w) xml_option_tab" lmap_option_new
  "\<lambda>p. flag_on w PARSE_CONFIG_TRUE \<and> option_good p" "\<lambda>p. p" for ns w
  by unfold_locales
    (simp_all add: lmap_task_add_option_def add_option_def xml_option_codec option_good_def id_ok_def del: xml_all.simps)

interpretation xtr: xml_member_list reg_uri task_registries "\<lambda>xs t. t\<lparr>task_registries := xs\<rparr>" lmap_task_add_registry
  ns "\<lambda>g. xml_all [xml_render_leaf ns ''uri'' (reg_uri g), xml_render_tags ns ''role'' (reg_roles g)]"
  "xml_lookup (xml_applies w) xml_registry_tab" lmap_registry_new
  "\<lambda>g. flag_on w PARSE_CONFIG_TRUE \<and> registry_good g" "\<lambda>g. g" for ns w
  by unfold_locales
    (simp_all add: lmap_task_add_registry_def xml_registry_codec registry_good_def del: xml_all.simps)

lemma xml_task_leaf_fields:
  assumes "flag_on w PARSE_CONFIG_TRUE"
  shows "id_ok v \<Longrightarrow> xcodec ns (xml_task_child w) (xml_render_leaf ns ''name'' v) c (c\<lparr>task_name := v\<rparr>)"
    and "task_program c = None \<Longrightarrow>
      xcodec ns (xml_task_child w) (xml_render_leaf ns ''program'' v) c (c\<lparr>task_program := v\<rparr>)"
    and "xcodec ns (xml_task_child w) (xml_render_leaf ns ''version'' v) c c"
    and "task_tags c = [] \<Longrightarrow> tags_ok ts \<Longrightarrow>
      xcodec ns (xml_task_child w) (xml_render_tags ns ''tag'' ts) c (c\<lparr>task_tags := ts\<rparr>)"
  using assms
  by (intro xcodec_id xcodec_leaf_option ttg.xtags_codec;
      simp add: xml_task_child_def xml_task_tab_def text_setter_def tag_adder_def xx_lt_tag_def lmap_task_set_name_def
        lmap_task_set_program_def set_string_def)+

lemma xml_options_eq: "xml_render_options ns ps =
  xml_all (map (\<lambda>p. xml_new_child ns ''option'' (xml_all [xml_render_leaf ns ''id'' (opt_id p),
     xml_render_leaf ns ''name'' (opt_name p), xml_render_leaf ns ''value'' (opt_value p)])) ps)"
  by (simp add: xml_render_options_def xml_render_option_def [abs_def])

lemma xml_registries_eq: "xml_all (map (xml_render_registry ns) gs) =
  xml_all (map (\<lambda>g. xml_new_child ns ''function'' (xml_all [xml_render_leaf ns ''uri'' (reg_uri g),
     xml_render_tags ns ''role'' (reg_roles g)])) gs)"
  by (simp add: xml_render_registry_def [abs_def])

lemma xml_task_option_field:
  assumes "flag_on w PARSE_CONFIG_TRUE" "task_options c = []" "list_all option_good ps" "named_distinct opt_id ps"
  shows "xcodec ns (xml_task_child w) (xml_render_options ns ps) c (c\<lparr>task_options := ps\<rparr>)"
  using xto.xlist_codec [of "''option''" "xml_task_child w" w ps c ns] assms
  by (simp add: xml_options_eq xml_task_child_def xml_parse_option_def list_all_iff del: xml_all.simps)

lemma xml_task_function_field:
  assumes "flag_on w PARSE_CONFIG_TRUE" "task_registries c = []" "list_all registry_good gs" "named_distinct reg_uri gs"
  shows "xcodec ns (xml_task_child w) (xml_all (map (xml_render_registry ns) gs)) c (c\<lparr>task_registries := gs\<rparr>)"
  using xtr.xlist_codec [of "''function''" "xml_task_child w" w gs c ns] assms
  by (simp add: xml_registries_eq xml_task_child_def xml_parse_registry_def list_all_iff del: xml_all.simps)

lemmas xml_task_fields = xml_task_leaf_fields xml_task_option_field xml_task_function_field

lemma xml_task_codec:
  assumes "flag_on w PARSE_CONFIG_TRUE" "flag_on what PARSE_CONFIG_TRUE" "task_good t"
  shows "xcodec ns (xml_task_child w) (xml_render_task_fields ns t what) lmap_task_new (task_part t)"
  unfolding xml_render_task_fields_def
  by (rule xcodec_weaken,
      (rule xcodec_Cons xcodec_Nil xcodec_when xml_task_fields
        | (insert assms, simp add: task_good_def task_part_def lmap_task_new_def; fail))+)

text \<open>
  The tasks of the capabilities are read with their functions, which the JSON parser cannot do; their options and tags
  are written and not read.
\<close>

definition xml_cap_task_good :: "task \<Rightarrow> bool" where
  "xml_cap_task_good t \<longleftrightarrow>
     id_ok (task_name t) \<and> list_all registry_good (task_registries t) \<and> named_distinct reg_uri (task_registries t)
     \<and> tags_ok (task_tags t)"

definition xml_cap_task_part :: "task \<Rightarrow> task" where
  "xml_cap_task_part t = t\<lparr>task_options := [], task_tags := []\<rparr>"

lemma xcodec_ignored_leaf:
  "k \<noteq> ''lmap'' \<Longrightarrow> (\<And>s. h c (Elem ns k s []) = Inr c) \<Longrightarrow> xcodec ns h (xml_render_leaf ns k v) c c"
  by (rule xcodec_leaf_option) simp_all

lemma xcodec_ignored:
  assumes "\<And>x. x \<in> set xs \<Longrightarrow> xcodec ns h (f x) c c"
  shows "xcodec ns h (xml_all (map f xs)) c c"
  using assms
proof (induction xs)
  case Nil
  then show ?case by (simp add: xcodec_empty)
next
  case (Cons x xs)
  then have "xcodec ns h (xml_all (f x # map f xs)) c c" by (intro xcodec_Cons) simp_all
  then show ?case by simp
qed

lemma xcodec_ignored_child:
  assumes "\<And>e. el_name e = k \<Longrightarrow> h c e = Inr c" "k \<noteq> ''lmap''"
    and "xcodec ns (\<lambda>c e. Inr c) f c0 c0"
  shows "xcodec ns h (xml_new_child ns k f) c c"
  by (rule xcodec_child [OF assms(3,2)]) (simp add: assms(1))

lemma xml_cap_task_fields:
  assumes "flag_on w PARSE_CONFIG_FALSE"
  shows "id_ok v \<Longrightarrow> xcodec ns (xml_capability_task_child w) (xml_render_leaf ns ''name'' v) c (c\<lparr>task_name := v\<rparr>)"
    and "task_program c = None \<Longrightarrow>
      xcodec ns (xml_capability_task_child w) (xml_render_leaf ns ''program'' v) c (c\<lparr>task_program := v\<rparr>)"
    and "task_version c = None \<Longrightarrow>
      xcodec ns (xml_capability_task_child w) (xml_render_leaf ns ''version'' v) c (c\<lparr>task_version := v\<rparr>)"
    and "xcodec ns (xml_capability_task_child w) (xml_render_tags ns ''tag'' ts) c c"
    and "xcodec ns (xml_capability_task_child w) (xml_render_options ns ps) c c"
proof -
  show "id_ok v \<Longrightarrow> xcodec ns (xml_capability_task_child w) (xml_render_leaf ns ''name'' v) c (c\<lparr>task_name := v\<rparr>)"
    and "task_program c = None \<Longrightarrow>
      xcodec ns (xml_capability_task_child w) (xml_render_leaf ns ''program'' v) c (c\<lparr>task_program := v\<rparr>)"
    and "task_version c = None \<Longrightarrow>
      xcodec ns (xml_capability_task_child w) (xml_render_leaf ns ''version'' v) c (c\<lparr>task_version := v\<rparr>)"
    using assms
    by (intro xcodec_id xcodec_leaf_option;
        simp add: xml_capability_task_child_def xml_capability_task_tab_def text_setter_def lmap_task_set_name_def
          lmap_task_set_program_def lmap_task_set_version_def set_string_def)+
  show "xcodec ns (xml_capability_task_child w) (xml_render_tags ns ''tag'' ts) c c"
    unfolding xml_render_tags_def
    by (intro xcodec_ignored xcodec_ignored_leaf) (simp_all add: xml_capability_task_child_def xml_capability_task_tab_def)
  have "xcodec ns (\<lambda>c e. Inr c) (xml_all [xml_render_leaf ns ''id'' (opt_id p), xml_render_leaf ns ''name'' (opt_name p),
      xml_render_leaf ns ''value'' (opt_value p)]) c0 c0" for p and c0 :: int
    by (rule xcodec_Cons xcodec_Nil xcodec_ignored_leaf | (simp; fail))+
  then show "xcodec ns (xml_capability_task_child w) (xml_render_options ns ps) c c"
    unfolding xml_options_eq
    by (intro xcodec_ignored xcodec_ignored_child) (simp_all add: xml_capability_task_child_def xml_capability_task_tab_def)
qed

lemma xml_cap_task_function_field:
  assumes "flag_on w PARSE_CONFIG_TRUE" "task_registries c = []" "list_all registry_good gs" "named_distinct reg_uri gs"
  shows "xcodec ns (xml_capability_task_child w) (xml_all (map (xml_render_registry ns) gs)) c (c\<lparr>task_registries := gs\<rparr>)"
  using xtr.xlist_codec [of "''function''" "xml_capability_task_child w" w gs c ns] assms
  by (simp add: xml_registries_eq xml_capability_task_child_def xml_parse_registry_def list_all_iff del: xml_all.simps)

lemma xml_cap_task_codec:
  assumes "flag_on w PARSE_CONFIG_TRUE" "flag_on w PARSE_CONFIG_FALSE" "xml_cap_task_good t"
  shows "xcodec ns (xml_capability_task_child w) (xml_render_task_fields ns t w) lmap_task_new (xml_cap_task_part t)"
  unfolding xml_render_task_fields_def render_flags
  by (rule xcodec_weaken,
      (rule xcodec_Cons xcodec_Nil xcodec_when xml_cap_task_fields xml_cap_task_function_field
        | (insert assms, simp add: xml_cap_task_good_def lmap_task_new_def; fail))+)
    (use assms in \<open>simp add: xml_cap_task_part_def lmap_task_new_def\<close>)

section \<open>The agent\<close>

lemma xml_agent_id_fields:
  assumes "flag_on w PARSE_CONFIG_TRUE"
  shows "(case v of None \<Rightarrow> True | Some s \<Rightarrow> uuid_scan 0 s) \<Longrightarrow> ag_agent_id c = None \<Longrightarrow>
      xcodec ns (xml_lookup (xml_applies w) (xml_agent_tab X)) (xml_render_leaf ns ''agent-id'' v) c (c\<lparr>ag_agent_id := v\<rparr>)"
    and "ag_group_id c = None \<Longrightarrow>
      xcodec ns (xml_lookup (xml_applies w) (xml_agent_tab X)) (xml_render_leaf ns ''group-id'' v) c (c\<lparr>ag_group_id := v\<rparr>)"
    and "ag_measurement_point c = None \<Longrightarrow>
      xcodec ns (xml_lookup (xml_applies w) (xml_agent_tab X)) (xml_render_leaf ns ''measurement-point'' v) c
        (c\<lparr>ag_measurement_point := v\<rparr>)"
  using assms
  by (intro xcodec_leaf_option;
      simp add: xml_agent_tab_def text_setter_def lmap_agent_set_agent_id_def lmap_agent_set_group_id_def
        lmap_agent_set_measurement_point_def set_string_def)+

lemma xml_agent_report_agent_id_field:
  "flag_on w PARSE_CONFIG_TRUE \<Longrightarrow> v \<in> {0, 1} \<Longrightarrow>
     xcodec ns (xml_lookup (xml_applies w) (xml_agent_tab X))
       (xml_when (flag_on f LMAP_AGENT_FLAG_REPORT_AGENT_ID_SET)
          (xml_render_leaf ns ''report-agent-id'' (Some (xml_truth v)))) c
       (c\<lparr>ag_report_agent_id := if flag_on f LMAP_AGENT_FLAG_REPORT_AGENT_ID_SET then v else ag_report_agent_id c,
          ag_flags := ag_flags c OR (f AND LMAP_AGENT_FLAG_REPORT_AGENT_ID_SET)\<rparr>)"
  by (intro xcodec_when_eq xcodec_leaf)
    (auto simp: xml_agent_tab_def plain_setter_def lmap_agent_set_report_agent_id_def xml_truth_def set_boolean_def
      flag_set_agent flag_absent)

lemma xml_agent_report_group_id_field:
  "flag_on w PARSE_CONFIG_TRUE \<Longrightarrow> v \<in> {0, 1} \<Longrightarrow>
     xcodec ns (xml_lookup (xml_applies w) (xml_agent_tab X))
       (xml_when (flag_on f LMAP_AGENT_FLAG_REPORT_GROUP_ID_SET)
          (xml_render_leaf ns ''report-group-id'' (Some (xml_truth v)))) c
       (c\<lparr>ag_report_group_id := if flag_on f LMAP_AGENT_FLAG_REPORT_GROUP_ID_SET then v else ag_report_group_id c,
          ag_flags := ag_flags c OR (f AND LMAP_AGENT_FLAG_REPORT_GROUP_ID_SET)\<rparr>)"
  by (intro xcodec_when_eq xcodec_leaf)
    (auto simp: xml_agent_tab_def plain_setter_def lmap_agent_set_report_group_id_def xml_truth_def set_boolean_def
      flag_set_agent flag_absent)

lemma xml_agent_report_measurement_point_field:
  "flag_on w PARSE_CONFIG_TRUE \<Longrightarrow> v \<in> {0, 1} \<Longrightarrow>
     xcodec ns (xml_lookup (xml_applies w) (xml_agent_tab X))
       (xml_when (flag_on f LMAP_AGENT_FLAG_REPORT_MEASUREMENT_POINT_SET)
          (xml_render_leaf ns ''report-measurement-point'' (Some (xml_truth v)))) c
       (c\<lparr>ag_report_measurement_point :=
            if flag_on f LMAP_AGENT_FLAG_REPORT_MEASUREMENT_POINT_SET then v else ag_report_measurement_point c,
          ag_flags := ag_flags c OR (f AND LMAP_AGENT_FLAG_REPORT_MEASUREMENT_POINT_SET)\<rparr>)"
  by (intro xcodec_when_eq xcodec_leaf)
    (auto simp: xml_agent_tab_def plain_setter_def lmap_agent_set_report_measurement_point_def xml_truth_def
      set_boolean_def flag_set_agent flag_absent)

lemma xml_agent_controller_timeout_field:
  "flag_on w PARSE_CONFIG_TRUE \<Longrightarrow>
     xcodec ns (xml_lookup (xml_applies w) (xml_agent_tab X))
       (xml_when (flag_on f LMAP_AGENT_FLAG_CONTROLLER_TIMEOUT_SET)
          (xml_render_leaf_uint32 ns ''controller-timeout'' v)) c
       (c\<lparr>ag_controller_timeout := if flag_on f LMAP_AGENT_FLAG_CONTROLLER_TIMEOUT_SET then v else ag_controller_timeout c,
          ag_flags := ag_flags c OR (f AND LMAP_AGENT_FLAG_CONTROLLER_TIMEOUT_SET)\<rparr>)"
  by (intro xcodec_when_eq xcodec_uint32)
    (auto simp: xml_agent_tab_def plain_setter_def lmap_agent_set_controller_timeout_def set_uint32_text
      flag_set_agent flag_absent)

lemma xml_agent_last_started_field:
  "flag_on w PARSE_CONFIG_FALSE \<and> v \<noteq> 0 \<longrightarrow> xml_time_ok X v \<Longrightarrow> ag_last_started c = 0 \<Longrightarrow>
     xcodec ns (xml_lookup (xml_applies w) (xml_agent_tab X))
       (xml_when (flag_on w PARSE_CONFIG_FALSE \<and> v \<noteq> 0) (xml_render_leaf_datetime X ns ''last-started'' v)) c
       (c\<lparr>ag_last_started := if flag_on w PARSE_CONFIG_FALSE then v else 0\<rparr>)"
  by (rule xcodec_when_eq, rule xcodec_time)
    (auto simp: xml_agent_tab_def plain_setter_def lmap_agent_set_last_started_def)

lemmas xml_agent_fields =
  xml_agent_id_fields xml_agent_report_agent_id_field xml_agent_report_group_id_field
  xml_agent_report_measurement_point_field xml_agent_controller_timeout_field xml_agent_last_started_field

lemma xml_agent_codec:
  assumes "flag_on w PARSE_CONFIG_TRUE" "agent_good (xml_time_ok X) w a"
  shows "xcodec ns (xml_lookup (xml_applies w) (xml_agent_tab X)) (xml_render_agent_fields X ns a w) lmap_agent_new (agent_part w a)"
  unfolding xml_render_agent_fields_def render_flags
  by (rule xcodec_weaken,
      (rule xcodec_Cons xcodec_Nil xml_agent_fields xcodec_when
        | (insert assms, simp add: agent_good_def lmap_agent_new_def; fail))+)
    (use assms in \<open>simp_all add: agent_part_def lmap_agent_new_def bit.conj_disj_distrib or.assoc Let_def\<close>)

section \<open>Suppressions\<close>

lemma xml_supp_fields:
  assumes "flag_on w PARSE_CONFIG_TRUE"
  shows "id_ok v \<Longrightarrow> xcodec ns (xml_lookup (xml_applies w) xml_supp_tab) (xml_render_leaf ns ''name'' v) c (c\<lparr>supp_name := v\<rparr>)"
    and "v \<noteq> Some [] \<Longrightarrow> supp_start c = None \<Longrightarrow>
      xcodec ns (xml_lookup (xml_applies w) xml_supp_tab) (xml_render_leaf ns ''start'' v) c (c\<lparr>supp_start := v\<rparr>)"
    and "v \<noteq> Some [] \<Longrightarrow> supp_end c = None \<Longrightarrow>
      xcodec ns (xml_lookup (xml_applies w) xml_supp_tab) (xml_render_leaf ns ''end'' v) c (c\<lparr>supp_end := v\<rparr>)"
    and "supp_match c = [] \<Longrightarrow> tags_ok ts \<Longrightarrow>
      xcodec ns (xml_lookup (xml_applies w) xml_supp_tab) (xml_render_tags ns ''match'' ts) c (c\<lparr>supp_match := ts\<rparr>)"
  using assms
  by (intro xcodec_id xcodec_id_option smt.xtags_codec;
      simp add: xml_supp_tab_def text_setter_def tag_adder_def xx_lcsp_match_def lmap_supp_set_name_def
        lmap_supp_set_start_def lmap_supp_set_end_def)+

lemma xml_supp_stop_running_field:
  "flag_on w PARSE_CONFIG_TRUE \<Longrightarrow> v \<in> {0, 1} \<Longrightarrow>
     xcodec ns (xml_lookup (xml_applies w) xml_supp_tab)
       (xml_when (flag_on f LMAP_SUPP_FLAG_STOP_RUNNING_SET) (xml_render_leaf ns ''stop-running'' (Some (xml_truth v)))) c
       (c\<lparr>supp_stop_running := if flag_on f LMAP_SUPP_FLAG_STOP_RUNNING_SET then v else supp_stop_running c,
          supp_flags := supp_flags c OR (f AND LMAP_SUPP_FLAG_STOP_RUNNING_SET)\<rparr>)"
  by (intro xcodec_when_eq xcodec_leaf)
    (auto simp: xml_supp_tab_def plain_setter_def lmap_supp_set_stop_running_def xml_truth_def set_boolean_def
      flag_set_supp flag_absent)

lemma xml_supp_state_field:
  "flag_on w PARSE_CONFIG_FALSE \<Longrightarrow>
     xcodec ns (xml_lookup (xml_applies w) xml_supp_tab) (xml_render_leaf ns ''state'' (Some (supp_state_text st))) c
       (c\<lparr>supp_state := st\<rparr>)"
  by (rule xcodec_leaf)
    (simp_all add: xml_supp_tab_def plain_setter_def lmap_supp_set_state_def supp_state_text_def split: supp_state.split)

lemma xml_supp_codec:
  assumes "flag_on w PARSE_CONFIG_TRUE" "supp_good s"
  shows "xcodec ns (xml_lookup (xml_applies w) xml_supp_tab) (xml_render_suppression_fields ns s w) lmap_supp_new (supp_part w s)"
  unfolding xml_render_suppression_fields_def render_flags
  by (rule xcodec_weaken,
      (rule xcodec_Cons xcodec_Nil xml_supp_fields xml_supp_stop_running_field xml_supp_state_field xcodec_when
        | (insert assms, simp add: supp_good_def lmap_supp_new_def; fail))+)
    (use assms in \<open>simp_all add: supp_part_def lmap_supp_new_def\<close>)

section \<open>Actions\<close>

interpretation xao: xml_member_list opt_id act_options "\<lambda>xs a. a\<lparr>act_options := xs\<rparr>" lmap_action_add_option
  ns "\<lambda>p. xml_all [xml_render_leaf ns ''id'' (opt_id p), xml_render_leaf ns ''name'' (opt_name p),
       xml_render_leaf ns ''value'' (opt_value p)]"
  "xml_lookup (xml_applies w) xml_option_tab" lmap_option_new
  "\<lambda>p. flag_on w PARSE_CONFIG_TRUE \<and> option_good p" "\<lambda>p. p" for ns w
  by unfold_locales
    (simp_all add: lmap_action_add_option_def add_option_def xml_option_codec option_good_def id_ok_def del: xml_all.simps)

lemma xml_action_leaf_fields:
  assumes "flag_on w PARSE_CONFIG_TRUE"
  shows "id_ok v \<Longrightarrow> xcodec ns (xml_action_child X w) (xml_render_leaf ns ''name'' v) c (c\<lparr>act_name := v\<rparr>)"
    and "act_task c = None \<Longrightarrow> xcodec ns (xml_action_child X w) (xml_render_leaf ns ''task'' v) c (c\<lparr>act_task := v\<rparr>)"
    and "act_destinations c = [] \<Longrightarrow> tags_ok ts \<Longrightarrow>
      xcodec ns (xml_action_child X w) (xml_render_tags ns ''destination'' ts) c (c\<lparr>act_destinations := ts\<rparr>)"
    and "act_tags c = [] \<Longrightarrow> tags_ok ts \<Longrightarrow>
      xcodec ns (xml_action_child X w) (xml_render_tags ns ''tag'' ts) c (c\<lparr>act_tags := ts\<rparr>)"
    and "act_suppression_tags c = [] \<Longrightarrow> tags_ok ts \<Longrightarrow>
      xcodec ns (xml_action_child X w) (xml_render_tags ns ''suppression-tag'' ts) c (c\<lparr>act_suppression_tags := ts\<rparr>)"
  using assms
  by (intro xcodec_id xcodec_leaf_option ads.xtags_codec atg.xtags_codec asp.xtags_codec;
      simp add: xml_action_child_def xml_action_tab_def text_setter_def tag_adder_def xx_lact_destination_def
        xx_lact_tag_def xx_lact_supp_tag_def lmap_action_set_name_def lmap_action_set_task_def set_string_def)+

lemma xml_action_option_field:
  assumes "flag_on w PARSE_CONFIG_TRUE" "act_options c = []" "list_all option_good ps" "named_distinct opt_id ps"
  shows "xcodec ns (xml_action_child X w) (xml_render_options ns ps) c (c\<lparr>act_options := ps\<rparr>)"
  using xao.xlist_codec [of "''option''" "xml_action_child X w" w ps c ns] assms
  by (simp add: xml_options_eq xml_action_child_def xml_parse_option_def list_all_iff del: xml_all.simps)

lemma xml_action_count_fields:
  assumes "flag_on w PARSE_CONFIG_FALSE"
  shows "xcodec ns (xml_action_child X w) (xml_render_leaf ns ''state'' (Some (run_state_text st))) c (c\<lparr>act_state := st\<rparr>)"
    and "xcodec ns (xml_action_child X w) (xml_render_leaf_uint64 ns ''storage'' s) c (c\<lparr>act_storage := s\<rparr>)"
    and "xcodec ns (xml_action_child X w) (xml_render_leaf_uint32 ns ''invocations'' n) c (c\<lparr>act_cnt_invocations := n\<rparr>)"
    and "xcodec ns (xml_action_child X w) (xml_render_leaf_uint32 ns ''suppressions'' n) c (c\<lparr>act_cnt_suppressions := n\<rparr>)"
    and "xcodec ns (xml_action_child X w) (xml_render_leaf_uint32 ns ''overlaps'' n) c (c\<lparr>act_cnt_overlaps := n\<rparr>)"
    and "xcodec ns (xml_action_child X w) (xml_render_leaf_uint32 ns ''failures'' n) c (c\<lparr>act_cnt_failures := n\<rparr>)"
    and "int32_ok i \<Longrightarrow>
      xcodec ns (xml_action_child X w) (xml_render_leaf_int32 ns ''last-status'' i) c (c\<lparr>act_last_status := i\<rparr>)"
    and "int32_ok i \<Longrightarrow>
      xcodec ns (xml_action_child X w) (xml_render_leaf_int32 ns ''last-failed-status'' i) c
        (c\<lparr>act_last_failed_status := i\<rparr>)"
    and "act_last_message c = None \<Longrightarrow>
      xcodec ns (xml_action_child X w) (xml_render_leaf ns ''last-message'' v) c (c\<lparr>act_last_message := v\<rparr>)"
    and "act_last_failed_message c = None \<Longrightarrow>
      xcodec ns (xml_action_child X w) (xml_render_leaf ns ''last-failed-message'' v) c (c\<lparr>act_last_failed_message := v\<rparr>)"
  using assms
  by (intro xcodec_leaf xcodec_uint64 xcodec_uint32 xcodec_int32 xcodec_leaf_option;
      simp add: xml_action_child_def xml_action_tab_def plain_setter_def text_setter_def lmap_action_set_state_def
        lmap_action_set_storage_def lmap_action_set_invocations_def lmap_action_set_suppressions_def
        lmap_action_set_overlaps_def lmap_action_set_failures_def lmap_action_set_last_status_def
        lmap_action_set_last_failed_status_def lmap_action_set_last_message_def lmap_action_set_last_failed_message_def
        run_state_back set_uint32_text set_uint64_back set_int32_dec_int int32_ok_def set_string_def)+

lemma xml_action_time_fields:
  assumes "flag_on w PARSE_CONFIG_FALSE"
  shows "t = 0 \<or> xml_time_ok X t \<Longrightarrow> act_last_invocation c = 0 \<Longrightarrow>
      xcodec ns (xml_action_child X w) (xml_when (t \<noteq> 0) (xml_render_leaf_datetime X ns ''last-invocation'' t)) c
        (c\<lparr>act_last_invocation := t\<rparr>)"
    and "xml_time_ok X t \<Longrightarrow>
      xcodec ns (xml_action_child X w) (xml_render_leaf_datetime X ns ''last-completion'' t) c
        (c\<lparr>act_last_completion := t\<rparr>)"
    and "xml_time_ok X t \<Longrightarrow>
      xcodec ns (xml_action_child X w) (xml_render_leaf_datetime X ns ''last-failed-completion'' t) c
        (c\<lparr>act_last_failed_completion := t\<rparr>)"
proof -
  assume "t = 0 \<or> xml_time_ok X t" "act_last_invocation c = 0"
  then show "xcodec ns (xml_action_child X w) (xml_when (t \<noteq> 0) (xml_render_leaf_datetime X ns ''last-invocation'' t)) c
      (c\<lparr>act_last_invocation := t\<rparr>)"
    using assms
    by (intro xcodec_when_eq xcodec_time)
      (simp_all add: xml_action_child_def xml_action_tab_def plain_setter_def lmap_action_set_last_invocation_def)
next
  assume "xml_time_ok X t"
  then show "xcodec ns (xml_action_child X w) (xml_render_leaf_datetime X ns ''last-completion'' t) c
      (c\<lparr>act_last_completion := t\<rparr>)"
    and "xcodec ns (xml_action_child X w) (xml_render_leaf_datetime X ns ''last-failed-completion'' t) c
      (c\<lparr>act_last_failed_completion := t\<rparr>)"
    using assms
    by (intro xcodec_time;
        simp add: xml_action_child_def xml_action_tab_def plain_setter_def lmap_action_set_last_completion_def
          lmap_action_set_last_failed_completion_def)+
qed

lemmas xml_action_fields =
  xml_action_leaf_fields xml_action_option_field xml_action_count_fields xml_action_time_fields

lemma xml_action_codec:
  assumes "flag_on w PARSE_CONFIG_TRUE" "action_good (xml_time_ok X) w a"
  shows "xcodec ns (xml_action_child X w) (xml_render_action_fields X ns a w) lmap_action_new (action_part w a)"
  unfolding xml_render_action_fields_def render_flags
  by (rule xcodec_weaken,
      (rule xcodec_Cons xcodec_Nil xml_action_fields xcodec_when
        | (insert assms, simp add: action_good_def lmap_action_new_def; fail))+)
    (use assms in \<open>simp_all add: action_part_def lmap_action_new_def Let_def\<close>)

section \<open>Schedules\<close>

interpretation xsa: xml_member_list act_name sched_actions "\<lambda>xs s. s\<lparr>sched_actions := xs\<rparr>" lmap_schedule_add_action
  ns "\<lambda>a. xml_render_action_fields X ns a w" "xml_action_child X w" lmap_action_new
  "\<lambda>a. flag_on w PARSE_CONFIG_TRUE \<and> action_good (xml_time_ok X) w a" "action_part w" for ns X w
  by unfold_locales
    (auto simp: lmap_schedule_add_action_def xml_action_codec dest: action_key)

lemma xml_schedule_leaf_fields:
  assumes "flag_on w PARSE_CONFIG_TRUE"
  shows "id_ok v \<Longrightarrow> xcodec ns (xml_schedule_child X w) (xml_render_leaf ns ''name'' v) c (c\<lparr>sched_name := v\<rparr>)"
    and "v \<noteq> Some [] \<Longrightarrow> sched_start c = None \<Longrightarrow>
      xcodec ns (xml_schedule_child X w) (xml_render_leaf ns ''start'' v) c (c\<lparr>sched_start := v\<rparr>)"
    and "sched_tags c = [] \<Longrightarrow> tags_ok ts \<Longrightarrow>
      xcodec ns (xml_schedule_child X w) (xml_render_tags ns ''tag'' ts) c (c\<lparr>sched_tags := ts\<rparr>)"
    and "sched_suppression_tags c = [] \<Longrightarrow> tags_ok ts \<Longrightarrow>
      xcodec ns (xml_schedule_child X w) (xml_render_tags ns ''suppression-tag'' ts) c (c\<lparr>sched_suppression_tags := ts\<rparr>)"
  using assms
  by (intro xcodec_id xcodec_id_option stg.xtags_codec sst.xtags_codec;
      simp add: xml_schedule_child_def xml_schedule_tab_def text_setter_def tag_adder_def xx_lsch_tag_def
        xx_lsch_supp_tag_def lmap_schedule_set_name_def lmap_schedule_set_start_def)+

lemma xml_schedule_end_field:
  assumes "flag_on w PARSE_CONFIG_TRUE" "flag_on f LMAP_SCHEDULE_FLAG_END_SET \<longrightarrow> id_ok v"
    "\<not> flag_on (sched_flags c) LMAP_SCHEDULE_FLAG_DURATION_SET"
  shows "xcodec ns (xml_schedule_child X w)
      (xml_when (flag_on f LMAP_SCHEDULE_FLAG_END_SET) (xml_render_leaf ns ''end'' v)) c
      (c\<lparr>sched_end := if flag_on f LMAP_SCHEDULE_FLAG_END_SET then v else sched_end c,
         sched_flags := sched_flags c OR (f AND LMAP_SCHEDULE_FLAG_END_SET)\<rparr>)"
proof (rule xcodec_when_eq)
  assume f: "flag_on f LMAP_SCHEDULE_FLAG_END_SET"
  with assms(2) have "id_ok v" by simp
  then show "xcodec ns (xml_schedule_child X w) (xml_render_leaf ns ''end'' v) c
      (c\<lparr>sched_end := if flag_on f LMAP_SCHEDULE_FLAG_END_SET then v else sched_end c,
         sched_flags := sched_flags c OR (f AND LMAP_SCHEDULE_FLAG_END_SET)\<rparr>)"
    using f by (intro xcodec_id)
      (simp_all add: assms xml_schedule_child_def xml_schedule_tab_def text_setter_def lmap_schedule_set_end_def
        flag_set_schedule(1) [OF f])
qed (simp add: flag_absent)

lemma xml_schedule_duration_field:
  assumes "flag_on w PARSE_CONFIG_TRUE"
    "flag_on (sched_flags c) LMAP_SCHEDULE_FLAG_END_SET \<longrightarrow> \<not> flag_on f LMAP_SCHEDULE_FLAG_DURATION_SET"
  shows "xcodec ns (xml_schedule_child X w)
      (xml_when (flag_on f LMAP_SCHEDULE_FLAG_DURATION_SET) (xml_render_leaf_uint64 ns ''duration'' v)) c
      (c\<lparr>sched_duration := if flag_on f LMAP_SCHEDULE_FLAG_DURATION_SET then v else sched_duration c,
         sched_flags := sched_flags c OR (f AND LMAP_SCHEDULE_FLAG_DURATION_SET)\<rparr>)"
  by (intro xcodec_when_eq xcodec_uint64)
    (use assms in \<open>auto simp: xml_schedule_child_def xml_schedule_tab_def plain_setter_def lmap_schedule_set_duration_def
      set_uint64_back flag_set_schedule flag_absent\<close>)

lemma xml_schedule_mode_field:
  "flag_on w PARSE_CONFIG_TRUE \<Longrightarrow>
     xcodec ns (xml_schedule_child X w)
       (xml_when (flag_on f LMAP_SCHEDULE_FLAG_EXEC_MODE_SET)
          (xml_render_leaf ns ''execution-mode'' (Some (exec_mode_text m)))) c
       (c\<lparr>sched_mode := if flag_on f LMAP_SCHEDULE_FLAG_EXEC_MODE_SET then m else sched_mode c,
          sched_flags := sched_flags c OR (f AND LMAP_SCHEDULE_FLAG_EXEC_MODE_SET)\<rparr>)"
  by (intro xcodec_when_eq xcodec_leaf)
    (auto simp: xml_schedule_child_def xml_schedule_tab_def plain_setter_def exec_mode_back flag_set_schedule flag_absent)

lemma xml_schedule_action_field:
  assumes "flag_on w PARSE_CONFIG_TRUE" "sched_actions c = []" "list_all (action_good (xml_time_ok X) w) as"
    "named_distinct act_name as"
  shows "xcodec ns (xml_schedule_child X w) (xml_all (map (xml_render_action X ns w) as)) c
    (c\<lparr>sched_actions := map (action_part w) as\<rparr>)"
  using xsa.xlist_codec [of "''action''" "xml_schedule_child X w" X w as c ns] assms
  by (simp add: xml_render_action_def [abs_def] xml_schedule_child_def xml_parse_action_def list_all_iff del: xml_all.simps)

lemma xml_schedule_state_fields:
  assumes "flag_on w PARSE_CONFIG_FALSE"
  shows "xcodec ns (xml_schedule_child X w) (xml_render_leaf ns ''state'' (Some (run_state_text st))) c (c\<lparr>sched_state := st\<rparr>)"
    and "xcodec ns (xml_schedule_child X w) (xml_render_leaf_uint64 ns ''storage'' s) c (c\<lparr>sched_storage := s\<rparr>)"
    and "xcodec ns (xml_schedule_child X w) (xml_render_leaf_uint32 ns ''invocations'' n) c
      (c\<lparr>sched_cnt_invocations := n\<rparr>)"
    and "xcodec ns (xml_schedule_child X w) (xml_render_leaf_uint32 ns ''suppressions'' n) c
      (c\<lparr>sched_cnt_suppressions := n\<rparr>)"
    and "xcodec ns (xml_schedule_child X w) (xml_render_leaf_uint32 ns ''overlaps'' n) c (c\<lparr>sched_cnt_overlaps := n\<rparr>)"
    and "xcodec ns (xml_schedule_child X w) (xml_render_leaf_uint32 ns ''failures'' n) c (c\<lparr>sched_cnt_failures := n\<rparr>)"
  using assms
  by (intro xcodec_leaf xcodec_uint64 xcodec_uint32;
      simp add: xml_schedule_child_def xml_schedule_tab_def plain_setter_def lmap_schedule_set_state_def
        lmap_schedule_set_storage_def lmap_schedule_set_invocations_def lmap_schedule_set_suppressions_def
        lmap_schedule_set_overlaps_def lmap_schedule_set_failures_def run_state_back set_uint32_text set_uint64_back)+

lemma xml_schedule_time_field:
  "flag_on w PARSE_CONFIG_FALSE \<Longrightarrow> t = 0 \<or> xml_time_ok X t \<Longrightarrow> sched_last_invocation c = 0 \<Longrightarrow>
     xcodec ns (xml_schedule_child X w) (xml_when (t \<noteq> 0) (xml_render_leaf_datetime X ns ''last-invocation'' t)) c
       (c\<lparr>sched_last_invocation := t\<rparr>)"
  by (intro xcodec_when_eq xcodec_time)
    (simp_all add: xml_schedule_child_def xml_schedule_tab_def plain_setter_def lmap_schedule_set_last_invocation_def)

lemmas xml_schedule_fields =
  xml_schedule_leaf_fields xml_schedule_end_field xml_schedule_duration_field xml_schedule_mode_field
  xml_schedule_action_field xml_schedule_state_fields xml_schedule_time_field

lemma xml_schedule_codec:
  assumes "flag_on w PARSE_CONFIG_TRUE" "schedule_good (xml_time_ok X) w s"
  shows "xcodec ns (xml_schedule_child X w) (xml_render_schedule_fields X ns s w) lmap_schedule_new (schedule_part w s)"
  unfolding xml_render_schedule_fields_def render_flags
  by (rule xcodec_weaken,
      (rule xcodec_Cons xcodec_Nil xml_schedule_fields xcodec_when
        | (insert assms, simp add: schedule_good_def lmap_schedule_new_def flag_simps; fail))+)
    (use assms in \<open>simp_all add: schedule_part_def lmap_schedule_new_def bit.conj_disj_distrib or.assoc Let_def\<close>)

section \<open>Events\<close>

interpretation xmo: xml_bit_list ev_months "\<lambda>v e. e\<lparr>ev_months := v\<rparr>" "plain_setter lmap_event_add_month"
  "\<lambda>i. json_month_tab ! i" "[0..<12]"
  by unfold_locales
    (simp_all add: plain_setter_def month_element del: push_bit_of_1, simp add: lmap_event_add_month_def month_tab_def)

interpretation xdm: xml_bit_list ev_days_of_month "\<lambda>v e. e\<lparr>ev_days_of_month := v\<rparr>"
  "plain_setter lmap_event_add_day_of_month" "\<lambda>i. dec_int (int i)" "[1..<32]"
  by unfold_locales
    (simp_all add: plain_setter_def lmap_event_add_day_of_month_def dec_int_not_star small_int32 del: push_bit_of_1)

interpretation xdw: xml_bit_list ev_days_of_week "\<lambda>v e. e\<lparr>ev_days_of_week := v\<rparr>"
  "plain_setter lmap_event_add_day_of_week" "\<lambda>i. json_day_tab ! i" "[0..<7]"
  by unfold_locales
    (simp_all add: plain_setter_def day_element del: push_bit_of_1, simp add: lmap_event_add_day_of_week_def day_of_week_tab_def)

interpretation xho: xml_bit_list ev_hours "\<lambda>v e. e\<lparr>ev_hours := v\<rparr>" "plain_setter lmap_event_add_hour"
  "\<lambda>i. dec_int (int i)" "[0..<24]"
  by unfold_locales
    (simp_all add: plain_setter_def lmap_event_add_hour_def dec_int_not_star small_int32 del: push_bit_of_1)

interpretation xmi: xml_bit_list ev_minutes "\<lambda>v e. e\<lparr>ev_minutes := v\<rparr>" "plain_setter lmap_event_add_minute"
  "\<lambda>i. dec_int (int i)" "[0..<60]"
  by unfold_locales
    (simp_all add: plain_setter_def lmap_event_add_minute_def dec_int_not_star small_int32 del: push_bit_of_1)

interpretation xse: xml_bit_list ev_seconds "\<lambda>v e. e\<lparr>ev_seconds := v\<rparr>" "plain_setter lmap_event_add_second"
  "\<lambda>i. dec_int (int i)" "[0..<60]"
  by unfold_locales
    (simp_all add: plain_setter_def lmap_event_add_second_def dec_int_not_star small_int32 del: push_bit_of_1)

lemmas xml_calendar_render_defs =
  xml_render_leaf_months_def xml_render_leaf_days_of_month_def xml_render_leaf_days_of_week_def xml_render_leaf_hours_def
  xml_render_leaf_minsecs_def xml_render_leaf_int32_def json_tab_lengths

lemma xml_calendar_bit_fields:
  assumes "flag_on w PARSE_CONFIG_TRUE"
  shows "ev_months c = 0 \<Longrightarrow> bits_in [0..<12] m \<Longrightarrow>
      xcodec ns (xml_lookup (xml_applies w) (xml_calendar_tab X))
        (xml_when (m \<noteq> 0) (xml_render_leaf_months ns ''month'' m)) c (c\<lparr>ev_months := m\<rparr>)"
    and "ev_days_of_month c = 0 \<Longrightarrow> bits_in [1..<32] d \<Longrightarrow>
      xcodec ns (xml_lookup (xml_applies w) (xml_calendar_tab X))
        (xml_when (d \<noteq> 0) (xml_render_leaf_days_of_month ns ''day-of-month'' d)) c (c\<lparr>ev_days_of_month := d\<rparr>)"
    and "ev_days_of_week c = 0 \<Longrightarrow> bits_in [0..<7] x \<Longrightarrow>
      xcodec ns (xml_lookup (xml_applies w) (xml_calendar_tab X))
        (xml_when (x \<noteq> 0) (xml_render_leaf_days_of_week ns ''day-of-week'' x)) c (c\<lparr>ev_days_of_week := x\<rparr>)"
    and "ev_hours c = 0 \<Longrightarrow> bits_in [0..<24] h \<Longrightarrow>
      xcodec ns (xml_lookup (xml_applies w) (xml_calendar_tab X))
        (xml_when (h \<noteq> 0) (xml_render_leaf_hours ns ''hour'' h)) c (c\<lparr>ev_hours := h\<rparr>)"
    and "ev_minutes c = 0 \<Longrightarrow> bits_in [0..<60] n \<Longrightarrow>
      xcodec ns (xml_lookup (xml_applies w) (xml_calendar_tab X))
        (xml_when (n \<noteq> 0) (xml_render_leaf_minsecs ns ''minute'' n)) c (c\<lparr>ev_minutes := n\<rparr>)"
    and "ev_seconds c = 0 \<Longrightarrow> bits_in [0..<60] n \<Longrightarrow>
      xcodec ns (xml_lookup (xml_applies w) (xml_calendar_tab X))
        (xml_when (n \<noteq> 0) (xml_render_leaf_minsecs ns ''second'' n)) c (c\<lparr>ev_seconds := n\<rparr>)"
  unfolding xml_calendar_render_defs
  using assms
  by (intro xmo.xbits_codec xdm.xbits_codec xdw.xbits_codec xho.xbits_codec xmi.xbits_codec xse.xbits_codec bits_inD;
      simp add: xml_calendar_tab_def)+

text \<open>The start and the end of an event are fields of more than one table.\<close>

lemma xml_event_start_field:
  assumes "\<And>c s. h c (Elem ns k s []) = Inr (snd (lmap_event_set_start (xc_libc X) c s))" "k \<noteq> ''lmap''"
    and "flag_on f LMAP_EVENT_FLAG_START_SET \<longrightarrow> xml_time_ok X t"
  shows "xcodec ns h (xml_when (flag_on f LMAP_EVENT_FLAG_START_SET) (xml_render_leaf_datetime X ns k t)) c
    (c\<lparr>ev_start := if flag_on f LMAP_EVENT_FLAG_START_SET then t else ev_start c,
       ev_flags := ev_flags c OR (f AND LMAP_EVENT_FLAG_START_SET)\<rparr>)"
  by (rule xcodec_when_eq, rule xcodec_time)
    (use assms in \<open>auto simp: lmap_event_set_start_def flag_set_event flag_absent\<close>)

lemma xml_event_end_field:
  assumes "\<And>c s. h c (Elem ns ''end'' s []) = Inr (snd (lmap_event_set_end (xc_libc X) c s))"
    and "flag_on f LMAP_EVENT_FLAG_END_SET \<longrightarrow> xml_time_ok X t"
  shows "xcodec ns h (xml_when (flag_on f LMAP_EVENT_FLAG_END_SET) (xml_render_leaf_datetime X ns ''end'' t)) c
    (c\<lparr>ev_end := if flag_on f LMAP_EVENT_FLAG_END_SET then t else ev_end c,
       ev_flags := ev_flags c OR (f AND LMAP_EVENT_FLAG_END_SET)\<rparr>)"
  by (rule xcodec_when_eq, rule xcodec_time)
    (use assms in \<open>auto simp: lmap_event_set_end_def flag_set_event flag_absent\<close>)

lemma xml_event_time_tables [simp]:
  assumes "flag_on w PARSE_CONFIG_TRUE"
  shows "xml_lookup (xml_applies w) (xml_periodic_tab X) c (Elem ns ''start'' s []) = Inr (snd (lmap_event_set_start (xc_libc X) c s))"
    and "xml_lookup (xml_applies w) (xml_calendar_tab X) c (Elem ns ''start'' s []) = Inr (snd (lmap_event_set_start (xc_libc X) c s))"
    and "xml_lookup (\<lambda>f. True) (xml_one_off_tab X) c (Elem ns ''time'' s []) = Inr (snd (lmap_event_set_start (xc_libc X) c s))"
    and "xml_lookup (xml_applies w) (xml_periodic_tab X) c (Elem ns ''end'' s []) = Inr (snd (lmap_event_set_end (xc_libc X) c s))"
    and "xml_lookup (xml_applies w) (xml_calendar_tab X) c (Elem ns ''end'' s []) = Inr (snd (lmap_event_set_end (xc_libc X) c s))"
  using assms
  by (simp_all add: xml_periodic_tab_def xml_calendar_tab_def xml_one_off_tab_def plain_setter_def split_beta)

lemma xml_event_interval_field:
  "flag_on w PARSE_CONFIG_TRUE \<Longrightarrow> v \<noteq> 0 \<Longrightarrow>
     xcodec ns (xml_lookup (xml_applies w) (xml_periodic_tab X))
       (xml_when (flag_on f LMAP_EVENT_FLAG_INTERVAL_SET) (xml_render_leaf_uint32 ns ''interval'' v)) c
       (c\<lparr>ev_interval := if flag_on f LMAP_EVENT_FLAG_INTERVAL_SET then v else ev_interval c,
          ev_flags := ev_flags c OR (f AND LMAP_EVENT_FLAG_INTERVAL_SET)\<rparr>)"
  by (intro xcodec_when_eq xcodec_uint32)
    (auto simp: xml_periodic_tab_def plain_setter_def lmap_event_set_interval_def set_uint32_text flag_set_event
      flag_absent Let_def word_less_1)

lemma xml_event_timezone_field:
  "flag_on w PARSE_CONFIG_TRUE \<Longrightarrow> flag_on f LMAP_EVENT_FLAG_TIMEZONE_OFFSET_SET \<longrightarrow> \<bar>t\<bar> < 1440 \<Longrightarrow>
     xcodec ns (xml_lookup (xml_applies w) (xml_calendar_tab X))
       (xml_when (flag_on f LMAP_EVENT_FLAG_TIMEZONE_OFFSET_SET)
          (xml_render_leaf ns ''timezone-offset'' (Some (timezone_text t)))) c
       (c\<lparr>ev_timezone_offset := if flag_on f LMAP_EVENT_FLAG_TIMEZONE_OFFSET_SET then t else ev_timezone_offset c,
          ev_flags := ev_flags c OR (f AND LMAP_EVENT_FLAG_TIMEZONE_OFFSET_SET)\<rparr>)"
  by (intro xcodec_when_eq xcodec_leaf)
    (auto simp: xml_calendar_tab_def plain_setter_def lmap_event_set_timezone_offset_def timezone_text_offset
      timezoneoffset_text flag_set_event flag_absent)

lemmas xml_event_type_fields =
  xml_event_interval_field xml_event_start_field xml_event_end_field xml_calendar_bit_fields xml_event_timezone_field

lemmas xml_event_part_defs =
  event_good_def calendar_good_def event_part_def event_head_def event_mask_def lmap_event_new_def
  bit.conj_disj_distrib or.assoc Let_def

lemmas xml_event_set_type_defs = xml_event_tab_def lmap_event_set_type_def event_type_tab_def event_head_def lmap_event_new_def Let_def

lemma xml_event_type_codec:
  assumes "flag_on w PARSE_CONFIG_TRUE" "event_good (xml_time_ok X) e"
  shows "xcodec ns (xml_event_lookup w (xml_event_tab X)) (xml_render_event_type X ns e) (event_head e) (event_part e)"
proof (cases "ev_type e")
  case Periodic
  have "xcodec ns (xml_lookup (xml_applies w) (xml_periodic_tab X))
    (xml_all
       [xml_when (flag_on (ev_flags e) LMAP_EVENT_FLAG_INTERVAL_SET) (xml_render_leaf_uint32 ns ''interval'' (ev_interval e)),
        xml_when (flag_on (ev_flags e) LMAP_EVENT_FLAG_START_SET) (xml_render_leaf_datetime X ns ''start'' (ev_start e)),
        xml_when (flag_on (ev_flags e) LMAP_EVENT_FLAG_END_SET) (xml_render_leaf_datetime X ns ''end'' (ev_end e))])
    ((event_head e)\<lparr>ev_type := Periodic\<rparr>) (event_part e)"
    by (rule xcodec_weaken,
        (rule xcodec_Cons xcodec_Nil xml_event_type_fields
          | (insert assms Periodic, simp add: event_good_def; fail))+)
      (use assms Periodic in \<open>simp_all add: xml_event_part_defs\<close>)
  then show ?thesis
    using assms Periodic
    by (simp add: xml_render_event_type_def del: xml_all.simps)
      (rule xcodec_child, simp_all add: xml_event_set_type_defs xml_parse_periodic_def)
next
  case Calendar
  have "xcodec ns (xml_lookup (xml_applies w) (xml_calendar_tab X))
    (xml_all
       [xml_when (ev_months e \<noteq> 0) (xml_render_leaf_months ns ''month'' (ev_months e)),
        xml_when (ev_days_of_month e \<noteq> 0) (xml_render_leaf_days_of_month ns ''day-of-month'' (ev_days_of_month e)),
        xml_when (ev_days_of_week e \<noteq> 0) (xml_render_leaf_days_of_week ns ''day-of-week'' (ev_days_of_week e)),
        xml_when (ev_hours e \<noteq> 0) (xml_render_leaf_hours ns ''hour'' (ev_hours e)),
        xml_when (ev_minutes e \<noteq> 0) (xml_render_leaf_minsecs ns ''minute'' (ev_minutes e)),
        xml_when (ev_seconds e \<noteq> 0) (xml_render_leaf_minsecs ns ''second'' (ev_seconds e)),
        xml_when (flag_on (ev_flags e) LMAP_EVENT_FLAG_TIMEZONE_OFFSET_SET)
          (xml_render_leaf ns ''timezone-offset'' (Some (timezone_text (ev_timezone_offset e)))),
        xml_when (flag_on (ev_flags e) LMAP_EVENT_FLAG_START_SET) (xml_render_leaf_datetime X ns ''start'' (ev_start e)),
        xml_when (flag_on (ev_flags e) LMAP_EVENT_FLAG_END_SET) (xml_render_leaf_datetime X ns ''end'' (ev_end e))])
    ((event_head e)\<lparr>ev_type := Calendar\<rparr>) (event_part e)"
    by (rule xcodec_weaken,
        (rule xcodec_Cons xcodec_Nil xml_event_type_fields
          | (insert assms Calendar, simp add: event_good_def calendar_good_def event_head_def lmap_event_new_def Let_def; fail))+)
      (use assms Calendar in \<open>simp_all add: xml_event_part_defs\<close>)
  then show ?thesis
    using assms Calendar
    by (simp add: xml_render_event_type_def del: xml_all.simps)
      (rule xcodec_child, simp_all add: xml_event_set_type_defs xml_parse_calendar_def)
next
  case One_Off
  have "xcodec ns (xml_lookup (\<lambda>f. True) (xml_one_off_tab X))
    (xml_when (flag_on (ev_flags e) LMAP_EVENT_FLAG_START_SET) (xml_render_leaf_datetime X ns ''time'' (ev_start e)))
    ((event_head e)\<lparr>ev_type := One_Off\<rparr>) (event_part e)"
    by (rule xcodec_weaken, rule xml_event_start_field)
      (use assms One_Off in \<open>simp_all add: xml_event_part_defs\<close>)
  then show ?thesis
    using assms One_Off
    by (simp add: xml_render_event_type_def)
      (rule xcodec_child, simp_all add: xml_event_set_type_defs xml_parse_one_off_def)
next
  case No_Type
  then show ?thesis by (simp add: xml_render_event_type_def no_type_head xcodec_empty)
qed (use assms in \<open>simp add: xml_render_event_type_def, intro xcodec_leaf; simp add: xml_event_set_type_defs event_part_def event_mask_def\<close>)+

lemma xml_event_fields:
  assumes "flag_on w PARSE_CONFIG_TRUE"
  shows "id_ok v \<Longrightarrow> xcodec ns (xml_event_lookup w (xml_event_tab X)) (xml_render_leaf ns ''name'' v) c (c\<lparr>ev_name := v\<rparr>)"
    and "flag_on f LMAP_EVENT_FLAG_RANDOM_SPREAD_SET \<longrightarrow> r < RAND_MAX \<Longrightarrow>
      xcodec ns (xml_event_lookup w (xml_event_tab X))
        (xml_when (flag_on f LMAP_EVENT_FLAG_RANDOM_SPREAD_SET) (xml_render_leaf_uint32 ns ''random-spread'' r)) c
        (c\<lparr>ev_random_spread := if flag_on f LMAP_EVENT_FLAG_RANDOM_SPREAD_SET then r else ev_random_spread c,
           ev_flags := ev_flags c OR (f AND LMAP_EVENT_FLAG_RANDOM_SPREAD_SET)\<rparr>)"
    and "xcodec ns (xml_event_lookup w (xml_event_tab X))
        (xml_when (flag_on f LMAP_EVENT_FLAG_CYCLE_INTERVAL_SET) (xml_render_leaf_uint32 ns ''cycle-interval'' r)) c
        (c\<lparr>ev_cycle_interval := if flag_on f LMAP_EVENT_FLAG_CYCLE_INTERVAL_SET then r else ev_cycle_interval c,
           ev_flags := ev_flags c OR (f AND LMAP_EVENT_FLAG_CYCLE_INTERVAL_SET)\<rparr>)"
  using assms
  by (intro xcodec_id xcodec_when_eq xcodec_uint32;
      simp add: xml_event_tab_def text_setter_def plain_setter_def lmap_event_set_name_def
        lmap_event_set_random_spread_def lmap_event_set_cycle_interval_def set_uint32_text flag_set_event flag_absent Let_def)+

lemma xml_event_codec:
  assumes "flag_on w PARSE_CONFIG_TRUE" "event_good (xml_time_ok X) e"
  shows "xcodec ns (xml_event_lookup w (xml_event_tab X)) (xml_render_event_fields X ns e w) lmap_event_new (event_part e)"
proof -
  have t: "c = event_head e \<Longrightarrow> xcodec ns (xml_event_lookup w (xml_event_tab X)) (xml_render_event_type X ns e) c (event_part e)" for c
    using xml_event_type_codec [OF assms] by simp
  show ?thesis
    unfolding xml_render_event_fields_def render_flags
    by (rule xcodec_weaken,
        (rule xcodec_Cons xcodec_Nil xml_event_fields xcodec_when t
          | (insert assms, simp add: event_good_def event_head_def lmap_event_new_def bit.conj_disj_distrib Let_def; fail))+)
qed

end
