(* ===== verification/Xml_Paths.thy ===== *)
theory Xml_Paths
  imports Xml_Codec
begin

text \<open>
  The documents of \<^verbatim>\<open>src/xml-io.c\<close> as sequences of sections: what an XPath expression finds in a document, and the loops over
  what it finds as loops over the sections (\<open>along\<close>), so that codecs compose along the sections too.
\<close>

section \<open>What the paths find\<close>

lemma xpath_from_sel:
  "xpath_from uri path up e =
     (if path_matches uri path (e # up) then [e] else []) @ concat (map (xpath_from uri path (e # up)) (el_children e))"
  by (cases e) simp

lemma path_matches_nth:
  "path_matches uri path es \<Longrightarrow> i < length path \<Longrightarrow> i < length es \<Longrightarrow> step_matches uri (path ! i) (es ! i)"
proof (induction uri path es arbitrary: i rule: path_matches.induct)
  case (3 uri s ss e es)
  then show ?case by (cases i) simp_all
qed simp_all

lemma sane_parts:
  "sane ns e \<Longrightarrow> el_ns e = ns" "sane ns e \<Longrightarrow> el_name e \<noteq> ''lmap''" "sane ns e \<Longrightarrow> c \<in> set (el_children e) \<Longrightarrow> sane ns c"
  by (cases e; simp add: list_all_iff)+

text \<open>Below the elements that a path from \<open>lmap\<close> can reach it finds nothing, as no element there has that name.\<close>

lemma xpath_below:
  assumes "sane ns e" "length ss \<le> length us" "\<forall>u\<in>set us. el_name u \<noteq> ''lmap''"
  shows "xpath_from uri (ss @ [Some ''lmap'']) (us @ rest) e = []"
  using assms
proof (induction e arbitrary: us)
  case (Elem ns' n t es)
  define x where "x = Elem ns' n t es"
  have x: "sane ns x" "el_name x \<noteq> ''lmap''" using Elem.prems(1) by (simp_all add: x_def)
  have "xpath_from uri (ss @ [Some ''lmap'']) (x # us @ rest) e = []" if "e \<in> set es" for e
    using Elem.IH [OF that, of "x # us"] Elem.prems that x(2) by (simp add: list_all_iff)
  moreover have "\<not> path_matches uri (ss @ [Some ''lmap'']) (x # us @ rest)"
  proof
    assume "path_matches uri (ss @ [Some ''lmap'']) (x # us @ rest)"
    from path_matches_nth [OF this, of "length ss"] Elem.prems(2)
    have "el_name ((x # us @ rest) ! length ss) = ''lmap''" by (simp add: step_matches_def)
    moreover have "(x # us @ rest) ! length ss \<in> set (x # us)"
      using Elem.prems(2) by (cases ss) (auto simp: nth_append)
    ultimately show False using x(2) Elem.prems(3) by auto
  qed
  moreover have "el_children x = es" by (simp add: x_def)
  ultimately show ?case by (simp add: x_def [symmetric] xpath_from_sel [of _ _ _ x])
qed

text \<open>The same elements found from \<open>lmap\<close> downwards, step by step.\<close>

fun descend :: "string \<Rightarrow> string option list \<Rightarrow> xml list \<Rightarrow> xml list" where
  "descend uri [] es = []"
| "descend uri [s] es = filter (step_matches uri s) es"
| "descend uri (s # ss) es = descend uri ss (concat (map el_children (filter (step_matches uri s) es)))"

lemma descend_concat: "descend uri ss (concat ess) = concat (map (descend uri ss) ess)"
proof (induction ss arbitrary: ess)
  case (Cons s ss)
  have "concat (map el_children (filter (step_matches uri s) (concat ess))) =
      concat (map (\<lambda>es. concat (map el_children (filter (step_matches uri s) es))) ess)"
    by (induction ess) simp_all
  then show ?case
    using Cons.IH [of "map (\<lambda>es. concat (map el_children (filter (step_matches uri s) es))) ess"]
    by (cases ss) (simp_all add: comp_def filter_concat)
qed (induction ess; simp)

lemma concat_map_guard: "concat (map (\<lambda>x. if p x then f x else []) xs) = concat (map f (filter p xs))"
  by (induction xs) simp_all

lemma concat_map_cong: "(\<And>x. x \<in> set xs \<Longrightarrow> f x = g x) \<Longrightarrow> concat (map f xs) = concat (map g xs)"
  by (simp cong: map_cong)

text \<open>A path that is longer than the way up to the root does not match, as the root has no namespace.\<close>

lemma path_too_long:
  assumes "path_matches uri path (vs @ [R])" "el_ns R = None" shows "length path \<le> length vs"
proof (rule ccontr)
  assume "\<not> length path \<le> length vs"
  with path_matches_nth [OF assms(1), of "length vs"] show False using assms(2) by (simp add: step_matches_def)
qed

lemma path_matches_append:
  "length ss = length vs \<Longrightarrow>
     path_matches uri (ss @ ts) (vs @ ws) \<longleftrightarrow> list_all2 (step_matches uri) ss vs \<and> path_matches uri ts ws"
  by (induction ss vs rule: list_induct2) simp_all

lemma xpath_descend:
  assumes "el_ns R = None" "step_matches uri (Some ''lmap'') L"
    and "length qs = length us" "\<forall>u\<in>set us. el_name u \<noteq> ''lmap''" "list_all (sane ns) es" "rs \<noteq> []"
  shows "concat (map (xpath_from uri (rev rs @ qs @ [Some ''lmap'']) (us @ [L, R])) es) =
    (if list_all2 (step_matches uri) qs us then descend uri rs es else [])"
  using assms(3-6)
proof (induction rs arbitrary: qs us es)
  case Nil
  then show ?case by simp
next
  case (Cons s rs)
  let ?p = "rev (s # rs) @ qs @ [Some ''lmap'']"
  have sane: "sane ns e" if "e \<in> set es" for e using Cons.prems(3) that by (simp add: list_all_iff)
  have e: "xpath_from uri ?p (us @ [L, R]) e =
      (if step_matches uri s e
       then if list_all2 (step_matches uri) qs us then descend uri (s # rs) [e] else [] else [])" if "e \<in> set es" for e
  proof (cases "rs = []")
    case True
    have "xpath_from uri ((s # qs) @ [Some ''lmap'']) ((e # us) @ [L, R]) c = []" if "c \<in> set (el_children e)" for c
      by (rule xpath_below [where ns = ns])
        (use that sane [OF \<open>e \<in> set es\<close>] Cons.prems(1,2) in \<open>auto intro: sane_parts dest: sane_parts(2)\<close>)
    then show ?thesis
      using True Cons.prems(1) assms(2) by (subst xpath_from_sel) (auto simp: path_matches_append)
  next
    case False
    have "\<not> path_matches uri ?p (e # us @ [L, R])"
    proof
      assume "path_matches uri ?p (e # us @ [L, R])"
      with path_too_long [of uri ?p "e # us @ [L]" R] assms(1) have "length ?p \<le> length us + 2" by simp
      moreover have "length rs > 0" using False by simp
      ultimately show False using Cons.prems(1) by simp
    qed
    moreover have "concat (map (xpath_from uri (rev rs @ (s # qs) @ [Some ''lmap'']) ((e # us) @ [L, R])) (el_children e)) =
        (if list_all2 (step_matches uri) (s # qs) (e # us) then descend uri rs (el_children e) else [])"
      by (rule Cons.IH)
        (use that sane False Cons.prems in \<open>auto simp: list_all_iff intro: sane_parts dest: sane_parts(2)\<close>)
    ultimately show ?thesis
      using False by (subst xpath_from_sel) (cases rs; simp)
  qed
  have d: "concat (map (\<lambda>e. if step_matches uri s e then descend uri (s # rs) [e] else []) es) = descend uri (s # rs) es"
  proof -
    have "(if step_matches uri s e then descend uri (s # rs) [e] else []) = descend uri (s # rs) [e]" for e
      by (cases rs) (use descend_concat [of uri _ "[]"] in auto)
    then show ?thesis using descend_concat [of uri "s # rs" "map (\<lambda>e. [e]) es"] by (simp add: comp_def)
  qed
  show ?case
  proof (cases "list_all2 (step_matches uri) qs us")
    case True
    have "concat (map (xpath_from uri ?p (us @ [L, R])) es) =
        concat (map (\<lambda>e. if step_matches uri s e then descend uri (s # rs) [e] else []) es)"
      by (rule concat_map_cong) (use e True in simp)
    then show ?thesis using True d by simp
  next
    case False
    have "concat (map (xpath_from uri ?p (us @ [L, R])) es) = concat (map (\<lambda>e. []) es)"
      by (rule concat_map_cong) (use e False in simp)
    then show ?thesis using False by simp
  qed
qed

section \<open>Sections\<close>

definition control_doc :: "nat \<Rightarrow> string \<Rightarrow> string \<Rightarrow> string \<Rightarrow> string \<Rightarrow> xml list \<Rightarrow> xml" where
  "control_doc i uri root t t' es = Elem None root t [Elem (Some (i, uri)) ''lmap'' t' es]"

lemma xpath_control_doc:
  assumes "list_all (sane (Some (i, uri))) es" "ss \<noteq> []"
  shows "xpath uri (rev ss @ [Some ''lmap'']) (control_doc i uri root t t' es) = descend uri ss es"
proof -
  define R where "R = control_doc i uri root t t' es"
  define L where "L = Elem (Some (i, uri)) ''lmap'' t' es"
  have RL: "el_ns R = None" "el_children R = [L]" "el_children L = es" "step_matches uri (Some ''lmap'') L"
    by (simp_all add: R_def L_def control_doc_def step_matches_def)
  have l: "1 < length (rev ss @ [Some ''lmap''])" using assms(2) by simp
  have "\<not> path_matches uri (rev ss @ [Some ''lmap'']) [R]" "\<not> path_matches uri (rev ss @ [Some ''lmap'']) [L, R]"
    using path_too_long [of uri _ "[]" R] path_too_long [of uri _ "[L]" R] RL(1) l by fastforce+
  moreover have "concat (map (xpath_from uri (rev ss @ [] @ [Some ''lmap'']) ([] @ [L, R])) es) = descend uri ss es"
    using xpath_descend [OF RL(1,4), of "[]" "[]" "Some (i, uri)" es ss] assms by simp
  ultimately have "xpath uri (rev ss @ [Some ''lmap'']) R = descend uri ss es"
    by (simp add: xpath_def xpath_from_sel [of _ _ _ R] xpath_from_sel [of _ _ _ L] RL)
  then show ?thesis by (simp add: R_def)
qed

definition named :: "string option \<Rightarrow> xml \<Rightarrow> bool" where
  "named s e \<longleftrightarrow> (case s of None \<Rightarrow> True | Some n \<Rightarrow> el_name e = n)"

text \<open>The loop over what a path has found is one over the sections, with those on the path handled.\<close>

fun along :: "string option list \<Rightarrow> ('c \<Rightarrow> xml \<Rightarrow> 'c outcome) \<Rightarrow> 'c \<Rightarrow> xml \<Rightarrow> 'c outcome" where
  "along [] h c e = h c e"
| "along [s] h c e = (if named s e then h c e else Inr c)"
| "along (s # ss) h c e = (if named s e then xml_node (along ss h) c e else Inr c)"

lemma nodes_filter:
  "list_all (sane ns) es \<Longrightarrow>
     xml_nodes h c (filter p es) = xml_children ns (\<lambda>c e. if p e then h c e else Inr c) c es"
proof (induction es arbitrary: c)
  case (Cons e es)
  then show ?case by (cases "h c e") (simp_all add: sane_parts(1))
qed simp

lemma children_filter:
  "list_all (sane ns) es \<Longrightarrow>
     xml_children ns h c (concat (map el_children (filter p es))) =
     xml_children ns (\<lambda>c e. if p e then xml_node h c e else Inr c) c es"
proof (induction es arbitrary: c)
  case (Cons e es)
  have "el_ns e = ns" using Cons.prems by (simp add: sane_parts(1))
  then show ?case
    using Cons by (simp add: xml_children_append xml_node_def cong: if_cong)
qed simp

lemma sane_step: "sane (Some (i, uri)) e \<Longrightarrow> step_matches uri s e = named s e"
  by (auto simp: step_matches_def named_def sane_parts)

lemma filter_named:
  "list_all (sane (Some (i, uri))) es \<Longrightarrow> filter (step_matches uri s) es = filter (named s) es"
  by (intro filter_cong) (auto simp: list_all_iff sane_step)

lemma nodes_descend:
  "list_all (sane (Some (i, uri))) es \<Longrightarrow> ss \<noteq> [] \<Longrightarrow>
     xml_nodes h c (descend uri ss es) = xml_children (Some (i, uri)) (along ss h) c es"
proof (induction ss arbitrary: es)
  case (Cons s ss)
  show ?case
  proof (cases ss)
    case Nil
    then have "along (s # ss) h = (\<lambda>c e. if named s e then h c e else Inr c)" by (intro ext) simp
    then show ?thesis using Nil nodes_filter [OF Cons.prems(1)] Cons.prems(1) by (simp add: filter_named)
  next
    case (Cons s' ss')
    let ?ds = "concat (map el_children (filter (named s) es))"
    have "list_all (sane (Some (i, uri))) ?ds"
      using Cons.prems(1) by (auto simp: list_all_iff intro: sane_parts)
    then have "xml_nodes h c (descend uri ss ?ds) = xml_children (Some (i, uri)) (along ss h) c ?ds"
      using Cons by (intro Cons.IH) simp_all
    also have "\<dots> = xml_children (Some (i, uri)) (\<lambda>c e. if named s e then xml_node (along ss h) c e else Inr c) c es"
      by (rule children_filter [OF Cons.prems(1)])
    also have "(\<lambda>c e. if named s e then xml_node (along ss h) c e else Inr c) = along (s # ss) h"
      using Cons by (intro ext) simp
    finally show ?thesis
      using Cons Cons.prems(1) by (simp add: filter_named)
  qed
qed simp

text \<open>A document is a sequence of sections; a parser that follows a path sees one of them.\<close>

definition xsection :: "ns \<Rightarrow> string \<Rightarrow> xml list outcome \<Rightarrow> bool" where
  "xsection ns k f \<longleftrightarrow> (\<exists>es. f = Inr es \<and> list_all (sane ns) es \<and> (\<forall>e\<in>set es. el_name e = k))"

lemma xsectionI:
  "xcodec ns h f c c' \<Longrightarrow> (\<And>es e. f = Inr es \<Longrightarrow> e \<in> set es \<Longrightarrow> el_name e = k) \<Longrightarrow> xsection ns k f"
  unfolding xcodec_def xsection_def by blast

lemma xml_children_skip: "(\<And>e. e \<in> set es \<Longrightarrow> h c e = Inr c) \<Longrightarrow> xml_children ns h c es = Inr c"
  by (induction es) simp_all

lemma reread_names: "list_all2 reread es es' \<Longrightarrow> e' \<in> set es' \<Longrightarrow> \<exists>e\<in>set es. el_name e' = el_name e"
  by (induction rule: list_all2_induct) (auto dest: reread_ns)

lemma along_head: "along (Some k # ss) h c e = (if el_name e \<noteq> k then Inr c else if ss = [] then h c e else xml_node (along ss h) c e)"
  by (cases ss) (simp_all add: named_def)

lemma xcodec_other:
  assumes "xsection ns j f" "k \<noteq> j"
  shows "xcodec ns (along (Some k # ss) h) f c c"
proof -
  obtain es where es: "f = Inr es" "list_all (sane ns) es" "\<forall>e\<in>set es. el_name e = j"
    using assms(1) unfolding xsection_def by blast
  show ?thesis
  proof (rule xcodecI [OF es(1,2)])
    fix es' assume "list_all2 reread es es'"
    then have "\<forall>e\<in>set es'. el_name e = j" using es(3) reread_names by fastforce
    then show "xml_children ns (along (Some k # ss) h) c es' = Inr c"
      using assms(2) by (intro xml_children_skip) (simp add: along_head)
  qed
qed

lemma xcodec_sections:
  assumes "list_all (\<lambda>(j, f). xsection ns j f) fs" "distinct (map fst fs)" "(k, f) \<in> set fs"
    and "xcodec ns (along (Some k # ss) h) f c c'"
  shows "xcodec ns (along (Some k # ss) h) (xml_all (map snd fs)) c c'"
  using assms(1-3)
proof (induction fs)
  case (Cons jg fs)
  obtain j g where jg: "jg = (j, g)" by (cases jg)
  show ?case
  proof (cases "(k, f) = jg")
    case True
    then have "k \<notin> fst ` set fs" using Cons.prems(2) by (cases jg) simp
    moreover have "list_all (\<lambda>(j, f). xsection ns j f) fs" using Cons.prems(1) by simp
    ultimately have "xcodec ns (along (Some k # ss) h) (xml_all (map snd fs)) c' c'"
    proof (induction fs)
      case (Cons x xs)
      then have "xcodec ns (along (Some k # ss) h) (xml_all (snd x # map snd xs)) c' c'"
        by (intro xcodec_Cons [OF xcodec_other [of _ "fst x"]]) (cases x; force)+
      then show ?case by simp
    qed (simp add: xcodec_empty)
    with xcodec_Cons [OF assms(4) this] show ?thesis using True by auto
  next
    case False
    then have "(k, f) \<in> set fs" using Cons.prems(3) by simp
    moreover from this have "k \<in> fst ` set fs" by force
    then have "k \<noteq> j" using Cons.prems(2) jg by auto
    ultimately have "xcodec ns (along (Some k # ss) h) (xml_all (g # map snd fs)) c c'"
      using Cons jg by (intro xcodec_Cons [OF xcodec_other [of _ j]]) simp_all
    then show ?thesis by (simp add: jg)
  qed
qed simp

lemma xcodec_along:
  assumes "xcodec ns (along (s # ss) h) f c c'" "k \<noteq> ''lmap''"
  shows "xcodec ns (along (Some k # s # ss) h) (xml_new_child ns k f) c c'"
  by (rule xcodec_child [OF assms]) (simp add: named_def)

context xml_member_list
begin

lemma xsection_codec:
  assumes "k \<noteq> ''lmap''" "m \<noteq> ''lmap''" "\<forall>x\<in>set xs. good x" "named_distinct key xs" "items c = []"
  shows "xcodec ns (along [Some k, Some m] (\<lambda>c e. xml_add (xml_node child new e) add c))
    (xml_render_members ns k m render xs) c (upd (map norm xs) c)"
proof (cases "xs = []")
  case True
  then show ?thesis using upd_items [of c] assms(5) by (simp add: xml_render_members_def xcodec_empty)
next
  case False
  have "xcodec ns (along [Some m] (\<lambda>c e. xml_add (xml_node child new e) add c))
      (xml_all (map (\<lambda>x. xml_new_child ns m (render x)) xs)) c (upd (map norm xs) c)"
    using assms by (intro xlist_codec) (simp_all add: named_def)
  then show ?thesis
    using False xcodec_along [of ns "Some m" "[]" _ _ c] assms(1) by (simp add: xml_render_members_def)
qed

end

lemma xml_render_members_names: "xml_render_members ns k m f xs = Inr es \<Longrightarrow> e \<in> set es \<Longrightarrow> el_name e = k"
  by (auto simp: xml_render_members_def xml_new_child_def obind_def split: if_splits sum.splits)

end
