(* ===== verification/Xml_Documents.thy ===== *)
theory Xml_Documents
  imports Xml_Objects Xml_Paths Json_Documents
begin

text \<open>
  Whole documents of \<^verbatim>\<open>src/xml-io.c\<close>: the round trips through
  \<open>lmap_xml_render_config\<close> and \<open>lmap_xml_parse_config_string\<close> and through their counterparts for the state, and how the parsers
  deal with what they do not accept.
\<close>

section \<open>The lists of the document\<close>

interpretation xlt: xml_member_list task_name lm_tasks "\<lambda>xs l. l\<lparr>lm_tasks := xs\<rparr>" lmap_add_task
  ns "\<lambda>t. xml_render_task_fields ns t w" "xml_task_child w" lmap_task_new
  "\<lambda>t. flag_on w PARSE_CONFIG_TRUE \<and> task_good t" task_part for ns w
  by unfold_locales (auto simp: lmap_add_task_def xml_task_codec dest: task_key)

lemma xml_cap_task_key: "xml_cap_task_good t \<Longrightarrow> task_name (xml_cap_task_part t) = task_name t \<and> task_name t \<noteq> None"
  by (simp add: xml_cap_task_good_def xml_cap_task_part_def id_ok_def)

interpretation xct: xml_member_list task_name cap_tasks "\<lambda>xs c. c\<lparr>cap_tasks := xs\<rparr>" lmap_capability_add_task
  ns "\<lambda>t. xml_render_task_fields ns t w" "xml_capability_task_child w" lmap_task_new
  "\<lambda>t. flag_on w PARSE_CONFIG_TRUE \<and> flag_on w PARSE_CONFIG_FALSE \<and> xml_cap_task_good t" xml_cap_task_part for ns w
  by unfold_locales (auto simp: lmap_capability_add_task_def xml_cap_task_codec dest: xml_cap_task_key)

interpretation xls: xml_member_list sched_name lm_schedules "\<lambda>xs l. l\<lparr>lm_schedules := xs\<rparr>" lmap_add_schedule
  ns "\<lambda>s. xml_render_schedule_fields X ns s w" "xml_schedule_child X w" lmap_schedule_new
  "\<lambda>s. flag_on w PARSE_CONFIG_TRUE \<and> schedule_good (xml_time_ok X) w s" "schedule_part w" for ns X w
  by unfold_locales (auto simp: lmap_add_schedule_def xml_schedule_codec dest: schedule_key)

interpretation xlp: xml_member_list supp_name lm_supps "\<lambda>xs l. l\<lparr>lm_supps := xs\<rparr>" lmap_add_supp
  ns "\<lambda>s. xml_render_suppression_fields ns s w" "xml_lookup (xml_applies w) xml_supp_tab" lmap_supp_new
  "\<lambda>s. flag_on w PARSE_CONFIG_TRUE \<and> supp_good s" "supp_part w" for ns w
  by unfold_locales (auto simp: lmap_add_supp_def xml_supp_codec supp_key dest: supp_key)

interpretation xle: xml_member_list ev_name lm_events "\<lambda>xs l. l\<lparr>lm_events := xs\<rparr>" lmap_add_event
  ns "\<lambda>e. xml_render_event_fields X ns e w" "xml_event_lookup w (xml_event_tab X)" lmap_event_new
  "\<lambda>e. flag_on w PARSE_CONFIG_TRUE \<and> event_good (xml_time_ok X) e" event_part for ns X w
  by unfold_locales (auto simp: lmap_add_event_def xml_event_codec dest: event_key)

section \<open>The agent\<close>

text \<open>The agent comes into being with its first element.\<close>

definition onto :: "'c \<Rightarrow> ('c \<Rightarrow> xml \<Rightarrow> 'c outcome) \<Rightarrow> 'c option \<Rightarrow> xml \<Rightarrow> 'c option outcome" where
  "onto new h c e = obind (h (case c of None \<Rightarrow> new | Some x \<Rightarrow> x) e) (\<lambda>x. Inr (Some x))"

lemma onto_Some_nodes: "xml_nodes (onto new h) (Some c) es = obind (xml_nodes h c es) (\<lambda>x. Inr (Some x))"
  by (induction es arbitrary: c) (simp_all add: onto_def obind_def split: sum.split)

lemma onto_nodes:
  "xml_nodes (onto new h) c es =
     (if es = [] then Inr c else obind (xml_nodes h (case c of None \<Rightarrow> new | Some x \<Rightarrow> x) es) (\<lambda>x. Inr (Some x)))"
  by (cases es) (simp_all add: onto_def onto_Some_nodes obind_def split: sum.split)

lemma xml_parse_agent_onto:
  "xml_parse_agent X doc w l =
     obind (xml_nodes (onto lmap_agent_new (xml_lookup (xml_applies w) (xml_agent_tab X))) (lm_agent l)
              (xpath LMAPC_XML_NAMESPACE [None, Some ''agent'', Some ''lmap''] doc))
       (\<lambda>a. Inr (l\<lparr>lm_agent := a\<rparr>))"
  by (auto simp: xml_parse_agent_def onto_nodes the_agent_def obind_def split: list.split option.split sum.split)

definition xml_agent_part :: "flags \<Rightarrow> agent option \<Rightarrow> agent option" where
  "xml_agent_part w ag =
     (case ag of None \<Rightarrow> None | Some a \<Rightarrow> if agent_written w a then Some (agent_part w a) else None)"

lemma agent_written_part: "agent_written w a \<Longrightarrow> agent_part w a \<noteq> lmap_agent_new"
proof
  assume a: "agent_written w a" "agent_part w a = lmap_agent_new"
  from a(2) have f: "ag_flags (agent_part w a) = 0" "ag_agent_id (agent_part w a) = None" "ag_group_id (agent_part w a) = None"
    "ag_measurement_point (agent_part w a) = None" "ag_last_started (agent_part w a) = 0"
    by (simp_all add: lmap_agent_new_def)
  from f(1) have "\<not> flag_on (ag_flags a) LMAP_AGENT_FLAG_REPORT_AGENT_ID_SET" "\<not> flag_on (ag_flags a) LMAP_AGENT_FLAG_REPORT_GROUP_ID_SET"
    "\<not> flag_on (ag_flags a) LMAP_AGENT_FLAG_REPORT_MEASUREMENT_POINT_SET" "\<not> flag_on (ag_flags a) LMAP_AGENT_FLAG_CONTROLLER_TIMEOUT_SET"
    by (simp_all add: agent_part_def Let_def flag_on_def bit.conj_disj_distrib or_eq_0_iff)
  then show False using a(1) f by (auto simp: agent_written_def agent_part_def Let_def)
qed

lemma xml_agent_silent: "\<not> agent_written w a \<Longrightarrow> xml_render_agent_fields X ns a w = Inr []"
  by (auto simp: xml_render_agent_fields_def agent_written_def xml_when_def xml_render_leaf_def)

lemma xml_agent_section:
  assumes "flag_on w PARSE_CONFIG_TRUE" "case ag of None \<Rightarrow> True | Some a \<Rightarrow> agent_good (xml_time_ok X) w a"
  shows "xcodec ns (along [Some ''agent'', None] (onto lmap_agent_new (xml_lookup (xml_applies w) (xml_agent_tab X))))
    (xml_render_agent X ns ag w) None (xml_agent_part w ag)"
proof (cases ag)
  case None
  then show ?thesis by (simp add: xml_render_agent_def xml_agent_part_def xcodec_empty)
next
  case (Some a)
  let ?h = "xml_lookup (xml_applies w) (xml_agent_tab X)"
  obtain es where es: "xml_render_agent_fields X ns a w = Inr es" "list_all (sane ns) es"
    "\<And>es'. list_all2 reread es es' \<Longrightarrow> xml_children ns ?h lmap_agent_new es' = Inr (agent_part w a)"
    using xml_agent_codec [OF assms(1), of X a ns] assms(2) Some unfolding xcodec_def by auto
  have "xcodec ns (along [None] (onto lmap_agent_new ?h)) (xml_render_agent_fields X ns a w) None (xml_agent_part w ag)"
  proof (rule xcodecI [OF es(1,2)])
    fix es' assume r: "list_all2 reread es es'"
    have sane: "list_all (sane ns) es'" by (rule reread_sanes [OF r es(2)])
    have "along [None] (onto lmap_agent_new ?h) = onto lmap_agent_new ?h" by (intro ext) (simp add: named_def)
    then have "xml_children ns (along [None] (onto lmap_agent_new ?h)) None es' = xml_nodes (onto lmap_agent_new ?h) None es'"
      by (simp add: xml_nodes_children [OF sane])
    also have "\<dots> = Inr (xml_agent_part w ag)"
    proof (cases "agent_written w a")
      case True
      then have "es' \<noteq> []" using es(3) [OF r] agent_written_part by (metis xml_children.simps(1) sum.inject(2))
      then show ?thesis
        using es(3) [OF r] xml_nodes_children [OF sane, of ?h lmap_agent_new] True Some
        by (simp add: onto_nodes xml_agent_part_def)
    next
      case False
      then have "es' = []" using es(1) r xml_agent_silent [of w a X ns] by simp
      then show ?thesis using False Some by (simp add: xml_agent_part_def)
    qed
    finally show "xml_children ns (along [None] (onto lmap_agent_new ?h)) None es' = Inr (xml_agent_part w ag)" .
  qed
  from xcodec_along [OF this, of "''agent''"] show ?thesis using Some by (simp add: xml_render_agent_def)
qed

section \<open>The capabilities\<close>

definition xml_capability_good :: "capability \<Rightarrow> bool" where
  "xml_capability_good c \<longleftrightarrow>
     list_all xml_cap_task_good (cap_tasks c) \<and> named_distinct task_name (cap_tasks c) \<and> tags_ok (cap_tags c)"

text \<open>The capabilities exist after every reading.\<close>

definition xml_capability_part :: "flags \<Rightarrow> capability option \<Rightarrow> capability" where
  "xml_capability_part w cap =
     (case cap of
        None \<Rightarrow> lmap_capability_new
      | Some c \<Rightarrow>
          if flag_on w PARSE_CONFIG_FALSE then c\<lparr>cap_tasks := map xml_cap_task_part (cap_tasks c)\<rparr> else lmap_capability_new)"

definition read_cap_task :: "flags \<Rightarrow> capability \<Rightarrow> xml \<Rightarrow> capability outcome" where
  "read_cap_task w c e = xml_add (xml_node (xml_capability_task_child w) lmap_task_new e) lmap_capability_add_task c"

lemma xml_parse_capabilities_both:
  "obind (xml_parse_capabilities doc w l) (xml_parse_capability_tasks doc w) =
     obind (xml_nodes (xml_capability_child w) (the_capability l)
              (xpath LMAPC_XML_NAMESPACE [None, Some ''capabilities'', Some ''lmap''] doc))
       (\<lambda>c. obind (xml_nodes (read_cap_task w) c
              (xpath LMAPC_XML_NAMESPACE [Some ''task'', Some ''tasks'', Some ''capabilities'', Some ''lmap''] doc))
       (\<lambda>c. Inr (l\<lparr>lm_capabilities := Some c\<rparr>)))"
  by (simp add: xml_parse_capabilities_def xml_parse_capability_tasks_def the_capability_def read_cap_task_def [abs_def]
      xml_parse_capability_task_def obind_def split: list.split option.split sum.split)

lemma xml_capability_version_field:
  "flag_on w PARSE_CONFIG_FALSE \<Longrightarrow> cap_version c = None \<Longrightarrow>
     xcodec ns (xml_capability_child w) (xml_render_leaf ns ''version'' v) c (c\<lparr>cap_version := v\<rparr>)"
  by (intro xcodec_leaf_option)
    (simp_all add: xml_capability_child_def xml_capability_tab_def text_setter_def lmap_capability_set_version_def set_string_def)

lemma xml_capability_tag_field:
  "flag_on w PARSE_CONFIG_FALSE \<Longrightarrow> cap_tags c = [] \<Longrightarrow> tags_ok ts \<Longrightarrow>
     xcodec ns (xml_capability_child w) (xml_render_tags ns ''tag'' ts) c (c\<lparr>cap_tags := ts\<rparr>)"
  by (intro ctg.xtags_codec)
    (simp_all add: xml_capability_child_def xml_capability_tab_def tag_adder_def xx_lcap_tag_def)

lemma xml_cap_tasks_codec:
  assumes "flag_on w PARSE_CONFIG_TRUE" "flag_on w PARSE_CONFIG_FALSE" "cap_tasks c = []" "list_all xml_cap_task_good ts"
    "named_distinct task_name ts"
  shows "xcodec ns (along [Some ''tasks'', Some ''task''] (read_cap_task w)) (xml_render_tasks ns ts w) c
    (c\<lparr>cap_tasks := map xml_cap_task_part ts\<rparr>)"
  using xct.xsection_codec [of "''tasks''" "''task''" ts w c ns] assms
  by (simp add: xml_render_tasks_def read_cap_task_def [abs_def] list_all_iff)

lemma xcodec_any: "xcodec ns h f c c' \<Longrightarrow> xcodec ns (\<lambda>c e. Inr c) f d d"
  unfolding xcodec_def by (auto intro: xml_children_skip)

lemma xcodec_ignored_section:
  assumes "xcodec ns h' f c1 c2" "\<And>es e. f = Inr es \<Longrightarrow> e \<in> set es \<Longrightarrow> el_name e = k" "\<And>e. el_name e = k \<Longrightarrow> h c e = Inr c"
  shows "xcodec ns h f c c"
proof -
  obtain es where es: "f = Inr es" "list_all (sane ns) es" using assms(1) unfolding xcodec_def by blast
  show ?thesis
  proof (rule xcodecI [OF es])
    fix es' assume r: "list_all2 reread es es'"
    have "el_name e = k" if "e \<in> set es'" for e using reread_names [OF r that] assms(2) [OF es(1)] by auto
    then show "xml_children ns h c es' = Inr c" by (intro xml_children_skip assms(3))
  qed
qed

lemma xml_capability_codecs:
  fixes ns :: ns
  assumes "flag_on w PARSE_CONFIG_TRUE" "flag_on w PARSE_CONFIG_FALSE" "xml_capability_good c"
  defines "f \<equiv> xml_all [xml_render_leaf ns ''version'' (cap_version c), xml_render_tags ns ''tag'' (cap_tags c),
       xml_render_tasks ns (cap_tasks c) w]"
  shows "xcodec ns (xml_capability_child w) f lmap_capability_new (c\<lparr>cap_tasks := []\<rparr>)"
    and "xcodec ns (along [Some ''tasks'', Some ''task''] (read_cap_task w)) f (c\<lparr>cap_tasks := []\<rparr>)
      (c\<lparr>cap_tasks := map xml_cap_task_part (cap_tasks c)\<rparr>)"
proof -
  have good: "list_all xml_cap_task_good (cap_tasks c)" "named_distinct task_name (cap_tasks c)" "tags_ok (cap_tags c)"
    using assms(3) by (simp_all add: xml_capability_good_def)
  have t: "xcodec ns (along [Some ''tasks'', Some ''task''] (read_cap_task w)) (xml_render_tasks ns (cap_tasks c) w) (c\<lparr>cap_tasks := []\<rparr>)
      (c\<lparr>cap_tasks := map xml_cap_task_part (cap_tasks c)\<rparr>)"
    using xml_cap_tasks_codec [OF assms(1,2) _ good(1,2), of "c\<lparr>cap_tasks := []\<rparr>" ns] by simp
  have i: "xcodec ns (xml_capability_child w) (xml_render_tasks ns (cap_tasks c) w) d d" for d
    by (rule xcodec_ignored_section [OF t, of "''tasks''"])
      (auto simp: xml_render_tasks_def xml_capability_child_def dest: xml_render_members_names)
  show "xcodec ns (xml_capability_child w) f lmap_capability_new (c\<lparr>cap_tasks := []\<rparr>)"
    unfolding f_def
    by (rule xcodec_weaken,
        (rule xcodec_Cons xcodec_Nil xml_capability_version_field xml_capability_tag_field i
          | (insert assms(1,2) good, simp add: lmap_capability_new_def; fail))+)
  have l: "xcodec ns (along [Some ''tasks'', Some ''task''] (read_cap_task w)) (xml_render_leaf ns k v) d d"
    if "k \<noteq> ''tasks''" "k \<noteq> ''lmap''" for k v d
    using that by (intro xcodec_ignored_leaf) (simp_all add: named_def)
  have "xcodec ns (along [Some ''tasks'', Some ''task''] (read_cap_task w)) (xml_render_tags ns ''tag'' ts) d d" for ts d
    unfolding xml_render_tags_def by (intro xcodec_ignored l) simp_all
  then show "xcodec ns (along [Some ''tasks'', Some ''task''] (read_cap_task w)) f (c\<lparr>cap_tasks := []\<rparr>)
      (c\<lparr>cap_tasks := map xml_cap_task_part (cap_tasks c)\<rparr>)"
    unfolding f_def by (intro xcodec_Cons [OF l] xcodec_Cons [OF _ xcodec_Cons [OF t xcodec_Nil]]) simp_all
qed

lemma xml_capability_sections:
  assumes "flag_on w PARSE_CONFIG_TRUE" "case cap of None \<Rightarrow> True | Some c \<Rightarrow> xml_capability_good c"
  obtains c where
    "xcodec ns (along [Some ''capabilities'', None] (xml_capability_child w)) (xml_render_capabilities ns cap w) lmap_capability_new c"
    "xcodec ns (along [Some ''capabilities'', Some ''tasks'', Some ''task''] (read_cap_task w)) (xml_render_capabilities ns cap w) c
       (xml_capability_part w cap)"
proof (cases "xml_render_capabilities ns cap w = Inr [] \<and> xml_capability_part w cap = lmap_capability_new")
  case True
  then show ?thesis by (intro that [of lmap_capability_new]) (simp_all add: xcodec_empty)
next
  case False
  then obtain c where c: "cap = Some c" "flag_on w PARSE_CONFIG_FALSE" "xml_render_capabilities ns cap w = xml_new_child ns ''capabilities''
      (xml_all [xml_render_leaf ns ''version'' (cap_version c), xml_render_tags ns ''tag'' (cap_tags c),
         xml_render_tasks ns (cap_tasks c) w])"
    by (cases cap) (auto simp: xml_render_capabilities_def xml_capability_part_def lmap_capability_new_def split: if_splits)
  note k = xml_capability_codecs [OF assms(1) c(2), of c ns]
  have "along [None] (xml_capability_child w) = xml_capability_child w" by (intro ext) (simp add: named_def)
  then show ?thesis
    using k assms(2) c
    by (intro that [of "c\<lparr>cap_tasks := []\<rparr>"])
      (auto simp: xml_capability_part_def intro!: xcodec_along simp del: xml_all.simps)
qed

section \<open>The document\<close>

text \<open>
  What a document carries, and what it takes to be read back: as for JSON, but an agent without anything to say is
  left out, the capabilities exist afterwards, and their tasks keep their functions.
\<close>

definition xml_lmap_part :: "flags \<Rightarrow> lmap \<Rightarrow> lmap" where
  "xml_lmap_part w l =
     (lmap_part w l)\<lparr>lm_agent := xml_agent_part w (lm_agent l),
        lm_capabilities := Some (xml_capability_part w (lm_capabilities l))\<rparr>"

definition xml_lmap_good :: "(int \<Rightarrow> bool) \<Rightarrow> flags \<Rightarrow> lmap \<Rightarrow> bool" where
  "xml_lmap_good T w l \<longleftrightarrow>
     (case lm_agent l of None \<Rightarrow> True | Some a \<Rightarrow> agent_good T w a)
     \<and> (case lm_capabilities l of None \<Rightarrow> True | Some c \<Rightarrow> xml_capability_good c)
     \<and> lmap_good T w (l\<lparr>lm_agent := None, lm_capabilities := None\<rparr>)"

definition xml_sections :: "xmlc \<Rightarrow> lmap \<Rightarrow> flags \<Rightarrow> (string \<times> xml list outcome) list" where
  "xml_sections X l w =
     [(''capabilities'', xml_render_capabilities lmapc_ns (lm_capabilities l) w),
      (''agent'', xml_render_agent X lmapc_ns (lm_agent l) w), (''tasks'', xml_render_tasks lmapc_ns (lm_tasks l) w),
      (''schedules'', xml_render_schedules X lmapc_ns (lm_schedules l) w),
      (''suppressions'', xml_render_suppressions lmapc_ns (lm_supps l) w),
      (''events'', xml_render_events X lmapc_ns (lm_events l) w)]"

lemma xml_new_child_names: "xml_new_child ns k f = Inr es \<Longrightarrow> e \<in> set es \<Longrightarrow> el_name e = k"
  by (auto simp: xml_new_child_def obind_def split: sum.splits)

lemma xml_list_sections:
  assumes "flag_on w PARSE_CONFIG_TRUE" "lmap_good (xml_time_ok X) w (l\<lparr>lm_agent := None, lm_capabilities := None\<rparr>)"
  shows "lm_tasks c = [] \<Longrightarrow>
      xcodec ns (along [Some ''tasks'', Some ''task''] (\<lambda>l e. xml_add (xml_parse_task e w) lmap_add_task l))
        (xml_render_tasks ns (lm_tasks l) w) c (c\<lparr>lm_tasks := map task_part (lm_tasks l)\<rparr>)"
    and "lm_schedules c = [] \<Longrightarrow>
      xcodec ns (along [Some ''schedules'', Some ''schedule''] (\<lambda>l e. xml_add (xml_parse_schedule X e w) lmap_add_schedule l))
        (xml_render_schedules X ns (lm_schedules l) w) c (c\<lparr>lm_schedules := map (schedule_part w) (lm_schedules l)\<rparr>)"
    and "lm_supps c = [] \<Longrightarrow>
      xcodec ns (along [Some ''suppressions'', Some ''suppression''] (\<lambda>l e. xml_add (xml_parse_suppression e w) lmap_add_supp l))
        (xml_render_suppressions ns (lm_supps l) w) c (c\<lparr>lm_supps := map (supp_part w) (lm_supps l)\<rparr>)"
    and "lm_events c = [] \<Longrightarrow>
      xcodec ns (along [Some ''events'', Some ''event''] (\<lambda>l e. xml_add (xml_parse_event X e w) lmap_add_event l))
        (xml_render_events X ns (lm_events l) w) c (c\<lparr>lm_events := map event_part (lm_events l)\<rparr>)"
  using assms xlt.xsection_codec [of "''tasks''" "''task''" "lm_tasks l" w c ns]
    xls.xsection_codec [of "''schedules''" "''schedule''" "lm_schedules l" w X c ns]
    xlp.xsection_codec [of "''suppressions''" "''suppression''" "lm_supps l" w c ns]
    xle.xsection_codec [of "''events''" "''event''" "lm_events l" w X c ns]
  by (simp_all add: lmap_good_def list_all_iff xml_render_tasks_def xml_render_schedules_def
      xml_render_suppressions_def xml_render_events_def xml_parse_task_def xml_parse_schedule_def
      xml_parse_suppression_def xml_parse_event_def)

lemma xml_sections_ok:
  assumes "flag_on w PARSE_CONFIG_TRUE" "xml_lmap_good (xml_time_ok X) w l"
  shows "list_all (\<lambda>(j, f). xsection lmapc_ns j f) (xml_sections X l w)"
proof -
  have good: "lmap_good (xml_time_ok X) w (l\<lparr>lm_agent := None, lm_capabilities := None\<rparr>)"
    "case lm_agent l of None \<Rightarrow> True | Some a \<Rightarrow> agent_good (xml_time_ok X) w a"
    "case lm_capabilities l of None \<Rightarrow> True | Some c \<Rightarrow> xml_capability_good c"
    using assms(2) by (simp_all add: xml_lmap_good_def)
  note lists = xml_list_sections [OF assms(1) good(1), of lmap_new lmapc_ns, unfolded lmap_new_def]
  obtain c where c: "xcodec lmapc_ns (along [Some ''capabilities'', None] (xml_capability_child w))
      (xml_render_capabilities lmapc_ns (lm_capabilities l) w) lmap_capability_new c"
    by (rule xml_capability_sections [OF assms(1) good(3), of lmapc_ns])
  have "xsection lmapc_ns ''capabilities'' (xml_render_capabilities lmapc_ns (lm_capabilities l) w)"
    by (rule xsectionI [OF c])
      (auto simp: xml_render_capabilities_def dest: xml_new_child_names split: option.splits if_splits)
  moreover have "xsection lmapc_ns ''agent'' (xml_render_agent X lmapc_ns (lm_agent l) w)"
    by (rule xsectionI [OF xml_agent_section [OF assms(1) good(2)]])
      (auto simp: xml_render_agent_def dest: xml_new_child_names split: option.splits)
  moreover have "xsection lmapc_ns ''tasks'' (xml_render_tasks lmapc_ns (lm_tasks l) w)"
    by (rule xsectionI [OF lists(1)]) (auto simp: xml_render_tasks_def dest: xml_render_members_names)
  moreover have "xsection lmapc_ns ''schedules'' (xml_render_schedules X lmapc_ns (lm_schedules l) w)"
    by (rule xsectionI [OF lists(2)]) (auto simp: xml_render_schedules_def dest: xml_render_members_names)
  moreover have "xsection lmapc_ns ''suppressions'' (xml_render_suppressions lmapc_ns (lm_supps l) w)"
    by (rule xsectionI [OF lists(3)]) (auto simp: xml_render_suppressions_def dest: xml_render_members_names)
  moreover have "xsection lmapc_ns ''events'' (xml_render_events X lmapc_ns (lm_events l) w)"
    by (rule xsectionI [OF lists(4)]) (auto simp: xml_render_events_def dest: xml_render_members_names)
  ultimately show ?thesis by (simp add: xml_sections_def)
qed

text \<open>The parsers of the document as loops over its sections.\<close>

abbreviation lmapc_doc :: "string \<Rightarrow> string \<Rightarrow> string \<Rightarrow> xml list \<Rightarrow> xml" where
  "lmapc_doc root t t' es \<equiv> control_doc 0 LMAPC_XML_NAMESPACE root t t' es"

lemma lmapc_nodes:
  assumes "list_all (sane lmapc_ns) es" "ss \<noteq> []" "path = rev ss @ [Some ''lmap'']"
  shows "xml_nodes h c (xpath LMAPC_XML_NAMESPACE path (lmapc_doc root t t' es)) = xml_children lmapc_ns (along ss h) c es"
  using xpath_control_doc [of 0 LMAPC_XML_NAMESPACE es ss] nodes_descend [of 0 LMAPC_XML_NAMESPACE es ss h c] assms
  by (simp add: lmapc_ns_def)

lemmas lmapc_paths =
  lmapc_nodes [of _ "[Some ''capabilities'', None]"] lmapc_nodes [of _ "[Some ''capabilities'', Some ''tasks'', Some ''task'']"]
  lmapc_nodes [of _ "[Some ''agent'', None]"] lmapc_nodes [of _ "[Some ''tasks'', Some ''task'']"]
  lmapc_nodes [of _ "[Some ''schedules'', Some ''schedule'']"] lmapc_nodes [of _ "[Some ''suppressions'', Some ''suppression'']"]
  lmapc_nodes [of _ "[Some ''events'', Some ''event'']"]

text \<open>What reads a section back reads the sections of the printed document back.\<close>

lemma xml_section_reads:
  assumes "flag_on w PARSE_CONFIG_TRUE" "xml_lmap_good (xml_time_ok X) w l" "xml_all (map snd (xml_sections X l w)) = Inr es"
    "list_all2 reread es es'" "(k, f) \<in> set (xml_sections X l w)" "xcodec lmapc_ns (along (Some k # ss) h) f c c'"
  shows "xml_children lmapc_ns (along (Some k # ss) h) c es' = Inr c'"
proof -
  have "distinct (map fst (xml_sections X l w))" by (simp add: xml_sections_def)
  from xcodec_sections [OF xml_sections_ok [OF assms(1,2)] this assms(5,6)] show ?thesis
    using assms(3,4) unfolding xcodec_def by auto
qed

lemma xml_sections_render:
  assumes "flag_on w PARSE_CONFIG_TRUE" "xml_lmap_good (xml_time_ok X) w l"
  obtains es where "xml_all (map snd (xml_sections X l w)) = Inr es" "list_all (sane lmapc_ns) es"
proof -
  have "\<exists>es. xml_all (map snd fs) = Inr es \<and> list_all (sane lmapc_ns) es" if "list_all (\<lambda>(j, f). xsection lmapc_ns j f) fs" for fs
    using that by (induction fs) (auto simp: xsection_def)
  then show ?thesis using xml_sections_ok [OF assms] that by blast
qed

lemma xml_control_reads:
  assumes "flag_on w PARSE_CONFIG_TRUE" "xml_lmap_good (xml_time_ok X) w l"
  obtains root es where "xml_control_tree X l w = Inr (lmapc_doc root [] [] es)"
    "\<And>t t' es'. list_all2 reread es es' \<Longrightarrow>
       xml_parse_control X lmap_new (lmapc_doc root t t' es') w = Inr (0, xml_lmap_part w l)"
proof -
  have good: "lmap_good (xml_time_ok X) w (l\<lparr>lm_agent := None, lm_capabilities := None\<rparr>)"
    "case lm_agent l of None \<Rightarrow> True | Some a \<Rightarrow> agent_good (xml_time_ok X) w a"
    "case lm_capabilities l of None \<Rightarrow> True | Some c \<Rightarrow> xml_capability_good c"
    using assms(2) by (simp_all add: xml_lmap_good_def)
  note lists = xml_list_sections [OF assms(1) good(1), where ns = lmapc_ns]
  obtain cap where cap: "xcodec lmapc_ns (along [Some ''capabilities'', None] (xml_capability_child w))
      (xml_render_capabilities lmapc_ns (lm_capabilities l) w) lmap_capability_new cap"
    "xcodec lmapc_ns (along [Some ''capabilities'', Some ''tasks'', Some ''task''] (read_cap_task w))
      (xml_render_capabilities lmapc_ns (lm_capabilities l) w) cap (xml_capability_part w (lm_capabilities l))"
    by (rule xml_capability_sections [OF assms(1) good(3)])
  obtain es where es: "xml_all (map snd (xml_sections X l w)) = Inr es" "list_all (sane lmapc_ns) es"
    by (rule xml_sections_render [OF assms])
  show ?thesis
  proof (rule that [of "if flag_on w RENDER_CONFIG_FALSE then ''data'' else ''config''" es])
    show "xml_control_tree X l w = Inr (lmapc_doc (if flag_on w RENDER_CONFIG_FALSE then ''data'' else ''config'') [] [] es)"
      using es(1) by (simp add: xml_control_tree_def xml_new_child_def xml_sections_def control_doc_def lmapc_ns_def)
  next
    fix root t t' es'
    assume r: "list_all2 reread es es'"
    have sane: "list_all (sane lmapc_ns) es'" by (rule reread_sanes [OF r es(2)])
    note reads = xml_section_reads [OF assms es(1) r]
    show "xml_parse_control X lmap_new (lmapc_doc root t t' es') w = Inr (0, xml_lmap_part w l)"
    proof -
      let ?d = "lmapc_doc root t t' es'"
      define l1 where "l1 = lmap_new\<lparr>lm_capabilities := Some (xml_capability_part w (lm_capabilities l))\<rparr>"
      define l2 where "l2 = l1\<lparr>lm_agent := xml_agent_part w (lm_agent l)\<rparr>"
      define l3 where "l3 = l2\<lparr>lm_schedules := map (schedule_part w) (lm_schedules l)\<rparr>"
      define l4 where "l4 = l3\<lparr>lm_supps := map (supp_part w) (lm_supps l)\<rparr>"
      define l5 where "l5 = l4\<lparr>lm_tasks := map task_part (lm_tasks l)\<rparr>"
      note start = l5_def l4_def l3_def l2_def l1_def lmap_new_def the_capability_def
      note nodes = lmapc_paths [OF sane] xml_sections_def
      have "obind (xml_parse_capabilities ?d w lmap_new) (xml_parse_capability_tasks ?d w) = Inr l1"
        using reads [OF _ cap(1)] reads [OF _ cap(2)]
        by (simp add: xml_parse_capabilities_both nodes start)
      then obtain l0 where "xml_parse_capabilities ?d w lmap_new = Inr l0" "xml_parse_capability_tasks ?d w l0 = Inr l1"
        by (auto simp: obind_Inr)
      moreover have "xml_parse_agent X ?d w l1 = Inr l2"
        using reads [OF _ xml_agent_section [OF assms(1) good(2)]]
        by (simp add: xml_parse_agent_onto nodes start)
      moreover have "xml_parse_schedules X ?d w l2 = Inr l3"
        using reads [OF _ lists(2) [of l2]] by (simp add: xml_parse_schedules_def nodes start)
      moreover have "xml_parse_suppressions ?d w l3 = Inr l4"
        using reads [OF _ lists(3) [of l3]] by (simp add: xml_parse_suppressions_def nodes start)
      moreover have "xml_parse_tasks ?d w l4 = Inr l5"
        using reads [OF _ lists(1) [of l4]] by (simp add: xml_parse_tasks_def nodes start)
      moreover have "xml_parse_events X ?d w l5 = Inr (xml_lmap_part w l)"
        using reads [OF _ lists(4) [of l5]] by (simp add: xml_parse_events_def nodes start xml_lmap_part_def lmap_part_def)
      ultimately show ?thesis by (simp add: xml_parse_control_def)
    qed
  qed
qed

section \<open>The round trip\<close>

text \<open>
  What the round trip relies on, for the one document it prints: libxml2 parses the text it has printed of a document and finds
  the same elements, with the same texts where there are no children.
\<close>

definition xml_prints_back :: "xmlc \<Rightarrow> lmap \<Rightarrow> flags \<Rightarrow> bool" where
  "xml_prints_back X l w \<longleftrightarrow>
     (case xml_control_tree X l w of
        Inl e \<Rightarrow> True
      | Inr t \<Rightarrow> length (xc_dump X t) \<le> INT_MAX \<and> (\<exists>t'. xc_parse X (xc_dump X t) = Some t' \<and> reread t t'))"

lemma xml_document_round_trip:
  assumes "flag_on w PARSE_CONFIG_TRUE" "xml_lmap_good (xml_time_ok X) w l" "xml_prints_back X l w"
  obtains s where "xml_render_control X l w = Inr s"
    "xml_parse_string X (\<lambda>l d. xml_parse_control X l d w) lmap_new s = Inr (0, xml_lmap_part w l)"
proof -
  obtain root es where es: "xml_control_tree X l w = Inr (lmapc_doc root [] [] es)"
    "\<And>t t' es'. list_all2 reread es es' \<Longrightarrow> xml_parse_control X lmap_new (lmapc_doc root t t' es') w = Inr (0, xml_lmap_part w l)"
    by (rule xml_control_reads [OF assms(1,2)]) blast
  let ?s = "xc_dump X (lmapc_doc root [] [] es)"
  obtain d where d: "length ?s \<le> INT_MAX" "xc_parse X ?s = Some d" "reread (lmapc_doc root [] [] es) d"
    using assms(3) es(1) unfolding xml_prints_back_def by auto
  from d(3) obtain t t' es' where d': "d = lmapc_doc root t t' es'" "list_all2 reread es es'"
    by (auto simp: control_doc_def list_all2_Cons1 elim!: reread_ElemE)
  show ?thesis
    by (rule that [of ?s]) (simp_all add: xml_render_control_def es d(1,2) d' xml_parse_string_def not_less)
qed

text \<open>A libxml2 to evaluate with: UTC, and a parser and a printer that know one document.\<close>

definition utc_xmlc :: "xml \<Rightarrow> xmlc" where
  "utc_xmlc doc =
     \<lparr>xc_libc = utc_libc, xc_parse = (\<lambda>s. if s = ''<?xml'' then Some doc else None), xc_dump = (\<lambda>t. ''<?xml''),
      xc_strftime = (\<lambda>t. map_option utc_date (lc_localtime utc_libc t))\<rparr>"

text \<open>What is rendered does not depend on the document that this libxml2 knows.\<close>

abbreviation utc_xml0 :: xmlc where
  "utc_xml0 \<equiv> utc_xmlc (Elem None [] [] [])"

lemma utc_xml_tree: "xml_control_tree (utc_xmlc d) l w = xml_control_tree utc_xml0 l w"
proof -
  have dt: "xml_render_leaf_datetime (utc_xmlc d) = xml_render_leaf_datetime utc_xml0"
    by (intro ext) (simp add: xml_render_leaf_datetime_def utc_xmlc_def)
  have a: "xml_render_agent_fields (utc_xmlc d) = xml_render_agent_fields utc_xml0"
    by (intro ext) (simp only: xml_render_agent_fields_def dt)
  have "xml_render_action_fields (utc_xmlc d) = xml_render_action_fields utc_xml0"
    by (intro ext) (simp only: xml_render_action_fields_def dt)
  then have "xml_render_action (utc_xmlc d) = xml_render_action utc_xml0"
    by (intro ext) (simp only: xml_render_action_def)
  then have s: "xml_render_schedule_fields (utc_xmlc d) = xml_render_schedule_fields utc_xml0"
    by (intro ext) (simp only: xml_render_schedule_fields_def dt)
  have e: "xml_render_event_fields (utc_xmlc d) = xml_render_event_fields utc_xml0"
    by (intro ext) (simp only: xml_render_event_fields_def xml_render_event_type_def dt)
  show ?thesis
    by (simp only: xml_control_tree_def xml_render_agent_def xml_render_schedules_def xml_render_events_def a s e)
qed

definition demo_xmlc :: "flags \<Rightarrow> xmlc" where
  "demo_xmlc w = utc_xmlc (case xml_control_tree utc_xml0 demo_lmap w of Inl e \<Rightarrow> Elem None [] [] [] | Inr t \<Rightarrow> t)"

lemma demo_xml_prints_back: "xml_prints_back (demo_xmlc w) demo_lmap w"
proof -
  have "xml_control_tree (demo_xmlc w) demo_lmap w = xml_control_tree utc_xml0 demo_lmap w"
    unfolding demo_xmlc_def by (rule utc_xml_tree)
  then show ?thesis
    by (auto simp: xml_prints_back_def demo_xmlc_def utc_xmlc_def INT_MAX_def reread_refl split: sum.split)
qed

lemma demo_xml_time: "xml_time_ok (demo_xmlc v) = time_ok (demo_jsonc u)"
  by (intro ext) (simp add: xml_time_ok_def time_ok_def demo_xmlc_def utc_xmlc_def demo_jsonc_def utc_jsonc_def)

lemma demo_xml_good: "xml_lmap_good (xml_time_ok (demo_xmlc v)) w demo_lmap"
  using demo_good [of v w] unfolding demo_xml_time [of v v]
  by (simp add: xml_lmap_good_def lmap_good_def agent_ok_def demo_lmap_def lmap_new_def xml_capability_good_def tags_ok_def
      lmap_capability_new_def)

text \<open>
  C16. A configuration rendered by lmap_xml_render_config is read back by lmap_xml_parse_config_string as the same model as
  through JSON, except that the capabilities, which a configuration does not have, exist afterwards, and that an agent of which nothing
  is to be said is dropped instead of making the document unreadable.
\<close>
theorem xml_config_round_trip:
  assumes "xml_lmap_good (xml_time_ok X) PARSE_CONFIG_TRUE l" "xml_prints_back X l RENDER_CONFIG_TRUE"
  shows "\<exists>s. lmap_xml_render_config X l = Inr s \<and>
    lmap_xml_parse_config_string X lmap_new s = Inr (0, xml_lmap_part PARSE_CONFIG_TRUE l)"
proof -
  have "flag_on PARSE_CONFIG_TRUE PARSE_CONFIG_TRUE" by (simp add: flag_on_self parse_flag_defs)
  then obtain s where "xml_render_control X l PARSE_CONFIG_TRUE = Inr s"
    "xml_parse_string X (\<lambda>l d. xml_parse_control X l d PARSE_CONFIG_TRUE) lmap_new s = Inr (0, xml_lmap_part PARSE_CONFIG_TRUE l)"
    using xml_document_round_trip [OF _ assms(1)] assms(2) by (metis render_flags(1))
  then show ?thesis
    by (intro exI [of _ s])
      (simp add: lmap_xml_render_config_def lmap_xml_parse_config_string_def xml_parse_config_doc_def [abs_def])
qed

lemma xml_config_round_trip_witness:
  "\<exists>s. lmap_xml_render_config (demo_xmlc RENDER_CONFIG_TRUE) demo_lmap = Inr s \<and>
    lmap_xml_parse_config_string (demo_xmlc RENDER_CONFIG_TRUE) lmap_new s = Inr (0, xml_lmap_part PARSE_CONFIG_TRUE demo_lmap)"
  by (rule xml_config_round_trip [OF demo_xml_good demo_xml_prints_back])

text \<open>
  C17. The state of a device rendered by lmap_xml_render_state is read back by lmap_xml_parse_state_string, with the functions
  of the tasks of the capabilities, which the JSON parser refuses; the options and tags of these tasks are lost.
\<close>
theorem xml_state_round_trip:
  assumes "xml_lmap_good (xml_time_ok X) (PARSE_CONFIG_TRUE OR PARSE_CONFIG_FALSE) l"
    and "xml_prints_back X l (RENDER_CONFIG_TRUE OR RENDER_CONFIG_FALSE)"
  shows "\<exists>s. lmap_xml_render_state X l = Inr s \<and>
    lmap_xml_parse_state_string X lmap_new s = Inr (0, xml_lmap_part (PARSE_CONFIG_TRUE OR PARSE_CONFIG_FALSE) l)"
proof -
  let ?w = "PARSE_CONFIG_TRUE OR PARSE_CONFIG_FALSE"
  have "flag_on ?w PARSE_CONFIG_TRUE" by (simp add: flag_on_def parse_flag_defs)
  then obtain s where "xml_render_control X l ?w = Inr s"
    "xml_parse_string X (\<lambda>l d. xml_parse_control X l d ?w) lmap_new s = Inr (0, xml_lmap_part ?w l)"
    using xml_document_round_trip [OF _ assms(1)] assms(2) by (metis render_flags)
  then show ?thesis
    by (intro exI [of _ s])
      (simp add: lmap_xml_render_state_def lmap_xml_parse_state_string_def xml_parse_state_doc_def [abs_def])
qed

lemma xml_state_round_trip_witness:
  "\<exists>s. lmap_xml_render_state (demo_xmlc (RENDER_CONFIG_TRUE OR RENDER_CONFIG_FALSE)) demo_lmap = Inr s \<and>
    lmap_xml_parse_state_string (demo_xmlc (RENDER_CONFIG_TRUE OR RENDER_CONFIG_FALSE)) lmap_new s =
      Inr (0, xml_lmap_part (PARSE_CONFIG_TRUE OR PARSE_CONFIG_FALSE) demo_lmap)"
  by (rule xml_state_round_trip [OF demo_xml_good demo_xml_prints_back])

text \<open>
  C18. The two formats carry the same configuration: what is written as JSON and what is written as XML of the same model are
  read back as the same model, up to the empty capabilities that the XML parser allocates.
\<close>
theorem xml_json_agree:
  assumes "jsonc_ok J" "lmap_written PARSE_CONFIG_TRUE l" "prints_back J l RENDER_CONFIG_TRUE"
    and "lmap_good (time_ok J) PARSE_CONFIG_TRUE l" "xml_lmap_good (xml_time_ok X) PARSE_CONFIG_TRUE l"
    and "xml_prints_back X l RENDER_CONFIG_TRUE"
  shows "\<exists>s t m. lmap_json_render_config J l = Inr s \<and> lmap_xml_render_config X l = Inr t \<and>
    lmap_json_parse_config_string J lmap_new (Some s) = Inr (0, m) \<and>
    lmap_xml_parse_config_string X lmap_new t = Inr (0, m\<lparr>lm_capabilities := Some lmap_capability_new\<rparr>)"
proof -
  have w: "flag_on PARSE_CONFIG_TRUE PARSE_CONFIG_TRUE" by (simp add: flag_on_self parse_flag_defs)
  obtain s where s: "render_control J l PARSE_CONFIG_TRUE = Inr s"
    "parse_string J (\<lambda>l j. parse_control_doc J l j PARSE_CONFIG_TRUE) lmap_new (Some s) = Inr (0, lmap_part PARSE_CONFIG_TRUE l)"
    using document_round_trip [OF w assms(1,4,2)] assms(3) by (metis render_flags(1))
  obtain t where t: "xml_render_control X l PARSE_CONFIG_TRUE = Inr t"
    "xml_parse_string X (\<lambda>l d. xml_parse_control X l d PARSE_CONFIG_TRUE) lmap_new t = Inr (0, xml_lmap_part PARSE_CONFIG_TRUE l)"
    using xml_document_round_trip [OF w assms(5)] assms(6) by (metis render_flags(1))
  have "\<not> flag_on PARSE_CONFIG_TRUE PARSE_CONFIG_FALSE" by (simp add: flag_on_def parse_flag_defs)
  then have "xml_capability_part PARSE_CONFIG_TRUE cap = lmap_capability_new" for cap
    by (simp add: xml_capability_part_def split: option.split)
  moreover have "xml_agent_part PARSE_CONFIG_TRUE (lm_agent l) = map_option (agent_part PARSE_CONFIG_TRUE) (lm_agent l)"
    using assms(4) by (auto simp: lmap_good_def agent_ok_def xml_agent_part_def split: option.splits)
  ultimately have "xml_lmap_part PARSE_CONFIG_TRUE l = (lmap_part PARSE_CONFIG_TRUE l)\<lparr>lm_capabilities := Some lmap_capability_new\<rparr>"
    by (simp add: xml_lmap_part_def lmap_part_def)
  then show ?thesis
    using s t
    by (intro exI [of _ s] exI [of _ t] exI [of _ "lmap_part PARSE_CONFIG_TRUE l"])
      (simp add: lmap_json_render_config_def lmap_xml_render_config_def lmap_json_parse_config_string_def
        lmap_xml_parse_config_string_def parse_config_doc_def [abs_def] xml_parse_config_doc_def [abs_def])
qed

lemma xml_json_agree_witness:
  "\<exists>s t m. lmap_json_render_config (demo_jsonc RENDER_CONFIG_TRUE) demo_lmap = Inr s \<and>
    lmap_xml_render_config (demo_xmlc RENDER_CONFIG_TRUE) demo_lmap = Inr t \<and>
    lmap_json_parse_config_string (demo_jsonc RENDER_CONFIG_TRUE) lmap_new (Some s) = Inr (0, m) \<and>
    lmap_xml_parse_config_string (demo_xmlc RENDER_CONFIG_TRUE) lmap_new t = Inr (0, m\<lparr>lm_capabilities := Some lmap_capability_new\<rparr>)"
  by (rule xml_json_agree [OF demo_ok demo_prints_back demo_good demo_xml_good demo_xml_prints_back])

end
