(* ===== verification/Xml_Types.thy ===== *)
theory Xml_Types
  imports Xml_Documents
begin

text \<open>
  Whatever document the parsers of \<^verbatim>\<open>src/xml-io.c\<close> are given, they keep the model well-formed and come to an end without a
  fault, as long as no tag of the document is empty. An empty tag is stored as a null pointer, which the next tag runs into.
\<close>

section \<open>Well-formed objects\<close>

text \<open>Tags are non-null, not empty and without duplicates; the objects of a list have names, all of them different.\<close>

definition registry_wf :: "registry \<Rightarrow> bool" where
  "registry_wf g \<longleftrightarrow> tags_ok (reg_roles g)"

definition task_wf :: "task \<Rightarrow> bool" where
  "task_wf t \<longleftrightarrow>
     tags_ok (task_tags t) \<and> named_distinct opt_id (task_options t)
     \<and> named_distinct reg_uri (task_registries t) \<and> list_all registry_wf (task_registries t)"

definition capability_wf :: "capability \<Rightarrow> bool" where
  "capability_wf c \<longleftrightarrow> tags_ok (cap_tags c) \<and> named_distinct task_name (cap_tasks c) \<and> list_all task_wf (cap_tasks c)"

definition supp_wf :: "supp \<Rightarrow> bool" where
  "supp_wf s \<longleftrightarrow> tags_ok (supp_match s)"

definition action_wf :: "action \<Rightarrow> bool" where
  "action_wf a \<longleftrightarrow>
     tags_ok (act_destinations a) \<and> tags_ok (act_tags a) \<and> tags_ok (act_suppression_tags a)
     \<and> named_distinct opt_id (act_options a)"

definition schedule_wf :: "schedule \<Rightarrow> bool" where
  "schedule_wf s \<longleftrightarrow>
     tags_ok (sched_tags s) \<and> tags_ok (sched_suppression_tags s)
     \<and> named_distinct act_name (sched_actions s) \<and> list_all action_wf (sched_actions s)"

definition lmap_wf :: "lmap \<Rightarrow> bool" where
  "lmap_wf l \<longleftrightarrow>
     (case lm_capabilities l of None \<Rightarrow> True | Some c \<Rightarrow> capability_wf c)
     \<and> named_distinct task_name (lm_tasks l) \<and> list_all task_wf (lm_tasks l)
     \<and> named_distinct sched_name (lm_schedules l) \<and> list_all schedule_wf (lm_schedules l)
     \<and> named_distinct supp_name (lm_supps l) \<and> list_all supp_wf (lm_supps l)
     \<and> named_distinct ev_name (lm_events l)"

lemmas wf_defs = registry_wf_def task_wf_def capability_wf_def supp_wf_def action_wf_def schedule_wf_def

section \<open>Steps that keep a property\<close>

definition keeps :: "('c \<Rightarrow> bool) \<Rightarrow> ('c \<Rightarrow> 'c outcome) \<Rightarrow> bool" where
  "keeps P f \<longleftrightarrow> (\<forall>c. P c \<longrightarrow> (\<exists>c'. f c = Inr c' \<and> P c'))"

definition keeps_result :: "('c \<Rightarrow> bool) \<Rightarrow> ('c \<Rightarrow> (int \<times> 'c) outcome) \<Rightarrow> bool" where
  "keeps_result P f \<longleftrightarrow> (\<forall>c. P c \<longrightarrow> (\<exists>r c'. f c = Inr (r, c') \<and> P c'))"

lemma keepsD: "keeps P f \<Longrightarrow> P c \<Longrightarrow> \<exists>c'. f c = Inr c' \<and> P c'"
  by (simp add: keeps_def)

lemma keeps_obind: "keeps P f \<Longrightarrow> keeps P g \<Longrightarrow> keeps P (\<lambda>c. obind (f c) g)"
  unfolding keeps_def by (metis obind_simps(2))

lemma keeps_skip: "keeps P Inr"
  by (simp add: keeps_def)

lemma keeps_if: "keeps P f \<Longrightarrow> keeps P g \<Longrightarrow> keeps P (\<lambda>c. if b then f c else g c)"
  by (cases b) simp_all

lemma keeps_steps: "list_all (keeps P) fs \<Longrightarrow> keeps P (steps fs)"
proof (induction fs)
  case Nil
  then show ?case by (simp add: keeps_def)
next
  case (Cons f fs)
  then have "keeps P (\<lambda>c. obind (f c) (steps fs))" by (intro keeps_obind) simp_all
  moreover have "steps (f # fs) = (\<lambda>c. obind (f c) (steps fs))" by (intro ext) simp
  ultimately show ?case by simp
qed

lemma keeps_children:
  "(\<And>e. e \<in> set es \<Longrightarrow> keeps P (\<lambda>c. h c e)) \<Longrightarrow> keeps P (\<lambda>c. xml_children ns h c es)"
proof (induction es)
  case Nil
  then show ?case by (simp add: keeps_def)
next
  case (Cons e es)
  have "keeps P (\<lambda>c. h c e)" "keeps P (\<lambda>c. xml_children ns h c es)" using Cons by simp_all
  then show ?case unfolding keeps_def by (simp add: obind_def) (metis sum.simps(6))
qed

lemma keeps_nodes: "(\<And>e. e \<in> set es \<Longrightarrow> keeps P (\<lambda>c. h c e)) \<Longrightarrow> keeps P (\<lambda>c. xml_nodes h c es)"
proof (induction es)
  case Nil
  then show ?case by (simp add: keeps_def)
next
  case (Cons e es)
  have "keeps P (\<lambda>c. h c e)" "keeps P (\<lambda>c. xml_nodes h c es)" using Cons by simp_all
  then show ?case unfolding keeps_def by (simp add: obind_def) (metis sum.simps(6))
qed

lemma keeps_lookup:
  assumes "\<And>n fl f. (n, fl, f) \<in> set tab \<Longrightarrow> el_name e = n \<Longrightarrow> keeps_result P (\<lambda>c. f c (el_text e))"
  shows "keeps P (\<lambda>c. xml_lookup ap tab c e)"
  using assms
proof (induction tab)
  case Nil
  then show ?case by (simp add: keeps_def)
next
  case (Cons x tab)
  obtain n fl f where x: "x = (n, fl, f)" by (cases x)
  have "keeps P (\<lambda>c. xml_lookup ap tab c e)"
  proof (rule Cons.IH)
    fix m fm g assume "(m, fm, g) \<in> set tab" "el_name e = m"
    then show "keeps_result P (\<lambda>c. g c (el_text e))" by (intro Cons.prems [of m fm g]) simp_all
  qed
  moreover have "el_name e = n \<Longrightarrow> keeps_result P (\<lambda>c. f c (el_text e))" using Cons.prems [of n fl f] x by simp
  ultimately show ?case
    unfolding keeps_def keeps_result_def by (auto simp: x) fastforce
qed

lemma keeps_text: "(\<And>c. P c \<Longrightarrow> P (snd (f c (Some s)))) \<Longrightarrow> keeps_result P (\<lambda>c. text_setter f c s)"
  unfolding keeps_result_def text_setter_def by (metis prod.collapse)

lemma keeps_plain: "(\<And>c. P c \<Longrightarrow> P (snd (f c s))) \<Longrightarrow> keeps_result P (\<lambda>c. plain_setter f c s)"
  unfolding keeps_result_def plain_setter_def by (metis prod.collapse)

lemma keeps_tag:
  assumes "s \<noteq> []" "\<And>c. f c (Some s) = put (\<lambda>ts. upd ts c) (add_tag (items c) (Some s))"
    and "\<And>c. P c \<Longrightarrow> tags_ok (items c)" "\<And>c ts. P c \<Longrightarrow> tags_ok ts \<Longrightarrow> P (upd ts c)"
  shows "keeps_result P (\<lambda>c. tag_adder f c s)"
  unfolding keeps_result_def tag_adder_def
proof (intro allI impI)
  fix c assume "P c"
  with add_tag_ok [OF assms(3) assms(1)] obtain r ts where "add_tag (items c) (Some s) = Inr (r, ts)" "tags_ok ts" by blast
  then show "\<exists>r c'. f c (Some s) = Inr (r, c') \<and> P c'" using assms(2,4) \<open>P c\<close> by simp
qed

text \<open>Parse an object and append it to a list of named objects.\<close>

lemma keeps_add:
  assumes "\<exists>x. p = Inr x \<and> Q x" "\<And>c x. add c x = put (\<lambda>xs. upd xs c) (append_named key (items c) x)"
    and "\<And>c. P c \<Longrightarrow> named_distinct key (items c) \<and> list_all Q (items c)"
    and "\<And>c xs. P c \<Longrightarrow> named_distinct key xs \<Longrightarrow> list_all Q xs \<Longrightarrow> P (upd xs c)"
  shows "keeps P (\<lambda>c. xml_add p add c)"
  unfolding keeps_def
proof (intro allI impI)
  fix c assume c: "P c"
  obtain x where x: "p = Inr x" "Q x" using assms(1) by blast
  have d: "named_distinct key (items c)" "list_all Q (items c)" using assms(3) c by simp_all
  show "\<exists>c'. xml_add p add c = Inr c' \<and> P c'"
  proof (cases "key x = None \<or> key x \<in> key ` set (items c)")
    case True
    then have "xml_add p add c = Inr (upd (items c) c)"
      using d x by (simp add: xml_add_def assms(2) append_named_cases)
    then show ?thesis using assms(4) [OF c d] by simp
  next
    case False
    then have "append_named key (items c) x = Inr (0, items c @ [x])"
      using d(1) by (simp only: append_named_cases if_False)
    then have "xml_add p add c = Inr (upd (items c @ [x]) c)"
      using x by (simp add: xml_add_def assms(2))
    moreover have "named_distinct key (items c @ [x])" using False d by (simp add: named_distinct_snoc)
    ultimately show ?thesis using assms(4) [OF c, of "items c @ [x]"] d x by simp
  qed
qed

lemma keeps_node:
  "(\<And>e. e \<in> set (el_children node) \<Longrightarrow> keeps P (\<lambda>c. h c e)) \<Longrightarrow> P c \<Longrightarrow> \<exists>c'. xml_node h c node = Inr c' \<and> P c'"
  unfolding xml_node_def by (rule keepsD [OF keeps_children])

section \<open>The parsers\<close>

text \<open>No tag of a document is empty.\<close>

fun full_tags :: "xml \<Rightarrow> bool" where
  "full_tags (Elem ns n t es) \<longleftrightarrow>
     (n \<in> {''tag'', ''role'', ''match'', ''destination'', ''suppression-tag''} \<longrightarrow> t \<noteq> []) \<and> list_all full_tags es"

lemma full_tagsD:
  "full_tags e \<Longrightarrow> el_name e \<in> {''tag'', ''role'', ''match'', ''destination'', ''suppression-tag''} \<Longrightarrow> el_text e \<noteq> []"
  "full_tags e \<Longrightarrow> c \<in> set (el_children e) \<Longrightarrow> full_tags c"
  by (cases e; auto simp: list_all_iff)+

lemma xml_parse_option_total: "\<exists>p. xml_parse_option e w = Inr p"
proof -
  have "keeps (\<lambda>p. True) (\<lambda>c. xml_lookup (xml_applies w) xml_option_tab c e)" for e
    by (rule keeps_lookup) (auto simp: xml_option_tab_def intro!: keeps_text)
  then have "\<exists>p. xml_node (xml_lookup (xml_applies w) xml_option_tab) lmap_option_new e = Inr p \<and> True"
    by (intro keeps_node [where P = "\<lambda>p. True"]) simp_all
  then show ?thesis by (simp add: xml_parse_option_def)
qed

lemma xml_parse_registry_wf:
  assumes "full_tags e"
  shows "\<exists>g. xml_parse_registry e w = Inr g \<and> registry_wf g"
  unfolding xml_parse_registry_def
proof (rule keeps_node)
  fix c assume "c \<in> set (el_children e)"
  then have "full_tags c" using assms full_tagsD by blast
  then show "keeps registry_wf (\<lambda>g. xml_lookup (xml_applies w) xml_registry_tab g c)"
    by (intro keeps_lookup)
      (auto simp: xml_registry_tab_def lmap_registry_set_uri_def lmap_registry_add_role_def wf_defs
        intro!: keeps_text keeps_tag dest: full_tagsD split: prod.split)
qed (simp add: wf_defs lmap_registry_new_def tags_ok_def)

lemma xml_parse_task_wf:
  assumes "full_tags e"
  shows "\<exists>t. xml_parse_task e w = Inr t \<and> task_wf t"
  unfolding xml_parse_task_def
proof (rule keeps_node)
  fix c assume "c \<in> set (el_children e)"
  then have c: "full_tags c" using assms full_tagsD by blast
  have "keeps task_wf (\<lambda>t. xml_lookup (xml_applies w) xml_task_tab t c)"
    using c
    by (intro keeps_lookup)
      (auto simp: xml_task_tab_def lmap_task_set_name_def lmap_task_set_program_def lmap_task_add_tag_def wf_defs
        intro!: keeps_text keeps_tag dest: full_tagsD split: prod.split)
  moreover have "keeps task_wf (xml_add (xml_parse_option c w) lmap_task_add_option)"
    by (rule keeps_add [where Q = "\<lambda>p. True" and items = task_options and upd = "\<lambda>ps t. t\<lparr>task_options := ps\<rparr>"])
      (simp_all add: xml_parse_option_total lmap_task_add_option_def add_option_def wf_defs list.pred_True)
  moreover have "keeps task_wf (xml_add (xml_parse_registry c w) lmap_task_add_registry)"
    by (rule keeps_add [OF xml_parse_registry_wf [OF c], where items = task_registries
          and upd = "\<lambda>gs t. t\<lparr>task_registries := gs\<rparr>"])
      (simp_all add: lmap_task_add_registry_def task_wf_def)
  ultimately show "keeps task_wf (\<lambda>t. xml_task_child w t c)"
    unfolding xml_task_child_def by (intro keeps_if)
qed (simp add: wf_defs lmap_task_new_def tags_ok_def)

lemma xml_parse_capability_task_wf:
  assumes "full_tags e"
  shows "\<exists>t. xml_parse_capability_task e w = Inr t \<and> task_wf t"
  unfolding xml_parse_capability_task_def
proof (rule keeps_node)
  fix c assume "c \<in> set (el_children e)"
  then have c: "full_tags c" using assms full_tagsD by blast
  have "keeps task_wf (\<lambda>t. xml_lookup (xml_applies w) xml_capability_task_tab t c)"
    by (intro keeps_lookup)
      (auto simp: xml_capability_task_tab_def lmap_task_set_name_def lmap_task_set_program_def lmap_task_set_version_def
        wf_defs intro!: keeps_text split: prod.split)
  moreover have "keeps task_wf (xml_add (xml_parse_registry c w) lmap_task_add_registry)"
    by (rule keeps_add [OF xml_parse_registry_wf [OF c], where items = task_registries
          and upd = "\<lambda>gs t. t\<lparr>task_registries := gs\<rparr>"])
      (simp_all add: lmap_task_add_registry_def task_wf_def)
  ultimately show "keeps task_wf (\<lambda>t. xml_capability_task_child w t c)"
    unfolding xml_capability_task_child_def by (intro keeps_if)
qed (simp add: wf_defs lmap_task_new_def tags_ok_def)

lemma xml_parse_suppression_wf:
  assumes "full_tags e"
  shows "\<exists>s. xml_parse_suppression e w = Inr s \<and> supp_wf s"
  unfolding xml_parse_suppression_def
proof (rule keeps_node)
  fix c assume "c \<in> set (el_children e)"
  then have "full_tags c" using assms full_tagsD by blast
  then show "keeps supp_wf (\<lambda>s. xml_lookup (xml_applies w) xml_supp_tab s c)"
    by (intro keeps_lookup)
      (auto simp: xml_supp_tab_def lmap_supp_set_name_def lmap_supp_set_start_def lmap_supp_set_end_def
        lmap_supp_add_match_def lmap_supp_set_stop_running_def lmap_supp_set_state_def wf_defs
        intro!: keeps_text keeps_plain keeps_tag dest: full_tagsD split: prod.split option.split)
qed (simp add: wf_defs lmap_supp_new_def tags_ok_def)

lemma xml_parse_action_wf:
  assumes "full_tags e"
  shows "\<exists>a. xml_parse_action X e w = Inr a \<and> action_wf a"
  unfolding xml_parse_action_def
proof (rule keeps_node)
  fix c assume "c \<in> set (el_children e)"
  then have c: "full_tags c" using assms full_tagsD by blast
  have "keeps action_wf (\<lambda>a. xml_lookup (xml_applies w) (xml_action_tab X) a c)"
    using c
    by (intro keeps_lookup)
      (auto simp: xml_action_tab_def lmap_action_set_name_def lmap_action_set_task_def lmap_action_add_destination_def
        lmap_action_add_tag_def lmap_action_add_suppression_tag_def lmap_action_set_state_def lmap_action_set_storage_def
        lmap_action_set_invocations_def lmap_action_set_suppressions_def lmap_action_set_overlaps_def
        lmap_action_set_failures_def lmap_action_set_last_invocation_def lmap_action_set_last_completion_def
        lmap_action_set_last_status_def lmap_action_set_last_message_def lmap_action_set_last_failed_completion_def
        lmap_action_set_last_failed_status_def lmap_action_set_last_failed_message_def wf_defs
        intro!: keeps_text keeps_plain keeps_tag dest: full_tagsD split: prod.split option.split)
  moreover have "keeps action_wf (xml_add (xml_parse_option c w) lmap_action_add_option)"
    by (rule keeps_add [where Q = "\<lambda>p. True" and items = act_options and upd = "\<lambda>ps a. a\<lparr>act_options := ps\<rparr>"])
      (simp_all add: xml_parse_option_total lmap_action_add_option_def add_option_def wf_defs list.pred_True)
  ultimately show "keeps action_wf (\<lambda>a. xml_action_child X w a c)"
    unfolding xml_action_child_def by (intro keeps_if)
qed (simp add: wf_defs lmap_action_new_def tags_ok_def)

lemma xml_parse_schedule_wf:
  assumes "full_tags e"
  shows "\<exists>s. xml_parse_schedule X e w = Inr s \<and> schedule_wf s"
  unfolding xml_parse_schedule_def
proof (rule keeps_node)
  fix c assume "c \<in> set (el_children e)"
  then have c: "full_tags c" using assms full_tagsD by blast
  have "keeps schedule_wf (\<lambda>s. xml_lookup (xml_applies w) (xml_schedule_tab X) s c)"
    using c
    by (intro keeps_lookup)
      (auto simp: xml_schedule_tab_def lmap_schedule_set_name_def lmap_schedule_set_start_def lmap_schedule_set_end_def
        lmap_schedule_set_duration_def lmap_schedule_set_exec_mode_def lmap_schedule_add_tag_def
        lmap_schedule_add_suppression_tag_def lmap_schedule_set_state_def lmap_schedule_set_storage_def
        lmap_schedule_set_invocations_def lmap_schedule_set_suppressions_def lmap_schedule_set_overlaps_def
        lmap_schedule_set_failures_def lmap_schedule_set_last_invocation_def schedule_wf_def
        intro!: keeps_text keeps_plain keeps_tag dest: full_tagsD split: prod.split option.split)
  moreover have "keeps schedule_wf (xml_add (xml_parse_action X c w) lmap_schedule_add_action)"
    by (rule keeps_add [OF xml_parse_action_wf [OF c], where items = sched_actions
          and upd = "\<lambda>as s. s\<lparr>sched_actions := as\<rparr>"])
      (simp_all add: lmap_schedule_add_action_def schedule_wf_def)
  ultimately show "keeps schedule_wf (\<lambda>s. xml_schedule_child X w s c)"
    unfolding xml_schedule_child_def by (intro keeps_if)
qed (simp add: schedule_wf_def lmap_schedule_new_def tags_ok_def)

text \<open>Of an event nothing is asked but that its parser comes to an end.\<close>

lemma keeps_any_lookup:
  assumes "\<And>n fl f c s. (n, fl, f) \<in> set tab \<Longrightarrow> \<exists>r c'. f c s = Inr (r, c')"
  shows "keeps (\<lambda>c. True) (\<lambda>c. xml_lookup ap tab c e)"
  by (rule keeps_lookup) (use assms in \<open>simp add: keeps_result_def\<close>)

lemma any_setter: "\<exists>r c'. text_setter f c s = Inr (r, c')" "\<exists>r c'. plain_setter g c s = Inr (r, c')"
  unfolding text_setter_def plain_setter_def by (metis prod.collapse)+

lemma keeps_any_node:
  "(\<And>e. keeps (\<lambda>c. True) (\<lambda>c. h c e)) \<Longrightarrow> \<exists>c'. xml_node h c node = Inr c'"
  using keeps_node [of node "\<lambda>c. True" h c] by blast

lemma xml_event_parts_total:
  "\<exists>e. xml_parse_periodic X ev node w = Inr e" "\<exists>e. xml_parse_calendar X ev node w = Inr e"
  "\<exists>e. xml_parse_one_off X ev node w = Inr e"
  unfolding xml_parse_periodic_def xml_parse_calendar_def xml_parse_one_off_def
  by (intro keeps_any_node keeps_any_lookup;
      auto simp: xml_periodic_tab_def xml_calendar_tab_def xml_one_off_tab_def intro: any_setter)+

lemma keeps_event_lookup:
  assumes "\<And>n fl f p. (n, fl, f, p) \<in> set tab \<Longrightarrow>
    (case f of Set_Type \<Rightarrow> True | Set_Text g \<Rightarrow> \<forall>c s. \<exists>r c'. g c s = Inr (r, c'))
    \<and> (case p of None \<Rightarrow> True | Some q \<Rightarrow> \<forall>c e. \<exists>c'. q c e w = Inr c')"
  shows "\<exists>c'. xml_event_lookup w tab c e = Inr c'"
  using assms
proof (induction tab)
  case (Cons x tab)
  obtain n fl f p where x: "x = (n, fl, f, p)" by (cases x)
  have "\<exists>c'. xml_event_lookup w tab c e = Inr c'"
  proof (rule Cons.IH)
    fix m fm g q assume "(m, fm, g, q) \<in> set tab"
    then show "(case g of Set_Type \<Rightarrow> True | Set_Text g \<Rightarrow> \<forall>c s. \<exists>r c'. g c s = Inr (r, c'))
      \<and> (case q of None \<Rightarrow> True | Some q \<Rightarrow> \<forall>c e. \<exists>c'. q c e w = Inr c')"
      by (intro Cons.prems [of m fm]) simp
  qed
  moreover obtain r c1 where "(case f of Set_Type \<Rightarrow> Inr (lmap_event_set_type c (el_name e)) | Set_Text g \<Rightarrow> g c (el_text e)) = Inr (r, c1)"
    using Cons.prems [of n fl f p] x by (cases f; cases "lmap_event_set_type c (el_name e)"; fastforce)
  moreover have "\<exists>c'. (case p of None \<Rightarrow> Inr c1 | Some q \<Rightarrow> q c1 e w) = Inr c'"
    using Cons.prems [of n fl f p] x by (cases p) auto
  ultimately show ?case by (auto simp: x)
qed simp

lemma xml_parse_event_total: "\<exists>e. xml_parse_event X node w = Inr e"
  unfolding xml_parse_event_def
proof (rule keeps_any_node)
  fix e
  have "\<exists>c'. xml_event_lookup w (xml_event_tab X) c e = Inr c'" for c
    by (rule keeps_event_lookup) (auto simp: xml_event_tab_def xml_event_parts_total any_setter)
  then show "keeps (\<lambda>c. True) (\<lambda>c. xml_event_lookup w (xml_event_tab X) c e)" by (simp add: keeps_def)
qed

lemma xml_parse_capability_tags_wf:
  assumes "full_tags e"
  shows "keeps capability_wf (\<lambda>c. xml_capability_child w c e)"
  unfolding xml_capability_child_def
  by (intro keeps_if keeps_skip keeps_lookup)
    (use assms in \<open>auto simp: xml_capability_tab_def lmap_capability_set_version_def lmap_capability_add_tag_def capability_wf_def
      intro!: keeps_text keeps_tag dest: full_tagsD split: prod.split\<close>)

section \<open>Documents\<close>

text \<open>The elements that a path finds are elements of the document.\<close>

lemma xpath_full_tags: "full_tags e \<Longrightarrow> x \<in> set (xpath_from uri path up e) \<Longrightarrow> full_tags x"
proof (induction e arbitrary: up)
  case (Elem ns n t es)
  show ?case
  proof (cases "x = Elem ns n t es")
    case False
    then obtain e where e: "e \<in> set es" "x \<in> set (xpath_from uri path (Elem ns n t es # up) e)"
      using Elem.prems(2) by (auto split: if_splits)
    moreover have "full_tags e" using Elem.prems(1) e(1) by (simp add: list_all_iff)
    ultimately show ?thesis using Elem.IH by blast
  qed (use Elem.prems in simp)
qed

lemma the_capability_wf: "lmap_wf l \<Longrightarrow> capability_wf (the_capability l)"
  by (simp add: lmap_wf_def the_capability_def capability_wf_def lmap_capability_new_def tags_ok_def split: option.splits)

lemma keeps_capability:
  assumes "\<And>e. e \<in> set es \<Longrightarrow> keeps capability_wf (\<lambda>c. h c e)"
  shows "keeps lmap_wf (\<lambda>l. obind (xml_nodes h (the_capability l) es) (\<lambda>c. Inr (l\<lparr>lm_capabilities := Some c\<rparr>)))"
  unfolding keeps_def
proof (intro allI impI)
  fix l assume l: "lmap_wf l"
  have "keeps capability_wf (\<lambda>c. xml_nodes h c es)" by (rule keeps_nodes) (rule assms)
  from keepsD [OF this the_capability_wf [OF l]] obtain c where
    "xml_nodes h (the_capability l) es = Inr c" "capability_wf c" by blast
  then show "\<exists>l'. obind (xml_nodes h (the_capability l) es) (\<lambda>c. Inr (l\<lparr>lm_capabilities := Some c\<rparr>)) = Inr l' \<and> lmap_wf l'"
    using l by (simp add: lmap_wf_def)
qed

lemma keeps_case:
  "keeps P f \<Longrightarrow> keeps P (g es) \<Longrightarrow> keeps P (\<lambda>l. case es of [] \<Rightarrow> f l | x # xs \<Rightarrow> g (x # xs) l)"
  by (cases es) simp_all

lemma xml_parse_agent_wf: "keeps lmap_wf (xml_parse_agent X doc w)"
  unfolding xml_parse_agent_def
proof (rule keeps_case [where g = "\<lambda>es l. obind (xml_nodes (xml_lookup (xml_applies w) (xml_agent_tab X)) (the_agent l) es)
    (\<lambda>a. Inr (l\<lparr>lm_agent := Some a\<rparr>))", OF keeps_skip])
  let ?es = "xpath LMAPC_XML_NAMESPACE [None, Some ''agent'', Some ''lmap''] doc"
  have "keeps (\<lambda>a. True) (\<lambda>a. xml_nodes (xml_lookup (xml_applies w) (xml_agent_tab X)) a ?es)"
    by (rule keeps_nodes, rule keeps_any_lookup) (auto simp: xml_agent_tab_def intro: any_setter)
  note k = keepsD [OF this]
  show "keeps lmap_wf (\<lambda>l. obind (xml_nodes (xml_lookup (xml_applies w) (xml_agent_tab X)) (the_agent l) ?es)
      (\<lambda>a. Inr (l\<lparr>lm_agent := Some a\<rparr>)))"
    unfolding keeps_def
  proof (intro allI impI)
    fix l assume "lmap_wf l"
    moreover obtain a where "xml_nodes (xml_lookup (xml_applies w) (xml_agent_tab X)) (the_agent l) ?es = Inr a"
      using k [of "the_agent l"] by blast
    ultimately show "\<exists>l'. obind (xml_nodes (xml_lookup (xml_applies w) (xml_agent_tab X)) (the_agent l) ?es)
        (\<lambda>a. Inr (l\<lparr>lm_agent := Some a\<rparr>)) = Inr l' \<and> lmap_wf l'"
      by (simp add: lmap_wf_def)
  qed
qed

lemma xml_parse_capabilities_wf:
  assumes "full_tags doc"
  shows "keeps lmap_wf (xml_parse_capabilities doc w)" "keeps lmap_wf (xml_parse_capability_tasks doc w)"
proof -
  have full: "full_tags e" if "e \<in> set (xpath uri path doc)" for uri path e
    using that xpath_full_tags [OF assms] unfolding xpath_def by blast
  have "keeps lmap_wf (\<lambda>l. obind (xml_nodes (xml_capability_child w) (the_capability l)
      (xpath LMAPC_XML_NAMESPACE [None, Some ''capabilities'', Some ''lmap''] doc)) (\<lambda>c. Inr (l\<lparr>lm_capabilities := Some c\<rparr>)))"
    by (rule keeps_capability) (auto dest: full intro: xml_parse_capability_tags_wf)
  then show "keeps lmap_wf (xml_parse_capabilities doc w)"
    unfolding xml_parse_capabilities_def
    by (rule keeps_case [where g = "\<lambda>es l. obind (xml_nodes (xml_capability_child w) (the_capability l) es)
        (\<lambda>c. Inr (l\<lparr>lm_capabilities := Some c\<rparr>))", OF keeps_skip])
  show "keeps lmap_wf (xml_parse_capability_tasks doc w)"
    unfolding xml_parse_capability_tasks_def
  proof (rule keeps_capability)
    fix e assume "e \<in> set (xpath LMAPC_XML_NAMESPACE [Some ''task'', Some ''tasks'', Some ''capabilities'', Some ''lmap''] doc)"
    then show "keeps capability_wf (\<lambda>c. xml_add (xml_parse_capability_task e w) lmap_capability_add_task c)"
      by (intro keeps_add [OF xml_parse_capability_task_wf [OF full], where items = cap_tasks
            and upd = "\<lambda>ts c. c\<lparr>cap_tasks := ts\<rparr>"])
        (simp_all add: lmap_capability_add_task_def capability_wf_def)
  qed
qed

lemma xml_parse_lists_wf:
  assumes "full_tags doc"
  shows "keeps lmap_wf (xml_parse_tasks doc w)" "keeps lmap_wf (xml_parse_schedules X doc w)"
    "keeps lmap_wf (xml_parse_suppressions doc w)" "keeps lmap_wf (xml_parse_events X doc w)"
proof -
  have full: "full_tags e" if "e \<in> set (xpath uri path doc)" for uri path e
    using that xpath_full_tags [OF assms] unfolding xpath_def by blast
  show "keeps lmap_wf (xml_parse_tasks doc w)"
    unfolding xml_parse_tasks_def
    by (rule keeps_nodes, rule keeps_add [OF xml_parse_task_wf [OF full], where items = lm_tasks
          and upd = "\<lambda>xs l. l\<lparr>lm_tasks := xs\<rparr>"], assumption)
      (simp_all add: lmap_add_task_def lmap_wf_def)
  show "keeps lmap_wf (xml_parse_schedules X doc w)"
    unfolding xml_parse_schedules_def
    by (rule keeps_nodes, rule keeps_add [OF xml_parse_schedule_wf [OF full], where items = lm_schedules
          and upd = "\<lambda>xs l. l\<lparr>lm_schedules := xs\<rparr>"], assumption)
      (simp_all add: lmap_add_schedule_def lmap_wf_def)
  show "keeps lmap_wf (xml_parse_suppressions doc w)"
    unfolding xml_parse_suppressions_def
    by (rule keeps_nodes, rule keeps_add [OF xml_parse_suppression_wf [OF full], where items = lm_supps
          and upd = "\<lambda>xs l. l\<lparr>lm_supps := xs\<rparr>"], assumption)
      (simp_all add: lmap_add_supp_def lmap_wf_def)
  show "keeps lmap_wf (xml_parse_events X doc w)"
    unfolding xml_parse_events_def
    by (rule keeps_nodes, rule keeps_add [where Q = "\<lambda>e. True" and items = lm_events
          and upd = "\<lambda>xs l. l\<lparr>lm_events := xs\<rparr>"])
      (simp_all add: xml_parse_event_total lmap_add_event_def lmap_wf_def list.pred_True)
qed

text \<open>
  C15. A configuration or a state in XML whose tags are not empty is accepted whatever else it says: the parser returns 0
  without a fault, and a well-formed model stays well-formed, with the names of its lists distinct, no object without a
  name and no tag null, empty or twice.
\<close>
theorem xml_parse_keeps_wf:
  assumes "full_tags doc" "lmap_wf l"
  shows "\<exists>l'. xml_parse_control X l doc w = Inr (0, l') \<and> lmap_wf l'"
proof -
  have "keeps lmap_wf (steps [xml_parse_capabilities doc w, xml_parse_capability_tasks doc w, xml_parse_agent X doc w,
      xml_parse_schedules X doc w, xml_parse_suppressions doc w, xml_parse_tasks doc w, xml_parse_events X doc w])"
    by (rule keeps_steps)
      (simp add: xml_parse_agent_wf xml_parse_capabilities_wf [OF assms(1)] xml_parse_lists_wf [OF assms(1)])
  from keepsD [OF this assms(2)] show ?thesis by (auto simp: xml_parse_control_def simp del: steps_simps)
qed

lemma xml_parse_keeps_wf_witness:
  "\<exists>l'. xml_parse_control utc_xml0 lmap_new
     (lmapc_doc ''config'' [] [] [Elem lmapc_ns ''tasks'' [] [Elem lmapc_ns ''task'' [] [Elem lmapc_ns ''tag'' ''a'' []]]])
     PARSE_CONFIG_TRUE = Inr (0, l') \<and> lmap_wf l'"
  by (rule xml_parse_keeps_wf) (simp_all add: control_doc_def lmap_wf_def lmap_new_def)

text \<open>
  C26. A task with an empty tag followed by another one ends the daemon when its configuration is read.
\<close>
theorem xml_empty_tag_crashes:
  assumes "s \<noteq> []"
  shows "xml_parse_config_doc X l
    (lmapc_doc root [] [] [Elem lmapc_ns ''tasks'' [] [Elem lmapc_ns ''task'' []
       [Elem lmapc_ns ''tag'' [] [], Elem lmapc_ns ''tag'' s []]]]) = Inl Null_Deref"
proof -
  let ?es = "[Elem lmapc_ns ''tasks'' [] [Elem lmapc_ns ''task'' [] [Elem lmapc_ns ''tag'' [] [], Elem lmapc_ns ''tag'' s []]]]"
  let ?d = "lmapc_doc root [] [] ?es"
  define l1 where "l1 = l\<lparr>lm_capabilities := Some (the_capability l)\<rparr>"
  have "list_all (sane lmapc_ns) ?es" by simp
  note nodes = lmapc_paths [OF this] named_def xml_node_def
  have w: "flag_on PARSE_CONFIG_TRUE PARSE_CONFIG_TRUE" by (simp add: flag_on_self parse_flag_defs)
  have "obind (xml_parse_capabilities ?d PARSE_CONFIG_TRUE l) (xml_parse_capability_tasks ?d PARSE_CONFIG_TRUE) = Inr l1"
    by (simp add: xml_parse_capabilities_both nodes l1_def)
  then obtain l0 where l0: "xml_parse_capabilities ?d PARSE_CONFIG_TRUE l = Inr l0"
    "xml_parse_capability_tasks ?d PARSE_CONFIG_TRUE l0 = Inr l1"
    unfolding obind_Inr by blast
  have "xml_parse_agent X ?d w l1 = Inr l1" "xml_parse_schedules X ?d w l1 = Inr l1" "xml_parse_suppressions ?d w l1 = Inr l1" for w
    by (simp_all add: xml_parse_agent_onto xml_parse_schedules_def xml_parse_suppressions_def nodes)
  moreover have "xml_parse_task (Elem lmapc_ns ''task'' [] [Elem lmapc_ns ''tag'' [] [], Elem lmapc_ns ''tag'' s []])
      PARSE_CONFIG_TRUE = Inl Null_Deref"
  proof -
    have "xml_task_child PARSE_CONFIG_TRUE lmap_task_new (Elem lmapc_ns ''tag'' [] []) = Inr (lmap_task_new\<lparr>task_tags := [None]\<rparr>)"
      using w by (simp add: xml_task_child_def xml_task_tab_def tag_adder_def lmap_task_add_tag_def lmap_task_new_def
          add_tag_def add_tag_empty_value)
    moreover have "xml_task_child PARSE_CONFIG_TRUE (lmap_task_new\<lparr>task_tags := [None]\<rparr>) (Elem lmapc_ns ''tag'' s []) = Inl Null_Deref"
      using w by (simp add: xml_task_child_def xml_task_tab_def tag_adder_def lmap_task_add_tag_def add_tag_def)
    ultimately show ?thesis by (simp add: xml_parse_task_def xml_node_def)
  qed
  then have "xml_parse_tasks ?d PARSE_CONFIG_TRUE l1 = Inl Null_Deref"
    by (simp add: xml_parse_tasks_def nodes xml_add_def)
  ultimately show ?thesis using l0 by (simp add: xml_parse_config_doc_def xml_parse_control_def)
qed

lemma xml_empty_tag_crashes_witness:
  "xml_parse_config_doc utc_xml0 lmap_new
    (lmapc_doc ''config'' [] [] [Elem lmapc_ns ''tasks'' [] [Elem lmapc_ns ''task'' []
       [Elem lmapc_ns ''tag'' [] [], Elem lmapc_ns ''tag'' ''a'' []]]]) = Inl Null_Deref"
  by (rule xml_empty_tag_crashes) simp

end
