(* ===== verification/Lmap_Io.thy ===== *)
theory Lmap_Io
  imports Xml_Files Result_Files
begin

text \<open>
  The choice of the file format (\<^verbatim>\<open>src/lmap-io.c\<close>). The static variable \<open>lmap_io_engine\<close> is an argument \<open>g\<close> of what reads it
  and a result of what sets it; which formats the program is built with, and the two libraries, are the record \<open>io\<close>.
\<close>

datatype lmap_io_engine = LMAP_IO_DEFAULT | LMAP_IO_XML | LMAP_IO_JSON | LMAP_IO_MAX

record io =
  io_with_xml :: bool
  io_with_json :: bool
  io_xmlc :: xmlc
  io_jsonc :: jsonc

text \<open>The program does not compile without any format.\<close>

definition DEFAULT_ENGINE :: "io \<Rightarrow> lmap_io_engine" where
  "DEFAULT_ENGINE io = (if io_with_xml io then LMAP_IO_XML else LMAP_IO_JSON)"

definition lmap_io_set_engine :: "io \<Rightarrow> lmap_io_engine \<Rightarrow> lmap_io_engine \<Rightarrow> int \<times> lmap_io_engine" where
  "lmap_io_set_engine io engine g =
     (if engine \<noteq> LMAP_IO_DEFAULT
         \<and> \<not> (io_with_xml io \<and> engine = LMAP_IO_XML)
         \<and> \<not> (io_with_json io \<and> engine = LMAP_IO_JSON)
      then (-1, g) else (0, engine))"

definition lmap_io_engine_name :: "lmap_io_engine \<Rightarrow> string" where
  "lmap_io_engine_name g = (case g of LMAP_IO_XML \<Rightarrow> ''XML'' | LMAP_IO_JSON \<Rightarrow> ''JSON'' | _ \<Rightarrow> '''')"

definition lmap_io_engine_ext :: "lmap_io_engine \<Rightarrow> string" where
  "lmap_io_engine_ext g = (case g of LMAP_IO_XML \<Rightarrow> ''.xml'' | LMAP_IO_JSON \<Rightarrow> ''.json'' | _ \<Rightarrow> '''')"

text \<open>The files are those of the format of the data, whatever the engine.\<close>

definition lmap_io_parse_task_results_fd :: "io \<Rightarrow> results_parser" where
  "lmap_io_parse_task_results_fd io filetype contents r =
     (if io_with_xml io \<and> filetype = LMAP_FT_XML then Inr (lmap_xml_parse_task_results_fd contents r)
      else if io_with_json io \<and> filetype = LMAP_FT_JSON
           then lmap_json_parse_task_results_fd (io_jsonc io) contents r
      else Inr (-1, r))"

text \<open>The macros that generate the dispatching functions.\<close>

definition lmap_io_dispatch :: "io \<Rightarrow> lmap_io_engine \<Rightarrow> 'a \<Rightarrow> 'a \<Rightarrow> 'a \<Rightarrow> 'a" where
  "lmap_io_dispatch io g x j none =
     (if io_with_xml io \<and> g = LMAP_IO_XML then x
      else if io_with_json io \<and> g = LMAP_IO_JSON then j
      else none)"

text \<open>
  \<open>CREATE_LMAP_IO_PARSE\<close>. The path of the capabilities may be \<open>NULL\<close>; the function it is passed to asserts that it is not.
\<close>

definition lmap_io_parse_config_path :: "io \<Rightarrow> lmap_io_engine \<Rightarrow> refusals \<Rightarrow> fs \<Rightarrow> file_parser" where
  "lmap_io_parse_config_path io g R fs l s =
     lmap_io_dispatch io g (lmap_xml_parse_config_path (io_xmlc io) R fs l s)
       (lmap_json_parse_config_path (io_jsonc io) R fs l s) (Inr (-1, l))"

definition lmap_io_parse_state_path ::
  "io \<Rightarrow> lmap_io_engine \<Rightarrow> refusals \<Rightarrow> fs \<Rightarrow> lmap \<Rightarrow> string option \<Rightarrow> (int \<times> lmap) outcome" where
  "lmap_io_parse_state_path io g R fs l path =
     lmap_io_dispatch io g
       (case path of None \<Rightarrow> Inl Assertion_Failed | Some s \<Rightarrow> lmap_xml_parse_state_path (io_xmlc io) R fs l s)
       (case path of None \<Rightarrow> Inl Assertion_Failed | Some s \<Rightarrow> lmap_json_parse_state_path (io_jsonc io) R fs l s)
       (Inr (-1, l))"

definition lmap_io_parse_state_file :: "io \<Rightarrow> lmap_io_engine \<Rightarrow> refusals \<Rightarrow> fs \<Rightarrow> file_parser" where
  "lmap_io_parse_state_file io g R fs l s =
     lmap_io_dispatch io g (lmap_xml_parse_state_file (io_xmlc io) R fs l s)
       (lmap_json_parse_state_file (io_jsonc io) R fs l s) (Inr (-1, l))"

text \<open>\<open>CREATE_LMAP_IO_RENDER\<close>: \<open>None\<close> is the null pointer.\<close>

definition lmap_io_render_config :: "io \<Rightarrow> lmap_io_engine \<Rightarrow> lmap \<Rightarrow> string option outcome" where
  "lmap_io_render_config io g l =
     lmap_io_dispatch io g
       (obind (lmap_xml_render_config (io_xmlc io) l) (\<lambda>s. Inr (Some s)))
       (obind (lmap_json_render_config (io_jsonc io) l) (\<lambda>s. Inr (Some s)))
       (Inr None)"

definition lmap_io_render_state :: "io \<Rightarrow> lmap_io_engine \<Rightarrow> lmap \<Rightarrow> string option outcome" where
  "lmap_io_render_state io g l =
     lmap_io_dispatch io g
       (obind (lmap_xml_render_state (io_xmlc io) l) (\<lambda>s. Inr (Some s)))
       (obind (lmap_json_render_state (io_jsonc io) l) (\<lambda>s. Inr (Some s)))
       (Inr None)"

definition lmap_io_render_report :: "io \<Rightarrow> lmap_io_engine \<Rightarrow> lmap \<Rightarrow> string option outcome" where
  "lmap_io_render_report io g l =
     lmap_io_dispatch io g
       (obind (lmap_xml_render_report (io_xmlc io) l) (\<lambda>s. Inr (Some s)))
       (obind (lmap_json_render_report (io_jsonc io) l) (\<lambda>s. Inr (Some s)))
       (Inr None)"

end
