(* ===== verification/Pidfile.thy ===== *)
theory Pidfile
  imports Lmap_Io
begin

text \<open>
  The file with the pid of the daemon (\<^verbatim>\<open>src/pidfile.c\<close>). \<open>alive p\<close> says that \<open>kill\<close> with signal 0 does not report
  that there is no process \<open>p\<close>; \<open>self\<close> is what \<open>getpid\<close> returns. Writing to an open file does not fail. The functions assert
  that there is a run path; \<open>asserts\<close> says whether the build has the assertions (\<^verbatim>\<open>debian/rules\<close> chooses a build type without them).
\<close>

definition LMAPD_PID_FILE :: string where
  "LMAPD_PID_FILE = ''lmapd.pid''"

definition LMAPD_STATUS_FILE :: string where
  "LMAPD_STATUS_FILE = ''lmapd-state''"

text \<open>
  The buffer \<open>pidfile\<close> of each function. In a build without assertions a missing run path is printed as the C libraries of Linux
  print \<open>NULL\<close>, which is a path relative to the working directory.
\<close>

definition pidfile :: "bool \<Rightarrow> lmapd \<Rightarrow> string outcome" where
  "pidfile asserts d =
     (case ld_run_path d of
        None \<Rightarrow> if asserts then Inl Assertion_Failed else Inr (path_buf (join ''(null)'' LMAPD_PID_FILE))
      | Some r \<Rightarrow> Inr (path_buf (join r LMAPD_PID_FILE)))"

text \<open>
  \<open>fscanf\<close> with the format \<^verbatim>\<open>%d\<close>: \<open>None\<close> unless it converts a number. As in the C libraries of Linux, a number outside
  \<open>int\<close> loses its upper bits.
\<close>

definition scan_int :: "string \<Rightarrow> int option" where
  "scan_int s =
     (case split_sign (dropWhile isspace s) of
        (neg, u) \<Rightarrow> if takeWhile isdigit u = [] then None else Some (signed_take_bit 31 (fst (strtoimax s))))"

text \<open>A directory can be opened for reading, but reading it fails: like a file that cannot be opened.\<close>

definition lmapd_pid_read :: "bool \<Rightarrow> refusals \<Rightarrow> (int \<Rightarrow> bool) \<Rightarrow> lmapd \<Rightarrow> fs \<Rightarrow> int outcome" where
  "lmapd_pid_read asserts R alive d fs =
     obind (pidfile asserts d)
       (\<lambda>p. case file_contents R fs p of
          None \<Rightarrow> Inr 0
        | Some s \<Rightarrow>
            (case scan_int s of
               None \<Rightarrow> Inr 0
             | Some pid \<Rightarrow> Inr (if 0 < pid \<and> alive pid then pid else 0)))"

definition lmapd_pid_check :: "bool \<Rightarrow> refusals \<Rightarrow> (int \<Rightarrow> bool) \<Rightarrow> int \<Rightarrow> lmapd \<Rightarrow> fs \<Rightarrow> int outcome" where
  "lmapd_pid_check asserts R alive self d fs =
     obind (lmapd_pid_read asserts R alive d fs)
       (\<lambda>pid. Inr (if pid = 0 \<or> pid \<noteq> self then 0 else if \<not> alive pid then 0 else pid))"

definition lmapd_pid_write :: "bool \<Rightarrow> refusals \<Rightarrow> int \<Rightarrow> lmapd \<Rightarrow> fs \<Rightarrow> (int \<times> fs) outcome" where
  "lmapd_pid_write asserts R self d fs =
     obind (pidfile asserts d)
       (\<lambda>p. case open_create_trunc R fs p of
          (None, fs') \<Rightarrow> Inr (-1, fs')
        | (Some i, fs') \<Rightarrow> Inr (0, write_file fs' i (dec_int self @ [CHR 0x0A])))"

definition lmapd_pid_remove :: "bool \<Rightarrow> refusals \<Rightarrow> lmapd \<Rightarrow> fs \<Rightarrow> (int \<times> fs) outcome" where
  "lmapd_pid_remove asserts R d fs =
     obind (pidfile asserts d) (\<lambda>p. case split_path p of (dir, n) \<Rightarrow> Inr (unlinkat R fs dir n))"

section \<open>The pid is read back\<close>

lemma digits_first:
  assumes "\<forall>c\<in>set ds. isdigit c" "ds \<noteq> []"
  shows "split_sign (dropWhile isspace (ds @ r)) = (False, ds @ r)"
proof -
  obtain c cs where ds: "ds = c # cs" using assms(2) by (cases ds) auto
  with assms(1) have "isdigit c" by simp
  then have "\<not> isspace c" "c \<noteq> CHR ''-''" "c \<noteq> CHR ''+''" 
    using isspace_not_digit [of c] by (auto simp: isdigit_def code_def)
  with ds show ?thesis by (simp add: split_sign_def)
qed

lemma scan_int_dec:
  assumes "n < 2 ^ 31"
  shows "scan_int (dec n @ [CHR 0x0A]) = Some (int n)"
proof -
  have "\<not> isdigit (CHR 0x0A)" using isspace_not_digit [of "CHR 0x0A"] by (simp add: isspace_def code_def)
  then have t: "takeWhile isdigit (dec n @ [CHR 0x0A]) = dec n"
    using dec_digits [of n] by (simp add: takeWhile_append2)
  note f = digits_first [OF dec_digits [of n] dec_nonempty]
  have "fst (strtoimax (dec n @ [CHR 0x0A])) = int n"
    using assms by (simp add: strtoimax_def f t)
  moreover have "signed_take_bit 31 (int n) = int n"
    using assms by (simp add: signed_take_bit_int_eq_self)
  ultimately show ?thesis by (simp add: scan_int_def f t)
qed

text \<open>
  Where the pid file can be written: the path of the run directory fits the buffer, the directory exists, and the
  name is free or that of a regular file.
\<close>

definition run_dir_ok :: "refusals \<Rightarrow> lmapd \<Rightarrow> fs \<Rightarrow> string \<Rightarrow> string \<Rightarrow> bool" where
  "run_dir_ok R d fs r n \<longleftrightarrow>
     ld_run_path d = Some r \<and> length (join r n) < PATH_MAX \<and> slash \<notin> set n \<and> \<not> R (Open (join r n)) \<and> fs_dirs fs r \<noteq> None
     \<and> (lookup fs r n = None \<or> is_regular (lookup fs r n))"

lemma open_for_writing:
  assumes "run_dir_ok R d fs r n"
  obtains i fs1 where "open_create_trunc R fs (join r n) = (Some i, fs1)" "fs_data fs1 i = []"
    "lookup fs1 r n = Some (Regular i)"
proof -
  note split_join [simp]
  have "\<exists>i fs1. open_create_trunc R fs (join r n) = (Some i, fs1)"
    using assms by (auto simp: run_dir_ok_def open_create_trunc_def is_regular_def split: option.splits node.splits)
  then obtain i fs1 where o: "open_create_trunc R fs (join r n) = (Some i, fs1)" by blast
  moreover have "split_path (join r n) = (r, n)" using assms by (simp add: run_dir_ok_def)
  ultimately show ?thesis using open_create_trunc_lookup [OF o] that by blast
qed

text \<open>Opening a file for writing and writing a text is what the pid file and the file of the state have in common.\<close>

lemma written_back:
  assumes "run_dir_ok R d fs r n"
  shows "\<exists>i fs1. open_create_trunc R fs (join r n) = (Some i, fs1) \<and>
    file_contents R (write_file fs1 i s) (join r n) = Some s \<and> lookup (write_file fs1 i s) r n = Some (Regular i)"
proof -
  obtain i fs1 where o: "open_create_trunc R fs (join r n) = (Some i, fs1)" "fs_data fs1 i = []"
    "lookup fs1 r n = Some (Regular i)" by (rule open_for_writing [OF assms])
  have "file_contents R (write_file fs1 i s) (join r n) = Some s"
    using assms o by (simp add: run_dir_ok_def file_contents_def open_existing_def) (simp add: write_file_def)
  with o show ?thesis by auto
qed

lemma pidfile_eq: "run_dir_ok R d fs r LMAPD_PID_FILE \<Longrightarrow> pidfile asserts d = Inr (join r LMAPD_PID_FILE)"
  by (simp add: run_dir_ok_def pidfile_def path_buf_short)

text \<open>
  C23. The pid that \<^const>\<open>lmapd_pid_write\<close> has written is what \<^const>\<open>lmapd_pid_read\<close> reads as long as the process lives, and
  0 afterwards; \<^const>\<open>lmapd_pid_check\<close> recognises it in its own process only, and once \<^const>\<open>lmapd_pid_remove\<close> has removed the file,
  nobody reads a pid.
\<close>

theorem pid_file_round_trip:
  assumes "run_dir_ok R d fs r LMAPD_PID_FILE" "0 < self" "self < 2 ^ 31" "\<not> R (Unlinkat r LMAPD_PID_FILE)"
  shows "\<exists>fs1 fs2. lmapd_pid_write asserts R self d fs = Inr (0, fs1) \<and>
    lmapd_pid_read asserts R alive d fs1 = Inr (if alive self then self else 0) \<and>
    lmapd_pid_check asserts R alive other d fs1 = Inr (if alive self \<and> other = self then self else 0) \<and>
    lmapd_pid_remove asserts R d fs1 = Inr (0, fs2) \<and> lmapd_pid_read asserts R alive d fs2 = Inr 0"
proof -
  let ?t = "dec_int self @ [CHR 0x0A]"
  note p = pidfile_eq [OF assms(1)]
  have sp: "split_path (join r LMAPD_PID_FILE) = (r, LMAPD_PID_FILE)" using assms(1) by (simp add: run_dir_ok_def)
  obtain i f where w: "open_create_trunc R fs (join r LMAPD_PID_FILE) = (Some i, f)"
    "file_contents R (write_file f i ?t) (join r LMAPD_PID_FILE) = Some ?t"
    "lookup (write_file f i ?t) r LMAPD_PID_FILE = Some (Regular i)"
    using written_back [OF assms(1)] by blast
  let ?g = "write_file f i ?t"
  have "scan_int ?t = Some self" using scan_int_dec [of "nat self"] assms(2,3) by (simp add: dec_int_def)
  with w p assms(2) have read: "lmapd_pid_read asserts R a d ?g = Inr (if a self then self else 0)" for a
    by (simp add: lmapd_pid_read_def)
  have rm: "unlinkat R ?g r LMAPD_PID_FILE = (0, remove_entry ?g r LMAPD_PID_FILE)"
    using w(3) assms(4) by (simp add: unlinkat_def)
  have dir: "fs_dirs ?g r \<noteq> None" "\<not> dot_name LMAPD_PID_FILE"
    using w(3) lookup_dirs [of ?g r LMAPD_PID_FILE] by (simp_all add: dot_name_def LMAPD_PID_FILE_def)
  have "lookup (remove_entry ?g r LMAPD_PID_FILE) r LMAPD_PID_FILE = None"
    using lookup_remove_entry [OF dir] by simp
  then have "file_contents R (remove_entry ?g r LMAPD_PID_FILE) (join r LMAPD_PID_FILE) = None"
    by (simp add: file_contents_def open_existing_def sp)
  then have gone: "lmapd_pid_read asserts R alive d (remove_entry ?g r LMAPD_PID_FILE) = Inr 0"
    by (simp add: lmapd_pid_read_def p)
  show ?thesis
    using assms(2)
    by (intro exI [of _ ?g] exI [of _ "remove_entry ?g r LMAPD_PID_FILE"])
      (simp add: gone read rm sp p w(1) lmapd_pid_write_def lmapd_pid_remove_def lmapd_pid_check_def)
qed

definition example_run :: "lmapd \<times> fs" where
  "example_run = (lmapd_new\<lparr>ld_run_path := Some ''/run''\<rparr>,
     \<lparr>fs_dirs = [''/run'' \<mapsto> []], fs_data = (\<lambda>_. []), fs_next = 0\<rparr>)"

lemma pid_file_round_trip_witness:
  "\<exists>fs1 fs2. lmapd_pid_write True (\<lambda>_. False) 4711 (fst example_run) (snd example_run) = Inr (0, fs1) \<and>
    lmapd_pid_read True (\<lambda>_. False) (\<lambda>p. p = 4711) (fst example_run) fs1 = Inr (if (4711 :: int) = 4711 then 4711 else 0) \<and>
    lmapd_pid_check True (\<lambda>_. False) (\<lambda>p. p = 4711) 4712 (fst example_run) fs1
      = Inr (if (4711 :: int) = 4711 \<and> (4712 :: int) = 4711 then 4711 else 0) \<and>
    lmapd_pid_remove True (\<lambda>_. False) (fst example_run) fs1 = Inr (0, fs2) \<and>
    lmapd_pid_read True (\<lambda>_. False) (\<lambda>p. p = 4711) (fst example_run) fs2 = Inr 0"
  by (rule pid_file_round_trip [where r = "''/run''"])
    (simp_all add: run_dir_ok_def example_run_def lmapd_new_def join_def LMAPD_PID_FILE_def PATH_MAX_def lookup_def entries_def dot_name_def)

end
