(* ===== verification/Signals.thy ===== *)
theory Signals
  imports Pidfile Timers
begin

text \<open>
  The callbacks of the signals the daemon handles (\<^verbatim>\<open>src/signals.c\<close>). The record \<open>host\<close> is what the daemon asks of its
  surroundings and does not change: whether its build has assertions, the surroundings of the runner, the file formats and the engine chosen on the command line, its
  own pid, the processes that live, the walk over a directory for the storage it uses, whether sockets of the two
  families can be opened, whether an event base can be had and the process can go into the background, the text of \<open>usage\<close>, and
  the default paths of the build.
\<close>

record host =
  ho_assert :: bool
  ho_env :: env
  ho_io :: io
  ho_pid :: int
  ho_alive :: "int \<Rightarrow> bool"
  ho_walk :: "fs \<Rightarrow> tree_walk"
  ho_inet :: bool
  ho_inet6 :: bool
  ho_have_base :: bool
  ho_daemonizes :: bool
  ho_usage :: string
  ho_config_dir :: string
  ho_capability_dir :: string
  ho_queue_dir :: string
  ho_run_dir :: string

definition lmapd_sigint_cb :: "host \<Rightarrow> lmapd \<Rightarrow> os \<Rightarrow> lmapd \<times> os" where
  "lmapd_sigint_cb H d w = lmapd_stop (ho_env H) d w"

definition lmapd_sigterm_cb :: "host \<Rightarrow> lmapd \<Rightarrow> os \<Rightarrow> lmapd \<times> os" where
  "lmapd_sigterm_cb H d w = lmapd_stop (ho_env H) d w"

definition lmapd_sighup_cb :: "host \<Rightarrow> lmapd \<Rightarrow> os \<Rightarrow> lmapd \<times> os" where
  "lmapd_sighup_cb H d w = lmapd_restart (ho_env H) d w"

definition lmapd_sigchld_cb :: "host \<Rightarrow> (int \<times> wait_status) list \<Rightarrow> lmapd \<Rightarrow> os \<Rightarrow> (lmapd \<times> os) outcome" where
  "lmapd_sigchld_cb H waits d w = lmapd_cleanup (ho_env H) waits d w"

text \<open>The file of the state, for the daemon that writes it and for the tool that reads it.\<close>

definition status_file :: "lmap_io_engine \<Rightarrow> string \<Rightarrow> string" where
  "status_file g run = path_buf (join run (LMAPD_STATUS_FILE @ lmap_io_engine_ext g))"

text \<open>Without a configuration the renderers fail an assertion.\<close>

definition lmapd_sigusr1_cb :: "host \<Rightarrow> lmap_io_engine \<Rightarrow> lmapd \<Rightarrow> os \<Rightarrow> (lmapd \<times> os) outcome" where
  "lmapd_sigusr1_cb H g d w =
     (case ld_run_path d of
        None \<Rightarrow> Inl Assertion_Failed
      | Some run \<Rightarrow>
          obind (lmapd_workspace_update (ho_walk H (os_fs w)) d)
            (\<lambda>(r, d1). case ld_lmap d1 of
               None \<Rightarrow> Inl Assertion_Failed
             | Some l \<Rightarrow>
                 obind (lmap_io_render_state (ho_io H) g l)
                   (\<lambda>doc. case doc of
                      None \<Rightarrow> Inr (d1, w)
                    | Some s \<Rightarrow>
                        (case open_create_trunc (en_refuse (ho_env H)) (os_fs w) (status_file g run) of
                           (None, fs1) \<Rightarrow> Inr (d1, w\<lparr>os_fs := fs1\<rparr>)
                         | (Some i, fs1) \<Rightarrow> Inr (d1, w\<lparr>os_fs := write_file fs1 i s\<rparr>)))))"

definition lmapd_sigusr2_cb :: "host \<Rightarrow> lmapd \<Rightarrow> os \<Rightarrow> (lmapd \<times> os) outcome" where
  "lmapd_sigusr2_cb H d w =
     (if ld_run_path d = None then Inl Assertion_Failed
      else case lmapd_workspace_clean (en_refuse (ho_env H)) d (os_fs w) of
        (r, fs1) \<Rightarrow>
          if r \<noteq> 0 then Inr (d, w\<lparr>os_fs := fs1\<rparr>)
          else case lmapd_workspace_init (en_refuse (ho_env H)) d fs1 of
            ((r', fs2), d') \<Rightarrow> Inr (d', w\<lparr>os_fs := fs2\<rparr>))"

end
