(* ===== verification/Daemon.thy ===== *)
theory Daemon
  imports Signals Validity
begin

text \<open>
  The main program of the daemon (\<^verbatim>\<open>src/lmapd.c\<close>): reading the configuration, the options, and the rounds of the event loop from
  the start to the exit. Messages and the texts of \<open>usage\<close> are not modelled. With the option that puts the daemon into the background, paths
  are taken to be absolute; \<open>ho_pid\<close> is then the pid of the process in the background.
\<close>

section \<open>The configuration\<close>

text \<open>The loop over the paths of the configuration; \<^verbatim>\<open>src/lmapctl.c\<close> has the same one.\<close>

fun read_config_paths :: "file_parser \<Rightarrow> lmap \<Rightarrow> string list \<Rightarrow> (int \<times> lmap) outcome" where
  "read_config_paths parse l [] = Inr (0, l)"
| "read_config_paths parse l (p # ps) =
     obind (parse l p) (\<lambda>(r, l'). if r \<noteq> 0 then Inr (-1, l') else read_config_paths parse l' ps)"

text \<open>The version and the tags of the system, on the capabilities read or on new ones; the text of the version is that of the meta files.\<close>

definition describe_system :: "host \<Rightarrow> capability option \<Rightarrow> capability option outcome" where
  "describe_system H cap =
     (let c = (case cap of None \<Rightarrow> lmap_capability_new | Some c \<Rightarrow> c)
      in lmap_capability_add_system_tags (ho_inet H) (ho_inet6 H)
           (Some (snd (lmap_capability_set_version c (Some (take 255 magic_text))))))"

definition read_config :: "host \<Rightarrow> lmap_io_engine \<Rightarrow> fs \<Rightarrow> lmapd \<Rightarrow> (int \<times> lmapd) outcome" where
  "read_config H g fs d =
     (let R = en_refuse (ho_env H); failed = (-1, d\<lparr>ld_lmap := None\<rparr>)
      in obind (read_config_paths (lmap_io_parse_config_path (ho_io H) g R fs) lmap_new (ld_config_paths d))
           (\<lambda>(r, l).
              if r \<noteq> 0 then Inr failed
              else
                let l1 = l\<lparr>lm_agent := map_option (\<lambda>a. a\<lparr>ag_last_started := en_now (ho_env H)\<rparr>) (lm_agent l)\<rparr>
                in obind (lmap_io_parse_state_path (ho_io H) g R fs l1 (ld_capability_path d))
                     (\<lambda>(r, l2).
                        if r \<noteq> 0 then Inr failed
                        else obind (describe_system H (lm_capabilities l2))
                               (\<lambda>c. Inr (0, d\<lparr>ld_lmap := Some (l2\<lparr>lm_capabilities := c\<rparr>)\<rparr>)))))"

text \<open>What \<open>stat\<close> says of a path.\<close>

definition path_is_dir :: "fs \<Rightarrow> string \<Rightarrow> bool" where
  "path_is_dir fs p \<longleftrightarrow> fs_dirs fs p \<noteq> None"

definition path_is_reg :: "fs \<Rightarrow> string \<Rightarrow> bool" where
  "path_is_reg fs p \<longleftrightarrow> (case split_path p of (d, n) \<Rightarrow> is_regular (lookup fs d n))"

lemma dropWhile_shorter: "dropWhile P p = c # q \<Longrightarrow> length q < length p"
  by (metis Suc_le_lessD length_Cons length_dropWhile_le)

text \<open>The colon separated paths of the build; the loop ends at an empty rest.\<close>

function add_default_paths :: "fs \<Rightarrow> string \<Rightarrow> lmapd \<Rightarrow> int \<times> lmapd" where
  "add_default_paths fs p d =
     (if p = [] then (0, d)
      else
        case lmapd_add_config_path (path_is_reg fs) (path_is_dir fs) d (Some (takeWhile (\<lambda>c. c \<noteq> CHR '':'') p)) of
          (r, d') \<Rightarrow>
            if r \<noteq> 0 then (-1, d')
            else case dropWhile (\<lambda>c. c \<noteq> CHR '':'') p of
              [] \<Rightarrow> (0, d')
            | c # q \<Rightarrow> add_default_paths fs q d')"
  by pat_completeness auto
termination
  by (relation "measure (\<lambda>(fs, p, d). length p)") (auto dest: dropWhile_shorter)

declare add_default_paths.simps [simp del]

definition add_default_config_path :: "host \<Rightarrow> fs \<Rightarrow> lmapd \<Rightarrow> int \<times> lmapd" where
  "add_default_config_path H fs d = add_default_paths fs (ho_config_dir H) d"

section \<open>The options\<close>

text \<open>What \<open>getopt\<close> returns, with the argument of the option; \<open>Opt_Unknown\<close> is its question mark.\<close>

datatype opt =
    Opt_f | Opt_n | Opt_s | Opt_z | Opt_q string | Opt_c string | Opt_b string | Opt_r string
  | Opt_v | Opt_h | Opt_j | Opt_x | Opt_Unknown

text \<open>The variables of \<open>main\<close> with the two static ones, \<open>lmapd\<close> and the engine.\<close>

record settings =
  st_daemon :: bool
  st_noop :: bool
  st_state :: bool
  st_zap :: bool
  st_capability_path :: "string option"
  st_queue_path :: "string option"
  st_run_path :: "string option"
  st_engine :: lmap_io_engine
  st_lmapd :: lmapd

definition main_start :: "host \<Rightarrow> settings" where
  "main_start H =
     \<lparr>st_daemon = False, st_noop = False, st_state = False, st_zap = False, st_capability_path = None,
      st_queue_path = None, st_run_path = None, st_engine = DEFAULT_ENGINE (ho_io H), st_lmapd = lmapd_new\<rparr>"

text \<open>A call of \<open>exit\<close>: the code, what has been printed, and \<open>lmapd\<close> at that moment.\<close>

datatype exit_code = EXIT_SUCCESS | EXIT_FAILURE

type_synonym exit_call = "exit_code \<times> string \<times> lmapd"

definition main_option :: "host \<Rightarrow> fs \<Rightarrow> opt \<Rightarrow> settings \<Rightarrow> exit_call + settings" where
  "main_option H fs opt st =
     (let paths = (\<lambda>(r, d). if r \<noteq> 0 then Inl (EXIT_FAILURE, [], d) else Inr (st\<lparr>st_lmapd := d\<rparr>));
          engine = (\<lambda>e. case lmap_io_set_engine (ho_io H) e (st_engine st) of
                      (r, g) \<Rightarrow> if r \<noteq> 0 then Inl (EXIT_FAILURE, [], st_lmapd st) else Inr (st\<lparr>st_engine := g\<rparr>))
      in case opt of
        Opt_f \<Rightarrow> Inr (st\<lparr>st_daemon := True\<rparr>)
      | Opt_n \<Rightarrow> Inr (st\<lparr>st_noop := True\<rparr>)
      | Opt_s \<Rightarrow> Inr (st\<lparr>st_state := True\<rparr>)
      | Opt_z \<Rightarrow> Inr (st\<lparr>st_zap := True\<rparr>)
      | Opt_q p \<Rightarrow> Inr (st\<lparr>st_queue_path := Some p\<rparr>)
      | Opt_c p \<Rightarrow>
          paths (if p = ''+'' then add_default_config_path H fs (st_lmapd st)
                 else lmapd_add_config_path (path_is_reg fs) (path_is_dir fs) (st_lmapd st) (Some p))
      | Opt_b p \<Rightarrow> Inr (st\<lparr>st_capability_path := Some p\<rparr>)
      | Opt_r p \<Rightarrow> Inr (st\<lparr>st_run_path := Some p\<rparr>)
      | Opt_v \<Rightarrow> Inl (EXIT_SUCCESS, magic_text @ [CHR 0x0A], st_lmapd st)
      | Opt_h \<Rightarrow> Inl (EXIT_SUCCESS, ho_usage H, st_lmapd st)
      | Opt_j \<Rightarrow> engine LMAP_IO_JSON
      | Opt_x \<Rightarrow> engine LMAP_IO_XML
      | Opt_Unknown \<Rightarrow> Inl (EXIT_FAILURE, [], st_lmapd st))"

fun main_options :: "host \<Rightarrow> fs \<Rightarrow> opt list \<Rightarrow> settings \<Rightarrow> exit_call + settings" where
  "main_options H fs [] st = Inr st"
| "main_options H fs (p # ps) st =
     (case main_option H fs p st of Inl e \<Rightarrow> Inl e | Inr st' \<Rightarrow> main_options H fs ps st')"

section \<open>From the options to the loop\<close>

text \<open>The branch of the options \<^verbatim>\<open>-n\<close> and \<^verbatim>\<open>-s\<close>.\<close>

definition dump_config :: "host \<Rightarrow> settings \<Rightarrow> fs \<Rightarrow> lmapd \<Rightarrow> exit_call outcome" where
  "dump_config H st fs d =
     (let g = st_engine st
      in obind (read_config H g fs d)
           (\<lambda>(r, d1). case ld_lmap d1 of
              None \<Rightarrow> Inr (EXIT_FAILURE, [], d1)
            | Some l \<Rightarrow>
                if r \<noteq> 0 then Inr (EXIT_FAILURE, [], d1)
                else
                  obind (if lmap_valid l \<and> st_noop st then lmap_io_render_config (ho_io H) g l else Inr (Some []))
                    (\<lambda>doc1. case doc1 of
                       None \<Rightarrow> Inr (EXIT_FAILURE, [], d1)
                     | Some s1 \<Rightarrow>
                         obind (if lmap_valid l \<and> st_state st then lmap_io_render_state (ho_io H) g l else Inr (Some []))
                           (\<lambda>doc2. case doc2 of
                              None \<Rightarrow> Inr (EXIT_FAILURE, s1, d1)
                            | Some s2 \<Rightarrow> Inr (if lmap_valid l then EXIT_SUCCESS else EXIT_FAILURE, s1 @ s2, d1)))))"

text \<open>What the options do not say is taken from the build.\<close>

definition given_or :: "string \<Rightarrow> string option \<Rightarrow> string" where
  "given_or p v = (case v of None \<Rightarrow> p | Some q \<Rightarrow> q)"

text \<open>
  From the end of the options to the pid file: either a call of \<open>exit\<close> or the daemon that enters the loop, with the file system. The
  pid is written whether or not the file can be.
\<close>

definition main_setup :: "host \<Rightarrow> settings \<Rightarrow> fs \<Rightarrow> ((exit_call + lmapd) \<times> fs) outcome" where
  "main_setup H st fs =
     (let R = en_refuse (ho_env H); reg = path_is_reg fs; dir = path_is_dir fs;
          (r, d1) = (if ld_config_paths (st_lmapd st) = [] then add_default_config_path H fs (st_lmapd st)
                     else (0, st_lmapd st))
      in if r \<noteq> 0 then Inr (Inl (EXIT_FAILURE, [], d1), fs)
         else
           let d2 = snd (lmapd_set_capability_path reg dir d1 (given_or (ho_capability_dir H) (st_capability_path st)))
           in if st_noop st \<or> st_state st then obind (dump_config H st fs d2) (\<lambda>e. Inr (Inl e, fs))
              else
                let d3 = snd (lmapd_set_queue_path dir d2 (given_or (ho_queue_dir H) (st_queue_path st)));
                    d4 = snd (lmapd_set_run_path dir d3 (given_or (ho_run_dir H) (st_run_path st)))
                in if ld_queue_path d4 = None \<or> ld_run_path d4 = None then Inr (Inl (EXIT_FAILURE, [], d4), fs)
                   else
                     let fs1 = (if st_zap st then snd (lmapd_workspace_clean R d4 fs) else fs)
                     in if st_daemon st \<and> \<not> ho_daemonizes H then Inr (Inl (EXIT_FAILURE, [], d4), fs1)
                        else
                          obind (lmapd_pid_read (ho_assert H) R (ho_alive H) d4 fs1)
                            (\<lambda>pid.
                               if pid \<noteq> 0 then Inr (Inl (EXIT_FAILURE, [], d4), fs1)
                               else obind (lmapd_pid_write (ho_assert H) R (ho_pid H) d4 fs1) (\<lambda>(r, fs2). Inr (Inr d4, fs2))))"

section \<open>The event loop\<close>

text \<open>
  What libevent calls back for: a signal, or a timer of the event at a position. Each comes with the time at which it happens.
\<close>

datatype happening =
    Sig_Int | Sig_Term | Sig_Hup | Sig_Chld "(int \<times> wait_status) list" | Sig_Usr1 | Sig_Usr2
  | Start_Due nat | Trigger_Due nat | Fire_Due nat

definition at_time :: "int \<Rightarrow> host \<Rightarrow> host" where
  "at_time t H = H\<lparr>ho_env := (ho_env H)\<lparr>en_now := t\<rparr>\<rparr>"

definition undrawn :: "'a outcome \<Rightarrow> rng \<Rightarrow> 'a drawn" where
  "undrawn r g = obind r (\<lambda>x. Inr (Some (x, g)))"

text \<open>A callback of a timer on the event at position \<open>k\<close>.\<close>

definition timer_callback :: "(event \<Rightarrow> rng \<Rightarrow> event drawn) \<Rightarrow> nat \<Rightarrow> lmapd \<times> os \<Rightarrow> rng \<Rightarrow> (lmapd \<times> os) drawn" where
  "timer_callback f k x g =
     (case x of (d, w) \<Rightarrow>
        (case ld_lmap d of
           None \<Rightarrow> Inr (Some (x, g))
         | Some l \<Rightarrow>
             if k < length (lm_events l)
             then dbind (f (lm_events l ! k) g)
                    (\<lambda>e g'. Inr (Some ((d\<lparr>ld_lmap := Some (l\<lparr>lm_events := (lm_events l)[k := e]\<rparr>)\<rparr>, w), g')))
             else Inr (Some (x, g))))"

text \<open>The callback of the trigger is the one the timer was made with.\<close>

definition trigger_callback :: "env \<Rightarrow> event \<Rightarrow> rng \<Rightarrow> event drawn" where
  "trigger_callback en e g =
     (case ev_trigger_event e of
        None \<Rightarrow> Inr (Some (e, g))
      | Some t \<Rightarrow> trigger_cb (en_libc en) (en_now en) t e g)"

definition handle :: "host \<Rightarrow> lmap_io_engine \<Rightarrow> happening \<Rightarrow> lmapd \<times> os \<Rightarrow> rng \<Rightarrow> (lmapd \<times> os) drawn" where
  "handle H g h x r =
     (case x of (d, w) \<Rightarrow>
        (case h of
           Sig_Int \<Rightarrow> Inr (Some (lmapd_sigint_cb H d w, r))
         | Sig_Term \<Rightarrow> Inr (Some (lmapd_sigterm_cb H d w, r))
         | Sig_Hup \<Rightarrow> Inr (Some (lmapd_sighup_cb H d w, r))
         | Sig_Chld waits \<Rightarrow> undrawn (lmapd_sigchld_cb H waits d w) r
         | Sig_Usr1 \<Rightarrow> undrawn (lmapd_sigusr1_cb H g d w) r
         | Sig_Usr2 \<Rightarrow> undrawn (lmapd_sigusr2_cb H d w) r
         | Start_Due k \<Rightarrow> timer_callback (startup_cb (en_now (ho_env H))) k x r
         | Trigger_Due k \<Rightarrow> timer_callback (trigger_callback (ho_env H)) k x r
         | Fire_Due k \<Rightarrow>
             (case ld_lmap d of
                None \<Rightarrow> Inr (Some (x, r))
              | Some l \<Rightarrow>
                  if k < length (lm_events l) then undrawn (fire_cb (ho_env H) k d w) r else Inr (Some (x, r)))))"

text \<open>The callbacks that break the event loop.\<close>

definition breaks_loop :: "happening \<Rightarrow> bool" where
  "breaks_loop h \<longleftrightarrow> h = Sig_Int \<or> h = Sig_Term \<or> h = Sig_Hup"

text \<open>\<open>event_base_dispatch\<close>: whether the loop has been broken before the happenings are used up, and what it leaves.\<close>

fun event_loop ::
  "host \<Rightarrow> lmap_io_engine \<Rightarrow> (int \<times> happening) list \<Rightarrow> lmapd \<times> os \<Rightarrow> rng \<Rightarrow> (bool \<times> lmapd \<times> os) drawn" where
  "event_loop H g [] x r = Inr (Some ((False, x), r))"
| "event_loop H g ((t, h) # hs) x r =
     dbind (handle (at_time t H) g h x r)
       (\<lambda>x' r'. if breaks_loop h then Inr (Some ((True, x'), r')) else event_loop H g hs x' r')"

section \<open>The main loop\<close>

text \<open>
  The body of the loop up to \<open>lmapd_run\<close>: \<open>None\<close> is the exit when the configuration cannot be read or is invalid, with
  \<open>lmapd\<close> at that moment.
\<close>

definition begin_round :: "host \<Rightarrow> lmap_io_engine \<Rightarrow> lmapd \<times> os \<Rightarrow> (bool \<times> lmapd \<times> os) outcome" where
  "begin_round H g x =
     (case x of (d, w) \<Rightarrow>
        obind (read_config H g (os_fs w) d)
          (\<lambda>(r, d1). case ld_lmap d1 of
             None \<Rightarrow> Inr (False, d1, w)
           | Some l \<Rightarrow>
               if r \<noteq> 0 \<or> \<not> lmap_valid l then Inr (False, d1, w)
               else case lmapd_workspace_init (en_refuse (ho_env H)) d1 (os_fs w) of
                 ((r', fs'), d2) \<Rightarrow> Inr (True, d2, w\<lparr>os_fs := fs'\<rparr>)))"

text \<open>How the main loop ends: by \<open>exit\<close>, or not within the given rounds.\<close>

datatype loop_end = Exits exit_code | Still_Running

fun main_loop ::
  "host \<Rightarrow> lmap_io_engine \<Rightarrow> (int \<times> (int \<times> happening) list) list \<Rightarrow> lmapd \<times> os \<Rightarrow> rng
     \<Rightarrow> (loop_end \<times> lmapd \<times> os) drawn" where
  "main_loop H g [] x r = Inr (Some ((Still_Running, x), r))"
| "main_loop H g ((t, hs) # rounds) x r =
     dbind (undrawn (begin_round (at_time t H) g x) r)
       (\<lambda>(good, d, w) r.
          let go_on = (\<lambda>ret d w r.
                if flag_on (ld_flags d) LMAPD_FLAG_RESTART
                then main_loop H g rounds (d\<lparr>ld_lmap := None\<rparr>, w) r
                else Inr (Some ((Exits (if ret = -1 then EXIT_FAILURE else EXIT_SUCCESS), d, w), r)))
          in if \<not> good then Inr (Some ((Exits EXIT_FAILURE, d, w), r))
             else
               dbind (lmapd_run_start (ho_have_base H) t d r)
                 (\<lambda>(ret, d) r.
                    if ret \<noteq> 0 then go_on ret d w r
                    else
                      dbind (event_loop H g hs (d, w) r)
                        (\<lambda>(broken, d, w) r.
                           if \<not> broken then Inr (Some ((Still_Running, d, w), r))
                           else case lmapd_run_finish 0 d of (ret, d) \<Rightarrow> go_on ret d w r)))"

section \<open>The program\<close>

definition atexit_cb :: "host \<Rightarrow> lmapd \<Rightarrow> fs \<Rightarrow> fs outcome" where
  "atexit_cb H d fs =
     (let R = en_refuse (ho_env H)
      in obind (lmapd_pid_check (ho_assert H) R (ho_alive H) (ho_pid H) d fs)
           (\<lambda>pid. if pid \<noteq> 0 then obind (lmapd_pid_remove (ho_assert H) R d fs) (\<lambda>(r, fs'). Inr fs') else Inr fs))"

datatype ending = Exited exit_code string | Not_Ended lmapd

definition call_exit :: "host \<Rightarrow> exit_call \<Rightarrow> os \<Rightarrow> (ending \<times> os) outcome" where
  "call_exit H e w =
     (case e of (c, out, d) \<Rightarrow>
        obind (atexit_cb H d (os_fs w)) (\<lambda>fs'. Inr (Exited c out, w\<lparr>os_fs := fs'\<rparr>)))"

definition lmapd_main ::
  "host \<Rightarrow> opt list \<Rightarrow> (int \<times> (int \<times> happening) list) list \<Rightarrow> os \<Rightarrow> rng \<Rightarrow> (ending \<times> os) drawn" where
  "lmapd_main H opts rounds w r =
     (case main_options H (os_fs w) opts (main_start H) of
        Inl e \<Rightarrow> undrawn (call_exit H e w) r
      | Inr st \<Rightarrow>
          dbind (undrawn (main_setup H st (os_fs w)) r)
            (\<lambda>(start, fs1) r.
               case start of
                 Inl e \<Rightarrow> undrawn (call_exit H e (w\<lparr>os_fs := fs1\<rparr>)) r
               | Inr d \<Rightarrow>
                   dbind (main_loop H (st_engine st) rounds (d, w\<lparr>os_fs := fs1\<rparr>) r)
                     (\<lambda>(fin, d', w') r.
                        case fin of
                          Exits c \<Rightarrow> undrawn (call_exit H (c, [], d') w') r
                        | Still_Running \<Rightarrow> Inr (Some ((Not_Ended d', w'), r)))))"

end
