(* ===== verification/Daemon_Runs.thy ===== *)
theory Daemon_Runs
  imports Daemon Xml_Documents
begin

text \<open>
  What holds of whole runs of the daemon: only one runs per run directory, a signal to stop ends it and a hangup starts the
  next round, and a call of \<open>exit\<close> before the run path is known fails an assertion, in a build that has
  them.
\<close>

section \<open>Exits before the run path is known\<close>

lemma add_default_paths_run: "ld_run_path (snd (add_default_paths fs p d)) = ld_run_path d"
proof (induction fs p d rule: add_default_paths.induct)
  case (1 fs p d)
  show ?case
    by (subst add_default_paths.simps)
      (use 1 in \<open>auto simp: lmapd_add_config_path_def split: prod.splits list.splits if_splits\<close>)
qed

lemma main_option_run:
  assumes "ld_run_path (st_lmapd st) = None"
  shows "case main_option H fs p st of
      Inl e \<Rightarrow> ld_run_path (snd (snd e)) = None
    | Inr st' \<Rightarrow> ld_run_path (st_lmapd st') = None"
  using assms add_default_paths_run [of fs "ho_config_dir H" "st_lmapd st"]
  by (cases p)
    (auto simp: main_option_def add_default_config_path_def lmapd_add_config_path_def split: prod.splits)

lemma main_options_run:
  "ld_run_path (st_lmapd st) = None \<Longrightarrow>
    case main_options H fs ps st of
      Inl e \<Rightarrow> ld_run_path (snd (snd e)) = None
    | Inr st' \<Rightarrow> ld_run_path (st_lmapd st') = None"
proof (induction ps arbitrary: st)
  case (Cons p ps)
  from main_option_run [OF Cons.prems, of H fs p] Cons.IH show ?case
    by (cases "main_option H fs p st") simp_all
qed simp

text \<open>The exit of a start that has not come to know the run path, if there is one.\<close>

definition early_exit :: "host \<Rightarrow> fs \<Rightarrow> opt list \<Rightarrow> exit_call option" where
  "early_exit H fs opts =
     (case main_options H fs opts (main_start H) of
        Inl e \<Rightarrow> Some e
      | Inr st \<Rightarrow>
          (case main_setup H st fs of
             Inr (Inl e, fs') \<Rightarrow> if ld_run_path (snd (snd e)) = None then Some e else None
           | _ \<Rightarrow> None))"

definition null_pid_file :: string where
  "null_pid_file = path_buf (join ''(null)'' LMAPD_PID_FILE)"

lemma call_exit_early:
  assumes "ld_run_path d = None"
  shows "ho_assert H \<Longrightarrow> call_exit H (c, out, d) w = Inl Assertion_Failed"
    "\<not> ho_assert H \<Longrightarrow> file_contents (en_refuse (ho_env H)) (os_fs w) null_pid_file = None \<Longrightarrow>
      call_exit H (c, out, d) w = Inr (Exited c out, w)"
  using assms by (simp_all add: call_exit_def atexit_cb_def lmapd_pid_check_def lmapd_pid_read_def pidfile_def null_pid_file_def)

lemma read_config_cases:
  assumes "read_config H g fs d = Inr (r, d')"
  shows "(r = -1 \<and> d' = d\<lparr>ld_lmap := None\<rparr>) \<or> (r = 0 \<and> (\<exists>l. d' = d\<lparr>ld_lmap := Some l\<rparr>))"
  using assms by (auto simp: read_config_def Let_def obind_Inr split: prod.splits if_splits)

lemma dump_config_run:
  assumes "dump_config H st fs d = Inr e"
  shows "ld_run_path (snd (snd e)) = ld_run_path d"
proof -
  from assms obtain r d1 where c: "read_config H (st_engine st) fs d = Inr (r, d1)"
    unfolding dump_config_def Let_def obind_Inr by fastforce
  with assms have "snd (snd e) = d1"
    by (auto simp: dump_config_def Let_def obind_Inr split: option.splits if_splits)
  with read_config_cases [OF c] show ?thesis by auto
qed

lemma set_capability_path_run: "ld_run_path (snd (lmapd_set_capability_path f g d p)) = ld_run_path d"
  by (simp add: lmapd_set_capability_path_def set_string_def)

text \<open>Which exits of \<open>main_setup\<close> are early, for settings in which there is no run path yet.\<close>

lemma set_queue_path_run: "ld_run_path (snd (lmapd_set_queue_path dir d p)) = ld_run_path d"
  by (simp add: lmapd_set_queue_path_def set_string_def)

lemma set_run_path_run:
  "ld_run_path d = None \<Longrightarrow> ld_run_path (snd (lmapd_set_run_path dir d p)) = (if dir p then Some p else None)"
  by (simp add: lmapd_set_run_path_def set_string_def)

definition no_config :: "host \<Rightarrow> settings \<Rightarrow> fs \<Rightarrow> bool" where
  "no_config H st fs \<longleftrightarrow> ld_config_paths (st_lmapd st) = [] \<and> fst (add_default_config_path H fs (st_lmapd st)) \<noteq> 0"

lemma main_setup_early:
  assumes "ld_run_path (st_lmapd st) = None"
  shows "no_config H st fs \<Longrightarrow> \<exists>e. main_setup H st fs = Inr (Inl e, fs) \<and> ld_run_path (snd (snd e)) = None"
    and "\<not> no_config H st fs \<Longrightarrow> st_noop st \<or> st_state st \<Longrightarrow>
      \<not> ok (main_setup H st fs) \<or> (\<exists>e. main_setup H st fs = Inr (Inl e, fs) \<and> ld_run_path (snd (snd e)) = None)"
    and "\<not> no_config H st fs \<Longrightarrow> \<not> st_noop st \<Longrightarrow> \<not> st_state st \<Longrightarrow>
      \<not> path_is_dir fs (given_or (ho_run_dir H) (st_run_path st)) \<Longrightarrow>
      \<exists>e. main_setup H st fs = Inr (Inl e, fs) \<and> ld_run_path (snd (snd e)) = None"
    and "\<not> no_config H st fs \<Longrightarrow> \<not> st_noop st \<Longrightarrow> \<not> st_state st \<Longrightarrow>
      path_is_dir fs (given_or (ho_run_dir H) (st_run_path st)) \<Longrightarrow>
      main_setup H st fs = Inr (Inl e, fs') \<Longrightarrow> ld_run_path (snd (snd e)) \<noteq> None"
proof -
  let ?p = "if ld_config_paths (st_lmapd st) = [] then add_default_config_path H fs (st_lmapd st) else (0, st_lmapd st)"
  obtain r d1 where p: "?p = (r, d1)" by fastforce
  have d1: "ld_run_path d1 = None" and r: "no_config H st fs \<longleftrightarrow> r \<noteq> 0"
    using p assms add_default_paths_run [of fs "ho_config_dir H" "st_lmapd st"]
    by (auto simp: no_config_def add_default_config_path_def split: if_splits)
  let ?d2 = "snd (lmapd_set_capability_path (path_is_reg fs) (path_is_dir fs) d1 (given_or (ho_capability_dir H) (st_capability_path st)))"
  have d2: "ld_run_path ?d2 = None" by (simp add: set_capability_path_run d1)
  note main = main_setup_def Let_def p
  show "no_config H st fs \<Longrightarrow> \<exists>e. main_setup H st fs = Inr (Inl e, fs) \<and> ld_run_path (snd (snd e)) = None"
    using r d1 unfolding main by simp
  show "\<not> no_config H st fs \<Longrightarrow> st_noop st \<or> st_state st \<Longrightarrow>
      \<not> ok (main_setup H st fs) \<or> (\<exists>e. main_setup H st fs = Inr (Inl e, fs) \<and> ld_run_path (snd (snd e)) = None)"
    using r d2 dump_config_run [of H st fs ?d2] unfolding main
    by (cases "dump_config H st fs ?d2") auto
  show "\<not> no_config H st fs \<Longrightarrow> \<not> st_noop st \<Longrightarrow> \<not> st_state st \<Longrightarrow>
      \<not> path_is_dir fs (given_or (ho_run_dir H) (st_run_path st)) \<Longrightarrow>
      \<exists>e. main_setup H st fs = Inr (Inl e, fs) \<and> ld_run_path (snd (snd e)) = None"
    using r d2 unfolding main by (simp add: set_run_path_run set_queue_path_run)
  show "ld_run_path (snd (snd e)) \<noteq> None"
    if "\<not> no_config H st fs" "\<not> st_noop st" "\<not> st_state st"
      "path_is_dir fs (given_or (ho_run_dir H) (st_run_path st))" "main_setup H st fs = Inr (Inl e, fs')"
    using that r d2 unfolding main
    by (auto simp: obind_Inr set_run_path_run set_queue_path_run split: if_splits)
qed

text \<open>
  C24. Every exit before the run path is known meets the assertion of \<^const>\<open>lmapd_pid_read\<close>, as \<^const>\<open>atexit_cb\<close> asks for the pid
  file. These are the exits of the options, among them \<^verbatim>\<open>-v\<close> and \<^verbatim>\<open>-h\<close>, which are to succeed; the exit when the default
  configuration path cannot be used; all exits after \<^verbatim>\<open>-n\<close> and \<^verbatim>\<open>-s\<close>; and the exit when the run path is not a directory. A
  build with assertions aborts there, and never exits after \<^verbatim>\<open>-n\<close> and \<^verbatim>\<open>-s\<close>. A build without them looks for a pid file
  below the relative path \<^verbatim>\<open>(null)\<close>, and exits as it was to when there is none.
\<close>

theorem exit_without_run_path_aborts:
  fixes H w opts rounds r
  defines "fs \<equiv> os_fs w" and "parsed \<equiv> main_options H (os_fs w) opts (main_start H)" and "run \<equiv> lmapd_main H opts rounds w r"
  shows "(case parsed of
       Inl e \<Rightarrow> early_exit H fs opts = Some e
     | Inr st \<Rightarrow>
         (early_exit H fs opts \<noteq> None \<longleftrightarrow>
            no_config H st fs
            \<or> (st_noop st \<or> st_state st) \<and> ok (main_setup H st fs)
            \<or> \<not> st_noop st \<and> \<not> st_state st \<and> \<not> path_is_dir fs (given_or (ho_run_dir H) (st_run_path st)))
         \<and> (st_noop st \<or> st_state st \<longrightarrow> ho_assert H \<longrightarrow> (\<exists>f. run = Inl f)))
    \<and> (case early_exit H fs opts of
         None \<Rightarrow> True
       | Some (c, out, d) \<Rightarrow>
           (ho_assert H \<longrightarrow> run = Inl Assertion_Failed)
           \<and> (\<not> ho_assert H \<and> file_contents (en_refuse (ho_env H)) fs null_pid_file = None \<longrightarrow>
                run = Inr (Some ((Exited c out, w), r))))"
proof (cases parsed)
  case (Inl e)
  then have opts: "main_options H (os_fs w) opts (main_start H) = Inl e" by (simp add: parsed_def)
  then have "ld_run_path (snd (snd e)) = None"
    using main_options_run [of "main_start H" H "os_fs w" opts] by (simp add: main_start_def lmapd_new_def)
  with Inl opts show ?thesis
    by (cases e) (auto simp: early_exit_def lmapd_main_def undrawn_def call_exit_early fs_def run_def)
next
  case (Inr st)
  then have st: "main_options H (os_fs w) opts (main_start H) = Inr st" by (simp add: parsed_def)
  then have np: "ld_run_path (st_lmapd st) = None"
    using main_options_run [of "main_start H" H "os_fs w" opts] by (simp add: main_start_def lmapd_new_def)
  note starts = main_setup_early [OF np, of H fs]
  have early: "early_exit H fs opts = Some e \<longleftrightarrow>
      (\<exists>fs'. main_setup H st fs = Inr (Inl e, fs')) \<and> ld_run_path (snd (snd e)) = None" for e
    by (auto simp: early_exit_def st fs_def split: sum.split prod.split)
  have same: "fs' = fs" if "main_setup H st fs = Inr (Inl e, fs')" "ld_run_path (snd (snd e)) = None" for e fs'
  proof -
    have "ok (main_setup H st fs)" using that(1) by simp
    with starts(1-3) starts(4) [OF _ _ _ _ that(1)] that(2) have "\<exists>e. main_setup H st fs = Inr (Inl e, fs)" by blast
    with that(1) show ?thesis by auto
  qed
  have iff: "early_exit H fs opts \<noteq> None \<longleftrightarrow>
            no_config H st fs
            \<or> (st_noop st \<or> st_state st) \<and> ok (main_setup H st fs)
            \<or> \<not> st_noop st \<and> \<not> st_state st \<and> \<not> path_is_dir fs (given_or (ho_run_dir H) (st_run_path st))"
    (is "_ \<longleftrightarrow> ?when")
  proof
    assume "early_exit H fs opts \<noteq> None"
    then obtain e fs' where e: "main_setup H st fs = Inr (Inl e, fs')" "ld_run_path (snd (snd e)) = None"
      using early by auto
    then have "ok (main_setup H st fs)" by simp
    with starts(4) [OF _ _ _ _ e(1)] e(2) show ?when by blast
  next
    assume ?when
    with starts(1-3) have "\<exists>e. main_setup H st fs = Inr (Inl e, fs) \<and> ld_run_path (snd (snd e)) = None" by blast
    with early show "early_exit H fs opts \<noteq> None" by auto
  qed
  have main: "run = Inl f" if "main_setup H st fs = Inl f" for f
    using that by (simp add: run_def lmapd_main_def st fs_def undrawn_def)
  have exit_: "run = undrawn (call_exit H (c, out, d) w) r" if "early_exit H fs opts = Some (c, out, d)" for c out d
  proof -
    from that obtain fs' where s: "main_setup H st fs = Inr (Inl (c, out, d), fs')" and d: "ld_run_path d = None"
      using early by auto
    with same [OF s] have "main_setup H st fs = Inr (Inl (c, out, d), fs)" by simp
    then show ?thesis by (simp add: run_def lmapd_main_def st fs_def undrawn_def)
  qed
  have no_path: "ld_run_path d = None" if "early_exit H fs opts = Some (c, out, d)" for c out d using that early by auto
  have faults: "\<exists>f. run = Inl f" if "st_noop st \<or> st_state st" "ho_assert H"
  proof (cases "main_setup H st fs")
    case (Inr x)
    with that iff obtain c out d where e: "early_exit H fs opts = Some (c, out, d)" by auto
    with exit_ [OF e] that call_exit_early (1) [OF no_path [OF e]] show ?thesis by (simp add: undrawn_def)
  qed (use main in blast)
  show ?thesis
    using Inr iff faults exit_ no_path call_exit_early
    by (auto simp: undrawn_def fs_def split: option.split)
qed

section \<open>One daemon per run directory\<close>

lemma add_config_path_other:
  "ld_queue_path (snd (lmapd_set_capability_path f g d p)) = ld_queue_path d"
  "ld_config_paths (snd (lmapd_set_capability_path f g d p)) = ld_config_paths d"
  by (simp_all add: lmapd_set_capability_path_def set_string_def)

lemma set_queue_run_path:
  assumes "dir q" "dir p"
  shows "ld_queue_path (snd (lmapd_set_run_path dir (snd (lmapd_set_queue_path dir d q)) p)) = Some q"
    "ld_run_path (snd (lmapd_set_run_path dir (snd (lmapd_set_queue_path dir d q)) p)) = Some p"
  using assms by (simp_all add: lmapd_set_run_path_def lmapd_set_queue_path_def set_string_def)

lemma workspace_clean_queue:
  "ld_queue_path d = Some q \<Longrightarrow> lmapd_workspace_clean R d fs = lmapd_workspace_clean R (lmapd_new\<lparr>ld_queue_path := Some q\<rparr>) fs"
  by (simp add: lmapd_workspace_clean_def)

lemma pid_read_live:
  assumes "ld_run_path d = Some run" "file_contents R fs (path_buf (join run LMAPD_PID_FILE)) = Some s"
    "scan_int s = Some pid" "0 < pid" "alive pid"
  shows "lmapd_pid_read asserts R alive d fs = Inr pid"
  using assms by (simp add: lmapd_pid_read_def pidfile_def)

text \<open>
  C19. While the process in the pid file lives, a second daemon on the same run directory, with configuration paths given
  by \<^verbatim>\<open>-c\<close>, exits with a failure before it reads a configuration: it starts no child, sends no signal and leaves the pid file to the first one. With \<^verbatim>\<open>-z\<close>, though, it has
  cleaned the queue by then, which is the one the first daemon works in.
\<close>

theorem lmapd_single_instance:
  fixes H w st
  defines "R \<equiv> en_refuse (ho_env H)" and "queue \<equiv> given_or (ho_queue_dir H) (st_queue_path st)"
    and "run \<equiv> given_or (ho_run_dir H) (st_run_path st)"
  defines "fs1 \<equiv> (if st_zap st then snd (lmapd_workspace_clean R (lmapd_new\<lparr>ld_queue_path := Some queue\<rparr>) (os_fs w)) else os_fs w)"
  assumes "main_options H (os_fs w) opts (main_start H) = Inr st" "\<not> st_noop st" "\<not> st_state st"
    and "ld_config_paths (st_lmapd st) \<noteq> []" "path_is_dir (os_fs w) queue" "path_is_dir (os_fs w) run"
    and "file_contents R fs1 (path_buf (join run LMAPD_PID_FILE)) = Some s" "scan_int s = Some pid" "0 < pid"
    and "ho_alive H pid" "pid \<noteq> ho_pid H"
  shows "lmapd_main H opts rounds w r = Inr (Some ((Exited EXIT_FAILURE [], w\<lparr>os_fs := fs1\<rparr>), r))"
proof -
  let ?dir = "path_is_dir (os_fs w)"
  let ?d2 = "snd (lmapd_set_capability_path (path_is_reg (os_fs w)) ?dir (st_lmapd st)
    (given_or (ho_capability_dir H) (st_capability_path st)))"
  let ?d = "snd (lmapd_set_run_path ?dir (snd (lmapd_set_queue_path ?dir ?d2 queue)) run)"
  have q: "ld_queue_path ?d = Some queue" "ld_run_path ?d = Some run"
    using set_queue_run_path [of ?dir queue run] assms by simp_all
  note pid = pid_read_live [where alive = "ho_alive H", OF q(2) assms(11,12,13,14)]
  have "main_setup H st (os_fs w) = Inr (Inl (EXIT_FAILURE, [], ?d), fs1)"
    using assms(6-8) pid q assms(13) workspace_clean_queue [OF q(1), of R "os_fs w"]
    by (cases "st_zap st") (simp_all add: main_setup_def Let_def R_def queue_def run_def fs1_def)
  moreover have "call_exit H (EXIT_FAILURE, [], ?d) (w\<lparr>os_fs := fs1\<rparr>) = Inr (Exited EXIT_FAILURE [], w\<lparr>os_fs := fs1\<rparr>)"
    using pid assms(15) by (simp add: call_exit_def atexit_cb_def lmapd_pid_check_def R_def)
  ultimately show ?thesis using assms(5) by (simp add: lmapd_main_def undrawn_def)
qed

section \<open>Stopping and restarting\<close>

lemma event_loop_append:
  "event_loop H g (hs @ hs') x r =
     dbind (event_loop H g hs x r)
       (\<lambda>(broken, x') r'. if broken then Inr (Some ((True, x'), r')) else event_loop H g hs' x' r')"
proof (induction hs arbitrary: x r)
  case Nil
  then show ?case by simp
next
  case (Cons th hs)
  then show ?case
    by (cases th, cases "handle (at_time (fst th) H) g (snd th) x r")
      (auto simp: dbind_def split: option.split)
qed

text \<open>What the end of \<open>lmapd_run\<close> and the decision to go on make of the daemon after the signal.\<close>

definition after_hangup :: "flags \<Rightarrow> flags" where
  "after_hangup f =
     (let f1 = flag_set f LMAPD_FLAG_RESTART
      in if flag_on f1 LMAPD_FLAG_STARTUPDONE then flag_set f1 LMAPD_FLAG_SKIPSTARTUP else f1)"


lemma restart_flags:
  "ld_flags (fst (lmapd_restart en d w)) = after_hangup (ld_flags d)"
  "flag_on (after_hangup f) LMAPD_FLAG_RESTART"
  "\<not> flag_on (ld_flags (fst (lmapd_stop en d w))) LMAPD_FLAG_RESTART"
  by (simp_all add: lmapd_restart_def lmapd_stop_def after_hangup_def Let_def flag_simps lmapd_flag_defs)

lemma breaking_signal:
  assumes "breaks_loop h"
  shows "handle H g h (d, w) r =
    Inr (Some ((d\<lparr>ld_flags := (if h = Sig_Hup then after_hangup (ld_flags d) else flag_clear (ld_flags d) LMAPD_FLAG_RESTART)\<rparr>,
      lmapd_killall (ho_env H) d w), r))"
  using assms
  by (auto simp: breaks_loop_def handle_def lmapd_sigint_cb_def lmapd_sigterm_cb_def lmapd_sighup_cb_def lmapd_stop_def
      lmapd_restart_def after_hangup_def Let_def lmapd_killall_def)

text \<open>
  C20. Whatever the callbacks have done before in a round, SIGINT and SIGTERM end the daemon with success, even after an earlier
  hangup, and SIGHUP starts the next round without the configuration, with the flag that the startup events have run.
  Both send their signal to every running child first, and no callback runs after them.
\<close>

theorem daemon_stops_or_restarts:
  assumes "ho_have_base H" "begin_round (at_time t H) g x = Inr (True, d1, w1)"
    and "lmapd_run_start True t d1 r = Inr (Some ((0, d2), r2))"
    and "event_loop H g before (d2, w1) r2 = Inr (Some ((False, d, w), r3))" "breaks_loop h"
  shows "main_loop H g ((t, before @ (t', h) # afterwards) # rounds) x r =
    (let w' = lmapd_killall (ho_env (at_time t' H)) d w
     in if h = Sig_Hup
        then main_loop H g rounds (d\<lparr>ld_flags := after_hangup (ld_flags d), ld_lmap := None\<rparr>, w') r3
        else Inr (Some ((Exits EXIT_SUCCESS, d\<lparr>ld_flags := flag_clear (ld_flags d) LMAPD_FLAG_RESTART, ld_lmap := None\<rparr>, w'),
               r3)))"
  using assms
  by (simp add: undrawn_def event_loop_append breaking_signal lmapd_run_finish_def restart_flags Let_def flag_on_clear_same)

section \<open>Examples\<close>

text \<open>A host with an empty configuration directory and the pid file of another daemon.\<close>

definition demo_host :: host where
  "demo_host =
     \<lparr>ho_assert = True, ho_env = run_env,
      ho_io = \<lparr>io_with_xml = True, io_with_json = True, io_xmlc = utc_xmlc (Elem None [] [] []), io_jsonc = utc_jsonc JNull\<rparr>,
      ho_pid = 4712, ho_alive = (\<lambda>_. True), ho_walk = (\<lambda>_ _. None), ho_inet = True, ho_inet6 = False,
      ho_have_base = True, ho_daemonizes = True, ho_usage = [], ho_config_dir = ''/c'', ho_capability_dir = ''/c'',
      ho_queue_dir = ''/q'', ho_run_dir = ''/run''\<rparr>"

definition demo_os :: os where
  "demo_os =
     \<lparr>os_fs = \<lparr>fs_dirs = [''/c'' \<mapsto> [], ''/q'' \<mapsto> [(''old'', Regular 1)], ''/run'' \<mapsto> [(''lmapd.pid'', Regular 0)]],
        fs_data = (\<lambda>i. if i = 0 then ''4711'' @ [CHR 0x0A] else []), fs_next = 2\<rparr>,
      os_forks = [], os_signals = [], os_started = []\<rparr>"

lemma exit_without_run_path_aborts_witness:
  "lmapd_main demo_host [Opt_v] [] demo_os ((\<lambda>_. 0), 0) = Inl Assertion_Failed
    \<and> lmapd_main (demo_host\<lparr>ho_assert := False\<rparr>) [Opt_v] [] demo_os ((\<lambda>_. 0), 0)
      = Inr (Some ((Exited EXIT_SUCCESS (magic_text @ [CHR 0x0A]), demo_os), ((\<lambda>_. 0), 0)))"
proof -
  have o: "main_options H (os_fs demo_os) [Opt_v] (main_start H) = Inl (EXIT_SUCCESS, magic_text @ [CHR 0x0A], lmapd_new)" for H
    by (simp add: main_option_def main_start_def)
  have e: "early_exit H (os_fs demo_os) [Opt_v] = Some (EXIT_SUCCESS, magic_text @ [CHR 0x0A], lmapd_new)" for H
    unfolding early_exit_def o by simp
  have f: "file_contents (\<lambda>_. False) (os_fs demo_os) null_pid_file = None" by code_simp
  have a: "ho_assert demo_host" "en_refuse (ho_env demo_host) = (\<lambda>_. False)" by (simp_all add: demo_host_def run_env_def)
  note t = exit_without_run_path_aborts [of H demo_os "[Opt_v]" "[]" "((\<lambda>_. 0), 0)" for H, unfolded e]
  show ?thesis using t [of demo_host] t [of "demo_host\<lparr>ho_assert := False\<rparr>"] f a by simp
qed

text \<open>Here with the option that cleans the queue: the old file of the first daemon is gone.\<close>

definition second_daemon :: settings where
  "second_daemon =
     (main_start demo_host)\<lparr>st_zap := True, st_lmapd := lmapd_new\<lparr>ld_config_paths := [''/c'']\<rparr>\<rparr>"

lemma lmapd_single_instance_witness:
  "lmapd_main demo_host [Opt_z, Opt_c ''/c''] [] demo_os ((\<lambda>_. 0), 0)
    = Inr (Some ((Exited EXIT_FAILURE [],
        demo_os\<lparr>os_fs := snd (lmapd_workspace_clean (\<lambda>_. False) (lmapd_new\<lparr>ld_queue_path := Some ''/q''\<rparr>) (os_fs demo_os))\<rparr>),
        ((\<lambda>_. 0), 0)))
    \<and> entries (snd (lmapd_workspace_clean (\<lambda>_. False) (lmapd_new\<lparr>ld_queue_path := Some ''/q''\<rparr>) (os_fs demo_os))) ''/q'' = []"
proof -
  let ?fs = "snd (lmapd_workspace_clean (\<lambda>_. False) (lmapd_new\<lparr>ld_queue_path := Some ''/q''\<rparr>) (os_fs demo_os))"
  have opts: "main_options demo_host (os_fs demo_os) [Opt_z, Opt_c ''/c''] (main_start demo_host) = Inr second_daemon"
    by (simp add: main_option_def main_start_def second_daemon_def lmapd_add_config_path_def path_is_dir_def demo_os_def lmapd_new_def)
  have pid: "file_contents (\<lambda>_. False) ?fs (path_buf (join ''/run'' LMAPD_PID_FILE)) = Some (''4711'' @ [CHR 0x0A])"
    by code_simp
  have scan: "scan_int (''4711'' @ [CHR 0x0A]) = Some 4711" by code_simp
  have dirs: "path_is_dir (os_fs demo_os) ''/q''" "path_is_dir (os_fs demo_os) ''/run''"
    by (simp_all add: path_is_dir_def demo_os_def)
  have st: "st_zap second_daemon" "\<not> st_noop second_daemon" "\<not> st_state second_daemon"
    "ld_config_paths (st_lmapd second_daemon) \<noteq> []" "given_or (ho_queue_dir demo_host) (st_queue_path second_daemon) = ''/q''"
    "given_or (ho_run_dir demo_host) (st_run_path second_daemon) = ''/run''"
    by (simp_all add: second_daemon_def main_start_def demo_host_def given_or_def lmapd_new_def)
  have H: "en_refuse (ho_env demo_host) = (\<lambda>_. False)" "ho_alive demo_host 4711" "(4711 :: int) \<noteq> ho_pid demo_host"
    by (simp_all add: demo_host_def run_env_def)
  have "entries ?fs ''/q'' = []" by code_simp
  moreover note lmapd_single_instance [of demo_host demo_os "[Opt_z, Opt_c ''/c'']" second_daemon "''4711'' @ [CHR 0x0A]" 4711,
      unfolded st(5,6) H(1), OF opts st(2-4) dirs _ scan _ H(2,3)]
  ultimately show ?thesis using pid st(1) by simp
qed

lemma daemon_stops_or_restarts_witness:
  "\<exists>d w r. main_loop demo_host LMAP_IO_XML [(7, [(8, Sig_Term)])]
     (lmapd_new\<lparr>ld_config_paths := [''/c''], ld_capability_path := Some ''/c'', ld_queue_path := Some ''/q''\<rparr>, demo_os) ((\<lambda>_. 0), 0)
     = Inr (Some ((Exits EXIT_SUCCESS, d, w), r))"
proof -
  let ?x = "(lmapd_new\<lparr>ld_config_paths := [''/c''], ld_capability_path := Some ''/c'', ld_queue_path := Some ''/q''\<rparr>, demo_os)"
  have "case begin_round (at_time 7 demo_host) LMAP_IO_XML ?x of Inl e \<Rightarrow> False
    | Inr (good, d1, w1) \<Rightarrow> good \<and> (case lmapd_run_start True 7 d1 ((\<lambda>_. 0), 0) of
        Inr (Some ((ret, d2), r2)) \<Rightarrow> ret = 0 | _ \<Rightarrow> False)"
    by code_simp
  then obtain d1 w1 d2 r2 where b: "begin_round (at_time 7 demo_host) LMAP_IO_XML ?x = Inr (True, d1, w1)"
    "lmapd_run_start True 7 d1 ((\<lambda>_. 0), 0) = Inr (Some ((0, d2), r2))"
    by (auto split: sum.splits prod.splits option.splits)
  have "ho_have_base demo_host" "breaks_loop Sig_Term" by (simp_all add: demo_host_def breaks_loop_def)
  from daemon_stops_or_restarts [where before = "[]" and afterwards = "[]" and rounds = "[]" and t' = 8, OF this(1) b _ this(2)]
  show ?thesis by (simp add: Let_def)
qed

end
