(* ===== verification/Daemon_Steps.thy ===== *)
theory Daemon_Steps
  imports Daemon_Runs Run_States Suppressions
begin

text \<open>
  The event loop refines the step relation: what a round of the daemon does, callback by callback, is a run of \<open>daemon_step\<close>, so
  that the invariants of \<open>Processes\<close>, \<open>Run_States\<close> and \<open>Suppressions\<close> hold whenever the loop waits.
\<close>

section \<open>What leaves alone the runs\<close>

lemma same_runs_refl [simp]: "same_runs l l"
  by (simp add: same_runs_def same_programs_def)

lemma same_runs_events [simp]: "same_runs l (l\<lparr>lm_events := es\<rparr>)"
  by (simp add: same_runs_def same_programs_def)

lemma same_runs_schedules: "map run_part ss = map run_part (lm_schedules l) \<Longrightarrow> same_runs l (l\<lparr>lm_schedules := ss\<rparr>)"
  by (simp add: same_runs_def same_programs_def)

definition action_part :: "action \<Rightarrow> action" where
  "action_part a = a\<lparr>act_storage := 0, act_workspace := None\<rparr>"

lemma run_part_actions:
  "map action_part as = map action_part (sched_actions s) \<Longrightarrow> run_part (s\<lparr>sched_actions := as\<rparr>) = run_part s"
  by (simp add: run_part_def action_part_def [abs_def])

lemma run_part_updates [simp]:
  "run_part (s\<lparr>sched_storage := n\<rparr>) = run_part s" "run_part (s\<lparr>sched_workspace := p\<rparr>) = run_part s"
  by (simp_all add: run_part_def)

lemma update_actions_part: "update_actions walk as ret = Inr (ret', as') \<Longrightarrow> map action_part as' = map action_part as"
  by (induction as arbitrary: ret as') (auto simp: action_part_def obind_Inr)

lemma update_schedules_part: "update_schedules walk ss ret = Inr (ret', ss') \<Longrightarrow> map run_part ss' = map run_part ss"
proof (induction ss arbitrary: ret ss')
  case (Cons s ss)
  obtain c n where n: "du walk (sched_workspace s) (sched_storage s) = Inr (c, n)"
    using Cons.prems by (auto simp: obind_Inr)
  with Cons.prems obtain r as ss1 where "update_actions walk (sched_actions s) (if c = -1 then -1 else ret) = Inr (r, as)"
    "update_schedules walk ss r = Inr (ret', ss1)" "ss' = s\<lparr>sched_storage := n, sched_actions := as\<rparr> # ss1"
    by (auto simp: obind_Inr)
  with Cons.IH update_actions_part show ?case by (simp add: run_part_actions)
qed simp

lemma init_actions_part: "map action_part (snd (init_actions R w as acc)) = map action_part as"
  by (induction R w as acc rule: init_actions.induct)
    (auto simp: action_part_def lmap_action_set_workspace_def set_string_def Let_def split: prod.splits bool.splits)

lemma init_schedule_part: "run_part (snd (init_schedule R q s acc)) = run_part s"
proof -
  have "map action_part as = map action_part (sched_actions s)"
    if "init_actions R w (sched_actions s) x = (y, as)" for w x y as
    using init_actions_part [of R w "sched_actions s" x] that by simp
  then show ?thesis
    by (auto simp: init_schedule_def lmap_schedule_set_workspace_def set_string_def Let_def run_part_actions split: prod.splits)
qed

lemma init_schedules_part: "map run_part (snd (init_schedules R q ss acc)) = map run_part ss"
proof (induction ss arbitrary: acc)
  case (Cons s ss)
  with init_schedule_part [of R q s acc] Cons.IH show ?case
    by (auto split: prod.splits) (metis snd_conv)
qed simp

section \<open>Callbacks as steps\<close>

lemma other_steps:
  assumes "ld_lmap d = Some l" "ld_lmap d' = Some l'" "same_runs l l'"
  shows "(daemon_step lc)\<^sup>*\<^sup>* (d, w) (d', w\<lparr>os_fs := f\<rparr>)"
  using Others [OF assms] Files by (meson rtranclp.rtrancl_into_rtrancl r_into_rtranclp)

lemma other_step:
  assumes "ld_lmap d = Some l" "ld_lmap d' = Some l'" "same_runs l l'"
  shows "(daemon_step lc)\<^sup>*\<^sup>* (d, w) (d', w)"
  using Others [OF assms] by (rule r_into_rtranclp)

lemma flags_and_kill_steps:
  assumes "ld_lmap d = Some l"
  shows "(daemon_step lc)\<^sup>*\<^sup>* (d, w) (d\<lparr>ld_flags := f\<rparr>, lmapd_killall en (d\<lparr>ld_flags := f\<rparr>) w)"
  by (rule rtranclp.rtrancl_into_rtrancl [OF other_step [OF assms, where d' = "d\<lparr>ld_flags := f\<rparr>" and l' = l] Kill])
    (simp_all add: assms same_runs_refl)

lemma daemon_step_keeps: "daemon_step lc x y \<Longrightarrow> ld_lmap (fst x) \<noteq> None \<Longrightarrow> ld_lmap (fst y) \<noteq> None"
  by (induction rule: daemon_step.induct) (auto dest: fire_cb_Inr)

lemma daemon_steps_keep: "(daemon_step lc)\<^sup>*\<^sup>* x y \<Longrightarrow> ld_lmap (fst x) \<noteq> None \<Longrightarrow> ld_lmap (fst y) \<noteq> None"
  by (induction rule: rtranclp_induct) (use daemon_step_keeps in blast)+

lemma timer_callback_steps:
  assumes "timer_callback f k (d, w) r = Inr (Some ((d', w'), r'))"
  shows "(daemon_step lc)\<^sup>*\<^sup>* (d, w) (d', w')"
proof -
  have "(d', w') = (d, w) \<or> (\<exists>l es. ld_lmap d = Some l \<and> d' = d\<lparr>ld_lmap := Some (l\<lparr>lm_events := es\<rparr>)\<rparr> \<and> w' = w)"
    using assms by (auto simp: timer_callback_def dbind_def obind_Inr split: option.splits if_splits prod.splits)
  then show ?thesis by (auto intro: other_step)
qed

lemma sigusr1_steps:
  assumes "lmapd_sigusr1_cb H g d w = Inr (d', w')" "ld_lmap d = Some l"
  shows "(daemon_step lc)\<^sup>*\<^sup>* (d, w) (d', w')"
proof -
  obtain ret ss where u: "update_schedules (ho_walk H (os_fs w)) (lm_schedules l) 0 = Inr (ret, ss)"
    using assms by (auto simp: lmapd_sigusr1_cb_def lmapd_workspace_update_def obind_Inr split: option.splits)
  note same = same_runs_schedules [OF update_schedules_part [OF u]]
  obtain run where run: "ld_run_path d = Some run"
    using assms(1) by (auto simp: lmapd_sigusr1_cb_def split: option.splits)
  obtain o' f where o: "open_create_trunc (en_refuse (ho_env H)) (os_fs w) (status_file g run) = (o', f)" by fastforce
  have "ld_lmap d' = Some (l\<lparr>lm_schedules := ss\<rparr>) \<and> (w' = w \<or> (\<exists>f. w' = w\<lparr>os_fs := f\<rparr>))"
    using assms u run o by (cases o'; auto simp: lmapd_sigusr1_cb_def lmapd_workspace_update_def obind_Inr
        split: option.splits)
  then show ?thesis using other_step [OF assms(2) _ same] other_steps [OF assms(2) _ same] by blast
qed

lemma workspace_init_lmap:
  assumes "lmapd_workspace_init R d fs = (r, d')" "ld_lmap d = Some l"
  shows "\<exists>l'. ld_lmap d' = Some l' \<and> same_runs l l'"
  using assms init_schedules_part
  by (auto simp: lmapd_workspace_init_def split: option.splits prod.splits intro!: same_runs_schedules) (metis snd_conv)

lemma sigusr2_steps:
  assumes "lmapd_sigusr2_cb H d w = Inr (d', w')" "ld_lmap d = Some l"
  shows "(daemon_step lc)\<^sup>*\<^sup>* (d, w) (d', w')"
proof -
  have "\<exists>l' f. ld_lmap d' = Some l' \<and> same_runs l l' \<and> w' = w\<lparr>os_fs := f\<rparr>"
    using assms workspace_init_lmap [OF _ assms(2)]
    by (fastforce simp: lmapd_sigusr2_cb_def split: prod.splits if_splits)
  then show ?thesis using other_steps [OF assms(2)] by blast
qed

lemma handle_steps:
  assumes "handle H g h (d, w) r = Inr (Some ((d', w'), r'))" "ld_lmap d = Some l"
  shows "(daemon_step (en_libc (ho_env H)))\<^sup>*\<^sup>* (d, w) (d', w')"
proof (cases h)
  case (Sig_Chld waits)
  then have "lmapd_cleanup (ho_env H) waits d w = Inr (d', w')"
    using assms by (auto simp: handle_def undrawn_def obind_Inr lmapd_sigchld_cb_def)
  from lmapd_cleanup_steps [OF this refl] show ?thesis .
next
  case Sig_Usr1
  then show ?thesis using assms sigusr1_steps by (auto simp: handle_def undrawn_def obind_Inr)
next
  case Sig_Usr2
  then show ?thesis using assms sigusr2_steps by (auto simp: handle_def undrawn_def obind_Inr)
next
  case (Fire_Due k)
  then show ?thesis
    using assms Fire [OF refl assms(2)] by (auto simp: handle_def undrawn_def obind_Inr split: if_splits)
qed (use assms flags_and_kill_steps [OF assms(2)] timer_callback_steps in
    \<open>auto simp: handle_def lmapd_sigint_cb_def lmapd_sigterm_cb_def lmapd_sighup_cb_def lmapd_stop_def lmapd_restart_def Let_def\<close>)

lemma event_loop_steps:
  assumes "event_loop H g hs x r = Inr (Some ((b, y), r'))" "ld_lmap (fst x) \<noteq> None"
  shows "(daemon_step (en_libc (ho_env H)))\<^sup>*\<^sup>* x y"
  using assms
proof (induction hs arbitrary: x r)
  case (Cons th hs)
  obtain t h where th: "th = (t, h)" by fastforce
  obtain z r1 where z: "handle (at_time t H) g h x r = Inr (Some (z, r1))"
    using Cons.prems(1) th by (cases "handle (at_time t H) g h x r") (auto simp: dbind_def split: option.splits)
  have rest: "z = y \<or> event_loop H g hs z r1 = Inr (Some ((b, y), r'))"
    using Cons.prems(1) th z by (auto split: if_splits)
  obtain d w d' w' l where s: "x = (d, w)" "z = (d', w')" "ld_lmap d = Some l"
    using Cons.prems(2) by (cases x, cases z) auto
  have xz: "(daemon_step (en_libc (ho_env H)))\<^sup>*\<^sup>* x z"
    using handle_steps [OF z [unfolded s(1,2)] s(3)] s by (simp add: at_time_def)
  with rest Cons.IH daemon_steps_keep [OF xz Cons.prems(2)] show ?case by (meson rtranclp_trans)
qed simp

lemma run_start_steps:
  assumes "lmapd_run_start base now d r = Inr (Some ((ret, d'), r'))" "ld_lmap d = Some l"
  shows "(daemon_step lc)\<^sup>*\<^sup>* (d, w) (d', w) \<and> ld_lmap d' \<noteq> None"
proof -
  have "d' = d \<or> (\<exists>es. d' = d\<lparr>ld_lmap := Some (l\<lparr>lm_events := es\<rparr>)\<rparr>)"
    using assms by (auto simp: lmapd_run_start_def dbind_def obind_Inr split: option.splits if_splits prod.splits)
  then show ?thesis using assms(2) by (auto intro: other_step)
qed

text \<open>
  C4. A round of the daemon, from the arming of the events through any sequence of signals and timers in the event loop, is a run
  of the step relation. So whatever comes in whatever order, the accounting of the children, the states of what runs and
  the counters of the suppressions are right at each moment at which the loop waits, if they were when the configuration had been read.
\<close>

theorem daemon_round_refines_steps:
  assumes "ld_lmap d1 = Some l" "lmapd_run_start base now d1 r1 = Inr (Some ((ret, d2), r2))"
    and "event_loop H g happenings (d2, w1) r2 = Inr (Some ((broken, d, w), r3))"
  defines "lc \<equiv> en_libc (ho_env H)"
  shows "(daemon_step lc)\<^sup>*\<^sup>* (d1, w1) (d, w)
    \<and> (idle_start l (d1, w1) \<longrightarrow> process_inv l (d, w))
    \<and> (quiet_start (d1, w1) \<longrightarrow> alive_inv (d, w))
    \<and> (unsuppressed_start l \<longrightarrow> suppression_inv lc (d, w))"
proof -
  have "(daemon_step lc)\<^sup>*\<^sup>* (d1, w1) (d2, w1)" "ld_lmap d2 \<noteq> None"
    using run_start_steps [OF assms(2,1)] by auto
  moreover have "(daemon_step lc)\<^sup>*\<^sup>* (d2, w1) (d, w)"
    unfolding lc_def using event_loop_steps [OF assms(3)] \<open>ld_lmap d2 \<noteq> None\<close> by simp
  ultimately have run: "(daemon_step lc)\<^sup>*\<^sup>* (d1, w1) (d, w)" by simp
  then show ?thesis
    using process_inv_reachable [OF run process_inv_start] alive_inv_reachable [OF run alive_inv_start]
      suppression_inv_reachable [OF run suppression_inv_start [OF _ assms(1)]] by blast
qed

text \<open>An event that is due: the child it starts is in the accounts.\<close>

definition armed_daemon :: lmapd where
  "armed_daemon = run_daemon\<lparr>ld_lmap := Some (run_config\<lparr>lm_events := map (start_after 0) (lm_events run_config)\<rparr>)\<rparr>"

lemma armed_run: "run_view (fire_cb (run_env\<lparr>en_now := 1700000001\<rparr>) 0 armed_daemon run_os)"
  by code_simp

lemma daemon_round_refines_steps_witness:
  "\<exists>d w. event_loop demo_host LMAP_IO_JSON [(1700000001, Fire_Due 0)] (armed_daemon, run_os) ((\<lambda>_. 0), 0)
      = Inr (Some ((False, d, w), ((\<lambda>_. 0), 0)))
    \<and> map ch_pid (os_started w) = [4242] \<and> process_inv run_config (d, w)"
proof -
  obtain d w where f: "fire_cb (run_env\<lparr>en_now := 1700000001\<rparr>) 0 armed_daemon run_os = Inr (d, w)"
    and pids: "map ch_pid (os_started w) = [4242]"
    using armed_run by (auto simp: run_view_def split: sum.splits)
  have env: "ho_env (at_time 1700000001 demo_host) = run_env\<lparr>en_now := 1700000001\<rparr>"
    by (simp add: at_time_def demo_host_def)
  have loop: "event_loop demo_host LMAP_IO_JSON [(1700000001, Fire_Due 0)] (armed_daemon, run_os) ((\<lambda>_. 0), 0)
      = Inr (Some ((False, d, w), ((\<lambda>_. 0), 0)))"
    using f by (simp add: handle_def env undrawn_def breaks_loop_def armed_daemon_def run_config_def)
  have start: "lmapd_run_start True 1700000000 run_daemon ((\<lambda>_. 0), 0) = Inr (Some ((0, armed_daemon), ((\<lambda>_. 0), 0)))"
    by (simp add: lmapd_run_start_def run_daemon_def run_config_def arm_event_def event_used_def names_event_def ended_def
        periodic_delay_def armed_daemon_def lmap_event_new_def lmapd_new_def flag_simps)
  have "ld_lmap run_daemon = Some run_config" by (simp add: run_daemon_def)
  from daemon_round_refines_steps [OF this start loop] run_daemon_idle have "process_inv run_config (d, w)" by blast
  with loop pids show ?thesis by (intro exI [of _ d] exI [of _ w]) simp
qed

end
