(* ===== verification/Daemon_Events.thy ===== *)
theory Daemon_Events
  imports Daemon_Steps
begin

text \<open>
  What the callbacks make of the events and of the flags of the daemon, whatever else happens in the event loop: a periodic event
  repeats until its end, and the startup events are over once they have run.
\<close>

section \<open>What a callback does to the events\<close>

text \<open>The event at position \<open>k\<close> before and after a callback.\<close>

fun event_moves :: "env \<Rightarrow> nat \<Rightarrow> happening \<Rightarrow> event \<Rightarrow> event \<Rightarrow> bool" where
  "event_moves en k (Start_Due j) e e' \<longleftrightarrow>
     (if j = k then (\<exists>g g'. startup_cb (en_now en) e g = Inr (Some (e', g'))) else e' = e)"
| "event_moves en k (Trigger_Due j) e e' \<longleftrightarrow>
     (if j = k then (\<exists>g g'. trigger_callback en e g = Inr (Some (e', g'))) else e' = e)"
| "event_moves en k (Fire_Due j) e e' \<longleftrightarrow> e' = (if j = k then e\<lparr>ev_fire_event := None\<rparr> else e)"
| "event_moves en k h e e' \<longleftrightarrow> e' = e"

definition events_move :: "env \<Rightarrow> happening \<Rightarrow> event list \<Rightarrow> event list \<Rightarrow> bool" where
  "events_move en h es es' \<longleftrightarrow>
     length es' = length es \<and> (\<forall>k<length es. event_moves en k h (es ! k) (es' ! k))"

lemma events_move_same: "(\<And>k. k < length es \<Longrightarrow> event_moves en k h (es ! k) (es ! k)) \<Longrightarrow> events_move en h es es"
  by (simp add: events_move_def)

text \<open>The flags that no callback takes off.\<close>

definition keeps_flags :: "flags \<Rightarrow> flags \<Rightarrow> bool" where
  "keeps_flags f f' \<longleftrightarrow> (\<forall>m\<in>{LMAPD_FLAG_STARTUPDONE, LMAPD_FLAG_SKIPSTARTUP}. flag_on f m \<longrightarrow> flag_on f' m)"

lemma keeps_flags_refl [simp]: "keeps_flags f f"
  by (simp add: keeps_flags_def)

lemma keeps_flags_trans: "keeps_flags f f' \<Longrightarrow> keeps_flags f' f'' \<Longrightarrow> keeps_flags f f''"
  by (simp add: keeps_flags_def)

lemma keeps_flags_set [simp]: "keeps_flags f (flag_set f m)"
  by (simp add: keeps_flags_def flag_on_set_mono)

lemma keeps_flags_stop [simp]: "keeps_flags f (flag_clear f LMAPD_FLAG_RESTART)"
  by (simp add: keeps_flags_def flag_simps lmapd_flag_defs)

lemma keeps_flags_hangup [simp]: "keeps_flags f (after_hangup f)"
  by (auto simp: keeps_flags_def after_hangup_def Let_def flag_on_set_mono)

lemma cleanup_events:
  assumes "lmapd_cleanup en waits d w = Inr (d', w')" "ld_lmap d = Some l"
  shows "\<exists>l'. ld_lmap d' = Some l' \<and> lm_events l' = lm_events l \<and> ld_flags d' = ld_flags d"
proof -
  have one: "lm_events l' = lm_events l" if "cleanup_child en x (l, w) = Inr (l', w')" for x l w l' w'
    using that cleanup_child_Inr [of en "fst x" "snd x" l w l' w'] by (auto simp: with_schedules_def)
  have all: "ofold (cleanup_child en) xs (l, w) = Inr (l', w') \<Longrightarrow> lm_events l' = lm_events l" for xs l w l' w'
  proof (induction xs arbitrary: l w)
    case (Cons x xs)
    then obtain l1 w1 where "cleanup_child en x (l, w) = Inr (l1, w1)" "ofold (cleanup_child en) xs (l1, w1) = Inr (l', w')"
      by (auto simp: obind_Inr)
    with Cons.IH one show ?case by metis
  qed simp
  show ?thesis using assms all by (auto simp: lmapd_cleanup_def obind_Inr)
qed

lemma workspace_init_events:
  assumes "lmapd_workspace_init R d fs = (r, d')" "ld_lmap d = Some l"
  shows "\<exists>l'. ld_lmap d' = Some l' \<and> lm_events l' = lm_events l \<and> ld_flags d' = ld_flags d"
  using assms by (auto simp: lmapd_workspace_init_def split: option.splits prod.splits)

lemma sigusr1_events:
  assumes "lmapd_sigusr1_cb H g d w = Inr (d', w')" "ld_lmap d = Some l"
  shows "\<exists>l'. ld_lmap d' = Some l' \<and> lm_events l' = lm_events l \<and> ld_flags d' = ld_flags d"
proof -
  obtain ret ss where u: "update_schedules (ho_walk H (os_fs w)) (lm_schedules l) 0 = Inr (ret, ss)"
    using assms by (auto simp: lmapd_sigusr1_cb_def lmapd_workspace_update_def obind_Inr split: option.splits)
  obtain run where run: "ld_run_path d = Some run"
    using assms(1) by (auto simp: lmapd_sigusr1_cb_def split: option.splits)
  obtain o' f where o: "open_create_trunc (en_refuse (ho_env H)) (os_fs w) (status_file g run) = (o', f)" by fastforce
  have "d' = d\<lparr>ld_lmap := Some (l\<lparr>lm_schedules := ss\<rparr>)\<rparr>"
    using assms u run o by (cases o'; auto simp: lmapd_sigusr1_cb_def lmapd_workspace_update_def obind_Inr
        split: option.splits)
  then show ?thesis by simp
qed

lemma sigusr2_events:
  assumes "lmapd_sigusr2_cb H d w = Inr (d', w')" "ld_lmap d = Some l"
  shows "\<exists>l'. ld_lmap d' = Some l' \<and> lm_events l' = lm_events l \<and> ld_flags d' = ld_flags d"
  using assms workspace_init_events [OF _ assms(2)]
  by (fastforce simp: lmapd_sigusr2_cb_def split: prod.splits if_splits)

lemma timer_events:
  assumes "timer_callback f j (d, w) r = Inr (Some ((d', w'), r'))" "ld_lmap d = Some l"
  shows "ld_flags d' = ld_flags d \<and> (\<exists>l'. ld_lmap d' = Some l' \<and> length (lm_events l') = length (lm_events l)
    \<and> (\<forall>k<length (lm_events l). if j = k then (\<exists>g g'. f (lm_events l ! k) g = Inr (Some (lm_events l' ! k, g')))
         else lm_events l' ! k = lm_events l ! k))"
proof (cases "j < length (lm_events l)")
  case True
  with assms obtain e where "f (lm_events l ! j) r = Inr (Some (e, r'))" "d' = d\<lparr>ld_lmap := Some (l\<lparr>lm_events := (lm_events l)[j := e]\<rparr>)\<rparr>"
    by (auto simp: timer_callback_def dbind_def obind_Inr split: option.splits)
  moreover from this(1) have "\<exists>g g'. f (lm_events l ! j) g = Inr (Some (e, g'))" by blast
  ultimately show ?thesis using True by (simp add: nth_list_update del: split_paired_Ex)
qed (use assms in \<open>auto simp: timer_callback_def\<close>)

lemma handle_events:
  assumes "handle H g h (d, w) r = Inr (Some ((d', w'), r'))" "ld_lmap d = Some l"
  shows "\<exists>l'. ld_lmap d' = Some l' \<and> events_move (ho_env H) h (lm_events l) (lm_events l')
    \<and> keeps_flags (ld_flags d) (ld_flags d')"
proof (cases h)
  case (Sig_Chld waits)
  then have "lmapd_cleanup (ho_env H) waits d w = Inr (d', w')"
    using assms by (auto simp: handle_def undrawn_def obind_Inr lmapd_sigchld_cb_def)
  from cleanup_events [OF this assms(2)] Sig_Chld show ?thesis by (auto simp: events_move_def)
next
  case Sig_Usr1
  with assms(1) have "lmapd_sigusr1_cb H g d w = Inr (d', w')" by (auto simp: handle_def undrawn_def obind_Inr)
  from sigusr1_events [OF this assms(2)] Sig_Usr1 show ?thesis by (auto simp: events_move_def)
next
  case Sig_Usr2
  with assms(1) have "lmapd_sigusr2_cb H d w = Inr (d', w')" by (auto simp: handle_def undrawn_def obind_Inr)
  from sigusr2_events [OF this assms(2)] Sig_Usr2 show ?thesis by (auto simp: events_move_def)
next
  case (Start_Due j)
  with assms timer_events [OF _ assms(2)] show ?thesis
    by (fastforce simp: handle_def events_move_def)
next
  case (Trigger_Due j)
  with assms timer_events [OF _ assms(2)] show ?thesis
    by (fastforce simp: handle_def events_move_def)
next
  case (Fire_Due j)
  with assms fire_cb_Inr [OF _ assms(2), of "ho_env H" j w d' w'] show ?thesis
    by (auto simp: handle_def undrawn_def obind_Inr events_move_def nth_list_update split: if_splits)
qed (use assms in \<open>auto simp: handle_def lmapd_sigint_cb_def lmapd_sigterm_cb_def lmapd_sighup_cb_def lmapd_stop_def
      restart_flags lmapd_restart_def Let_def events_move_def keeps_flags_def flag_on_set_mono flag_simps lmapd_flag_defs\<close>)

section \<open>Periodic events\<close>

lemma arm_events_nth:
  "arm_events now l fl es g = Inr (Some (es', g')) \<Longrightarrow> length es' = length es \<and>
    (\<forall>k<length es. \<exists>g1 g2. arm_event now l fl (es ! k) g1 = Inr (Some (es' ! k, g2)))"
proof (induction es arbitrary: es' g)
  case (Cons e es)
  then obtain e1 g1 es1 where e1: "arm_event now l fl e g = Inr (Some (e1, g1))"
    and es1: "arm_events now l fl es g1 = Inr (Some (es1, g'))" "es' = e1 # es1"
    by (auto simp: dbind_def obind_Inr split: option.splits)
  from e1 have "\<exists>g1 g2. arm_event now l fl e g1 = Inr (Some (e1, g2))" by blast
  with Cons.IH [OF es1(1)] es1(2) show ?case by (auto simp: less_Suc_eq_0_disj simp del: split_paired_Ex)
qed simp

lemma run_start_events:
  assumes "lmapd_run_start True now d r = Inr (Some ((ret, d'), r'))" "ld_lmap d = Some l"
  shows "ret = 0 \<and> ld_flags d' = ld_flags d \<and> (\<exists>l'. ld_lmap d' = Some l' \<and> length (lm_events l') = length (lm_events l)
    \<and> (\<forall>k<length (lm_events l). \<exists>g g'. arm_event now l (ld_flags d) (lm_events l ! k) g = Inr (Some (lm_events l' ! k, g'))))"
proof -
  from assms obtain es where "arm_events now l (ld_flags d) (lm_events l) r = Inr (Some (es, r'))"
    and "ret = 0" "d' = d\<lparr>ld_lmap := Some (l\<lparr>lm_events := es\<rparr>)\<rparr>"
    by (auto simp: lmapd_run_start_def dbind_def obind_Inr split: option.splits)
  with arm_events_nth [OF this(1)] show ?thesis by (simp del: split_paired_Ex)
qed

text \<open>
  What a periodic event is meant to do: it waits for its start, then it repeats until the first callback after its end. Next to
  the phase stands whether it has asked to be fired.
\<close>

datatype phase = Off | Waiting | Repeating

fun periodic_move :: "event \<Rightarrow> nat \<Rightarrow> int \<times> happening \<Rightarrow> phase \<times> bool \<Rightarrow> phase \<times> bool" where
  "periodic_move e k (t, Start_Due j) (ph, f) =
     (if j \<noteq> k then (ph, f) else if ended e t then (Off, f) else (Repeating, True))"
| "periodic_move e k (t, Trigger_Due j) (ph, f) =
     (if j \<noteq> k \<or> ph \<noteq> Repeating then (ph, f) else if ended e t then (Off, f) else (Repeating, True))"
| "periodic_move e k (t, Fire_Due j) (ph, f) = (ph, f \<and> j \<noteq> k)"
| "periodic_move e k (t, h) x = x"

text \<open>The event \<open>e\<close> with the timers of a phase, the delay \<open>tv\<close> of its start and what it has asked to be fired.\<close>

definition in_phase :: "event \<Rightarrow> int \<Rightarrow> phase \<Rightarrow> timer option \<Rightarrow> event" where
  "in_phase e tv ph fr =
     e\<lparr>ev_start_event := (if ph = Waiting
         then Some \<lparr>tmr_callback = Startup_Cb, tmr_persist = False, tmr_delay = tv\<rparr> else None),
       ev_trigger_event := (if ph = Repeating
         then Some \<lparr>tmr_callback = Trigger_Periodic_Cb, tmr_persist = True, tmr_delay = uint (ev_interval e)\<rparr> else None),
       ev_fire_event := fr\<rparr>"

definition fire_timer :: "event \<Rightarrow> timer \<Rightarrow> bool" where
  "fire_timer e t \<longleftrightarrow> tmr_callback t = Fire_Cb \<and> \<not> tmr_persist t \<and> 0 \<le> tmr_delay t
     \<and> tmr_delay t \<le> (if flag_on (ev_flags e) LMAP_EVENT_FLAG_RANDOM_SPREAD_SET then uint (ev_random_spread e) else 0)"

definition asked :: "event \<Rightarrow> bool \<Rightarrow> timer option \<Rightarrow> bool" where
  "asked e f fr = (case fr of None \<Rightarrow> \<not> f | Some t \<Rightarrow> f \<and> fire_timer e t)"

definition periodic_slots :: "event \<Rightarrow> int \<Rightarrow> phase \<times> bool \<Rightarrow> event \<Rightarrow> bool" where
  "periodic_slots e tv x e' \<longleftrightarrow> (\<exists>fr. asked e (snd x) fr \<and> e' = in_phase e tv (fst x) fr)"

lemma periodic_slotsI: "asked e f fr \<Longrightarrow> periodic_slots e tv (ph, f) (in_phase e tv ph fr)"
  by (auto simp: periodic_slots_def)

lemma asked_simps [simp]: "asked e f None \<longleftrightarrow> \<not> f" "asked e f (Some t) \<longleftrightarrow> f \<and> fire_timer e t"
  by (simp_all add: asked_def)

lemma fire_after_spread_0:
  assumes "fire_after_spread e 0 g = Inr (Some (e', g'))"
  shows "\<exists>t. e' = e\<lparr>ev_fire_event := Some t\<rparr> \<and> (ev_fire_event e = Some t \<or> ev_fire_event e = None \<and> fire_timer e t)"
proof -
  have sp: "uint v \<le> uint (ev_random_spread e)" if "rand_interval 0 (ev_random_spread e) g = Inr (Some (v, g2))" for v g2
    using rand_interval_bound [OF that] by (simp add: word_le_def)
  from assms obtain tv g2 where tv: "add_random_spread e 0 g = Inr (Some (tv, g2))"
    and e': "e' = e\<lparr>ev_fire_event := event_gaga Fire_Cb False tv (ev_fire_event e)\<rparr>"
    by (auto simp: fire_after_spread_def dbind_def obind_Inr split: option.splits)
  have "0 \<le> tv \<and> tv \<le> (if flag_on (ev_flags e) LMAP_EVENT_FLAG_RANDOM_SPREAD_SET then uint (ev_random_spread e) else 0)"
    using tv sp by (auto simp: add_random_spread_def dbind_def obind_Inr split: option.splits if_splits)
  note bounds = this
  show ?thesis
  proof (cases "ev_fire_event e")
    case None
    with e' bounds show ?thesis
      by (intro exI [of _ "\<lparr>tmr_callback = Fire_Cb, tmr_persist = False, tmr_delay = tv\<rparr>"]) (simp add: event_gaga_def fire_timer_def)
  next
    case (Some t)
    with e' show ?thesis by (intro exI [of _ t]) (simp add: event_gaga_def)
  qed
qed

lemma in_phase_simps [simp]:
  "ended (in_phase e tv ph fr) t = ended e t" "ev_type (in_phase e tv ph fr) = ev_type e"
  "ev_interval (in_phase e tv ph fr) = ev_interval e" "ev_fire_event (in_phase e tv ph fr) = fr"
  "fire_timer (in_phase e tv ph fr) = fire_timer e"
  "(in_phase e tv ph fr)\<lparr>ev_fire_event := fr'\<rparr> = in_phase e tv ph fr'"
  by (simp_all add: in_phase_def ended_def fire_timer_def [abs_def])

lemma in_phase_trigger:
  "(in_phase e tv Repeating fr)\<lparr>ev_trigger_event := None\<rparr> = in_phase e tv Off fr"
  by (rule event.equality) (simp_all add: in_phase_def)

lemma in_phase_startup:
  "(in_phase e tv ph fr)\<lparr>ev_trigger_event := event_gaga Trigger_Periodic_Cb True (uint (ev_interval e))
      (ev_trigger_event (in_phase e tv ph fr)), ev_start_event := None\<rparr> = in_phase e tv Repeating fr"
  by (rule event.equality) (simp_all add: in_phase_def event_gaga_def)

text \<open>The callback of the trigger does not look at the timer of the start.\<close>

lemma trigger_periodic_start:
  assumes "trigger_periodic_cb t x g = Inr (Some (y, g'))"
  shows "trigger_periodic_cb t (x\<lparr>ev_start_event := None\<rparr>) g = Inr (Some (y\<lparr>ev_start_event := None\<rparr>, g'))"
proof (cases "ended x t")
  case True
  with assms show ?thesis by (auto simp: trigger_periodic_cb_def ended_def intro: event.equality)
next
  case False
  with assms obtain tv where "add_random_spread x 0 g = Inr (Some (tv, g'))"
    "y = x\<lparr>ev_fire_event := event_gaga Fire_Cb False tv (ev_fire_event x)\<rparr>"
    by (auto simp: trigger_periodic_cb_def fire_after_spread_def dbind_def obind_Inr split: option.splits)
  moreover have "add_random_spread (x\<lparr>ev_start_event := None\<rparr>) 0 g = add_random_spread x 0 g"
    by (simp add: add_random_spread_def)
  ultimately show ?thesis
    using False by (auto simp: trigger_periodic_cb_def fire_after_spread_def ended_def intro: event.equality)
qed

lemma trigger_periodic:
  assumes "trigger_periodic_cb t (in_phase e tv Repeating fr) g = Inr (Some (e2, g'))"
    "asked e f fr"
  shows "periodic_slots e tv (if ended e t then (Off, f) else (Repeating, True)) e2"
proof (cases "ended e t")
  case True
  with assms have "e2 = in_phase e tv Off fr" by (simp add: trigger_periodic_cb_def in_phase_trigger)
  with True periodic_slotsI [OF assms(2)] show ?thesis by simp
next
  case False
  with assms(1) have "fire_after_spread (in_phase e tv Repeating fr) 0 g = Inr (Some (e2, g'))"
    by (simp add: trigger_periodic_cb_def)
  from fire_after_spread_0 [OF this] obtain t' where e2: "e2 = in_phase e tv Repeating (Some t')"
    and "fr = Some t' \<or> fr = None \<and> fire_timer e t'" by auto
  with assms(2) have "asked e True (Some t')" by auto
  from periodic_slotsI [OF this] False e2 show ?thesis by simp
qed

lemma startup_periodic:
  assumes "startup_cb t (in_phase e tv ph fr) g = Inr (Some (e2, g'))" "ev_type e = Periodic"
    "asked e f fr"
  shows "periodic_slots e tv (if ended e t then (Off, f) else (Repeating, True)) e2"
proof -
  let ?e = "(in_phase e tv ph fr)\<lparr>ev_trigger_event := event_gaga Trigger_Periodic_Cb True (uint (ev_interval e))
      (ev_trigger_event (in_phase e tv ph fr))\<rparr>"
  from assms(1,2) obtain e3 g3 where "trigger_periodic_cb t ?e g = Inr (Some (e3, g3))"
    and e2: "e2 = e3\<lparr>ev_start_event := None\<rparr>"
    by (auto simp: startup_cb_def dbind_def obind_Inr split: option.splits)
  from trigger_periodic_start [OF this(1)] have "trigger_periodic_cb t (in_phase e tv Repeating fr) g = Inr (Some (e2, g3))"
    unfolding in_phase_startup e2 .
  from trigger_periodic [OF this assms(3)] show ?thesis .
qed

lemma periodic_step:
  assumes "ev_type e = Periodic" "periodic_slots e tv x e1" "event_moves (ho_env (at_time t H)) k h e1 e2"
  shows "periodic_slots e tv (periodic_move e k (t, h) x) e2"
proof -
  obtain ph f where x: "x = (ph, f)" by fastforce
  obtain fr where e1: "e1 = in_phase e tv ph fr" and fr: "asked e f fr"
    using assms(2) unfolding x periodic_slots_def fst_conv snd_conv by blast
  have env: "en_now (ho_env (at_time t H)) = t" by (simp add: at_time_def)
  show ?thesis
  proof (cases h)
    case (Start_Due j)
    with assms startup_periodic [OF _ assms(1) fr, of t tv ph] show ?thesis
      by (auto simp: e1 x env)
  next
    case (Trigger_Due j)
    show ?thesis
    proof (cases "j = k \<and> ph = Repeating")
      case True
      with Trigger_Due assms(3) obtain g g' where
        "trigger_periodic_cb t (in_phase e tv Repeating fr) g = Inr (Some (e2, g'))"
        by (auto simp: e1 trigger_callback_def trigger_cb_def env in_phase_def)
      from trigger_periodic [OF this fr] True Trigger_Due show ?thesis by (simp add: x)
    next
      case False
      with Trigger_Due assms(2,3) show ?thesis
        by (auto simp: e1 x trigger_callback_def in_phase_def split: if_splits)
    qed
  next
    case (Fire_Due j)
    show ?thesis
    proof (cases "j = k")
      case True
      with Fire_Due assms(3) have "e2 = in_phase e tv ph None" by (simp add: e1)
      with periodic_slotsI [of e False None] True Fire_Due show ?thesis by (simp add: x)
    qed (use Fire_Due assms(2,3) in \<open>simp add: x\<close>)
  qed (use assms(2,3) in \<open>simp_all add: x\<close>)
qed

lemma event_loop_Cons:
  assumes "event_loop H g ((t, h) # hs) (d, w) r = Inr (Some ((b, y), r'))" "ld_lmap d = Some l"
  shows "\<exists>d1 w1 r1 l1. handle (at_time t H) g h (d, w) r = Inr (Some ((d1, w1), r1)) \<and> ld_lmap d1 = Some l1
    \<and> events_move (ho_env (at_time t H)) h (lm_events l) (lm_events l1) \<and> keeps_flags (ld_flags d) (ld_flags d1)
    \<and> (if breaks_loop h then b \<and> y = (d1, w1) else event_loop H g hs (d1, w1) r1 = Inr (Some ((b, y), r')))"
proof -
  from assms(1) obtain d1 w1 r1 where h: "handle (at_time t H) g h (d, w) r = Inr (Some ((d1, w1), r1))"
    and rest: "(if breaks_loop h then Inr (Some ((True, d1, w1), r1)) else event_loop H g hs (d1, w1) r1) = Inr (Some ((b, y), r'))"
    by (auto simp: dbind_def obind_Inr split: option.splits prod.splits)
  from handle_events [OF h assms(2)] h rest show ?thesis by (auto split: if_splits)
qed

lemma loop_periodic:
  "event_loop H g hs (d, w) r = Inr (Some ((False, d', w'), r')) \<Longrightarrow> ld_lmap d = Some l \<Longrightarrow> k < length (lm_events l)
    \<Longrightarrow> ev_type e = Periodic \<Longrightarrow> periodic_slots e tv x (lm_events l ! k) \<Longrightarrow>
    \<exists>l'. ld_lmap d' = Some l' \<and> k < length (lm_events l') \<and> periodic_slots e tv (fold (periodic_move e k) hs x) (lm_events l' ! k)"
proof (induction hs arbitrary: d w r l x)
  case (Cons th hs)
  obtain t h where th: "th = (t, h)" by fastforce
  from event_loop_Cons [OF Cons.prems(1) [unfolded th] Cons.prems(2)] obtain d1 w1 r1 l1 where
    1: "ld_lmap d1 = Some l1" "events_move (ho_env (at_time t H)) h (lm_events l) (lm_events l1)"
      "event_loop H g hs (d1, w1) r1 = Inr (Some ((False, d', w'), r'))"
    by (auto split: if_splits)
  have "event_moves (ho_env (at_time t H)) k h (lm_events l ! k) (lm_events l1 ! k)" "k < length (lm_events l1)"
    using 1(2) Cons.prems(3) by (simp_all add: events_move_def)
  from Cons.IH [OF 1(3,1) this(2) Cons.prems(4) periodic_step [OF Cons.prems(4,5) this(1)]] show ?case by (simp add: th)
qed auto

lemma arm_periodic:
  assumes "arm_event now l fl e g = Inr (Some (e', g'))" "ev_type e = Periodic" "ev_name e = Some name" "event_used l name"
    "ev_start_event e = None" "ev_trigger_event e = None" "ev_fire_event e = None"
  shows "\<exists>tv. (ended e now \<or> periodic_delay now e = Inr tv)
    \<and> periodic_slots e tv (if ended e now then Off else Waiting, False) e'"
proof (cases "ended e now")
  case True
  have "e = in_phase e 0 Off None" using assms(5-7) by (intro event.equality) (simp_all add: in_phase_def)
  with True assms(1-4) have "e' = in_phase e 0 Off None" by (auto simp: arm_event_def)
  with True periodic_slotsI [of e False None 0 Off] show ?thesis by auto
next
  case False
  with assms(1-4) obtain tv where tv: "periodic_delay now e = Inr tv" "e' = start_after tv e"
    by (auto simp: arm_event_def obind_Inr)
  have "start_after tv e = in_phase e tv Waiting None"
    using assms(5-7) by (intro event.equality) (simp_all add: in_phase_def start_after_def event_gaga_def)
  with tv False periodic_slotsI [of e False None tv Waiting] show ?thesis by auto
qed

lemma periodic_move_on:
  "(\<exists>t. (t, Start_Due k) \<in> set hs) \<or> fst x = Repeating \<Longrightarrow> \<forall>t\<in>fst ` set hs. \<not> ended e t \<Longrightarrow>
    fst (fold (periodic_move e k) hs x) = Repeating"
proof (induction hs arbitrary: x)
  case (Cons th hs)
  obtain t h where th: "th = (t, h)" by fastforce
  obtain ph f where x: "x = (ph, f)" by fastforce
  have "\<not> ended e t" using Cons.prems(2) th by auto
  then have "h = Start_Due k \<or> ph = Repeating \<Longrightarrow> fst (periodic_move e k (t, h) (ph, f)) = Repeating"
    by (cases h) auto
  with Cons.prems Cons.IH [of "periodic_move e k (t, h) x"] show ?case by (auto simp: th x)
qed simp

text \<open>
  C6. A periodic event repeats until its end. Take a round of the daemon in which a schedule or suppression uses the periodic
  event at position \<open>k\<close>, with no timers yet. Whatever signals and timers come in the event loop, in whatever order and at whatever
  times, the timers of the event are those of \<^const>\<open>periodic_move\<close>: first only the timer of its start, after the delay of
  \<^const>\<open>periodic_delay\<close>; from the start on a timer that libevent is to repeat every interval, until it is called after the
  end date; and each start and each call of that timer before the end asks for one firing, at once or, with a random spread, within
  it. So as long as no call comes after the end date, the repeating timer stays once the event has started.
\<close>

theorem periodic_repeats_until_end:
  assumes "ld_lmap d1 = Some l" "k < length (lm_events l)"
    and "ev_type (lm_events l ! k) = Periodic" "ev_name (lm_events l ! k) = Some name" "event_used l name"
    and "ev_start_event (lm_events l ! k) = None" "ev_trigger_event (lm_events l ! k) = None" "ev_fire_event (lm_events l ! k) = None"
    and "lmapd_run_start True now d1 r1 = Inr (Some ((0, d2), r2))"
    and "event_loop H g happenings (d2, w1) r2 = Inr (Some ((False, d, w), r3))"
  defines "e \<equiv> lm_events l ! k"
  shows "\<exists>tv l'. (ended e now \<or> periodic_delay now e = Inr tv) \<and> ld_lmap d = Some l'
    \<and> periodic_slots e tv (fold (periodic_move e k) happenings (if ended e now then Off else Waiting, False)) (lm_events l' ! k)
    \<and> ((\<exists>t. (t, Start_Due k) \<in> set happenings) \<and> (\<forall>t\<in>fst ` set happenings. \<not> ended e t) \<longrightarrow>
         ev_trigger_event (lm_events l' ! k)
           = Some \<lparr>tmr_callback = Trigger_Periodic_Cb, tmr_persist = True, tmr_delay = uint (ev_interval e)\<rparr>)"
proof -
  from run_start_events [OF assms(9,1)] assms(2) obtain l2 g1 g2 where l2: "ld_lmap d2 = Some l2"
    "k < length (lm_events l2)" "arm_event now l (ld_flags d1) e g1 = Inr (Some (lm_events l2 ! k, g2))"
    by (auto simp: e_def simp del: split_paired_Ex)
  from arm_periodic [OF l2(3)] assms(3-8) obtain tv where tv: "ended e now \<or> periodic_delay now e = Inr tv"
    and s: "periodic_slots e tv (if ended e now then Off else Waiting, False) (lm_events l2 ! k)"
    by (auto simp: e_def)
  let ?x = "fold (periodic_move e k) happenings (if ended e now then Off else Waiting, False)"
  from loop_periodic [OF assms(10) l2(1,2) _ s] assms(3) obtain l' where l': "ld_lmap d = Some l'"
    "periodic_slots e tv ?x (lm_events l' ! k)" by (auto simp: e_def)
  have "ev_trigger_event (lm_events l' ! k)
      = Some \<lparr>tmr_callback = Trigger_Periodic_Cb, tmr_persist = True, tmr_delay = uint (ev_interval e)\<rparr>"
    if "fst ?x = Repeating"
    using l'(2) that by (auto simp: periodic_slots_def in_phase_def)
  with tv l' periodic_move_on [of k happenings] show ?thesis by blast
qed

definition tick_event :: event where
  "tick_event = lmap_event_new\<lparr>ev_name := Some ''tick'', ev_type := Periodic, ev_start := 10, ev_interval := 300,
     ev_flags := LMAP_EVENT_FLAG_START_SET\<rparr>"

definition tick_daemon :: lmapd where
  "tick_daemon = lmapd_new\<lparr>ld_lmap := Some (lmap_new\<lparr>lm_events := [tick_event],
     lm_schedules := [lmap_schedule_new\<lparr>sched_name := Some ''s'', sched_start := Some ''tick''\<rparr>]\<rparr>)\<rparr>"

definition tick_happenings :: "(int \<times> happening) list" where
  "tick_happenings = [(1210, Start_Due 0), (1210, Fire_Due 0), (1300, Sig_Chld []), (1511, Trigger_Due 0)]"

lemma tick_run:
  "case lmapd_run_start True 1000 tick_daemon ((\<lambda>_. 0), 0) of
     Inr (Some ((ret, d2), r2)) \<Rightarrow> ret = 0 \<and>
       (case event_loop demo_host LMAP_IO_JSON tick_happenings (d2, run_os) r2 of
          Inr (Some ((b, d, w), r3)) \<Rightarrow> \<not> b \<and> (case ld_lmap d of None \<Rightarrow> False
            | Some l \<Rightarrow> ev_fire_event (lm_events l ! 0) \<noteq> None)
        | _ \<Rightarrow> False)
   | _ \<Rightarrow> False"
  by code_simp

theorem periodic_repeats_until_end_witness:
  "\<exists>d2 r2 d w r3 l'. lmapd_run_start True 1000 tick_daemon ((\<lambda>_. 0), 0) = Inr (Some ((0, d2), r2))
    \<and> event_loop demo_host LMAP_IO_JSON tick_happenings (d2, run_os) r2 = Inr (Some ((False, d, w), r3))
    \<and> ld_lmap d = Some l'
    \<and> ev_trigger_event (lm_events l' ! 0)
        = Some \<lparr>tmr_callback = Trigger_Periodic_Cb, tmr_persist = True, tmr_delay = 300\<rparr>"
proof -
  let ?l = "lmap_new\<lparr>lm_events := [tick_event],
     lm_schedules := [lmap_schedule_new\<lparr>sched_name := Some ''s'', sched_start := Some ''tick''\<rparr>]\<rparr>"
  obtain ret d2 r2 where r0: "lmapd_run_start True 1000 tick_daemon ((\<lambda>_. 0), 0) = Inr (Some ((ret, d2), r2))"
    using tick_run by (cases "lmapd_run_start True 1000 tick_daemon ((\<lambda>_. 0), 0)") (auto split: option.splits)
  moreover have "ret = 0" using tick_run [unfolded r0] by simp
  ultimately have r: "lmapd_run_start True 1000 tick_daemon ((\<lambda>_. 0), 0) = Inr (Some ((0, d2), r2))" by simp
  from tick_run [unfolded r] obtain d w r3 where
    e: "event_loop demo_host LMAP_IO_JSON tick_happenings (d2, run_os) r2 = Inr (Some ((False, d, w), r3))"
    by (cases "event_loop demo_host LMAP_IO_JSON tick_happenings (d2, run_os) r2") (auto split: option.splits prod.splits)
  have l: "ld_lmap tick_daemon = Some ?l" by (simp add: tick_daemon_def)
  have h: "0 < length (lm_events ?l)" "ev_type (lm_events ?l ! 0) = Periodic" "ev_name (lm_events ?l ! 0) = Some ''tick''"
    "event_used ?l ''tick''" "ev_start_event (lm_events ?l ! 0) = None" "ev_trigger_event (lm_events ?l ! 0) = None"
    "ev_fire_event (lm_events ?l ! 0) = None"
    by code_simp+
  have "\<not> ended tick_event t" for t by (simp add: ended_def tick_event_def flag_simps LMAP_EVENT_FLAG_START_SET_def
        LMAP_EVENT_FLAG_END_SET_def flag_on_def)
  then have "\<forall>t\<in>fst ` set tick_happenings. \<not> ended (lm_events ?l ! 0) t" by simp
  moreover have "(1210, Start_Due 0) \<in> set tick_happenings" by (simp add: tick_happenings_def)
  moreover have "uint (ev_interval (lm_events ?l ! 0)) = 300" by (simp add: tick_event_def)
  ultimately show ?thesis using periodic_repeats_until_end [OF l h r e] r e by auto
qed

section \<open>Startup events\<close>

lemma omap_all2:
  assumes "\<And>x w y w'. f x w = Inr (y, w') \<Longrightarrow> P x y"
  shows "omap f xs w = Inr (ys, w') \<Longrightarrow> list_all2 P xs ys"
proof (induction xs arbitrary: w ys)
  case (Cons x xs)
  then obtain y w1 zs where "f x w = Inr (y, w1)" "omap f xs w1 = Inr (zs, w')" "ys = y # zs"
    by (auto simp: obind_Inr)
  with Cons.IH assms show ?case by auto
qed simp

text \<open>What no suppression changes: the name of a schedule and whether it is disabled.\<close>

definition same_enabled :: "schedule \<Rightarrow> schedule \<Rightarrow> bool" where
  "same_enabled s s' \<longleftrightarrow>
     sched_name s' = sched_name s \<and> (sched_state s' = Disabled \<longleftrightarrow> sched_state s = Disabled)"

lemma same_enabled_refl: "same_enabled s s"
  by (simp add: same_enabled_def)

lemma all2_same_trans:
  "list_all2 same_enabled xs ys \<Longrightarrow> list_all2 same_enabled ys zs \<Longrightarrow> list_all2 same_enabled xs zs"
  by (rule list_all2_trans) (auto simp: same_enabled_def)

lemma suppress_schedule_enabled:
  assumes "suppress_schedule en p s w = Inr (s', w')"
  shows "same_enabled s s'"
proof (cases "sched_state s = Disabled")
  case False
  from suppress_schedule_Inr [OF assms False] obtain b as where
    "s' = (if b then schedule_suppress p s else s)\<lparr>sched_actions := as\<rparr>" by blast
  with sup_sched.start_disabled [OF False] False show ?thesis
    by (cases b) (simp_all add: same_enabled_def, simp add: schedule_suppress_def)
qed (use assms in \<open>simp add: suppress_schedule_def same_enabled_def\<close>)

lemma unsuppress_schedule_enabled:
  assumes "unsuppress_schedule en p s w = Inr (s', w')"
  shows "same_enabled s s'"
proof (cases "sched_state s = Disabled")
  case False
  from unsuppress_schedule_Inr [OF assms False] obtain b as where
    "s' = (if b then schedule_unsuppress s else s)\<lparr>sched_actions := as\<rparr>" by blast
  with sup_sched.stop_disabled [of s] False show ?thesis
    by (cases b) (simp_all add: same_enabled_def, simp add: schedule_unsuppress_def Let_def)
qed (use assms in \<open>simp add: unsuppress_schedule_def same_enabled_def\<close>)

lemma suppress_one_enabled:
  assumes "suppress_one en e p x = Inr (p', y)"
  shows "list_all2 same_enabled (fst x) (fst y)"
proof (cases "supp_state p = Supp_Disabled \<or> supp_name p = None")
  case True
  with assms show ?thesis
    by (auto simp: suppress_one_def same_enabled_refl list_all2_refl split: if_splits prod.splits)
next
  case False
  from suppress_one_Inr [OF assms False] obtain b b2 p1 z where
    1: "(if b \<and> supp_state p = Supp_Enabled then suppression_start en p (fst x) (snd x) else Inr (p, x)) = Inr (p1, z)"
    and 2: "(if b2 \<and> supp_state p1 = Supp_Active then suppression_end en p1 (fst z) (snd z) else Inr (p1, z))
        = Inr (p', y)"
    by blast
  have "list_all2 same_enabled (fst x) (fst z)"
    using 1 omap_all2 [of "suppress_schedule en p" same_enabled "fst x" "snd x", OF suppress_schedule_enabled]
    by (auto simp: suppression_start_def obind_Inr same_enabled_refl list_all2_refl split: if_splits)
  moreover have "list_all2 same_enabled (fst z) (fst y)"
    using 2 omap_all2 [of "unsuppress_schedule en p1" same_enabled "fst z" "snd z", OF unsuppress_schedule_enabled]
    by (auto simp: suppression_end_def obind_Inr same_enabled_refl list_all2_refl split: if_splits)
  ultimately show ?thesis by (rule all2_same_trans)
qed

text \<open>A named schedule that was not disabled and is disabled now has been started by an event that happens once.\<close>

definition used_up :: "schedule \<Rightarrow> schedule \<Rightarrow> bool" where
  "used_up s s' \<longleftrightarrow> sched_name s \<noteq> None \<and> sched_state s \<noteq> Disabled \<and> sched_state s' = Disabled"

lemma execute_schedule_done:
  assumes "execute_schedule en l e s (b, w) = Inr (s', b', w')" "ev_type e = Startup"
  shows "b' \<longleftrightarrow> b \<or> used_up s s'"
proof -
  from execute_schedule_Inr [OF assms(1), unfolded fst_conv snd_conv prod.inject] obtain d w1 where
    1: "(if sched_state s = Disabled then Inr (False, s, w)
      else if sched_name s = None then Inr (False, s\<lparr>sched_state := Disabled\<rparr>, w)
      else obind (on_event (sched_start s) e)
             (\<lambda>b. Inr (if b then start_schedule en l e s w else (False, s, w)))) = Inr (d, s', w1)"
    and b': "b' \<longleftrightarrow> b \<or> d" by blast
  have "d \<longleftrightarrow> used_up s s'"
  proof (cases "sched_state s = Disabled \<or> sched_name s = None")
    case True
    with 1 show ?thesis by (auto simp: used_up_def split: if_splits)
  next
    case False
    with 1 obtain c where "(if c then start_schedule en l e s w else (False, s, w)) = (d, s', w1)"
      by (auto simp: obind_Inr)
    with False assms(2) show ?thesis
      by (auto simp: used_up_def start_schedule_def once_only_def Let_def split: if_splits prod.splits)
  qed
  with b' show ?thesis by simp
qed

lemma execute_all_done:
  "omap (execute_schedule en l e) ss (b, w) = Inr (ss', b', w') \<Longrightarrow> ev_type e = Startup \<Longrightarrow>
    length ss' = length ss \<and> (b' \<longleftrightarrow> b \<or> (\<exists>i<length ss. used_up (ss ! i) (ss' ! i)))"
proof (induction ss arbitrary: b w ss')
  case (Cons s ss)
  then obtain s1 b1 w1 ss1 where 1: "execute_schedule en l e s (b, w) = Inr (s1, b1, w1)"
    and 2: "omap (execute_schedule en l e) ss (b1, w1) = Inr (ss1, b', w')" "ss' = s1 # ss1"
    by (auto simp: obind_Inr)
  from Cons.IH [OF 2(1) Cons.prems(2)] execute_schedule_done [OF 1 Cons.prems(2)] 2(2) show ?case
    by (auto simp: less_Suc_eq_0_disj)
qed simp

lemma fire_startup_done:
  assumes "fire_cb en k d w = Inr (d', w')" "ld_lmap d = Some l" "ev_type (lm_events l ! k) = Startup"
    and "ld_lmap d' = Some l'" "i < length (lm_schedules l)" "used_up (lm_schedules l ! i) (lm_schedules l' ! i)"
  shows "flag_on (ld_flags d') LMAPD_FLAG_STARTUPDONE"
proof -
  from fire_cb_Inr [OF assms(1,2)] obtain ps ss w1 ss' b where
    1: "omap (suppress_one en (lm_events l ! k)) (lm_supps l) (lm_schedules l, w) = Inr (ps, ss, w1)"
    and 2: "omap (execute_schedule en (l\<lparr>lm_supps := ps, lm_schedules := ss\<rparr>) (lm_events l ! k)) ss (False, w1) = Inr (ss', b, w')"
    and d': "ld_lmap d' = Some (l\<lparr>lm_supps := ps, lm_schedules := ss',
        lm_events := (lm_events l)[k := (lm_events l ! k)\<lparr>ev_fire_event := None\<rparr>]\<rparr>)"
      "ld_flags d' = (if b then flag_set (ld_flags d) LMAPD_FLAG_STARTUPDONE else ld_flags d)"
    by blast
  have "list_all2 same_enabled (lm_schedules l) (fst (ss, w1))"
    by (rule omap_invariant [of "\<lambda>x. list_all2 same_enabled (lm_schedules l) (fst x)", OF _ _ 1])
      (auto intro: all2_same_trans suppress_one_enabled list_all2_refl same_enabled_refl)
  then have "i < length ss" "same_enabled (lm_schedules l ! i) (ss ! i)"
    using assms(5) by (auto simp: list_all2_conv_all_nth)
  with assms(4,6) d'(1) have "used_up (ss ! i) (ss' ! i)" by (auto simp: used_up_def same_enabled_def)
  with execute_all_done [OF 2 assms(3)] \<open>i < length ss\<close> have b by blast
  with d'(2) show ?thesis by (simp add: flag_on_set_same LMAPD_FLAG_STARTUPDONE_def)
qed

text \<open>
  A round that a hangup ends, from where the configuration is read to where the next round begins, as the
  main loop does it.
\<close>

inductive hangup_round :: "host \<Rightarrow> lmap_io_engine \<Rightarrow> lmapd \<times> os \<Rightarrow> lmapd \<times> os \<Rightarrow> bool" for H g where
  Hangup: "begin_round (at_time t H) g x = Inr (True, d1, w1) \<Longrightarrow>
   lmapd_run_start True t d1 r1 = Inr (Some ((0, d2), r2)) \<Longrightarrow>
   event_loop H g before (d2, w1) r2 = Inr (Some ((False, d, w), r3)) \<Longrightarrow>
   lmapd_sighup_cb (at_time t' H) d w = (d', w') \<Longrightarrow>
   hangup_round H g x (d'\<lparr>ld_lmap := None\<rparr>, w')"

inductive_cases hangup_roundE: "hangup_round H g x y"

lemma event_loop_flags:
  "event_loop H g hs (d, w) r = Inr (Some ((b, d', w'), r')) \<Longrightarrow> ld_lmap d = Some l \<Longrightarrow>
    (\<exists>l'. ld_lmap d' = Some l') \<and> keeps_flags (ld_flags d) (ld_flags d')"
proof (induction hs arbitrary: d w r l)
  case (Cons th hs)
  obtain t h where th: "th = (t, h)" by fastforce
  from event_loop_Cons [OF Cons.prems(1) [unfolded th] Cons.prems(2)] obtain d1 w1 r1 l1 where
    1: "ld_lmap d1 = Some l1" "keeps_flags (ld_flags d) (ld_flags d1)"
      "if breaks_loop h then b \<and> (d', w') = (d1, w1) else event_loop H g hs (d1, w1) r1 = Inr (Some ((b, d', w'), r'))"
    by blast
  then show ?case using Cons.IH [OF _ 1(1)] keeps_flags_trans [OF 1(2)] by (cases "breaks_loop h") auto
qed auto

lemma begin_round_good:
  assumes "read_config H g (os_fs w) d = Inr (0, d1)" "ld_lmap d1 = Some l" "lmap_valid l"
  shows "\<exists>d2 w2 l2. begin_round H g (d, w) = Inr (True, d2, w2) \<and> ld_lmap d2 = Some l2 \<and> lm_events l2 = lm_events l
    \<and> ld_flags d2 = ld_flags d1"
proof -
  obtain x d2 where i: "lmapd_workspace_init (en_refuse (ho_env H)) d1 (os_fs w) = (x, d2)" by fastforce
  from workspace_init_events [OF i assms(2)] show ?thesis using assms i by (cases x) (simp add: begin_round_def)
qed

lemma begin_round_flags:
  assumes "begin_round H g (d, w) = Inr (True, d2, w2)"
  shows "ld_flags d2 = ld_flags d \<and> (\<exists>l. ld_lmap d2 = Some l)"
proof -
  from assms obtain r d1 l where c: "read_config H g (os_fs w) d = Inr (r, d1)" "ld_lmap d1 = Some l" "r = 0" "lmap_valid l"
    by (auto simp: begin_round_def obind_Inr split: option.splits if_splits prod.splits)
  from begin_round_good [OF c(1) [unfolded c(3)] c(2,4)] assms read_config_cases [OF c(1)] show ?thesis by auto
qed

lemma sighup_flags: "lmapd_sighup_cb H d w = (d', w') \<Longrightarrow> ld_flags d' = after_hangup (ld_flags d)"
  using restart_flags(1) [of "ho_env H" d w] by (simp add: lmapd_sighup_cb_def)

lemma hangup_round_flags: "hangup_round H g x y \<Longrightarrow> keeps_flags (ld_flags (fst x)) (ld_flags (fst y))"
proof (erule hangup_roundE)
  fix t d1 w1 r1 d2 r2 before d w r3 t' d' w'
  assume b: "begin_round (at_time t H) g x = Inr (True, d1, w1)" "lmapd_run_start True t d1 r1 = Inr (Some ((0, d2), r2))"
    and l: "event_loop H g before (d2, w1) r2 = Inr (Some ((False, d, w), r3))"
    and h: "lmapd_sighup_cb (at_time t' H) d w = (d', w')" and y: "y = (d'\<lparr>ld_lmap := None\<rparr>, w')"
  from begin_round_flags [of "at_time t H" g "fst x" "snd x"] b(1) obtain l1 where
    1: "ld_flags d1 = ld_flags (fst x)" "ld_lmap d1 = Some l1" by auto
  from run_start_events [OF b(2) 1(2)] obtain l2 where 2: "ld_flags d2 = ld_flags d1" "ld_lmap d2 = Some l2" by blast
  have "keeps_flags (ld_flags d2) (ld_flags d)" using event_loop_flags [OF l 2(2)] by blast
  then show ?thesis using keeps_flags_trans [OF _ keeps_flags_hangup] by (simp add: y sighup_flags [OF h] 1(1) 2(1))
qed

lemma hangup_rounds_flags: "(hangup_round H g)\<^sup>*\<^sup>* x y \<Longrightarrow> keeps_flags (ld_flags (fst x)) (ld_flags (fst y))"
  by (induction rule: rtranclp_induct) (auto intro: keeps_flags_trans hangup_round_flags)

lemma after_hangup_skips: "flag_on f LMAPD_FLAG_STARTUPDONE \<Longrightarrow> flag_on (after_hangup f) LMAPD_FLAG_SKIPSTARTUP"
  by (simp add: after_hangup_def Let_def flag_on_set_mono flag_on_set_same) (simp add: LMAPD_FLAG_SKIPSTARTUP_def flag_simps)

text \<open>
  C35. Startup events are over once they have run. When a startup event fires and starts a schedule (which disables it, as
  it is to happen once), then, whatever comes in the rest of the round, a hangup ends it and however many rounds follow, no round
  arms a startup event any more: each one that the new configurations have stays as it was read, without a timer added.
\<close>

theorem startup_events_run_once:
  assumes "ld_lmap d = Some l" "k < length (lm_events l)" "ev_type (lm_events l ! k) = Startup"
    and "handle (at_time t H) g (Fire_Due k) (d, w) r = Inr (Some ((d1, w1), r1))"
    and "ld_lmap d1 = Some l1" "i < length (lm_schedules l)" "sched_name (lm_schedules l ! i) \<noteq> None"
    and "sched_state (lm_schedules l ! i) \<noteq> Disabled" "sched_state (lm_schedules l1 ! i) = Disabled"
    and "event_loop H g happenings (d1, w1) r1 = Inr (Some ((False, d2, w2), r2))"
    and "lmapd_sighup_cb (at_time t' H) d2 w2 = (d2', w2')"
    and "(hangup_round H g)\<^sup>*\<^sup>* (d2'\<lparr>ld_lmap := None\<rparr>, w2') (d3, w3)"
    and "begin_round (at_time t3 H) g (d3, w3) = Inr (True, d4, w4)" "ld_lmap d4 = Some l4"
    and "lmapd_run_start True t3 d4 r4 = Inr (Some ((0, d5), r5))"
  shows "\<exists>l5. ld_lmap d5 = Some l5 \<and> length (lm_events l5) = length (lm_events l4)
    \<and> (\<forall>j<length (lm_events l4). ev_type (lm_events l4 ! j) = Startup \<longrightarrow> lm_events l5 ! j = lm_events l4 ! j)"
proof -
  have f: "fire_cb (ho_env (at_time t H)) k d w = Inr (d1, w1)"
    using assms(1,2,4) by (auto simp: handle_def undrawn_def obind_Inr)
  have "flag_on (ld_flags d1) LMAPD_FLAG_STARTUPDONE"
    by (rule fire_startup_done [OF f assms(1,3,5,6)]) (simp add: used_up_def assms(7-9))
  then have "flag_on (ld_flags d2) LMAPD_FLAG_STARTUPDONE"
    using event_loop_flags [OF assms(10,5)] by (simp add: keeps_flags_def)
  from after_hangup_skips [OF this] have "flag_on (ld_flags d3) LMAPD_FLAG_SKIPSTARTUP"
    using hangup_rounds_flags [OF assms(12)] sighup_flags [OF assms(11)] by (simp add: keeps_flags_def)
  then have skip: "flag_on (ld_flags d4) LMAPD_FLAG_SKIPSTARTUP"
    using begin_round_flags [OF assms(13)] by simp
  from run_start_events [OF assms(15,14)] obtain l5 where l5: "ld_lmap d5 = Some l5" "length (lm_events l5) = length (lm_events l4)"
    and arm: "\<And>j. j < length (lm_events l4) \<Longrightarrow>
      \<exists>g g'. arm_event t3 l4 (ld_flags d4) (lm_events l4 ! j) g = Inr (Some (lm_events l5 ! j, g'))"
    by (auto simp del: split_paired_Ex)
  have "lm_events l5 ! j = lm_events l4 ! j" if "j < length (lm_events l4)" "ev_type (lm_events l4 ! j) = Startup" for j
    using arm [OF that(1)] that(2) skip by (auto simp: arm_event_def split: option.splits if_splits)
  with l5 show ?thesis by blast
qed

text \<open>
  A configuration with a startup event and a schedule that it starts, and the document with it: after the hangup the daemon reads
  the same configuration again.
\<close>

definition boot_lmap :: lmap where
  "boot_lmap = lmap_new\<lparr>
     lm_schedules := [lmap_schedule_new\<lparr>sched_name := Some ''s'', sched_start := Some ''boot'', sched_mode := Sequential\<rparr>],
     lm_events := [lmap_event_new\<lparr>ev_name := Some ''boot'', ev_type := Startup\<rparr>]\<rparr>"

definition boot_xml :: xml where
  "boot_xml = (case xml_control_tree utc_xml0 boot_lmap PARSE_CONFIG_TRUE of Inl e \<Rightarrow> Elem None [] [] [] | Inr t \<Rightarrow> t)"

definition boot_host :: host where
  "boot_host = demo_host\<lparr>ho_io := (ho_io demo_host)\<lparr>io_xmlc := utc_xmlc boot_xml\<rparr>\<rparr>"

definition boot_os :: os where
  "boot_os =
     \<lparr>os_fs = \<lparr>fs_dirs = [''/c'' \<mapsto> [(''a.xml'', Regular 0)], ''/cap'' \<mapsto> [], ''/q'' \<mapsto> []],
        fs_data = (\<lambda>i. if i = 0 then ''<?xml'' else []), fs_next = 1\<rparr>,
      os_forks = [], os_signals = [], os_started = []\<rparr>"

definition boot_daemon :: lmapd where
  "boot_daemon = lmapd_new\<lparr>ld_config_paths := [''/c''], ld_capability_path := Some ''/cap'', ld_queue_path := Some ''/q'',
     ld_lmap := Some boot_lmap\<rparr>"

text \<open>The daemon at the start of the round after a hangup.\<close>

definition hung_up :: "lmapd \<Rightarrow> os \<Rightarrow> lmapd \<times> os" where
  "hung_up d w = (case lmapd_sighup_cb (at_time 8 boot_host) d w of (d', w') \<Rightarrow> (d'\<lparr>ld_lmap := None\<rparr>, w'))"

lemma boot_run:
  "case handle (at_time 7 boot_host) LMAP_IO_XML (Fire_Due 0) (boot_daemon, boot_os) ((\<lambda>_. 0), 0) of
     Inr (Some ((d1, w1), r1)) \<Rightarrow>
       (case ld_lmap d1 of None \<Rightarrow> False
        | Some l1 \<Rightarrow> sched_state (lm_schedules l1 ! 0) = Disabled
          \<and> (case read_config (at_time 9 boot_host) LMAP_IO_XML (os_fs (snd (hung_up d1 w1))) (fst (hung_up d1 w1)) of
              Inr (r, d) \<Rightarrow> r = 0 \<and> flag_on (ld_flags d) LMAPD_FLAG_SKIPSTARTUP \<and>
                (case ld_lmap d of None \<Rightarrow> False
                 | Some l \<Rightarrow> lmap_valid l \<and> map ev_type (lm_events l) = [Startup])
            | _ \<Rightarrow> False))
   | _ \<Rightarrow> False"
  by code_simp

theorem startup_events_run_once_witness:
  "\<exists>d1 w1 r1 d4 w4 l4 d5 l5. handle (at_time 7 boot_host) LMAP_IO_XML (Fire_Due 0) (boot_daemon, boot_os) ((\<lambda>_. 0), 0)
      = Inr (Some ((d1, w1), r1))
    \<and> begin_round (at_time 9 boot_host) LMAP_IO_XML (hung_up d1 w1)
      = Inr (True, d4, w4)
    \<and> ld_lmap d4 = Some l4 \<and> map ev_type (lm_events l4) = [Startup]
    \<and> lmapd_run_start True 9 d4 r1 = Inr (Some ((0, d5), r1)) \<and> ld_lmap d5 = Some l5
    \<and> lm_events l5 ! 0 = lm_events l4 ! 0"
proof -
  from boot_run obtain d1 w1 r1 where
    h: "handle (at_time 7 boot_host) LMAP_IO_XML (Fire_Due 0) (boot_daemon, boot_os) ((\<lambda>_. 0), 0) = Inr (Some ((d1, w1), r1))"
    by (auto split: sum.splits option.splits prod.splits)
  from boot_run [unfolded h] obtain l1 where l1: "ld_lmap d1 = Some l1" "sched_state (lm_schedules l1 ! 0) = Disabled"
    by (cases "ld_lmap d1") auto
  from boot_run [unfolded h] l1 obtain d l where
    c: "read_config (at_time 9 boot_host) LMAP_IO_XML (os_fs (snd (hung_up d1 w1))) (fst (hung_up d1 w1)) = Inr (0, d)"
      "ld_lmap d = Some l" "lmap_valid l" and t: "map ev_type (lm_events l) = [Startup]"
      "flag_on (ld_flags d) LMAPD_FLAG_SKIPSTARTUP"
    by (cases "read_config (at_time 9 boot_host) LMAP_IO_XML (os_fs (snd (hung_up d1 w1))) (fst (hung_up d1 w1))")
      (auto split: prod.splits option.splits)
  from begin_round_good [OF c] prod.collapse [of "hung_up d1 w1"] obtain d4 w4 l4 where
    b: "begin_round (at_time 9 boot_host) LMAP_IO_XML (hung_up d1 w1) = Inr (True, d4, w4)" "ld_lmap d4 = Some l4"
      "lm_events l4 = lm_events l" "ld_flags d4 = ld_flags d" by auto
  from t(1) obtain e where e: "lm_events l = [e]" "ev_type e = Startup" by (cases "lm_events l") auto
  have "arm_event 9 l4 (ld_flags d4) e r1 = Inr (Some (e, r1))"
    using e(2) t(2) b(4) by (simp add: arm_event_def split: option.split)
  then obtain d5 where s: "lmapd_run_start True 9 d4 r1 = Inr (Some ((0, d5), r1))"
    using b(2,3) e(1) by (cases r1) (simp add: lmapd_run_start_def)
  have boot: "ld_lmap boot_daemon = Some boot_lmap" "0 < length (lm_events boot_lmap)" "0 < length (lm_schedules boot_lmap)"
    "ev_type (lm_events boot_lmap ! 0) = Startup"
    "sched_name (lm_schedules boot_lmap ! 0) \<noteq> None" "sched_state (lm_schedules boot_lmap ! 0) \<noteq> Disabled"
    by (simp_all add: boot_daemon_def boot_lmap_def lmap_new_def lmap_schedule_new_def)
  obtain d2 w2 where u: "lmapd_sighup_cb (at_time 8 boot_host) d1 w1 = (d2, w2)" by fastforce
  then have u': "hung_up d1 w1 = (d2\<lparr>ld_lmap := None\<rparr>, w2)" by (simp add: hung_up_def)
  have "\<exists>l5. ld_lmap d5 = Some l5 \<and> length (lm_events l5) = length (lm_events l4)
    \<and> (\<forall>j<length (lm_events l4). ev_type (lm_events l4 ! j) = Startup \<longrightarrow> lm_events l5 ! j = lm_events l4 ! j)"
    by (rule startup_events_run_once [OF boot(1,2,4) h l1(1) boot(3,5,6) l1(2), where happenings = "[]" and t' = 8])
      (use b s u u' in auto)
  then show ?thesis using h b s t e by auto
qed

end
