(* ===== verification/Lmapctl.thy ===== *)
theory Lmapctl
  imports Daemon
begin

text \<open>
  The command line tool (\<^verbatim>\<open>src/lmapctl.c\<close>). Its surroundings are the record \<open>ctl_env\<close>; the record \<open>ctl\<close> has its static variables and its effects:
  what it prints to the standard output, the signals it sends and the file system. Messages to the standard error and the text of
  \<open>usage\<close> are not modelled; the standard descriptors are open.
\<close>

datatype signum = SIGHUP | SIGTERM | SIGUSR1 | SIGUSR2

text \<open>
  \<open>ce_strftime\<close> is \<open>strftime\<close> with a format on the local time of an instant, \<open>None\<close> when \<open>localtime\<close> has none; \<open>ce_nap\<close> is what
  the daemon makes of the file system while the tool sleeps.
\<close>

record ctl_env =
  ce_assert :: bool
  ce_io :: io
  ce_refuse :: refusals
  ce_alive :: "int \<Rightarrow> bool"
  ce_kill_fails :: "int \<Rightarrow> bool"
  ce_now :: int
  ce_strftime :: "string \<Rightarrow> int \<Rightarrow> string option"
  ce_nap :: "fs \<Rightarrow> fs"
  ce_tty :: bool
  ce_usage :: string
  ce_config_dir :: string
  ce_queue_dir :: string
  ce_run_dir :: string

record ctl =
  ct_lmapd :: lmapd
  ct_engine :: lmap_io_engine
  ct_input_ft :: filetype
  ct_wide :: int
  ct_cwd :: string
  ct_fs :: fs
  ct_out :: string
  ct_signals :: "(int \<times> signum) list"

definition print :: "string \<Rightarrow> ctl \<Rightarrow> ctl" where
  "print s c = c\<lparr>ct_out := ct_out c @ s\<rparr>"

definition newline :: string where
  "newline = [CHR 0x0A]"

section \<open>Texts of fixed width\<close>

text \<open>The conversions of \<open>printf\<close>: a minimal width to the left or to the right, and a precision that cuts.\<close>

definition pad_right :: "nat \<Rightarrow> string \<Rightarrow> string" where
  "pad_right n s = s @ replicate (n - length s) CHR '' ''"

definition pad_left :: "nat \<Rightarrow> string \<Rightarrow> string" where
  "pad_left n s = replicate (n - length s) CHR '' '' @ s"

definition cut_right :: "nat \<Rightarrow> string \<Rightarrow> string" where
  "cut_right n s = pad_right n (take n s)"

definition cut_left :: "nat \<Rightarrow> string \<Rightarrow> string" where
  "cut_left n s = pad_left n (take n s)"

section \<open>Values\<close>

definition render_datetime_short :: "ctl_env \<Rightarrow> int \<Rightarrow> string outcome" where
  "render_datetime_short E t =
     (if t = 0 then Inr []
      else case ce_strftime E (if ce_now E - t < 24 * 60 * 60 then ''%H:%M:%S'' else ''%Y-%m-%d'') t of
        None \<Rightarrow> Inl Null_Deref
      | Some s \<Rightarrow> Inr s)"

definition render_storage :: "64 word \<Rightarrow> string" where
  "render_storage storage =
     (if 9999 < storage div 1024 div 1024
      then dec (unat ((storage div 1024 div 1024 + 512) div 1014)) @ ''G''
      else if 9999 < storage div 1024 then dec (unat ((storage div 1024 + 512) div 1024)) @ ''M''
      else if 9999 < storage then dec (unat ((storage + 512) div 1024)) @ ''K''
      else dec (unat storage))"

definition render_datetime_long :: "ctl_env \<Rightarrow> int \<Rightarrow> string outcome" where
  "render_datetime_long E t =
     (if t = 0 then Inr []
      else case ce_strftime E ''%Y-%m-%dT%H:%M:%S%z'' t of
        None \<Rightarrow> Inl Null_Deref
      | Some s \<Rightarrow> Inr (insert_colon s))"

text \<open>The share of one count in a total, in the unsigned arithmetic of 32 bits.\<close>

definition percent :: "32 word \<Rightarrow> 32 word \<Rightarrow> 32 word" where
  "percent n attempts = (if attempts \<noteq> 0 then n * 100 div attempts else 0)"

section \<open>Reading configuration and state\<close>

definition ctl_read_config :: "ctl_env \<Rightarrow> ctl \<Rightarrow> (int \<times> ctl) outcome" where
  "ctl_read_config E c =
     obind
       (read_config_paths (lmap_io_parse_config_path (ce_io E) (ct_engine c) (ce_refuse E) (ct_fs c)) lmap_new
          (ld_config_paths (ct_lmapd c)))
       (\<lambda>(r, l).
          if r \<noteq> 0 then Inr (-1, c\<lparr>ct_lmapd := (ct_lmapd c)\<lparr>ld_lmap := None\<rparr>\<rparr>)
          else Inr (0, c\<lparr>ct_lmapd := (ct_lmapd c)\<lparr>ld_lmap := Some l\<rparr>\<rparr>))"

definition ctl_read_state :: "ctl_env \<Rightarrow> ctl \<Rightarrow> (int \<times> ctl) outcome" where
  "ctl_read_state E c =
     obind
       (lmap_io_parse_state_file (ce_io E) (ct_engine c) (ce_refuse E) (ct_fs c) lmap_new
          (status_file (ct_engine c) (print_path (ld_run_path (ct_lmapd c)))))
       (\<lambda>(r, l).
          if r \<noteq> 0 then Inr (-1, c\<lparr>ct_lmapd := (ct_lmapd c)\<lparr>ld_lmap := None\<rparr>\<rparr>)
          else Inr (0, c\<lparr>ct_lmapd := (ct_lmapd c)\<lparr>ld_lmap := Some l\<rparr>\<rparr>))"

section \<open>Commands that send a signal\<close>

text \<open>Every command takes the number of its arguments, itself included, and its name.\<close>

type_synonym command = "ctl_env \<Rightarrow> nat \<Rightarrow> string \<Rightarrow> ctl \<Rightarrow> (int \<times> ctl) outcome"

definition wrong_args :: "string \<Rightarrow> ctl \<Rightarrow> (int \<times> ctl) outcome" where
  "wrong_args name c =
     Inr (1, print (''lmapctl: wrong # of args: should be '' @ [CHR 0x27] @ name @ [CHR 0x27] @ newline) c)"

definition ctl_pid :: "ctl_env \<Rightarrow> ctl \<Rightarrow> int outcome" where
  "ctl_pid E c = lmapd_pid_read (ce_assert E) (ce_refuse E) (ce_alive E) (ct_lmapd c) (ct_fs c)"

definition send_signal :: "ctl_env \<Rightarrow> signum \<Rightarrow> ctl \<Rightarrow> (int \<times> ctl) outcome" where
  "send_signal E s c =
     obind (ctl_pid E c)
       (\<lambda>pid. if pid = 0 \<or> ce_kill_fails E pid then Inr (1, c)
              else Inr (0, c\<lparr>ct_signals := ct_signals c @ [(pid, s)]\<rparr>))"

definition clean_cmd :: command where
  "clean_cmd E argc name c = (if argc \<noteq> 1 then wrong_args name c else send_signal E SIGUSR2 c)"

definition reload_cmd :: command where
  "reload_cmd E argc name c = (if argc \<noteq> 1 then wrong_args name c else send_signal E SIGHUP c)"

definition shutdown_cmd :: command where
  "shutdown_cmd E argc name c = (if argc \<noteq> 1 then wrong_args name c else send_signal E SIGTERM c)"

definition running_cmd :: command where
  "running_cmd E argc name c =
     (if argc \<noteq> 1 then wrong_args name c
      else obind (ctl_pid E c) (\<lambda>pid. Inr (if pid = 0 then 1 else 0, c)))"

section \<open>Commands on the configuration\<close>

text \<open>What \<open>config\<close>, \<open>report\<close> and \<open>validate\<close> begin with: the configuration, read and found valid, or not.\<close>

definition valid_config :: "ctl_env \<Rightarrow> ctl \<Rightarrow> (lmap option \<times> ctl) outcome" where
  "valid_config E c =
     obind (ctl_read_config E c)
       (\<lambda>(r, c1). case ld_lmap (ct_lmapd c1) of
          None \<Rightarrow> Inr (None, c1)
        | Some l \<Rightarrow> Inr (if r \<noteq> 0 \<or> \<not> lmap_valid l then None else Some l, c1))"

definition validate_cmd :: command where
  "validate_cmd E argc name c =
     (if argc \<noteq> 1 then wrong_args name c
      else obind (valid_config E c) (\<lambda>(v, c1). Inr (if v = None then 1 else 0, c1)))"

definition config_cmd :: command where
  "config_cmd E argc name c =
     (if argc \<noteq> 1 then wrong_args name c
      else obind (valid_config E c)
        (\<lambda>(v, c1). case v of
           None \<Rightarrow> Inr (1, c1)
         | Some l \<Rightarrow>
             obind (lmap_io_render_config (ce_io E) (ct_engine c1) l)
               (\<lambda>doc. case doc of None \<Rightarrow> Inr (1, c1) | Some s \<Rightarrow> Inr (0, print s c1))))"

definition stamp_report :: "int \<Rightarrow> lmap \<Rightarrow> lmap" where
  "stamp_report now l =
     l\<lparr>lm_agent := map_option (\<lambda>a. if ag_report_date a = 0 then a\<lparr>ag_report_date := now\<rparr> else a) (lm_agent l)\<rparr>"

text \<open>When the results cannot be read, the command returns 0 and prints nothing.\<close>

definition report_cmd :: command where
  "report_cmd E argc name c =
     (if argc \<noteq> 1 then wrong_args name c
      else obind (valid_config E c)
        (\<lambda>(v, c1). case v of
           None \<Rightarrow> Inr (1, c1)
         | Some l \<Rightarrow>
             (case lmapd_workspace_init (ce_refuse E) ((ct_lmapd c1)\<lparr>ld_lmap := Some (stamp_report (ce_now E) l)\<rparr>) (ct_fs c1) of
                ((r, fs'), d) \<Rightarrow>
                  (case ld_lmap d of
                     None \<Rightarrow> Inr (1, c1)
                   | Some l1 \<Rightarrow>
                       obind (lmapd_workspace_read_results (lmap_io_parse_task_results_fd (ce_io E)) (ct_input_ft c1)
                                (ce_refuse E) fs' (ct_cwd c1) l1)
                         (\<lambda>(r', l2).
                            let c2 = c1\<lparr>ct_lmapd := d\<lparr>ld_lmap := Some l2\<rparr>, ct_fs := fs'\<rparr>
                            in if r' \<noteq> 0 then Inr (0, c2)
                               else obind (lmap_io_render_report (ce_io E) (ct_engine c2) l2)
                                 (\<lambda>doc. case doc of None \<Rightarrow> Inr (1, c2) | Some s \<Rightarrow> Inr (0, print s c2)))))))"

definition version_cmd :: command where
  "version_cmd E argc name c =
     (if argc \<noteq> 1 then wrong_args name c else Inr (0, print (''lmapctl version 0.15.6'' @ newline) c))"

section \<open>The status\<close>

definition state_letter :: "run_state \<Rightarrow> string" where
  "state_letter s = (case s of Enabled \<Rightarrow> ''E'' | Disabled \<Rightarrow> ''D'' | Running \<Rightarrow> ''R'' | Suppressed \<Rightarrow> ''S'')"

definition supp_letter :: "supp_state \<Rightarrow> string" where
  "supp_letter s = (case s of Supp_Enabled \<Rightarrow> ''E'' | Supp_Disabled \<Rightarrow> ''D'' | Supp_Active \<Rightarrow> ''A'')"

definition shown_name :: "string option \<Rightarrow> string" where
  "shown_name n = (case n of None \<Rightarrow> ''???'' | Some s \<Rightarrow> s)"

text \<open>
  The tags of the capabilities, broken into lines: \<open>ll\<close> is what is left of the line. Without a limit nothing is measured and a
  missing text is printed as \<open>(null)\<close>.
\<close>

fun tag_lines :: "int \<Rightarrow> int \<Rightarrow> int \<Rightarrow> bool \<Rightarrow> tag list \<Rightarrow> string outcome" where
  "tag_lines wide ll_max ll first [] = Inr []"
| "tag_lines wide ll_max ll first (t # ts) =
     (let sep = (if ts = [] then [] else '', '')
      in if 0 < wide then
           (case t of
              None \<Rightarrow> Inl Null_Deref
            | Some s \<Rightarrow>
                let tl = int (length s) + 2;
                    wrap = ll - tl \<le> 1 \<and> \<not> first
                in obind (tag_lines wide ll_max (if wrap then ll_max - tl else ll - tl) False ts)
                     (\<lambda>r. Inr ((if wrap then newline @ replicate 14 CHR '' '' else []) @ s @ sep @ r)))
         else obind (tag_lines wide ll_max ll False ts) (\<lambda>r. Inr (print_path t @ sep @ r)))"

definition agent_status :: "ctl_env \<Rightarrow> int \<Rightarrow> lmap \<Rightarrow> string outcome" where
  "agent_status E wide l =
     (case lm_agent l of
        None \<Rightarrow> Inr []
      | Some a \<Rightarrow>
          obind
            (case lm_capabilities l of
               None \<Rightarrow> Inr []
             | Some cap \<Rightarrow>
                 if cap_tags cap = [] then Inr []
                 else let ll = (if wide \<noteq> 0 then wide - 14 else 0)
                      in obind (tag_lines wide ll ll True (cap_tags cap)) (\<lambda>s. Inr (''tags:         '' @ s @ newline)))
            (\<lambda>tags. obind (render_datetime_long E (ag_last_started a))
               (\<lambda>started. Inr
                  (''agent-id:     '' @ print_path (ag_agent_id a) @ newline
                   @ ''version:      ''
                   @ (case lm_capabilities l of None \<Rightarrow> ''<?>'' | Some cap \<Rightarrow> print_path (cap_version cap)) @ newline
                   @ tags @ ''last-started: '' @ started @ newline @ newline))))"

text \<open>The width of the first column: the longest name, as far as the display is wide enough, and at least 15.\<close>

definition longest_name :: "schedule list \<Rightarrow> nat" where
  "longest_name ss =
     fold (\<lambda>s w.
         fold (\<lambda>a w. max (case act_name a of None \<Rightarrow> 0 | Some n \<Rightarrow> length n + 1) w) (sched_actions s)
           (max (case sched_name s of None \<Rightarrow> 0 | Some n \<Rightarrow> length n) w))
       ss 2"

definition name_width :: "int \<Rightarrow> schedule list \<Rightarrow> nat" where
  "name_width wide ss =
     (if 0 \<le> wide then
        (let nw_max = longest_name ss;
             nw0 = (if nw_max < INT_MAX - 10 then int nw_max else 15);
             nw = (if 0 < wide \<and> wide < nw0 + 65 then wide - 65 else nw0)
         in nat (max nw 15))
      else 15)"

definition number3 :: "int \<Rightarrow> string" where
  "number3 n = pad_left 3 (dec_int n) @ '' ''"

definition counter_columns :: "32 word \<Rightarrow> 32 word \<Rightarrow> 32 word \<Rightarrow> 32 word \<Rightarrow> string" where
  "counter_columns invocations suppressions overlaps failures =
     (let attempts = invocations + suppressions + overlaps
      in number3 (uint (percent invocations attempts)) @ number3 (uint (percent suppressions attempts))
         @ number3 (uint (percent overlaps attempts)) @ number3 (uint (percent failures invocations)))"

definition storage_column :: "64 word \<Rightarrow> string" where
  "storage_column storage = cut_left 5 (render_storage storage) @ '' ''"

definition schedule_row :: "ctl_env \<Rightarrow> nat \<Rightarrow> schedule \<Rightarrow> string outcome" where
  "schedule_row E w s =
     obind (if sched_last_invocation s \<noteq> 0
            then obind (render_datetime_short E (sched_last_invocation s)) (\<lambda>t. Inr (replicate 8 CHR '' '' @ t))
            else Inr [])
       (\<lambda>t. Inr
          (cut_right w (shown_name (sched_name s)) @ '' '' @ state_letter (sched_state s) @ '' ''
           @ counter_columns (sched_cnt_invocations s) (sched_cnt_suppressions s) (sched_cnt_overlaps s) (sched_cnt_failures s)
           @ storage_column (sched_storage s) @ t @ newline))"

definition action_row :: "ctl_env \<Rightarrow> nat \<Rightarrow> action \<Rightarrow> string outcome" where
  "action_row E w a =
     obind (render_datetime_short E (act_last_invocation a))
       (\<lambda>invoked. obind (render_datetime_short E (act_last_completion a))
          (\<lambda>completed. obind (render_datetime_short E (act_last_failed_completion a))
             (\<lambda>failed. Inr
                ('' '' @ cut_right (w - 1) (shown_name (act_name a)) @ '' '' @ state_letter (act_state a) @ '' ''
                 @ counter_columns (act_cnt_invocations a) (act_cnt_suppressions a) (act_cnt_overlaps a) (act_cnt_failures a)
                 @ storage_column (act_storage a) @ number3 (act_last_status a) @ number3 (act_last_failed_status a)
                 @ pad_right 10 invoked @ '' '' @ pad_right 10 completed @ '' '' @ failed @ newline))))"

fun all_rows :: "('a \<Rightarrow> string outcome) \<Rightarrow> 'a list \<Rightarrow> string outcome" where
  "all_rows f [] = Inr []"
| "all_rows f (x # xs) = obind (f x) (\<lambda>s. obind (all_rows f xs) (\<lambda>r. Inr (s @ r)))"

definition schedule_rows :: "ctl_env \<Rightarrow> nat \<Rightarrow> schedule \<Rightarrow> string outcome" where
  "schedule_rows E w s =
     obind (schedule_row E w s) (\<lambda>r. obind (all_rows (action_row E w) (sched_actions s)) (\<lambda>rs. Inr (r @ rs)))"

definition supp_row :: "supp \<Rightarrow> string" where
  "supp_row p = cut_right 15 (shown_name (supp_name p)) @ '' '' @ supp_letter (supp_state p) @ '' '' @ newline"

definition heading :: "nat \<Rightarrow> string" where
  "heading w =
     cut_right w ''SCHEDULE/ACTION'' @ '' S IN% SU% OV% ER%  STOR LST LFS '' @ pad_right 10 ''L-INVOKE'' @ '' ''
     @ pad_right 10 ''L-COMPLETE'' @ '' L-FAILURE'' @ newline"

definition status_text :: "ctl_env \<Rightarrow> int \<Rightarrow> lmap \<Rightarrow> string outcome" where
  "status_text E wide l =
     (let w = name_width wide (lm_schedules l)
      in obind (agent_status E wide l)
           (\<lambda>agent. obind (all_rows (schedule_rows E w) (lm_schedules l))
              (\<lambda>rows. Inr
                 (agent @ heading w @ rows @ newline @ cut_right 15 ''SUPPRESSION'' @ '' S'' @ newline
                  @ concat (map supp_row (lm_supps l))))))"

text \<open>While the tool naps the daemon may handle the signal.\<close>

definition status_cmd :: command where
  "status_cmd E argc name c =
     (if argc \<noteq> 1 then wrong_args name c
      else obind (send_signal E SIGUSR1 c)
        (\<lambda>(r, c1).
           if r \<noteq> 0 then Inr (1, c1)
           else obind (ctl_read_state E (c1\<lparr>ct_fs := ce_nap E (ct_fs c1)\<rparr>))
             (\<lambda>(r2, c2). case ld_lmap (ct_lmapd c2) of
                None \<Rightarrow> Inr (1, c2)
              | Some l \<Rightarrow> obind (status_text E (ct_wide c2) l) (\<lambda>s. Inr (0, print s c2)))))"

section \<open>The commands and the options\<close>

definition cmd_help :: "(string \<times> string) list" where
  "cmd_help =
     [(''clean'', ''clean the workspace (be careful!)''), (''config'', ''validate and render lmap configuration''),
      (''help'', ''show brief list of commands''), (''reload'', ''reload the lmap configuration''),
      (''report'', ''report data''), (''running'', ''test if the lmap daemon is running''),
      (''shutdown'', ''shutdown the lmap daemon''), (''status'', ''show status information''),
      (''validate'', ''validate lmap configuration''), (''version'', ''show version information'')]"

definition ctl_help :: string where
  "ctl_help = concat (map (\<lambda>(n, d). ''  '' @ pad_right 10 n @ ''  '' @ d @ newline) cmd_help)"

definition help_cmd :: command where
  "help_cmd E argc name c = (if argc \<noteq> 1 then wrong_args name c else Inr (0, print ctl_help c))"

definition cmds :: "(string \<times> command) list" where
  "cmds =
     [(''clean'', clean_cmd), (''config'', config_cmd), (''help'', help_cmd), (''reload'', reload_cmd),
      (''report'', report_cmd), (''running'', running_cmd), (''shutdown'', shutdown_cmd), (''status'', status_cmd),
      (''validate'', validate_cmd), (''version'', version_cmd)]"

text \<open>The first command with the name; \<open>None\<close> when there is none.\<close>

fun run_command :: "(string \<times> command) list \<Rightarrow> ctl_env \<Rightarrow> nat \<Rightarrow> string \<Rightarrow> ctl \<Rightarrow> (int option \<times> ctl) outcome" where
  "run_command [] E argc name c = Inr (None, c)"
| "run_command ((n, f) # tab) E argc name c =
     (if n = name then obind (f E argc name c) (\<lambda>(r, c'). Inr (Some r, c')) else run_command tab E argc name c)"

definition getint :: "string \<Rightarrow> int option" where
  "getint s =
     (case strtoimax s of (i, end) \<Rightarrow> if end \<noteq> [] \<or> INT32_MAX < i \<or> i < INT32_MIN then None else Some i)"

definition tolower :: "char \<Rightarrow> char" where
  "tolower ch = (if 65 \<le> code ch \<and> code ch \<le> 90 then char_of (code ch + 32) else ch)"

datatype ctl_opt =
    Ctl_q string | Ctl_c string | Ctl_r string | Ctl_C string | Ctl_i string | Ctl_h | Ctl_j | Ctl_x
  | Ctl_w "string option" | Ctl_Unknown

text \<open>The variables of \<open>main\<close> on top of the static ones.\<close>

record ctl_settings =
  cs_queue_path :: "string option"
  cs_run_path :: "string option"
  cs_ctl :: ctl

definition ctl_start :: "ctl_env \<Rightarrow> string \<Rightarrow> fs \<Rightarrow> ctl_settings" where
  "ctl_start E cwd fs =
     \<lparr>cs_queue_path = None, cs_run_path = None,
      cs_ctl = \<lparr>ct_lmapd = lmapd_new, ct_engine = DEFAULT_ENGINE (ce_io E), ct_input_ft = LMAP_FT_CSV,
        ct_wide = (if ce_tty E then 80 else 0), ct_cwd = cwd, ct_fs = fs, ct_out = [], ct_signals = []\<rparr>\<rparr>"

definition ctl_default_paths :: "ctl_env \<Rightarrow> ctl \<Rightarrow> int \<times> lmapd" where
  "ctl_default_paths E c = add_default_paths (ct_fs c) (ce_config_dir E) (ct_lmapd c)"

definition display_width :: "bool \<Rightarrow> int \<Rightarrow> int" where
  "display_width tty w = (if w < 0 then (if tty then 132 else 0) else if w \<noteq> 0 \<and> w < 80 then 80 else w)"

definition ctl_option :: "ctl_env \<Rightarrow> ctl_opt \<Rightarrow> ctl_settings \<Rightarrow> (exit_code \<times> ctl) + ctl_settings" where
  "ctl_option E opt st =
     (let c = cs_ctl st;
          set_ctl = (\<lambda>c'. Inr (st\<lparr>cs_ctl := c'\<rparr>));
          paths = (\<lambda>(r, d). if r \<noteq> 0 then Inl (EXIT_FAILURE, c\<lparr>ct_lmapd := d\<rparr>) else set_ctl (c\<lparr>ct_lmapd := d\<rparr>));
          engine = (\<lambda>e. case lmap_io_set_engine (ce_io E) e (ct_engine c) of
                      (r, g) \<Rightarrow> if r \<noteq> 0 then Inl (EXIT_FAILURE, c) else set_ctl (c\<lparr>ct_engine := g\<rparr>));
          width = (\<lambda>w. set_ctl (c\<lparr>ct_wide := display_width (ce_tty E) w\<rparr>))
      in case opt of
        Ctl_q p \<Rightarrow> Inr (st\<lparr>cs_queue_path := Some p\<rparr>)
      | Ctl_c p \<Rightarrow>
          paths (if p = ''+'' then ctl_default_paths E c
                 else lmapd_add_config_path (path_is_reg (ct_fs c)) (path_is_dir (ct_fs c)) (ct_lmapd c) (Some p))
      | Ctl_r p \<Rightarrow> Inr (st\<lparr>cs_run_path := Some p\<rparr>)
      | Ctl_C p \<Rightarrow> if path_is_dir (ct_fs c) p then set_ctl (c\<lparr>ct_cwd := p\<rparr>) else Inl (EXIT_FAILURE, c)
      | Ctl_i f \<Rightarrow>
          if map tolower f = ''json'' \<and> io_with_json (ce_io E) then set_ctl (c\<lparr>ct_input_ft := LMAP_FT_JSON\<rparr>)
          else if map tolower f = ''xml'' \<and> io_with_xml (ce_io E) then set_ctl (c\<lparr>ct_input_ft := LMAP_FT_XML\<rparr>)
          else Inl (EXIT_FAILURE, c)
      | Ctl_h \<Rightarrow> Inl (EXIT_SUCCESS, print (ce_usage E @ newline @ ''commands:'' @ newline @ ctl_help) c)
      | Ctl_j \<Rightarrow> engine LMAP_IO_JSON
      | Ctl_x \<Rightarrow> engine LMAP_IO_XML
      | Ctl_w None \<Rightarrow> width (-1)
      | Ctl_w (Some s) \<Rightarrow> (case getint s of None \<Rightarrow> Inl (EXIT_FAILURE, c) | Some w \<Rightarrow> width w)
      | Ctl_Unknown \<Rightarrow> Inl (EXIT_FAILURE, c))"

fun ctl_options :: "ctl_env \<Rightarrow> ctl_opt list \<Rightarrow> ctl_settings \<Rightarrow> (exit_code \<times> ctl) + ctl_settings" where
  "ctl_options E [] st = Inr st"
| "ctl_options E (p # ps) st =
     (case ctl_option E p st of Inl e \<Rightarrow> Inl e | Inr st' \<Rightarrow> ctl_options E ps st')"

text \<open>After the options: the paths, and the command with its arguments.\<close>

definition ctl_setup :: "ctl_env \<Rightarrow> ctl_settings \<Rightarrow> (exit_code \<times> ctl) + ctl" where
  "ctl_setup E st =
     (let c = cs_ctl st; dir = path_is_dir (ct_fs c);
          (r, d1) = (if ld_config_paths (ct_lmapd c) = [] then ctl_default_paths E c else (0, ct_lmapd c));
          d2 = snd (lmapd_set_queue_path dir d1 (given_or (ce_queue_dir E) (cs_queue_path st)));
          d3 = snd (lmapd_set_run_path dir d2 (given_or (ce_run_dir E) (cs_run_path st)))
      in if r \<noteq> 0 then Inl (EXIT_FAILURE, c\<lparr>ct_lmapd := d1\<rparr>)
         else if ld_config_paths d3 = [] \<or> ld_queue_path d3 = None \<or> ld_run_path d3 = None
         then Inl (EXIT_FAILURE, c\<lparr>ct_lmapd := d3\<rparr>)
         else Inr (c\<lparr>ct_lmapd := d3\<rparr>))"

definition lmapctl_main ::
  "ctl_env \<Rightarrow> ctl_opt list \<Rightarrow> string list \<Rightarrow> string \<Rightarrow> fs \<Rightarrow> (exit_code \<times> ctl) outcome" where
  "lmapctl_main E opts args cwd fs =
     (case ctl_options E opts (ctl_start E cwd fs) of
        Inl e \<Rightarrow> Inr e
      | Inr st \<Rightarrow>
          (case args of
             [] \<Rightarrow> Inr (EXIT_FAILURE, cs_ctl st)
           | name # _ \<Rightarrow>
               (case ctl_setup E st of
                  Inl e \<Rightarrow> Inr e
                | Inr c \<Rightarrow>
                    obind (run_command cmds E (length args) name c)
                      (\<lambda>(r, c'). Inr (if r = Some 0 then EXIT_SUCCESS else EXIT_FAILURE, c')))))"

end
