(* ===== verification/Lmapctl_Runs.thy ===== *)
theory Lmapctl_Runs
  imports Lmapctl Daemon_Runs
begin

text \<open>
  The tool and the daemon together: the state that the daemon writes is the one the tool shows, \<open>validate\<close> accepts what the
  daemon starts with, and what the columns of the status are worth.
\<close>

section \<open>Documents in files\<close>

text \<open>
  What json-c is to do with the text of a document that comes in pieces: it wants more at the end of each piece, and the whole
  text is the document.
\<close>

definition tokener_ok :: "jsonc \<Rightarrow> string \<Rightarrow> json \<Rightarrow> bool" where
  "tokener_ok J s j \<longleftrightarrow>
     s \<noteq> [] \<and> jc_parse_ex J s = Tok_Success j
     \<and> (\<forall>k. 0 < k \<and> k * JSON_READ_BUFFER_SZ < length s \<longrightarrow> jc_parse_ex J (take (k * JSON_READ_BUFFER_SZ) s) = Tok_Continue)"

lemma feed_tokener_pieces:
  assumes "tokener_ok J s j" "s = fed @ rest" "rest \<noteq> []" "length fed = k * JSON_READ_BUFFER_SZ"
  shows "feed_tokener J t fed (read_chunks rest) = Tok_Success j"
  using assms(2-4)
proof (induction rest arbitrary: fed k t rule: read_chunks.induct)
  case (1 rest)
  let ?n = JSON_READ_BUFFER_SZ
  have chunks: "read_chunks rest = take ?n rest # read_chunks (drop ?n rest)"
    using "1.prems"(2) by (subst read_chunks.simps) simp
  show ?case
  proof (cases "length rest \<le> ?n")
    case True
    then have "fed @ take ?n rest = s" "drop ?n rest = []" using "1.prems"(1) by simp_all
    with assms(1) show ?thesis unfolding chunks by (simp add: tokener_ok_def)
  next
    case False
    then have len: "length (fed @ take ?n rest) = Suc k * ?n" using "1.prems"(3) by simp
    have "fed @ take ?n rest = take (Suc k * ?n) s"
      using "1.prems"(1,3) by simp
    moreover have "Suc k * ?n < length s" using False "1.prems"(1,3) by simp
    ultimately have "jc_parse_ex J (fed @ take ?n rest) = Tok_Continue"
      using assms(1) unfolding tokener_ok_def by (metis zero_less_Suc)
    moreover have "feed_tokener J Tok_Continue (fed @ take ?n rest) (read_chunks (drop ?n rest)) = Tok_Success j"
      using "1.IH" [OF "1.prems"(2) _ _ len] False "1.prems"(1) by simp
    ultimately show ?thesis unfolding chunks by simp
  qed
qed

lemma parse_file_whole:
  assumes "tokener_ok J s j" "file_contents R fs p = Some s"
  shows "parse_file J R fs p = j"
  using feed_tokener_pieces [OF assms(1), of "[]" s 0 Tok_Error] assms
  by (simp add: parse_file_def tokener_ok_def)

lemma xml_parse_file_whole:
  assumes "file_contents R fs p = Some s" "length s \<le> INT_MAX"
  shows "xml_parse_file X R fs parse l p = xml_parse_string X parse l s"
  using assms by (simp add: xml_parse_file_def xml_parse_string_def)

section \<open>The state on its way from the daemon to the tool\<close>

abbreviation state_flags :: flags where
  "state_flags \<equiv> PARSE_CONFIG_TRUE OR PARSE_CONFIG_FALSE"

text \<open>What a document of an engine carries of the model, and the models that can be written and read by it.\<close>

definition state_part :: "lmap_io_engine \<Rightarrow> lmap \<Rightarrow> lmap" where
  "state_part g l = (if g = LMAP_IO_XML then xml_lmap_part state_flags l else lmap_part state_flags l)"

definition state_good :: "io \<Rightarrow> lmap_io_engine \<Rightarrow> lmap \<Rightarrow> bool" where
  "state_good io g l \<longleftrightarrow>
     (if g = LMAP_IO_XML
      then io_with_xml io \<and> xml_lmap_good (xml_time_ok (io_xmlc io)) state_flags l \<and> xml_prints_back (io_xmlc io) l state_flags
      else g = LMAP_IO_JSON \<and> io_with_json io \<and> jsonc_ok (io_jsonc io) \<and> lmap_good (time_ok (io_jsonc io)) state_flags l
        \<and> lmap_written state_flags l
        \<and> (case control_tree (io_jsonc io) l state_flags of
             Inl e \<Rightarrow> True
           | Inr j \<Rightarrow> tokener_ok (io_jsonc io) (jc_pretty (io_jsonc io) j) j))"

lemma state_file_reads:
  assumes "state_good io g l"
  obtains s where "lmap_io_render_state io g l = Inr (Some s)"
    "\<And>R fs p. file_contents R fs p = Some s \<Longrightarrow> lmap_io_parse_state_file io g R fs lmap_new p = Inr (0, state_part g l)"
proof (cases "g = LMAP_IO_XML")
  case True
  let ?X = "io_xmlc io"
  have "flag_on state_flags PARSE_CONFIG_TRUE" by (simp add: flag_on_def parse_flag_defs)
  from xml_document_round_trip [OF this] assms True obtain s where s: "xml_render_control ?X l state_flags = Inr s"
    "xml_parse_string ?X (\<lambda>l d. xml_parse_control ?X l d state_flags) lmap_new s = Inr (0, xml_lmap_part state_flags l)"
    by (auto simp: state_good_def)
  moreover have "length s \<le> INT_MAX" using s(2) by (auto simp: xml_parse_string_def split: if_splits)
  moreover have "io_with_xml io" using assms True by (simp add: state_good_def)
  ultimately show ?thesis using True
    by (intro that [of s])
      (simp_all add: lmap_io_render_state_def lmap_io_parse_state_file_def lmap_io_dispatch_def lmap_xml_render_state_def
        lmap_xml_parse_state_file_def xml_parse_file_whole xml_parse_state_doc_def [abs_def] state_part_def)
next
  case False
  let ?J = "io_jsonc io"
  have "flag_on state_flags PARSE_CONFIG_TRUE" by (simp add: flag_on_def parse_flag_defs)
  moreover have "jsonc_ok ?J" "lmap_good (time_ok ?J) state_flags l" "lmap_written state_flags l"
    using assms False by (simp_all add: state_good_def)
  ultimately obtain j where j: "control_tree ?J l state_flags = Inr j"
    "parse_control_doc ?J lmap_new j state_flags = Inr (0, lmap_part state_flags l)"
    by (rule control_tree_reads)
  from assms False j have "g = LMAP_IO_JSON" "io_with_json io" "tokener_ok ?J (jc_pretty ?J j) j"
    by (simp_all add: state_good_def)
  with j False show ?thesis
    by (intro that [of "jc_pretty ?J j"])
      (simp_all add: lmap_io_render_state_def lmap_io_parse_state_file_def lmap_io_dispatch_def lmap_json_render_state_def
        render_control_def lmap_json_parse_state_file_def parse_file_whole parse_state_doc_def state_part_def)
qed

text \<open>The file between the two programs, whichever of them names it.\<close>

lemma status_file_eq:
  "run_dir_ok R d fs run (LMAPD_STATUS_FILE @ lmap_io_engine_ext g) \<Longrightarrow>
    status_file g run = join run (LMAPD_STATUS_FILE @ lmap_io_engine_ext g)"
  by (simp add: status_file_def run_dir_ok_def path_buf_short)

lemma sigusr1_writes:
  assumes upd: "lmapd_workspace_update (ho_walk H (os_fs w)) d = Inr (r, d1)"
    and "ld_lmap d1 = Some l" "state_good (ho_io H) g l"
    and "run_dir_ok (en_refuse (ho_env H)) d (os_fs w) run (LMAPD_STATUS_FILE @ lmap_io_engine_ext g)"
  obtains w' where "lmapd_sigusr1_cb H g d w = Inr (d1, w')"
    "lmap_io_parse_state_file (ho_io H) g (en_refuse (ho_env H)) (os_fs w') lmap_new (status_file g run) = Inr (0, state_part g l)"
proof -
  let ?R = "en_refuse (ho_env H)" and ?n = "LMAPD_STATUS_FILE @ lmap_io_engine_ext g"
  obtain s where s: "lmap_io_render_state (ho_io H) g l = Inr (Some s)"
    "\<And>R fs p. file_contents R fs p = Some s \<Longrightarrow> lmap_io_parse_state_file (ho_io H) g R fs lmap_new p = Inr (0, state_part g l)"
    by (rule state_file_reads [OF assms(3)]) blast
  obtain i fs1 where f: "open_create_trunc ?R (os_fs w) (join run ?n) = (Some i, fs1)"
    "file_contents ?R (write_file fs1 i s) (join run ?n) = Some s"
    using written_back [OF assms(4)] by blast
  have "ld_run_path d = Some run" using assms(4) by (simp add: run_dir_ok_def)
  with s(1) f(1) assms(2) have "lmapd_sigusr1_cb H g d w = Inr (d1, w\<lparr>os_fs := write_file fs1 i s\<rparr>)"
    by (simp add: lmapd_sigusr1_cb_def upd status_file_eq [OF assms(4)])
  with s(2) [OF f(2)] show ?thesis
    by (intro that [of "w\<lparr>os_fs := write_file fs1 i s\<rparr>"]) (simp_all add: status_file_eq [OF assms(4)])
qed

text \<open>
  C21. The daemon and \<^verbatim>\<open>lmapctl status\<close> together. When the daemon handles the signal while the tool sleeps, and no workspace it measures
  is \<open>NULL\<close>, the tool shows the state that the daemon has at that moment, with the storage just measured, as far as a document of the engine carries it; it has
  sent one signal, to the process of the pid file.
\<close>

theorem status_shows_daemon_state:
  assumes "lmapd_workspace_update (ho_walk H (os_fs w)) d = Inr (r, d1)"
    and "ld_lmap d1 = Some l" "state_good (ho_io H) (ct_engine c) l"
    and "run_dir_ok (en_refuse (ho_env H)) d (os_fs w) run (LMAPD_STATUS_FILE @ lmap_io_engine_ext (ct_engine c))"
    and "ct_fs c = os_fs w" "ld_run_path (ct_lmapd c) = Some run" "ce_io E = ho_io H" "ce_refuse E = en_refuse (ho_env H)"
    and "ctl_pid E c = Inr pid" "pid \<noteq> 0" "\<not> ce_kill_fails E pid"
    and "\<And>d' w'. lmapd_sigusr1_cb H (ct_engine c) d w = Inr (d', w') \<Longrightarrow> ce_nap E (os_fs w) = os_fs w'"
  shows "\<exists>w'. lmapd_sigusr1_cb H (ct_engine c) d w = Inr (d1, w') \<and>
    status_cmd E 1 name c =
      (let part = state_part (ct_engine c) l
       in obind (status_text E (ct_wide c) part)
            (\<lambda>s. Inr (0, print s (c\<lparr>ct_signals := ct_signals c @ [(pid, SIGUSR1)], ct_fs := os_fs w',
                                  ct_lmapd := (ct_lmapd c)\<lparr>ld_lmap := Some part\<rparr>\<rparr>))))"
proof -
  obtain w' where w': "lmapd_sigusr1_cb H (ct_engine c) d w = Inr (d1, w')"
    "lmap_io_parse_state_file (ho_io H) (ct_engine c) (en_refuse (ho_env H)) (os_fs w') lmap_new (status_file (ct_engine c) run)
       = Inr (0, state_part (ct_engine c) l)"
    using sigusr1_writes [OF assms(1-4)] by blast
  have "ce_nap E (ct_fs c) = os_fs w'" using assms(12) [OF w'(1)] assms(5) by simp
  with w' assms show ?thesis
    by (simp add: status_cmd_def send_signal_def ctl_read_state_def print_path_def Let_def)
qed

text \<open>A daemon with the configuration of the documents' examples, and a tool started beside it.\<close>

definition state_host :: host where
  "state_host = demo_host\<lparr>ho_io := (ho_io demo_host)\<lparr>io_xmlc := demo_xmlc state_flags\<rparr>\<rparr>"

definition state_daemon :: lmapd where
  "state_daemon = lmapd_new\<lparr>ld_lmap := Some demo_lmap, ld_run_path := Some ''/run''\<rparr>"

definition state_tool :: ctl where
  "state_tool =
     \<lparr>ct_lmapd = lmapd_new\<lparr>ld_run_path := Some ''/run''\<rparr>, ct_engine = LMAP_IO_XML, ct_input_ft = LMAP_FT_CSV, ct_wide = 80,
      ct_cwd = ''.'', ct_fs = os_fs demo_os, ct_out = [], ct_signals = []\<rparr>"

definition state_tool_env :: ctl_env where
  "state_tool_env =
     \<lparr>ce_assert = True, ce_io = ho_io state_host, ce_refuse = (\<lambda>_. False), ce_alive = (\<lambda>_. True), ce_kill_fails = (\<lambda>_. False), ce_now = 1700000000,
      ce_strftime = (\<lambda>_ t. map_option utc_date (lc_localtime utc_libc t)),
      ce_nap = (\<lambda>fs. case lmapd_sigusr1_cb state_host LMAP_IO_XML state_daemon demo_os of Inl e \<Rightarrow> fs | Inr (d, w) \<Rightarrow> os_fs w),
      ce_tty = True, ce_usage = [], ce_config_dir = ''/c'', ce_queue_dir = ''/q'', ce_run_dir = ''/run''\<rparr>"

lemma status_shows_daemon_state_witness:
  "\<exists>w'. lmapd_sigusr1_cb state_host LMAP_IO_XML state_daemon demo_os = Inr (state_daemon, w') \<and>
    status_cmd state_tool_env 1 ''status'' state_tool =
      (let part = state_part LMAP_IO_XML demo_lmap
       in obind (status_text state_tool_env 80 part)
            (\<lambda>s. Inr (0, print s (state_tool\<lparr>ct_signals := [(4711, SIGUSR1)], ct_fs := os_fs w',
                                  ct_lmapd := (lmapd_new\<lparr>ld_run_path := Some ''/run''\<rparr>)\<lparr>ld_lmap := Some part\<rparr>\<rparr>))))"
proof -
  have upd: "lmapd_workspace_update (ho_walk state_host (os_fs demo_os)) state_daemon = Inr (-1, state_daemon)"
    by (simp add: lmapd_workspace_update_def state_host_def demo_host_def state_daemon_def demo_lmap_def lmap_new_def
        lmap_schedule_new_def lmap_action_new_def du_def)
  have l: "ld_lmap state_daemon = Some demo_lmap" by (simp add: state_daemon_def)
  have good: "state_good (ho_io state_host) (ct_engine state_tool) demo_lmap"
    using demo_xml_good [of state_flags state_flags] demo_xml_prints_back [of state_flags]
    by (simp add: state_good_def state_host_def demo_host_def state_tool_def)
  have dir: "run_dir_ok (en_refuse (ho_env state_host)) state_daemon (os_fs demo_os) ''/run''
      (LMAPD_STATUS_FILE @ lmap_io_engine_ext (ct_engine state_tool))"
    by (simp add: run_dir_ok_def state_daemon_def state_host_def demo_host_def demo_os_def run_env_def state_tool_def join_def
        LMAPD_STATUS_FILE_def lmap_io_engine_ext_def PATH_MAX_def lookup_def entries_def dot_name_def)
  have c: "ct_fs state_tool = os_fs demo_os" "ld_run_path (ct_lmapd state_tool) = Some ''/run''"
    "ce_io state_tool_env = ho_io state_host" "ce_refuse state_tool_env = en_refuse (ho_env state_host)"
    "\<not> ce_kill_fails state_tool_env 4711" "(4711 :: int) \<noteq> 0"
    by (simp_all add: state_tool_def state_tool_env_def state_host_def demo_host_def run_env_def)
  have held: "file_contents (\<lambda>_. False) (os_fs demo_os) (path_buf (join ''/run'' LMAPD_PID_FILE)) = Some (''4711'' @ [CHR 0x0A])"
    by code_simp
  have scan: "scan_int (''4711'' @ [CHR 0x0A]) = Some 4711" by code_simp
  have pid: "ctl_pid state_tool_env state_tool = Inr 4711"
    unfolding ctl_pid_def by (rule pid_read_live [OF c(2) _ scan]) (use held in \<open>simp_all add: state_tool_env_def state_tool_def\<close>)
  have nap: "ce_nap state_tool_env (os_fs demo_os) = os_fs w'"
    if "lmapd_sigusr1_cb state_host (ct_engine state_tool) state_daemon demo_os = Inr (d', w')" for d' w'
    using that by (simp add: state_tool_env_def state_tool_def)
  from status_shows_daemon_state [where name = "''status''" and H = state_host and w = demo_os and d = state_daemon, OF upd l good dir c(1,2,3,4) pid c(6,5) nap]
  show ?thesis by (simp add: state_tool_def)
qed

section \<open>Validation\<close>

text \<open>The validity of a configuration does not depend on what the daemon adds to it.\<close>

lemma valid_frame:
  fixes l x y
  defines "m \<equiv> l\<lparr>lm_agent := x, lm_capabilities := y\<rparr>"
  shows "lmap_schedule_valid m = lmap_schedule_valid l" "lmap_supp_valid m = lmap_supp_valid l"
proof -
  have find: "lmap_find_event m = lmap_find_event l" "lmap_find_task m = lmap_find_task l"
    "lmap_find_schedule m = lmap_find_schedule l"
    by (intro ext; simp add: m_def lmap_find_event_def lmap_find_task_def lmap_find_schedule_def)+
  have "destinations_valid m ts v = destinations_valid l ts v" for ts v
    by (induction ts arbitrary: v) (simp_all add: find)
  then have "lmap_action_valid m = lmap_action_valid l" by (intro ext) (simp add: lmap_action_valid_def find)
  then have "actions_valid m as v = actions_valid l as v" for as v
    by (induction as arbitrary: v) simp_all
  then show "lmap_schedule_valid m = lmap_schedule_valid l" by (intro ext) (simp add: lmap_schedule_valid_def find)
  show "lmap_supp_valid m = lmap_supp_valid l" by (intro ext) (simp add: lmap_supp_valid_def find)
qed

definition started_at :: "int \<Rightarrow> lmap \<Rightarrow> lmap" where
  "started_at t l = l\<lparr>lm_agent := map_option (\<lambda>a. a\<lparr>ag_last_started := t\<rparr>) (lm_agent l)\<rparr>"

lemma lmap_valid_frame:
  "lmap_valid (l\<lparr>lm_agent := map_option (\<lambda>a. a\<lparr>ag_last_started := t\<rparr>) (lm_agent l), lm_capabilities := cap\<rparr>) = lmap_valid l"
proof -
  have "lmap_agent_valid (a\<lparr>ag_last_started := t\<rparr>) = lmap_agent_valid a" for a
    by (simp add: lmap_agent_valid_def)
  then show ?thesis by (cases "lm_agent l") (simp_all add: lmap_valid_def Let_def valid_frame)
qed

text \<open>
  C22. \<^verbatim>\<open>lmapctl validate\<close> accepts exactly the configurations with which the daemon enters its event loop, when both have the same
  paths and engine and the capability files bring nothing but capabilities, with tags that can be extended. What the tool accepts
  the daemon does not refuse, and what it refuses the daemon exits on.
\<close>

theorem validate_agrees_with_daemon:
  assumes "ct_fs c = os_fs w" "ld_config_paths (ct_lmapd c) = ld_config_paths d" "ct_engine c = g"
    and "ce_io E = ho_io H" "ce_refuse E = en_refuse (ho_env H)"
    and "\<And>l. read_config_paths (lmap_io_parse_config_path (ho_io H) g (en_refuse (ho_env H)) (os_fs w)) lmap_new
          (ld_config_paths d) = Inr (0, l) \<Longrightarrow>
        \<exists>cap. lmap_io_parse_state_path (ho_io H) g (en_refuse (ho_env H)) (os_fs w) (started_at (en_now (ho_env H)) l)
            (ld_capability_path d) = Inr (0, (started_at (en_now (ho_env H)) l)\<lparr>lm_capabilities := cap\<rparr>)
          \<and> ok (describe_system H cap)"
  shows "(\<exists>c'. validate_cmd E 1 name c = Inr (0, c')) \<longleftrightarrow> (\<exists>d' w'. begin_round H g (d, w) = Inr (True, d', w'))"
proof (cases "read_config_paths (lmap_io_parse_config_path (ho_io H) g (en_refuse (ho_env H)) (os_fs w)) lmap_new (ld_config_paths d)")
  case (Inl e)
  with assms show ?thesis
    by (simp add: validate_cmd_def valid_config_def ctl_read_config_def begin_round_def read_config_def)
next
  case (Inr rl)
  obtain r l where rl: "rl = (r, l)" by fastforce
  note reads = validate_cmd_def valid_config_def ctl_read_config_def begin_round_def read_config_def
  show ?thesis
  proof (cases "r = 0")
    case True
    obtain cap where cap: "lmap_io_parse_state_path (ho_io H) g (en_refuse (ho_env H)) (os_fs w) (started_at (en_now (ho_env H)) l)
        (ld_capability_path d) = Inr (0, (started_at (en_now (ho_env H)) l)\<lparr>lm_capabilities := cap\<rparr>)" "ok (describe_system H cap)"
      using assms(6) Inr rl True by blast
    then obtain cap' where cap': "describe_system H cap = Inr cap'" by (auto simp: ok_iff)
    have "(\<exists>c'. validate_cmd E 1 name c = Inr (0, c')) \<longleftrightarrow> lmap_valid l"
      using assms(1-5) Inr rl True by (simp add: reads)
    moreover have "(\<exists>d' w'. begin_round H g (d, w) = Inr (True, d', w')) \<longleftrightarrow> lmap_valid l"
      using assms(1-5) Inr rl True cap cap' lmap_valid_frame [where l = l and t = "en_now (ho_env H)" and cap = cap']
      by (simp add: reads Let_def started_at_def split: prod.split)
    ultimately show ?thesis by simp
  next
    case False
    with assms(1-5) Inr rl show ?thesis by (simp add: reads)
  qed
qed

lemma validate_agrees_with_daemon_witness:
  "(\<exists>c'. validate_cmd state_tool_env 1 ''validate'' (state_tool\<lparr>ct_lmapd := lmapd_new\<lparr>ld_config_paths := [''/c'']\<rparr>\<rparr>) = Inr (0, c')) \<longleftrightarrow>
    (\<exists>d' w'. begin_round state_host LMAP_IO_XML
       (lmapd_new\<lparr>ld_config_paths := [''/c''], ld_capability_path := Some ''/c'', ld_queue_path := Some ''/q''\<rparr>, demo_os)
       = Inr (True, d', w'))"
proof (rule validate_agrees_with_daemon)
  let ?H = state_host and ?d = "lmapd_new\<lparr>ld_config_paths := [''/c''], ld_capability_path := Some ''/c'', ld_queue_path := Some ''/q''\<rparr>"
  have io: "ho_io ?H = \<lparr>io_with_xml = True, io_with_json = True, io_xmlc = demo_xmlc state_flags, io_jsonc = utc_jsonc JNull\<rparr>"
    "en_refuse (ho_env ?H) = (\<lambda>_. False)"
    by (simp_all add: state_host_def demo_host_def run_env_def)
  have none: "opendir (\<lambda>_. False) (os_fs demo_os) ''/c'' = Some [''.'', ''..'']"
    by (simp add: opendir_def demo_os_def entries_def)
  fix l
  assume "read_config_paths (lmap_io_parse_config_path (ho_io ?H) LMAP_IO_XML (en_refuse (ho_env ?H)) (os_fs demo_os)) lmap_new
      (ld_config_paths ?d) = Inr (0, l)"
  then have l: "l = lmap_new"
    by (simp add: io lmap_io_parse_config_path_def lmap_io_dispatch_def lmap_xml_parse_config_path_def xml_parse_path_def none
        xml_name_def)
  have "lmap_io_parse_state_path (ho_io ?H) LMAP_IO_XML (en_refuse (ho_env ?H)) (os_fs demo_os)
      (started_at (en_now (ho_env ?H)) l) (ld_capability_path ?d)
    = Inr (0, (started_at (en_now (ho_env ?H)) l)\<lparr>lm_capabilities := None\<rparr>)"
    by (simp add: io l lmap_io_parse_state_path_def lmap_io_dispatch_def lmap_xml_parse_state_path_def xml_parse_path_def none
        xml_name_def started_at_def lmap_new_def)
  moreover have "describe_system ?H None = describe_system demo_host None"
    by (simp add: describe_system_def state_host_def)
  moreover have "ok (describe_system demo_host None)" by code_simp
  ultimately show "\<exists>cap. lmap_io_parse_state_path (ho_io ?H) LMAP_IO_XML (en_refuse (ho_env ?H)) (os_fs demo_os)
      (started_at (en_now (ho_env ?H)) l) (ld_capability_path ?d)
    = Inr (0, (started_at (en_now (ho_env ?H)) l)\<lparr>lm_capabilities := cap\<rparr>) \<and> ok (describe_system ?H cap)" by auto
qed (simp_all add: state_tool_def state_tool_env_def state_host_def demo_host_def run_env_def)

section \<open>The columns of the status\<close>

text \<open>The share of a count in a total, in whole per cent: the product with 100 keeps 32 bits, and 0 of 0 is 0.\<close>

definition share :: "nat \<Rightarrow> nat \<Rightarrow> nat" where
  "share x n = (if n = 0 then 0 else x * 100 mod 2 ^ 32 div n)"

lemma percent_share: "uint (percent x n) = int (share (unat x) (unat n))"
proof (cases "n = 0")
  case False
  then have "unat (percent x n) = share (unat x) (unat n)"
    by (simp add: percent_def share_def unat_div unat_word_ariths(2) unat_eq_zero)
  then show ?thesis by (metis uint_nat)
qed (simp add: percent_def share_def)

lemma share_exact: "x \<le> 42949672 \<Longrightarrow> share x n = x * 100 div n"
  by (simp add: share_def)

lemma share_of_all:
  assumes "0 < x" "x < 2 ^ 32"
  shows "share x x = 100 \<longleftrightarrow> x \<le> 42949672"
proof (cases "x \<le> 42949672")
  case False
  then have "2 ^ 32 \<le> x * 100" by simp
  then have "x * 100 mod 2 ^ 32 \<le> x * 100 - 2 ^ 32" by (simp add: le_mod_geq)
  also have "\<dots> < 100 * x" using assms by simp
  finally have "x * 100 mod 2 ^ 32 div x < 100" by (rule less_mult_imp_div_less)
  with False assms(1) show ?thesis by (simp add: share_def)
qed (use assms in \<open>simp add: share_exact\<close>)

lemma floors_of_parts:
  fixes a b c :: nat
  assumes "0 < a + b + c"
  defines "T \<equiv> a + b + c"
  shows "a * 100 div T + b * 100 div T + c * 100 div T \<le> 100" "98 \<le> a * 100 div T + b * 100 div T + c * 100 div T"
proof -
  let ?q = "\<lambda>x. x * 100 div T" and ?r = "\<lambda>x. x * 100 mod T"
  have T: "0 < T" using assms by simp
  have e: "?q x * T + ?r x = x * 100" for x by (rule div_mult_mod_eq)
  have r: "?r x < T" for x using T by simp
  have "(?q a + ?q b + ?q c) * T + (?r a + ?r b + ?r c) = (?q a * T + ?r a) + (?q b * T + ?r b) + (?q c * T + ?r c)"
    by (simp add: distrib_right)
  then have d: "(?q a + ?q b + ?q c) * T + (?r a + ?r b + ?r c) = 100 * T"
    unfolding e by (simp add: T_def)
  then have "(?q a + ?q b + ?q c) * T \<le> 100 * T" by linarith
  with T show "?q a + ?q b + ?q c \<le> 100" by simp
  have d3: "?r a + ?r b + ?r c < 3 * T" using r [of a] r [of b] r [of c] by linarith
  have "97 * T < x * T" if "x * T + y = 100 * T" "y < 3 * T" for x y
    using that by linarith
  from this [OF d d3] have "97 * T < (?q a + ?q b + ?q c) * T" .
  with T show "98 \<le> ?q a + ?q b + ?q c" by simp
qed
text \<open>
  C25. The four columns of lmapctl status show of a schedule or an action what share of its attempts were
  invocations, suppressions and overlaps, and what share of its invocations failed, in the arithmetic of 32 bits: sums and
  products lose their upper bits. With at most 42949672 attempts the first three are the percentages rounded down, which add
  up to 98, 99 or 100, or to 0 without attempts; with at most 42949672 failures so is the fourth. Beyond that the product with
  100 wraps around: what was always invoked is shown with 100 per cent exactly up to 42949672 invocations.
\<close>

theorem status_percentages:
  fixes i s v f :: "32 word"
  defines "n \<equiv> unat i + unat s + unat v"
  shows "counter_columns i s v f =
      number3 (int (share (unat i) (n mod 2 ^ 32))) @ number3 (int (share (unat s) (n mod 2 ^ 32)))
        @ number3 (int (share (unat v) (n mod 2 ^ 32))) @ number3 (int (share (unat f) (unat i)))
    \<and> (n \<le> 42949672 \<longrightarrow>
         share (unat i) (n mod 2 ^ 32) = unat i * 100 div n \<and> share (unat s) (n mod 2 ^ 32) = unat s * 100 div n
         \<and> share (unat v) (n mod 2 ^ 32) = unat v * 100 div n
         \<and> share (unat i) (n mod 2 ^ 32) + share (unat s) (n mod 2 ^ 32) + share (unat v) (n mod 2 ^ 32)
             \<in> (if n = 0 then {0} else {98, 99, 100}))
    \<and> (unat f \<le> 42949672 \<longrightarrow> share (unat f) (unat i) = unat f * 100 div unat i)
    \<and> (n = unat i \<and> 0 < n \<longrightarrow> (share (unat i) (n mod 2 ^ 32) = 100 \<longleftrightarrow> unat i \<le> 42949672))"
proof -
  have u: "unat (i + s + v) = n mod 2 ^ 32"
    by (simp add: n_def unat_word_ariths(1) mod_add_left_eq)
  have cols: "counter_columns i s v f =
      number3 (int (share (unat i) (n mod 2 ^ 32))) @ number3 (int (share (unat s) (n mod 2 ^ 32)))
        @ number3 (int (share (unat v) (n mod 2 ^ 32))) @ number3 (int (share (unat f) (unat i)))"
    by (simp add: counter_columns_def Let_def percent_share u)
  have few: "share (unat i) (n mod 2 ^ 32) = unat i * 100 div n" "share (unat s) (n mod 2 ^ 32) = unat s * 100 div n"
      "share (unat v) (n mod 2 ^ 32) = unat v * 100 div n"
    if "n \<le> 42949672"
    using that by (simp_all add: share_exact n_def)
  have sum: "share (unat i) (n mod 2 ^ 32) + share (unat s) (n mod 2 ^ 32) + share (unat v) (n mod 2 ^ 32)
      \<in> (if n = 0 then {0} else {98, 99, 100})" if "n \<le> 42949672"
    using floors_of_parts [of "unat i" "unat s" "unat v"] few [OF that] by (auto simp: n_def)
  have "unat i < 2 ^ LENGTH(32)" by (rule unsigned_less)
  then have all: "share (unat i) (n mod 2 ^ 32) = 100 \<longleftrightarrow> unat i \<le> 42949672" if "n = unat i" "0 < n"
    using share_of_all [of "unat i"] that by simp
  show ?thesis using cols few sum all share_exact by blast
qed

lemma status_percentages_witness:
  "counter_columns 1 1 1 1 = number3 33 @ number3 33 @ number3 33 @ number3 100
    \<and> counter_columns 42949673 0 0 0 = number3 0 @ number3 0 @ number3 0 @ number3 0
    \<and> share 42949673 42949673 \<noteq> 100"
  using status_percentages [of 1 1 1 1] status_percentages [of 42949673 0 0 0] by (simp add: share_def)

lemma length_dec: "n < 10 ^ k \<Longrightarrow> 0 < k \<Longrightarrow> length (dec n) \<le> k"
proof (induction k arbitrary: n)
  case (Suc k)
  show ?case
  proof (cases "n < 10")
    case False
    with Suc.prems have "0 < k" by (cases k) auto
    moreover from Suc.prems(1) have "n div 10 < 10 ^ k" by (simp add: less_mult_imp_div_less mult.commute)
    ultimately have "length (dec (n div 10)) \<le> k" by (rule Suc.IH [rotated])
    with False show ?thesis by (subst dec.simps) simp
  qed (subst dec.simps, simp)
qed simp

lemma dec_examples: "dec 10000 = ''10000''" "dec 9999 = ''9999''" "dec 10 = ''10''"
  by (simp_all add: dec.simps char_of_def bit_0)

text \<open>
  The column of the storage has five characters. Below 10239488 bytes it holds the number of bytes, or of
  kilobytes rounded to the nearest and marked with K. The 512 sizes from there on are shown as the number
  10000 without its unit.\<close>

theorem storage_column_cuts_unit:
  assumes "unat s < 10240000"
  shows "storage_column s =
           (if unat s \<le> 9999 then pad_left 5 (dec (unat s))
            else if unat s < 10239488 then pad_left 5 (dec ((unat s + 512) div 1024) @ ''K'')
            else ''10000'') @ '' ''"
proof -
  have a: "unat (s + 512) = unat s + 512"
    using assms by (simp add: unat_word_ariths(1) mod_less)
  have k: "\<not> 9999 < s div 1024" "\<not> 9999 < s div 1024 div 1024"
    using assms by (simp_all add: word_less_nat_alt unat_div)
  have r: "render_storage s = (if 9999 < unat s then dec ((unat s + 512) div 1024) @ ''K'' else dec (unat s))"
    using k by (simp add: render_storage_def word_less_nat_alt unat_div a)
  have short: "length (dec n) \<le> 4" if "n < 10000" for n
    using length_dec [of n 4] that by simp
  consider "unat s \<le> 9999" | "9999 < unat s" "unat s < 10239488" | "10239488 \<le> unat s" by linarith
  then show ?thesis
  proof cases
    case 1
    with short [of "unat s"] show ?thesis by (simp add: storage_column_def cut_left_def r)
  next
    case 2
    have "length (dec ((unat s + 512) div 1024)) \<le> 4" using 2 by (intro short) simp
    with 2 show ?thesis by (simp add: storage_column_def cut_left_def r)
  next
    case 3
    with assms have "(unat s + 512) div 1024 = 10000" by simp
    with 3 show ?thesis by (simp add: storage_column_def cut_left_def pad_left_def r dec_examples)
  qed
qed

lemma storage_column_cuts_unit_witness:
  "storage_column 10239488 = ''10000 '' \<and> storage_column 9999 = '' 9999 '' \<and> storage_column 10000 = ''  10K ''"
proof -
  have "pad_left 5 ''9999'' = '' 9999''" "pad_left 5 ''10K'' = ''  10K''"
    by (simp_all add: pad_left_def numeral_2_eq_2)
  then show ?thesis
    using storage_column_cuts_unit [of 10239488] storage_column_cuts_unit [of 9999] storage_column_cuts_unit [of 10000]
    by (simp add: dec_examples)
qed


end
