(* ===== verification/Spec2Isabelle.thy ===== *)
theory Spec2Isabelle
  imports Validity Run_States Suppressions Timers Json_Documents Xml_Types Daemon_Events Lmapctl_Runs
begin

text \<open>
  lmapd, the LMAP measurement agent daemon, and lmapctl, the tool that talks to it: a model of the whole program but its messages.

  The program. A configuration (an \<^verbatim>\<open>struct lmap\<close>) holds an agent, its capabilities, schedules of actions,
  suppressions, tasks and events. The daemon sets up a directory tree for it (the queue, one workspace per
  schedule and per action), arms the events, and when an event fires runs the actions of the schedules that
  name it: sequentially, pipelined or in parallel, each one as a child process in its workspace. When a child
  ends, its result files are moved to the workspaces of the destination schedules. Suppressions, started and
  ended by events too, stop schedules and actions by their tags. Signals end the daemon, make it read its configuration again or
  write its state to a file; the command line tool sends them, to the process of the pid file, and shows configuration, state and
  results.

  The theories, in the order of their imports:
  \<^item> \<open>Prelude\<close>: results that may fault (a dereferenced null pointer, an access out of bounds), the combinators
    that sequence them, and lemmas on lists and strings that the components share.
  \<^item> \<open>Model\<close>: the records for the structs of \<^verbatim>\<open>src/lmap.h.in\<close> and \<^verbatim>\<open>src/lmapd.h.in\<close>; the flag words keep their bits.
  \<^item> \<open>Scalars\<close> (\<^verbatim>\<open>src/data.c\<close>, \<open>set_string\<close> to \<open>set_dateandtime\<close>): the parsers of scalar values. What they use of the C
    library's calendar is the record \<open>libc\<close>, a parameter; \<open>Libc_Instance\<close> shows that the laws assumed of it can hold.
  \<^item> \<open>Store\<close>, \<open>Objects\<close>, \<open>Events\<close>, \<open>Results\<close>, \<open>Validity\<close> (\<^verbatim>\<open>src/data.c\<close>): the named lists with their \<open>lmap_add_\<close> and
    \<open>lmap_find_\<close> functions, the setters, the events with the calendar match, tables and results, and the
    functions \<open>lmap_..._valid\<close>.
  \<^item> \<open>Csv\<close> (\<^verbatim>\<open>src/csv.c\<close>): the writer and the reader of the semicolon separated files.
  \<^item> \<open>Filesystem\<close>: directories and inodes with the system calls that \<^verbatim>\<open>src/workspace.c\<close> makes; a predicate says which
    calls the system refuses, so that every error branch of the code is one of the model.
  \<^item> \<open>Workspace\<close> and \<open>Result_Files\<close> (\<^verbatim>\<open>src/workspace.c\<close>): safe file names, cleaning, creating, measuring and moving
    workspaces; the meta and data files of a result and how they are read back.
  \<^item> \<open>Runner\<close> (\<^verbatim>\<open>src/runner.c\<close>): starting and killing actions, suppressions, the end of a child, the firing of an event.
    The children, their pids and the signals sent are the record \<open>os\<close>.
  \<^item> \<open>Processes\<close>, \<open>Run_States\<close>, \<open>Suppressions\<close>: the daemon as a step relation, one step per callback (an event fires, a
    child ends, everything is killed, or something happens that leaves alone what runs), with what holds in every
    reachable state: the accounting of the children, the states of schedules and actions, the counters of active suppressions.
  \<^item> \<open>Timers\<close> (\<^verbatim>\<open>src/runner.c\<close>): random spreads, the timer callbacks, the arming of the events in \<open>lmapd_run\<close>, stop and
    restart. A timer is the record of what the code asks of libevent; when libevent calls back is not modelled, as every
    callback gets its time as an argument. \<open>rand\<close> is a stream of numbers up to \<open>RAND_MAX\<close>.
  \<^item> \<open>Json\<close>, \<open>Json_Config\<close>, \<open>Json_Render\<close>, \<open>Json_Report\<close>, \<open>Json_Files\<close> (\<^verbatim>\<open>src/json-io.c\<close>): the tables of handlers with their lookup and
    filter, the parsers of configuration, state and reports, the renderers, and the reading of files and directories. Trees of
    json-c are a datatype; what json-c computes on texts is the record \<open>jsonc\<close>, a parameter.
  \<^item> \<open>Json_Codec\<close>, \<open>Json_Tasks\<close>, \<open>Json_Schedules\<close>, \<open>Json_Events\<close>, \<open>Json_Roundtrip\<close>, \<open>Json_Documents\<close>: how renderers and parsers fit
    together, from single fields to whole documents, with the documents that do not survive or crash the parser. For each kind of
    object \<open>..._part\<close> is what a document carries of it and \<open>..._good\<close> what the round trip needs. The laws of the libraries are
    \<open>jsonc_ok\<close> (numbers and truth values as texts), \<open>time_ok\<close> (an instant that is printed and read back) and
    \<open>prints_back\<close> (a document that json-c reads back); \<open>utc_jsonc\<close> shows that they can hold.
  \<^item> \<open>Xml\<close>, \<open>Xml_Config\<close>, \<open>Xml_Render\<close>, \<open>Xml_Files\<close> (\<^verbatim>\<open>src/xml-io.c\<close>): the same for XML, over trees of libxml2 and the XPath
    expressions of the code; the record \<open>xmlc\<close> has what libxml2 computes on texts.
  \<^item> \<open>Xml_Codec\<close>, \<open>Xml_Objects\<close>, \<open>Xml_Paths\<close>, \<open>Xml_Documents\<close>: its round trips, built like those of JSON, and that both formats
    carry the same configuration. \<open>Xml_Types\<close>: whatever the document, its parsers keep the model well-formed (\<open>lmap_wf\<close>), and
    crash only on empty tags.
  \<^item> \<open>Lmap_Io\<close> (\<^verbatim>\<open>src/lmap-io.c\<close>): the choice between the two formats, by the engine or by the extension of a file.
  \<^item> \<open>Pidfile\<close> (\<^verbatim>\<open>src/pidfile.c\<close>), \<open>Signals\<close> (\<^verbatim>\<open>src/signals.c\<close>), \<open>Daemon\<close> (\<^verbatim>\<open>src/lmapd.c\<close>): the pid file, the callbacks of the
    signals, and the daemon from its options over the rounds of the event loop to its exit. A run is given by what happens
    in each round, signals and timers with their times; the record \<open>host\<close> has what the system and the build contribute.
  \<^item> \<open>Lmapctl\<close> (\<^verbatim>\<open>src/lmapctl.c\<close>): the commands of the tool with what they print, the signals they send and what they leave in
    the file system.
  \<^item> \<open>Daemon_Runs\<close>, \<open>Daemon_Steps\<close>, \<open>Daemon_Events\<close>, \<open>Lmapctl_Runs\<close>: one daemon per run directory, how a run ends or goes on; that
    the event loop refines the step relation of \<open>Processes\<close>, so that its invariants hold in every round; that periodic events repeat
    and startup events do not, whatever signals and timers come in between; and the tool and the daemon together.

  What the lemmas show. For the data model: which texts the setters accept, how values are kept, that the
  validity functions accept exactly the complete and well referenced models. For files: that what the
  writers produce is read back, where it is not, and that moving and cleaning lose nothing they should keep,
  whatever the system refuses. For the daemon: invariants of all its reachable states and what it does next from them, and how
  whole runs end. For the tool: that it shows the state of the daemon and accepts the configurations that the daemon accepts. For
  documents: the round trips, and the inputs on which the code fails. Locales state the contracts that several
  operations share (a named list with its lookup, a field of the calendar with its setter, the accounting that every callback
  keeps, what is suppressed by its tags, the arrays of tags, bits and objects of a document); each is interpreted on the model's own
  definitions.

  Bounds. Recursion over directories carries the length of the path as its bound: \<open>remove_tree\<close> and its kin descend
  at most as deep as the names below the directory go, and the lemmas show that this is deep enough. Buffers of
  fixed size (\<^verbatim>\<open>NAME_MAX\<close>, \<^verbatim>\<open>PATH_MAX\<close>, the 256 entries of an argument vector) are kept with their sizes; numbers that the code
  keeps in 32 or 64 bits are words.

  Not modelled: allocation failure (every \<open>malloc\<close> succeeds), failure to write to a file that is open, the log messages
  (\<^verbatim>\<open>src/utils.c\<close>) and the standard error, the texts of \<open>usage\<close>, and of going into the background anything but that it succeeds or
  not. Failed assertions are faults of the model, as in a build that has them; for those of \<^verbatim>\<open>src/pidfile.c\<close>, which every call of
  \<open>exit\<close> meets, the model also has the build without them, which \<^verbatim>\<open>debian/rules\<close> makes. Functions that free objects have no counterpart, as the model's values are never shared.
\<close>

end
